(* ===== verification/Contiki_Prelude.thy ===== *)
theory Contiki_Prelude
  imports Main "HOL-Library.Word"
begin

unbundle bit_operations_syntax

text \<open>
  Shared vocabulary of the development: the machine integers of the MSP430 build
  (\<open>int\<close> is 16 bits, \<open>long\<close> is 32 bits), byte buffers, and the generic lemmas on
  lists, options and words that several components use.
\<close>

section \<open>Machine integers\<close>

type_synonym u8 = "8 word"
type_synonym u16 = "16 word"
type_synonym u32 = "32 word"

text \<open>A buffer is the list of its bytes; C's \<open>buf[i]\<close> is \<open>buf ! i\<close>.\<close>

type_synonym bytes = "u8 list"

text \<open>A 128-bit IPv6 address is the list of its sixteen bytes, as \<open>uip_ipaddr_t.u8\<close>.\<close>

type_synonym ipaddr = "u8 list"

named_theorems contiki_simps \<open>functional facts of the components, used with simp add\<close>

section \<open>Lists\<close>

lemma remove1_not_in [simp]: "x \<notin> set xs \<Longrightarrow> remove1 x xs = xs"
  by (rule remove1_idem)

lemma distinct_remove1_set: "distinct xs \<Longrightarrow> set (remove1 x xs) = set xs - {x}"
  by (rule set_remove1_eq)

lemma remove1_split:
  "distinct (as @ x # bs) \<Longrightarrow> remove1 x (as @ x # bs) = as @ bs"
  by (simp add: remove1_append)

lemma nth_list_update_if:
  "i < length xs \<Longrightarrow> (xs[i := v]) ! j = (if j = i then v else xs ! j)"
  by auto

lemma list_all_update:
  "list_all P xs \<Longrightarrow> P v \<Longrightarrow> list_all P (xs[i := v])"
  by (metis list_all_iff set_update_subset_insert subsetD insertE)

text \<open>\<open>updf\<close> rewrites one element of an array in place; out of range it does nothing.\<close>

definition updf :: "nat \<Rightarrow> ('a \<Rightarrow> 'a) \<Rightarrow> 'a list \<Rightarrow> 'a list" where
  "updf i f xs = (if i < length xs then xs[i := f (xs ! i)] else xs)"

lemma length_updf [simp]: "length (updf i f xs) = length xs"
  by (simp add: updf_def)

lemma nth_updf_eq [simp]: "i < length xs \<Longrightarrow> updf i f xs ! i = f (xs ! i)"
  by (simp add: updf_def)

lemma nth_updf_neq [simp]: "i \<noteq> j \<Longrightarrow> updf i f xs ! j = xs ! j"
  by (simp add: updf_def)

lemma nth_updf: "i < length xs \<Longrightarrow> updf i f xs ! j = (if j = i then f (xs ! i) else xs ! j)"
  by simp

lemma updf_out [simp]: "length xs \<le> i \<Longrightarrow> updf i f xs = xs"
  by (simp add: updf_def)

section \<open>Words\<close>

lemma u8_less_256 [simp]: "unat (x :: u8) < 256"
proof -
  have "unat x < 2 ^ LENGTH(8)" by (rule unsigned_less)
  then show ?thesis by simp
qed

lemma u16_less [simp]: "unat (x :: u16) < 65536"
proof -
  have "unat x < 2 ^ LENGTH(16)" by (rule unsigned_less)
  then show ?thesis by simp
qed

lemma u32_less [simp]: "unat (x :: u32) < 4294967296"
proof -
  have "unat x < 2 ^ LENGTH(32)" by (rule unsigned_less)
  then show ?thesis by simp
qed

lemma unat_minus_word:
  "unat (a - b :: 'a::len word) = (unat a + 2 ^ LENGTH('a) - unat b) mod 2 ^ LENGTH('a)"
proof -
  have lt: "unat b < 2 ^ LENGTH('a)" by (rule unsigned_less)
  have "int (unat (a - b)) = (int (unat a) - int (unat b)) mod 2 ^ LENGTH('a)"
    by (simp add: uint_word_ariths)
  also have "\<dots> = (int (unat a) + 2 ^ LENGTH('a) - int (unat b)) mod 2 ^ LENGTH('a)"
    by (metis (no_types) add_diff_eq diff_add_eq mod_add_self2)
  also have "\<dots> = int ((unat a + 2 ^ LENGTH('a) - unat b) mod 2 ^ LENGTH('a))"
  proof -
    have "int (unat a + 2 ^ LENGTH('a) - unat b) = int (unat a) + 2 ^ LENGTH('a) - int (unat b)"
      using lt by (subst of_nat_diff) (simp_all del: unsigned_less)
    then show ?thesis by (simp only: zmod_int of_nat_power of_nat_numeral)
  qed
  finally show ?thesis by (simp only: of_nat_eq_iff)
qed

lemma unat_and_mask: "unat ((x :: 'a::len word) AND mask k) = unat x mod 2 ^ k"
  by (simp add: take_bit_eq_mask [symmetric] unsigned_take_bit_eq take_bit_nat_def)

lemma u32_of_nat: "n < 4294967296 \<Longrightarrow> unat (word_of_nat n :: u32) = n"
  by (simp add: unat_of_nat take_bit_eq_mod)

lemma u16_of_nat: "n < 65536 \<Longrightarrow> unat (word_of_nat n :: u16) = n"
  by (simp add: unat_of_nat take_bit_eq_mod)

lemma u8_of_nat: "n < 256 \<Longrightarrow> unat (word_of_nat n :: u8) = n"
  by (simp add: unat_of_nat take_bit_eq_mod)

text \<open>Two's complement readings of the 16- and 32-bit words.\<close>

lemma sint_u32: "sint (w :: u32) = (if uint w < 2147483648 then uint w else uint w - 4294967296)"
proof -
  have lt: "uint w < 4294967296" "0 \<le> uint w" using uint_lt2p [of w] by auto
  have "sint w = (uint w + 2147483648) mod 4294967296 - 2147483648"
    by (simp add: sint_uint signed_take_bit_eq_take_bit_shift take_bit_eq_mod)
  also have "\<dots> = (if uint w < 2147483648 then uint w else uint w - 4294967296)"
    using lt by (cases "uint w < 2147483648") (simp_all add: mod_pos_pos_trivial mod_pos_geq)
  finally show ?thesis .
qed

lemma sint_u16: "sint (w :: u16) = (if uint w < 32768 then uint w else uint w - 65536)"
proof -
  have lt: "uint w < 65536" "0 \<le> uint w" using uint_lt2p [of w] by auto
  have "sint w = (uint w + 32768) mod 65536 - 32768"
    by (simp add: sint_uint signed_take_bit_eq_take_bit_shift take_bit_eq_mod)
  also have "\<dots> = (if uint w < 32768 then uint w else uint w - 65536)"
    using lt by (cases "uint w < 32768") (simp_all add: mod_pos_pos_trivial mod_pos_geq)
  finally show ?thesis .
qed

text \<open>An element-wise view of \<open>take\<close>/\<open>drop\<close> slices of a memory.\<close>

definition seg :: "nat \<Rightarrow> nat \<Rightarrow> 'a list \<Rightarrow> 'a list" where
  "seg p n xs = take n (drop p xs)"

lemma length_seg [simp]: "p + n \<le> length xs \<Longrightarrow> length (seg p n xs) = n"
  by (simp add: seg_def)

lemma nth_seg: "p + n \<le> length xs \<Longrightarrow> i < n \<Longrightarrow> seg p n xs ! i = xs ! (p + i)"
  by (simp add: seg_def)

lemma seg_eqI:
  assumes "p + n \<le> length xs" "q + n \<le> length ys"
    and "\<And>i. i < n \<Longrightarrow> xs ! (p + i) = ys ! (q + i)"
  shows "seg p n xs = seg q n ys"
  using assms by (intro nth_equalityI) (auto simp: nth_seg)

end
