(* ===== verification/Contiki_List.thy ===== *)
theory Contiki_List
  imports Contiki_Prelude
begin

text \<open>
  The linked list library, \<open>core/lib/list.c\<close>, at the level of its pointers.
  A \<open>list_t\<close> is the address of a head cell (\<open>void **\<close>), an element is the address of a
  structure whose first field is its \<open>next\<close> pointer. The memory \<open>lheap\<close> holds
  the head cells and the \<open>next\<close> fields; \<open>NULL\<close> is \<open>None\<close>. The loops of the C code
  follow \<open>next\<close> pointers and would not return on a cyclic list, so they are
  \<open>partial_function (option)\<close>: \<open>None\<close> stands for a run that never returns.
  The second half relates each operation to the list of the elements, frames
  included, and states the contract as the locale \<open>intrusive_list\<close>.
\<close>

section \<open>Memory\<close>

record ('l, 'a) lheap =
  cell :: "'l \<Rightarrow> 'a option"
  nxt :: "'a \<Rightarrow> 'a option"

definition set_cell :: "'l \<Rightarrow> 'a option \<Rightarrow> ('l, 'a) lheap \<Rightarrow> ('l, 'a) lheap" where
  "set_cell l v h = h\<lparr>cell := (cell h)(l := v)\<rparr>"

definition set_nxt :: "'a \<Rightarrow> 'a option \<Rightarrow> ('l, 'a) lheap \<Rightarrow> ('l, 'a) lheap" where
  "set_nxt x v h = h\<lparr>nxt := (nxt h)(x := v)\<rparr>"

lemma set_cell_simps [simp]:
  "cell (set_cell l v h) = (cell h)(l := v)" "nxt (set_cell l v h) = nxt h"
  by (simp_all add: set_cell_def)

lemma set_nxt_simps [simp]:
  "nxt (set_nxt x v h) = (nxt h)(x := v)" "cell (set_nxt x v h) = cell h"
  by (simp_all add: set_nxt_def)

section \<open>The operations of list.c\<close>

definition list_init :: "'l \<Rightarrow> ('l, 'a) lheap \<Rightarrow> ('l, 'a) lheap" where
  "list_init l h = set_cell l None h"

definition list_head :: "'l \<Rightarrow> ('l, 'a) lheap \<Rightarrow> 'a option" where
  "list_head l h = cell h l"

definition list_copy :: "'l \<Rightarrow> 'l \<Rightarrow> ('l, 'a) lheap \<Rightarrow> ('l, 'a) lheap" where
  "list_copy dest src h = set_cell dest (cell h src) h"

partial_function (option) tail_loop :: "('l, 'a) lheap \<Rightarrow> 'a \<Rightarrow> 'a option" where
  "tail_loop h l = (case nxt h l of None \<Rightarrow> Some l | Some l' \<Rightarrow> tail_loop h l')"

definition list_tail :: "'l \<Rightarrow> ('l, 'a) lheap \<Rightarrow> 'a option option" where
  "list_tail l h = (case cell h l of None \<Rightarrow> Some None | Some x \<Rightarrow> map_option Some (tail_loop h x))"

partial_function (option) remove_loop ::
  "'l \<Rightarrow> 'a \<Rightarrow> 'a option \<Rightarrow> 'a option \<Rightarrow> ('l, 'a) lheap \<Rightarrow> ('l, 'a) lheap option" where
  "remove_loop ls item r l h = (case l of None \<Rightarrow> Some h
     | Some x \<Rightarrow>
        if x = item
        then Some (set_nxt x None
               (case r of None \<Rightarrow> set_cell ls (nxt h x) h | Some p \<Rightarrow> set_nxt p (nxt h x) h))
        else remove_loop ls item (Some x) (nxt h x) h)"

definition list_remove :: "'l \<Rightarrow> 'a \<Rightarrow> ('l, 'a) lheap \<Rightarrow> ('l, 'a) lheap option" where
  "list_remove l item h =
     (case cell h l of None \<Rightarrow> Some h | Some x \<Rightarrow> remove_loop l item None (Some x) h)"

definition list_add :: "'l \<Rightarrow> 'a \<Rightarrow> ('l, 'a) lheap \<Rightarrow> ('l, 'a) lheap option" where
  "list_add ls item h =
     Option.bind (list_remove ls item h) (\<lambda>h1.
       let h2 = set_nxt item None h1 in
       Option.bind (list_tail ls h2) (\<lambda>l.
         case l of None \<Rightarrow> Some (set_cell ls (Some item) h2)
                 | Some t \<Rightarrow> Some (set_nxt t (Some item) h2)))"

definition list_push :: "'l \<Rightarrow> 'a \<Rightarrow> ('l, 'a) lheap \<Rightarrow> ('l, 'a) lheap option" where
  "list_push ls item h =
     Option.bind (list_remove ls item h) (\<lambda>h1.
       Some (set_cell ls (Some item) (set_nxt item (cell h1 ls) h1)))"

partial_function (option) chop_loop :: "('l, 'a) lheap \<Rightarrow> 'a \<Rightarrow> ('a \<times> 'a) option" where
  "chop_loop h l = (case nxt h l of None \<Rightarrow> None
     | Some m \<Rightarrow> (case nxt h m of None \<Rightarrow> Some (l, m) | Some _ \<Rightarrow> chop_loop h m))"

definition list_chop :: "'l \<Rightarrow> ('l, 'a) lheap \<Rightarrow> ('a option \<times> ('l, 'a) lheap) option" where
  "list_chop ls h = (case cell h ls of None \<Rightarrow> Some (None, h)
     | Some x \<Rightarrow> (case nxt h x of None \<Rightarrow> Some (Some x, set_cell ls None h)
        | Some _ \<Rightarrow> map_option (\<lambda>(l, r). (Some r, set_nxt l None h)) (chop_loop h x)))"

definition list_pop :: "'l \<Rightarrow> ('l, 'a) lheap \<Rightarrow> 'a option \<times> ('l, 'a) lheap" where
  "list_pop ls h = (case cell h ls of None \<Rightarrow> (None, h)
     | Some x \<Rightarrow> (Some x, set_cell ls (nxt h x) h))"

partial_function (option) length_loop :: "('l, 'a) lheap \<Rightarrow> 'a option \<Rightarrow> nat \<Rightarrow> nat option" where
  "length_loop h l n = (case l of None \<Rightarrow> Some n | Some x \<Rightarrow> length_loop h (nxt h x) (Suc n))"

definition list_length :: "'l \<Rightarrow> ('l, 'a) lheap \<Rightarrow> nat option" where
  "list_length ls h = length_loop h (cell h ls) 0"

definition list_insert ::
  "'l \<Rightarrow> 'a option \<Rightarrow> 'a \<Rightarrow> ('l, 'a) lheap \<Rightarrow> ('l, 'a) lheap option" where
  "list_insert ls previtem newitem h = (case previtem of None \<Rightarrow> list_push ls newitem h
     | Some p \<Rightarrow> Some (set_nxt p (Some newitem) (set_nxt newitem (nxt h p) h)))"

definition list_item_next :: "'a option \<Rightarrow> ('l, 'a) lheap \<Rightarrow> 'a option" where
  "list_item_next item h = (case item of None \<Rightarrow> None | Some x \<Rightarrow> nxt h x)"

section \<open>Lists in memory\<close>

text \<open>\<open>path n p xs\<close>: the pointer \<open>p\<close> leads through exactly the elements \<open>xs\<close> to \<open>NULL\<close>.\<close>

primrec path :: "('a \<Rightarrow> 'a option) \<Rightarrow> 'a option \<Rightarrow> 'a list \<Rightarrow> bool" where
  "path n p [] \<longleftrightarrow> p = None"
| "path n p (x # xs) \<longleftrightarrow> p = Some x \<and> path n (n x) xs"

definition is_list :: "('l, 'a) lheap \<Rightarrow> 'l \<Rightarrow> 'a list \<Rightarrow> bool" where
  "is_list h l xs \<longleftrightarrow> path (nxt h) (cell h l) xs \<and> distinct xs"

lemma path_None [simp]: "path n None xs \<longleftrightarrow> xs = []"
  by (cases xs) auto

lemma path_Some: "path n (Some x) xs \<longleftrightarrow> (\<exists>ys. xs = x # ys \<and> path n (n x) ys)"
  by (cases xs) auto

lemma path_upd [simp]: "x \<notin> set xs \<Longrightarrow> path (n(x := v)) p xs = path n p xs"
  by (induction xs arbitrary: p) auto

lemma path_after: "path n p (xs @ y # ys) \<Longrightarrow> path n (n y) ys"
  by (induction xs arbitrary: p) auto

lemma path_snoc:
  "path n p (xs @ [y]) \<Longrightarrow> y \<notin> set xs \<Longrightarrow> z \<noteq> y \<Longrightarrow> z \<notin> set xs
     \<Longrightarrow> path (n(z := None, y := Some z)) p (xs @ [y, z])"
  by (induction xs arbitrary: p) auto

text \<open>Redirecting the \<open>next\<close> field of the predecessor cuts an element out.\<close>

lemma path_cut:
  "path n p (xs @ y # z # zs) \<Longrightarrow> distinct (xs @ y # z # zs)
     \<Longrightarrow> path (n(y := n z, z := None)) p (xs @ y # zs)"
  by (induction xs arbitrary: p) auto

lemma path_cut_last:
  "path n p (xs @ [y, z]) \<Longrightarrow> distinct (xs @ [y, z]) \<Longrightarrow> path (n(y := None)) p (xs @ [y])"
  by (induction xs arbitrary: p) auto

lemma path_splice:
  "path n p (xs @ y # ys) \<Longrightarrow> distinct (xs @ y # ys) \<Longrightarrow> z \<notin> set (xs @ y # ys)
     \<Longrightarrow> path (n(z := n y, y := Some z)) p (xs @ y # z # ys)"
  by (induction xs arbitrary: p) auto

lemma tail_loop_path:
  "path (nxt h) (Some x) (xs @ [y]) \<Longrightarrow> tail_loop h x = Some y"
proof (induction xs arbitrary: x)
  case Nil
  then show ?case by (simp add: tail_loop.simps)
next
  case (Cons a xs)
  then obtain b where "nxt h x = Some b" by (cases xs) auto
  moreover from this Cons.prems have "path (nxt h) (Some b) (xs @ [y])" by simp
  ultimately show ?case using Cons.IH [of b] by (subst tail_loop.simps) simp
qed

lemma chop_loop_path:
  "path (nxt h) (Some x) (xs @ [y, z]) \<Longrightarrow> chop_loop h x = Some (y, z)"
proof (induction xs arbitrary: x)
  case Nil
  then show ?case by (simp add: chop_loop.simps)
next
  case (Cons a xs)
  then obtain b c where "nxt h x = Some b" "nxt h b = Some c"
    by (cases xs; cases "tl xs") auto
  moreover from this Cons.prems have "path (nxt h) (Some b) (xs @ [y, z])" by simp
  ultimately show ?case using Cons.IH [of b] by (subst chop_loop.simps) simp
qed

lemma length_loop_path: "path (nxt h) p xs \<Longrightarrow> length_loop h p k = Some (k + length xs)"
  by (induction xs arbitrary: p k) (simp_all add: length_loop.simps)

lemma remove_loop_notin:
  "path (nxt h) p xs \<Longrightarrow> item \<notin> set xs \<Longrightarrow> remove_loop ls item r p h = Some h"
  by (induction xs arbitrary: p r) (auto simp: remove_loop.simps)

lemma remove_loop_in:
  "path (nxt h) p (as @ item # bs) \<Longrightarrow> item \<notin> set as \<Longrightarrow>
     remove_loop ls item r p h = Some (set_nxt item None
       (case (if as = [] then r else Some (last as)) of
          None \<Rightarrow> set_cell ls (nxt h item) h | Some q \<Rightarrow> set_nxt q (nxt h item) h))"
  by (induction as arbitrary: p r) (auto simp: remove_loop.simps)

section \<open>Refinement: the operations on the list of elements\<close>

lemma is_list_distinct: "is_list h l xs \<Longrightarrow> distinct xs"
  by (simp add: is_list_def)

lemma path_unique: "path n p xs \<Longrightarrow> path n p ys \<Longrightarrow> xs = ys"
proof (induction xs arbitrary: p ys)
  case Nil
  then show ?case by simp
next
  case (Cons x xs)
  then show ?case by (cases ys) auto
qed

lemma is_list_unique: "is_list h l xs \<Longrightarrow> is_list h l ys \<Longrightarrow> xs = ys"
  by (auto simp: is_list_def intro: path_unique)

text \<open>
  \<open>same_list\<close> is the frame: another list, whose head cell and elements the operation
  does not touch, is unchanged.
\<close>

definition frame :: "'l \<Rightarrow> 'a set \<Rightarrow> ('l, 'a) lheap \<Rightarrow> ('l, 'a) lheap \<Rightarrow> bool" where
  "frame l A h h' \<longleftrightarrow> (\<forall>m. m \<noteq> l \<longrightarrow> cell h' m = cell h m) \<and> (\<forall>x. x \<notin> A \<longrightarrow> nxt h' x = nxt h x)"

lemma frame_refl [simp]: "frame l A h h"
  by (simp add: frame_def)

lemma frame_trans: "frame l A h h1 \<Longrightarrow> frame l A h1 h2 \<Longrightarrow> frame l A h h2"
  by (simp add: frame_def)

lemma path_cong: "(\<And>x. x \<in> set xs \<Longrightarrow> n x = n' x) \<Longrightarrow> path n p xs = path n' p xs"
  by (induction xs arbitrary: p) auto

lemma frame_is_list:
  assumes "frame l A h h'" "m \<noteq> l" "set ys \<inter> A = {}" "is_list h m ys"
  shows "is_list h' m ys"
proof -
  have "path (nxt h) (cell h m) ys = path (nxt h') (cell h m) ys"
    by (rule path_cong) (use assms in \<open>auto simp: frame_def\<close>)
  with assms show ?thesis by (auto simp: is_list_def frame_def)
qed

lemma list_init_refines: "is_list (list_init l h) l []"
  by (simp add: list_init_def is_list_def)

lemma list_head_refines:
  "is_list h l xs \<Longrightarrow> list_head l h = (case xs of [] \<Rightarrow> None | x # _ \<Rightarrow> Some x)"
  by (cases xs) (auto simp: list_head_def is_list_def)

lemma list_copy_refines: "is_list h s xs \<Longrightarrow> is_list (list_copy d s h) d xs"
  by (simp add: list_copy_def is_list_def)

lemma list_tail_refines:
  assumes "is_list h l xs"
  shows "list_tail l h = Some (if xs = [] then None else Some (last xs))"
proof (cases xs rule: rev_cases)
  case Nil
  with assms show ?thesis by (simp add: is_list_def list_tail_def)
next
  case (snoc ys y)
  with assms obtain x where "cell h l = Some x" by (cases ys) (auto simp: is_list_def)
  with assms snoc tail_loop_path [of h x ys y] show ?thesis
    by (simp add: is_list_def list_tail_def)
qed

lemma list_length_refines: "is_list h l xs \<Longrightarrow> list_length l h = Some (length xs)"
  using length_loop_path [of h "cell h l" xs 0] by (simp add: list_length_def is_list_def)

lemma list_remove_refines:
  assumes "is_list h l xs"
  shows "\<exists>h'. list_remove l x h = Some h' \<and> is_list h' l (remove1 x xs)
           \<and> (x \<in> set xs \<longrightarrow> nxt h' x = None) \<and> frame l (set xs) h h'
           \<and> (x \<notin> set xs \<longrightarrow> h' = h)"
proof (cases "x \<in> set xs")
  case False
  have "list_remove l x h = Some h"
    using assms False by (auto simp: list_remove_def is_list_def remove_loop_notin split: option.split)
  with assms False show ?thesis by simp
next
  case True
  then obtain as bs where xs: "xs = as @ x # bs" and nin: "x \<notin> set as" by (auto dest: split_list_first)
  have p: "path (nxt h) (cell h l) (as @ x # bs)" and d: "distinct (as @ x # bs)"
    using assms xs by (auto simp: is_list_def)
  have "list_remove l x h = remove_loop l x None (cell h l) h"
    by (auto simp: list_remove_def remove_loop.simps split: option.split)
  also have "\<dots> = Some (set_nxt x None
       (case (if as = [] then None else Some (last as)) of
          None \<Rightarrow> set_cell l (nxt h x) h | Some q \<Rightarrow> set_nxt q (nxt h x) h))"
    using remove_loop_in [OF p nin] by simp
  finally have eq: "list_remove l x h = \<dots>" .
  show ?thesis
  proof (cases as rule: rev_cases)
    case Nil
    with p d have "path (nxt h) (nxt h x) bs" "x \<notin> set bs" by auto
    with eq Nil d xs show ?thesis by (simp add: is_list_def frame_def)
  next
    case (snoc cs c)
    with p d have "path ((nxt h)(c := nxt h x, x := None)) (cell h l) (cs @ c # bs)"
      using path_cut [of "nxt h" "cell h l" cs c x bs] by simp
    with eq snoc d xs show ?thesis by (auto simp: is_list_def frame_def remove1_append)
  qed
qed

text \<open>\<open>list_add\<close> and \<open>list_push\<close> first take the item off the list.\<close>

definition lst_add :: "'a list \<Rightarrow> 'a \<Rightarrow> 'a list" where
  "lst_add xs x = remove1 x xs @ [x]"

definition lst_push :: "'a list \<Rightarrow> 'a \<Rightarrow> 'a list" where
  "lst_push xs x = x # remove1 x xs"

lemma list_add_refines:
  assumes "is_list h l xs"
  shows "\<exists>h'. list_add l x h = Some h' \<and> is_list h' l (lst_add xs x) \<and> frame l (insert x (set xs)) h h'"
proof -
  from list_remove_refines [OF assms, of x] obtain h1 where
    h1: "list_remove l x h = Some h1" "is_list h1 l (remove1 x xs)" "frame l (set xs) h h1" by blast
  let ?ys = "remove1 x xs"
  have nin: "x \<notin> set ?ys" using is_list_distinct [OF assms] by simp
  define h2 where "h2 = set_nxt x None h1"
  have l2: "is_list h2 l ?ys" using h1(2) nin by (simp add: is_list_def h2_def)
  have f2: "frame l (insert x (set xs)) h h2" using h1(3) by (simp add: frame_def h2_def)
  show ?thesis
  proof (cases ?ys rule: rev_cases)
    case Nil
    have "list_add l x h = Some (set_cell l (Some x) h2)"
      using h1(1) list_tail_refines [OF l2] Nil by (simp add: list_add_def h2_def)
    with Nil f2 show ?thesis
      by (auto simp: is_list_def lst_add_def h2_def frame_def)
  next
    case (snoc zs z)
    have "list_add l x h = Some (set_nxt z (Some x) h2)"
      using h1(1) list_tail_refines [OF l2] snoc by (simp add: list_add_def h2_def)
    moreover have "path ((nxt h1)(x := None, z := Some x)) (cell h1 l) (zs @ [z, x])"
      using h1(2) nin snoc path_snoc [of "nxt h1" "cell h1 l" zs z x]
      by (auto simp: is_list_def)
    moreover have "z \<in> set xs" using snoc by (metis in_set_conv_decomp notin_set_remove1)
    ultimately show ?thesis using snoc f2 nin h1(2)
      by (auto simp: is_list_def lst_add_def h2_def frame_def)
  qed
qed

lemma list_push_refines:
  assumes "is_list h l xs"
  shows "\<exists>h'. list_push l x h = Some h' \<and> is_list h' l (lst_push xs x) \<and> frame l (insert x (set xs)) h h'"
proof -
  from list_remove_refines [OF assms, of x] obtain h1 where
    h1: "list_remove l x h = Some h1" "is_list h1 l (remove1 x xs)" "frame l (set xs) h h1" by blast
  have nin: "x \<notin> set (remove1 x xs)" using is_list_distinct [OF assms] by simp
  from h1 nin show ?thesis
    by (auto simp: list_push_def is_list_def lst_push_def frame_def)
qed

lemma list_pop_refines:
  assumes "is_list h l xs"
  shows "\<exists>h'. list_pop l h = (case xs of [] \<Rightarrow> None | x # _ \<Rightarrow> Some x, h')
           \<and> is_list h' l (tl xs) \<and> frame l (set xs) h h'"
  using assms by (cases xs) (auto simp: list_pop_def is_list_def frame_def)

lemma list_chop_refines:
  assumes "is_list h l xs"
  shows "\<exists>h'. list_chop l h = Some (if xs = [] then None else Some (last xs), h')
           \<and> is_list h' l (butlast xs) \<and> frame l (set xs) h h'"
proof (cases xs rule: rev_cases)
  case Nil
  with assms show ?thesis by (simp add: list_chop_def is_list_def)
next
  case (snoc ys z)
  show ?thesis
  proof (cases ys rule: rev_cases)
    case Nil
    with assms snoc show ?thesis by (auto simp: list_chop_def is_list_def frame_def)
  next
    case (snoc zs y)
    with \<open>xs = ys @ [z]\<close> have xs: "xs = zs @ [y, z]" by simp
    with assms obtain x where x: "cell h l = Some x" by (cases zs) (auto simp: is_list_def)
    have "\<exists>w. nxt h x = Some w" using assms xs x by (cases zs; cases "tl zs") (auto simp: is_list_def)
    moreover have "chop_loop h x = Some (y, z)"
      using assms xs x chop_loop_path [of h x zs y z] by (simp add: is_list_def)
    ultimately have "list_chop l h = Some (Some z, set_nxt y None h)"
      using x by (auto simp: list_chop_def)
    moreover have "path ((nxt h)(y := None)) (cell h l) (zs @ [y])"
      using assms xs path_cut_last [of "nxt h" "cell h l" zs y z] by (simp add: is_list_def)
    ultimately show ?thesis using assms xs
      by (auto simp: is_list_def frame_def butlast_append)
  qed
qed

lemma list_insert_refines:
  assumes "is_list h l (as @ p # bs)" "x \<notin> set (as @ p # bs)"
  shows "\<exists>h'. list_insert l (Some p) x h = Some h' \<and> is_list h' l (as @ p # x # bs)"
  using assms path_splice [of "nxt h" "cell h l" as p bs x]
  by (auto simp: list_insert_def is_list_def)

section \<open>The contract as a locale\<close>

text \<open>
  What the clients of list.c rely on: the operations return, and the list of elements
  changes as the documentation says. \<open>rep h xs\<close> is "the list variable holds exactly \<open>xs\<close>".
\<close>

locale intrusive_list =
  fixes rep :: "'h \<Rightarrow> 'a list \<Rightarrow> bool"
    and init :: "'h \<Rightarrow> 'h"
    and add push remove :: "'a \<Rightarrow> 'h \<Rightarrow> 'h option"
    and pop :: "'h \<Rightarrow> 'a option \<times> 'h"
    and chop :: "'h \<Rightarrow> ('a option \<times> 'h) option"
    and len :: "'h \<Rightarrow> nat option"
  assumes rep_init: "rep (init h) []"
    and rep_unique: "rep h xs \<Longrightarrow> rep h ys \<Longrightarrow> xs = ys"
    and rep_distinct: "rep h xs \<Longrightarrow> distinct xs"
    and add_law: "rep h xs \<Longrightarrow> \<exists>h'. add x h = Some h' \<and> rep h' (lst_add xs x)"
    and push_law: "rep h xs \<Longrightarrow> \<exists>h'. push x h = Some h' \<and> rep h' (lst_push xs x)"
    and remove_law: "rep h xs \<Longrightarrow> \<exists>h'. remove x h = Some h' \<and> rep h' (remove1 x xs)"
    and pop_law: "rep h xs \<Longrightarrow>
      \<exists>h'. pop h = (case xs of [] \<Rightarrow> None | x # _ \<Rightarrow> Some x, h') \<and> rep h' (tl xs)"
    and chop_law: "rep h xs \<Longrightarrow>
      \<exists>h'. chop h = Some (if xs = [] then None else Some (last xs), h') \<and> rep h' (butlast xs)"
    and len_law: "rep h xs \<Longrightarrow> len h = Some (length xs)"
begin

text \<open>Adding every element of a list of new elements queues them in that order.\<close>

primrec add_all :: "'a list \<Rightarrow> 'h \<Rightarrow> 'h option" where
  "add_all [] h = Some h"
| "add_all (x # xs) h = Option.bind (add x h) (add_all xs)"

primrec pop_n :: "nat \<Rightarrow> 'h \<Rightarrow> 'a list \<times> 'h" where
  "pop_n 0 h = ([], h)"
| "pop_n (Suc n) h = (case pop h of (None, h1) \<Rightarrow> ([], h1)
     | (Some x, h1) \<Rightarrow> (case pop_n n h1 of (xs, h2) \<Rightarrow> (x # xs, h2)))"

lemma add_all_rep:
  "rep h ys \<Longrightarrow> distinct (ys @ xs) \<Longrightarrow> \<exists>h'. add_all xs h = Some h' \<and> rep h' (ys @ xs)"
proof (induction xs arbitrary: h ys)
  case Nil
  then show ?case by simp
next
  case (Cons x xs)
  from add_law [OF Cons.prems(1), of x] obtain h1 where
    h1: "add x h = Some h1" "rep h1 (lst_add ys x)" by blast
  from Cons.prems(2) have "lst_add ys x = ys @ [x]" by (simp add: lst_add_def)
  with h1(2) have "rep h1 (ys @ [x])" by simp
  from Cons.IH [OF this] Cons.prems(2) h1(1) show ?case by auto
qed

lemma pop_n_rep: "rep h xs \<Longrightarrow> \<exists>h'. pop_n n h = (take n xs, h') \<and> rep h' (drop n xs)"
proof (induction n arbitrary: h xs)
  case 0
  then show ?case by simp
next
  case (Suc n)
  from pop_law [OF Suc.prems] obtain h1 where
    h1: "pop h = (case xs of [] \<Rightarrow> None | x # _ \<Rightarrow> Some x, h1)" "rep h1 (tl xs)" by blast
  from Suc.IH [OF h1(2)] h1 show ?case by (cases xs) auto
qed

lemma fifo:
  assumes "distinct xs"
  shows "\<exists>h1 h2. add_all xs (init h) = Some h1 \<and> pop_n (length xs) h1 = (xs, h2) \<and> rep h2 []"
proof -
  from add_all_rep [OF rep_init, of xs h] assms obtain h1 where
    "add_all xs (init h) = Some h1" "rep h1 xs" by auto
  with pop_n_rep [of h1 xs "length xs"] show ?thesis by auto
qed

lemma push_pop:
  assumes "rep h xs"
  shows "\<exists>h1 h2. push x h = Some h1 \<and> pop h1 = (Some x, h2) \<and> rep h2 (remove1 x xs)"
proof -
  from push_law [OF assms, of x] obtain h1 where h1: "push x h = Some h1" "rep h1 (lst_push xs x)" by blast
  from pop_law [OF h1(2)] h1(1) show ?thesis by (auto simp: lst_push_def)
qed

lemma add_chop:
  assumes "rep h xs"
  shows "\<exists>h1 h2. add x h = Some h1 \<and> chop h1 = Some (Some x, h2) \<and> rep h2 (remove1 x xs)"
proof -
  from add_law [OF assms, of x] obtain h1 where h1: "add x h = Some h1" "rep h1 (lst_add xs x)" by blast
  from chop_law [OF h1(2)] h1(1) show ?thesis by (auto simp: lst_add_def)
qed

lemma add_remove:
  assumes "rep h xs" "x \<notin> set xs"
  shows "\<exists>h1 h2. add x h = Some h1 \<and> remove x h1 = Some h2 \<and> rep h2 xs"
proof -
  from add_law [OF assms(1), of x] obtain h1 where h1: "add x h = Some h1" "rep h1 (lst_add xs x)" by blast
  with assms(2) have "rep h1 (xs @ [x])" by (simp add: lst_add_def)
  from remove_law [OF this, of x] h1(1) assms(2) show ?thesis by (auto simp: remove1_append)
qed

lemma add_len:
  assumes "rep h xs"
  shows "\<exists>h1. add x h = Some h1 \<and> len h1 = Some (if x \<in> set xs then length xs else Suc (length xs))"
proof -
  from add_law [OF assms, of x] obtain h1 where h1: "add x h = Some h1" "rep h1 (lst_add xs x)" by blast
  have "x \<in> set xs \<Longrightarrow> 0 < length xs" by (cases xs) auto
  with len_law [OF h1(2)] h1(1) show ?thesis by (auto simp: lst_add_def length_remove1)
qed

end

text \<open>The pointer model provides the contract, for each list variable \<open>l\<close>.\<close>

interpretation clist: intrusive_list "\<lambda>h. is_list h l" "list_init l" "list_add l" "list_push l"
  "list_remove l" "list_pop l" "list_chop l" "list_length l" for l
proof (unfold_locales, goal_cases)
  case (1 h) show ?case by (rule list_init_refines)
next
  case (2 h xs ys) then show ?case by (rule is_list_unique)
next
  case (3 h xs) then show ?case by (rule is_list_distinct)
next
  case (4 h xs x) from list_add_refines [OF this, of x] show ?case by blast
next
  case (5 h xs x) from list_push_refines [OF this, of x] show ?case by blast
next
  case (6 h xs x) from list_remove_refines [OF this, of x] show ?case by blast
next
  case (7 h xs) from list_pop_refines [OF this] show ?case by blast
next
  case (8 h xs) from list_chop_refines [OF this] show ?case by blast
next
  case (9 h xs) then show ?case by (rule list_length_refines)
qed

section \<open>Properties\<close>

text \<open>\<open>list_add\<close> always terminates on a well-formed list, moves or appends the item to the
  end of it, and leaves every other list with no common element as it was.\<close>

theorem list_add_moves_to_end:
  assumes "is_list h l xs" "is_list h m ys" "l \<noteq> m" "set ys \<inter> insert x (set xs) = {}"
  shows "\<exists>h'. list_add l x h = Some h' \<and> is_list h' l (remove1 x xs @ [x]) \<and> is_list h' m ys"
proof -
  from list_add_refines [OF assms(1), of x] obtain h' where
    h': "list_add l x h = Some h'" "is_list h' l (lst_add xs x)" "frame l (insert x (set xs)) h h'" by blast
  from frame_is_list [OF h'(3) _ assms(4) assms(2)] assms(3) have "is_list h' m ys" by blast
  with h' show ?thesis by (auto simp: lst_add_def)
qed

definition demo_heap :: "(bool, nat) lheap" where
  "demo_heap = \<lparr>cell = (\<lambda>l. if l then Some 1 else Some 3),
     nxt = (\<lambda>x. if x = 1 then Some 2 else None)\<rparr>"

lemma demo_heap_lists: "is_list demo_heap True [1, 2]" "is_list demo_heap False [3]"
  by (simp_all add: demo_heap_def is_list_def)

theorem list_add_moves_to_end_witness:
  "\<exists>h'. list_add True 1 demo_heap = Some h' \<and> is_list h' True [2, 1] \<and> is_list h' False [3]"
  using list_add_moves_to_end [OF demo_heap_lists(1) demo_heap_lists(2), of 1] by simp

text \<open>A list filled with \<open>list_add\<close> and emptied with \<open>list_pop\<close> gives its elements back
  in the order of insertion.\<close>

theorem list_fifo:
  assumes "distinct xs"
  shows "\<exists>h1 h2. clist.add_all l xs (list_init l h) = Some h1
     \<and> clist.pop_n l (length xs) h1 = (xs, h2) \<and> is_list h2 l []"
  using assms by (rule clist.fifo)

theorem list_fifo_witness:
  "\<exists>h1 h2. clist.add_all True [5, 3, 4 :: nat] (list_init True demo_heap) = Some h1
     \<and> clist.pop_n True (length [5, 3, 4 :: nat]) h1 = ([5, 3, 4], h2) \<and> is_list h2 True []"
  by (rule list_fifo) simp

end
