(* ===== verification/Contiki_Process.thy ===== *)
theory Contiki_Process
  imports Contiki_List
begin

text \<open>
  The process kernel, \<open>core/sys/process.c\<close>: the list of processes, synchronous calls and
  exits, the ring of pending events, polls and the main loop step \<open>process_run\<close>.
  A process is the address of its \<open>struct process\<close>, a natural number; the fields of all
  processes are functions of the address. A thread is code outside the kernel, so it is a
  parameter: for a continuation, an event and its data it gives a program over the kernel's
  interface. The kernel calls threads and threads call the kernel, so these functions take
  fuel, and \<open>None\<close> is a run that has not returned yet; \<open>process_run_returns\<close> shows when
  there is enough of it.
\<close>

section \<open>State\<close>

text \<open>What a \<open>process_data_t\<close> points to: nothing, a process, a timer, or something else.\<close>

datatype process_data = NoData | ProcessData nat | TimerData nat | OtherData nat

record event_data =
  ev_ev :: u8
  ev_data :: process_data
  ev_p :: "nat option"

record 'm kernel =
  process_list :: "nat option"
  process_current :: "nat option"
  pr_next :: "nat \<Rightarrow> nat option"
  pr_pt :: "nat \<Rightarrow> nat"
  pr_state :: "nat \<Rightarrow> u8"
  pr_needspoll :: "nat \<Rightarrow> bool"
  lastevent :: u8
  nevents :: u8
  fevent :: u8
  events :: "event_data list"
  poll_requested :: bool
  process_maxevents :: u8
  memory :: 'm

definition PROCESS_CONF_NUMEVENTS :: nat where "PROCESS_CONF_NUMEVENTS = 8"

definition PROCESS_EVENT_INIT :: u8 where "PROCESS_EVENT_INIT = 0x81"
definition PROCESS_EVENT_POLL :: u8 where "PROCESS_EVENT_POLL = 0x82"
definition PROCESS_EVENT_EXIT :: u8 where "PROCESS_EVENT_EXIT = 0x83"
definition PROCESS_EVENT_EXITED :: u8 where "PROCESS_EVENT_EXITED = 0x87"
definition PROCESS_EVENT_TIMER :: u8 where "PROCESS_EVENT_TIMER = 0x88"
definition PROCESS_EVENT_MAX :: u8 where "PROCESS_EVENT_MAX = 0x8a"

definition PROCESS_STATE_NONE :: u8 where "PROCESS_STATE_NONE = 0"
definition PROCESS_STATE_RUNNING :: u8 where "PROCESS_STATE_RUNNING = 1"
definition PROCESS_STATE_CALLED :: u8 where "PROCESS_STATE_CALLED = 2"

lemmas process_codes = PROCESS_EVENT_INIT_def PROCESS_EVENT_POLL_def PROCESS_EVENT_EXIT_def
  PROCESS_EVENT_EXITED_def PROCESS_EVENT_TIMER_def PROCESS_EVENT_MAX_def PROCESS_STATE_NONE_def
  PROCESS_STATE_RUNNING_def PROCESS_STATE_CALLED_def

definition set_state :: "nat \<Rightarrow> u8 \<Rightarrow> 'm kernel \<Rightarrow> 'm kernel" where
  "set_state p v s = s\<lparr>pr_state := (pr_state s)(p := v)\<rparr>"

text \<open>
  The program of one activation of a thread: it returns (\<open>True\<close> for \<open>PT_EXITED\<close> and
  \<open>PT_ENDED\<close>), computes on the state (\<open>None\<close> for a computation that does not return), or calls the kernel in one of the three ways that
  run other threads before they return.
\<close>

datatype 'm prog =
    Return bool
  | Act "'m kernel \<Rightarrow> ('m kernel \<times> 'm prog) option"
  | Post_synch nat u8 process_data "'m prog"
  | Start nat process_data "'m prog"
  | Exit nat "'m prog"

type_synonym 'm threads = "nat \<Rightarrow> (nat \<Rightarrow> u8 \<Rightarrow> process_data \<Rightarrow> 'm prog) option"

section \<open>Events and polls\<close>

definition process_alloc_event :: "'m kernel \<Rightarrow> u8 \<times> 'm kernel" where
  "process_alloc_event s = (lastevent s, s\<lparr>lastevent := lastevent s + 1\<rparr>)"

definition process_init :: "'m kernel \<Rightarrow> 'm kernel" where
  "process_init s = s\<lparr>lastevent := PROCESS_EVENT_MAX, nevents := 0, fevent := 0, process_maxevents := 0,
     process_current := None, process_list := None\<rparr>"

text \<open>\<open>PROCESS_ERR_OK\<close> is \<open>True\<close>, \<open>PROCESS_ERR_FULL\<close> is \<open>False\<close>.\<close>

definition process_post :: "nat option \<Rightarrow> u8 \<Rightarrow> process_data \<Rightarrow> 'm kernel \<Rightarrow> bool \<times> 'm kernel" where
  "process_post p ev dat s =
     (if nevents s = 8 then (False, s)
      else (let snum = unat (fevent s + nevents s) mod PROCESS_CONF_NUMEVENTS
            in (True, s\<lparr>events := (events s)[snum := \<lparr>ev_ev = ev, ev_data = dat, ev_p = p\<rparr>],
                  nevents := nevents s + 1,
                  process_maxevents := (if process_maxevents s < nevents s + 1 then nevents s + 1 else process_maxevents s)\<rparr>)))"

definition process_poll :: "nat option \<Rightarrow> 'm kernel \<Rightarrow> 'm kernel" where
  "process_poll p s =
     (case p of
        None \<Rightarrow> s
      | Some q \<Rightarrow>
          if pr_state s q = PROCESS_STATE_RUNNING \<or> pr_state s q = PROCESS_STATE_CALLED
          then s\<lparr>pr_needspoll := (pr_needspoll s)(q := True), poll_requested := True\<rparr>
          else s)"

definition process_is_running :: "nat \<Rightarrow> 'm kernel \<Rightarrow> bool" where
  "process_is_running p s \<longleftrightarrow> pr_state s p \<noteq> PROCESS_STATE_NONE"

definition process_nevents :: "'m kernel \<Rightarrow> nat" where
  "process_nevents s = unat (nevents s) + (if poll_requested s then 1 else 0)"

text \<open>The first half of \<open>do_event\<close>: the oldest event leaves the ring.\<close>

definition next_event :: "'m kernel \<Rightarrow> event_data \<times> 'm kernel" where
  "next_event s = (events s ! unat (fevent s),
     s\<lparr>fevent := (fevent s + 1) mod 8, nevents := nevents s - 1\<rparr>)"

section \<open>The process list\<close>

text \<open>The search loops over a list of \<open>next\<close> pointers; on a cyclic list without the element they do not return.\<close>

partial_function (option) find_link :: "(nat \<Rightarrow> nat option) \<Rightarrow> nat option \<Rightarrow> nat \<Rightarrow> bool option" where
  "find_link n q p = (case q of None \<Rightarrow> Some False
     | Some x \<Rightarrow> if x = p then Some True else find_link n (n x) p)"

partial_function (option) find_previous :: "(nat \<Rightarrow> nat option) \<Rightarrow> nat option \<Rightarrow> nat \<Rightarrow> nat option option" where
  "find_previous n q p = (case q of None \<Rightarrow> Some None
     | Some x \<Rightarrow> if n x = Some p then Some (Some x) else find_previous n (n x) p)"

definition unlink_process :: "nat \<Rightarrow> 'm kernel \<Rightarrow> 'm kernel option" where
  "unlink_process p s =
     (if process_list s = Some p then Some (s\<lparr>process_list := pr_next s p\<rparr>)
      else (case find_previous (pr_next s) (process_list s) p of
              None \<Rightarrow> None
            | Some None \<Rightarrow> Some s
            | Some (Some q) \<Rightarrow> Some (s\<lparr>pr_next := (pr_next s)(q := pr_next s p)\<rparr>)))"

section \<open>Calling, exiting and starting processes\<close>

text \<open>
  The functions of this section run threads. They are written over \<open>run\<close>, which runs the
  program of a thread, and \<open>call\<close>, which is \<open>call_process\<close>: the knot is tied below.
\<close>

type_synonym 'm runner = "'m prog \<Rightarrow> 'm kernel \<Rightarrow> (bool \<times> 'm kernel) option"
type_synonym 'm caller = "nat \<Rightarrow> u8 \<Rightarrow> process_data \<Rightarrow> 'm kernel \<Rightarrow> 'm kernel option"

partial_function (option) exited_loop :: "'m caller \<Rightarrow> nat option \<Rightarrow> nat \<Rightarrow> 'm kernel \<Rightarrow> 'm kernel option" where
  "exited_loop call q p s =
     (case q of
        None \<Rightarrow> Some s
      | Some x \<Rightarrow>
          (case (if p \<noteq> x then call x PROCESS_EVENT_EXITED (ProcessData p) s else Some s) of
             None \<Rightarrow> None
           | Some s' \<Rightarrow> exited_loop call (pr_next s' x) p s'))"

definition exit_thread :: "'m runner \<Rightarrow> 'm threads \<Rightarrow> nat \<Rightarrow> nat option \<Rightarrow> 'm kernel \<Rightarrow> 'm kernel option" where
  "exit_thread run T p from s =
     (case T p of
        None \<Rightarrow> Some s
      | Some thread \<Rightarrow>
          if Some p \<noteq> from
          then map_option snd (run (thread (pr_pt s p) PROCESS_EVENT_EXIT NoData) (s\<lparr>process_current := Some p\<rparr>))
          else Some s)"

definition exit_process ::
  "'m runner \<Rightarrow> 'm caller \<Rightarrow> 'm threads \<Rightarrow> nat \<Rightarrow> nat option \<Rightarrow> 'm kernel \<Rightarrow> 'm kernel option" where
  "exit_process run call T p from s =
     (case find_link (pr_next s) (process_list s) p of
        None \<Rightarrow> None
      | Some False \<Rightarrow> Some s
      | Some True \<Rightarrow>
          (case (if process_is_running p s then
                   (case exited_loop call (process_list s) p (set_state p PROCESS_STATE_NONE s) of
                      None \<Rightarrow> None
                    | Some s1 \<Rightarrow> exit_thread run T p from s1)
                 else Some s) of
             None \<Rightarrow> None
           | Some s2 \<Rightarrow>
               map_option (\<lambda>s3. s3\<lparr>process_current := process_current s\<rparr>) (unlink_process p s2)))"

definition process_post_synch :: "'m caller \<Rightarrow> nat \<Rightarrow> u8 \<Rightarrow> process_data \<Rightarrow> 'm kernel \<Rightarrow> 'm kernel option" where
  "process_post_synch call p ev dat s =
     map_option (\<lambda>s'. s'\<lparr>process_current := process_current s\<rparr>) (call p ev dat s)"

definition process_start :: "'m caller \<Rightarrow> nat \<Rightarrow> process_data \<Rightarrow> 'm kernel \<Rightarrow> 'm kernel option" where
  "process_start call p dat s =
     (case find_link (pr_next s) (process_list s) p of
        None \<Rightarrow> None
      | Some True \<Rightarrow> Some s
      | Some False \<Rightarrow>
          process_post_synch call p PROCESS_EVENT_INIT dat
            (set_state p PROCESS_STATE_RUNNING
              (s\<lparr>pr_next := (pr_next s)(p := process_list s), process_list := Some p,
                 pr_pt := (pr_pt s)(p := 0)\<rparr>)))"

definition call_body :: "'m runner \<Rightarrow> 'm caller \<Rightarrow> 'm threads \<Rightarrow> 'm caller" where
  "call_body run call T p ev dat s =
     (case T p of
        None \<Rightarrow> Some s
      | Some thread \<Rightarrow>
          if pr_state s p AND PROCESS_STATE_RUNNING \<noteq> 0
          then (case run (thread (pr_pt s p) ev dat)
                       (set_state p PROCESS_STATE_CALLED (s\<lparr>process_current := Some p\<rparr>)) of
                  None \<Rightarrow> None
                | Some (ended, s') \<Rightarrow>
                    if ended \<or> ev = PROCESS_EVENT_EXIT then exit_process run call T p (Some p) s'
                    else Some (set_state p PROCESS_STATE_RUNNING s'))
          else Some s)"

definition run_body :: "'m runner \<Rightarrow> 'm caller \<Rightarrow> 'm threads \<Rightarrow> 'm runner" where
  "run_body run call T g s =
     (case g of
        Return b \<Rightarrow> Some (b, s)
      | Act f \<Rightarrow> (case f s of None \<Rightarrow> None | Some (s', k) \<Rightarrow> run k s')
      | Post_synch p ev dat k \<Rightarrow>
          (case process_post_synch call p ev dat s of None \<Rightarrow> None | Some s' \<Rightarrow> run k s')
      | Start p dat k \<Rightarrow> (case process_start call p dat s of None \<Rightarrow> None | Some s' \<Rightarrow> run k s')
      | Exit p k \<Rightarrow>
          (case exit_process run call T p (process_current s) s of None \<Rightarrow> None | Some s' \<Rightarrow> run k s'))"

fun run_prog :: "nat \<Rightarrow> 'm threads \<Rightarrow> 'm runner"
  and call_process :: "nat \<Rightarrow> 'm threads \<Rightarrow> 'm caller" where
  "run_prog 0 T g s = None"
| "run_prog (Suc n) T g s = run_body (run_prog n T) (call_process n T) T g s"
| "call_process 0 T p ev dat s = None"
| "call_process (Suc n) T p ev dat s = call_body (run_prog n T) (call_process n T) T p ev dat s"

definition process_exit :: "nat \<Rightarrow> 'm threads \<Rightarrow> nat \<Rightarrow> 'm kernel \<Rightarrow> 'm kernel option" where
  "process_exit n T p s = exit_process (run_prog n T) (call_process n T) T p (process_current s) s"

section \<open>The main loop\<close>

partial_function (option) poll_loop :: "'m caller \<Rightarrow> nat option \<Rightarrow> 'm kernel \<Rightarrow> 'm kernel option" where
  "poll_loop call q s =
     (case q of
        None \<Rightarrow> Some s
      | Some p \<Rightarrow>
          (case (if pr_needspoll s p
                 then call p PROCESS_EVENT_POLL NoData
                        (set_state p PROCESS_STATE_RUNNING (s\<lparr>pr_needspoll := (pr_needspoll s)(p := False)\<rparr>))
                 else Some s) of
             None \<Rightarrow> None
           | Some s' \<Rightarrow> poll_loop call (pr_next s' p) s'))"

definition do_poll :: "'m caller \<Rightarrow> 'm kernel \<Rightarrow> 'm kernel option" where
  "do_poll call s = poll_loop call (process_list s) (s\<lparr>poll_requested := False\<rparr>)"

partial_function (option) broadcast_loop ::
  "'m caller \<Rightarrow> nat option \<Rightarrow> u8 \<Rightarrow> process_data \<Rightarrow> 'm kernel \<Rightarrow> 'm kernel option" where
  "broadcast_loop call q ev dat s =
     (case q of
        None \<Rightarrow> Some s
      | Some p \<Rightarrow>
          (case (if poll_requested s then do_poll call s else Some s) of
             None \<Rightarrow> None
           | Some s' \<Rightarrow>
               (case call p ev dat s' of
                  None \<Rightarrow> None
                | Some s'' \<Rightarrow> broadcast_loop call (pr_next s'' p) ev dat s'')))"

definition do_event :: "'m caller \<Rightarrow> 'm kernel \<Rightarrow> 'm kernel option" where
  "do_event call s =
     (if 0 < nevents s then
        (case next_event s of (e, s') \<Rightarrow>
           (case ev_p e of
              None \<Rightarrow> broadcast_loop call (process_list s') (ev_ev e) (ev_data e) s'
            | Some p \<Rightarrow> call p (ev_ev e) (ev_data e)
                (if ev_ev e = PROCESS_EVENT_INIT then set_state p PROCESS_STATE_RUNNING s' else s')))
      else Some s)"

definition process_run :: "nat \<Rightarrow> 'm threads \<Rightarrow> 'm kernel \<Rightarrow> (nat \<times> 'm kernel) option" where
  "process_run n T s =
     (case (if poll_requested s then do_poll (call_process n T) s else Some s) of
        None \<Rightarrow> None
      | Some s1 \<Rightarrow> map_option (\<lambda>s2. (process_nevents s2, s2)) (do_event (call_process n T) s1))"

section \<open>Equations by cases\<close>

text \<open>The loops by the two cases of the pointer, also for evaluation.\<close>

lemma find_link_code [code]:
  "find_link n None p = Some False"
  "find_link n (Some x) p = (if x = p then Some True else find_link n (n x) p)"
  by (subst find_link.simps, simp)+

lemma find_previous_code [code]:
  "find_previous n None p = Some None"
  "find_previous n (Some x) p = (if n x = Some p then Some (Some x) else find_previous n (n x) p)"
  by (subst find_previous.simps, simp)+

lemma exited_loop_code [code]:
  "exited_loop call None p s = Some s"
  "exited_loop call (Some x) p s =
     (case (if p \<noteq> x then call x PROCESS_EVENT_EXITED (ProcessData p) s else Some s) of
        None \<Rightarrow> None
      | Some s' \<Rightarrow> exited_loop call (pr_next s' x) p s')"
  by (subst exited_loop.simps, simp)+

lemma poll_loop_code [code]:
  "poll_loop call None s = Some s"
  "poll_loop call (Some p) s =
     (case (if pr_needspoll s p
            then call p PROCESS_EVENT_POLL NoData
                   (set_state p PROCESS_STATE_RUNNING (s\<lparr>pr_needspoll := (pr_needspoll s)(p := False)\<rparr>))
            else Some s) of
        None \<Rightarrow> None
      | Some s' \<Rightarrow> poll_loop call (pr_next s' p) s')"
  by (subst poll_loop.simps, simp)+

lemma broadcast_loop_code [code]:
  "broadcast_loop call None ev dat s = Some s"
  "broadcast_loop call (Some p) ev dat s =
     (case (if poll_requested s then do_poll call s else Some s) of
        None \<Rightarrow> None
      | Some s' \<Rightarrow>
          (case call p ev dat s' of
             None \<Rightarrow> None
           | Some s'' \<Rightarrow> broadcast_loop call (pr_next s'' p) ev dat s''))"
  by (subst broadcast_loop.simps, simp)+

end
