(* ===== verification/Contiki_Scheduler.thy ===== *)
theory Contiki_Scheduler
  imports Contiki_Process
begin

text \<open>
  Laws of the process kernel: more fuel never changes a result; the kernel's own invariants
  survive whatever the threads do; and every step of the main loop returns if no thread
  starts processes.
\<close>

section \<open>More fuel\<close>

definition caller_le :: "'m caller \<Rightarrow> 'm caller \<Rightarrow> bool" where
  "caller_le c c' \<longleftrightarrow> (\<forall>p ev dat s y. c p ev dat s = Some y \<longrightarrow> c' p ev dat s = Some y)"

definition runner_le :: "'m runner \<Rightarrow> 'm runner \<Rightarrow> bool" where
  "runner_le r r' \<longleftrightarrow> (\<forall>g s y. r g s = Some y \<longrightarrow> r' g s = Some y)"

lemma exited_loop_mono:
  assumes "exited_loop c q p s = Some y" "caller_le c c'"
  shows "exited_loop c' q p s = Some y"
  using assms
proof (induction rule: exited_loop.raw_induct [rotated, consumes 1, case_names step])
  case (step loop c q p s y)
  then show ?case
    by (subst exited_loop.simps) (auto simp: caller_le_def split: option.splits if_splits)
qed

lemma exit_process_mono:
  assumes "exit_process r c T p from s = Some y" "caller_le c c'" "runner_le r r'"
  shows "exit_process r' c' T p from s = Some y"
  using assms
  by (fastforce simp: exit_process_def exit_thread_def runner_le_def split: option.splits bool.splits if_splits
      dest: exited_loop_mono)

lemma post_synch_mono:
  "process_post_synch c p ev dat s = Some y \<Longrightarrow> caller_le c c' \<Longrightarrow> process_post_synch c' p ev dat s = Some y"
  by (auto simp: process_post_synch_def caller_le_def)

lemma start_mono:
  "process_start c p dat s = Some y \<Longrightarrow> caller_le c c' \<Longrightarrow> process_start c' p dat s = Some y"
  by (auto simp: process_start_def split: option.splits bool.splits dest: post_synch_mono)

lemma bind_mono: "(case x of None \<Rightarrow> None | Some v \<Rightarrow> f v) = Some y \<Longrightarrow> (\<And>v. x = Some v \<Longrightarrow> x' = Some v)
    \<Longrightarrow> (\<And>v. f v = Some y \<Longrightarrow> f' v = Some y) \<Longrightarrow> (case x' of None \<Rightarrow> None | Some v \<Rightarrow> f' v) = Some y"
  by (auto split: option.splits)

lemma run_body_mono:
  assumes "run_body r c T g s = Some y" "caller_le c c'" "runner_le r r'"
  shows "run_body r' c' T g s = Some y"
  using assms(1) assms(3) [unfolded runner_le_def, rule_format]
  by (cases g; cases y) (auto simp: run_body_def split: prod.splits elim!: bind_mono
      intro: post_synch_mono [OF _ assms(2)] start_mono [OF _ assms(2)] exit_process_mono [OF _ assms(2,3)])

lemma call_body_mono:
  assumes "call_body r c T p ev dat s = Some y" "caller_le c c'" "runner_le r r'"
  shows "call_body r' c' T p ev dat s = Some y"
  using assms(1) assms(3) [unfolded runner_le_def, rule_format]
  by (auto simp: call_body_def split: prod.splits option.splits if_splits dest: exit_process_mono [OF _ assms(2,3)])

lemma fuel_Suc: "runner_le (run_prog n T) (run_prog (Suc n) T) \<and> caller_le (call_process n T) (call_process (Suc n) T)"
proof (induction n)
  case 0
  show ?case by (simp add: runner_le_def caller_le_def)
next
  case (Suc n)
  then have "run_body (run_prog n T) (call_process n T) T g s = Some y
      \<Longrightarrow> run_body (run_prog (Suc n) T) (call_process (Suc n) T) T g s = Some y"
    "call_body (run_prog n T) (call_process n T) T p ev dat s = Some z
      \<Longrightarrow> call_body (run_prog (Suc n) T) (call_process (Suc n) T) T p ev dat s = Some z" for g p ev dat s y z
    by (blast intro: run_body_mono call_body_mono)+
  then show ?case unfolding runner_le_def caller_le_def by simp
qed

lemma fuel_mono:
  assumes "n \<le> k"
  shows "runner_le (run_prog n T) (run_prog k T)" "caller_le (call_process n T) (call_process k T)"
proof -
  have "runner_le (run_prog n T) (run_prog k T) \<and> caller_le (call_process n T) (call_process k T)"
    using assms
  proof (induction k rule: dec_induct)
    case base
    show ?case by (simp add: runner_le_def caller_le_def)
  next
    case (step k)
    with fuel_Suc [of k T] show ?case unfolding runner_le_def caller_le_def by blast
  qed
  then show "runner_le (run_prog n T) (run_prog k T)" "caller_le (call_process n T) (call_process k T)" by blast+
qed

lemma run_more: "run_prog n T g s = Some y \<Longrightarrow> n \<le> k \<Longrightarrow> run_prog k T g s = Some y"
  using fuel_mono(1) unfolding runner_le_def by blast

lemma call_more: "call_process n T p ev dat s = Some y \<Longrightarrow> n \<le> k \<Longrightarrow> call_process k T p ev dat s = Some y"
  using fuel_mono(2) unfolding caller_le_def by blast

lemma exit_more:
  "exit_process (run_prog n T) (call_process n T) T p from s = Some y \<Longrightarrow> n \<le> k
     \<Longrightarrow> exit_process (run_prog k T) (call_process k T) T p from s = Some y"
  by (rule exit_process_mono [OF _ fuel_mono(2,1)])

lemma poll_loop_mono:
  assumes "poll_loop c q s = Some y" "caller_le c c'"
  shows "poll_loop c' q s = Some y"
  using assms
proof (induction rule: poll_loop.raw_induct [rotated, consumes 1, case_names step])
  case (step loop c q s y)
  then show ?case
    by (subst poll_loop.simps) (auto simp: caller_le_def split: option.splits if_splits)
qed

lemma do_poll_mono: "do_poll c s = Some y \<Longrightarrow> caller_le c c' \<Longrightarrow> do_poll c' s = Some y"
  by (auto simp: do_poll_def intro: poll_loop_mono)

lemma broadcast_loop_mono:
  assumes "broadcast_loop c q ev dat s = Some y" "caller_le c c'"
  shows "broadcast_loop c' q ev dat s = Some y"
  using assms
proof (induction rule: broadcast_loop.raw_induct [rotated, consumes 1, case_names step])
  case (step loop c q ev dat s y)
  show ?case
  proof (cases q)
    case None
    with step(2) show ?thesis by (simp add: broadcast_loop.simps)
  next
    case (Some p)
    with step(2) obtain s1 s2 where s: "(if poll_requested s then do_poll c s else Some s) = Some s1"
      "c p ev dat s1 = Some s2" "loop c (pr_next s2 p) ev dat s2 = Some y"
      by (auto split: option.splits if_splits)
    have "(if poll_requested s then do_poll c' s else Some s) = Some s1"
      using s(1) do_poll_mono [OF _ step(3)] by (auto split: if_splits)
    moreover have "c' p ev dat s1 = Some s2" using s(2) step(3) by (simp add: caller_le_def)
    ultimately show ?thesis using step(1) [OF s(3) step(3)] Some by (subst broadcast_loop.simps) simp
  qed
qed

lemma do_event_mono: "do_event c s = Some y \<Longrightarrow> caller_le c c' \<Longrightarrow> do_event c' s = Some y"
  by (auto simp: do_event_def caller_le_def split: option.splits if_splits prod.splits intro: broadcast_loop_mono)

lemma process_run_more:
  assumes "process_run n T s = Some y" "n \<le> k"
  shows "process_run k T s = Some y"
proof -
  note le = fuel_mono(2) [OF assms(2), of T]
  from assms(1) obtain s1 s2 where "(if poll_requested s then do_poll (call_process n T) s else Some s) = Some s1"
      "do_event (call_process n T) s1 = Some s2" and y: "y = (process_nevents s2, s2)"
    by (auto simp: process_run_def split: option.splits if_splits)
  then have "(if poll_requested s then do_poll (call_process k T) s else Some s) = Some s1"
      "do_event (call_process k T) s1 = Some s2"
    using do_poll_mono [OF _ le] do_event_mono [OF _ le] by (auto split: if_splits)
  then show ?thesis by (simp add: process_run_def y)
qed

section \<open>Invariants\<close>

text \<open>Programs whose own computations keep \<open>I\<close>, whatever they ask of the kernel.\<close>

inductive keeps :: "('m kernel \<Rightarrow> bool) \<Rightarrow> 'm prog \<Rightarrow> bool" for I where
  keeps_return: "keeps I (Return b)"
| keeps_act: "(\<And>s s' k. I s \<Longrightarrow> f s = Some (s', k) \<Longrightarrow> I s') \<Longrightarrow> (\<And>s s' k. f s = Some (s', k) \<Longrightarrow> keeps I k) \<Longrightarrow> keeps I (Act f)"
| keeps_post: "keeps I k \<Longrightarrow> keeps I (Post_synch p ev dat k)"
| keeps_start: "keeps I k \<Longrightarrow> keeps I (Start p dat k)"
| keeps_exit: "keeps I k \<Longrightarrow> keeps I (Exit p k)"

inductive_cases keeps_actE: "keeps I (Act f)"
inductive_cases keeps_postE: "keeps I (Post_synch p ev dat k)"
inductive_cases keeps_startE: "keeps I (Start p dat k)"
inductive_cases keeps_exitE: "keeps I (Exit p k)"

definition threads_keep :: "('m kernel \<Rightarrow> bool) \<Rightarrow> 'm threads \<Rightarrow> bool" where
  "threads_keep I T \<longleftrightarrow> (\<forall>p thread pt ev dat. T p = Some thread \<longrightarrow> keeps I (thread pt ev dat))"

definition caller_keeps :: "('m kernel \<Rightarrow> bool) \<Rightarrow> 'm caller \<Rightarrow> bool" where
  "caller_keeps I c \<longleftrightarrow> (\<forall>p ev dat s s'. I s \<longrightarrow> c p ev dat s = Some s' \<longrightarrow> I s')"

definition runner_keeps :: "('m kernel \<Rightarrow> bool) \<Rightarrow> 'm runner \<Rightarrow> bool" where
  "runner_keeps I r \<longleftrightarrow> (\<forall>g s b s'. keeps I g \<longrightarrow> I s \<longrightarrow> r g s = Some (b, s') \<longrightarrow> I s')"

lemma caller_keepsD: "c p ev dat s = Some s' \<Longrightarrow> caller_keeps I c \<Longrightarrow> I s \<Longrightarrow> I s'"
  unfolding caller_keeps_def by blast

lemma runner_keepsD: "r g s = Some (b, s') \<Longrightarrow> runner_keeps I r \<Longrightarrow> keeps I g \<Longrightarrow> I s \<Longrightarrow> I s'"
  unfolding runner_keeps_def by blast

lemma threads_keepD: "threads_keep I T \<Longrightarrow> T p = Some thread \<Longrightarrow> keeps I (thread pt ev dat)"
  unfolding threads_keep_def by blast

text \<open>
  An invariant of the kernel is kept by its elementary updates: the marks of a process, the
  current process, linking and unlinking, and taking an event.
\<close>

locale kernel_invariant =
  fixes I :: "'m kernel \<Rightarrow> bool"
  assumes inv_state: "I s \<Longrightarrow> I (set_state p v s)"
    and inv_current: "I s \<Longrightarrow> I (s\<lparr>process_current := c\<rparr>)"
    and inv_needspoll: "I s \<Longrightarrow> I (s\<lparr>pr_needspoll := np\<rparr>)"
    and inv_requested: "I s \<Longrightarrow> I (s\<lparr>poll_requested := b\<rparr>)"
    and inv_unlink: "I s \<Longrightarrow> unlink_process p s = Some s' \<Longrightarrow> I s'"
    and inv_link: "I s \<Longrightarrow> find_link (pr_next s) (process_list s) p = Some False
      \<Longrightarrow> I (s\<lparr>pr_next := (pr_next s)(p := process_list s), process_list := Some p, pr_pt := (pr_pt s)(p := 0)\<rparr>)"
    and inv_next_event: "I s \<Longrightarrow> 0 < nevents s \<Longrightarrow> I (snd (next_event s))"
begin

lemma exited_loop_keeps:
  "exited_loop c q p s = Some s' \<Longrightarrow> caller_keeps I c \<Longrightarrow> I s \<Longrightarrow> I s'"
proof (induction rule: exited_loop.raw_induct [rotated, consumes 1, case_names step])
  case (step loop c q p s y)
  show ?case
  proof (cases q)
    case None
    with step show ?thesis by simp
  next
    case (Some x)
    with step(2) obtain s1 where s: "(if p \<noteq> x then c x PROCESS_EVENT_EXITED (ProcessData p) s else Some s) = Some s1"
      "loop c (pr_next s1 x) p s1 = Some y" by (auto split: option.splits)
    have "I s1" using s(1) step(4) caller_keepsD [OF _ step(3)] by (auto split: if_splits)
    with step(1) [OF s(2) step(3)] show ?thesis .
  qed
qed

lemma exit_process_keeps:
  assumes e: "exit_process r c T p from s = Some s'" and I: "I s"
    and keep: "caller_keeps I c" "runner_keeps I r" "threads_keep I T"
  shows "I s'"
proof -
  have t: "I s2" if "exit_thread r T p from s1 = Some s2" "I s1" for s1 s2
    using that inv_current [of s1] runner_keepsD [OF _ keep(2) threads_keepD [OF keep(3)]]
    by (auto simp: exit_thread_def split: option.splits if_splits)
  show ?thesis using e I
    by (auto simp: exit_process_def split: option.splits bool.splits if_splits
        intro!: inv_current intro: inv_state inv_unlink t dest!: exited_loop_keeps [OF _ keep(1)] t)
qed

lemma post_synch_keeps:
  "process_post_synch c p ev dat s = Some s' \<Longrightarrow> caller_keeps I c \<Longrightarrow> I s \<Longrightarrow> I s'"
  by (auto simp: process_post_synch_def caller_keeps_def intro!: inv_current)

lemma start_keeps:
  "process_start c p dat s = Some s' \<Longrightarrow> caller_keeps I c \<Longrightarrow> I s \<Longrightarrow> I s'"
  by (auto simp: process_start_def split: option.splits bool.splits elim!: post_synch_keeps intro!: inv_state inv_link)

lemma run_body_keeps:
  assumes "run_body r c T g s = Some (b, s')" "keeps I g" "I s"
    and keep: "caller_keeps I c" "runner_keeps I r" "threads_keep I T"
  shows "I s'"
proof (cases g)
  case (Act f)
  with assms(1,2) obtain s1 k where "r k s1 = Some (b, s')" "I s1" "keeps I k"
    using assms(3) by (auto simp: run_body_def split: option.splits prod.splits elim!: keeps_actE)
  with runner_keepsD [OF _ keep(2)] show ?thesis by blast
qed (use assms(1-3) runner_keepsD [OF _ keep(2)] in \<open>auto simp: run_body_def split: option.splits
      elim!: keeps_postE keeps_startE keeps_exitE
      dest: post_synch_keeps [OF _ keep(1)] start_keeps [OF _ keep(1)] exit_process_keeps [OF _ _ keep]\<close>)

lemma call_body_keeps:
  assumes "call_body r c T p ev dat s = Some s'" "I s"
    and keep: "caller_keeps I c" "runner_keeps I r" "threads_keep I T"
  shows "I s'"
proof -
  have r: "I s1" if "T p = Some thread" "r (thread pt ev dat) (set_state p v (s\<lparr>process_current := x\<rparr>)) = Some (b, s1)" for thread pt v x b s1
    using runner_keepsD [OF that(2) keep(2) threads_keepD [OF keep(3) that(1)]] inv_state inv_current assms(2) by blast
  show ?thesis using assms(1,2)
    by (auto simp: call_body_def split: option.splits prod.splits if_splits
        intro: inv_state r exit_process_keeps [OF _ _ keep])
qed

lemma fuel_keeps:
  assumes "threads_keep I T"
  shows "runner_keeps I (run_prog n T) \<and> caller_keeps I (call_process n T)"
proof (induction n)
  case 0
  show ?case by (simp add: runner_keeps_def caller_keeps_def)
next
  case (Suc n)
  then show ?case
    using run_body_keeps [where r = "run_prog n T" and c = "call_process n T" and T = T]
      call_body_keeps [where r = "run_prog n T" and c = "call_process n T" and T = T] assms
    unfolding runner_keeps_def [of I "run_prog (Suc n) T"] caller_keeps_def [of I "call_process (Suc n) T"]
    by (simp only: run_prog.simps call_process.simps) blast
qed

lemma poll_loop_keeps: "poll_loop c q s = Some s' \<Longrightarrow> caller_keeps I c \<Longrightarrow> I s \<Longrightarrow> I s'"
proof (induction rule: poll_loop.raw_induct [rotated, consumes 1, case_names step])
  case (step loop c q s y)
  show ?case
  proof (cases q)
    case None
    with step show ?thesis by simp
  next
    case (Some p)
    with step(2) obtain s1 where s: "(if pr_needspoll s p then c p PROCESS_EVENT_POLL NoData
         (set_state p PROCESS_STATE_RUNNING (s\<lparr>pr_needspoll := (pr_needspoll s)(p := False)\<rparr>)) else Some s) = Some s1"
      "loop c (pr_next s1 p) s1 = Some y" by (auto split: option.splits)
    have "I s1" using s(1) step(4) caller_keepsD [OF _ step(3) inv_state [OF inv_needspoll]] by (auto split: if_splits)
    with step(1) [OF s(2) step(3)] show ?thesis .
  qed
qed

lemma do_poll_keeps: "do_poll c s = Some s' \<Longrightarrow> caller_keeps I c \<Longrightarrow> I s \<Longrightarrow> I s'"
  by (auto simp: do_poll_def elim!: poll_loop_keeps intro: inv_requested)

lemma broadcast_loop_keeps:
  "broadcast_loop c q ev dat s = Some s' \<Longrightarrow> caller_keeps I c \<Longrightarrow> I s \<Longrightarrow> I s'"
proof (induction rule: broadcast_loop.raw_induct [rotated, consumes 1, case_names step])
  case (step loop c q ev dat s y)
  show ?case
  proof (cases q)
    case None
    with step show ?thesis by simp
  next
    case (Some p)
    with step(2) obtain s1 s2 where s: "(if poll_requested s then do_poll c s else Some s) = Some s1"
      "c p ev dat s1 = Some s2" "loop c (pr_next s2 p) ev dat s2 = Some y"
      by (auto split: option.splits if_splits)
    have "I s1" using s(1) step(3,4) by (auto split: if_splits intro: do_poll_keeps)
    then have "I s2" using s(2) step(3) unfolding caller_keeps_def by blast
    with step(1) [OF s(3) step(3)] show ?thesis .
  qed
qed

lemma do_event_keeps: "do_event c s = Some s' \<Longrightarrow> caller_keeps I c \<Longrightarrow> I s \<Longrightarrow> I s'"
  using inv_next_event [of s]
  by (auto simp: do_event_def split: if_splits prod.splits option.splits
      dest: broadcast_loop_keeps intro: inv_state elim: caller_keepsD)

lemma process_run_keeps:
  assumes "process_run n T s = Some (m, s')" "threads_keep I T" "I s"
  shows "I s'"
proof -
  from fuel_keeps [OF assms(2)] have c: "caller_keeps I (call_process n T)" by blast
  from assms(1) obtain s1 where "(if poll_requested s then do_poll (call_process n T) s else Some s) = Some s1"
      "do_event (call_process n T) s1 = Some s'"
    by (auto simp: process_run_def split: option.splits if_splits)
  with c assms(3) show ?thesis by (auto split: if_splits intro: do_event_keeps do_poll_keeps)
qed

end

section \<open>The process list and the ring of events\<close>

text \<open>No chain of \<open>next\<close> pointers is cyclic, also from processes that left the list.\<close>

definition chains_end :: "'m kernel \<Rightarrow> bool" where
  "chains_end s \<longleftrightarrow> (\<forall>p. \<exists>ps. path (pr_next s) (Some p) ps)"

definition ring_ok :: "'m kernel \<Rightarrow> bool" where
  "ring_ok s \<longleftrightarrow> length (events s) = 8 \<and> unat (nevents s) \<le> 8 \<and> unat (fevent s) < 8"

definition kernel_ok :: "'m kernel \<Rightarrow> bool" where
  "kernel_ok s \<longleftrightarrow> chains_end s \<and> ring_ok s"

lemma path_distinct: "path n q ps \<Longrightarrow> distinct ps"
proof (induction ps arbitrary: q)
  case (Cons p ps)
  have "p \<notin> set ps"
  proof
    assume "p \<in> set ps"
    then obtain as bs where ps: "ps = as @ p # bs" by (auto dest: split_list)
    have "path n (n p) ps" "path n (n p) bs" using Cons.prems path_after [of n "n p" as p bs] ps by auto
    then have "ps = bs" by (rule path_unique)
    with ps show False by simp
  qed
  with Cons show ?case by auto
qed simp

lemma chains_any: "chains_end s \<Longrightarrow> \<exists>ps. path (pr_next s) q ps"
  by (cases q) (auto simp: chains_end_def)

text \<open>Cutting an element out shortens the chains; the new head leads to the old list.\<close>

lemma path_bypass:
  assumes "n q = Some p"
  shows "path n v xs \<Longrightarrow> \<exists>ys. path (n(q := n p)) v ys"
proof (induction "length xs" arbitrary: v xs rule: less_induct)
  case less
  show ?case
  proof (cases xs)
    case Nil
    with less.prems show ?thesis by (intro exI [of _ "[]"]) simp
  next
    case (Cons x xs')
    with less.prems have v: "v = Some x" "path n (n x) xs'" by auto
    show ?thesis
    proof (cases "x = q")
      case True
      with v(2) assms obtain xs'' where "xs' = p # xs''" "path n (n p) xs''" by (auto simp: path_Some)
      with less.hyps [of xs'' "n p"] Cons obtain ys where "path (n(q := n p)) (n p) ys" by auto
      then have "path (n(q := n p)) v (q # ys)" using True v(1) by simp
      then show ?thesis ..
    next
      case False
      from less.hyps [of xs' "n x"] Cons v(2) obtain ys where "path (n(q := n p)) (n x) ys" by auto
      then have "path (n(q := n p)) v (x # ys)" using False v(1) by simp
      then show ?thesis ..
    qed
  qed
qed

lemma path_new_head:
  assumes "path n q ps" "p \<notin> set ps" "path n v xs"
  shows "\<exists>ys. path (n(p := q)) v ys"
  using assms(3)
proof (induction xs arbitrary: v)
  case Nil
  then show ?case by (intro exI [of _ "[]"]) simp
next
  case (Cons x xs)
  then have x: "v = Some x" "path n (n x) xs" by auto
  from Cons.IH [OF x(2)] obtain ys where ys: "path (n(p := q)) (n x) ys" by blast
  have "path (n(p := q)) (Some p) (p # ps)" using assms(1,2) by simp
  moreover have "x \<noteq> p \<Longrightarrow> path (n(p := q)) (Some x) (x # ys)" using ys by simp
  ultimately show ?case using x(1) by (cases "x = p") blast+
qed

lemma find_link_path: "path n q ps \<Longrightarrow> find_link n q p = Some (p \<in> set ps)"
  by (induction ps arbitrary: q) (auto simp: find_link.simps)

lemma find_previous_next: "find_previous n q p = Some (Some x) \<Longrightarrow> n x = Some p"
proof (induction n q p "Some x" rule: find_previous.raw_induct [rotated, consumes 1, case_names step])
  case step
  then show ?case by (auto split: option.splits if_splits)
qed

lemma chains_unlink: "chains_end s \<Longrightarrow> unlink_process p s = Some s' \<Longrightarrow> chains_end s'"
proof -
  assume c: "chains_end s" and u: "unlink_process p s = Some s'"
  have "chains_end (s\<lparr>pr_next := (pr_next s)(x := pr_next s p)\<rparr>)" if "pr_next s x = Some p" for x
    using c path_bypass [of "pr_next s", OF that] by (auto simp: chains_end_def)
  with c u show "chains_end s'"
    by (auto simp: unlink_process_def chains_end_def split: if_splits option.splits dest: find_previous_next)
qed

lemma chains_link:
  assumes "chains_end s" "find_link (pr_next s) (process_list s) p = Some False"
  shows "chains_end (s\<lparr>pr_next := (pr_next s)(p := process_list s), process_list := Some p, pr_pt := f\<rparr>)"
proof -
  from chains_any [OF assms(1)] obtain ps where ps: "path (pr_next s) (process_list s) ps" by blast
  with assms(2) find_link_path have "p \<notin> set ps" by fastforce
  note new = path_new_head [OF ps this]
  show ?thesis using assms(1) new unfolding chains_end_def by simp blast
qed

interpretation kernel: kernel_invariant kernel_ok
proof (unfold_locales, goal_cases)
  case (5 s p s')
  then have "ring_ok s'" by (auto simp: kernel_ok_def ring_ok_def unlink_process_def split: if_splits option.splits)
  with 5 chains_unlink show ?case by (auto simp: kernel_ok_def)
next
  case (6 s p)
  then show ?case using chains_link by (auto simp: kernel_ok_def ring_ok_def)
next
  case (7 s)
  have "unat (fevent s + 1) mod 8 < 8" by simp
  then have "unat ((fevent s + 1) mod 8) < 8" by (simp add: unat_mod_distrib)
  moreover have "unat (nevents s - 1) \<le> 8" using 7 by (auto simp: kernel_ok_def ring_ok_def unat_minus_one word_gt_0)
  ultimately show ?case using 7 by (simp add: kernel_ok_def ring_ok_def chains_end_def next_event_def)
qed (simp_all add: kernel_ok_def ring_ok_def chains_end_def set_state_def)

text \<open>The pending events, oldest first.\<close>

definition pending :: "'m kernel \<Rightarrow> event_data list" where
  "pending s = map (\<lambda>i. events s ! ((unat (fevent s) + i) mod 8)) [0..<unat (nevents s)]"

lemma length_pending [simp]: "length (pending s) = unat (nevents s)"
  by (simp add: pending_def)

lemma post_snum: "ring_ok s \<Longrightarrow> unat (fevent s + nevents s) = unat (fevent s) + unat (nevents s)"
  by (rule unat_add_lem [THEN iffD1]) (simp add: ring_ok_def)

lemma u8_inc: "unat (x :: u8) < 255 \<Longrightarrow> unat (x + 1) = Suc (unat x)"
  using unat_add_lem [of x 1] by simp

lemma ring_places:
  assumes "i < n" "n < 8"
  shows "(f + i) mod 8 \<noteq> (f + n) mod (8 :: nat)"
proof
  assume "(f + i) mod 8 = (f + n) mod 8"
  then have "8 dvd (f + n) - (f + i)" using mod_eq_dvd_iff_nat [of "f + i" "f + n" 8] assms(1) by simp
  then have "8 dvd n - i" by simp
  with assms nat_dvd_not_less [of "n - i" 8] show False by linarith
qed

lemma post_refines:
  assumes "ring_ok s" "unat (nevents s) < 8"
  shows "\<exists>s'. process_post p ev dat s = (True, s') \<and> ring_ok s'
      \<and> pending s' = pending s @ [\<lparr>ev_ev = ev, ev_data = dat, ev_p = p\<rparr>]"
proof -
  let ?f = "unat (fevent s)" and ?n = "unat (nevents s)" and ?e = "\<lparr>ev_ev = ev, ev_data = dat, ev_p = p\<rparr>"
  have n: "nevents s \<noteq> 8"
  proof
    assume "nevents s = 8"
    then have "unat (nevents s) = unat (8 :: u8)" by (rule arg_cong)
    with assms(2) show False by simp
  qed
  have Suc: "unat (nevents s + 1) = Suc ?n"
    by (rule u8_inc) (use assms(2) in linarith)
  let ?s = "s\<lparr>events := (events s)[(?f + ?n) mod 8 := ?e], nevents := nevents s + 1,
      process_maxevents := (if process_maxevents s < nevents s + 1 then nevents s + 1 else process_maxevents s)\<rparr>"
  have e: "process_post p ev dat s = (True, ?s)"
    using n by (simp add: process_post_def PROCESS_CONF_NUMEVENTS_def post_snum [OF assms(1)] Let_def)
  have r: "ring_ok ?s" using assms by (simp add: ring_ok_def Suc)
  have neq: "(?f + i) mod 8 \<noteq> (?f + ?n) mod 8" if "i < ?n" for i
    using that assms(2) ring_places by blast
  have len: "(?f + ?n) mod 8 < length (events s)" using assms(1) by (simp add: ring_ok_def)
  have old: "(events s)[(?f + ?n) mod 8 := ?e] ! ((?f + i) mod 8) = events s ! ((?f + i) mod 8)" if "i < ?n" for i
    by (rule nth_list_update_neq) (rule neq [OF that, symmetric])
  have "map (\<lambda>i. (events s)[(?f + ?n) mod 8 := ?e] ! ((?f + i) mod 8)) [0..<?n] = pending s"
    unfolding pending_def by (rule map_cong) (simp_all add: old)
  then have q: "pending ?s = pending s @ [?e]"
    unfolding pending_def [of ?s] using len by (simp add: Suc)
  show ?thesis by (rule exI [of _ ?s], intro conjI, rule e, rule r, rule q)
qed

lemma post_full: "unat (nevents s) = 8 \<Longrightarrow> process_post p ev dat s = (False, s)"
  by (auto simp: process_post_def word_unat_eq_iff)

lemma next_event_refines:
  assumes "ring_ok s" "pending s = e # es"
  shows "\<exists>s'. next_event s = (e, s') \<and> ring_ok s' \<and> pending s' = es"
proof -
  let ?f = "unat (fevent s)" and ?n = "unat (nevents s)"
  obtain k where k: "?n = Suc k" using assms(2) length_pending [of s] by (cases ?n) auto
  have fl: "?f < 8" using assms(1) by (simp add: ring_ok_def)
  have n1: "unat (nevents s - 1) = k" using k by (subst unat_minus_one) auto
  have f1: "unat ((fevent s + 1) mod 8) = Suc ?f mod 8"
  proof -
    have "unat (fevent s + 1) = Suc ?f" by (rule u8_inc) (use fl in linarith)
    then show ?thesis by (simp add: unat_mod_distrib)
  qed
  have p: "pending s = map (\<lambda>i. events s ! ((?f + i) mod 8)) [0..<Suc k]" by (simp add: pending_def k)
  have q: "[0..<Suc k] = 0 # map Suc [0..<k]" by (simp add: upt_conv_Cons map_Suc_upt del: upt_Suc)
  have e: "e = events s ! ?f" "es = map (\<lambda>i. events s ! ((?f + Suc i) mod 8)) [0..<k]"
    using assms(2) fl unfolding p q by (simp_all add: comp_def)
  have "pending (snd (next_event s)) = es"
    unfolding e(2) by (simp add: pending_def next_event_def n1 f1 mod_add_left_eq)
  moreover have "ring_ok (snd (next_event s))"
    using assms(1) by (simp add: ring_ok_def next_event_def n1 f1 k)
  ultimately show ?thesis using e(1) by (simp add: next_event_def)
qed

text \<open>What threads do with the kernel keeps it well-formed.\<close>

lemma kernel_ok_memory: "kernel_ok s \<Longrightarrow> kernel_ok (s\<lparr>memory := m\<rparr>)"
  by (simp add: kernel_ok_def ring_ok_def chains_end_def)

lemma kernel_ok_post: "kernel_ok s \<Longrightarrow> kernel_ok (snd (process_post p ev dat s))"
proof (cases "unat (nevents s) < 8")
  case True
  assume k: "kernel_ok s"
  then obtain s' where "process_post p ev dat s = (True, s')" "ring_ok s'"
    using post_refines [OF _ True] unfolding kernel_ok_def by blast
  moreover from this(1) have "pr_next s' = pr_next s" by (auto simp: process_post_def Let_def split: if_splits)
  ultimately show ?thesis using k by (simp add: kernel_ok_def chains_end_def)
next
  case False
  assume "kernel_ok s"
  with False show ?thesis using post_full [of s] by (auto simp: kernel_ok_def ring_ok_def)
qed

lemma kernel_ok_poll: "kernel_ok s \<Longrightarrow> kernel_ok (process_poll p s)"
  by (auto simp: process_poll_def kernel_ok_def ring_ok_def chains_end_def split: option.split)

section \<open>Properties\<close>

text \<open>The ring of pending events is a FIFO queue of 8 places: \<open>process_post\<close> appends the
  event, or reports that the queue is full and changes nothing; the main loop takes the
  oldest event. The wrapping indices are an implementation of the list of pending events.\<close>

theorem event_queue_fifo:
  assumes "ring_ok s"
  shows "(if length (pending s) < 8
          then \<exists>s'. process_post p ev dat s = (True, s') \<and> ring_ok s'
                 \<and> pending s' = pending s @ [\<lparr>ev_ev = ev, ev_data = dat, ev_p = p\<rparr>]
          else process_post p ev dat s = (False, s))
       \<and> (case pending s of [] \<Rightarrow> do_event call s = Some s
          | e # es \<Rightarrow> \<exists>s'. next_event s = (e, s') \<and> ring_ok s' \<and> pending s' = es)"
proof -
  have "unat (nevents s) = 8" if "\<not> unat (nevents s) < 8" using assms that by (simp add: ring_ok_def)
  moreover have "do_event call s = Some s" if "pending s = []"
    using length_pending [of s] that by (simp add: do_event_def word_gt_0 unat_eq_0 [symmetric])
  ultimately show ?thesis using post_refines [OF assms] post_full next_event_refines [OF assms]
    by (auto split: list.split)
qed

definition demo_queue :: "unit kernel" where
  "demo_queue = \<lparr>process_list = None, process_current = None, pr_next = (\<lambda>_. None), pr_pt = (\<lambda>_. 0), pr_state = (\<lambda>_. 0),
     pr_needspoll = (\<lambda>_. False), lastevent = 0x8a, nevents = 2, fevent = 7,
     events = replicate 8 \<lparr>ev_ev = 0x88, ev_data = NoData, ev_p = None\<rparr>, poll_requested = False, process_maxevents = 0, memory = ()\<rparr>"

theorem event_queue_fifo_witness:
  "\<exists>s'. process_post (Some 4) 0x86 NoData demo_queue = (True, s') \<and> ring_ok s'
     \<and> pending s' = pending demo_queue @ [\<lparr>ev_ev = 0x86, ev_data = NoData, ev_p = Some 4\<rparr>]"
proof -
  have "ring_ok demo_queue" "length (pending demo_queue) < 8" by (simp_all add: ring_ok_def demo_queue_def)
  from event_queue_fifo [OF this(1), of "Some 4" "0x86" NoData] this(2) show ?thesis by presburger
qed

text \<open>C38: A step of the main loop keeps the kernel well-formed whatever the threads do through
  its interface, also when they start and exit processes or each other in the middle of a
  delivery: no chain of processes becomes cyclic, no process is on the list twice, and the
  indices of the event ring stay in range; it reports at most 9 events.\<close>

theorem process_run_keeps_kernel:
  assumes "kernel_ok s" "threads_keep kernel_ok T" "process_run n T s = Some (m, s')"
  shows "kernel_ok s' \<and> (\<exists>ps. path (pr_next s') (process_list s') ps \<and> distinct ps) \<and> m \<le> 9"
proof -
  have k: "kernel_ok s'" by (rule kernel.process_run_keeps [OF assms(3,2,1)])
  from assms(3) have "m = process_nevents s'" by (auto simp: process_run_def split: option.splits if_splits)
  with k have "m \<le> 9" by (simp add: process_nevents_def kernel_ok_def ring_ok_def)
  moreover from k chains_any obtain ps where "path (pr_next s') (process_list s') ps"
    unfolding kernel_ok_def by blast
  ultimately show ?thesis using k path_distinct by blast
qed

text \<open>The first process starts the third and calls it; the third exits the first.\<close>

definition demo_starters :: "unit threads" where
  "demo_starters p = (if p = 1 then Some (\<lambda>pt ev dat. Start 3 NoData (Post_synch 3 0x86 NoData (Return False)))
     else if p = 3 then Some (\<lambda>pt ev dat. if ev = PROCESS_EVENT_INIT then Return False else Exit 1 (Return False)) else None)"

definition demo_started :: "unit kernel" where
  "demo_started = demo_queue\<lparr>process_list := Some 1, pr_next := (\<lambda>p. if p = 1 then Some 2 else None),
     pr_state := (\<lambda>p. if p = 1 \<or> p = 2 then 1 else 0)\<rparr>"

theorem process_run_keeps_kernel_witness:
  "\<exists>m s'. process_run 20 demo_starters demo_started = Some (m, s') \<and> kernel_ok s'
     \<and> (\<exists>ps. path (pr_next s') (process_list s') ps \<and> distinct ps)"
proof -
  have "path (pr_next demo_started) (Some p) (if p = 1 then [1, 2] else [p])" for p
    by (simp add: demo_started_def)
  then have ok: "kernel_ok demo_started"
    unfolding kernel_ok_def chains_end_def by (auto simp: ring_ok_def demo_started_def demo_queue_def)
  have keep: "threads_keep kernel_ok demo_starters"
    by (auto simp: threads_keep_def demo_starters_def intro!: keeps.intros split: if_splits)
  have "process_run 20 demo_starters demo_started \<noteq> None" by code_simp
  then obtain m s' where "process_run 20 demo_starters demo_started = Some (m, s')" by auto
  with process_run_keeps_kernel [OF ok keep this] show ?thesis by blast
qed

end
