(* ===== verification/Contiki_Timer.thy ===== *)
theory Contiki_Timer
  imports Contiki_Prelude
begin

text \<open>
  The passive timers \<open>core/sys/timer.c\<close> and \<open>core/sys/stimer.c\<close>. \<open>clock_time_t\<close> and
  \<open>unsigned long\<close> are 32 bits on the sky platform. The clock is read by the hardware
  port, so the current value is an argument \<open>now\<close> of every operation that reads it.
  The lemmas relate the wrapping 32-bit differences to an unbounded tick count.
\<close>

section \<open>Timers in clock ticks\<close>

record timer =
  start :: u32
  interval :: u32

definition timer_set :: "u32 \<Rightarrow> u32 \<Rightarrow> timer \<Rightarrow> timer" where
  "timer_set now i t = t\<lparr>interval := i, start := now\<rparr>"

definition timer_reset :: "timer \<Rightarrow> timer" where
  "timer_reset t = t\<lparr>start := start t + interval t\<rparr>"

definition timer_restart :: "u32 \<Rightarrow> timer \<Rightarrow> timer" where
  "timer_restart now t = t\<lparr>start := now\<rparr>"

definition timer_expired :: "u32 \<Rightarrow> timer \<Rightarrow> bool" where
  "timer_expired now t = (let diff = (now - start t) + 1 in interval t < diff)"

definition timer_remaining :: "u32 \<Rightarrow> timer \<Rightarrow> u32" where
  "timer_remaining now t = start t + interval t - now"

section \<open>Timers in seconds\<close>

record stimer =
  sstart :: u32
  sinterval :: u32

definition sclock_geq :: "u32 \<Rightarrow> u32 \<Rightarrow> bool" where
  "sclock_geq a b \<longleftrightarrow> a - b < drop_bit 1 (NOT 0)"

definition stimer_set :: "u32 \<Rightarrow> u32 \<Rightarrow> stimer \<Rightarrow> stimer" where
  "stimer_set now i t = t\<lparr>sinterval := i, sstart := now\<rparr>"

definition stimer_reset :: "stimer \<Rightarrow> stimer" where
  "stimer_reset t = t\<lparr>sstart := sstart t + sinterval t\<rparr>"

definition stimer_restart :: "u32 \<Rightarrow> stimer \<Rightarrow> stimer" where
  "stimer_restart now t = t\<lparr>sstart := now\<rparr>"

definition stimer_expired :: "u32 \<Rightarrow> stimer \<Rightarrow> bool" where
  "stimer_expired now t = sclock_geq now (sstart t + sinterval t)"

definition stimer_remaining :: "u32 \<Rightarrow> stimer \<Rightarrow> u32" where
  "stimer_remaining now t = sstart t + sinterval t - now"

definition stimer_elapsed :: "u32 \<Rightarrow> stimer \<Rightarrow> u32" where
  "stimer_elapsed now t = now - sstart t"

section \<open>Elapsed time modulo the width of the counter\<close>

lemma word_elapsed: "(word_of_nat (s + e) :: u32) - word_of_nat s = word_of_nat e"
  by simp

lemma unat_word_small: "e < 4294967296 \<Longrightarrow> unat (word_of_nat e :: u32) = e"
  by (simp add: unat_of_nat take_bit_eq_mod)

text \<open>The clock may wrap any number of times between the start and now: only the elapsed
  time has to fit, and \<open>timer_expired\<close> is exact up to the last tick.\<close>

lemma timer_expired_elapsed:
  assumes "e < 4294967295"
  shows "timer_expired (word_of_nat (s + e)) (timer_set (word_of_nat s) i t) \<longleftrightarrow> unat i \<le> e"
proof -
  have "(word_of_nat e + 1 :: u32) = word_of_nat (e + 1)" by simp
  moreover have "unat (word_of_nat (e + 1) :: u32) = e + 1"
    using assms by (intro unat_word_small) simp
  ultimately show ?thesis
    by (simp add: timer_expired_def timer_set_def word_elapsed word_less_nat_alt less_Suc_eq_le
        del: of_nat_add of_nat_Suc)
qed

text \<open>At the one elapsed value where the increment wraps, no timer is ever expired.\<close>

lemma timer_expired_wrap: "now - start t = - 1 \<Longrightarrow> \<not> timer_expired now t"
  by (simp add: timer_expired_def)

lemma timer_remaining_elapsed:
  assumes "e \<le> unat i"
  shows "unat (timer_remaining (word_of_nat (s + e)) (timer_set (word_of_nat s) i t)) = unat i - e"
proof -
  have "timer_remaining (word_of_nat (s + e)) (timer_set (word_of_nat s) i t) = i - word_of_nat e"
    by (simp add: timer_remaining_def timer_set_def)
  also have "\<dots> = word_of_nat (unat i - e)"
    using assms by (simp add: of_nat_diff)
  finally show ?thesis
    using u32_less [of i] by (simp only: unat_word_small)
qed

text \<open>\<open>timer_reset\<close> keeps the period: after \<open>n\<close> resets the start has advanced by exactly
  \<open>n\<close> intervals, whenever the resets were made.\<close>

lemma timer_reset_drift:
  "start ((timer_reset ^^ n) t) = start t + word_of_nat n * interval t
   \<and> interval ((timer_reset ^^ n) t) = interval t"
  by (induction n) (auto simp: timer_reset_def algebra_simps)

lemma stimer_expired_elapsed:
  assumes "e < unat i + 2147483647" "e < 4294967296 \<or> unat i \<le> e" "unat i \<le> e + 2147483649"
  shows "stimer_expired (word_of_nat (s + e)) (stimer_set (word_of_nat s) i t) \<longleftrightarrow> unat i \<le> e"
proof -
  have eq: "word_of_nat (s + e) - (word_of_nat s + i) = (word_of_nat e - i :: u32)" by simp
  have m: "unat (drop_bit (Suc 0) (- 1) :: u32) = 2147483647"
    by (simp add: mask_eq_exp_minus_1 unat_minus_one)
  show ?thesis
  proof (cases "unat i \<le> e")
    case True
    then have "word_of_nat e - i = (word_of_nat (e - unat i) :: u32)" by (simp add: of_nat_diff)
    moreover have "unat (word_of_nat (e - unat i) :: u32) = e - unat i"
      using assms(1) by (intro unat_word_small) linarith
    ultimately show ?thesis
      using True assms(1) m
      by (simp add: stimer_expired_def stimer_set_def sclock_geq_def word_less_nat_alt)
  next
    case False
    have "unat (word_of_nat e - i) = (e + 4294967296 - unat i) mod 4294967296"
      using False u32_less [of i] unat_word_small [of e] by (simp add: unat_minus_word del: u32_less)
    also have "\<dots> = e + 4294967296 - unat i"
      using False u32_less [of i] by (intro mod_less) linarith
    finally have "unat (word_of_nat e - i) = e + 4294967296 - unat i" .
    then show ?thesis
      using False assms(3) m u32_less [of i]
      by (simp add: stimer_expired_def stimer_set_def sclock_geq_def word_less_nat_alt)
  qed
qed

lemma stimer_elapsed_set:
  "e < 4294967296 \<Longrightarrow> unat (stimer_elapsed (word_of_nat (s + e)) (stimer_set (word_of_nat s) i t)) = e"
  by (simp add: stimer_elapsed_def stimer_set_def unat_word_small)

section \<open>Properties\<close>

text \<open>A timer set at tick \<open>s\<close> is expired at tick \<open>s + e\<close> exactly when its interval has
  elapsed, however often the 32-bit clock has wrapped, for every elapsed time below
  2^32 - 1; and until then \<open>timer_remaining\<close> is the number of ticks left.\<close>

theorem timer_expired_exact:
  assumes "e < 2 ^ 32 - 1"
  shows "(timer_expired (word_of_nat (s + e)) (timer_set (word_of_nat s) i t) \<longleftrightarrow> unat i \<le> e)
    \<and> (e \<le> unat i \<longrightarrow>
        unat (timer_remaining (word_of_nat (s + e)) (timer_set (word_of_nat s) i t)) = unat i - e)"
  using timer_expired_elapsed [of e s i t] timer_remaining_elapsed [of e i s t] assms by simp

theorem timer_expired_exact_witness:
  "timer_expired (word_of_nat (4294967290 + 10)) (timer_set (word_of_nat 4294967290) 10 \<lparr>start = 0, interval = 0\<rparr>)
    \<and> unat (timer_remaining (word_of_nat (4294967290 + 10))
          (timer_set (word_of_nat 4294967290) 10 \<lparr>start = 0, interval = 0\<rparr>)) = 0"
  using timer_expired_exact [of 10 4294967290 10 "\<lparr>start = 0, interval = 0\<rparr>"] by simp

end
