(* ===== verification/Contiki_Etimer.thy ===== *)
theory Contiki_Etimer
  imports Contiki_Scheduler Contiki_Timer
begin

text \<open>
  Event timers, \<open>core/sys/etimer.c\<close>: a linked list of timers, each with the process that set
  it, and the process \<open>etimer_process\<close> that posts an event for every expired one. The timers
  are part of the memory of the threads; a timer is its address. The clock is the argument
  \<open>now\<close>; it stands still during an activation.
\<close>

section \<open>State\<close>

record etimer_state =
  timerlist :: "nat option"
  next_expiration :: u32
  et_timer :: "nat \<Rightarrow> timer"
  et_next :: "nat \<Rightarrow> nat option"
  et_p :: "nat \<Rightarrow> nat option"

text \<open>The address of \<open>etimer_process\<close>.\<close>

definition etimer_process :: nat where "etimer_process = 1"

definition etimer_request_poll :: "'m kernel \<Rightarrow> 'm kernel" where
  "etimer_request_poll s = process_poll (Some etimer_process) s"

section \<open>The next expiration\<close>

definition tdist :: "u32 \<Rightarrow> timer \<Rightarrow> u32" where
  "tdist now t = start t + interval t - now"

partial_function (option) tdist_loop :: "(nat \<Rightarrow> timer) \<Rightarrow> (nat \<Rightarrow> nat option) \<Rightarrow> u32 \<Rightarrow> nat option \<Rightarrow> u32 \<Rightarrow> u32 option" where
  "tdist_loop tm nx now t d =
     (case t of
        None \<Rightarrow> Some d
      | Some x \<Rightarrow> tdist_loop tm nx now (nx x) (if tdist now (tm x) < d then tdist now (tm x) else d))"

definition update_time :: "u32 \<Rightarrow> 'z etimer_state_scheme \<Rightarrow> 'z etimer_state_scheme option" where
  "update_time now m =
     (case timerlist m of
        None \<Rightarrow> Some (m\<lparr>next_expiration := 0\<rparr>)
      | Some t \<Rightarrow>
          map_option (\<lambda>d. m\<lparr>next_expiration := now + d\<rparr>)
            (tdist_loop (et_timer m) (et_next m) now (et_next m t) (tdist now (et_timer m t))))"

definition in_memory :: "('m \<Rightarrow> 'm option) \<Rightarrow> 'm kernel \<Rightarrow> 'm kernel option" where
  "in_memory f s = map_option (\<lambda>m. s\<lparr>memory := m\<rparr>) (f (memory s))"

section \<open>The process\<close>

text \<open>When a process exited, its timers are taken off the front, then out of the rest.\<close>

partial_function (option) drop_front :: "(nat \<Rightarrow> nat option) \<Rightarrow> (nat \<Rightarrow> nat option) \<Rightarrow> nat option \<Rightarrow> nat option \<Rightarrow> nat option option" where
  "drop_front nx own t p =
     (case t of
        None \<Rightarrow> Some None
      | Some x \<Rightarrow> if own x = p then drop_front nx own (nx x) p else Some (Some x))"

partial_function (option) drop_rest :: "(nat \<Rightarrow> nat option) \<Rightarrow> (nat \<Rightarrow> nat option) \<Rightarrow> nat \<Rightarrow> nat option \<Rightarrow> (nat \<Rightarrow> nat option) option" where
  "drop_rest nx own t p =
     (case nx t of
        None \<Rightarrow> Some nx
      | Some x \<Rightarrow> if own x = p then drop_rest (nx(t := nx x)) own t p else drop_rest nx own x p)"

definition drop_timers :: "nat option \<Rightarrow> 'z etimer_state_scheme \<Rightarrow> 'z etimer_state_scheme option" where
  "drop_timers p m =
     (case drop_front (et_next m) (et_p m) (timerlist m) p of
        None \<Rightarrow> None
      | Some None \<Rightarrow> Some (m\<lparr>timerlist := None\<rparr>)
      | Some (Some t) \<Rightarrow>
          map_option (\<lambda>nx. m\<lparr>timerlist := Some t, et_next := nx\<rparr>) (drop_rest (et_next m) (et_p m) t p))"

text \<open>An expired timer whose event was posted leaves the list and has no process any more.\<close>

definition remove_expired :: "nat \<Rightarrow> nat option \<Rightarrow> 'z etimer_state_scheme \<Rightarrow> 'z etimer_state_scheme" where
  "remove_expired t u m =
     (let m = m\<lparr>et_p := (et_p m)(t := None)\<rparr>;
          m = (case u of
                 Some v \<Rightarrow> m\<lparr>et_next := (et_next m)(v := et_next m t)\<rparr>
               | None \<Rightarrow> m\<lparr>timerlist := et_next m t\<rparr>)
      in m\<lparr>et_next := (et_next m)(t := None)\<rparr>)"

partial_function (option) expired_loop ::
  "u32 \<Rightarrow> nat option \<Rightarrow> nat option \<Rightarrow> 'z etimer_state_scheme kernel \<Rightarrow> 'z etimer_state_scheme kernel option" where
  "expired_loop now u t s =
     (case t of
        None \<Rightarrow> Some s
      | Some x \<Rightarrow>
          if timer_expired now (et_timer (memory s) x)
          then (case process_post (et_p (memory s) x) PROCESS_EVENT_TIMER (TimerData x) s of
                  (posted, s1) \<Rightarrow>
                    if posted
                    then (case update_time now (remove_expired x u (memory s1)) of
                            None \<Rightarrow> None
                          | Some m \<Rightarrow> expired_loop now None (timerlist m) (s1\<lparr>memory := m\<rparr>))
                    else expired_loop now (Some x) (et_next (memory (etimer_request_poll s1)) x) (etimer_request_poll s1))
          else expired_loop now (Some x) (et_next (memory s) x) s)"

text \<open>
  One activation of the thread: the first one, with continuation 0, clears the list. \<open>None\<close>
  is a run that never returns.
\<close>

definition etimer_thread ::
  "u32 \<Rightarrow> nat \<Rightarrow> u8 \<Rightarrow> process_data \<Rightarrow> 'z etimer_state_scheme kernel \<Rightarrow> 'z etimer_state_scheme kernel option" where
  "etimer_thread now pt ev dat s =
     (if pt = 0 then Some (s\<lparr>memory := (memory s)\<lparr>timerlist := None\<rparr>, pr_pt := (pr_pt s)(etimer_process := 1)\<rparr>)
      else if ev = PROCESS_EVENT_EXITED
        then (case dat of ProcessData p \<Rightarrow> in_memory (drop_timers (Some p)) s
              | NoData \<Rightarrow> in_memory (drop_timers None) s
              | _ \<Rightarrow> Some s)
      else if ev \<noteq> PROCESS_EVENT_POLL then Some s
      else expired_loop now None (timerlist (memory s)) s)"

section \<open>Operations\<close>

definition add_timer :: "u32 \<Rightarrow> nat \<Rightarrow> 'z etimer_state_scheme kernel \<Rightarrow> 'z etimer_state_scheme kernel option" where
  "add_timer now et s =
     (let s = etimer_request_poll s; m = memory s in
      case (if et_p m et \<noteq> None then find_link (et_next m) (timerlist m) et else Some False) of
        None \<Rightarrow> None
      | Some True \<Rightarrow> in_memory (update_time now) s
      | Some False \<Rightarrow>
          in_memory (update_time now)
            (s\<lparr>memory := m\<lparr>et_p := (et_p m)(et := process_current s), et_next := (et_next m)(et := timerlist m),
                 timerlist := Some et\<rparr>\<rparr>))"

definition set_timer :: "nat \<Rightarrow> (timer \<Rightarrow> timer) \<Rightarrow> 'z etimer_state_scheme kernel \<Rightarrow> 'z etimer_state_scheme kernel" where
  "set_timer et f s = s\<lparr>memory := (memory s)\<lparr>et_timer := (et_timer (memory s))(et := f (et_timer (memory s) et))\<rparr>\<rparr>"

definition etimer_set :: "u32 \<Rightarrow> nat \<Rightarrow> u32 \<Rightarrow> 'z etimer_state_scheme kernel \<Rightarrow> 'z etimer_state_scheme kernel option" where
  "etimer_set now et i s = add_timer now et (set_timer et (timer_set now i) s)"

definition etimer_reset :: "u32 \<Rightarrow> nat \<Rightarrow> 'z etimer_state_scheme kernel \<Rightarrow> 'z etimer_state_scheme kernel option" where
  "etimer_reset now et s = add_timer now et (set_timer et timer_reset s)"

definition etimer_restart :: "u32 \<Rightarrow> nat \<Rightarrow> 'z etimer_state_scheme kernel \<Rightarrow> 'z etimer_state_scheme kernel option" where
  "etimer_restart now et s = add_timer now et (set_timer et (timer_restart now) s)"

text \<open>The difference is a signed 16-bit \<open>int\<close>.\<close>

definition etimer_adjust :: "u32 \<Rightarrow> nat \<Rightarrow> u16 \<Rightarrow> 'z etimer_state_scheme kernel \<Rightarrow> 'z etimer_state_scheme kernel option" where
  "etimer_adjust now et timediff s =
     in_memory (update_time now) (set_timer et (\<lambda>t. t\<lparr>start := start t + scast timediff\<rparr>) s)"

definition etimer_expired :: "nat \<Rightarrow> 'z etimer_state_scheme \<Rightarrow> bool" where
  "etimer_expired et m \<longleftrightarrow> et_p m et = None"

definition etimer_expiration_time :: "nat \<Rightarrow> 'z etimer_state_scheme \<Rightarrow> u32" where
  "etimer_expiration_time et m = start (et_timer m et) + interval (et_timer m et)"

definition etimer_start_time :: "nat \<Rightarrow> 'z etimer_state_scheme \<Rightarrow> u32" where
  "etimer_start_time et m = start (et_timer m et)"

definition etimer_pending :: "'z etimer_state_scheme \<Rightarrow> bool" where
  "etimer_pending m \<longleftrightarrow> timerlist m \<noteq> None"

definition etimer_next_expiration_time :: "'z etimer_state_scheme \<Rightarrow> u32" where
  "etimer_next_expiration_time m = (if etimer_pending m then next_expiration m else 0)"

definition etimer_stop :: "u32 \<Rightarrow> nat \<Rightarrow> 'z etimer_state_scheme \<Rightarrow> 'z etimer_state_scheme option" where
  "etimer_stop now et m =
     map_option (\<lambda>m. m\<lparr>et_next := (et_next m)(et := None), et_p := (et_p m)(et := None)\<rparr>)
       (if timerlist m = Some et then update_time now (m\<lparr>timerlist := et_next m et\<rparr>)
        else (case find_previous (et_next m) (timerlist m) et of
                None \<Rightarrow> None
              | Some None \<Rightarrow> Some m
              | Some (Some t) \<Rightarrow> update_time now (m\<lparr>et_next := (et_next m)(t := et_next m et)\<rparr>)))"

end
