(* ===== verification/Contiki_Etimer_Laws.thy ===== *)
theory Contiki_Etimer_Laws
  imports Contiki_Etimer
begin

text \<open>
  Laws of the event timers: the list of timers as a HOL list, the next expiration as a
  minimum, and what an activation of \<open>etimer_process\<close> posts.
\<close>

section \<open>The list of timers\<close>

definition timers :: "'z etimer_state_scheme \<Rightarrow> nat list \<Rightarrow> bool" where
  "timers m xs \<longleftrightarrow> path (et_next m) (timerlist m) xs \<and> distinct xs"

definition nearest :: "u32 \<Rightarrow> 'z etimer_state_scheme \<Rightarrow> nat list \<Rightarrow> u32" where
  "nearest now m xs = (if xs = [] then 0 else now + Min ((\<lambda>x. tdist now (et_timer m x)) ` set xs))"

lemma tdist_loop_path:
  "path nx t xs \<Longrightarrow> tdist_loop tm nx now t d = Some (fold (\<lambda>x. min (tdist now (tm x))) xs d)"
proof (induction xs arbitrary: t d)
  case Nil
  then show ?case by (subst tdist_loop.simps) simp
next
  case (Cons x xs)
  have "(if tdist now (tm x) < d then tdist now (tm x) else d) = min (tdist now (tm x)) d" by (auto simp: min_def)
  with Cons show ?case by (subst tdist_loop.simps) simp
qed

lemma update_time_path:
  assumes "path (et_next m) (timerlist m) xs"
  shows "update_time now m = Some (m\<lparr>next_expiration := nearest now m xs\<rparr>)"
proof (cases xs)
  case Nil
  with assms show ?thesis by (simp add: update_time_def nearest_def)
next
  case (Cons x ys)
  with assms have p: "timerlist m = Some x" "path (et_next m) (et_next m x) ys" by auto
  let ?f = "\<lambda>x. tdist now (et_timer m x)"
  have "fold (\<lambda>x. min (?f x)) ys (?f x) = fold min (map ?f ys) (?f x)" by (simp add: fold_map comp_def)
  also have "\<dots> = Min (set (?f x # map ?f ys))" by (rule Min.set_eq_fold [symmetric])
  also have "\<dots> = Min (?f ` set xs)" by (simp add: Cons)
  finally show ?thesis using p by (simp add: update_time_def tdist_loop_path nearest_def Cons)
qed

section \<open>Timers of a process that exited\<close>

lemma drop_front_path:
  "path nx t xs \<Longrightarrow> drop_front nx own t p = Some (case dropWhile (\<lambda>x. own x = p) xs of [] \<Rightarrow> None | x # _ \<Rightarrow> Some x)"
  by (induction xs arbitrary: t) (auto simp: drop_front.simps)

lemma drop_rest_path:
  "path nx (nx t) ys \<Longrightarrow> distinct (t # ys) \<Longrightarrow>
     \<exists>nx'. drop_rest nx own t p = Some nx' \<and> path nx' (nx' t) (filter (\<lambda>x. own x \<noteq> p) ys)
       \<and> (\<forall>v. v \<notin> set (t # ys) \<longrightarrow> nx' v = nx v)"
proof (induction ys arbitrary: nx t)
  case Nil
  then show ?case by (subst drop_rest.simps) auto
next
  case (Cons y ys)
  then have y: "nx t = Some y" "path nx (nx y) ys" by auto
  show ?case
  proof (cases "own y = p")
    case True
    from Cons.prems(2) y have "path (nx(t := nx y)) ((nx(t := nx y)) t) ys" "distinct (t # ys)" by auto
    from Cons.IH [OF this] obtain nx' where
      n: "drop_rest (nx(t := nx y)) own t p = Some nx'" "path nx' (nx' t) (filter (\<lambda>x. own x \<noteq> p) ys)"
      "\<forall>v. v \<notin> set (t # ys) \<longrightarrow> nx' v = (nx(t := nx y)) v" by blast
    have "\<forall>v. v \<notin> set (t # y # ys) \<longrightarrow> nx' v = nx v" using n(3) by simp
    moreover have "drop_rest nx own t p = Some nx'" using n(1) y(1) True by (subst drop_rest.simps) simp
    ultimately show ?thesis using n(2) True by (intro exI [of _ nx']) simp
  next
    case False
    from Cons.IH [OF y(2)] Cons.prems(2) obtain nx' where
      n: "drop_rest nx own y p = Some nx'" "path nx' (nx' y) (filter (\<lambda>x. own x \<noteq> p) ys)"
      "\<forall>v. v \<notin> set (y # ys) \<longrightarrow> nx' v = nx v" by auto
    have "nx' t = Some y" using n(3) Cons.prems(2) y(1) by auto
    moreover have "drop_rest nx own t p = Some nx'" using n(1) y(1) False by (subst drop_rest.simps) simp
    ultimately show ?thesis using n(2,3) False by (intro exI [of _ nx']) simp
  qed
qed

lemma drop_timers_path:
  assumes "timers m xs"
  shows "\<exists>m'. drop_timers p m = Some m' \<and> timers m' (filter (\<lambda>x. et_p m x \<noteq> p) xs)
    \<and> et_p m' = et_p m \<and> et_timer m' = et_timer m"
proof -
  let ?own = "\<lambda>x. et_p m x = p"
  have t: "path (et_next m) (timerlist m) xs" "distinct xs" using assms by (auto simp: timers_def)
  have f: "filter (\<lambda>x. et_p m x \<noteq> p) xs = filter (\<lambda>x. et_p m x \<noteq> p) (dropWhile ?own xs)"
    by (induction xs) auto
  show ?thesis
  proof (cases "dropWhile ?own xs")
    case Nil
    show ?thesis using drop_front_path [OF t(1), of "et_p m" p] unfolding f Nil
      by (simp add: drop_timers_def timers_def)
  next
    case (Cons x ys)
    then have own: "et_p m x \<noteq> p" by (metis (mono_tags, lifting) dropWhile_eq_Cons_conv)
    have xs: "xs = takeWhile ?own xs @ x # ys" using Cons by (metis takeWhile_dropWhile_id)
    then have p: "path (et_next m) (et_next m x) ys" "distinct (x # ys)"
      using t path_after [of "et_next m" "timerlist m" "takeWhile ?own xs" x ys] by (metis, metis distinct_append)
    from drop_rest_path [OF p, of "et_p m" p] obtain nx' where
      n: "drop_rest (et_next m) (et_p m) x p = Some nx'" "path nx' (nx' x) (filter (\<lambda>x. et_p m x \<noteq> p) ys)" by blast
    show ?thesis using drop_front_path [OF t(1), of "et_p m" p] n own p(2) unfolding f Cons
      by (simp add: drop_timers_def timers_def)
  qed
qed

section \<open>Posting the expired timers\<close>

abbreviation expired_at :: "u32 \<Rightarrow> 'z etimer_state_scheme kernel \<Rightarrow> nat \<Rightarrow> bool" where
  "expired_at now s x \<equiv> timer_expired now (et_timer (memory s) x)"

lemma expired_loop_walk:
  "path (et_next (memory s)) t (as @ bs) \<Longrightarrow> \<forall>x\<in>set as. \<not> expired_at now s x \<Longrightarrow>
     expired_loop now u t s = expired_loop now (if as = [] then u else Some (last as)) (case bs of [] \<Rightarrow> None | x # _ \<Rightarrow> Some x) s"
proof (induction as arbitrary: u t)
  case Nil
  then show ?case by (cases bs) auto
next
  case (Cons a as)
  then have "t = Some a" "path (et_next (memory s)) (et_next (memory s) a) (as @ bs)" "\<not> expired_at now s a" by auto
  with Cons.IH [of "et_next (memory s) a" "Some a"] Cons.prems(2) show ?case by (subst expired_loop.simps) auto
qed

lemma process_poll_memory [simp]: "memory (process_poll p s) = memory s" "nevents (process_poll p s) = nevents s"
  by (simp_all add: process_poll_def split: option.split)

lemma process_poll_twice [simp]: "process_poll p (process_poll p s) = process_poll p s"
  by (auto simp: process_poll_def split: option.split)

lemma expired_loop_full:
  "path (et_next (memory s)) t xs \<Longrightarrow> unat (nevents s) = 8 \<Longrightarrow>
     expired_loop now u t s = Some (if \<exists>x\<in>set xs. expired_at now s x then etimer_request_poll s else s)"
proof (induction xs arbitrary: u t s)
  case Nil
  then show ?case by (subst expired_loop.simps) simp
next
  case (Cons x xs)
  then have t: "t = Some x" "path (et_next (memory s)) (et_next (memory s) x) xs" by auto
  show ?case
  proof (cases "expired_at now s x")
    case True
    let ?s = "etimer_request_poll s"
    have m: "memory ?s = memory s" "unat (nevents ?s) = 8" "etimer_request_poll ?s = ?s"
      using Cons.prems(2) by (simp_all add: etimer_request_poll_def)
    have "expired_loop now u t s = expired_loop now (Some x) (et_next (memory s) x) ?s"
      using True t(1) by (subst expired_loop.simps) (simp add: post_full [OF Cons.prems(2)] m(1))
    also have "\<dots> = Some ?s" using Cons.IH [of ?s] t(2) m by simp
    finally show ?thesis using True by simp
  next
    case False
    with t(1) Cons.IH [OF t(2) Cons.prems(2)] show ?thesis by (subst expired_loop.simps) simp
  qed
qed

lemma remove_expired_timers:
  assumes "timers m (as @ x # bs)" "u = (if as = [] then None else Some (last as))"
  shows "timers (remove_expired x u m) (as @ bs)"
proof (cases as rule: rev_cases)
  case Nil
  with assms show ?thesis by (auto simp: timers_def remove_expired_def Let_def)
next
  case (snoc cs c)
  with assms have "path ((et_next m)(c := et_next m x, x := None)) (timerlist m) (cs @ c # bs)"
    using path_cut [of "et_next m" "timerlist m" cs c x bs] by (simp add: timers_def)
  with snoc assms show ?thesis by (auto simp: timers_def remove_expired_def Let_def)
qed

lemma remove_expired_fields [simp]:
  "et_timer (remove_expired x u m) = et_timer m" "et_p (remove_expired x u m) = (et_p m)(x := None)"
  "etimer_state.more (remove_expired x u m) = etimer_state.more m"
  by (simp_all add: remove_expired_def Let_def split: option.split)

lemma nearest_cong: "et_timer m = et_timer m' \<Longrightarrow> nearest now m xs = nearest now m' xs"
  by (simp add: nearest_def)

definition timer_event :: "'z etimer_state_scheme kernel \<Rightarrow> nat \<Rightarrow> event_data" where
  "timer_event s x = \<lparr>ev_ev = PROCESS_EVENT_TIMER, ev_data = TimerData x, ev_p = et_p (memory s) x\<rparr>"

text \<open>The timers whose event finds room in the queue.\<close>

definition posted :: "u32 \<Rightarrow> 'z etimer_state_scheme kernel \<Rightarrow> nat list \<Rightarrow> nat list" where
  "posted now s xs = take (8 - unat (nevents s)) (filter (expired_at now s) xs)"

definition polled :: "u32 \<Rightarrow> 'z etimer_state_scheme kernel \<Rightarrow> nat list \<Rightarrow> bool" where
  "polled now s xs \<longleftrightarrow> length (posted now s xs) < length (filter (expired_at now s) xs)"

definition after_poll :: "u32 \<Rightarrow> 'z etimer_state_scheme kernel \<Rightarrow> nat list \<Rightarrow> 'z etimer_state_scheme kernel \<Rightarrow> bool" where
  "after_poll now s xs s' \<longleftrightarrow>
     (\<exists>es n x m. s' = (if polled now s xs then etimer_request_poll else id) (s\<lparr>events := es, nevents := n, process_maxevents := x, memory := m\<rparr>))
     \<and> ring_ok s' \<and> pending s' = pending s @ map (timer_event s) (posted now s xs)
     \<and> timers (memory s') (filter (\<lambda>x. x \<notin> set (posted now s xs)) xs)
     \<and> et_timer (memory s') = et_timer (memory s) \<and> etimer_state.more (memory s') = etimer_state.more (memory s)
     \<and> et_p (memory s') = (\<lambda>x. if x \<in> set (posted now s xs) then None else et_p (memory s) x)
     \<and> (posted now s xs = [] \<longrightarrow> memory s' = memory s)
     \<and> (posted now s xs \<noteq> [] \<longrightarrow>
          next_expiration (memory s') = nearest now (memory s) (filter (\<lambda>x. x \<notin> set (posted now s xs)) xs))"

lemma request_poll_parts [simp]:
  "pending (etimer_request_poll s) = pending s" "ring_ok (etimer_request_poll s) = ring_ok s"
  "memory (etimer_request_poll s) = memory s" "events (etimer_request_poll s) = events s"
  "nevents (etimer_request_poll s) = nevents s" "process_maxevents (etimer_request_poll s) = process_maxevents s"
  "etimer_request_poll (s\<lparr>events := es, nevents := n, process_maxevents := x, memory := m\<rparr>) = (etimer_request_poll s)\<lparr>events := es, nevents := n, process_maxevents := x, memory := m\<rparr>"
  by (auto simp: etimer_request_poll_def process_poll_def pending_def ring_ok_def)

lemma ring_memory [simp]: "ring_ok (s\<lparr>memory := m\<rparr>) = ring_ok s" "pending (s\<lparr>memory := m\<rparr>) = pending s"
  by (simp_all add: ring_ok_def pending_def)

lemma after_poll_idle:
  assumes "timers (memory s) xs" "ring_ok s" "posted now s xs = []"
  shows "after_poll now s xs (if polled now s xs then etimer_request_poll s else s)"
proof -
  let ?r = "if polled now s xs then etimer_request_poll else id"
  have same: "s\<lparr>events := events s, nevents := nevents s, process_maxevents := process_maxevents s, memory := memory s\<rparr> = s" by simp
  have "\<exists>es n x m. ?r s = ?r (s\<lparr>events := es, nevents := n, process_maxevents := x, memory := m\<rparr>)"
    by (rule exI [of _ "events s"], rule exI [of _ "nevents s"], rule exI [of _ "process_maxevents s"], rule exI [of _ "memory s"])
      (simp only: same)
  then show ?thesis using assms unfolding after_poll_def by (cases "polled now s xs") simp_all
qed

lemma process_post_shape:
  assumes "process_post p ev dat s = (True, s1)"
  shows "\<exists>es k x. s1 = s\<lparr>events := es, nevents := k, process_maxevents := x\<rparr>"
proof (cases "nevents s = 8")
  case False
  with assms show ?thesis unfolding process_post_def Let_def by (simp only: if_False prod.inject) blast
qed (use assms in \<open>simp add: process_post_def\<close>)

lemma after_poll_step:
  assumes xs: "xs = as @ x # bs" "\<forall>y\<in>set as. \<not> expired_at now s y" "expired_at now s x" "distinct xs"
    and s1: "s1 = s\<lparr>events := es, nevents := k, process_maxevents := mx\<rparr>" "unat k = Suc (unat (nevents s))" "unat (nevents s) < 8"
      "pending s1 = pending s @ [timer_event s x]"
    and m: "et_timer m = et_timer (memory s)" "et_p m = (et_p (memory s))(x := None)"
      "next_expiration m = nearest now (memory s) (as @ bs)" "etimer_state.more m = etimer_state.more (memory s)"
    and a: "after_poll now (s1\<lparr>memory := m\<rparr>) (as @ bs) s'"
  shows "after_poll now s xs s'"
proof -
  let ?s2 = "s1\<lparr>memory := m\<rparr>"
  have f: "filter (expired_at now s) xs = x # filter (expired_at now ?s2) (as @ bs)"
    using xs(1-3) m(1) by (simp add: filter_empty_conv)
  have room: "8 - unat (nevents s) = Suc (8 - unat (nevents ?s2))" using s1 by simp
  have ps: "posted now s xs = x # posted now ?s2 (as @ bs)" unfolding posted_def f room by simp
  have pl: "polled now s xs = polled now ?s2 (as @ bs)" unfolding polled_def ps f by simp
  have sub: "set (posted now ?s2 (as @ bs)) \<subseteq> set (as @ bs)" unfolding posted_def using set_take_subset by fastforce
  have rest: "filter (\<lambda>y. y \<notin> set (posted now s xs)) xs = filter (\<lambda>y. y \<notin> set (posted now ?s2 (as @ bs))) (as @ bs)"
  proof -
    have "filter (\<lambda>y. y \<notin> set (posted now s xs)) ys = filter (\<lambda>y. y \<notin> set (posted now ?s2 (as @ bs))) ys" if "x \<notin> set ys" for ys
      using that unfolding ps by (intro filter_cong) auto
    from this [of "as @ bs"] show ?thesis using xs(1,4) ps by simp
  qed
  have ev: "map (timer_event ?s2) (posted now ?s2 (as @ bs)) = map (timer_event s) (posted now ?s2 (as @ bs))"
    using sub xs(1,4) m(2) by (auto simp: timer_event_def)
  note A = a [unfolded after_poll_def, folded pl rest]
  from A obtain es' n' x' m' where e: "s' = (if polled now s xs then etimer_request_poll else id) (s1\<lparr>memory := m, events := es', nevents := n', process_maxevents := x', memory := m'\<rparr>)"
    by blast
  have e': "s1\<lparr>memory := m, events := es', nevents := n', process_maxevents := x', memory := m'\<rparr> = s\<lparr>events := es', nevents := n', process_maxevents := x', memory := m'\<rparr>"
    unfolding s1(1) by simp
  have parts: "ring_ok s'" "pending s' = pending ?s2 @ map (timer_event ?s2) (posted now ?s2 (as @ bs))"
    "timers (memory s') (filter (\<lambda>y. y \<notin> set (posted now s xs)) xs)" "et_timer (memory s') = et_timer (memory ?s2)"
    "etimer_state.more (memory s') = etimer_state.more (memory ?s2)"
    "et_p (memory s') = (\<lambda>y. if y \<in> set (posted now ?s2 (as @ bs)) then None else et_p (memory ?s2) y)"
    using A by blast+
  have idle: "posted now ?s2 (as @ bs) = [] \<Longrightarrow> memory s' = m" using A by simp
  have busy: "posted now ?s2 (as @ bs) \<noteq> [] \<Longrightarrow>
      next_expiration (memory s') = nearest now m (filter (\<lambda>y. y \<notin> set (posted now s xs)) xs)" using A by simp
  have near: "next_expiration (memory s') = nearest now (memory s) (filter (\<lambda>y. y \<notin> set (posted now s xs)) xs)"
  proof (cases "posted now ?s2 (as @ bs) = []")
    case True
    then have "filter (\<lambda>y. y \<notin> set (posted now s xs)) xs = as @ bs" unfolding rest by simp
    with idle [OF True] m(3) show ?thesis by simp
  next
    case False
    with busy nearest_cong [OF m(1)] show ?thesis by simp
  qed
  show ?thesis unfolding after_poll_def
  proof (intro conjI)
    show "\<exists>es n x m. s' = (if polled now s xs then etimer_request_poll else id) (s\<lparr>events := es, nevents := n, process_maxevents := x, memory := m\<rparr>)"
      using e unfolding e' by blast
    show "pending s' = pending s @ map (timer_event s) (posted now s xs)"
      using parts(2) s1(4) ev unfolding ps by simp
    show "et_p (memory s') = (\<lambda>y. if y \<in> set (posted now s xs) then None else et_p (memory s) y)"
      unfolding parts(6) ps by (auto simp: m(2))
    show "et_timer (memory s') = et_timer (memory s)" using parts(4) m(1) by simp
    show "etimer_state.more (memory s') = etimer_state.more (memory s)" using parts(5) m(4) by simp
    show "posted now s xs = [] \<longrightarrow> memory s' = memory s" by (simp add: ps)
  qed (use parts near in simp_all)
qed

lemma expired_loop_posts:
  "timers (memory s) xs \<Longrightarrow> ring_ok s \<Longrightarrow>
     \<exists>s'. expired_loop now None (timerlist (memory s)) s = Some s' \<and> after_poll now s xs s'"
proof (induction "length xs" arbitrary: xs s rule: less_induct)
  case less
  have p: "path (et_next (memory s)) (timerlist (memory s)) xs" using less.prems by (simp add: timers_def)
  have n32: "unat (nevents s) \<le> 8" using less.prems by (simp add: ring_ok_def)
  show ?case
  proof (cases "unat (nevents s) = 8 \<or> filter (expired_at now s) xs = []")
    case True
    have "posted now s xs = []" using True by (auto simp: posted_def)
    from after_poll_idle [OF less.prems this]
    have a: "after_poll now s xs (if polled now s xs then etimer_request_poll s else s)" .
    show ?thesis
    proof (cases "unat (nevents s) = 8")
      case True
      then have "polled now s xs \<longleftrightarrow> (\<exists>x\<in>set xs. expired_at now s x)"
        by (auto simp: polled_def posted_def filter_empty_conv)
      with expired_loop_full [OF p True] a show ?thesis by simp
    next
      case False
      with True have c: "\<forall>x\<in>set xs. \<not> expired_at now s x" "\<not> polled now s xs"
        by (auto simp: filter_empty_conv polled_def)
      with expired_loop_walk [of s "timerlist (memory s)" xs "[]" now None] p a show ?thesis
        by (simp add: expired_loop.simps [of now _ None])
    qed
  next
    case False
    then have "\<exists>x\<in>set xs. expired_at now s x" by (auto simp: filter_empty_conv)
    then obtain as x bs where xs: "xs = as @ x # bs" "\<forall>y\<in>set as. \<not> expired_at now s y" "expired_at now s x"
      by (rule split_list_first_propE)
    define u where "u = (if as = [] then None else Some (last as))"
    have room: "unat (nevents s) < 8" using False n32 by simp
    from post_refines [OF less.prems(2) room, of "et_p (memory s) x" PROCESS_EVENT_TIMER "TimerData x"] obtain s1 where
      s1: "process_post (et_p (memory s) x) PROCESS_EVENT_TIMER (TimerData x) s = (True, s1)" "ring_ok s1"
        "pending s1 = pending s @ [timer_event s x]" unfolding timer_event_def by blast
    then obtain es k mx where e1: "s1 = s\<lparr>events := es, nevents := k, process_maxevents := mx\<rparr>" using process_post_shape by blast
    have n1: "unat (nevents s1) = Suc (unat (nevents s))"
      using arg_cong [OF s1(3), of length] by simp
    define m1 where "m1 = remove_expired x u (memory s)"
    have t1: "timers m1 (as @ bs)" unfolding m1_def by (rule remove_expired_timers) (use less.prems xs u_def in auto)
    define m2 where "m2 = m1\<lparr>next_expiration := nearest now m1 (as @ bs)\<rparr>"
    have t2: "timers m2 (as @ bs)" using t1 by (simp add: m2_def timers_def)
    have tm: "et_timer m2 = et_timer (memory s)" "et_p m2 = (et_p (memory s))(x := None)"
        "next_expiration m2 = nearest now (memory s) (as @ bs)" "etimer_state.more m2 = etimer_state.more (memory s)"
      by (simp_all add: m2_def m1_def nearest_def)
    let ?s2 = "s1\<lparr>memory := m2\<rparr>"
    have run: "expired_loop now None (timerlist (memory s)) s = expired_loop now None (timerlist m2) ?s2"
    proof -
      have "expired_loop now None (timerlist (memory s)) s = expired_loop now u (Some x) s"
        using expired_loop_walk [of s "timerlist (memory s)" as "x # bs" now None] p xs u_def by simp
      also have "\<dots> = expired_loop now None (timerlist m2) ?s2"
        using xs(3) s1(1) update_time_path [of m1 "as @ bs" now] t1 e1
        by (subst expired_loop.simps) (simp add: m1_def [symmetric] m2_def timers_def)
      finally show ?thesis .
    qed
    have "\<exists>s'. expired_loop now None (timerlist (memory ?s2)) ?s2 = Some s' \<and> after_poll now ?s2 (as @ bs) s'"
      using t2 s1(2) xs(1) by (intro less.hyps) simp_all
    then obtain s' where s': "expired_loop now None (timerlist m2) ?s2 = Some s'" "after_poll now ?s2 (as @ bs) s'" by auto
    have k: "unat k = Suc (unat (nevents s))" using n1 e1 by simp
    have "after_poll now s xs s'"
      by (rule after_poll_step [OF xs _ e1 k room s1(3) tm s'(2)])
        (use less.prems in \<open>simp add: timers_def\<close>)
    with run s'(1) show ?thesis by auto
  qed
qed

section \<open>Setting a timer\<close>

lemma timers_request_poll: "process_current (etimer_request_poll s) = process_current s"
  by (simp add: etimer_request_poll_def process_poll_def split: option.split)

text \<open>
  A timer without process is on no list: this is how \<open>add_timer\<close> decides, and what a set
  timer needs for it is that some process is running.
\<close>

definition owned :: "'z etimer_state_scheme \<Rightarrow> nat list \<Rightarrow> bool" where
  "owned m xs \<longleftrightarrow> (\<forall>x\<in>set xs. et_p m x \<noteq> None)"

lemma add_timer_result:
  fixes s :: "'z etimer_state_scheme kernel"
  assumes "timers (memory s) xs" "owned (memory s) xs"
  shows "\<exists>s' ys m. add_timer now et s = Some s' \<and> s' = (etimer_request_poll s)\<lparr>memory := m\<rparr>
    \<and> ys = (if et \<in> set xs then xs else et # xs) \<and> timers m ys \<and> et_timer m = et_timer (memory s)
    \<and> et_p m = (if et \<in> set xs then et_p (memory s) else (et_p (memory s))(et := process_current s))
    \<and> next_expiration m = nearest now (memory s) ys \<and> etimer_state.more m = etimer_state.more (memory s)"
proof -
  let ?s = "etimer_request_poll s" and ?m = "memory s"
  have p: "path (et_next ?m) (timerlist ?m) xs" "distinct xs" using assms(1) by (auto simp: timers_def)
  show ?thesis
  proof (cases "et \<in> set xs")
    case True
    then have "et_p ?m et \<noteq> None" using assms(2) by (simp add: owned_def)
    then have "add_timer now et s = Some (?s\<lparr>memory := ?m\<lparr>next_expiration := nearest now ?m xs\<rparr>\<rparr>)"
      using find_link_path [OF p(1), of et] True update_time_path [OF p(1), of now]
      by (simp add: add_timer_def in_memory_def Let_def)
    with True p show ?thesis by (auto simp: timers_def)
  next
    case False
    define m where "m = ?m\<lparr>et_p := (et_p ?m)(et := process_current s), et_next := (et_next ?m)(et := timerlist ?m), timerlist := Some et\<rparr>"
    have pm: "path (et_next m) (timerlist m) (et # xs)" using p(1) False by (simp add: m_def)
    have fl: "find_link (et_next ?m) (timerlist ?m) et = Some False" using find_link_path [OF p(1), of et] False by simp
    have "add_timer now et s = Some (?s\<lparr>memory := m\<lparr>next_expiration := nearest now m (et # xs)\<rparr>\<rparr>)"
      using update_time_path [OF pm, of now]
      by (cases "et_p ?m et") (simp_all add: add_timer_def in_memory_def Let_def timers_request_poll fl m_def)
    moreover have "nearest now m (et # xs) = nearest now ?m (et # xs)" by (rule nearest_cong) (simp add: m_def)
    ultimately show ?thesis using pm p(2) False by (auto simp: timers_def m_def)
  qed
qed

lemma timer_op_result:
  fixes s :: "'z etimer_state_scheme kernel"
  assumes "timers (memory s) xs" "owned (memory s) xs" "process_current s \<noteq> None"
  shows "\<exists>m. add_timer now et (set_timer et f s) = Some ((etimer_request_poll s)\<lparr>memory := m\<rparr>)
    \<and> timers m (if et \<in> set xs then xs else et # xs) \<and> owned m (if et \<in> set xs then xs else et # xs)
    \<and> et_timer m = (et_timer (memory s))(et := f (et_timer (memory s) et))
    \<and> etimer_state.more m = etimer_state.more (memory s)"
proof -
  let ?u = "set_timer et f s"
  have "timers (memory ?u) xs" "owned (memory ?u) xs"
    using assms by (simp_all add: set_timer_def timers_def owned_def)
  from add_timer_result [OF this, of now et] obtain m where
    m: "add_timer now et ?u = Some ((etimer_request_poll ?u)\<lparr>memory := m\<rparr>)" "timers m (if et \<in> set xs then xs else et # xs)"
      "et_timer m = et_timer (memory ?u)" "etimer_state.more m = etimer_state.more (memory ?u)"
      "et_p m = (if et \<in> set xs then et_p (memory ?u) else (et_p (memory ?u))(et := process_current ?u))" by blast
  have "(etimer_request_poll ?u)\<lparr>memory := m\<rparr> = (etimer_request_poll s)\<lparr>memory := m\<rparr>"
    by (simp add: etimer_request_poll_def process_poll_def set_timer_def)
  with m assms(2,3) show ?thesis by (auto simp: set_timer_def owned_def)
qed

section \<open>Stopping a timer\<close>

lemma find_previous_path: "path n q xs \<Longrightarrow> find_previous n q p = Some (List.find (\<lambda>x. n x = Some p) xs)"
  by (induction xs arbitrary: q) (auto simp: find_previous_code)

lemma path_successor: "path n q xs \<Longrightarrow> w \<in> set xs \<Longrightarrow> n w = Some v \<Longrightarrow> v \<in> set (tl xs)"
proof (induction xs arbitrary: q)
  case (Cons x xs)
  show ?case
  proof (cases "w = x")
    case True
    with Cons.prems have "path n (Some v) xs" by auto
    then show ?thesis by (cases xs) auto
  next
    case False
    with Cons have "v \<in> set (tl xs)" by auto
    then show ?thesis by (cases xs) auto
  qed
qed simp

lemma path_before: "path n q (as @ y # bs) \<Longrightarrow> w \<in> set as \<Longrightarrow> \<exists>v \<in> set (as @ [y]). n w = Some v"
proof (induction as arbitrary: q)
  case (Cons a as)
  then show ?case by (cases as) auto
qed simp

lemma etimer_stop_result:
  assumes "timers m xs"
  shows "\<exists>m'. etimer_stop now et m = Some m' \<and> timers m' (remove1 et xs) \<and> et_timer m' = et_timer m
    \<and> et_p m' = (et_p m)(et := None) \<and> etimer_state.more m' = etimer_state.more m"
proof -
  have p: "path (et_next m) (timerlist m) xs" "distinct xs" using assms by (auto simp: timers_def)
  consider (head) ys where "xs = et # ys" | (inner) as y bs where "xs = as @ y # et # bs" | (out) "et \<notin> set xs"
    by (cases "et \<in> set xs") (auto dest!: split_list, metis append_butlast_last_id append_Cons append_Nil append_assoc)
  then show ?thesis
  proof cases
    case head
    let ?m = "m\<lparr>timerlist := et_next m et\<rparr>"
    have pm: "path (et_next ?m) (timerlist ?m) ys" using p(1) head by simp
    from p head have "timerlist m = Some et" "et \<notin> set ys" "distinct ys" by auto
    with update_time_path [OF pm, of now] pm head show ?thesis by (simp add: etimer_stop_def timers_def)
  next
    case inner
    have "List.find (\<lambda>x. et_next m x = Some et) xs = Some y"
    proof -
      have "et_next m w \<noteq> Some et" if "w \<in> set as" for w
        using path_before [of "et_next m" "timerlist m" as y "et # bs" w] p inner that by fastforce
      moreover have "et_next m y = Some et" using path_after [of "et_next m" "timerlist m" as y "et # bs"] p(1) inner by simp
      ultimately show ?thesis unfolding inner by (induction as) auto
    qed
    then have fp: "find_previous (et_next m) (timerlist m) et = Some (Some y)" using find_previous_path [OF p(1)] by simp
    have cut: "path ((et_next m)(y := et_next m et, et := None)) (timerlist m) (as @ y # bs)"
      using path_cut [of "et_next m" "timerlist m" as y et bs] p inner by simp
    let ?m = "m\<lparr>et_next := (et_next m)(y := et_next m et)\<rparr>"
    have "path ((et_next m)(y := et_next m et)) (timerlist m) (as @ y # bs)"
      using cut p(2) inner path_upd [of et "as @ y # bs" "(et_next m)(y := et_next m et)" None] by (auto simp: fun_upd_twist)
    then have pm: "path (et_next ?m) (timerlist ?m) (as @ y # bs)" by simp
    have hd: "timerlist m \<noteq> Some et" using p inner by (cases as) auto
    show ?thesis using update_time_path [OF pm, of now] fp hd cut p(2) inner
      by (simp add: etimer_stop_def timers_def remove1_append)
  next
    case out
    have "List.find (\<lambda>x. et_next m x = Some et) xs = None"
      using path_successor [OF p(1)] out by (auto simp: find_None_iff) (metis list.set_sel(2) empty_iff list.set(1) tl_Nil)
    then have "find_previous (et_next m) (timerlist m) et = Some None" using find_previous_path [OF p(1)] by simp
    moreover have "timerlist m \<noteq> Some et" using p(1) out by (cases xs) auto
    ultimately show ?thesis using out p by (simp add: etimer_stop_def timers_def remove1_idem)
  qed
qed

section \<open>Property\<close>

text \<open>When \<open>etimer_process\<close> is polled it posts one timer event, to the process that set it,
  for every expired timer in the order of the list, takes exactly these timers off the list,
  and marks them expired. Timers that find no room in the event queue stay on the list and
  the process asks to be polled again; no other timer is touched.\<close>

theorem etimer_posts_expired:
  assumes "timers (memory s) xs" "ring_ok s" "pt \<noteq> 0"
    and "expired = filter (\<lambda>x. timer_expired now (et_timer (memory s) x)) xs"
    and "ps = take (8 - length (pending s)) expired" and "pr_state s etimer_process \<in> {PROCESS_STATE_RUNNING, PROCESS_STATE_CALLED}"
  shows "\<exists>s'. etimer_thread now pt PROCESS_EVENT_POLL dat s = Some s'
    \<and> pending s' = pending s @ map (\<lambda>x. \<lparr>ev_ev = PROCESS_EVENT_TIMER, ev_data = TimerData x, ev_p = et_p (memory s) x\<rparr>) ps
    \<and> timers (memory s') (filter (\<lambda>x. x \<notin> set ps) xs) \<and> et_timer (memory s') = et_timer (memory s)
    \<and> (\<forall>x. etimer_expired x (memory s') \<longleftrightarrow> x \<in> set ps \<or> etimer_expired x (memory s))
    \<and> (if length ps < length expired then pr_needspoll s' etimer_process \<and> poll_requested s'
       else pr_needspoll s' = pr_needspoll s \<and> poll_requested s' = poll_requested s)"
proof -
  have t: "etimer_thread now pt PROCESS_EVENT_POLL dat s = expired_loop now None (timerlist (memory s)) s"
    using assms(3) by (simp add: etimer_thread_def process_codes)
  from expired_loop_posts [OF assms(1,2), of now] obtain s' where
    s': "expired_loop now None (timerlist (memory s)) s = Some s'" "after_poll now s xs s'" by blast
  have ps: "posted now s xs = ps" by (simp add: posted_def assms(4,5))
  have pl: "polled now s xs \<longleftrightarrow> length ps < length expired" unfolding polled_def ps assms(4) ..
  from s'(2) have poll: "if length ps < length expired then pr_needspoll s' etimer_process \<and> poll_requested s'
       else pr_needspoll s' = pr_needspoll s \<and> poll_requested s' = poll_requested s"
    using assms(6) unfolding after_poll_def pl
    by (auto simp: etimer_request_poll_def process_poll_def split: if_splits)
  show ?thesis unfolding t
    using s' poll unfolding after_poll_def ps timer_event_def [abs_def] etimer_expired_def
    by (intro exI [of _ s']) auto
qed

text \<open>Timer 10 of process 5 expired, timer 11 of process 6 did not; one place of the queue is left.\<close>

definition demo_etimers :: "etimer_state kernel" where
  "demo_etimers = \<lparr>process_list = Some etimer_process, process_current = None, pr_next = (\<lambda>_. None), pr_pt = (\<lambda>_. 1),
     pr_state = (\<lambda>p. if p = etimer_process then 1 else 0), pr_needspoll = (\<lambda>_. False), lastevent = 0x8a,
     nevents = 7, fevent = 5, events = replicate 8 \<lparr>ev_ev = 0x88, ev_data = NoData, ev_p = None\<rparr>,
     poll_requested = False, process_maxevents = 0,
     memory = \<lparr>timerlist = Some 11, next_expiration = 0,
       et_timer = (\<lambda>x. if x = 10 then \<lparr>start = 0xfffffff0, interval = 8\<rparr> else \<lparr>start = 4, interval = 200\<rparr>),
       et_next = (\<lambda>x. if x = 11 then Some 10 else None), et_p = (\<lambda>x. if x = 10 then Some 5 else if x = 11 then Some 6 else None)\<rparr>\<rparr>"

theorem etimer_posts_expired_witness:
  "\<exists>s'. etimer_thread 6 1 PROCESS_EVENT_POLL NoData demo_etimers = Some s'
     \<and> pending s' = pending demo_etimers @ [\<lparr>ev_ev = PROCESS_EVENT_TIMER, ev_data = TimerData 10, ev_p = Some 5\<rparr>]
     \<and> timers (memory s') [11]"
proof -
  have e: "filter (\<lambda>x. timer_expired 6 (et_timer (memory demo_etimers) x)) [11, 10] = [10]"
    "take (8 - length (pending demo_etimers)) [10] = [10 :: nat]" "et_p (memory demo_etimers) 10 = Some 5"
    by code_simp+
  have "timers (memory demo_etimers) [11, 10]" "ring_ok demo_etimers" "(1 :: nat) \<noteq> 0"
    "pr_state demo_etimers etimer_process \<in> {PROCESS_STATE_RUNNING, PROCESS_STATE_CALLED}"
    by (simp_all add: timers_def ring_ok_def demo_etimers_def PROCESS_STATE_RUNNING_def)
  from etimer_posts_expired [OF this(1-3) refl refl this(4), of 6 NoData, unfolded e]
  show ?thesis by (auto simp: e(3))
qed

end
