(* ===== verification/Contiki_Ctimer.thy ===== *)
theory Contiki_Ctimer
  imports Contiki_Etimer_Laws
begin

text \<open>
  Callback timers, \<open>core/sys/ctimer.c\<close>: a list (of the list library) of timers with a
  callback, driven by event timers of the process \<open>ctimer_process\<close>. A callback timer is an
  address; the event timer inside it has the same address. The functions that callbacks
  point to are code of the clients and a parameter.
\<close>

section \<open>State\<close>

record ctimer_state = etimer_state +
  cb_list :: "(unit, nat) lheap"
  cb_initialized :: bool
  cb_p :: "nat \<Rightarrow> nat option"
  cb_f :: "nat \<Rightarrow> nat option"
  cb_ptr :: "nat \<Rightarrow> nat"

definition ctimer_process :: nat where "ctimer_process = 2"

type_synonym 'z callbacks = "nat \<Rightarrow> nat \<Rightarrow> 'z ctimer_state_scheme kernel \<Rightarrow> 'z ctimer_state_scheme kernel"

text \<open>\<open>PROCESS_CONTEXT_BEGIN\<close> and \<open>PROCESS_CONTEXT_END\<close> around a computation.\<close>

definition in_context :: "nat option \<Rightarrow> ('m kernel \<Rightarrow> 'm kernel option) \<Rightarrow> 'm kernel \<Rightarrow> 'm kernel option" where
  "in_context p f s =
     map_option (\<lambda>s'. s'\<lparr>process_current := process_current s\<rparr>) (f (s\<lparr>process_current := p\<rparr>))"

definition on_list ::
  "((unit, nat) lheap \<Rightarrow> (unit, nat) lheap option) \<Rightarrow> 'z ctimer_state_scheme kernel \<Rightarrow> 'z ctimer_state_scheme kernel option" where
  "on_list f s = in_memory (\<lambda>m. map_option (\<lambda>h. m\<lparr>cb_list := h\<rparr>) (f (cb_list m))) s"

text \<open>\<open>list_remove\<close> and then \<open>list_add\<close>, as every operation that sets a timer ends.\<close>

definition ctimer_enlist :: "nat \<Rightarrow> 'z ctimer_state_scheme kernel \<Rightarrow> 'z ctimer_state_scheme kernel option" where
  "ctimer_enlist c s = on_list (\<lambda>h. Option.bind (list_remove () c h) (list_add () c)) s"

section \<open>Operations\<close>

definition ctimer_set ::
  "u32 \<Rightarrow> nat \<Rightarrow> u32 \<Rightarrow> nat option \<Rightarrow> nat \<Rightarrow> 'z ctimer_state_scheme kernel \<Rightarrow> 'z ctimer_state_scheme kernel option" where
  "ctimer_set now c t f ptr s =
     (let m = memory s;
          s = s\<lparr>memory := m\<lparr>cb_p := (cb_p m)(c := process_current s), cb_f := (cb_f m)(c := f), cb_ptr := (cb_ptr m)(c := ptr)\<rparr>\<rparr>
      in Option.bind
           (if cb_initialized (memory s) then in_context (Some ctimer_process) (etimer_set now c t) s
            else Some (set_timer c (\<lambda>tm. tm\<lparr>interval := t\<rparr>) s))
           (ctimer_enlist c))"

definition ctimer_reset :: "u32 \<Rightarrow> nat \<Rightarrow> 'z ctimer_state_scheme kernel \<Rightarrow> 'z ctimer_state_scheme kernel option" where
  "ctimer_reset now c s =
     Option.bind (if cb_initialized (memory s) then in_context (Some ctimer_process) (etimer_reset now c) s else Some s)
       (ctimer_enlist c)"

definition ctimer_restart :: "u32 \<Rightarrow> nat \<Rightarrow> 'z ctimer_state_scheme kernel \<Rightarrow> 'z ctimer_state_scheme kernel option" where
  "ctimer_restart now c s =
     Option.bind (if cb_initialized (memory s) then in_context (Some ctimer_process) (etimer_restart now c) s else Some s)
       (ctimer_enlist c)"

definition ctimer_stop :: "u32 \<Rightarrow> nat \<Rightarrow> 'z ctimer_state_scheme kernel \<Rightarrow> 'z ctimer_state_scheme kernel option" where
  "ctimer_stop now c s =
     Option.bind (if cb_initialized (memory s) then in_memory (etimer_stop now c) s
                  else Some (s\<lparr>memory := (memory s)\<lparr>et_next := (et_next (memory s))(c := None), et_p := (et_p (memory s))(c := None)\<rparr>\<rparr>))
       (on_list (list_remove () c))"

definition ctimer_expired :: "nat \<Rightarrow> 'z ctimer_state_scheme \<Rightarrow> bool option" where
  "ctimer_expired c m =
     (if cb_initialized m then Some (etimer_expired c m)
      else map_option Not (find_link (nxt (cb_list m)) (list_head () (cb_list m)) c))"

section \<open>The process\<close>

text \<open>Before the process first runs, timers are only listed; then each gets its event timer.\<close>

partial_function (option) set_all ::
  "u32 \<Rightarrow> nat option \<Rightarrow> 'z ctimer_state_scheme kernel \<Rightarrow> 'z ctimer_state_scheme kernel option" where
  "set_all now c s =
     (case c of
        None \<Rightarrow> Some s
      | Some x \<Rightarrow>
          (case etimer_set now x (interval (et_timer (memory s) x)) s of
             None \<Rightarrow> None
           | Some s' \<Rightarrow> set_all now (nxt (cb_list (memory s')) x) s'))"

text \<open>The timer whose event came is taken off the list and its callback is run as its process.\<close>

definition run_callback ::
  "'z callbacks \<Rightarrow> nat \<Rightarrow> 'z ctimer_state_scheme kernel \<Rightarrow> 'z ctimer_state_scheme kernel option" where
  "run_callback cb c s =
     Option.bind (on_list (list_remove () c) s) (\<lambda>s.
       in_context (cb_p (memory s) c)
         (\<lambda>s. Some (case cb_f (memory s) c of None \<Rightarrow> s | Some f \<Rightarrow> cb f (cb_ptr (memory s) c) s)) s)"

definition ctimer_thread ::
  "'z callbacks \<Rightarrow> u32 \<Rightarrow> nat \<Rightarrow> u8 \<Rightarrow> process_data \<Rightarrow> 'z ctimer_state_scheme kernel \<Rightarrow> 'z ctimer_state_scheme kernel option" where
  "ctimer_thread cb now pt ev dat s =
     (if pt = 0
      then map_option (\<lambda>s. s\<lparr>memory := (memory s)\<lparr>cb_initialized := True\<rparr>, pr_pt := (pr_pt s)(ctimer_process := 1)\<rparr>)
             (set_all now (list_head () (cb_list (memory s))) s)
      else if ev \<noteq> PROCESS_EVENT_TIMER then Some s
      else (case dat of
              TimerData x \<Rightarrow>
                (case find_link (nxt (cb_list (memory s))) (list_head () (cb_list (memory s))) x of
                   None \<Rightarrow> None
                 | Some True \<Rightarrow> run_callback cb x s
                 | Some False \<Rightarrow> Some s)
            | _ \<Rightarrow> Some s))"

definition ctimer_init :: "nat \<Rightarrow> 'z ctimer_state_scheme threads \<Rightarrow> 'z ctimer_state_scheme kernel \<Rightarrow> 'z ctimer_state_scheme kernel option" where
  "ctimer_init n T s =
     process_start (call_process n T) ctimer_process NoData
       (s\<lparr>memory := (memory s)\<lparr>cb_initialized := False, cb_list := list_init () (cb_list (memory s))\<rparr>\<rparr>)"

end
