(* ===== verification/Contiki_Memb.thy ===== *)
theory Contiki_Memb
  imports Contiki_Prelude
begin

text \<open>
  The block allocator \<open>core/lib/memb.c\<close>. A \<open>struct memb\<close> has \<open>num\<close> blocks of \<open>size\<close>
  bytes starting at the address \<open>base\<close>, and one reference counter per block. Addresses
  are numbers; a block is named by the address of its first byte, as in the C code.
  The last section gives the same allocator on block indices (\<open>pool_alloc\<close>,
  \<open>pool_free\<close>), which the components that keep typed blocks use, and shows that the
  two agree. The contract of both is the locale \<open>block_pool\<close>.
\<close>

section \<open>State and operations\<close>

record memb =
  bsize :: nat
  num :: nat
  count :: "u8 list"
  base :: nat
  mem :: bytes

definition memb_init :: "memb \<Rightarrow> memb" where
  "memb_init m = m\<lparr>count := replicate (num m) 0, mem := replicate (bsize m * num m) 0\<rparr>"

text \<open>The search loop: the first index from \<open>i\<close> on whose counter is zero.\<close>

function alloc_loop :: "u8 list \<Rightarrow> nat \<Rightarrow> nat \<Rightarrow> nat option" where
  "alloc_loop cnt n i =
     (if i < n then (if cnt ! i = 0 then Some i else alloc_loop cnt n (Suc i)) else None)"
  by pat_completeness auto
termination by (relation "measure (\<lambda>(cnt, n, i). n - i)") auto

declare alloc_loop.simps [simp del]

definition memb_alloc :: "memb \<Rightarrow> nat option \<times> memb" where
  "memb_alloc m = (case alloc_loop (count m) (num m) 0 of
       Some i \<Rightarrow> (Some (base m + i * bsize m), m\<lparr>count := (count m)[i := count m ! i + 1]\<rparr>)
     | None \<Rightarrow> (None, m))"

text \<open>The loop of \<open>memb_free\<close>: \<open>ptr2\<close> walks over the block addresses.\<close>

function free_loop :: "memb \<Rightarrow> nat \<Rightarrow> nat \<Rightarrow> nat \<Rightarrow> nat option" where
  "free_loop m ptr i ptr2 =
     (if i < num m then (if ptr2 = ptr then Some i else free_loop m ptr (Suc i) (ptr2 + bsize m))
      else None)"
  by pat_completeness auto
termination by (relation "measure (\<lambda>(m, ptr, i, ptr2). num m - i)") auto

declare free_loop.simps [simp del]

definition memb_free :: "memb \<Rightarrow> nat \<Rightarrow> int \<times> memb" where
  "memb_free m ptr = (case free_loop m ptr 0 (base m) of
       Some i \<Rightarrow> (let m' = (if 0 < count m ! i then m\<lparr>count := (count m)[i := count m ! i - 1]\<rparr> else m)
                  in (uint (count m' ! i), m'))
     | None \<Rightarrow> (-1, m))"

definition memb_inmemb :: "memb \<Rightarrow> nat \<Rightarrow> bool" where
  "memb_inmemb m ptr \<longleftrightarrow> base m \<le> ptr \<and> ptr < base m + num m * bsize m"

section \<open>Loops\<close>

lemma alloc_loop_Some:
  "alloc_loop cnt n i = Some j \<Longrightarrow>
     i \<le> j \<and> j < n \<and> cnt ! j = 0 \<and> (\<forall>k. i \<le> k \<longrightarrow> k < j \<longrightarrow> cnt ! k \<noteq> 0)"
proof (induction cnt n i rule: alloc_loop.induct)
  case (1 cnt n i)
  show ?case
  proof (cases "i < n \<and> cnt ! i \<noteq> 0")
    case True
    with 1 have "Suc i \<le> j \<and> j < n \<and> cnt ! j = 0 \<and> (\<forall>k. Suc i \<le> k \<longrightarrow> k < j \<longrightarrow> cnt ! k \<noteq> 0)"
      by (simp add: alloc_loop.simps [of cnt n i])
    with True show ?thesis by (metis Suc_leI le_less_trans nat_less_le Suc_le_lessD)
  next
    case False
    with "1.prems" show ?thesis by (auto simp: alloc_loop.simps [of cnt n i] split: if_splits)
  qed
qed

lemma alloc_loop_None: "alloc_loop cnt n i = None \<longleftrightarrow> (\<forall>k. i \<le> k \<longrightarrow> k < n \<longrightarrow> cnt ! k \<noteq> 0)"
proof (induction cnt n i rule: alloc_loop.induct)
  case (1 cnt n i)
  show ?case
  proof (cases "i < n \<and> cnt ! i \<noteq> 0")
    case True
    with 1 have "alloc_loop cnt n i = None \<longleftrightarrow> (\<forall>k. Suc i \<le> k \<longrightarrow> k < n \<longrightarrow> cnt ! k \<noteq> 0)"
      by (simp add: alloc_loop.simps [of cnt n i])
    with True show ?thesis by (metis Suc_leI nat_less_le order_less_imp_le Suc_le_lessD)
  next
    case False
    then show ?thesis by (auto simp: alloc_loop.simps [of cnt n i])
  qed
qed

lemma free_loop_block:
  assumes "0 < bsize m"
  shows "i \<le> num m \<Longrightarrow> free_loop m ptr i (base m + i * bsize m) =
    (if \<exists>k. i \<le> k \<and> k < num m \<and> ptr = base m + k * bsize m
     then Some ((ptr - base m) div bsize m) else None)"
proof (induction "num m - i" arbitrary: i)
  case 0
  then show ?case by (simp add: free_loop.simps)
next
  case (Suc n)
  then have i: "i < num m" by simp
  have eq: "base m + i * bsize m + bsize m = base m + Suc i * bsize m" by simp
  show ?case
  proof (cases "ptr = base m + i * bsize m")
    case True
    with i assms show ?thesis by (subst free_loop.simps) auto
  next
    case False
    then have "(\<exists>k. i \<le> k \<and> k < num m \<and> ptr = base m + k * bsize m)
        \<longleftrightarrow> (\<exists>k. Suc i \<le> k \<and> k < num m \<and> ptr = base m + k * bsize m)"
      by (metis Suc_leI Suc_leD nat_less_le)
    moreover have "free_loop m ptr i (base m + i * bsize m) = free_loop m ptr (Suc i) (base m + Suc i * bsize m)"
      using False i by (simp add: free_loop.simps [of m ptr i] eq)
    ultimately show ?thesis using Suc.hyps(1) [of "Suc i"] Suc.hyps(2) i by simp
  qed
qed

section \<open>Invariant and functional behaviour\<close>

definition memb_wf :: "memb \<Rightarrow> bool" where
  "memb_wf m \<longleftrightarrow> 0 < bsize m \<and> length (count m) = num m \<and> (\<forall>c \<in> set (count m). c = 0 \<or> c = 1)"

definition memb_blocks :: "memb \<Rightarrow> nat set" where
  "memb_blocks m = (\<lambda>i. base m + i * bsize m) ` {..<num m}"

definition memb_used :: "memb \<Rightarrow> nat set" where
  "memb_used m = (\<lambda>i. base m + i * bsize m) ` {i. i < num m \<and> count m ! i \<noteq> 0}"

lemma block_addr_inj: "0 < bsize m \<Longrightarrow> base m + i * bsize m = base m + j * bsize m \<longleftrightarrow> i = j"
  by simp

lemma memb_used_addr: "0 < bsize m \<Longrightarrow> base m + i * bsize m \<in> memb_used m \<longleftrightarrow> i < num m \<and> count m ! i \<noteq> 0"
  by (auto simp: memb_used_def)

lemma memb_wf_init: "0 < bsize m \<Longrightarrow> memb_wf (memb_init m)"
  by (auto simp: memb_wf_def memb_init_def)

lemma memb_used_init: "memb_used (memb_init m) = {}"
  by (auto simp: memb_used_def memb_init_def)

lemma memb_alloc_Some:
  assumes wf: "memb_wf m" and al: "memb_alloc m = (Some p, m')"
  shows "p \<in> memb_blocks m \<and> p \<notin> memb_used m \<and> memb_used m' = insert p (memb_used m)
    \<and> memb_blocks m' = memb_blocks m \<and> memb_wf m'"
proof -
  from al obtain i where i: "alloc_loop (count m) (num m) 0 = Some i"
    and p: "p = base m + i * bsize m" and m': "m' = m\<lparr>count := (count m)[i := count m ! i + 1]\<rparr>"
    by (auto simp: memb_alloc_def split: option.splits)
  from alloc_loop_Some [OF i] have i': "i < num m" "count m ! i = 0" by auto
  from wf have sz: "0 < bsize m" and len: "length (count m) = num m" by (auto simp: memb_wf_def)
  have "memb_used m' = insert p (memb_used m)"
    using i' len by (auto simp: memb_used_def m' p nth_list_update image_iff)
  moreover have "memb_wf m'"
    using wf i' len by (auto simp: memb_wf_def m' dest!: set_update_subset_insert [THEN subsetD])
  ultimately show ?thesis using i' sz by (auto simp: memb_blocks_def memb_used_addr p m')
qed

lemma memb_alloc_None:
  "memb_alloc m = (None, m') \<longleftrightarrow> m' = m \<and> memb_used m = memb_blocks m"
  if "memb_wf m"
proof -
  from that have sz: "0 < bsize m" by (simp add: memb_wf_def)
  have "memb_used m = memb_blocks m \<longleftrightarrow> (\<forall>k < num m. base m + k * bsize m \<in> memb_used m)"
    by (auto simp: memb_used_def memb_blocks_def)
  also have "\<dots> \<longleftrightarrow> (\<forall>k < num m. count m ! k \<noteq> 0)" using sz by (auto simp: memb_used_addr)
  finally have "memb_used m = memb_blocks m \<longleftrightarrow> (\<forall>k < num m. count m ! k \<noteq> 0)" .
  then show ?thesis
    using alloc_loop_None [of "count m" "num m" 0] by (auto simp: memb_alloc_def split: option.splits)
qed

lemma memb_free_block:
  assumes wf: "memb_wf m" and p: "p \<in> memb_blocks m"
  shows "\<exists>m'. memb_free m p = (0, m') \<and> memb_used m' = memb_used m - {p}
     \<and> memb_blocks m' = memb_blocks m \<and> memb_wf m'"
proof -
  from wf have sz: "0 < bsize m" and len: "length (count m) = num m" by (auto simp: memb_wf_def)
  from p obtain i where i: "i < num m" and pi: "p = base m + i * bsize m" by (auto simp: memb_blocks_def)
  have fl: "free_loop m p 0 (base m) = Some i"
    using free_loop_block [OF sz, of 0 p] i pi sz by auto
  have c: "count m ! i = 0 \<or> count m ! i = 1"
    using wf i len nth_mem [of i "count m"] by (auto simp: memb_wf_def)
  show ?thesis
  proof (cases "count m ! i = 0")
    case True
    have "memb_free m p = (0, m)" using fl True by (simp add: memb_free_def)
    moreover have "p \<notin> memb_used m" using True sz by (simp add: pi memb_used_addr)
    ultimately show ?thesis using wf by auto
  next
    case False
    with c have c1: "count m ! i = 1" by simp
    let ?m = "m\<lparr>count := (count m)[i := 0]\<rparr>"
    have "memb_free m p = (0, ?m)" using fl c1 i len by (simp add: memb_free_def)
    moreover have "memb_used ?m = memb_used m - {p}"
      using i len sz by (auto simp: memb_used_def pi nth_list_update image_iff split: if_splits)
    moreover have "memb_wf ?m"
      using wf by (auto simp: memb_wf_def dest!: set_update_subset_insert [THEN subsetD])
    ultimately show ?thesis by (auto simp: memb_blocks_def)
  qed
qed

lemma memb_free_other:
  assumes "memb_wf m" "p \<notin> memb_blocks m"
  shows "memb_free m p = (-1, m)"
proof -
  from assms have sz: "0 < bsize m" by (simp add: memb_wf_def)
  have "\<not> (\<exists>k. 0 \<le> k \<and> k < num m \<and> p = base m + k * bsize m)"
    using assms(2) by (auto simp: memb_blocks_def)
  then have "free_loop m p 0 (base m) = None" using free_loop_block [OF sz, of 0 p] by simp
  then show ?thesis by (simp add: memb_free_def)
qed

text \<open>Different blocks do not overlap, and lie inside the region that \<open>memb_inmemb\<close> tests.\<close>

lemma memb_blocks_disjoint:
  assumes "p \<in> memb_blocks m" "q \<in> memb_blocks m" "p \<noteq> q"
  shows "{p..<p + bsize m} \<inter> {q..<q + bsize m} = {}"
proof -
  have *: "base m + i * bsize m + bsize m \<le> base m + j * bsize m" if "i < j" for i j
  proof -
    from that have "Suc i * bsize m \<le> j * bsize m" by (intro mult_le_mono1) simp
    then show ?thesis by simp
  qed
  from assms obtain i j where "p = base m + i * bsize m" "q = base m + j * bsize m" "i \<noteq> j"
    by (auto simp: memb_blocks_def)
  with * [of i j] * [of j i] show ?thesis by (cases "i < j") auto
qed

lemma memb_inmemb_block: "memb_wf m \<Longrightarrow> p \<in> memb_blocks m \<Longrightarrow> memb_inmemb m p"
  by (auto simp: memb_blocks_def memb_inmemb_def memb_wf_def)

section \<open>The contract as a locale\<close>

locale block_pool =
  fixes wf :: "'m \<Rightarrow> bool"
    and blocks used :: "'m \<Rightarrow> 'p set"
    and alloc :: "'m \<Rightarrow> 'p option \<times> 'm"
    and free :: "'m \<Rightarrow> 'p \<Rightarrow> 'm"
  assumes finite_blocks: "finite (blocks m)"
    and used_blocks: "wf m \<Longrightarrow> used m \<subseteq> blocks m"
    and alloc_Some: "wf m \<Longrightarrow> alloc m = (Some p, m') \<Longrightarrow>
      p \<in> blocks m \<and> p \<notin> used m \<and> used m' = insert p (used m) \<and> blocks m' = blocks m \<and> wf m'"
    and alloc_None: "wf m \<Longrightarrow> alloc m = (None, m') \<Longrightarrow> m' = m \<and> used m = blocks m"
    and free_used: "wf m \<Longrightarrow> p \<in> blocks m \<Longrightarrow>
      used (free m p) = used m - {p} \<and> blocks (free m p) = blocks m \<and> wf (free m p)"
begin

lemma alloc_succeeds_iff:
  assumes "wf m"
  shows "fst (alloc m) \<noteq> None \<longleftrightarrow> card (used m) < card (blocks m)"
proof (cases "alloc m")
  case (Pair r m')
  show ?thesis
  proof (cases r)
    case None
    with Pair alloc_None [OF assms, of m'] show ?thesis by simp
  next
    case (Some p)
    with Pair alloc_Some [OF assms, of p m'] have "p \<in> blocks m" "p \<notin> used m" by auto
    then have "used m \<subset> blocks m" using used_blocks [OF assms] by auto
    then have "card (used m) < card (blocks m)" by (rule psubset_card_mono [OF finite_blocks])
    with Pair Some show ?thesis by simp
  qed
qed

lemma alloc_free:
  assumes "wf m" "alloc m = (Some p, m')"
  shows "used (free m' p) = used m"
  using alloc_Some [OF assms] free_used [of m' p] by auto

lemma free_alloc_succeeds:
  assumes "wf m" "p \<in> used m"
  shows "\<exists>q m'. alloc (free m p) = (Some q, m')"
proof -
  from assms have p: "p \<in> blocks m" using used_blocks by blast
  note f = free_used [OF assms(1) p]
  show ?thesis
  proof (cases "alloc (free m p)")
    case (Pair r m')
    then show ?thesis using alloc_None [of "free m p" m'] f p by (cases r) auto
  qed
qed

primrec alloc_n :: "nat \<Rightarrow> 'm \<Rightarrow> 'p list \<times> 'm" where
  "alloc_n 0 m = ([], m)"
| "alloc_n (Suc n) m = (case alloc m of (None, m1) \<Rightarrow> ([], m1)
     | (Some p, m1) \<Rightarrow> (case alloc_n n m1 of (ps, m2) \<Rightarrow> (p # ps, m2)))"

lemma alloc_n_distinct:
  "wf m \<Longrightarrow> alloc_n n m = (ps, m') \<Longrightarrow>
     distinct ps \<and> set ps \<inter> used m = {} \<and> set ps \<subseteq> blocks m \<and> used m' = used m \<union> set ps \<and> wf m'"
proof (induction n arbitrary: m ps)
  case 0
  then show ?case by simp
next
  case (Suc n)
  show ?case
  proof (cases "alloc m")
    case (Pair r m1)
    show ?thesis
    proof (cases r)
      case None
      with Pair Suc.prems alloc_None [OF Suc.prems(1), of m1] show ?thesis by auto
    next
      case (Some p)
      obtain qs where qs: "alloc_n n m1 = (qs, m')" "ps = p # qs"
        using Suc.prems(2) Pair Some by (auto split: prod.splits)
      from alloc_Some [OF Suc.prems(1), of p m1] Pair Some
      have a: "p \<in> blocks m" "p \<notin> used m" "used m1 = insert p (used m)" "blocks m1 = blocks m" "wf m1" by auto
      from Suc.IH [OF a(5) qs(1)] a qs(2) show ?thesis by auto
    qed
  qed
qed

end

interpretation memb: block_pool memb_wf memb_blocks memb_used memb_alloc "\<lambda>m p. snd (memb_free m p)"
proof (unfold_locales, goal_cases)
  case (1 m) show ?case by (simp add: memb_blocks_def)
next
  case (2 m) show ?case by (auto simp: memb_used_def memb_blocks_def)
next
  case (3 m p m') then show ?case by (rule memb_alloc_Some)
next
  case (4 m m') then show ?case by (simp add: memb_alloc_None)
next
  case (5 m p) from memb_free_block [OF this] show ?case by auto
qed

section \<open>The same allocator on block indices\<close>

text \<open>
  A component that keeps an array of typed blocks names a block by its index. The
  allocator then is its counter array alone.
\<close>

definition pool_alloc :: "u8 list \<Rightarrow> nat option \<times> u8 list" where
  "pool_alloc cnt = (case alloc_loop cnt (length cnt) 0 of
       Some i \<Rightarrow> (Some i, cnt[i := cnt ! i + 1]) | None \<Rightarrow> (None, cnt))"

definition pool_free :: "u8 list \<Rightarrow> nat \<Rightarrow> u8 list" where
  "pool_free cnt i = (if i < length cnt \<and> 0 < cnt ! i then cnt[i := cnt ! i - 1] else cnt)"

definition pool_wf :: "u8 list \<Rightarrow> bool" where
  "pool_wf cnt \<longleftrightarrow> (\<forall>c \<in> set cnt. c = 0 \<or> c = 1)"

definition pool_used :: "u8 list \<Rightarrow> nat set" where
  "pool_used cnt = {i. i < length cnt \<and> cnt ! i \<noteq> 0}"

lemma memb_alloc_pool:
  assumes "length (count m) = num m"
  shows "memb_alloc m = (map_option (\<lambda>i. base m + i * bsize m) (fst (pool_alloc (count m))),
           m\<lparr>count := snd (pool_alloc (count m))\<rparr>)"
  using assms by (auto simp: memb_alloc_def pool_alloc_def split: option.split)

lemma memb_free_pool:
  assumes "memb_wf m" "i < num m"
  shows "snd (memb_free m (base m + i * bsize m)) = m\<lparr>count := pool_free (count m) i\<rparr>"
proof -
  from assms have sz: "0 < bsize m" and len: "length (count m) = num m" by (auto simp: memb_wf_def)
  have "free_loop m (base m + i * bsize m) 0 (base m) = Some i"
    using free_loop_block [OF sz, of 0 "base m + i * bsize m"] assms sz by auto
  with assms len show ?thesis by (auto simp: memb_free_def pool_free_def Let_def)
qed

lemma pool_alloc_Some:
  assumes "pool_alloc cnt = (Some i, cnt')"
  shows "i < length cnt" "cnt ! i = 0" "cnt' = cnt[i := 1]"
  using assms alloc_loop_Some [of cnt "length cnt" 0]
  by (auto simp: pool_alloc_def split: option.splits)

lemma pool_alloc_None:
  "pool_alloc cnt = (None, cnt') \<longleftrightarrow> cnt' = cnt \<and> (\<forall>k < length cnt. cnt ! k \<noteq> 0)"
  using alloc_loop_None [of cnt "length cnt" 0]
  by (auto simp: pool_alloc_def split: option.splits)

lemma length_pool_free [simp]: "length (pool_free cnt i) = length cnt"
  by (simp add: pool_free_def)

lemma length_pool_alloc: "pool_alloc cnt = (r, cnt') \<Longrightarrow> length cnt' = length cnt"
  by (auto simp: pool_alloc_def split: option.splits)

interpretation pool: block_pool pool_wf "\<lambda>c. {..<length c}" pool_used pool_alloc pool_free
proof (unfold_locales, goal_cases)
  case (1 m) show ?case by simp
next
  case (2 m) show ?case by (auto simp: pool_used_def)
next
  case (3 m p m') with pool_alloc_Some [OF 3(2)] show ?case
    by (auto simp: pool_used_def pool_wf_def nth_list_update
        dest!: set_update_subset_insert [THEN subsetD] split: if_splits)
next
  case (4 m m') then show ?case by (auto simp: pool_alloc_None pool_used_def)
next
  case (5 m p)
  then have "m ! p = 0 \<or> m ! p = 1" using nth_mem [of p m] by (auto simp: pool_wf_def)
  then show ?case
  proof
    assume "m ! p = 0"
    with 5 show ?case by (auto simp: pool_used_def pool_free_def)
  next
    assume "m ! p = 1"
    with 5 show ?case
      by (auto simp: pool_used_def pool_wf_def pool_free_def nth_list_update
          dest!: set_update_subset_insert [THEN subsetD] split: if_splits)
  qed
qed

section \<open>Properties\<close>

text \<open>\<open>n\<close> successive allocations from a well-formed pool give distinct blocks of the pool,
  none of which was in use and no two of which overlap.\<close>

theorem memb_alloc_disjoint_blocks:
  assumes "memb_wf m" "memb.alloc_n n m = (ps, m')" "p \<in> set ps" "q \<in> set ps \<union> memb_used m" "p \<noteq> q"
  shows "distinct ps \<and> memb_inmemb m p \<and> p \<notin> memb_used m
    \<and> {p..<p + bsize m} \<inter> {q..<q + bsize m} = {} \<and> memb_used m' = memb_used m \<union> set ps"
proof -
  from memb.alloc_n_distinct [OF assms(1,2)] have
    a: "distinct ps" "set ps \<inter> memb_used m = {}" "set ps \<subseteq> memb_blocks m" "memb_used m' = memb_used m \<union> set ps"
    by auto
  from memb.used_blocks [OF assms(1)] a(3) assms(3,4) have "p \<in> memb_blocks m" "q \<in> memb_blocks m" by auto
  with memb_blocks_disjoint [of p m q] memb_inmemb_block [OF assms(1)] a assms(3,5) show ?thesis by blast
qed

definition demo_memb :: memb where
  "demo_memb = \<lparr>bsize = 2, num = 3, count = [0, 1, 0], base = 100, mem = replicate 6 0\<rparr>"

lemma demo_memb_alloc:
  "memb.alloc_n 3 demo_memb = ([100, 104], demo_memb\<lparr>count := [1, 1, 1]\<rparr>)"
  by (simp add: demo_memb_def eval_nat_numeral memb_alloc_def alloc_loop.simps)

theorem memb_alloc_disjoint_blocks_witness:
  "distinct [100, 104 :: nat] \<and> memb_inmemb demo_memb 100 \<and> 100 \<notin> memb_used demo_memb
    \<and> {100..<100 + bsize demo_memb} \<inter> {104..<104 + bsize demo_memb} = {}
    \<and> memb_used (demo_memb\<lparr>count := [1, 1, 1]\<rparr>) = memb_used demo_memb \<union> {100, 104}"
  using memb_alloc_disjoint_blocks [OF _ demo_memb_alloc, of 100 104]
  by (auto simp: memb_wf_def demo_memb_def)

end
