(* ===== verification/Contiki_Random.thy ===== *)
theory Contiki_Random
  imports Contiki_Prelude
begin

text \<open>
  The checksum \<open>core/lib/crc16.c\<close> and the pseudo-random generator \<open>core/lib/random.c\<close>.
  The checksum is shown equal to the bit-serial division register of the reflected
  polynomial x^16 + x^12 + x^5 + 1, the generator to the minimal standard
  \<open>s' = 16807 s mod (2^31 - 1)\<close>.
\<close>

section \<open>CRC-16\<close>

definition crc16_add :: "u8 \<Rightarrow> u16 \<Rightarrow> u16" where
  "crc16_add b acc0 =
     (let acc = acc0 XOR ucast b;
          acc = (drop_bit 8 acc) OR (push_bit 8 acc);
          acc = acc XOR push_bit 4 (acc AND 0xff00);
          acc = acc XOR drop_bit 4 (drop_bit 8 acc);
          acc = acc XOR drop_bit 5 (acc AND 0xff00)
      in acc)"

primrec crc16_data :: "bytes \<Rightarrow> u16 \<Rightarrow> u16" where
  "crc16_data [] acc = acc"
| "crc16_data (b # bs) acc = crc16_data bs (crc16_add b acc)"

text \<open>One step of the division register, least significant bit first.\<close>

definition crc_shift :: "u16 \<Rightarrow> u16" where
  "crc_shift r = (if bit r 0 then drop_bit 1 r XOR 0x8408 else drop_bit 1 r)"

definition crc_serial :: "u8 \<Rightarrow> u16 \<Rightarrow> u16" where
  "crc_serial b acc = (crc_shift ^^ 8) (acc XOR ucast b)"

definition crc_core :: "u16 \<Rightarrow> u16" where
  "crc_core acc0 =
     (let acc = (drop_bit 8 acc0) OR (push_bit 8 acc0);
          acc = acc XOR push_bit 4 (acc AND 0xff00);
          acc = acc XOR drop_bit 4 (drop_bit 8 acc);
          acc = acc XOR drop_bit 5 (acc AND 0xff00)
      in acc)"

lemma crc16_add_core: "crc16_add b acc = crc_core (acc XOR ucast b)"
  by (simp add: crc16_add_def crc_core_def Let_def)

lemma less_16_cases: "(n::nat) < 16 \<Longrightarrow> n \<in> {0,1,2,3,4,5,6,7,8,9,10,11,12,13,14,15}"
  by (simp only: insert_iff empty_iff simp_thms) presburger

lemma u16_eqI:
  fixes a b :: u16
  assumes "bit a 0 = bit b 0" "bit a 1 = bit b 1" "bit a 2 = bit b 2" "bit a 3 = bit b 3"
    "bit a 4 = bit b 4" "bit a 5 = bit b 5" "bit a 6 = bit b 6" "bit a 7 = bit b 7"
    "bit a 8 = bit b 8" "bit a 9 = bit b 9" "bit a 10 = bit b 10" "bit a 11 = bit b 11"
    "bit a 12 = bit b 12" "bit a 13 = bit b 13" "bit a 14 = bit b 14" "bit a 15 = bit b 15"
  shows "a = b"
proof (rule bit_word_eqI)
  fix n assume "n < LENGTH(16)"
  then have "n \<in> {0,1,2,3,4,5,6,7,8,9,10,11,12,13,14,15}" by (intro less_16_cases) simp
  with assms show "bit a n = bit b n" by auto
qed

lemma bit_8408: "bit (0x8408 :: u16) n \<longleftrightarrow> n = 3 \<or> n = 10 \<or> n = 15"
proof (cases "n < 16")
  case True
  then have "n \<in> {0,1,2,3,4,5,6,7,8,9,10,11,12,13,14,15}" by (rule less_16_cases)
  then show ?thesis by auto
next
  case False
  then show ?thesis using bit_imp_le_length [of "0x8408 :: u16" n] by auto
qed

lemma bit_ff00: "bit (0xff00 :: u16) n \<longleftrightarrow> 8 \<le> n \<and> n < 16"
proof (cases "n < 16")
  case True
  then have "n \<in> {0,1,2,3,4,5,6,7,8,9,10,11,12,13,14,15}" by (rule less_16_cases)
  then show ?thesis by auto
next
  case False
  then show ?thesis using bit_imp_le_length [of "0xff00 :: u16" n] by auto
qed

lemma bit_crc_shift:
  "bit (crc_shift r) n \<longleftrightarrow> (bit r (Suc n) \<noteq> (bit r 0 \<and> (n = 3 \<or> n = 10 \<or> n = 15)))"
  by (cases "bit r 0") (simp_all only: crc_shift_def bit_xor_iff bit_drop_bit_eq bit_8408 if_True if_False
      comp_apply plus_1_eq_Suc simp_thms)

lemma bit_u16_high: "16 \<le> n \<Longrightarrow> \<not> bit (r :: u16) n"
  using bit_imp_le_length [of r n] by auto

lemma bit_push16: "bit (push_bit m (x :: u16)) n \<longleftrightarrow> m \<le> n \<and> n < 16 \<and> bit x (n - m)"
  by (auto simp: bit_push_bit_iff)

lemma crc_shift_8:
  "(crc_shift ^^ 8) r = crc_shift (crc_shift (crc_shift (crc_shift (crc_shift (crc_shift
      (crc_shift (crc_shift r)))))))"
  by (simp add: eval_nat_numeral)

lemma crc_core_serial: "crc_core r = (crc_shift ^^ 8) r"
  unfolding crc_shift_8
  by (rule u16_eqI; simp only: crc_core_def Let_def bit_crc_shift bit_xor_iff bit_or_iff
      bit_and_iff bit_ff00 bit_drop_bit_eq bit_push16 comp_apply; simp add: bit_u16_high;
      (simp only: eval_nat_numeral BitM.simps; argo)?)

lemma crc16_add_serial: "crc16_add b acc = crc_serial b acc"
  by (simp add: crc16_add_core crc_serial_def crc_core_serial)

text \<open>The checksum of a message is the remainder register after shifting in its bytes.\<close>

lemma crc16_data_fold: "crc16_data bs acc = fold crc_serial bs acc"
  by (induction bs arbitrary: acc) (simp_all add: crc16_add_serial)

lemma crc16_data_append: "crc16_data (xs @ ys) acc = crc16_data ys (crc16_data xs acc)"
  by (induction xs arbitrary: acc) simp_all

lemma crc_shift_xor: "crc_shift (a XOR b) = crc_shift a XOR crc_shift b"
  by (rule bit_word_eqI) (auto simp: bit_crc_shift bit_xor_iff)

lemma crc_shift_pow_xor: "(crc_shift ^^ n) (a XOR b) = (crc_shift ^^ n) a XOR (crc_shift ^^ n) b"
  by (induction n) (simp_all add: crc_shift_xor)

lemma crc_shift_zero: "crc_shift r = 0 \<longleftrightarrow> r = 0"
proof
  assume z: "crc_shift r = 0"
  show "r = 0"
  proof (rule bit_word_eqI)
    fix n assume "n < LENGTH(16)"
    from z have b: "\<And>n. bit r (Suc n) = (bit r 0 \<and> (n = 3 \<or> n = 10 \<or> n = 15))"
      using bit_crc_shift [of r] by auto
    from b [of 15] have "\<not> bit r 0" using bit_u16_high [of 16 r] by simp
    with b show "bit r n = bit 0 n" by (cases n) auto
  qed
qed (simp add: crc_shift_def)

lemma crc_shift_pow_zero: "(crc_shift ^^ n) r = 0 \<longleftrightarrow> r = 0"
  by (induction n) (simp_all add: crc_shift_zero)

lemma xor_zero_iff: "(a :: u16) XOR b = 0 \<longleftrightarrow> a = b"
proof
  assume "a XOR b = 0"
  then have "\<And>n. bit (a XOR b) n = False" by simp
  then show "a = b" by (intro bit_word_eqI) (simp add: bit_xor_iff)
qed simp

lemma xor_cancel: "(a :: u16) XOR c = b XOR c \<longleftrightarrow> a = b"
proof
  assume "a XOR c = b XOR c"
  then have "\<And>n. bit (a XOR c) n = bit (b XOR c) n" by simp
  then show "a = b" by (intro bit_word_eqI) (auto simp: bit_xor_iff)
qed simp

lemma crc_shift_pow_inj: "(crc_shift ^^ n) a = (crc_shift ^^ n) b \<longleftrightarrow> a = b"
  using crc_shift_pow_zero [of n "a XOR b"]
  by (simp add: crc_shift_pow_xor xor_zero_iff)

section \<open>The generator\<close>

definition random_init :: "u16 \<Rightarrow> u32" where
  "random_init seed = ucast seed"

definition random_step :: "u32 \<Rightarrow> u32" where
  "random_step s =
     (let lo = 16807 * ucast (ucast s :: u16);
          hi = 16807 * ucast (ucast (drop_bit 16 s) :: u16);
          lo = lo + push_bit 16 (hi AND 0x7fff);
          hi = push_bit 1 hi;
          lo = lo + ucast (ucast (drop_bit 16 hi) :: u16)
      in if lo <=s 0 then lo - 0x7fffffff else lo)"

text \<open>The returned value is computed with a 16-bit \<open>int\<close>.\<close>

definition random_rand :: "u32 \<Rightarrow> u16 \<times> u32" where
  "random_rand s = (let lo = random_step s in
     (ucast ((lo XOR drop_bit 16 lo) AND 0x7fff), lo))"

lemma of_nat_unat_u32: "word_of_nat (unat (w :: u32)) = w"
  by simp

lemma unat_lt_uint: "uint (w :: u32) < numeral n \<longleftrightarrow> unat w < numeral n"
proof -
  have "uint w < numeral n \<longleftrightarrow> int (unat w) < int (numeral n)" by simp
  then show ?thesis by (simp only: of_nat_less_iff)
qed

lemma u32_low: "(ucast (ucast s :: u16) :: u32) = word_of_nat (unat s mod 65536)" for s :: u32
proof (rule word_unat_eq_iff [THEN iffD2])
  have "unat (word_of_nat (unat s mod 65536) :: u32) = unat s mod 65536"
    by (rule u32_of_nat) (use mod_less_divisor [of 65536 "unat s"] in linarith)
  then show "unat (ucast (ucast s :: u16) :: u32) = unat (word_of_nat (unat s mod 65536) :: u32)"
    by (simp add: unsigned_ucast_eq take_bit_eq_mod unat_mod)
qed

lemma u32_and_7fff: "unat (w AND 0x7fff :: u32) = unat w mod 32768"
proof -
  have "(0x7fff :: u32) = mask 15" by (simp add: mask_eq_exp_minus_1)
  then show ?thesis by (simp only: unat_and_mask) simp
qed

lemma u32_high: "drop_bit 16 s = word_of_nat (unat s div 65536)" for s :: u32
proof (rule word_unat_eq_iff [THEN iffD2])
  have "unat (word_of_nat (unat s div 65536) :: u32) = unat s div 65536"
    by (rule u32_of_nat) (use u32_less [of s] in linarith)
  then show "unat (drop_bit 16 s) = unat (word_of_nat (unat s div 65536) :: u32)"
    by (simp add: unat_drop_bit_eq drop_bit_eq_div unat_div)
qed

definition random_sum :: "u32 \<Rightarrow> u32" where
  "random_sum s = (let hi = 16807 * ucast (ucast (drop_bit 16 s) :: u16)
     in 16807 * ucast (ucast s :: u16) + push_bit 16 (hi AND 0x7fff)
        + ucast (ucast (drop_bit 16 (push_bit 1 hi)) :: u16))"

lemma random_step_sum:
  "random_step s = (if random_sum s <=s 0 then random_sum s - 0x7fffffff else random_sum s)"
  by (simp add: random_step_def random_sum_def Let_def)

lemma random_sum_nat:
  fixes s :: u32
  defines "L \<equiv> unat s mod 65536" and "H \<equiv> unat s div 65536"
  assumes H: "H < 32768"
  shows "unat (random_sum s) = 16807 * L + (16807 * H mod 32768) * 65536 + 16807 * H div 32768"
proof -
  let ?hi = "word_of_nat (16807 * H) :: u32"
  have L: "L < 65536" by (simp add: L_def)
  have hi: "16807 * ucast (ucast (drop_bit 16 s) :: u16) = ?hi"
  proof -
    have "unat (word_of_nat H :: u32) mod 65536 = H" using H u32_of_nat [of H] by simp
    then show ?thesis unfolding u32_high u32_low H_def [symmetric] by (simp add: of_nat_mult)
  qed
  have uhi: "unat ?hi = 16807 * H" using H by (intro u32_of_nat) simp
  have a: "push_bit 16 (?hi AND 0x7fff) = word_of_nat ((16807 * H mod 32768) * 65536)"
  proof -
    have "?hi AND 0x7fff = word_of_nat (16807 * H mod 32768)"
      using u32_and_7fff [of ?hi] uhi by (metis of_nat_unat_u32)
    then show ?thesis by (simp add: push_bit_eq_mult of_nat_mult)
  qed
  have b: "ucast (ucast (drop_bit 16 (push_bit 1 ?hi)) :: u16) = (word_of_nat (16807 * H div 32768) :: u32)"
  proof -
    have "push_bit 1 ?hi = word_of_nat (33614 * H)" by (simp add: push_bit_eq_mult)
    moreover have "unat (word_of_nat (33614 * H) :: u32) = 33614 * H"
      using H by (intro u32_of_nat) simp
    ultimately have "drop_bit 16 (push_bit 1 ?hi) = word_of_nat (33614 * H div 65536)"
      by (simp add: u32_high)
    moreover have "33614 * H div 65536 = 16807 * H div 32768"
      using div_mult_mult1 [of 2 "16807 * H" 32768] by simp
    moreover have "16807 * H div 32768 < 65536" using H by (simp add: less_mult_imp_div_less)
    ultimately show ?thesis by (simp only: u32_low) (simp add: u32_of_nat)
  qed
  have "random_sum s = word_of_nat (16807 * L + (16807 * H mod 32768) * 65536 + 16807 * H div 32768)"
  proof -
    have "16807 * ucast (ucast s :: u16) = (word_of_nat (16807 * L) :: u32)"
      unfolding u32_low L_def [symmetric] by (simp add: of_nat_mult)
    then show ?thesis by (simp only: random_sum_def Let_def hi a b of_nat_add)
  qed
  moreover have "16807 * L + (16807 * H mod 32768) * 65536 + 16807 * H div 32768 < 4294967296"
  proof -
    have "16807 * H mod 32768 \<le> 32767" using mod_less_divisor [of 32768 "16807 * H"] by linarith
    moreover have "16807 * H div 32768 \<le> 16807" using H by linarith
    ultimately show ?thesis using L by linarith
  qed
  ultimately show ?thesis by (simp only: u32_of_nat)
qed

text \<open>Reduction modulo the Mersenne prime 2^31 - 1.\<close>

lemma mersenne_fold:
  fixes L H :: nat
  shows "(16807 * L + (16807 * H mod 32768) * 65536 + 16807 * H div 32768) mod 2147483647
    = 16807 * (H * 65536 + L) mod 2147483647"
proof -
  let ?q = "16807 * H div 32768" and ?r = "16807 * H mod 32768"
  obtain q r where q: "q = ?q" and r: "r = ?r" by blast
  then have "16807 * H = q * 32768 + r" by simp
  then have "16807 * (H * 65536 + L) = (16807 * L + r * 65536 + q) + q * 2147483647"
    by algebra
  then show ?thesis unfolding q [symmetric] r [symmetric] by (simp only: mod_mult_self1)
qed

lemma mersenne_coprime:
  assumes "0 < s" "s < 2147483647"
  shows "16807 * s mod 2147483647 \<noteq> (0::nat)"
proof
  assume "16807 * s mod 2147483647 = 0"
  then have d: "2147483647 dvd 16807 * s" by auto
  from d obtain k where "16807 * s = 2147483647 * k" by (rule dvdE)
  then have "s + 2147483647 * (11017 * s) = 2147483647 * (1407677000 * k)" by linarith
  with assms show False by (cases "1407677000 * k \<le> 11017 * s") linarith+
qed

lemma random_step_minstd:
  assumes s: "0 < unat s" "unat s < 2147483647"
  shows "unat (random_step s) = 16807 * unat s mod 2147483647"
proof -
  let ?L = "unat s mod 65536" and ?H = "unat s div 65536"
  let ?t = "unat (random_sum s)"
  have H: "?H < 32768" using s by linarith
  have t: "?t = 16807 * ?L + (16807 * ?H mod 32768) * 65536 + 16807 * ?H div 32768"
    using random_sum_nat [OF H] .
  have m: "?t mod 2147483647 = 16807 * unat s mod 2147483647"
    unfolding t mersenne_fold by simp
  with mersenne_coprime [OF s] have nz: "?t mod 2147483647 \<noteq> 0" by simp
  have bound: "?t < 4294967294"
  proof -
    have "16807 * ?H mod 32768 \<le> 32767" using mod_less_divisor [of 32768 "16807 * ?H"] by linarith
    moreover have "16807 * ?H div 32768 \<le> 16807" using H by linarith
    moreover have "?L \<le> 65535" by simp
    ultimately show ?thesis unfolding t by linarith
  qed
  have pos: "0 < ?t" using nz by (cases "?t") auto
  have sle: "random_sum s <=s 0 \<longleftrightarrow> 2147483648 \<le> ?t"
    proof -
    have "sint (random_sum s) = (if ?t < 2147483648 then int ?t else int ?t - 4294967296)"
      unfolding sint_u32 by (simp add: nat_less_iff unat_lt_uint)
    moreover have "int ?t < 4294967296" using u32_less [of "random_sum s"] by linarith
    ultimately show ?thesis using pos unfolding word_sle_eq by (auto simp del: of_nat_unat u32_less)
  qed
  show ?thesis
  proof (cases "2147483648 \<le> ?t")
    case True
    have "unat (random_sum s - 0x7fffffff) = (?t + 4294967296 - 2147483647) mod 4294967296"
      by (simp add: unat_minus_word)
    also have "\<dots> = ?t - 2147483647" using True bound by (simp add: mod_if)
    also have "\<dots> = ?t mod 2147483647" using True bound by (simp add: le_mod_geq)
    finally show ?thesis using True sle m by (simp add: random_step_sum)
  next
    case False
    with nz have "?t < 2147483647" by (cases "?t = 2147483647") auto
    then have "?t mod 2147483647 = ?t" by simp
    with False sle m show ?thesis by (simp add: random_step_sum)
  qed
qed

lemma random_step_range:
  assumes "0 < unat s" "unat s < 2147483647"
  shows "0 < unat (random_step s) \<and> unat (random_step s) < 2147483647"
  using mersenne_coprime [OF assms] random_step_minstd [OF assms] by simp

text \<open>A zero seed is repaired by the first step.\<close>

lemma random_step_zero: "random_step 0 = 0x80000001"
  by (simp add: random_step_def word_sle_eq)

lemma random_rand_bound: "unat (fst (random_rand s)) \<le> 0x7fff"
proof -
  have "fst (random_rand s) = ucast ((random_step s XOR drop_bit 16 (random_step s)) AND 0x7fff)"
    by (simp add: random_rand_def Let_def)
  moreover have "unat (ucast (w AND 0x7fff :: u32) :: u16) \<le> 0x7fff" for w
    using u32_and_7fff [of w] by (simp add: unsigned_ucast_eq take_bit_eq_mod) 
  ultimately show ?thesis by simp
qed

section \<open>Properties\<close>

text \<open>The shift-and-xor update of \<open>crc16_add\<close> is the bit-serial division by the CCITT
  polynomial, so \<open>crc16_data\<close> is the CRC register after shifting in the message, and one
  checksum cannot continue two different register states (no error is lost by later data).\<close>

theorem crc16_is_serial_division:
  "crc16_data bs acc = fold (\<lambda>b r. (crc_shift ^^ 8) (r XOR ucast b)) bs acc
   \<and> (crc16_data bs acc = crc16_data bs acc' \<longleftrightarrow> acc = acc')"
proof -
  have "crc16_data bs acc = fold (\<lambda>b r. (crc_shift ^^ 8) (r XOR ucast b)) bs acc"
  proof -
    have "crc_serial = (\<lambda>b r. (crc_shift ^^ 8) (r XOR ucast b))"
      by (intro ext) (simp only: crc_serial_def)
    then show ?thesis by (simp only: crc16_data_fold)
  qed
  moreover have "crc16_data bs acc = crc16_data bs acc' \<longleftrightarrow> acc = acc'"
  proof (induction bs arbitrary: acc acc')
    case (Cons b bs)
    have "crc16_add b acc = crc16_add b acc' \<longleftrightarrow> acc XOR ucast b = acc' XOR ucast b"
      by (simp only: crc16_add_serial crc_serial_def crc_shift_pow_inj)
    also have "\<dots> \<longleftrightarrow> acc = acc'"
      by (rule xor_cancel)
    finally show ?case using Cons.IH by simp
  qed simp
  ultimately show ?thesis by blast
qed

text \<open>From every state between 1 and 2^31 - 2 the 16-bit multiplications of
  \<open>random_rand\<close> compute exactly the next state of the multiplicative generator modulo
  2^31 - 1, which is again in that range, and the result is at most \<open>RANDOM_RAND_MAX\<close>.\<close>

theorem random_rand_minstd:
  assumes "0 < unat s" "unat s < 2 ^ 31 - 1"
  shows "unat (snd (random_rand s)) = 16807 * unat s mod (2 ^ 31 - 1)
    \<and> 0 < unat (snd (random_rand s)) \<and> unat (snd (random_rand s)) < 2 ^ 31 - 1
    \<and> unat (fst (random_rand s)) \<le> 0x7fff"
proof -
  have "snd (random_rand s) = random_step s" by (simp add: random_rand_def Let_def)
  with random_step_minstd [of s] random_step_range [of s] random_rand_bound [of s] assms
  show ?thesis by simp
qed

theorem random_rand_minstd_witness:
  "unat (snd (random_rand 2)) = 33614 \<and> unat (fst (random_rand 2)) \<le> 0x7fff"
  using random_rand_minstd [of 2] by simp

end
