(* ===== verification/Uip_Ds6.thy ===== *)
theory Uip_Ds6
  imports Contiki_Memb Contiki_List Contiki_Timer Contiki_Random
begin

text \<open>
  The IPv6 data structures of \<open>core/net/uip-ds6.c\<close>, as patched for point-to-point
  routes: the neighbour cache, the default routers, prefixes, the unicast, multicast and
  anycast addresses, the routing table and the table of source routes. A pointer to a
  table entry is its index. The state is an extensible record: the RPL node state
  extends it. Sizes are those of the sky build of \<open>examples/ipv6/rpl-p2p\<close>.
  Packets and calls that leave the modelled code are appended to \<open>outbox\<close>; a step whose
  C code has no defined behaviour (a division by zero, a NULL pointer followed) sets
  \<open>fault\<close>, which nothing resets.
\<close>

section \<open>Addresses\<close>

definition uip_ip6addr :: "u16 list \<Rightarrow> ipaddr" where
  "uip_ip6addr ws = concat (map (\<lambda>w. [ucast (drop_bit 8 w), ucast w]) ws)"

definition uip_ipaddr_cmp :: "ipaddr \<Rightarrow> ipaddr \<Rightarrow> bool" where
  "uip_ipaddr_cmp a b \<longleftrightarrow> take 16 a = take 16 b"

definition uip_ipaddr_prefixcmp :: "ipaddr \<Rightarrow> ipaddr \<Rightarrow> u8 \<Rightarrow> bool" where
  "uip_ipaddr_prefixcmp a b len = (let n = unat (drop_bit 3 len) in take n a = take n b)"

definition uip_is_addr_link_local :: "ipaddr \<Rightarrow> bool" where
  "uip_is_addr_link_local a \<longleftrightarrow> a ! 0 = 0xFE \<and> a ! 1 = 0x80"

definition uip_is_addr_mcast :: "ipaddr \<Rightarrow> bool" where
  "uip_is_addr_mcast a \<longleftrightarrow> a ! 0 = 0xFF"

definition uip_create_linklocal_prefix :: "ipaddr \<Rightarrow> ipaddr" where
  "uip_create_linklocal_prefix a = [0xFE, 0x80, 0, 0, 0, 0, 0, 0] @ drop 8 a"

definition uip_create_unspecified :: ipaddr where
  "uip_create_unspecified = replicate 16 0"

definition uip_create_linklocal_allnodes_mcast :: ipaddr where
  "uip_create_linklocal_allnodes_mcast = uip_ip6addr [0xff02, 0, 0, 0, 0, 0, 0, 0x0001]"

definition uip_create_linklocal_allrouters_mcast :: ipaddr where
  "uip_create_linklocal_allrouters_mcast = uip_ip6addr [0xff02, 0, 0, 0, 0, 0, 0, 0x0002]"

definition uip_create_solicited_node :: "ipaddr \<Rightarrow> ipaddr" where
  "uip_create_solicited_node a =
     [0xFF, 0x02, 0, 0, 0, 0, 0, 0, 0, 0, 0, 0x01, 0xFF, a ! 13, a ! 14, a ! 15]"

text \<open>\<open>UIP_LLADDR_LEN\<close> is 8.\<close>

definition uip_ds6_set_addr_iid :: "ipaddr \<Rightarrow> bytes \<Rightarrow> ipaddr" where
  "uip_ds6_set_addr_iid a ll = (let b = take 8 a @ take 8 ll in b[8 := b ! 8 XOR 0x02])"

section \<open>Tables\<close>

definition NBR_INCOMPLETE :: u8 where "NBR_INCOMPLETE = 0"
definition NBR_REACHABLE :: u8 where "NBR_REACHABLE = 1"
definition NBR_STALE :: u8 where "NBR_STALE = 2"
definition NBR_DELAY :: u8 where "NBR_DELAY = 3"
definition NBR_PROBE :: u8 where "NBR_PROBE = 4"
definition ADDR_TENTATIVE :: u8 where "ADDR_TENTATIVE = 0"
definition ADDR_PREFERRED :: u8 where "ADDR_PREFERRED = 1"
definition ADDR_DEPRECATED :: u8 where "ADDR_DEPRECATED = 2"
definition ADDR_AUTOCONF :: u8 where "ADDR_AUTOCONF = 1"

lemmas ds6_consts = NBR_INCOMPLETE_def NBR_REACHABLE_def NBR_STALE_def NBR_DELAY_def NBR_PROBE_def
  ADDR_TENTATIVE_def ADDR_PREFERRED_def ADDR_DEPRECATED_def ADDR_AUTOCONF_def

record nbr =
  n_isused :: bool
  n_ipaddr :: ipaddr
  n_lladdr :: bytes
  n_reachable :: stimer
  n_sendns :: stimer
  n_last_lookup :: u32
  n_nscount :: u8
  n_isrouter :: u8
  n_state :: u8

record defrt =
  r_isused :: bool
  r_ipaddr :: ipaddr
  r_lifetime :: stimer
  r_isinfinite :: bool

record prefix_entry =
  x_isused :: bool
  x_ipaddr :: ipaddr
  x_length :: u8
  x_advertise :: u8
  x_vlifetime :: u32
  x_plifetime :: u32
  x_l_a_reserved :: u8

record addr_entry =
  a_isused :: bool
  a_ipaddr :: ipaddr
  a_state :: u8
  a_type :: u8
  a_isinfinite :: bool
  a_vlifetime :: stimer
  a_dadtimer :: timer
  a_dadnscount :: u8

record maddr_entry =
  m_isused :: bool
  m_ipaddr :: ipaddr

text \<open>\<open>rpl_route_entry_t\<close>: the RPL part of a route. The DAG is an index of \<open>dag_table\<close>.\<close>

record route_state =
  e_lifetime :: u32
  e_saved_lifetime :: u32
  e_dag :: "nat option"
  e_learned_from :: u8
  e_instance :: u8
  e_dodagid :: ipaddr

record route =
  t_isused :: bool
  t_ipaddr :: ipaddr
  t_length :: u8
  t_metric :: u8
  t_nexthop :: ipaddr
  t_state :: route_state

record src_route =
  s_isused :: bool
  s_ipaddr :: ipaddr
  s_addr_list :: "nat list"
  s_state :: route_state

text \<open>What leaves the node: an ICMPv6 message of type RPL (destination, code, payload), a
  packet left in the buffer to be sent by the caller (source, destination, code, payload),
  a neighbour solicitation (destination, target), an ICMPv6 error, an event for a process.\<close>

datatype message =
    Icmp6_send ipaddr u8 bytes
  | Buf_send ipaddr ipaddr u8 bytes
  | Ns_output "ipaddr option" ipaddr
  | Icmp6_error u8 u8
  | Post_synch nat nat bytes

record ds6 =
  nbr_cache :: "nbr list"
  defrt_list :: "defrt list"
  prefix_list :: "prefix_entry list"
  addr_list :: "addr_entry list"
  aaddr_list :: "maddr_entry list"
  maddr_list :: "maddr_entry list"
  routing_table :: "route list"
  src_routing_table :: "src_route list"
  src_addr_cnt :: "u8 list"
  src_addr_mem :: "ipaddr list"
  link_mtu :: u32
  cur_hop_limit :: u8
  base_reachable_time :: u32
  reachable_time :: u32
  retrans_timer :: u32
  maxdadns :: u8
  lladdr :: bytes
  clk :: u32
  secs :: u32
  rand_state :: u32
  outbox :: "message list"
  fault :: bool

definition emit :: "message \<Rightarrow> 'z ds6_scheme \<Rightarrow> 'z ds6_scheme" where
  "emit m s = s\<lparr>outbox := outbox s @ [m]\<rparr>"

definition set_fault :: "'z ds6_scheme \<Rightarrow> 'z ds6_scheme" where
  "set_fault s = s\<lparr>fault := True\<rparr>"

definition rand :: "'z ds6_scheme \<Rightarrow> u16 \<times> 'z ds6_scheme" where
  "rand s = (case random_rand (rand_state s) of (r, q) \<Rightarrow> (r, s\<lparr>rand_state := q\<rparr>))"

definition UIP_DS6_NBR_NB :: nat where "UIP_DS6_NBR_NB = 10"
definition UIP_DS6_DEFRT_NB :: nat where "UIP_DS6_DEFRT_NB = 2"
definition UIP_DS6_PREFIX_NB :: nat where "UIP_DS6_PREFIX_NB = 3"
definition UIP_DS6_ADDR_NB :: nat where "UIP_DS6_ADDR_NB = 3"
definition UIP_DS6_AADDR_NB :: nat where "UIP_DS6_AADDR_NB = 2"
definition UIP_DS6_MADDR_NB :: nat where "UIP_DS6_MADDR_NB = 5"
definition UIP_DS6_ROUTE_NB :: nat where "UIP_DS6_ROUTE_NB = 8"
definition UIP_DS6_SRC_ROUTE_NB :: nat where "UIP_DS6_SRC_ROUTE_NB = 3"
definition UIP_DS6_SRC_ROUTE_ADDR_NB :: nat where "UIP_DS6_SRC_ROUTE_ADDR_NB = 8"

lemmas ds6_sizes = UIP_DS6_NBR_NB_def UIP_DS6_DEFRT_NB_def UIP_DS6_PREFIX_NB_def UIP_DS6_ADDR_NB_def
  UIP_DS6_AADDR_NB_def UIP_DS6_MADDR_NB_def UIP_DS6_ROUTE_NB_def UIP_DS6_SRC_ROUTE_NB_def
  UIP_DS6_SRC_ROUTE_ADDR_NB_def

section \<open>The search loop that all tables share\<close>

datatype loop_result = FOUND | FREESPACE | NOSPACE

primrec list_loop_from ::
  "('e \<Rightarrow> bool) \<Rightarrow> ('e \<Rightarrow> ipaddr) \<Rightarrow> 'e list \<Rightarrow> ipaddr \<Rightarrow> u8 \<Rightarrow> nat \<Rightarrow> nat option \<Rightarrow> loop_result \<times> nat option" where
  "list_loop_from used adr [] ip len i out =
     (if out \<noteq> None then FREESPACE else NOSPACE, out)"
| "list_loop_from used adr (e # es) ip len i out =
     (if used e then
        (if uip_ipaddr_prefixcmp (adr e) ip len then (FOUND, Some i)
         else list_loop_from used adr es ip len (Suc i) out)
      else list_loop_from used adr es ip len (Suc i) (Some i))"

definition uip_ds6_list_loop ::
  "('e \<Rightarrow> bool) \<Rightarrow> ('e \<Rightarrow> ipaddr) \<Rightarrow> 'e list \<Rightarrow> ipaddr \<Rightarrow> u8 \<Rightarrow> loop_result \<times> nat option" where
  "uip_ds6_list_loop used adr es ip len = list_loop_from used adr es ip len 0 None"

text \<open>The lookup functions return the entry when the loop reports \<open>FOUND\<close>.\<close>

definition found :: "loop_result \<times> nat option \<Rightarrow> nat option" where
  "found r = (case r of (FOUND, i) \<Rightarrow> i | _ \<Rightarrow> None)"

section \<open>Neighbour cache\<close>

text \<open>\<open>NEIGHBOR_STATE_CHANGED\<close> is the argument \<open>cb\<close>; the RPL layer instantiates it with
  \<open>rpl_ipv6_neighbor_callback\<close>.\<close>

definition uip_ds6_nbr_rm ::
  "(nat \<Rightarrow> 'z ds6_scheme \<Rightarrow> 'z ds6_scheme) \<Rightarrow> nat \<Rightarrow> 'z ds6_scheme \<Rightarrow> 'z ds6_scheme" where
  "uip_ds6_nbr_rm cb i s =
     cb i (s\<lparr>nbr_cache := updf i (\<lambda>n. n\<lparr>n_isused := False\<rparr>) (nbr_cache s)\<rparr>)"

text \<open>The entry with the smallest \<open>last_lookup\<close> below \<open>oldest_time\<close>, the first one on ties.\<close>

primrec oldest_nbr :: "nbr list \<Rightarrow> nat \<Rightarrow> nat option \<Rightarrow> u32 \<Rightarrow> nat option" where
  "oldest_nbr [] i oldest oldest_time = oldest"
| "oldest_nbr (n # ns) i oldest oldest_time =
     (if n_isused n \<and> n_last_lookup n < oldest_time
      then oldest_nbr ns (Suc i) (Some i) (n_last_lookup n)
      else oldest_nbr ns (Suc i) oldest oldest_time)"

text \<open>The recursive call happens at most once, after an entry has been freed; the first
  argument bounds the depth of the recursion.\<close>

fun nbr_add_rec ::
  "nat \<Rightarrow> (nat \<Rightarrow> 'z ds6_scheme \<Rightarrow> 'z ds6_scheme) \<Rightarrow> ipaddr \<Rightarrow> bytes option \<Rightarrow> u8 \<Rightarrow> u8
     \<Rightarrow> 'z ds6_scheme \<Rightarrow> nat option \<times> 'z ds6_scheme" where
  "nbr_add_rec 0 cb ip ll isrouter st s = (None, s)"
| "nbr_add_rec (Suc d) cb ip ll isrouter st s =
     (case uip_ds6_list_loop n_isused n_ipaddr (nbr_cache s) ip 128 of
        (FREESPACE, Some i) \<Rightarrow>
          (let s = s\<lparr>nbr_cache := updf i (\<lambda>n. n\<lparr>n_isused := True, n_ipaddr := ip,
                       n_lladdr := (case ll of Some l \<Rightarrow> take 8 l | None \<Rightarrow> replicate 8 0),
                       n_isrouter := isrouter, n_state := st,
                       n_reachable := stimer_set (secs s) 0 (n_reachable n),
                       n_sendns := stimer_set (secs s) 0 (n_sendns n),
                       n_nscount := 0\<rparr>) (nbr_cache s)\<rparr>;
               s = cb i s
           in (Some i, s\<lparr>nbr_cache := updf i (\<lambda>n. n\<lparr>n_last_lookup := clk s\<rparr>) (nbr_cache s)\<rparr>))
      | (NOSPACE, _) \<Rightarrow>
          (case oldest_nbr (nbr_cache s) 0 None (clk s) of
             Some j \<Rightarrow> nbr_add_rec d cb ip ll isrouter st (uip_ds6_nbr_rm cb j s)
           | None \<Rightarrow> (None, s))
      | _ \<Rightarrow> (None, s))"

definition uip_ds6_nbr_add ::
  "(nat \<Rightarrow> 'z ds6_scheme \<Rightarrow> 'z ds6_scheme) \<Rightarrow> ipaddr \<Rightarrow> bytes option \<Rightarrow> u8 \<Rightarrow> u8
     \<Rightarrow> 'z ds6_scheme \<Rightarrow> nat option \<times> 'z ds6_scheme" where
  "uip_ds6_nbr_add = nbr_add_rec 2"

definition uip_ds6_nbr_lookup :: "ipaddr \<Rightarrow> 'z ds6_scheme \<Rightarrow> nat option" where
  "uip_ds6_nbr_lookup ip s = found (uip_ds6_list_loop n_isused n_ipaddr (nbr_cache s) ip 128)"

section \<open>Default routers\<close>

text \<open>The assignments to the new entry, for an interval and the time in seconds.\<close>

definition defrt_enter :: "u32 \<times> u32 \<Rightarrow> ipaddr \<Rightarrow> defrt \<Rightarrow> defrt" where
  "defrt_enter p ip r0 =
     (let r = r0\<lparr>r_isused := True, r_ipaddr := ip\<rparr>
      in if fst p \<noteq> 0
         then r\<lparr>r_lifetime := stimer_set (snd p) (fst p) (r_lifetime r), r_isinfinite := False\<rparr>
         else r\<lparr>r_isinfinite := True\<rparr>)"

definition uip_ds6_defrt_add :: "ipaddr \<Rightarrow> u32 \<Rightarrow> 'z ds6_scheme \<Rightarrow> nat option \<times> 'z ds6_scheme" where
  "uip_ds6_defrt_add ip iv s =
     (case uip_ds6_list_loop r_isused r_ipaddr (defrt_list s) ip 128 of
        (FREESPACE, Some i) \<Rightarrow>
          (Some i, s\<lparr>defrt_list := updf i (defrt_enter (iv, secs s) ip) (defrt_list s)\<rparr>)
      | _ \<Rightarrow> (None, s))"

definition uip_ds6_defrt_rm :: "nat \<Rightarrow> 'z ds6_scheme \<Rightarrow> 'z ds6_scheme" where
  "uip_ds6_defrt_rm i s = s\<lparr>defrt_list := updf i (\<lambda>r. r\<lparr>r_isused := False\<rparr>) (defrt_list s)\<rparr>"

definition uip_ds6_defrt_lookup :: "ipaddr \<Rightarrow> 'z ds6_scheme \<Rightarrow> nat option" where
  "uip_ds6_defrt_lookup ip s = found (uip_ds6_list_loop r_isused r_ipaddr (defrt_list s) ip 128)"

text \<open>The index of the chosen router: the code returns the address of its \<open>ipaddr\<close> field.\<close>

primrec defrt_choose_loop :: "defrt list \<Rightarrow> nat \<Rightarrow> 'z ds6_scheme \<Rightarrow> nat option \<Rightarrow> nat option" where
  "defrt_choose_loop [] i s loc = loc"
| "defrt_choose_loop (r # rs) i s loc =
     (if r_isused r then
        (case uip_ds6_nbr_lookup (r_ipaddr r) s of
           Some b \<Rightarrow> if n_state (nbr_cache s ! b) \<noteq> NBR_INCOMPLETE then Some i
                     else defrt_choose_loop rs (Suc i) s (Some i)
         | None \<Rightarrow> defrt_choose_loop rs (Suc i) s (Some i))
      else defrt_choose_loop rs (Suc i) s loc)"

definition uip_ds6_defrt_choose :: "'z ds6_scheme \<Rightarrow> nat option" where
  "uip_ds6_defrt_choose s = defrt_choose_loop (defrt_list s) 0 s None"

section \<open>Prefixes\<close>

definition uip_ds6_prefix_add ::
  "ipaddr \<Rightarrow> u8 \<Rightarrow> u8 \<Rightarrow> u8 \<Rightarrow> u32 \<Rightarrow> u32 \<Rightarrow> 'z ds6_scheme \<Rightarrow> nat option \<times> 'z ds6_scheme" where
  "uip_ds6_prefix_add ip len advertise flags vtime ptime s =
     (case uip_ds6_list_loop x_isused x_ipaddr (prefix_list s) ip len of
        (FREESPACE, Some i) \<Rightarrow>
          (Some i, s\<lparr>prefix_list := updf i (\<lambda>x. x\<lparr>x_isused := True, x_ipaddr := ip, x_length := len,
             x_advertise := advertise, x_l_a_reserved := flags, x_vlifetime := vtime,
             x_plifetime := ptime\<rparr>) (prefix_list s)\<rparr>)
      | _ \<Rightarrow> (None, s))"

definition uip_ds6_prefix_rm :: "nat \<Rightarrow> 'z ds6_scheme \<Rightarrow> 'z ds6_scheme" where
  "uip_ds6_prefix_rm i s = s\<lparr>prefix_list := updf i (\<lambda>x. x\<lparr>x_isused := False\<rparr>) (prefix_list s)\<rparr>"

definition uip_ds6_prefix_lookup :: "ipaddr \<Rightarrow> u8 \<Rightarrow> 'z ds6_scheme \<Rightarrow> nat option" where
  "uip_ds6_prefix_lookup ip len s = found (uip_ds6_list_loop x_isused x_ipaddr (prefix_list s) ip len)"

definition uip_ds6_is_addr_onlink :: "ipaddr \<Rightarrow> 'z ds6_scheme \<Rightarrow> bool" where
  "uip_ds6_is_addr_onlink ip s =
     list_ex (\<lambda>x. x_isused x \<and> uip_ipaddr_prefixcmp (x_ipaddr x) ip (x_length x)) (prefix_list s)"

section \<open>Multicast and anycast addresses\<close>

definition uip_ds6_maddr_add :: "ipaddr \<Rightarrow> 'z ds6_scheme \<Rightarrow> nat option \<times> 'z ds6_scheme" where
  "uip_ds6_maddr_add ip s =
     (case uip_ds6_list_loop m_isused m_ipaddr (maddr_list s) ip 128 of
        (FREESPACE, Some i) \<Rightarrow>
          (Some i, s\<lparr>maddr_list := updf i (\<lambda>m. m\<lparr>m_isused := True, m_ipaddr := ip\<rparr>) (maddr_list s)\<rparr>)
      | _ \<Rightarrow> (None, s))"

definition uip_ds6_maddr_rm :: "nat \<Rightarrow> 'z ds6_scheme \<Rightarrow> 'z ds6_scheme" where
  "uip_ds6_maddr_rm i s = s\<lparr>maddr_list := updf i (\<lambda>m. m\<lparr>m_isused := False\<rparr>) (maddr_list s)\<rparr>"

definition uip_ds6_maddr_lookup :: "ipaddr \<Rightarrow> 'z ds6_scheme \<Rightarrow> nat option" where
  "uip_ds6_maddr_lookup ip s = found (uip_ds6_list_loop m_isused m_ipaddr (maddr_list s) ip 128)"

definition uip_ds6_aaddr_add :: "ipaddr \<Rightarrow> 'z ds6_scheme \<Rightarrow> nat option \<times> 'z ds6_scheme" where
  "uip_ds6_aaddr_add ip s =
     (case uip_ds6_list_loop m_isused m_ipaddr (aaddr_list s) ip 128 of
        (FREESPACE, Some i) \<Rightarrow>
          (Some i, s\<lparr>aaddr_list := updf i (\<lambda>m. m\<lparr>m_isused := True, m_ipaddr := ip\<rparr>) (aaddr_list s)\<rparr>)
      | _ \<Rightarrow> (None, s))"

definition uip_ds6_aaddr_rm :: "nat \<Rightarrow> 'z ds6_scheme \<Rightarrow> 'z ds6_scheme" where
  "uip_ds6_aaddr_rm i s = s\<lparr>aaddr_list := updf i (\<lambda>m. m\<lparr>m_isused := False\<rparr>) (aaddr_list s)\<rparr>"

definition uip_ds6_aaddr_lookup :: "ipaddr \<Rightarrow> 'z ds6_scheme \<Rightarrow> nat option" where
  "uip_ds6_aaddr_lookup ip s = found (uip_ds6_list_loop m_isused m_ipaddr (aaddr_list s) ip 128)"

section \<open>Unicast addresses\<close>

text \<open>\<open>random_rand() % (UIP_ND6_MAX_RTR_SOLICITATION_DELAY * CLOCK_SECOND)\<close> with 1 and 128.\<close>

definition uip_ds6_addr_add :: "ipaddr \<Rightarrow> u32 \<Rightarrow> u8 \<Rightarrow> 'z ds6_scheme \<Rightarrow> nat option \<times> 'z ds6_scheme" where
  "uip_ds6_addr_add ip vlifetime type s =
     (case uip_ds6_list_loop a_isused a_ipaddr (addr_list s) ip 128 of
        (FREESPACE, Some i) \<Rightarrow>
          (case rand s of (r, s) \<Rightarrow>
             (let s = s\<lparr>addr_list := updf i (\<lambda>a.
                    (let a = a\<lparr>a_isused := True, a_ipaddr := ip, a_state := ADDR_TENTATIVE, a_type := type\<rparr>;
                         a = (if vlifetime = 0 then a\<lparr>a_isinfinite := True\<rparr>
                              else a\<lparr>a_isinfinite := False,
                                     a_vlifetime := stimer_set (secs s) vlifetime (a_vlifetime a)\<rparr>)
                     in a\<lparr>a_dadtimer := timer_set (clk s) (ucast r mod 128) (a_dadtimer a),
                          a_dadnscount := 0\<rparr>)) (addr_list s)\<rparr>
              in (Some i, snd (uip_ds6_maddr_add (uip_create_solicited_node ip) s))))
      | _ \<Rightarrow> (None, s))"

definition uip_ds6_addr_rm :: "nat \<Rightarrow> 'z ds6_scheme \<Rightarrow> 'z ds6_scheme" where
  "uip_ds6_addr_rm i s =
     (let s = (case uip_ds6_maddr_lookup (uip_create_solicited_node (a_ipaddr (addr_list s ! i))) s of
                 Some m \<Rightarrow> uip_ds6_maddr_rm m s | None \<Rightarrow> s)
      in s\<lparr>addr_list := updf i (\<lambda>a. a\<lparr>a_isused := False\<rparr>) (addr_list s)\<rparr>)"

definition uip_ds6_addr_lookup :: "ipaddr \<Rightarrow> 'z ds6_scheme \<Rightarrow> nat option" where
  "uip_ds6_addr_lookup ip s = found (uip_ds6_list_loop a_isused a_ipaddr (addr_list s) ip 128)"

definition uip_ds6_is_my_addr :: "ipaddr \<Rightarrow> 'z ds6_scheme \<Rightarrow> bool" where
  "uip_ds6_is_my_addr ip s \<longleftrightarrow> uip_ds6_addr_lookup ip s \<noteq> None"

text \<open>The index of the first element that satisfies a test: the scans below return a
  pointer to it.\<close>

primrec first_index :: "('e \<Rightarrow> bool) \<Rightarrow> 'e list \<Rightarrow> nat \<Rightarrow> nat option" where
  "first_index P [] i = None"
| "first_index P (e # es) i = (if P e then Some i else first_index P es (Suc i))"

text \<open>The state argument is \<open>-1\<close> for any state.\<close>

definition uip_ds6_get_link_local :: "int \<Rightarrow> 'z ds6_scheme \<Rightarrow> nat option" where
  "uip_ds6_get_link_local st s =
     first_index (\<lambda>a. a_isused a \<and> (st = -1 \<or> uint (a_state a) = st) \<and> uip_is_addr_link_local (a_ipaddr a))
       (addr_list s) 0"

definition uip_ds6_get_global :: "int \<Rightarrow> 'z ds6_scheme \<Rightarrow> nat option" where
  "uip_ds6_get_global st s =
     first_index (\<lambda>a. a_isused a \<and> (st = -1 \<or> uint (a_state a) = st) \<and> \<not> uip_is_addr_link_local (a_ipaddr a))
       (addr_list s) 0"

section \<open>Routes\<close>

primrec route_lookup_loop :: "ipaddr \<Rightarrow> route list \<Rightarrow> nat \<Rightarrow> nat option \<Rightarrow> u8 \<Rightarrow> nat option" where
  "route_lookup_loop dest [] i locrt longestmatch = locrt"
| "route_lookup_loop dest (r # rs) i locrt longestmatch =
     (if t_isused r \<and> longestmatch \<le> t_length r \<and> uip_ipaddr_prefixcmp dest (t_ipaddr r) (t_length r)
      then route_lookup_loop dest rs (Suc i) (Some i) (t_length r)
      else route_lookup_loop dest rs (Suc i) locrt longestmatch)"

definition uip_ds6_route_lookup :: "ipaddr \<Rightarrow> 'z ds6_scheme \<Rightarrow> nat option" where
  "uip_ds6_route_lookup dest s = route_lookup_loop dest (routing_table s) 0 None 0"

text \<open>The function returns \<open>locroute\<close>: an existing entry when the loop reports \<open>FOUND\<close>.\<close>

definition uip_ds6_route_add :: "ipaddr \<Rightarrow> u8 \<Rightarrow> ipaddr \<Rightarrow> u8 \<Rightarrow> 'z ds6_scheme \<Rightarrow> nat option \<times> 'z ds6_scheme" where
  "uip_ds6_route_add ip len nexthop metric s =
     (case uip_ds6_list_loop t_isused t_ipaddr (routing_table s) ip len of
        (FREESPACE, Some i) \<Rightarrow>
          (Some i, s\<lparr>routing_table := updf i (\<lambda>r. r\<lparr>t_isused := True, t_ipaddr := ip, t_length := len,
             t_nexthop := nexthop, t_metric := metric\<rparr>) (routing_table s)\<rparr>)
      | (_, i) \<Rightarrow> (i, s))"

definition route_rm :: "route \<Rightarrow> route" where
  "route_rm r = r\<lparr>t_isused := False\<rparr>"

definition uip_ds6_route_rm :: "nat \<Rightarrow> 'z ds6_scheme \<Rightarrow> 'z ds6_scheme" where
  "uip_ds6_route_rm i s = s\<lparr>routing_table := updf i route_rm (routing_table s)\<rparr>"

definition uip_ds6_route_rm_by_nexthop :: "ipaddr \<Rightarrow> 'z ds6_scheme \<Rightarrow> 'z ds6_scheme" where
  "uip_ds6_route_rm_by_nexthop nexthop s = s\<lparr>routing_table :=
     map (\<lambda>r. if t_isused r \<and> uip_ipaddr_cmp (t_nexthop r) nexthop then r\<lparr>t_isused := False\<rparr> else r)
       (routing_table s)\<rparr>"

section \<open>Source routes\<close>

definition uip_ds6_src_route_rm :: "nat \<Rightarrow> 'z ds6_scheme \<Rightarrow> 'z ds6_scheme" where
  "uip_ds6_src_route_rm i s =
     (if i < length (src_routing_table s) then
        s\<lparr>src_addr_cnt := fold (\<lambda>a c. pool_free c a) (s_addr_list (src_routing_table s ! i)) (src_addr_cnt s),
          src_routing_table := updf i (\<lambda>r. r\<lparr>s_addr_list := [], s_isused := False\<rparr>) (src_routing_table s)\<rparr>
      else s)"

definition uip_ds6_src_route_add :: "ipaddr \<Rightarrow> 'z ds6_scheme \<Rightarrow> nat option \<times> 'z ds6_scheme" where
  "uip_ds6_src_route_add ip s =
     (case uip_ds6_list_loop s_isused s_ipaddr (src_routing_table s) ip 128 of
        (FREESPACE, Some i) \<Rightarrow>
          (Some i, s\<lparr>src_routing_table := updf i (\<lambda>r. r\<lparr>s_isused := True, s_ipaddr := ip,
             s_addr_list := []\<rparr>) (src_routing_table s)\<rparr>)
      | (FOUND, Some i) \<Rightarrow>
          (let s = uip_ds6_src_route_rm i s
           in (Some i, s\<lparr>src_routing_table := updf i (\<lambda>r. r\<lparr>s_isused := True\<rparr>) (src_routing_table s)\<rparr>))
      | (_, i) \<Rightarrow> (i, s))"

definition uip_ds6_src_route_hop_add ::
  "nat \<Rightarrow> ipaddr \<Rightarrow> bool \<Rightarrow> 'z ds6_scheme \<Rightarrow> nat option \<times> 'z ds6_scheme" where
  "uip_ds6_src_route_hop_add i hop push s =
     (case pool_alloc (src_addr_cnt s) of
        (None, _) \<Rightarrow> (None, s)
      | (Some a, cnt) \<Rightarrow>
          (Some a, s\<lparr>src_addr_cnt := cnt, src_addr_mem := (src_addr_mem s)[a := hop],
             src_routing_table := updf i (\<lambda>r. r\<lparr>s_addr_list :=
               (if push then lst_push (s_addr_list r) a else lst_add (s_addr_list r) a)\<rparr>)
               (src_routing_table s)\<rparr>))"

definition uip_ds6_src_route_lookup :: "ipaddr \<Rightarrow> 'z ds6_scheme \<Rightarrow> nat option" where
  "uip_ds6_src_route_lookup dest s =
     first_index (\<lambda>r. s_isused r \<and> uip_ipaddr_cmp dest (s_ipaddr r)) (src_routing_table s) 0"

text \<open>The hops of a source route, in order.\<close>

definition src_route_hops :: "nat \<Rightarrow> 'z ds6_scheme \<Rightarrow> ipaddr list" where
  "src_route_hops i s = map (\<lambda>a. src_addr_mem s ! a) (s_addr_list (src_routing_table s ! i))"

section \<open>Source address selection\<close>

primrec leading_zeros :: "nat \<Rightarrow> u8 \<Rightarrow> u8 \<Rightarrow> u8" where
  "leading_zeros 0 x_or len = len"
| "leading_zeros (Suc k) x_or len =
     (if x_or AND 0x80 = 0 then leading_zeros k (push_bit 1 x_or) (len + 1) else len)"

primrec match_length_from :: "ipaddr \<Rightarrow> ipaddr \<Rightarrow> u8 \<Rightarrow> u8" where
  "match_length_from [] dst len = len"
| "match_length_from (a # as) dst len = (case dst of [] \<Rightarrow> len | b # bs \<Rightarrow>
     (if a = b then match_length_from as bs (len + 8) else leading_zeros 8 (a XOR b) len))"

definition get_match_length :: "ipaddr \<Rightarrow> ipaddr \<Rightarrow> u8" where
  "get_match_length src dst = match_length_from (take 16 src) dst 0"

primrec select_src_loop :: "ipaddr \<Rightarrow> addr_entry list \<Rightarrow> u8 \<Rightarrow> ipaddr option \<Rightarrow> ipaddr option" where
  "select_src_loop dst [] best matchaddr = matchaddr"
| "select_src_loop dst (a # as) best matchaddr =
     (if a_isused a \<and> a_state a = ADDR_PREFERRED \<and> \<not> uip_is_addr_link_local (a_ipaddr a) then
        (let n = get_match_length dst (a_ipaddr a)
         in if best \<le> n then select_src_loop dst as n (Some (a_ipaddr a))
            else select_src_loop dst as best matchaddr)
      else select_src_loop dst as best matchaddr)"

definition uip_ds6_select_src :: "ipaddr \<Rightarrow> 'z ds6_scheme \<Rightarrow> ipaddr" where
  "uip_ds6_select_src dst s =
     (let matchaddr =
        (if \<not> uip_is_addr_link_local dst \<and> \<not> uip_is_addr_mcast dst
         then select_src_loop dst (addr_list s) 0 None
         else map_option (\<lambda>i. a_ipaddr (addr_list s ! i)) (uip_ds6_get_link_local (uint ADDR_PREFERRED) s))
      in case matchaddr of None \<Rightarrow> uip_create_unspecified | Some a \<Rightarrow> a)"

section \<open>Duplicate address detection and periodic processing\<close>

definition uip_ds6_dad :: "nat \<Rightarrow> 'z ds6_scheme \<Rightarrow> 'z ds6_scheme" where
  "uip_ds6_dad i s =
     (let a = addr_list s ! i in
      if a_dadnscount a < maxdadns s then
        (let s = emit (Ns_output None (a_ipaddr a)) s
         in s\<lparr>addr_list := updf i (\<lambda>a. a\<lparr>a_dadnscount := a_dadnscount a + 1,
               a_dadtimer := timer_set (clk s) (retrans_timer s div 1000 * 128) (a_dadtimer a)\<rparr>) (addr_list s)\<rparr>)
      else s\<lparr>addr_list := updf i (\<lambda>a. a\<lparr>a_state := ADDR_PREFERRED\<rparr>) (addr_list s)\<rparr>)"

definition uip_ds6_dad_failed :: "nat \<Rightarrow> 'z ds6_scheme \<Rightarrow> bool \<times> 'z ds6_scheme" where
  "uip_ds6_dad_failed i s =
     (if uip_is_addr_link_local (a_ipaddr (addr_list s ! i)) then (False, s)
      else (True, uip_ds6_addr_rm i s))"

text \<open>The three loops of \<open>uip_ds6_periodic\<close>, one step each. \<open>UIP_ND6_MAX_MULTICAST_SOLICIT\<close>
  and \<open>UIP_ND6_MAX_UNICAST_SOLICIT\<close> are 3.\<close>

definition periodic_addr :: "nat \<Rightarrow> 'z ds6_scheme \<Rightarrow> 'z ds6_scheme" where
  "periodic_addr i s =
     (let a = addr_list s ! i in
      if \<not> a_isused a then s
      else if \<not> a_isinfinite a \<and> stimer_expired (secs s) (a_vlifetime a) then uip_ds6_addr_rm i s
      else if a_state a = ADDR_TENTATIVE \<and> a_dadnscount a \<le> maxdadns s \<and> timer_expired (clk s) (a_dadtimer a)
      then uip_ds6_dad i s else s)"

definition periodic_defrt :: "nat \<Rightarrow> 'z ds6_scheme \<Rightarrow> 'z ds6_scheme" where
  "periodic_defrt i s =
     (let r = defrt_list s ! i in
      if r_isused r \<and> \<not> r_isinfinite r \<and> stimer_expired (secs s) (r_lifetime r)
      then uip_ds6_defrt_rm i s else s)"

definition send_ns :: "ipaddr option \<Rightarrow> nat \<Rightarrow> 'z ds6_scheme \<Rightarrow> 'z ds6_scheme" where
  "send_ns dest i s =
     (let s = emit (Ns_output dest (n_ipaddr (nbr_cache s ! i))) s
      in s\<lparr>nbr_cache := updf i (\<lambda>n. n\<lparr>n_sendns := stimer_set (secs s) (retrans_timer s div 1000) (n_sendns n)\<rparr>)
             (nbr_cache s)\<rparr>)"

definition periodic_nbr ::
  "(nat \<Rightarrow> 'z ds6_scheme \<Rightarrow> 'z ds6_scheme) \<Rightarrow> nat \<Rightarrow> 'z ds6_scheme \<Rightarrow> 'z ds6_scheme" where
  "periodic_nbr cb i s =
     (let n = nbr_cache s ! i;
          upd = (\<lambda>f s. s\<lparr>nbr_cache := updf i f (nbr_cache s)\<rparr>)
      in if \<not> n_isused n then s
      else if n_state n = NBR_INCOMPLETE then
        (if 3 \<le> n_nscount n then uip_ds6_nbr_rm cb i s
         else if stimer_expired (secs s) (n_sendns n)
         then send_ns None i (upd (\<lambda>n. n\<lparr>n_nscount := n_nscount n + 1\<rparr>) s) else s)
      else if n_state n = NBR_REACHABLE then
        (if stimer_expired (secs s) (n_reachable n) then upd (\<lambda>n. n\<lparr>n_state := NBR_STALE\<rparr>) s else s)
      else if n_state n = NBR_DELAY then
        (if stimer_expired (secs s) (n_reachable n)
         then send_ns (Some (n_ipaddr n)) i (upd (\<lambda>n. n\<lparr>n_state := NBR_PROBE, n_nscount := 1\<rparr>) s) else s)
      else if n_state n = NBR_PROBE then
        (if 3 \<le> n_nscount n then
           uip_ds6_nbr_rm cb i (case uip_ds6_defrt_lookup (n_ipaddr n) s of
                                  Some d \<Rightarrow> uip_ds6_defrt_rm d s | None \<Rightarrow> s)
         else if stimer_expired (secs s) (n_sendns n)
         then send_ns (Some (n_ipaddr n)) i (upd (\<lambda>n. n\<lparr>n_nscount := n_nscount n + 1\<rparr>) s) else s)
      else s)"

definition uip_ds6_periodic :: "(nat \<Rightarrow> 'z ds6_scheme \<Rightarrow> 'z ds6_scheme) \<Rightarrow> 'z ds6_scheme \<Rightarrow> 'z ds6_scheme" where
  "uip_ds6_periodic cb s =
     (let s = fold periodic_addr [0..<UIP_DS6_ADDR_NB] s;
          s = fold periodic_defrt [0..<UIP_DS6_DEFRT_NB] s
      in fold (periodic_nbr cb) [0..<UIP_DS6_NBR_NB] s)"

section \<open>Initialisation\<close>

text \<open>The two \<open>random_rand\<close> calls are taken left to right; their sum is computed in the
  16-bit \<open>unsigned int\<close>.\<close>

definition uip_ds6_compute_reachable_time :: "'z ds6_scheme \<Rightarrow> u32 \<times> 'z ds6_scheme" where
  "uip_ds6_compute_reachable_time s =
     (case rand s of (r1, s) \<Rightarrow> (case rand s of (r2, s) \<Rightarrow>
        (let b = base_reachable_time s; lo = b div 2; hi = b + b div 2
         in (lo + ucast (push_bit 8 r1 + r2) mod (hi - lo), s))))"

definition stimer0 :: stimer where "stimer0 = \<lparr>sstart = 0, sinterval = 0\<rparr>"
definition timer0 :: timer where "timer0 = \<lparr>start = 0, interval = 0\<rparr>"
definition addr0 :: ipaddr where "addr0 = replicate 16 0"

definition nbr0 :: nbr where
  "nbr0 = \<lparr>n_isused = False, n_ipaddr = addr0, n_lladdr = replicate 8 0, n_reachable = stimer0,
     n_sendns = stimer0, n_last_lookup = 0, n_nscount = 0, n_isrouter = 0, n_state = 0\<rparr>"
definition defrt0 :: defrt where
  "defrt0 = \<lparr>r_isused = False, r_ipaddr = addr0, r_lifetime = stimer0, r_isinfinite = False\<rparr>"
definition prefix0 :: prefix_entry where
  "prefix0 = \<lparr>x_isused = False, x_ipaddr = addr0, x_length = 0, x_advertise = 0, x_vlifetime = 0,
     x_plifetime = 0, x_l_a_reserved = 0\<rparr>"
definition addr_entry0 :: addr_entry where
  "addr_entry0 = \<lparr>a_isused = False, a_ipaddr = addr0, a_state = 0, a_type = 0, a_isinfinite = False,
     a_vlifetime = stimer0, a_dadtimer = timer0, a_dadnscount = 0\<rparr>"
definition maddr0 :: maddr_entry where
  "maddr0 = \<lparr>m_isused = False, m_ipaddr = addr0\<rparr>"
definition route_state0 :: route_state where
  "route_state0 = \<lparr>e_lifetime = 0, e_saved_lifetime = 0, e_dag = None, e_learned_from = 0,
     e_instance = 0, e_dodagid = addr0\<rparr>"
definition route0 :: route where
  "route0 = \<lparr>t_isused = False, t_ipaddr = addr0, t_length = 0, t_metric = 0, t_nexthop = addr0,
     t_state = route_state0\<rparr>"
definition src_route0 :: src_route where
  "src_route0 = \<lparr>s_isused = False, s_ipaddr = addr0, s_addr_list = [], s_state = route_state0\<rparr>"

lemmas ds6_zero = stimer0_def timer0_def addr0_def nbr0_def defrt0_def prefix0_def addr_entry0_def
  maddr0_def route_state0_def route0_def src_route0_def

text \<open>\<open>UIP_ND6_REACHABLE_TIME\<close> is 600000 and \<open>UIP_ND6_RETRANS_TIMER\<close> 10000 on the sky.\<close>

definition uip_ds6_init :: "'z ds6_scheme \<Rightarrow> 'z ds6_scheme" where
  "uip_ds6_init s =
     (let s = s\<lparr>nbr_cache := replicate UIP_DS6_NBR_NB nbr0,
                defrt_list := replicate UIP_DS6_DEFRT_NB defrt0,
                prefix_list := replicate UIP_DS6_PREFIX_NB prefix0,
                addr_list := replicate UIP_DS6_ADDR_NB addr_entry0,
                aaddr_list := replicate UIP_DS6_AADDR_NB maddr0,
                maddr_list := replicate UIP_DS6_MADDR_NB maddr0,
                routing_table := replicate UIP_DS6_ROUTE_NB route0,
                src_routing_table := replicate UIP_DS6_SRC_ROUTE_NB src_route0,
                src_addr_cnt := replicate UIP_DS6_SRC_ROUTE_ADDR_NB 0,
                src_addr_mem := replicate UIP_DS6_SRC_ROUTE_ADDR_NB addr0,
                link_mtu := 1280, cur_hop_limit := 64, base_reachable_time := 600000\<rparr>;
          (t, s) = uip_ds6_compute_reachable_time s;
          s = s\<lparr>reachable_time := t, retrans_timer := 10000, maxdadns := 1\<rparr>;
          loc = uip_create_linklocal_prefix addr0;
          (_, s) = uip_ds6_prefix_add loc 64 0 0 0 0 s;
          (_, s) = uip_ds6_addr_add (uip_ds6_set_addr_iid loc (lladdr s)) 0 ADDR_AUTOCONF s;
          (_, s) = uip_ds6_maddr_add uip_create_linklocal_allnodes_mcast s;
          (_, s) = uip_ds6_maddr_add uip_create_linklocal_allrouters_mcast s
      in s)"

end
