(* ===== verification/Rpl_Types.thy ===== *)
theory Rpl_Types
  imports Uip_Ds6
begin

text \<open>
  The data of \<open>core/net/rpl/rpl.h\<close>, \<open>rpl-private.h\<close> and \<open>rpl-p2p.h\<close>, and the state of a
  node: the IPv6 data structures extended by the DAG table, the pools of parents and of
  partial-route addresses, the table of P2P extensions, the cache of DROs and the static
  variables of the RPL files. Pointers into tables and pools are indices; a block that is
  freed keeps its old contents, as the C memory does.
\<close>

section \<open>Constants\<close>

definition RPL_DAG_MC_NONE :: u8 where "RPL_DAG_MC_NONE = 0"
definition RPL_DAG_MC_ENERGY :: u8 where "RPL_DAG_MC_ENERGY = 2"
definition RPL_DAG_MC_ETX :: u8 where "RPL_DAG_MC_ETX = 7"
definition RPL_DAG_MC_FLAG_P :: u8 where "RPL_DAG_MC_FLAG_P = 0x8"
definition RPL_DAG_MC_FLAG_C :: u8 where "RPL_DAG_MC_FLAG_C = 0x4"
definition RPL_MOP_NO_DOWNWARD_ROUTES :: u8 where "RPL_MOP_NO_DOWNWARD_ROUTES = 0"
definition RPL_MOP_NON_STORING :: u8 where "RPL_MOP_NON_STORING = 1"
definition RPL_MOP_DEFAULT :: u8 where "RPL_MOP_DEFAULT = 2"
definition RPL_MOP_P2P_ROUTE_DISCOVERY :: u8 where "RPL_MOP_P2P_ROUTE_DISCOVERY = 4"
definition RPL_DEFAULT_INSTANCE :: u8 where "RPL_DEFAULT_INSTANCE = 0"
definition RPL_LOCAL_DEFAULT_INSTANCE :: u8 where "RPL_LOCAL_DEFAULT_INSTANCE = 0x80"
definition INFINITE_RANK :: u16 where "INFINITE_RANK = 0xffff"
definition DEFAULT_MIN_HOPRANKINC :: u16 where "DEFAULT_MIN_HOPRANKINC = 256"
definition RPL_MAX_DAG_ENTRIES :: nat where "RPL_MAX_DAG_ENTRIES = 4"
definition RPL_MAX_PARENTS :: nat where "RPL_MAX_PARENTS = 20"
definition RPL_MAX_DAG_P2P_ENTRIES :: nat where "RPL_MAX_DAG_P2P_ENTRIES = 3"
definition RPL_MAX_SRC_ROUTE_ADDR_ENTRIES :: nat where "RPL_MAX_SRC_ROUTE_ADDR_ENTRIES = 20"
definition RPL_P2P_MAX_PARTIAL_ROUTES :: nat where "RPL_P2P_MAX_PARTIAL_ROUTES = 3"
definition RPL_P2P_RDO_COMPR :: u8 where "RPL_P2P_RDO_COMPR = 15"
definition RPL_MAX_DRO_CACHE_ENTRIES :: nat where "RPL_MAX_DRO_CACHE_ENTRIES = 2"
definition RPL_DRO_CACHE_ENTRY_SIZE :: nat where "RPL_DRO_CACHE_ENTRY_SIZE = 64"

text \<open>\<open>CLOCK_SECOND\<close> is 128UL and \<open>INITIAL_LINK_METRIC\<close> is \<open>NEIGHBOR_INFO_ETX2FIX(5)\<close>.\<close>

definition CLOCK_SECOND :: u32 where "CLOCK_SECOND = 128"
definition INITIAL_LINK_METRIC :: u8 where "INITIAL_LINK_METRIC = 5 * 16"

definition NEIGHBOR_INFO_FIX2ETX :: "u8 \<Rightarrow> u8" where "NEIGHBOR_INFO_FIX2ETX x = x div 16"

text \<open>Message and option types.\<close>

definition RPL_CODE_DIS :: u8 where "RPL_CODE_DIS = 0"
definition RPL_CODE_DIO :: u8 where "RPL_CODE_DIO = 1"
definition RPL_CODE_DAO :: u8 where "RPL_CODE_DAO = 2"
definition RPL_CODE_DAO_ACK :: u8 where "RPL_CODE_DAO_ACK = 3"
definition RPL_CODE_DRO :: u8 where "RPL_CODE_DRO = 4"
definition RPL_CODE_DRO_ACK :: u8 where "RPL_CODE_DRO_ACK = 5"
definition RPL_CODE_MO :: u8 where "RPL_CODE_MO = 6"
definition RPL_OPTION_PAD1 :: u8 where "RPL_OPTION_PAD1 = 0"
definition RPL_OPTION_DAG_METRIC_CONTAINER :: u8 where "RPL_OPTION_DAG_METRIC_CONTAINER = 2"
definition RPL_OPTION_ROUTE_INFO :: u8 where "RPL_OPTION_ROUTE_INFO = 3"
definition RPL_OPTION_DAG_CONF :: u8 where "RPL_OPTION_DAG_CONF = 4"
definition RPL_OPTION_TARGET :: u8 where "RPL_OPTION_TARGET = 5"
definition RPL_OPTION_TRANSIT :: u8 where "RPL_OPTION_TRANSIT = 6"
definition RPL_OPTION_PREFIX_INFO :: u8 where "RPL_OPTION_PREFIX_INFO = 8"
definition RPL_DIO_SUBOPT_ROUTE_DISCOVERY :: u8 where "RPL_DIO_SUBOPT_ROUTE_DISCOVERY = 10"

lemmas rpl_consts = RPL_DAG_MC_NONE_def RPL_DAG_MC_ENERGY_def RPL_DAG_MC_ETX_def RPL_DAG_MC_FLAG_P_def
  RPL_DAG_MC_FLAG_C_def RPL_MOP_NO_DOWNWARD_ROUTES_def RPL_MOP_NON_STORING_def RPL_MOP_DEFAULT_def
  RPL_MOP_P2P_ROUTE_DISCOVERY_def RPL_DEFAULT_INSTANCE_def RPL_LOCAL_DEFAULT_INSTANCE_def
  INFINITE_RANK_def DEFAULT_MIN_HOPRANKINC_def RPL_P2P_RDO_COMPR_def CLOCK_SECOND_def
  INITIAL_LINK_METRIC_def NEIGHBOR_INFO_FIX2ETX_def

lemmas rpl_sizes = RPL_MAX_DAG_ENTRIES_def RPL_MAX_PARENTS_def RPL_MAX_DAG_P2P_ENTRIES_def
  RPL_MAX_SRC_ROUTE_ADDR_ENTRIES_def RPL_P2P_MAX_PARTIAL_ROUTES_def RPL_MAX_DRO_CACHE_ENTRIES_def
  RPL_DRO_CACHE_ENTRY_SIZE_def

lemmas rpl_codes = RPL_CODE_DIS_def RPL_CODE_DIO_def RPL_CODE_DAO_def RPL_CODE_DAO_ACK_def RPL_CODE_DRO_def
  RPL_CODE_DRO_ACK_def RPL_CODE_MO_def RPL_OPTION_PAD1_def RPL_OPTION_DAG_METRIC_CONTAINER_def
  RPL_OPTION_ROUTE_INFO_def RPL_OPTION_DAG_CONF_def RPL_OPTION_TARGET_def RPL_OPTION_TRANSIT_def
  RPL_OPTION_PREFIX_INFO_def RPL_DIO_SUBOPT_ROUTE_DISCOVERY_def

section \<open>Structures\<close>

text \<open>The union \<open>obj\<close> is its two bytes: \<open>obj.etx\<close> as a little-endian word, \<open>obj.energy\<close>
  as the low byte (flags) and the high byte (estimate).\<close>

record metric_container =
  mc_type :: u8
  mc_flags :: u8
  mc_aggr :: u8
  mc_prec :: u8
  mc_length :: u8
  mc_obj :: u16

definition mc_energy_flags :: "metric_container \<Rightarrow> u8" where
  "mc_energy_flags m = ucast (mc_obj m)"

definition mc_energy_est :: "metric_container \<Rightarrow> u8" where
  "mc_energy_est m = ucast (drop_bit 8 (mc_obj m))"

record dodag_config =
  cf_dio_intdoubl :: u8
  cf_dio_intmin :: u8
  cf_dio_redund :: u8
  cf_max_rankinc :: u16
  cf_min_hoprankinc :: u16
  cf_ocp :: u16
  cf_default_lifetime :: u8
  cf_lifetime_unit :: u16

definition DEFAULT_DODAG_CONFIG :: dodag_config where
  "DEFAULT_DODAG_CONFIG = \<lparr>cf_dio_intdoubl = 8, cf_dio_intmin = 12, cf_dio_redund = 10,
     cf_max_rankinc = 3 * 256, cf_min_hoprankinc = 256, cf_ocp = 1, cf_default_lifetime = 0xff,
     cf_lifetime_unit = 2\<rparr>"

definition P2P_DEFAULT_DODAG_CONFIG :: dodag_config where
  "P2P_DEFAULT_DODAG_CONFIG = \<lparr>cf_dio_intdoubl = 16, cf_dio_intmin = 6, cf_dio_redund = 1,
     cf_max_rankinc = 0, cf_min_hoprankinc = 256, cf_ocp = 1, cf_default_lifetime = 0xff,
     cf_lifetime_unit = 2\<rparr>"

record rpl_prefix =
  pf_prefix :: ipaddr
  pf_lifetime :: u32
  pf_length :: u8
  pf_flags :: u8

record rpl_parent =
  p_dag :: nat
  p_mc :: metric_container
  p_addr :: ipaddr
  p_rank :: u16
  p_link_metric :: u8
  p_dtsn :: u8
  p_updated :: bool

text \<open>A callback timer: the function it calls, its interval, and whether it is scheduled
  (its event timer has not expired). The callback's argument is the object the timer is in.\<close>

datatype timer_fn = Handle_periodic_timer | Handle_dio_timer | Handle_dao_timer | Send_dros | Dro_rexmit

record ctimer =
  ct_f :: "timer_fn option"
  ct_interval :: u32
  ct_active :: bool

definition ctimer_set :: "u32 \<Rightarrow> timer_fn \<Rightarrow> ctimer \<Rightarrow> ctimer" where
  "ctimer_set t f c = c\<lparr>ct_f := Some f, ct_interval := t, ct_active := True\<rparr>"

definition ctimer_stop :: "ctimer \<Rightarrow> ctimer" where
  "ctimer_stop c = c\<lparr>ct_active := False\<rparr>"

definition ctimer_reset :: "ctimer \<Rightarrow> ctimer" where
  "ctimer_reset c = c\<lparr>ct_active := True\<rparr>"

text \<open>The objective functions linked into the image: \<open>objective_functions\<close> is
  \<open>{&rpl_of_etx}\<close>.\<close>

datatype rpl_of = Rpl_of_etx

record rpl_dag =
  d_mc :: metric_container
  d_of :: "rpl_of option"
  d_dag_id :: ipaddr
  d_def_route :: "nat option"
  d_rank :: u16
  d_min_rank :: u16
  d_dtsn_out :: u8
  d_instance_id :: u8
  d_version :: u8
  d_grounded :: u8
  d_mop :: u8
  d_preference :: u8
  d_config :: dodag_config
  d_used :: bool
  d_joined :: bool
  d_dio_intcurrent :: u8
  d_dio_send :: bool
  d_dio_counter :: u8
  d_dio_next_delay :: u32
  d_dio_timer :: ctimer
  d_dao_timer :: ctimer
  d_preferred_parent :: "nat option"
  d_parents :: "nat list"
  d_prefix_info :: rpl_prefix
  d_p2p :: "nat option"

record rpl_dag_p2p =
  q_dag :: "nat option"
  q_process :: "nat option"
  q_both_directions :: u8
  q_hop_by_hop :: u8
  q_num_routes :: u8
  q_rdo_lifetime :: u8
  q_max_rank :: u8
  q_lifetime :: u16
  q_expired :: bool
  q_compr :: u8
  q_dro_seq :: u8
  q_dro_timer :: ctimer
  q_target :: bytes
  q_constr :: metric_container
  q_partial_routes :: "nat list list"

record dro_cache_entry =
  c_rexmits :: u8
  c_timer :: ctimer
  c_length :: u8
  c_buffer :: bytes

text \<open>A parsed route discovery option. \<open>rd_target\<close> and \<open>rd_addrs\<close> are the bytes that the
  pointers \<open>target\<close> and \<open>addr_start\<close> give access to.\<close>

record rpl_dio_rdo =
  rd_both_directions :: u8
  rd_num_routes :: u8
  rd_compr :: u8
  rd_hop_by_hop :: u8
  rd_lifetime :: u8
  rd_max_rank :: u8
  rd_target :: "nat \<Rightarrow> u8"
  rd_addrs :: "nat \<Rightarrow> u8"
  rd_addr_len :: u8

record rpl_dio =
  o_dag_id :: ipaddr
  o_rank :: u16
  o_grounded :: u8
  o_mop :: u8
  o_preference :: u8
  o_version :: u8
  o_instance_id :: u8
  o_dtsn :: u8
  o_dodag_config :: "dodag_config option"
  o_route_info :: "rpl_prefix option"
  o_prefix_info :: "rpl_prefix option"
  o_mc :: metric_container
  o_rdo :: "rpl_dio_rdo option"
  o_constr :: "metric_container option"

section \<open>The state of a node\<close>

text \<open>\<open>ni_metric\<close> is \<open>neighbor_info_get_metric\<close> of a link-layer address, \<open>process_cur\<close> is
  \<open>PROCESS_CURRENT()\<close>.\<close>

record node = ds6 +
  dag_table :: "rpl_dag list"
  parent_mem :: "rpl_parent list"
  parent_cnt :: "u8 list"
  dag_p2p_table :: "rpl_dag_p2p list"
  p2p_addr_mem :: "bytes list"
  p2p_addr_cnt :: "u8 list"
  p2p_instance :: u8
  dro_cache_mem :: "dro_cache_entry list"
  dro_cache_cnt :: "u8 list"
  dro_cache :: "nat list"
  dao_sequence :: u8
  mo_sequence :: u8
  mo_processes :: "nat option list"
  dio_send_ok :: bool
  periodic_timer :: ctimer
  process_cur :: "nat option"
  ni_metric :: "bytes \<Rightarrow> u8"

definition DAG :: "node \<Rightarrow> nat \<Rightarrow> rpl_dag" where "DAG s d = dag_table s ! d"
definition PAR :: "node \<Rightarrow> nat \<Rightarrow> rpl_parent" where "PAR s p = parent_mem s ! p"
definition P2P :: "node \<Rightarrow> nat \<Rightarrow> rpl_dag_p2p" where "P2P s q = dag_p2p_table s ! q"

definition upd_dag :: "nat \<Rightarrow> (rpl_dag \<Rightarrow> rpl_dag) \<Rightarrow> node \<Rightarrow> node" where
  "upd_dag d f s = s\<lparr>dag_table := updf d f (dag_table s)\<rparr>"

definition upd_par :: "nat \<Rightarrow> (rpl_parent \<Rightarrow> rpl_parent) \<Rightarrow> node \<Rightarrow> node" where
  "upd_par p f s = s\<lparr>parent_mem := updf p f (parent_mem s)\<rparr>"

definition upd_p2p :: "nat \<Rightarrow> (rpl_dag_p2p \<Rightarrow> rpl_dag_p2p) \<Rightarrow> node \<Rightarrow> node" where
  "upd_p2p q f s = s\<lparr>dag_p2p_table := updf q f (dag_p2p_table s)\<rparr>"

text \<open>\<open>DAG_RANK\<close> and \<open>ROOT_RANK\<close>. Where the code divides by \<open>min_hoprankinc\<close> the model
  calls \<open>chk_rank\<close>, which records a division by zero.\<close>

definition DAG_RANK :: "u16 \<Rightarrow> rpl_dag \<Rightarrow> u16" where
  "DAG_RANK r D = r div cf_min_hoprankinc (d_config D)"

definition ROOT_RANK :: "rpl_dag \<Rightarrow> u16" where
  "ROOT_RANK D = cf_min_hoprankinc (d_config D)"

definition chk_rank :: "nat \<Rightarrow> node \<Rightarrow> node" where
  "chk_rank d s = (if cf_min_hoprankinc (d_config (DAG s d)) = 0 then set_fault s else s)"

text \<open>\<open>RPL_LIFETIME(dag, lifetime)\<close> is computed as an \<open>unsigned long\<close>.\<close>

definition RPL_LIFETIME :: "rpl_dag \<Rightarrow> u8 \<Rightarrow> u32" where
  "RPL_LIFETIME D l = ucast (cf_lifetime_unit (d_config D)) * ucast l"

text \<open>Records filled with zeros by \<open>memset\<close>.\<close>

definition mc0 :: metric_container where
  "mc0 = \<lparr>mc_type = 0, mc_flags = 0, mc_aggr = 0, mc_prec = 0, mc_length = 0, mc_obj = 0\<rparr>"
definition config0 :: dodag_config where
  "config0 = \<lparr>cf_dio_intdoubl = 0, cf_dio_intmin = 0, cf_dio_redund = 0, cf_max_rankinc = 0,
     cf_min_hoprankinc = 0, cf_ocp = 0, cf_default_lifetime = 0, cf_lifetime_unit = 0\<rparr>"
definition rpl_prefix0 :: rpl_prefix where
  "rpl_prefix0 = \<lparr>pf_prefix = replicate 16 0, pf_lifetime = 0, pf_length = 0, pf_flags = 0\<rparr>"
definition ctimer0 :: ctimer where
  "ctimer0 = \<lparr>ct_f = None, ct_interval = 0, ct_active = False\<rparr>"
definition parent0 :: rpl_parent where
  "parent0 = \<lparr>p_dag = 0, p_mc = mc0, p_addr = replicate 16 0, p_rank = 0, p_link_metric = 0,
     p_dtsn = 0, p_updated = False\<rparr>"
definition dag0 :: rpl_dag where
  "dag0 = \<lparr>d_mc = mc0, d_of = None, d_dag_id = replicate 16 0, d_def_route = None, d_rank = 0,
     d_min_rank = 0, d_dtsn_out = 0, d_instance_id = 0, d_version = 0, d_grounded = 0, d_mop = 0,
     d_preference = 0, d_config = config0, d_used = False, d_joined = False, d_dio_intcurrent = 0,
     d_dio_send = False, d_dio_counter = 0, d_dio_next_delay = 0, d_dio_timer = ctimer0,
     d_dao_timer = ctimer0, d_preferred_parent = None, d_parents = [], d_prefix_info = rpl_prefix0,
     d_p2p = None\<rparr>"
definition p2p0 :: rpl_dag_p2p where
  "p2p0 = \<lparr>q_dag = None, q_process = None, q_both_directions = 0, q_hop_by_hop = 0, q_num_routes = 0,
     q_rdo_lifetime = 0, q_max_rank = 0, q_lifetime = 0, q_expired = False, q_compr = 0, q_dro_seq = 0,
     q_dro_timer = ctimer0, q_target = [0], q_constr = mc0,
     q_partial_routes = replicate RPL_P2P_MAX_PARTIAL_ROUTES []\<rparr>"
definition dro0 :: dro_cache_entry where
  "dro0 = \<lparr>c_rexmits = 0, c_timer = ctimer0, c_length = 0, c_buffer = replicate RPL_DRO_CACHE_ENTRY_SIZE 0\<rparr>"

lemmas rpl_zero = mc0_def config0_def rpl_prefix0_def ctimer0_def parent0_def dag0_def p2p0_def dro0_def

text \<open>The memory of a node before the program starts: static data is zero, and the pools
  hold free blocks.\<close>

definition node0 :: "bytes \<Rightarrow> node" where
  "node0 ll =
     \<lparr>nbr_cache = replicate UIP_DS6_NBR_NB nbr0, defrt_list = replicate UIP_DS6_DEFRT_NB defrt0,
      prefix_list = replicate UIP_DS6_PREFIX_NB prefix0, addr_list = replicate UIP_DS6_ADDR_NB addr_entry0,
      aaddr_list = replicate UIP_DS6_AADDR_NB maddr0, maddr_list = replicate UIP_DS6_MADDR_NB maddr0,
      routing_table = replicate UIP_DS6_ROUTE_NB route0,
      src_routing_table = replicate UIP_DS6_SRC_ROUTE_NB src_route0,
      src_addr_cnt = replicate UIP_DS6_SRC_ROUTE_ADDR_NB 0,
      src_addr_mem = replicate UIP_DS6_SRC_ROUTE_ADDR_NB addr0,
      link_mtu = 0, cur_hop_limit = 0, base_reachable_time = 0, reachable_time = 0, retrans_timer = 0,
      maxdadns = 0, lladdr = ll, clk = 0, secs = 0, rand_state = 1, outbox = [], fault = False,
      dag_table = replicate RPL_MAX_DAG_ENTRIES dag0,
      parent_mem = replicate RPL_MAX_PARENTS parent0, parent_cnt = replicate RPL_MAX_PARENTS 0,
      dag_p2p_table = replicate RPL_MAX_DAG_P2P_ENTRIES p2p0,
      p2p_addr_mem = replicate RPL_MAX_SRC_ROUTE_ADDR_ENTRIES [0],
      p2p_addr_cnt = replicate RPL_MAX_SRC_ROUTE_ADDR_ENTRIES 0,
      p2p_instance = 0,
      dro_cache_mem = replicate RPL_MAX_DRO_CACHE_ENTRIES dro0,
      dro_cache_cnt = replicate RPL_MAX_DRO_CACHE_ENTRIES 0, dro_cache = [],
      dao_sequence = 0, mo_sequence = 0, mo_processes = [None, None, None], dio_send_ok = False,
      periodic_timer = ctimer0, process_cur = None, ni_metric = (\<lambda>_. 16)\<rparr>"

section \<open>Updates\<close>

lemma DAG_upd_dag [simp]:
  "d < length (dag_table s) \<Longrightarrow> DAG (upd_dag d f s) d = f (DAG s d)"
  "e \<noteq> d \<Longrightarrow> DAG (upd_dag d f s) e = DAG s e"
  by (simp_all add: DAG_def upd_dag_def)

lemma DAG_frames [simp]:
  "DAG (upd_par p g s) d = DAG s d" "DAG (upd_p2p q h s) d = DAG s d"
  "DAG (set_fault s) d = DAG s d" "DAG (emit m s) d = DAG s d"
  by (simp_all add: DAG_def upd_par_def upd_p2p_def set_fault_def emit_def)

lemma PAR_upd_par [simp]:
  "p < length (parent_mem s) \<Longrightarrow> PAR (upd_par p f s) p = f (PAR s p)"
  "e \<noteq> p \<Longrightarrow> PAR (upd_par p f s) e = PAR s e"
  by (simp_all add: PAR_def upd_par_def)

lemma PAR_frames [simp]:
  "PAR (upd_dag d f s) p = PAR s p" "PAR (upd_p2p q h s) p = PAR s p"
  "PAR (set_fault s) p = PAR s p" "PAR (emit m s) p = PAR s p"
  by (simp_all add: PAR_def upd_dag_def upd_p2p_def set_fault_def emit_def)

lemma upd_lengths [simp]:
  "length (dag_table (upd_dag d f s)) = length (dag_table s)"
  "length (parent_mem (upd_par p g s)) = length (parent_mem s)"
  "length (dag_p2p_table (upd_p2p q h s)) = length (dag_p2p_table s)"
  by (simp_all add: upd_dag_def upd_par_def upd_p2p_def)

end
