(* ===== verification/Contiki_Ctimer_Laws.thy ===== *)
theory Contiki_Ctimer_Laws
  imports Contiki_Ctimer Rpl_Types
begin

text \<open>
  Callback timers refine the timers of the RPL model, where a timer is only its function,
  its interval and whether it is set (\<open>ctimer\<close> of Rpl_Types).
\<close>

section \<open>Abstraction\<close>

text \<open>
  The list of the library holds \<open>cs\<close>, the event timers are well-formed. \<open>dec\<close> reads a
  function pointer and its argument as the name of the timer function.
\<close>

definition ctimers :: "'z ctimer_state_scheme \<Rightarrow> nat list \<Rightarrow> bool" where
  "ctimers m cs \<longleftrightarrow> is_list (cb_list m) () cs \<and> (\<exists>xs. timers m xs \<and> owned m xs)"

definition ctimer_abs :: "(nat \<Rightarrow> nat \<Rightarrow> timer_fn) \<Rightarrow> 'z ctimer_state_scheme \<Rightarrow> nat list \<Rightarrow> nat \<Rightarrow> ctimer" where
  "ctimer_abs dec m cs c =
     \<lparr>ct_f = map_option (\<lambda>f. dec f (cb_ptr m c)) (cb_f m c), ct_interval = interval (et_timer m c), ct_active = c \<in> set cs\<rparr>"

lemma more_cong:
  assumes "etimer_state.more m = etimer_state.more (m' :: 'z ctimer_state_scheme)"
  shows "cb_list m = cb_list m'" "cb_initialized m = cb_initialized m'" "cb_p m = cb_p m'" "cb_f m = cb_f m'" "cb_ptr m = cb_ptr m'"
  using assms by (cases m; cases m'; simp)+

lemma enlist_result:
  assumes "is_list (cb_list (memory s)) () cs"
  shows "\<exists>h. ctimer_enlist c s = Some (s\<lparr>memory := (memory s)\<lparr>cb_list := h\<rparr>\<rparr>) \<and> is_list h () (remove1 c cs @ [c])"
proof -
  from clist.remove_law [OF assms, of c] obtain h1 where
    h1: "list_remove () c (cb_list (memory s)) = Some h1" "is_list h1 () (remove1 c cs)" by blast
  from clist.add_law [OF h1(2), of c] obtain h2 where
    h2: "list_add () c h1 = Some h2" "is_list h2 () (lst_add (remove1 c cs) c)" by blast
  have "distinct cs" using assms by (rule is_list_distinct)
  then have "lst_add (remove1 c cs) c = remove1 c cs @ [c]" by (simp add: lst_add_def)
  with h1 h2 show ?thesis by (auto simp: ctimer_enlist_def on_list_def in_memory_def)
qed

lemma unlist_result:
  assumes "is_list (cb_list (memory s)) () cs"
  shows "\<exists>h. on_list (list_remove () c) s = Some (s\<lparr>memory := (memory s)\<lparr>cb_list := h\<rparr>\<rparr>) \<and> is_list h () (remove1 c cs)"
  using clist.remove_law [OF assms, of c] by (auto simp: on_list_def in_memory_def)

text \<open>Setting the event timer in the context of \<open>ctimer_process\<close>, which is its owner then.\<close>

lemma in_context_timer:
  fixes s :: "'z ctimer_state_scheme kernel"
  assumes "timers (memory s) xs" "owned (memory s) xs"
  shows "\<exists>m ys. in_context (Some ctimer_process) (\<lambda>s. add_timer now c (set_timer c f s)) s
      = Some ((etimer_request_poll s)\<lparr>memory := m\<rparr>)
    \<and> timers m ys \<and> owned m ys \<and> et_timer m = (et_timer (memory s))(c := f (et_timer (memory s) c))
    \<and> etimer_state.more m = etimer_state.more (memory s)"
proof -
  let ?u = "s\<lparr>process_current := Some ctimer_process\<rparr>"
  have "timers (memory ?u) xs" "owned (memory ?u) xs" "process_current ?u \<noteq> None" using assms by simp_all
  from timer_op_result [OF this, of now c f] obtain m where
    m: "add_timer now c (set_timer c f ?u) = Some ((etimer_request_poll ?u)\<lparr>memory := m\<rparr>)"
      "timers m (if c \<in> set xs then xs else c # xs)" "owned m (if c \<in> set xs then xs else c # xs)"
      "et_timer m = (et_timer (memory s))(c := f (et_timer (memory s) c))" "etimer_state.more m = etimer_state.more (memory s)"
    by auto
  have "(etimer_request_poll ?u)\<lparr>memory := m, process_current := process_current s\<rparr> = (etimer_request_poll s)\<lparr>memory := m\<rparr>"
    by (simp add: etimer_request_poll_def process_poll_def)
  with m show ?thesis by (auto simp: in_context_def)
qed

lemma ctimer_timed:
  fixes s :: "'z ctimer_state_scheme kernel"
  assumes "ctimers (memory s) cs"
  shows "\<exists>s'. Option.bind (in_context (Some ctimer_process) (\<lambda>s. add_timer now c (set_timer c f s)) s) (ctimer_enlist c) = Some s'
    \<and> ctimers (memory s') (remove1 c cs @ [c]) \<and> et_timer (memory s') = (et_timer (memory s))(c := f (et_timer (memory s) c))
    \<and> cb_f (memory s') = cb_f (memory s) \<and> cb_ptr (memory s') = cb_ptr (memory s) \<and> cb_p (memory s') = cb_p (memory s)"
proof -
  from assms obtain xs where l: "is_list (cb_list (memory s)) () cs" and x: "timers (memory s) xs" "owned (memory s) xs"
    unfolding ctimers_def by blast
  from in_context_timer [OF x, of now c f] obtain m ys where
    m: "in_context (Some ctimer_process) (\<lambda>s. add_timer now c (set_timer c f s)) s = Some ((etimer_request_poll s)\<lparr>memory := m\<rparr>)"
      "timers m ys" "owned m ys" "et_timer m = (et_timer (memory s))(c := f (et_timer (memory s) c))"
      "etimer_state.more m = etimer_state.more (memory s)" by blast
  let ?s1 = "(etimer_request_poll s)\<lparr>memory := m\<rparr>"
  note mc = more_cong [OF m(5)]
  have "is_list (cb_list (memory ?s1)) () cs" using l mc(1) by simp
  from enlist_result [OF this, of c] obtain h where
    h: "ctimer_enlist c ?s1 = Some (?s1\<lparr>memory := (memory ?s1)\<lparr>cb_list := h\<rparr>\<rparr>)" "is_list h () (remove1 c cs @ [c])" by blast
  have "timers (m\<lparr>cb_list := h\<rparr>) ys" "owned (m\<lparr>cb_list := h\<rparr>) ys" using m(2,3) by (simp_all add: timers_def owned_def)
  with h m(1,4) mc show ?thesis by (auto simp: ctimers_def)
qed

lemma abs_other: "et_timer m' d = et_timer m d \<Longrightarrow> cb_f m' d = cb_f m d \<Longrightarrow> cb_ptr m' d = cb_ptr m d \<Longrightarrow> d \<noteq> c
    \<Longrightarrow> ctimer_abs dec m' (remove1 c cs @ [c]) d = ctimer_abs dec m cs d"
  by (simp add: ctimer_abs_def)

lemma ctimer_set_refines:
  fixes s :: "'z ctimer_state_scheme kernel"
  assumes "ctimers (memory s) cs" "cb_initialized (memory s)"
  shows "\<exists>s' cs'. Contiki_Ctimer.ctimer_set now c t (Some f) ptr s = Some s' \<and> ctimers (memory s') cs'
    \<and> ctimer_abs dec (memory s') cs' c = Rpl_Types.ctimer_set t (dec f ptr) (ctimer_abs dec (memory s) cs c)
    \<and> (\<forall>d. d \<noteq> c \<longrightarrow> ctimer_abs dec (memory s') cs' d = ctimer_abs dec (memory s) cs d)
    \<and> cb_p (memory s') c = process_current s"
proof -
  let ?m = "memory s"
  let ?s = "s\<lparr>memory := ?m\<lparr>cb_p := (cb_p ?m)(c := process_current s), cb_f := (cb_f ?m)(c := Some f), cb_ptr := (cb_ptr ?m)(c := ptr)\<rparr>\<rparr>"
  have "ctimers (memory ?s) cs" using assms(1) by (simp add: ctimers_def timers_def owned_def)
  from ctimer_timed [OF this, of now c "timer_set now t"] obtain s' where
    s': "Option.bind (in_context (Some ctimer_process) (\<lambda>s. add_timer now c (set_timer c (timer_set now t) s)) ?s) (ctimer_enlist c) = Some s'"
      "ctimers (memory s') (remove1 c cs @ [c])" "et_timer (memory s') = (et_timer ?m)(c := timer_set now t (et_timer ?m c))"
      "cb_f (memory s') = (cb_f ?m)(c := Some f)" "cb_ptr (memory s') = (cb_ptr ?m)(c := ptr)"
      "cb_p (memory s') = (cb_p ?m)(c := process_current s)" by auto
  have "Contiki_Ctimer.ctimer_set now c t (Some f) ptr s = Some s'"
    using s'(1) assms(2) by (simp add: Contiki_Ctimer.ctimer_set_def etimer_set_def [abs_def] Let_def)
  moreover have "ctimer_abs dec (memory s') (remove1 c cs @ [c]) c = Rpl_Types.ctimer_set t (dec f ptr) (ctimer_abs dec ?m cs c)"
    using s'(3-5) by (simp add: ctimer_abs_def Rpl_Types.ctimer_set_def timer_set_def)
  moreover have "\<forall>d. d \<noteq> c \<longrightarrow> ctimer_abs dec (memory s') (remove1 c cs @ [c]) d = ctimer_abs dec ?m cs d"
    using s'(3-5) by (simp add: abs_other)
  ultimately show ?thesis using s'(2,6) by auto
qed

lemma ctimer_reset_refines:
  fixes s :: "'z ctimer_state_scheme kernel"
  assumes "ctimers (memory s) cs" "cb_initialized (memory s)"
  shows "\<exists>s' cs'. Contiki_Ctimer.ctimer_reset now c s = Some s' \<and> ctimers (memory s') cs'
    \<and> ctimer_abs dec (memory s') cs' c = Rpl_Types.ctimer_reset (ctimer_abs dec (memory s) cs c)
    \<and> (\<forall>d. d \<noteq> c \<longrightarrow> ctimer_abs dec (memory s') cs' d = ctimer_abs dec (memory s) cs d)"
proof -
  from ctimer_timed [OF assms(1), of now c timer_reset] obtain s' where
    s': "Option.bind (in_context (Some ctimer_process) (\<lambda>s. add_timer now c (set_timer c timer_reset s)) s) (ctimer_enlist c) = Some s'"
      "ctimers (memory s') (remove1 c cs @ [c])" "et_timer (memory s') = (et_timer (memory s))(c := timer_reset (et_timer (memory s) c))"
      "cb_f (memory s') = cb_f (memory s)" "cb_ptr (memory s') = cb_ptr (memory s)" by blast
  have "Contiki_Ctimer.ctimer_reset now c s = Some s'"
    using s'(1) assms(2) by (simp add: Contiki_Ctimer.ctimer_reset_def etimer_reset_def [abs_def])
  moreover have "ctimer_abs dec (memory s') (remove1 c cs @ [c]) c = Rpl_Types.ctimer_reset (ctimer_abs dec (memory s) cs c)"
    using s'(3-5) by (simp add: ctimer_abs_def Rpl_Types.ctimer_reset_def timer_reset_def)
  moreover have "\<forall>d. d \<noteq> c \<longrightarrow> ctimer_abs dec (memory s') (remove1 c cs @ [c]) d = ctimer_abs dec (memory s) cs d"
    using s'(3-5) by (simp add: abs_other)
  ultimately show ?thesis using s'(2) by blast
qed

lemma ctimer_stop_refines:
  fixes s :: "'z ctimer_state_scheme kernel"
  assumes "ctimers (memory s) cs" "cb_initialized (memory s)"
  shows "\<exists>s' cs'. Contiki_Ctimer.ctimer_stop now c s = Some s' \<and> ctimers (memory s') cs'
    \<and> ctimer_abs dec (memory s') cs' c = Rpl_Types.ctimer_stop (ctimer_abs dec (memory s) cs c)
    \<and> (\<forall>d. d \<noteq> c \<longrightarrow> ctimer_abs dec (memory s') cs' d = ctimer_abs dec (memory s) cs d)"
proof -
  let ?m = "memory s"
  from assms(1) obtain xs where l: "is_list (cb_list ?m) () cs" and x: "timers ?m xs" "owned ?m xs"
    unfolding ctimers_def by blast
  from etimer_stop_result [OF x(1), of now c] obtain m where
    m: "etimer_stop now c ?m = Some m" "timers m (remove1 c xs)" "et_timer m = et_timer ?m"
      "et_p m = (et_p ?m)(c := None)" "etimer_state.more m = etimer_state.more ?m" by blast
  note mc = more_cong [OF m(5)]
  let ?s1 = "s\<lparr>memory := m\<rparr>"
  have "is_list (cb_list (memory ?s1)) () cs" using l mc(1) by simp
  from unlist_result [OF this, of c] obtain h where
    h: "on_list (list_remove () c) ?s1 = Some (?s1\<lparr>memory := m\<lparr>cb_list := h\<rparr>\<rparr>)" "is_list h () (remove1 c cs)" by auto
  have "distinct xs" using x(1) by (simp add: timers_def)
  then have "owned m (remove1 c xs)" using x(2) m(4) by (auto simp: owned_def)
  then have ok: "ctimers (m\<lparr>cb_list := h\<rparr>) (remove1 c cs)" using m(2) h(2) by (auto simp: ctimers_def timers_def owned_def)
  have "Contiki_Ctimer.ctimer_stop now c s = Some (?s1\<lparr>memory := m\<lparr>cb_list := h\<rparr>\<rparr>)"
    using h(1) m(1) assms(2) by (simp add: Contiki_Ctimer.ctimer_stop_def in_memory_def)
  moreover have "distinct cs" using l by (rule is_list_distinct)
  ultimately show ?thesis using ok m(3) mc
    by (intro exI [of _ "?s1\<lparr>memory := m\<lparr>cb_list := h\<rparr>\<rparr>"] exI [of _ "remove1 c cs"])
      (auto simp: ctimer_abs_def Rpl_Types.ctimer_stop_def)
qed

text \<open>The event of a listed timer runs its function once, as the process that set it, with the
  timer off the list; the event of any other timer does nothing.\<close>

lemma ctimer_event:
  fixes s :: "'z ctimer_state_scheme kernel"
  assumes l: "is_list (cb_list (memory s)) () cs" and pt: "pt \<noteq> 0"
  shows "\<exists>h s1. s1 = s\<lparr>memory := (memory s)\<lparr>cb_list := h\<rparr>\<rparr> \<and> is_list h () (remove1 c cs)
    \<and> ctimer_thread cb now pt PROCESS_EVENT_TIMER (TimerData c) s
        = Some (if c \<in> set cs
            then (case cb_f (memory s) c of
                    Some f \<Rightarrow> (cb f (cb_ptr (memory s) c) (s1\<lparr>process_current := cb_p (memory s) c\<rparr>))\<lparr>process_current := process_current s\<rparr>
                  | None \<Rightarrow> s1)
            else s)"
proof -
  let ?m = "memory s"
  from unlist_result [OF l, of c] obtain h where
    h: "on_list (list_remove () c) s = Some (s\<lparr>memory := ?m\<lparr>cb_list := h\<rparr>\<rparr>)" "is_list h () (remove1 c cs)" by blast
  let ?s1 = "s\<lparr>memory := ?m\<lparr>cb_list := h\<rparr>\<rparr>"
  have "find_link (nxt (cb_list ?m)) (list_head () (cb_list ?m)) c = Some (c \<in> set cs)"
    using l by (simp add: list_head_def is_list_def find_link_path)
  then have "ctimer_thread cb now pt PROCESS_EVENT_TIMER (TimerData c) s = (if c \<in> set cs then run_callback cb c s else Some s)"
    using pt by (simp add: ctimer_thread_def)
  moreover have "run_callback cb c s = Some (case cb_f ?m c of
                    Some f \<Rightarrow> (cb f (cb_ptr ?m c) (?s1\<lparr>process_current := cb_p ?m c\<rparr>))\<lparr>process_current := process_current s\<rparr>
                  | None \<Rightarrow> ?s1)"
    by (simp add: run_callback_def h(1) in_context_def split: option.split)
  ultimately show ?thesis using h(2) by (intro exI [of _ h] exI [of _ ?s1]) auto
qed

lemma ctimer_fires:
  fixes s :: "'z ctimer_state_scheme kernel"
  assumes "ctimers (memory s) cs" "pt \<noteq> 0"
  shows "\<exists>s1. ctimers (memory s1) (remove1 c cs)
    \<and> ctimer_abs dec (memory s1) (remove1 c cs) c = Rpl_Types.ctimer_stop (ctimer_abs dec (memory s) cs c)
    \<and> (\<forall>d. d \<noteq> c \<longrightarrow> ctimer_abs dec (memory s1) (remove1 c cs) d = ctimer_abs dec (memory s) cs d)
    \<and> ctimer_thread cb now pt PROCESS_EVENT_TIMER (TimerData c) s
        = Some (if c \<in> set cs
            then (case cb_f (memory s) c of
                    Some f \<Rightarrow> (cb f (cb_ptr (memory s) c) (s1\<lparr>process_current := cb_p (memory s) c\<rparr>))\<lparr>process_current := process_current s\<rparr>
                  | None \<Rightarrow> s1)
            else s)"
proof -
  from assms(1) obtain xs where l: "is_list (cb_list (memory s)) () cs" and x: "timers (memory s) xs" "owned (memory s) xs"
    unfolding ctimers_def by blast
  from ctimer_event [OF l assms(2), of c cb now] obtain h s1 where
    s1: "s1 = s\<lparr>memory := (memory s)\<lparr>cb_list := h\<rparr>\<rparr>" "is_list h () (remove1 c cs)"
    and e: "ctimer_thread cb now pt PROCESS_EVENT_TIMER (TimerData c) s
        = Some (if c \<in> set cs
            then (case cb_f (memory s) c of
                    Some f \<Rightarrow> (cb f (cb_ptr (memory s) c) (s1\<lparr>process_current := cb_p (memory s) c\<rparr>))\<lparr>process_current := process_current s\<rparr>
                  | None \<Rightarrow> s1)
            else s)" by blast
  have "ctimers (memory s1) (remove1 c cs)" using s1 x by (auto simp: ctimers_def timers_def owned_def)
  moreover have "distinct cs" using l by (rule is_list_distinct)
  ultimately show ?thesis using e s1(1)
    by (intro exI [of _ s1]) (simp add: ctimer_abs_def Rpl_Types.ctimer_stop_def)
qed

section \<open>Property\<close>

text \<open>C39: Callback timers implement the timers of the RPL model: setting, resetting and stopping
  one always returns, keeps the lists of timers well-formed, has on it the effect of the
  model's operation and none on any other timer. When its event comes, its function is
  called exactly once, with the stored argument and as the process that set the timer,
  after it was taken off the list; an event for a stopped timer does nothing.\<close>

theorem ctimers_refine_model:
  fixes s :: "'z ctimer_state_scheme kernel"
  assumes "ctimers (memory s) cs" "cb_initialized (memory s)" "pt \<noteq> 0"
  shows "(\<exists>s' cs'. Contiki_Ctimer.ctimer_set now c t (Some f) ptr s = Some s' \<and> ctimers (memory s') cs'
        \<and> ctimer_abs dec (memory s') cs' c = Rpl_Types.ctimer_set t (dec f ptr) (ctimer_abs dec (memory s) cs c)
        \<and> (\<forall>d. d \<noteq> c \<longrightarrow> ctimer_abs dec (memory s') cs' d = ctimer_abs dec (memory s) cs d) \<and> cb_p (memory s') c = process_current s)
    \<and> (\<exists>s' cs'. Contiki_Ctimer.ctimer_reset now c s = Some s' \<and> ctimers (memory s') cs'
        \<and> ctimer_abs dec (memory s') cs' c = Rpl_Types.ctimer_reset (ctimer_abs dec (memory s) cs c)
        \<and> (\<forall>d. d \<noteq> c \<longrightarrow> ctimer_abs dec (memory s') cs' d = ctimer_abs dec (memory s) cs d))
    \<and> (\<exists>s' cs'. Contiki_Ctimer.ctimer_stop now c s = Some s' \<and> ctimers (memory s') cs'
        \<and> ctimer_abs dec (memory s') cs' c = Rpl_Types.ctimer_stop (ctimer_abs dec (memory s) cs c)
        \<and> (\<forall>d. d \<noteq> c \<longrightarrow> ctimer_abs dec (memory s') cs' d = ctimer_abs dec (memory s) cs d))
    \<and> (\<exists>s1. ctimers (memory s1) (remove1 c cs)
        \<and> ctimer_abs dec (memory s1) (remove1 c cs) c = Rpl_Types.ctimer_stop (ctimer_abs dec (memory s) cs c)
        \<and> ctimer_thread cb now pt PROCESS_EVENT_TIMER (TimerData c) s
            = Some (if c \<in> set cs
                then (case cb_f (memory s) c of
                        Some g \<Rightarrow> (cb g (cb_ptr (memory s) c) (s1\<lparr>process_current := cb_p (memory s) c\<rparr>))\<lparr>process_current := process_current s\<rparr>
                      | None \<Rightarrow> s1)
                else s))"
  by (intro conjI ctimer_set_refines ctimer_reset_refines ctimer_stop_refines assms(1,2))
    (use ctimer_fires [OF assms(1,3), of c dec cb now] in blast)

text \<open>One timer, 20, set by process 7 with function 3; its function counts in the pointer field of timer 0.\<close>

definition demo_ctimers :: "ctimer_state kernel" where
  "demo_ctimers = \<lparr>process_list = Some etimer_process, process_current = Some 7, pr_next = (\<lambda>_. None), pr_pt = (\<lambda>_. 1),
     pr_state = (\<lambda>p. 1), pr_needspoll = (\<lambda>_. False), lastevent = 0x8a, nevents = 0, fevent = 0,
     events = replicate 8 \<lparr>ev_ev = 0x88, ev_data = NoData, ev_p = None\<rparr>, poll_requested = False, process_maxevents = 0,
     memory = \<lparr>timerlist = Some 20, next_expiration = 0, et_timer = (\<lambda>x. \<lparr>start = 5, interval = 200\<rparr>), et_next = (\<lambda>x. None),
       et_p = (\<lambda>x. Some ctimer_process), cb_list = \<lparr>cell = (\<lambda>_. Some 20), nxt = (\<lambda>_. None)\<rparr>, cb_initialized = True,
       cb_p = (\<lambda>_. Some 7), cb_f = (\<lambda>_. Some 3), cb_ptr = (\<lambda>_. 0)\<rparr>\<rparr>"

definition demo_callback :: "unit callbacks" where
  "demo_callback f ptr s = s\<lparr>memory := (memory s)\<lparr>cb_ptr := (cb_ptr (memory s))(0 := f + 1)\<rparr>\<rparr>"

theorem ctimers_refine_model_witness:
  "(\<exists>s' cs'. Contiki_Ctimer.ctimer_set 9 20 128 (Some 4) 1 demo_ctimers = Some s' \<and> ctimers (memory s') cs'
      \<and> ctimer_abs (\<lambda>f p. Send_dros) (memory s') cs' 20 = \<lparr>ct_f = Some Send_dros, ct_interval = 128, ct_active = True\<rparr>)
   \<and> (\<exists>s1. ctimer_thread demo_callback 9 1 PROCESS_EVENT_TIMER (TimerData 20) demo_ctimers
      = Some ((demo_callback 3 0 (s1\<lparr>process_current := Some 7\<rparr>))\<lparr>process_current := Some 7\<rparr>) \<and> ctimers (memory s1) [])"
proof -
  have "is_list (cb_list (memory demo_ctimers)) () [20]" by (simp add: is_list_def demo_ctimers_def)
  moreover have "timers (memory demo_ctimers) [20]" "owned (memory demo_ctimers) [20]"
    by (simp_all add: timers_def owned_def demo_ctimers_def)
  ultimately have c: "ctimers (memory demo_ctimers) [20]" unfolding ctimers_def by blast
  have i: "cb_initialized (memory demo_ctimers)" "(1 :: nat) \<noteq> 0" by (simp_all add: demo_ctimers_def)
  have f: "cb_f (memory demo_ctimers) 20 = Some 3" "cb_ptr (memory demo_ctimers) 20 = 0" "cb_p (memory demo_ctimers) 20 = Some 7"
    "process_current demo_ctimers = Some 7" by (simp_all add: demo_ctimers_def)
  note t = ctimers_refine_model [OF c i, of 9 20 128 4 1 "\<lambda>f p. Send_dros" demo_callback]
  show ?thesis
    using t by (auto simp: Rpl_Types.ctimer_set_def ctimer_abs_def f)
qed

end
