(* ===== verification/Contiki_Liveness.thy ===== *)
theory Contiki_Liveness
  imports Contiki_Etimer_Laws
begin

text \<open>
  A step of the main loop returns when no thread starts processes and the computations of the
  threads return: a synchronous call marks the process that it calls, an exit clears its mark,
  and a marked process is not called again, so the nesting of calls is bounded by the marks of
  all processes. The computations of \<open>etimer_process\<close> return when its list of timers is finite,
  which they keep.
\<close>

section \<open>Marks and ranks\<close>

definition weight :: "'m kernel \<Rightarrow> nat \<Rightarrow> nat" where
  "weight s p = (if pr_state s p AND PROCESS_STATE_RUNNING \<noteq> 0 then 2 else if pr_state s p = 0 then 0 else 1)"

definition ranked :: "(nat \<Rightarrow> nat) \<Rightarrow> 'm kernel \<Rightarrow> bool" where
  "ranked r s \<longleftrightarrow> (\<forall>p q. pr_next s p = Some q \<longrightarrow> r q < r p)"

definition settles :: "('m \<Rightarrow> bool) \<Rightarrow> 'm kernel \<Rightarrow> 'm kernel \<Rightarrow> bool" where
  "settles J s s' \<longleftrightarrow> (\<forall>p. weight s' p \<le> weight s p) \<and> (\<forall>r. ranked r s \<longrightarrow> ranked r s')
     \<and> (J (memory s) \<longrightarrow> J (memory s'))"

definition same_processes :: "'m kernel \<Rightarrow> 'm kernel \<Rightarrow> bool" where
  "same_processes s s' \<longleftrightarrow> process_list s' = process_list s \<and> pr_next s' = pr_next s \<and> pr_state s' = pr_state s"

text \<open>Programs that start no process, and whose own computations return from every memory with
  the invariant \<open>J\<close>, keep it, and leave the processes alone.\<close>

inductive calm :: "('m \<Rightarrow> bool) \<Rightarrow> 'm prog \<Rightarrow> bool" for J :: "'m \<Rightarrow> bool" where
  calm_return: "calm J (Return b)"
| calm_act: "(\<And>s. J (memory s) \<Longrightarrow> f s \<noteq> None) \<Longrightarrow>
    (\<And>s s' k. J (memory s) \<Longrightarrow> f s = Some (s', k) \<Longrightarrow> same_processes s s' \<and> J (memory s')) \<Longrightarrow>
    (\<And>s s' k. J (memory s) \<Longrightarrow> f s = Some (s', k) \<Longrightarrow> calm J k) \<Longrightarrow> calm J (Act f)"
| calm_post: "calm J k \<Longrightarrow> calm J (Post_synch p ev dat k)"
| calm_exit: "calm J k \<Longrightarrow> calm J (Exit p k)"

definition threads_calm :: "('m \<Rightarrow> bool) \<Rightarrow> 'm threads \<Rightarrow> bool" where
  "threads_calm J T \<longleftrightarrow> (\<forall>p thread pt ev dat. T p = Some thread \<longrightarrow> calm J (thread pt ev dat))"

lemma settles_refl [simp]: "settles J s s"
  by (simp add: settles_def)

lemma settles_trans: "settles J s s1 \<Longrightarrow> settles J s1 s2 \<Longrightarrow> settles J s s2"
  unfolding settles_def by (meson order_trans)

lemma memory_state [simp]: "memory (set_state p v s) = memory s"
  by (simp add: set_state_def)

lemma weight_cong [simp]:
  "weight (s\<lparr>process_current := c\<rparr>) = weight s" "weight (s\<lparr>pr_needspoll := np\<rparr>) = weight s"
  "weight (s\<lparr>poll_requested := b\<rparr>) = weight s" "weight (s\<lparr>pr_next := nx\<rparr>) = weight s"
  "weight (s\<lparr>process_list := l\<rparr>) = weight s"
  by (auto simp: weight_def)

lemma ranked_cong [simp]:
  "ranked r (s\<lparr>process_current := c\<rparr>) = ranked r s" "ranked r (s\<lparr>pr_needspoll := np\<rparr>) = ranked r s"
  "ranked r (s\<lparr>poll_requested := b\<rparr>) = ranked r s" "ranked r (set_state p v s) = ranked r s"
  "ranked r (s\<lparr>process_list := l\<rparr>) = ranked r s"
  by (simp_all add: ranked_def set_state_def)

lemma weight_state: "weight (set_state p v s) q = (if q = p then (if v AND 1 \<noteq> 0 then 2 else if v = 0 then 0 else 1) else weight s q)"
  by (simp add: weight_def set_state_def PROCESS_STATE_RUNNING_def)

lemma settles_current: "settles J s s' \<Longrightarrow> settles J s (s'\<lparr>process_current := c\<rparr>)"
  by (simp add: settles_def)

lemma settles_same: "same_processes s s' \<Longrightarrow> (J (memory s) \<Longrightarrow> J (memory s')) \<Longrightarrow> settles J s s'"
  by (simp add: settles_def same_processes_def weight_def ranked_def)

section \<open>The loops over the process list\<close>

lemma find_link_returns: "ranked r s \<Longrightarrow> \<exists>b. find_link (pr_next s) q p = Some b"
proof (induction "case q of None \<Rightarrow> 0 | Some x \<Rightarrow> Suc (r x)" arbitrary: q rule: less_induct)
  case less
  show ?case
  proof (cases q)
    case None
    show ?thesis unfolding None by (rule exI [of _ False]) (simp add: find_link.simps)
  next
    case (Some x)
    have "\<exists>b. find_link (pr_next s) (pr_next s x) p = Some b"
      using less.prems Some by (intro less.hyps) (auto simp: ranked_def split: option.split)
    then show ?thesis unfolding Some by (subst find_link.simps) auto
  qed
qed

lemma find_previous_returns: "ranked r s \<Longrightarrow> \<exists>v. find_previous (pr_next s) q p = Some v"
proof (induction "case q of None \<Rightarrow> 0 | Some x \<Rightarrow> Suc (r x)" arbitrary: q rule: less_induct)
  case less
  show ?case
  proof (cases q)
    case None
    then show ?thesis by (simp add: find_previous.simps)
  next
    case (Some x)
    have "\<exists>b. find_previous (pr_next s) (pr_next s x) p = Some b"
      using less.prems Some by (intro less.hyps) (auto simp: ranked_def split: option.split)
    then show ?thesis by (simp add: Some find_previous.simps [of _ "Some x"])
  qed
qed

lemma unlink_returns:
  assumes "ranked r s"
  shows "\<exists>s'. unlink_process p s = Some s' \<and> settles J s s'"
proof -
  from find_previous_returns [OF assms, of "process_list s" p] obtain v where
    v: "find_previous (pr_next s) (process_list s) p = Some v" by blast
  have "ranked r' (s\<lparr>pr_next := (pr_next s)(x := pr_next s p)\<rparr>)" if "v = Some x" "ranked r' s" for x r'
  proof -
    have "pr_next s x = Some p" using v that(1) by (intro find_previous_next [of _ "process_list s"]) simp
    with that(2) show ?thesis unfolding ranked_def by (auto split: if_splits) (blast intro: order.strict_trans)
  qed
  with v show ?thesis by (auto simp: unlink_process_def settles_def split: option.split)
qed

section \<open>Calls return\<close>

text \<open>The processes outside \<open>A\<close> are not running, those in \<open>A\<close> bear at most \<open>w\<close> marks, and the
  memory has the invariant.\<close>

definition ready :: "('m \<Rightarrow> bool) \<Rightarrow> (nat \<Rightarrow> nat) \<Rightarrow> nat set \<Rightarrow> nat \<Rightarrow> 'm kernel \<Rightarrow> bool" where
  "ready J r A w s \<longleftrightarrow> finite A \<and> ranked r s \<and> (\<forall>p. p \<notin> A \<longrightarrow> weight s p = 0) \<and> (\<Sum>p\<in>A. weight s p) \<le> w
     \<and> J (memory s)"

definition calls_end :: "('m \<Rightarrow> bool) \<Rightarrow> (nat \<Rightarrow> nat) \<Rightarrow> nat set \<Rightarrow> 'm threads \<Rightarrow> nat \<Rightarrow> bool" where
  "calls_end J r A T w \<longleftrightarrow> (\<forall>p ev dat s. ready J r A w s \<longrightarrow> (\<exists>n s'. call_process n T p ev dat s = Some s' \<and> settles J s s'))"

definition progs_end :: "('m \<Rightarrow> bool) \<Rightarrow> (nat \<Rightarrow> nat) \<Rightarrow> nat set \<Rightarrow> 'm threads \<Rightarrow> nat \<Rightarrow> bool" where
  "progs_end J r A T w \<longleftrightarrow> (\<forall>g s. calm J g \<longrightarrow> ready J r A w s \<longrightarrow> (\<exists>n b s'. run_prog n T g s = Some (b, s') \<and> settles J s s'))"

definition exits_end :: "('m \<Rightarrow> bool) \<Rightarrow> (nat \<Rightarrow> nat) \<Rightarrow> nat set \<Rightarrow> 'm threads \<Rightarrow> nat \<Rightarrow> bool" where
  "exits_end J r A T w \<longleftrightarrow> (\<forall>p from s. ready J r A w s \<longrightarrow>
     (\<exists>n s'. exit_process (run_prog n T) (call_process n T) T p from s = Some s' \<and> settles J s s'))"

lemma ready_settles: "ready J r A w s \<Longrightarrow> settles J s s' \<Longrightarrow> ready J r A w s'"
  unfolding ready_def settles_def by (metis (no_types, lifting) le_zero_eq order_trans sum_mono)

lemma ready_current [simp]: "ready J r A w (s\<lparr>process_current := c\<rparr>) = ready J r A w s"
  by (simp add: ready_def)

text \<open>Lowering the mark of one process makes room below \<open>w\<close>.\<close>

lemma ready_lower:
  assumes "ready J r A w s" "weight (set_state p v s) p < weight s p"
  shows "ready J r A (w - 1) (set_state p v s)" "0 < w" "settles J s (set_state p v s)"
proof -
  have p: "p \<in> A" using assms by (auto simp: ready_def)
  have f: "finite A" using assms(1) by (simp add: ready_def)
  have w: "weight (set_state p v s) q = weight s q" if "q \<noteq> p" for q using that by (simp add: weight_state)
  have "(\<Sum>q\<in>A. weight (set_state p v s) q) = weight (set_state p v s) p + (\<Sum>q\<in>A - {p}. weight s q)"
    using f p w by (simp add: sum.remove)
  moreover have "(\<Sum>q\<in>A. weight s q) = weight s p + (\<Sum>q\<in>A - {p}. weight s q)" using f p by (simp add: sum.remove)
  ultimately have "(\<Sum>q\<in>A. weight (set_state p v s) q) < (\<Sum>q\<in>A. weight s q)" using assms(2) by simp
  with assms(1) have "(\<Sum>q\<in>A. weight (set_state p v s) q) < w" by (auto simp: ready_def)
  then show "ready J r A (w - 1) (set_state p v s)" "0 < w"
    using assms(1) p w by (auto simp: ready_def) metis
  show "settles J s (set_state p v s)"
    using assms(2) by (auto simp: settles_def) (metis w less_imp_le order_refl)
qed

lemma exited_loop_ends:
  assumes "calls_end J r A T w"
  shows "ready J r A w s \<Longrightarrow> \<exists>n s'. exited_loop (call_process n T) q p s = Some s' \<and> settles J s s'"
proof (induction "case q of None \<Rightarrow> 0 | Some x \<Rightarrow> Suc (r x)" arbitrary: q s rule: less_induct)
  case less
  show ?case
  proof (cases q)
    case None
    then show ?thesis by (intro exI [of _ 0] exI [of _ s]) (simp add: exited_loop.simps)
  next
    case (Some x)
    obtain n s1 where c: "(if p \<noteq> x then call_process n T x PROCESS_EVENT_EXITED (ProcessData p) s else Some s) = Some s1"
      and s1: "settles J s s1"
      using assms less.prems unfolding calls_end_def by (cases "p = x") (fastforce, meson)
    have r1: "ready J r A w s1" using ready_settles less.prems s1 by blast
    have "\<exists>n s'. exited_loop (call_process n T) (pr_next s1 x) p s1 = Some s' \<and> settles J s1 s'"
      using r1 Some by (intro less.hyps) (auto simp: ready_def ranked_def split: option.split)
    then obtain k s2 where l: "exited_loop (call_process k T) (pr_next s1 x) p s1 = Some s2" and s2: "settles J s1 s2" by blast
    have "exited_loop (call_process (max n k) T) (pr_next s1 x) p s1 = Some s2"
      by (rule exited_loop_mono [OF l]) (simp add: fuel_mono)
    moreover have "(if p \<noteq> x then call_process (max n k) T x PROCESS_EVENT_EXITED (ProcessData p) s else Some s) = Some s1"
      using c call_more [where n = n and k = "max n k"] by (auto split: if_splits)
    ultimately have "exited_loop (call_process (max n k) T) q p s = Some s2"
      by (subst exited_loop.simps) (simp add: Some)
    with settles_trans [OF s1 s2] show ?thesis by blast
  qed
qed

lemma exit_step:
  fixes T :: "'m threads"
  assumes T: "threads_calm J T" and less: "\<And>v. v < w \<Longrightarrow> calls_end J r A T v" "\<And>v. v < w \<Longrightarrow> progs_end J r A T v"
  shows "exits_end J r A T w"
  unfolding exits_end_def
proof (intro allI impI)
  fix p origin and s :: "'m kernel"
  assume rdy: "ready J r A w s"
  obtain b where b: "find_link (pr_next s) (process_list s) p = Some b"
    using find_link_returns rdy unfolding ready_def by blast
  have unl: "\<exists>s'. unlink_process p s2 = Some s' \<and> settles J s s'" if "settles J s s2" for s2
    using unlink_returns [where r = r and s = s2 and p = p] ready_settles [OF rdy that] settles_trans [OF that] unfolding ready_def by blast
  have "\<exists>n s2. (if process_is_running p s then
                   (case exited_loop (call_process n T) (process_list s) p (set_state p PROCESS_STATE_NONE s) of
                      None \<Rightarrow> None
                    | Some s1 \<Rightarrow> exit_thread (run_prog n T) T p origin s1)
                 else Some s) = Some s2 \<and> settles J s s2"
  proof (cases "process_is_running p s")
    case True
    let ?s0 = "set_state p PROCESS_STATE_NONE s"
    have "weight ?s0 p < weight s p"
      using True by (auto simp: weight_def set_state_def process_is_running_def PROCESS_STATE_NONE_def)
    note low = ready_lower [OF rdy this]
    have w: "w - 1 < w" using low(2) by simp
    from exited_loop_ends [OF less(1) [OF w] low(1)] obtain n s1 where
      l: "exited_loop (call_process n T) (process_list s) p ?s0 = Some s1" "settles J ?s0 s1" by blast
    have s1: "settles J s s1" "ready J r A (w - 1) s1"
      using settles_trans [OF low(3) l(2)] ready_settles [OF low(1) l(2)] by blast+
    obtain k s2 where t: "exit_thread (run_prog k T) T p origin s1 = Some s2" "settles J s1 s2"
    proof (cases "T p")
      case None
      then show ?thesis by (intro that [of 0 s1]) (simp_all add: exit_thread_def)
    next
      case (Some th)
      have "calm J (th (pr_pt s1 p) PROCESS_EVENT_EXIT NoData)" using T Some unfolding threads_calm_def by blast
      with less(2) [OF w] s1(2) have "\<exists>n b s'. run_prog n T (th (pr_pt s1 p) PROCESS_EVENT_EXIT NoData) (s1\<lparr>process_current := Some p\<rparr>) = Some (b, s')
          \<and> settles J (s1\<lparr>process_current := Some p\<rparr>) s'"
        unfolding progs_end_def by simp
      then obtain k c s2 where "run_prog k T (th (pr_pt s1 p) PROCESS_EVENT_EXIT NoData) (s1\<lparr>process_current := Some p\<rparr>) = Some (c, s2)"
          "settles J s1 s2" by (auto simp: settles_def)
      then show ?thesis
        using that [of k s2] that [of 0 s1] Some by (cases "Some p = origin") (simp_all add: exit_thread_def)
    qed
    have "exited_loop (call_process (max n k) T) (process_list s) p ?s0 = Some s1"
      by (rule exited_loop_mono [OF l(1)]) (simp add: fuel_mono)
    moreover have "exit_thread (run_prog (max n k) T) T p origin s1 = Some s2"
      using t(1) run_more [where n = k and k = "max n k" and T = T] by (auto simp: exit_thread_def split: option.splits if_splits)
    ultimately show ?thesis using True settles_trans [OF s1(1) t(2)]
      by (intro exI [of _ "max n k"] exI [of _ s2]) simp
  next
    case False
    then show ?thesis by simp
  qed
  then obtain n s2 where e: "(if process_is_running p s then
                   (case exited_loop (call_process n T) (process_list s) p (set_state p PROCESS_STATE_NONE s) of
                      None \<Rightarrow> None
                    | Some s1 \<Rightarrow> exit_thread (run_prog n T) T p origin s1)
                 else Some s) = Some s2" "settles J s s2" by blast
  from unl [OF e(2)] obtain s3 where u: "unlink_process p s2 = Some s3" "settles J s s3" by blast
  show "\<exists>n s'. exit_process (run_prog n T) (call_process n T) T p origin s = Some s' \<and> settles J s s'"
  proof (cases b)
    case True
    then have "exit_process (run_prog n T) (call_process n T) T p origin s = Some (s3\<lparr>process_current := process_current s\<rparr>)"
      unfolding exit_process_def b option.case bool.case e(1) by (simp add: u(1))
    with settles_current [OF u(2)] show ?thesis by blast
  next
    case False
    with b show ?thesis by (intro exI [of _ 0] exI [of _ s]) (simp add: exit_process_def)
  qed
qed

lemma call_step:
  fixes T :: "'m threads"
  assumes T: "threads_calm J T" and less: "\<And>v. v < w \<Longrightarrow> progs_end J r A T v" "\<And>v. v < w \<Longrightarrow> exits_end J r A T v"
  shows "calls_end J r A T w"
  unfolding calls_end_def
proof (intro allI impI)
  fix p ev dat and s :: "'m kernel"
  assume rdy: "ready J r A w s"
  show "\<exists>n s'. call_process n T p ev dat s = Some s' \<and> settles J s s'"
  proof (cases "T p = None \<or> pr_state s p AND PROCESS_STATE_RUNNING = 0")
    case True
    then show ?thesis by (intro exI [of _ 1] exI [of _ s]) (auto simp: call_body_def split: option.split)
  next
    case False
    then obtain th where th: "T p = Some th" and run: "pr_state s p AND PROCESS_STATE_RUNNING \<noteq> 0" by auto
    let ?s0 = "set_state p PROCESS_STATE_CALLED (s\<lparr>process_current := Some p\<rparr>)"
    have two: "weight s p = 2" using run by (simp add: weight_def)
    have "weight ?s0 p < weight (s\<lparr>process_current := Some p\<rparr>) p"
      using two by (simp add: weight_state PROCESS_STATE_CALLED_def)
    note low = ready_lower [OF _ this, where r = r and A = A and w = w] rdy
    have w: "w - 1 < w" and r0: "ready J r A (w - 1) ?s0" and s0: "settles J s ?s0"
      using low by (auto simp: settles_def)
    have "calm J (th (pr_pt s p) ev dat)" using T th unfolding threads_calm_def by blast
    with less(1) [OF w] r0 obtain n b s1 where
      g: "run_prog n T (th (pr_pt s p) ev dat) ?s0 = Some (b, s1)" "settles J ?s0 s1"
      unfolding progs_end_def by blast
    have s1: "settles J s s1" "ready J r A (w - 1) s1"
      using settles_trans [OF s0 g(2)] ready_settles [OF r0 g(2)] by blast+
    show ?thesis
    proof (cases "b \<or> ev = PROCESS_EVENT_EXIT")
      case True
      from less(2) [OF w] s1(2) obtain k s2 where
        e: "exit_process (run_prog k T) (call_process k T) T p (Some p) s1 = Some s2" "settles J s1 s2"
        unfolding exits_end_def by blast
      have "call_process (Suc (max n k)) T p ev dat s = Some s2"
        using True th run run_more [OF g(1), of "max n k"] exit_more [OF e(1), of "max n k"] by (simp add: call_body_def)
      with settles_trans [OF s1(1) e(2)] show ?thesis by blast
    next
      case False
      then have "call_process (Suc n) T p ev dat s = Some (set_state p PROCESS_STATE_RUNNING s1)"
        using th run g(1) by (simp add: call_body_def)
      moreover have "settles J s (set_state p PROCESS_STATE_RUNNING s1)"
        using s1(1) two by (auto simp: settles_def weight_state PROCESS_STATE_RUNNING_def)
      ultimately show ?thesis by blast
    qed
  qed
qed

lemma prog_step:
  fixes T :: "'m threads"
  assumes "calls_end J r A T w" "exits_end J r A T w"
  shows "progs_end J r A T w"
  unfolding progs_end_def
proof (intro allI impI)
  fix g :: "'m prog" and s :: "'m kernel"
  assume "calm J g" "ready J r A w s"
  then show "\<exists>n b s'. run_prog n T g s = Some (b, s') \<and> settles J s s'"
  proof (induction arbitrary: s rule: calm.induct)
    case (calm_return b)
    show ?case by (intro exI [of _ 1] exI [of _ b] exI [of _ s]) (simp add: run_body_def)
  next
    case (calm_act f)
    have J: "J (memory s)" using calm_act(5) by (simp add: ready_def)
    from calm_act(1) [OF J] obtain s1 k where f: "f s = Some (s1, k)" by fastforce
    then have s1: "settles J s s1" using calm_act(2) [OF J f] settles_same by blast
    from calm_act(4) [OF J f ready_settles [OF calm_act(5) s1]] obtain n b s' where
      "run_prog n T k s1 = Some (b, s')" "settles J s1 s'" by blast
    then show ?case using settles_trans [OF s1] f
      by (intro exI [of _ "Suc n"] exI [of _ b] exI [of _ s']) (simp add: run_body_def)
  next
    case (calm_post k p ev dat)
    from assms(1) calm_post(3) obtain n s1 where c: "call_process n T p ev dat s = Some s1" "settles J s s1"
      unfolding calls_end_def by blast
    define s2 where "s2 = s1\<lparr>process_current := process_current s\<rparr>"
    have s2: "settles J s s2" unfolding s2_def by (rule settles_current [OF c(2)])
    from calm_post(2) [OF ready_settles [OF calm_post(3) s2]] obtain m b s3 where
      m: "run_prog m T k s2 = Some (b, s3)" "settles J s2 s3" by blast
    have "run_prog (Suc (max n m)) T (Post_synch p ev dat k) s = Some (b, s3)"
      using call_more [OF c(1), of "max n m"] run_more [OF m(1), of "max n m"]
      by (simp add: run_body_def process_post_synch_def s2_def)
    with settles_trans [OF s2 m(2)] show ?case by blast
  next
    case (calm_exit k p)
    from assms(2) calm_exit(3) obtain n s1 where
      c: "exit_process (run_prog n T) (call_process n T) T p (process_current s) s = Some s1" "settles J s s1"
      unfolding exits_end_def by blast
    from calm_exit(2) [OF ready_settles [OF calm_exit(3) c(2)]] obtain m b s3 where
      m: "run_prog m T k s1 = Some (b, s3)" "settles J s1 s3" by blast
    have "run_prog (Suc (max n m)) T (Exit p k) s = Some (b, s3)"
      using exit_more [OF c(1), of "max n m"] run_more [OF m(1), of "max n m"] by (simp add: run_body_def)
    with settles_trans [OF c(2) m(2)] show ?case by blast
  qed
qed

lemma all_end:
  assumes "threads_calm J T"
  shows "calls_end J r A T w \<and> exits_end J r A T w \<and> progs_end J r A T w"
proof (induction w rule: less_induct)
  case (less w)
  then have "calls_end J r A T w" "exits_end J r A T w"
    using call_step [OF assms] exit_step [OF assms] by blast+
  with prog_step show ?case by blast
qed

section \<open>The main loop returns\<close>

text \<open>If no chain of \<open>next\<close> pointers is cyclic, a rank is the length of the chain.\<close>

lemma chains_ranked:
  assumes "chains_end s"
  shows "\<exists>r. ranked r s"
proof -
  from assms obtain f where f: "path (pr_next s) (Some p) (f p)" for p unfolding chains_end_def by metis
  have "length (f q) < length (f p)" if "pr_next s p = Some q" for p q
  proof -
    from f [of p] that obtain ps where "f p = p # ps" "path (pr_next s) (Some q) ps" by (auto simp: path_Some)
    with path_unique [OF f [of q]] show ?thesis by simp
  qed
  then have "ranked (\<lambda>p. length (f p)) s" by (simp add: ranked_def)
  then show ?thesis by blast
qed

text \<open>The main loop also sets marks, on processes it polls or initialises.\<close>

definition live :: "('m \<Rightarrow> bool) \<Rightarrow> (nat \<Rightarrow> nat) \<Rightarrow> 'm kernel \<Rightarrow> bool" where
  "live J r s \<longleftrightarrow> ranked r s \<and> finite {p. weight s p \<noteq> 0} \<and> J (memory s)"

lemma live_settles:
  assumes "live J r s" "settles J s s'"
  shows "live J r s'"
proof -
  have "weight s' p \<noteq> 0 \<Longrightarrow> weight s p \<noteq> 0" for p using assms(2) by (metis settles_def le_zero_eq)
  then have "{p. weight s' p \<noteq> 0} \<subseteq> {p. weight s p \<noteq> 0}" by blast
  then show ?thesis using assms unfolding live_def settles_def by (auto intro: finite_subset)
qed

lemma live_state: "live J r s \<Longrightarrow> live J r (set_state p v s)"
proof -
  have "{q. weight (set_state p v s) q \<noteq> 0} \<subseteq> insert p {q. weight s q \<noteq> 0}" by (auto simp: weight_state)
  then show "live J r s \<Longrightarrow> live J r (set_state p v s)" by (auto simp: live_def intro: finite_subset)
qed

lemma live_cong [simp]:
  "live J r (s\<lparr>process_current := c\<rparr>) = live J r s" "live J r (s\<lparr>pr_needspoll := np\<rparr>) = live J r s"
  "live J r (s\<lparr>poll_requested := b\<rparr>) = live J r s"
  by (simp_all add: live_def)

lemma live_call:
  assumes "threads_calm J T" "live J r s"
  shows "\<exists>n s'. call_process n T p ev dat s = Some s' \<and> live J r s'"
proof -
  let ?A = "{p. weight s p \<noteq> 0}"
  have "ready J r ?A (\<Sum>p\<in>?A. weight s p) s" using assms(2) by (simp add: ready_def live_def)
  with all_end [OF assms(1), of r ?A "\<Sum>p\<in>?A. weight s p"] show ?thesis
    using live_settles [OF assms(2)] unfolding calls_end_def by blast
qed

lemma poll_loop_returns:
  assumes "threads_calm J T"
  shows "live J r s \<Longrightarrow> \<exists>n s'. poll_loop (call_process n T) q s = Some s' \<and> live J r s'"
proof (induction "case q of None \<Rightarrow> 0 | Some x \<Rightarrow> Suc (r x)" arbitrary: q s rule: less_induct)
  case less
  show ?case
  proof (cases q)
    case None
    then show ?thesis using less.prems by (intro exI [of _ 0] exI [of _ s]) (simp add: poll_loop.simps)
  next
    case (Some p)
    let ?u = "set_state p PROCESS_STATE_RUNNING (s\<lparr>pr_needspoll := (pr_needspoll s)(p := False)\<rparr>)"
    let ?c = "\<lambda>n. if pr_needspoll s p then call_process n T p PROCESS_EVENT_POLL NoData ?u else Some s"
    have "\<exists>n s1. ?c n = Some s1 \<and> live J r s1"
      using live_call [OF assms, of r ?u] live_state [of J r "s\<lparr>pr_needspoll := (pr_needspoll s)(p := False)\<rparr>"] less.prems by simp
    then obtain n s1 where c: "?c n = Some s1" and s1: "live J r s1" by blast
    have "\<exists>n s'. poll_loop (call_process n T) (pr_next s1 p) s1 = Some s' \<and> live J r s'"
      using s1 Some by (intro less.hyps) (auto simp: live_def ranked_def split: option.split)
    then obtain k s2 where l: "poll_loop (call_process k T) (pr_next s1 p) s1 = Some s2" "live J r s2" by blast
    have "?c (max n k) = Some s1" using c call_more [where n = n and k = "max n k"] by (auto split: if_splits)
    moreover have "poll_loop (call_process (max n k) T) (pr_next s1 p) s1 = Some s2"
      by (rule poll_loop_mono [OF l(1)]) (simp add: fuel_mono)
    ultimately have "poll_loop (call_process (max n k) T) q s = Some s2"
      by (subst poll_loop.simps) (simp add: Some)
    with l(2) show ?thesis by blast
  qed
qed

lemma do_poll_returns:
  assumes "threads_calm J T" "live J r s"
  shows "\<exists>n s'. (if poll_requested s then do_poll (call_process n T) s else Some s) = Some s' \<and> live J r s'"
  using poll_loop_returns [OF assms(1), of r "s\<lparr>poll_requested := False\<rparr>" "process_list s"] assms(2)
  by (simp add: do_poll_def)

lemma poll_more:
  "(if b then do_poll (call_process n T) s else Some s) = Some s' \<Longrightarrow> n \<le> k
    \<Longrightarrow> (if b then do_poll (call_process k T) s else Some s) = Some s'"
  by (auto split: if_splits intro: do_poll_mono fuel_mono)

lemma broadcast_loop_returns:
  assumes "threads_calm J T"
  shows "live J r s \<Longrightarrow> \<exists>n s'. broadcast_loop (call_process n T) q ev dat s = Some s' \<and> live J r s'"
proof (induction "case q of None \<Rightarrow> 0 | Some x \<Rightarrow> Suc (r x)" arbitrary: q s rule: less_induct)
  case less
  show ?case
  proof (cases q)
    case None
    then show ?thesis using less.prems by (intro exI [of _ 0] exI [of _ s]) (simp add: broadcast_loop.simps)
  next
    case (Some p)
    from do_poll_returns [OF assms less.prems] obtain n s1 where
      c: "(if poll_requested s then do_poll (call_process n T) s else Some s) = Some s1" "live J r s1" by blast
    from live_call [OF assms c(2)] obtain m s2 where d: "call_process m T p ev dat s1 = Some s2" "live J r s2" by blast
    have "\<exists>n s'. broadcast_loop (call_process n T) (pr_next s2 p) ev dat s2 = Some s' \<and> live J r s'"
      using d(2) Some by (intro less.hyps) (auto simp: live_def ranked_def split: option.split)
    then obtain k s3 where l: "broadcast_loop (call_process k T) (pr_next s2 p) ev dat s2 = Some s3" "live J r s3" by blast
    let ?n = "max n (max m k)"
    have "broadcast_loop (call_process ?n T) (pr_next s2 p) ev dat s2 = Some s3"
      by (rule broadcast_loop_mono [OF l(1)]) (simp add: fuel_mono)
    then have "broadcast_loop (call_process ?n T) q ev dat s = Some s3"
      using poll_more [OF c(1), of ?n] call_more [OF d(1), of ?n] by (subst broadcast_loop.simps) (simp add: Some)
    with l(2) show ?thesis by blast
  qed
qed

lemma live_next_event: "live J r s \<Longrightarrow> live J r (snd (next_event s))"
proof -
  have "weight (snd (next_event s)) = weight s" by (auto simp: weight_def next_event_def)
  then show "live J r s \<Longrightarrow> live J r (snd (next_event s))" by (simp add: live_def ranked_def next_event_def)
qed

lemma do_event_returns:
  assumes "threads_calm J T" "live J r s"
  shows "\<exists>n s'. do_event (call_process n T) s = Some s'"
proof (cases "0 < nevents s")
  case True
  obtain e s1 where e: "next_event s = (e, s1)" by (cases "next_event s")
  have s1: "live J r s1" using live_next_event [OF assms(2)] by (simp add: e)
  have "live J r (if ev_ev e = PROCESS_EVENT_INIT then set_state p PROCESS_STATE_RUNNING s1 else s1)" for p
    using s1 live_state [OF s1] by simp
  then have "\<exists>n s'. call_process n T p (ev_ev e) (ev_data e)
      (if ev_ev e = PROCESS_EVENT_INIT then set_state p PROCESS_STATE_RUNNING s1 else s1) = Some s'" for p
    using live_call [OF assms(1)] by blast
  moreover have "\<exists>n s'. broadcast_loop (call_process n T) (process_list s1) (ev_ev e) (ev_data e) s1 = Some s'"
    using broadcast_loop_returns [OF assms(1) s1] by blast
  ultimately show ?thesis using True by (cases "ev_p e") (simp_all add: do_event_def e)
next
  case False
  then show ?thesis by (simp add: do_event_def)
qed

section \<open>The process of the event timers\<close>

text \<open>An activation of \<open>etimer_process\<close> returns and leaves a finite list without repetitions, if
  the list was one. On a timer that is linked to itself it would not return.\<close>

definition finite_timers :: "'z etimer_state_scheme \<Rightarrow> bool" where
  "finite_timers m \<longleftrightarrow> (\<exists>xs. timers m xs)"

lemma same_processes_refl [simp]: "same_processes s s"
  by (simp add: same_processes_def)

lemma same_processes_trans: "same_processes s s1 \<Longrightarrow> same_processes s1 s2 \<Longrightarrow> same_processes s s2"
  by (simp add: same_processes_def)

lemma same_processes_memory: "same_processes s s1 \<Longrightarrow> same_processes s (s1\<lparr>memory := m\<rparr>)"
  by (simp add: same_processes_def)

lemma process_post_same: "process_post p ev dat s = (b, s1) \<Longrightarrow> same_processes s s1 \<and> memory s1 = memory s"
  by (auto simp: process_post_def same_processes_def Let_def split: if_splits)

lemma request_poll_same: "same_processes s (etimer_request_poll s)"
  by (simp add: etimer_request_poll_def process_poll_def same_processes_def split: option.split)

lemma path_head: "path n q xs \<Longrightarrow> q = (case xs of [] \<Rightarrow> None | x # _ \<Rightarrow> Some x)"
  by (cases xs) simp_all

text \<open>The three ways through the loop body.\<close>

lemma expired_loop_next:
  "\<not> expired_at now s x \<Longrightarrow> expired_loop now u (Some x) s = expired_loop now (Some x) (et_next (memory s) x) s"
  by (subst expired_loop.simps) simp

lemma expired_loop_refused:
  assumes "expired_at now s x" "process_post (et_p (memory s) x) PROCESS_EVENT_TIMER (TimerData x) s = (False, s1)"
    "v = etimer_request_poll s1"
  shows "expired_loop now u (Some x) s = expired_loop now (Some x) (et_next (memory v) x) v"
  using assms by (subst expired_loop.simps) simp

lemma expired_loop_posted:
  assumes "expired_at now s x" "process_post (et_p (memory s) x) PROCESS_EVENT_TIMER (TimerData x) s = (True, s1)"
    "timers (memory s) (as @ x # bs)" "u = (if as = [] then None else Some (last as))"
  obtains m where "timers m (as @ bs)"
    "expired_loop now u (Some x) s = expired_loop now None (timerlist m) (s1\<lparr>memory := m\<rparr>)"
proof -
  let ?m = "remove_expired x u (memory s)"
  define m where "m = ?m\<lparr>next_expiration := nearest now ?m (as @ bs)\<rparr>"
  have t: "timers ?m (as @ bs)" by (rule remove_expired_timers [OF assms(3,4)])
  then have "path (et_next ?m) (timerlist ?m) (as @ bs)" by (simp add: timers_def)
  from update_time_path [OF this, of now] have "update_time now ?m = Some m" by (simp add: m_def)
  then have "expired_loop now u (Some x) s = expired_loop now None (timerlist m) (s1\<lparr>memory := m\<rparr>)"
    using assms(1,2) process_post_same [OF assms(2)] by (subst expired_loop.simps) simp
  moreover have "timers m (as @ bs)" using t by (simp add: m_def timers_def)
  ultimately show thesis using that by blast
qed

definition loop_ends :: "u32 \<Rightarrow> nat option \<Rightarrow> nat option \<Rightarrow> 'z etimer_state_scheme kernel \<Rightarrow> bool" where
  "loop_ends now u t s \<longleftrightarrow> (\<exists>s'. expired_loop now u t s = Some s' \<and> same_processes s s' \<and> finite_timers (memory s'))"

lemma loop_ends_step:
  assumes "expired_loop now u t s = expired_loop now u' t' s1" "same_processes s s1" "loop_ends now u' t' s1"
  shows "loop_ends now u t s"
  using assms(1,3) same_processes_trans [OF assms(2)] unfolding loop_ends_def by auto

lemma expired_loop_returns:
  fixes s :: "'z etimer_state_scheme kernel"
  assumes "timers (memory s) (as @ bs)" "u = (if as = [] then None else Some (last as))"
  shows "loop_ends now u (case bs of [] \<Rightarrow> None | x # _ \<Rightarrow> Some x) s"
  using assms
proof (induction "length (as @ bs)" arbitrary: as bs s u rule: less_induct)
  case less
  define N where "N = length (as @ bs)"
  have shorter: "loop_ends now None (timerlist (memory s)) s"
    if "length ys < N" "timers (memory s) ys" for ys and s :: "'z etimer_state_scheme kernel"
  proof -
    have "path (et_next (memory s)) (timerlist (memory s)) ys" using that(2) by (simp add: timers_def)
    note h = path_head [OF this]
    show ?thesis unfolding h by (rule less.hyps [of "[]" ys]) (use that N_def in simp_all)
  qed
  have "length (as @ bs) = N" by (simp add: N_def)
  with less.prems show ?case
  proof (induction bs arbitrary: as s u)
    case Nil
    then show ?case by (auto simp: expired_loop.simps finite_timers_def loop_ends_def)
  next
    case (Cons x bs)
    have p: "path (et_next (memory s)) (et_next (memory s) x) bs"
      using Cons.prems(1) path_after [of "et_next (memory s)" "timerlist (memory s)" as x bs] by (simp add: timers_def)
    have on: "loop_ends now (Some x) (et_next (memory v) x) v" if v: "memory v = memory s" for v
      unfolding v path_head [OF p] by (rule Cons.IH [of v "as @ [x]"]) (use Cons.prems(1,3) v in simp_all)
    have "loop_ends now u (Some x) s"
    proof (cases "expired_at now s x")
      case True
      obtain b s1 where post: "process_post (et_p (memory s) x) PROCESS_EVENT_TIMER (TimerData x) s = (b, s1)" by fastforce
      note s1 = process_post_same [OF post]
      show ?thesis
      proof (cases b)
        case b: True
        have post: "process_post (et_p (memory s) x) PROCESS_EVENT_TIMER (TimerData x) s = (True, s1)" using post b by simp
        from expired_loop_posted [OF True post Cons.prems(1,2)] obtain m where
          m: "timers m (as @ bs)" "expired_loop now u (Some x) s = expired_loop now None (timerlist m) (s1\<lparr>memory := m\<rparr>)" .
        have "loop_ends now None (timerlist (memory (s1\<lparr>memory := m\<rparr>))) (s1\<lparr>memory := m\<rparr>)"
          by (rule shorter [of "as @ bs"]) (use Cons.prems(3) m(1) in simp_all)
        then show ?thesis
          using same_processes_memory [OF conjunct1 [OF s1]] by (intro loop_ends_step [OF m(2)]) simp_all
      next
        case b: False
        have post: "process_post (et_p (memory s) x) PROCESS_EVENT_TIMER (TimerData x) s = (False, s1)" using post b by simp
        have "memory (etimer_request_poll s1) = memory s" using s1 by simp
        from loop_ends_step [OF expired_loop_refused [OF True post refl] _ on [OF this]]
        show ?thesis using s1 same_processes_trans [OF _ request_poll_same] by blast
      qed
    next
      case False
      from loop_ends_step [OF expired_loop_next [OF this] same_processes_refl on [OF refl]] show ?thesis .
    qed
    then show ?case by simp
  qed
qed

lemma etimer_thread_returns:
  assumes "finite_timers (memory s)"
  shows "\<exists>s'. etimer_thread now pt ev dat s = Some s' \<and> same_processes s s' \<and> finite_timers (memory s')"
proof -
  from assms obtain xs where xs: "timers (memory s) xs" by (auto simp: finite_timers_def)
  have hd: "timerlist (memory s) = (case xs of [] \<Rightarrow> None | y # _ \<Rightarrow> Some y)"
    using xs path_head [of "et_next (memory s)" "timerlist (memory s)" xs] by (simp add: timers_def)
  have loop: "\<exists>s'. expired_loop now None (timerlist (memory s)) s = Some s' \<and> same_processes s s' \<and> finite_timers (memory s')"
    using expired_loop_returns [of s "[]" xs None now] xs hd by (simp add: loop_ends_def)
  have drop: "\<exists>s'. in_memory (drop_timers p) s = Some s' \<and> same_processes s s' \<and> finite_timers (memory s')" for p
    using drop_timers_path [OF xs, of p] by (auto simp: in_memory_def finite_timers_def same_processes_def)
  have clear: "same_processes s (s\<lparr>memory := m, pr_pt := f\<rparr>)" for m f by (simp add: same_processes_def)
  have "timers ((memory s)\<lparr>timerlist := None\<rparr>) []" by (simp add: timers_def)
  then have empty: "finite_timers ((memory s)\<lparr>timerlist := None\<rparr>)" unfolding finite_timers_def by blast
  show ?thesis
    using loop drop assms empty clear by (auto simp: etimer_thread_def split: process_data.split)
qed

text \<open>C36: A step of the main loop returns, and more fuel gives the same result, if no thread
  starts processes, every computation of a thread returns from every memory that has some
  invariant and keeps the invariant, finitely many processes were started, and no chain of
  \<open>next\<close> pointers is cyclic. The threads may call each other synchronously, exit each other and
  themselves, post events and ask for polls: the nesting of their calls always ends. The
  process of the event timers is such a thread while its list of timers is finite.\<close>

theorem process_run_returns:
  assumes "threads_calm J T" "J (memory s)" "chains_end s" "finite {p. pr_state s p \<noteq> PROCESS_STATE_NONE}"
  shows "\<exists>n m s'. \<forall>k. n \<le> k \<longrightarrow> process_run k T s = Some (m, s')"
proof -
  from chains_ranked [OF assms(3)] obtain r where r: "ranked r s" by blast
  have "{p. weight s p \<noteq> 0} \<subseteq> {p. pr_state s p \<noteq> PROCESS_STATE_NONE}"
    by (auto simp: weight_def PROCESS_STATE_NONE_def split: if_splits)
  then have "live J r s" using r assms(2,4) by (auto simp: live_def intro: finite_subset)
  from do_poll_returns [OF assms(1) this] obtain n s1 where
    c: "(if poll_requested s then do_poll (call_process n T) s else Some s) = Some s1" "live J r s1" by blast
  from do_event_returns [OF assms(1) c(2)] obtain k s2 where d: "do_event (call_process k T) s1 = Some s2" by blast
  have "do_event (call_process (max n k) T) s1 = Some s2"
    by (rule do_event_mono [OF d]) (simp add: fuel_mono)
  with poll_more [OF c(1), of "max n k"] have "process_run (max n k) T s = Some (process_nevents s2, s2)"
    by (simp add: process_run_def)
  with process_run_more show ?thesis by blast
qed


text \<open>The process of the event timers, with the clock at 6, and two others: process 5 stops timer
  11 and calls process 6, which exits process 5.\<close>

definition calling_threads :: "etimer_state threads" where
  "calling_threads p =
     (if p = etimer_process
      then Some (\<lambda>pt ev dat. Act (\<lambda>s. map_option (\<lambda>s'. (s', Return False)) (etimer_thread 6 pt ev dat s)))
      else if p = 5
      then Some (\<lambda>pt ev dat. Act (\<lambda>s. map_option (\<lambda>s'. (s', Post_synch 6 ev dat (Return False))) (in_memory (etimer_stop 6 11) s)))
      else if p = 6 then Some (\<lambda>pt ev dat. Exit 5 (Return False)) else None)"

text \<open>Timer 10 of process 5 expired, and an event for process 5 is pending.\<close>

definition calling_kernel :: "etimer_state kernel" where
  "calling_kernel = demo_etimers\<lparr>pr_next := (\<lambda>p. if p = etimer_process then Some 5 else if p = 5 then Some 6 else None),
     pr_state := (\<lambda>p. if p \<in> {etimer_process, 5, 6} then 1 else 0), pr_needspoll := (\<lambda>p. p = etimer_process),
     poll_requested := True, events := replicate 8 \<lparr>ev_ev = 0x88, ev_data = NoData, ev_p = Some 5\<rparr>\<rparr>"

lemma calling_threads_calm: "threads_calm finite_timers calling_threads"
proof -
  have c: "calm finite_timers (Act (\<lambda>s. map_option (\<lambda>s'. (s', k)) (f s)))"
    if "\<And>s. finite_timers (memory s) \<Longrightarrow> \<exists>s'. f s = Some s' \<and> same_processes s s' \<and> finite_timers (memory s')"
      "calm finite_timers k" for f :: "etimer_state kernel \<Rightarrow> etimer_state kernel option" and k
  proof (rule calm_act)
    fix s :: "etimer_state kernel"
    assume J: "finite_timers (memory s)"
    then show "map_option (\<lambda>s'. (s', k)) (f s) \<noteq> None" using that(1) by fastforce
    fix s' k' assume r: "map_option (\<lambda>s'. (s', k)) (f s) = Some (s', k')"
    then show "same_processes s s' \<and> finite_timers (memory s')" "calm finite_timers k'" using that(1) [OF J] that(2) by auto
  qed
  have stop: "\<exists>s'. in_memory (etimer_stop 6 11) s = Some s' \<and> same_processes s s' \<and> finite_timers (memory s')"
    if J: "finite_timers (memory s)" for s :: "etimer_state kernel"
  proof -
    from J obtain xs where "timers (memory s) xs" by (auto simp: finite_timers_def)
    from etimer_stop_result [OF this, of 6 11] show ?thesis
      by (auto simp: in_memory_def finite_timers_def same_processes_def)
  qed
  show ?thesis
    unfolding threads_calm_def calling_threads_def
    by (auto split: if_splits intro!: c etimer_thread_returns stop calm_return calm_post calm_exit)
qed

theorem process_run_returns_witness: "\<exists>n m s'. \<forall>k. n \<le> k \<longrightarrow> process_run k calling_threads calling_kernel = Some (m, s')"
proof (rule process_run_returns [OF calling_threads_calm])
  have "timers (memory calling_kernel) [11, 10]" by (simp add: timers_def calling_kernel_def demo_etimers_def)
  then show "finite_timers (memory calling_kernel)" unfolding finite_timers_def by blast
  have "path (pr_next calling_kernel) (Some p) (if p = etimer_process then [p, 5, 6] else if p = 5 then [5, 6] else [p])" for p
    by (simp add: calling_kernel_def etimer_process_def)
  then show "chains_end calling_kernel" unfolding chains_end_def by blast
  have "{p. pr_state calling_kernel p \<noteq> PROCESS_STATE_NONE} \<subseteq> {etimer_process, 5, 6}"
    by (auto simp: calling_kernel_def PROCESS_STATE_NONE_def split: if_splits)
  then show "finite {p. pr_state calling_kernel p \<noteq> PROCESS_STATE_NONE}" by (rule finite_subset) simp
qed

text \<open>Two processes: the first calls the second for every event, and the second exits the first.\<close>

definition demo_threads :: "nat threads" where
  "demo_threads p = (if p = 1 then Some (\<lambda>pt ev dat. Act (\<lambda>s. Some (s\<lparr>memory := memory s + 1\<rparr>, Post_synch 2 ev dat (Return False))))
     else if p = 2 then Some (\<lambda>pt ev dat. Act (\<lambda>s. Some (s\<lparr>memory := memory s + 1\<rparr>, Exit 1 (Return False)))) else None)"

definition demo_kernel :: "nat kernel" where
  "demo_kernel = \<lparr>process_list = Some 1, process_current = None, pr_next = (\<lambda>p. if p = 1 then Some 2 else None),
     pr_pt = (\<lambda>_. 0), pr_state = (\<lambda>p. if p = 1 \<or> p = 2 then 1 else 0), pr_needspoll = (\<lambda>_. False),
     lastevent = 0x8a, nevents = 1, fevent = 0,
     events = replicate 8 \<lparr>ev_ev = 0x88, ev_data = NoData, ev_p = Some 1\<rparr>, poll_requested = False, process_maxevents = 0, memory = 0\<rparr>"

text \<open>
  A process that exits its caller leaves it marked as running although it is on no list: the
  outer \<open>call_process\<close> sets its state when it returns.
\<close>

lemma exited_caller_runs_on:
  "map_option (\<lambda>(_, s). (process_list s, pr_state s 1, memory s)) (process_run 20 demo_threads demo_kernel) = Some (Some 2, 1, 3)"
  by code_simp

end
