(* ===== verification/Contiki_Timing.thy ===== *)
theory Contiki_Timing
  imports Contiki_Ctimer_Laws Contiki_Liveness
begin

text \<open>
  The kernel with its two timer processes: how an expired callback timer reaches its
  function through the poll of \<open>etimer_process\<close>, the event queue and \<open>ctimer_process\<close>.
\<close>

section \<open>The threads\<close>

definition activation :: "('m kernel \<Rightarrow> 'm kernel option) \<Rightarrow> 'm prog" where
  "activation f = Act (\<lambda>s. map_option (\<lambda>s'. (s', Return False)) (f s))"

definition timer_threads ::
  "'z callbacks \<Rightarrow> u32 \<Rightarrow> 'z ctimer_state_scheme threads \<Rightarrow> 'z ctimer_state_scheme threads" where
  "timer_threads cb now T p =
     (if p = etimer_process then Some (\<lambda>pt ev dat. activation (etimer_thread now pt ev dat))
      else if p = ctimer_process then Some (\<lambda>pt ev dat. activation (ctimer_thread cb now pt ev dat))
      else T p)"

lemma call_activation:
  assumes "T p = Some (\<lambda>pt ev dat. activation (f pt ev dat))" "pr_state s p = PROCESS_STATE_RUNNING"
    "ev \<noteq> PROCESS_EVENT_EXIT" "2 < n"
    and "f (pr_pt s p) ev dat (set_state p PROCESS_STATE_CALLED (s\<lparr>process_current := Some p\<rparr>)) = Some s'"
  shows "call_process n T p ev dat s = Some (set_state p PROCESS_STATE_RUNNING s')"
proof -
  obtain k where n: "n = Suc (Suc (Suc k))" using assms(4) by (auto simp: less_iff_Suc_add eval_nat_numeral)
  have "PROCESS_STATE_RUNNING AND PROCESS_STATE_RUNNING \<noteq> 0" by (simp add: PROCESS_STATE_RUNNING_def)
  then show ?thesis using assms by (simp add: n call_body_def run_body_def activation_def)
qed

lemma poll_loop_skip:
  "path (pr_next s) q (as @ bs) \<Longrightarrow> \<forall>p\<in>set as. \<not> pr_needspoll s p \<Longrightarrow>
     poll_loop call q s = poll_loop call (case bs of [] \<Rightarrow> None | p # _ \<Rightarrow> Some p) s"
proof (induction as arbitrary: q)
  case Nil
  then show ?case by (cases bs) auto
next
  case (Cons a as)
  then show ?case by (auto simp: poll_loop_code)
qed

section \<open>From the timer to its function\<close>

text \<open>
  The event timer of \<open>c\<close> is the only one that expired, \<open>etimer_process\<close> is the only process
  that asked to be polled, and no event is pending.
\<close>

definition about_to_fire :: "u32 \<Rightarrow> 'z ctimer_state_scheme kernel \<Rightarrow> nat list \<Rightarrow> nat list \<Rightarrow> nat list \<Rightarrow> nat \<Rightarrow> bool" where
  "about_to_fire now s ps xs cs c \<longleftrightarrow>
     path (pr_next s) (process_list s) ps \<and> distinct ps \<and> etimer_process \<in> set ps
     \<and> pr_state s etimer_process = PROCESS_STATE_RUNNING \<and> pr_state s ctimer_process = PROCESS_STATE_RUNNING
     \<and> pr_pt s etimer_process \<noteq> 0 \<and> pr_pt s ctimer_process \<noteq> 0
     \<and> poll_requested s \<and> (\<forall>p\<in>set ps. pr_needspoll s p \<longleftrightarrow> p = etimer_process)
     \<and> ring_ok s \<and> pending s = []
     \<and> timers (memory s) xs \<and> filter (\<lambda>x. timer_expired now (et_timer (memory s) x)) xs = [c]
     \<and> et_p (memory s) c = Some ctimer_process
     \<and> is_list (cb_list (memory s)) () cs \<and> c \<in> set cs"

lemma poll_posts_timer:
  assumes a: "about_to_fire now s ps xs cs c" and n: "2 < n"
  shows "\<exists>v. do_poll (call_process n (timer_threads cb now T)) s = Some v \<and> ring_ok v
    \<and> pending v = [\<lparr>ev_ev = PROCESS_EVENT_TIMER, ev_data = TimerData c, ev_p = Some ctimer_process\<rparr>]
    \<and> pr_state v = pr_state s \<and> pr_pt v = pr_pt s \<and> timers (memory v) (filter (\<lambda>x. x \<noteq> c) xs)
    \<and> et_p (memory v) = (et_p (memory s))(c := None) \<and> et_timer (memory v) = et_timer (memory s)
    \<and> etimer_state.more (memory v) = etimer_state.more (memory s) \<and> \<not> poll_requested v"
proof -
  let ?E = etimer_process and ?T = "timer_threads cb now T"
  define s0 where "s0 = s\<lparr>poll_requested := False\<rparr>"
  from a obtain as bs where ps: "ps = as @ ?E # bs" "?E \<notin> set as" "?E \<notin> set bs"
    unfolding about_to_fire_def by (metis distinct.simps(2) distinct_append disjoint_iff in_set_conv_decomp_first list.set_intros(1))
  have p0: "path (pr_next s0) (process_list s0) (as @ ?E # bs)" and np: "\<And>p. p \<in> set ps \<Longrightarrow> pr_needspoll s0 p \<longleftrightarrow> p = ?E"
    using a ps(1) by (auto simp: about_to_fire_def s0_def)
  define u where "u = set_state ?E PROCESS_STATE_RUNNING (s0\<lparr>pr_needspoll := (pr_needspoll s0)(?E := False)\<rparr>)"
  define w where "w = set_state ?E PROCESS_STATE_CALLED (u\<lparr>process_current := Some ?E\<rparr>)"
  have st: "pr_state s ?E = PROCESS_STATE_RUNNING" using a by (simp add: about_to_fire_def)
  have w: "timers (memory w) xs" "ring_ok w" "pending w = []" "filter (expired_at now w) xs = [c]" "et_p (memory w) c = Some ctimer_process"
      "memory w = memory s" "unat (nevents w) = 0"
    using a length_pending [of s] by (auto simp: about_to_fire_def w_def u_def s0_def set_state_def ring_ok_def pending_def)
  have pw: "posted now w xs = [c]" "\<not> polled now w xs" using w(4,7) by (simp_all add: posted_def polled_def)
  from expired_loop_posts [OF w(1,2), of now] obtain v where
    v: "expired_loop now None (timerlist (memory w)) w = Some v" "after_poll now w xs v" by blast
  note av = v(2) [unfolded after_poll_def pw]
  from av pw(2) obtain es k x m where ev: "v = w\<lparr>events := es, nevents := k, process_maxevents := x, memory := m\<rparr>" by auto
  define v' where "v' = set_state ?E PROCESS_STATE_RUNNING v"
  have "etimer_thread now (pr_pt u ?E) PROCESS_EVENT_POLL NoData w = Some v"
    using v(1) a by (simp add: etimer_thread_def process_codes about_to_fire_def u_def s0_def set_state_def)
  then have call: "call_process n ?T ?E PROCESS_EVENT_POLL NoData u = Some v'"
    unfolding v'_def w_def using n
    by (intro call_activation [where f = "etimer_thread now"]) (simp_all add: timer_threads_def u_def set_state_def process_codes)
  have nx: "pr_next v' = pr_next s0" "pr_needspoll v' = (pr_needspoll s0)(?E := False)"
    by (simp_all add: v'_def ev w_def u_def set_state_def)
  have "do_poll (call_process n ?T) s = poll_loop (call_process n ?T) (Some ?E) s0"
  proof -
    have "\<forall>p\<in>set as. \<not> pr_needspoll s0 p" using np ps by auto
    from poll_loop_skip [OF p0 this, of "call_process n ?T"] show ?thesis by (simp add: do_poll_def s0_def)
  qed
  also have "\<dots> = poll_loop (call_process n ?T) (pr_next v' ?E) v'"
    using np ps(1) call by (simp add: poll_loop_code u_def)
  also have "\<dots> = Some v'"
    using poll_loop_skip [of v' "pr_next v' ?E" bs "[]"] path_after [OF p0] np ps nx by (simp add: poll_loop_code)
  finally have d: "do_poll (call_process n ?T) s = Some v'" .
  have pend: "pending v = [\<lparr>ev_ev = PROCESS_EVENT_TIMER, ev_data = TimerData c, ev_p = Some ctimer_process\<rparr>]" "ring_ok v"
    using av w(3,5) by (simp_all add: timer_event_def)
  have same: "pending v' = pending v" "ring_ok v' = ring_ok v" "memory v' = memory v"
    by (simp_all add: v'_def set_state_def pending_def ring_ok_def)
  have "pr_state v' = pr_state s" "pr_pt v' = pr_pt s" "\<not> poll_requested v'"
    using st by (auto simp: v'_def ev w_def u_def s0_def set_state_def)
  moreover have "timers (memory v) (filter (\<lambda>x. x \<noteq> c) xs)" "et_p (memory v) = (et_p (memory s))(c := None)"
      "et_timer (memory v) = et_timer (memory s)" "etimer_state.more (memory v) = etimer_state.more (memory s)"
    using av w(6) by (auto simp: fun_eq_iff)
  ultimately show ?thesis using d pend same by (intro exI [of _ v']) simp
qed

text \<open>C37: An expired callback timer runs: one step of the main loop polls \<open>etimer_process\<close>, which
  posts the timer event to \<open>ctimer_process\<close>, and delivers it; the function of the timer is
  called once with its argument, as the process that had set the timer, and by then the
  timer is off both lists, so that the function may set it again.\<close>

theorem expired_callback_runs:
  assumes a: "about_to_fire now s ps xs cs c" and f: "cb_f (memory s) c = Some f" and n: "2 < n"
  shows "\<exists>m s1 s2. process_run n (timer_threads cb now T) s = Some (m, s2)
    \<and> s2 = set_state ctimer_process PROCESS_STATE_RUNNING
        ((cb f (cb_ptr (memory s) c) (s1\<lparr>process_current := cb_p (memory s) c\<rparr>))\<lparr>process_current := Some ctimer_process\<rparr>)
    \<and> timers (memory s1) (filter (\<lambda>x. x \<noteq> c) xs) \<and> etimer_expired c (memory s1)
    \<and> is_list (cb_list (memory s1)) () (remove1 c cs) \<and> pending s1 = []"
proof -
  let ?C = ctimer_process and ?T = "timer_threads cb now T"
  from poll_posts_timer [OF a n, of cb T] obtain v where
    v: "do_poll (call_process n ?T) s = Some v" "ring_ok v"
      "pending v = [\<lparr>ev_ev = PROCESS_EVENT_TIMER, ev_data = TimerData c, ev_p = Some ?C\<rparr>]"
      "pr_state v = pr_state s" "pr_pt v = pr_pt s" "timers (memory v) (filter (\<lambda>x. x \<noteq> c) xs)"
      "et_p (memory v) = (et_p (memory s))(c := None)" "etimer_state.more (memory v) = etimer_state.more (memory s)" by blast
  note mc = more_cong [OF v(8)]
  from next_event_refines [OF v(2,3)] obtain w where
    w: "next_event v = (\<lparr>ev_ev = PROCESS_EVENT_TIMER, ev_data = TimerData c, ev_p = Some ?C\<rparr>, w)" "pending w = []" by blast
  then have same: "memory w = memory v" "pr_state w = pr_state v" "pr_pt w = pr_pt v" by (auto simp: next_event_def)
  let ?w = "set_state ?C PROCESS_STATE_CALLED (w\<lparr>process_current := Some ?C\<rparr>)"
  have m: "memory ?w = memory v" "process_current ?w = Some ?C" "pending ?w = []"
    using same w(2) by (simp_all add: set_state_def pending_def)
  have l: "is_list (cb_list (memory ?w)) () cs" and pt: "pr_pt w ?C \<noteq> 0" and cs: "c \<in> set cs" and st: "pr_state w ?C = PROCESS_STATE_RUNNING"
    using a mc(1) m(1) same v(4,5) by (simp_all add: about_to_fire_def)
  from ctimer_event [OF l pt, of c cb now] obtain h s1 where
    s1: "s1 = ?w\<lparr>memory := (memory ?w)\<lparr>cb_list := h\<rparr>\<rparr>" "is_list h () (remove1 c cs)"
    and e: "ctimer_thread cb now (pr_pt w ?C) PROCESS_EVENT_TIMER (TimerData c) ?w
      = Some ((cb f (cb_ptr (memory s) c) (s1\<lparr>process_current := cb_p (memory s) c\<rparr>))\<lparr>process_current := Some ?C\<rparr>)"
    using cs f mc m by auto
  define s2 where "s2 = set_state ?C PROCESS_STATE_RUNNING
        ((cb f (cb_ptr (memory s) c) (s1\<lparr>process_current := cb_p (memory s) c\<rparr>))\<lparr>process_current := Some ?C\<rparr>)"
  have call: "call_process n ?T ?C PROCESS_EVENT_TIMER (TimerData c) w = Some s2"
    unfolding s2_def
    by (rule call_activation [where f = "ctimer_thread cb now", OF _ st _ n e]) (simp_all add: timer_threads_def etimer_process_def ctimer_process_def process_codes)
  have "0 < nevents v" using arg_cong [OF v(3), of length] by (simp add: word_less_nat_alt)
  then have "do_event (call_process n ?T) v = Some s2"
    using call by (simp add: do_event_def w(1) process_codes)
  then have "process_run n ?T s = Some (process_nevents s2, s2)"
    using v(1) a by (simp add: process_run_def about_to_fire_def)
  moreover have "timers (memory s1) (filter (\<lambda>x. x \<noteq> c) xs)" "etimer_expired c (memory s1)" "pending s1 = []"
    using v(6,7) m(1,3) by (simp_all add: s1(1) timers_def etimer_expired_def)
  ultimately show ?thesis using s1 s2_def by (intro exI [of _ "process_nevents s2"] exI [of _ s1] exI [of _ s2]) simp
qed

definition demo_firing :: "ctimer_state kernel" where
  "demo_firing = demo_ctimers\<lparr>poll_requested := True, pr_needspoll := (\<lambda>p. p = etimer_process)\<rparr>"

theorem expired_callback_runs_witness:
  "\<exists>m s1 s2. process_run 3 (timer_threads demo_callback 300 (\<lambda>_. None)) demo_firing = Some (m, s2)
     \<and> s2 = set_state ctimer_process PROCESS_STATE_RUNNING
        ((demo_callback 3 0 (s1\<lparr>process_current := Some 7\<rparr>))\<lparr>process_current := Some ctimer_process\<rparr>)
     \<and> timers (memory s1) [] \<and> is_list (cb_list (memory s1)) () [] \<and> pending s1 = []"
proof -
  have e: "filter (\<lambda>x. timer_expired 300 (et_timer (memory demo_firing) x)) [20] = [20]" by code_simp
  have a: "about_to_fire 300 demo_firing [etimer_process] [20] [20] 20"
    unfolding about_to_fire_def using e
    by (simp add: demo_firing_def demo_ctimers_def timers_def is_list_def ring_ok_def pending_def PROCESS_STATE_RUNNING_def)
  have f: "cb_f (memory demo_firing) 20 = Some 3" "cb_ptr (memory demo_firing) 20 = 0" "cb_p (memory demo_firing) 20 = Some 7"
    "(2 :: nat) < 3" by (simp_all add: demo_firing_def demo_ctimers_def)
  from expired_callback_runs [OF a f(1,4), of demo_callback "\<lambda>_. None", unfolded f(2,3)] show ?thesis by simp blast
qed

end
