(* ===== verification/Contiki_Mmem.thy ===== *)
theory Contiki_Mmem
  imports Contiki_List
begin

text \<open>
  The managed memory allocator \<open>core/lib/mmem.c\<close>. Allocations are handles (\<open>struct mmem\<close>)
  on the list \<open>mmemlist\<close>, each with a pointer into the array \<open>memory\<close> and a size; freeing
  one moves the bytes of the later ones down and adjusts their pointers. Pointers are
  offsets into \<open>memory\<close>. The list is the pointer-level list of \<open>Contiki_List\<close>, so an
  operation that would loop on a corrupted list has no result.
\<close>

section \<open>State and operations\<close>

definition MMEM_SIZE :: nat where
  "MMEM_SIZE = 4096"

record 'm mmem_state =
  mmemlist :: "(unit, 'm) lheap"
  avail_memory :: nat
  memory :: bytes
  ptr :: "'m \<Rightarrow> nat"
  msize :: "'m \<Rightarrow> nat"

text \<open>C's \<open>memmove\<close> inside one array.\<close>

definition memmove :: "nat \<Rightarrow> nat \<Rightarrow> nat \<Rightarrow> 'b list \<Rightarrow> 'b list" where
  "memmove dst src n xs = take dst xs @ take n (drop src xs) @ drop (dst + n) xs"

definition mmem_alloc :: "'m \<Rightarrow> nat \<Rightarrow> 'm mmem_state \<Rightarrow> (int \<times> 'm mmem_state) option" where
  "mmem_alloc m sz s =
     (if avail_memory s < sz then Some (0, s)
      else Option.bind (list_add () m (mmemlist s)) (\<lambda>h.
        Some (1, s\<lparr>mmemlist := h,
                   ptr := (ptr s)(m := MMEM_SIZE - avail_memory s),
                   msize := (msize s)(m := sz),
                   avail_memory := avail_memory s - sz\<rparr>)))"

partial_function (option) shift_loop ::
  "('l, 'm) lheap \<Rightarrow> nat \<Rightarrow> 'm option \<Rightarrow> ('m \<Rightarrow> nat) \<Rightarrow> ('m \<Rightarrow> nat) option" where
  "shift_loop h sz n pt = (case n of None \<Rightarrow> Some pt
     | Some x \<Rightarrow> shift_loop h sz (nxt h x) (pt(x := pt x - sz)))"

definition mmem_free :: "'m \<Rightarrow> 'm mmem_state \<Rightarrow> 'm mmem_state option" where
  "mmem_free m s =
     Option.bind
       (case nxt (mmemlist s) m of None \<Rightarrow> Some s
        | Some n \<Rightarrow>
           (let s1 = s\<lparr>memory := memmove (ptr s m) (ptr s n)
                        ((MMEM_SIZE - avail_memory s) - ptr s n) (memory s)\<rparr>
            in map_option (\<lambda>pt. s1\<lparr>ptr := pt\<rparr>) (shift_loop (mmemlist s) (msize s m) (Some n) (ptr s))))
       (\<lambda>s2. map_option (\<lambda>h. s2\<lparr>avail_memory := avail_memory s2 + msize s2 m, mmemlist := h\<rparr>)
               (list_remove () m (mmemlist s2)))"

definition mmem_init :: "'m mmem_state \<Rightarrow> 'm mmem_state" where
  "mmem_init s = s\<lparr>mmemlist := list_init () (mmemlist s), avail_memory := MMEM_SIZE\<rparr>"

section \<open>Invariant\<close>

text \<open>The blocks lie one after the other, in list order, without gaps.\<close>

primrec contiguous :: "('m \<Rightarrow> nat) \<Rightarrow> ('m \<Rightarrow> nat) \<Rightarrow> nat \<Rightarrow> 'm list \<Rightarrow> bool" where
  "contiguous pt sz p [] \<longleftrightarrow> True"
| "contiguous pt sz p (x # xs) \<longleftrightarrow> pt x = p \<and> contiguous pt sz (p + sz x) xs"

definition mmem_inv :: "'m mmem_state \<Rightarrow> 'm list \<Rightarrow> bool" where
  "mmem_inv s xs \<longleftrightarrow> is_list (mmemlist s) () xs \<and> contiguous (ptr s) (msize s) 0 xs
     \<and> avail_memory s + sum_list (map (msize s) xs) = MMEM_SIZE \<and> length (memory s) = MMEM_SIZE"

text \<open>The bytes that a handle gives access to (\<open>MMEM_PTR\<close>).\<close>

definition contents :: "'m mmem_state \<Rightarrow> 'm \<Rightarrow> bytes" where
  "contents s m = seg (ptr s m) (msize s m) (memory s)"

lemma contiguous_append:
  "contiguous pt sz p (xs @ ys) \<longleftrightarrow>
     contiguous pt sz p xs \<and> contiguous pt sz (p + sum_list (map sz xs)) ys"
  by (induction xs arbitrary: p) (auto simp: add.assoc)

lemma contiguous_cong:
  "(\<And>x. x \<in> set xs \<Longrightarrow> pt x = pt' x \<and> sz x = sz' x) \<Longrightarrow> contiguous pt sz p xs = contiguous pt' sz' p xs"
  by (induction xs arbitrary: p) auto

lemma contiguous_bounds:
  "contiguous pt sz p xs \<Longrightarrow> x \<in> set xs \<Longrightarrow> p \<le> pt x \<and> pt x + sz x \<le> p + sum_list (map sz xs)"
  by (induction xs arbitrary: p) (auto, fastforce+)

lemma contiguous_disjoint:
  assumes "contiguous pt sz p xs" "x \<in> set xs" "y \<in> set xs" "x \<noteq> y"
  shows "{pt x..<pt x + sz x} \<inter> {pt y..<pt y + sz y} = {}"
  using assms
proof (induction xs arbitrary: p)
  case Nil
  then show ?case by simp
next
  case (Cons a xs)
  show ?case
  proof (cases "x = a \<or> y = a")
    case False
    with Cons show ?thesis by auto
  next
    case True
    have "p + sz a \<le> pt z" if "z \<in> set xs" for z
      using contiguous_bounds [of pt sz "p + sz a" xs z] Cons.prems(1) that by simp
    with True Cons.prems show ?thesis by fastforce
  qed
qed

lemma contiguous_shift:
  "contiguous pt sz (p + d) xs \<Longrightarrow> distinct xs \<Longrightarrow>
     contiguous (\<lambda>x. if x \<in> set xs then pt x - d else pt x) sz p xs"
proof (induction xs arbitrary: p)
  case Nil
  then show ?case by simp
next
  case (Cons a xs)
  then have "contiguous pt sz ((p + sz a) + d) xs" by (simp add: add.commute add.left_commute)
  with Cons have "contiguous (\<lambda>x. if x \<in> set xs then pt x - d else pt x) sz (p + sz a) xs" by simp
  moreover have "contiguous (\<lambda>x. if x \<in> set (a # xs) then pt x - d else pt x) sz (p + sz a) xs
      = contiguous (\<lambda>x. if x \<in> set xs then pt x - d else pt x) sz (p + sz a) xs"
    using Cons.prems by (intro contiguous_cong) auto
  ultimately show ?case using Cons.prems by simp
qed

lemma shift_loop_path:
  "path (nxt h) p xs \<Longrightarrow> distinct xs \<Longrightarrow>
     shift_loop h sz p pt = Some (\<lambda>x. if x \<in> set xs then pt x - sz else pt x)"
proof (induction xs arbitrary: p pt)
  case Nil
  then show ?case by (simp add: shift_loop.simps)
next
  case (Cons a xs)
  then have "shift_loop h sz p pt = shift_loop h sz (nxt h a) (pt(a := pt a - sz))"
    by (subst shift_loop.simps) simp
  with Cons show ?case by (auto simp: fun_eq_iff)
qed

section \<open>memmove\<close>

lemma length_memmove: "dst + n \<le> length xs \<Longrightarrow> src + n \<le> length xs \<Longrightarrow> length (memmove dst src n xs) = length xs"
  by (simp add: memmove_def)

lemma nth_memmove:
  assumes "dst + n \<le> length xs" "src + n \<le> length xs" "i < length xs"
  shows "memmove dst src n xs ! i =
    (if i < dst then xs ! i else if i < dst + n then xs ! (src + (i - dst)) else xs ! i)"
  using assms by (auto simp: memmove_def nth_append)

lemma seg_memmove_below:
  assumes "p + k \<le> dst" "dst + n \<le> length xs" "src + n \<le> length xs"
  shows "seg p k (memmove dst src n xs) = seg p k xs"
  using assms by (intro seg_eqI) (auto simp: length_memmove nth_memmove)

lemma seg_memmove_moved:
  assumes "src \<le> p" "p + k \<le> src + n" "dst + n \<le> length xs" "src + n \<le> length xs" "dst \<le> src"
  shows "seg (p - (src - dst)) k (memmove dst src n xs) = seg p k xs"
  using assms by (intro seg_eqI) (auto simp: length_memmove nth_memmove)

section \<open>Every operation keeps the invariant and the contents\<close>

lemma mmem_init_inv: "length (memory s) = MMEM_SIZE \<Longrightarrow> mmem_inv (mmem_init s) []"
  by (simp add: mmem_inv_def mmem_init_def list_init_refines)

lemma mmem_inv_bounds:
  assumes "mmem_inv s xs" "x \<in> set xs"
  shows "ptr s x + msize s x \<le> MMEM_SIZE - avail_memory s"
proof -
  from assms have "ptr s x + msize s x \<le> 0 + sum_list (map (msize s) xs)"
    using contiguous_bounds unfolding mmem_inv_def by metis
  moreover from assms(1) have "avail_memory s + sum_list (map (msize s) xs) = MMEM_SIZE"
    by (simp add: mmem_inv_def)
  ultimately show ?thesis by linarith
qed

lemma mmem_alloc_full: "avail_memory s < sz \<Longrightarrow> mmem_alloc m sz s = Some (0, s)"
  by (simp add: mmem_alloc_def)

lemma mmem_alloc_ok:
  assumes inv: "mmem_inv s xs" and new: "m \<notin> set xs" and sz: "sz \<le> avail_memory s"
  shows "\<exists>s'. mmem_alloc m sz s = Some (1, s') \<and> mmem_inv s' (xs @ [m])
    \<and> (\<forall>x \<in> set xs. contents s' x = contents s x) \<and> length (contents s' m) = sz"
proof -
  from inv have l: "is_list (mmemlist s) () xs" by (simp add: mmem_inv_def)
  from list_add_refines [OF l, of m] obtain h where
    h: "list_add () m (mmemlist s) = Some h" "is_list h () (xs @ [m])"
    using new by (auto simp: lst_add_def)
  define s' where "s' = s\<lparr>mmemlist := h, ptr := (ptr s)(m := MMEM_SIZE - avail_memory s),
     msize := (msize s)(m := sz), avail_memory := avail_memory s - sz\<rparr>"
  have al: "mmem_alloc m sz s = Some (1, s')" using sz h(1) by (simp add: mmem_alloc_def s'_def)
  have sums: "sum_list (map ((msize s)(m := sz)) xs) = sum_list (map (msize s) xs)"
    using new by (intro arg_cong [where f = sum_list]) auto
  have "contiguous ((ptr s)(m := MMEM_SIZE - avail_memory s)) ((msize s)(m := sz)) 0 xs
      = contiguous (ptr s) (msize s) 0 xs"
    using new by (intro contiguous_cong) auto
  with inv sums sz h(2) have "mmem_inv s' (xs @ [m])"
    by (auto simp: mmem_inv_def s'_def contiguous_append)
  moreover have "\<forall>x \<in> set xs. contents s' x = contents s x"
    using new by (auto simp: contents_def s'_def)
  moreover have "length (contents s' m) = sz"
    using inv sz unfolding contents_def s'_def mmem_inv_def by (subst length_seg) auto
  ultimately show ?thesis using al by blast
qed

lemma mmem_free_ok:
  assumes inv: "mmem_inv s xs" and m: "m \<in> set xs"
  shows "\<exists>s'. mmem_free m s = Some s' \<and> mmem_inv s' (remove1 m xs)
    \<and> avail_memory s' = avail_memory s + msize s m
    \<and> (\<forall>x \<in> set xs - {m}. contents s' x = contents s x)"
proof -
  from inv have l: "is_list (mmemlist s) () xs" and ctg: "contiguous (ptr s) (msize s) 0 xs"
    and av: "avail_memory s + sum_list (map (msize s) xs) = MMEM_SIZE"
    and len: "length (memory s) = MMEM_SIZE" by (auto simp: mmem_inv_def)
  from m obtain as bs where xs: "xs = as @ m # bs" by (auto dest: split_list)
  from l xs have d: "distinct (as @ m # bs)" by (simp add: is_list_def)
  have rm: "remove1 m xs = as @ bs" using d xs by (simp add: remove1_append)
  have pb: "path (nxt (mmemlist s)) (nxt (mmemlist s) m) bs"
    using l xs path_after [of "nxt (mmemlist s)" _ as m bs] by (auto simp: is_list_def)
  let ?A = "sum_list (map (msize s) as)" and ?B = "sum_list (map (msize s) bs)"
  have ca: "contiguous (ptr s) (msize s) 0 as" and pm: "ptr s m = ?A"
    and cb: "contiguous (ptr s) (msize s) (?A + msize s m) bs"
    using ctg xs by (auto simp: contiguous_append)
  have tot: "avail_memory s + (?A + msize s m + ?B) = MMEM_SIZE" using av xs by simp
  define pt where "pt = (\<lambda>x. if x \<in> set bs then ptr s x - msize s m else ptr s x)"
  define mm where "mm = (if bs = [] then memory s
      else memmove ?A (?A + msize s m) ?B (memory s))"
  from list_remove_refines [OF l, of m] obtain h where
    h: "list_remove () m (mmemlist s) = Some h" "is_list h () (as @ bs)" using rm by auto
  define s' where "s' = s\<lparr>memory := mm, ptr := pt, avail_memory := avail_memory s + msize s m, mmemlist := h\<rparr>"
  have fr: "mmem_free m s = Some s'"
  proof (cases bs)
    case Nil
    with pb have "nxt (mmemlist s) m = None" by simp
    moreover have "pt = ptr s" using Nil by (simp add: pt_def)
    ultimately show ?thesis using h(1) Nil by (simp add: mmem_free_def s'_def mm_def)
  next
    case (Cons n bs')
    with pb have n: "nxt (mmemlist s) m = Some n" by simp
    have pn: "ptr s n = ?A + msize s m" using cb Cons by simp
    have sh: "shift_loop (mmemlist s) (msize s m) (Some n) (ptr s) = Some pt"
      using shift_loop_path [of "mmemlist s" "Some n" bs "msize s m" "ptr s"] pb n d
      by (simp add: pt_def)
    have "MMEM_SIZE - avail_memory s - (?A + msize s m) = ?B" using tot by simp
    with n pn sh h(1) pm Cons show ?thesis
      by (simp add: mmem_free_def s'_def mm_def Let_def)
  qed
  have lm: "length mm = MMEM_SIZE" using len tot by (auto simp: mm_def length_memmove)
  have "contiguous pt (msize s) 0 as"
    using ca d by (subst contiguous_cong [of as pt "ptr s" "msize s" "msize s"]) (auto simp: pt_def)
  moreover have "contiguous pt (msize s) ?A bs"
    using contiguous_shift [OF cb] d by (simp add: pt_def)
  ultimately have "mmem_inv s' (as @ bs)"
    using h(2) tot lm by (simp add: mmem_inv_def s'_def contiguous_append)
  moreover have "contents s' x = contents s x" if x: "x \<in> set xs - {m}" for x
  proof (cases "x \<in> set as")
    case True
    have "ptr s x + msize s x \<le> ?A" using contiguous_bounds [OF ca True] by simp
    moreover have "x \<notin> set bs" using True d by auto
    ultimately show ?thesis using tot len
      by (auto simp: contents_def s'_def pt_def mm_def seg_memmove_below)
  next
    case False
    with x xs have xb: "x \<in> set bs" by auto
    from contiguous_bounds [OF cb xb] have b: "?A + msize s m \<le> ptr s x"
      "ptr s x + msize s x \<le> ?A + msize s m + ?B" by auto
    have "seg (ptr s x - msize s m) (msize s x) (memmove ?A (?A + msize s m) ?B (memory s))
        = seg (ptr s x) (msize s x) (memory s)"
      using seg_memmove_moved [of "?A + msize s m" "ptr s x" "msize s x" ?B ?A "memory s"] b tot len by simp
    with xb show ?thesis by (auto simp: contents_def s'_def pt_def mm_def)
  qed
  ultimately show ?thesis using fr rm by (auto simp: s'_def)
qed

section \<open>Properties\<close>

text \<open>\<open>mmem_free\<close> always finishes, gives the size of the block back, keeps the memory
  compact, and every other handle still reaches the same bytes through its new pointer.\<close>

theorem mmem_free_compacts:
  assumes "mmem_inv s xs" "m \<in> set xs"
  shows "\<exists>s'. mmem_free m s = Some s' \<and> mmem_inv s' (remove1 m xs)
    \<and> avail_memory s' = avail_memory s + msize s m
    \<and> (\<forall>x \<in> set xs - {m}. contents s' x = contents s x)"
  using assms by (rule mmem_free_ok)

definition demo_mmem :: "nat mmem_state" where
  "demo_mmem = \<lparr>mmemlist = \<lparr>cell = (\<lambda>_. Some 1), nxt = (\<lambda>x. if x = 1 then Some 2 else None)\<rparr>,
     avail_memory = 4096 - 5, memory = replicate 4096 7, ptr = (\<lambda>x. if x = 1 then 0 else 2),
     msize = (\<lambda>x. if x = 1 then 2 else 3)\<rparr>"

lemma demo_mmem_inv: "mmem_inv demo_mmem [1, 2]"
  by (simp add: mmem_inv_def demo_mmem_def is_list_def MMEM_SIZE_def)

theorem mmem_free_compacts_witness:
  "\<exists>s'. mmem_free 1 demo_mmem = Some s' \<and> mmem_inv s' [2]
    \<and> avail_memory s' = avail_memory demo_mmem + msize demo_mmem 1
    \<and> (\<forall>x \<in> set [1, 2] - {1}. contents s' x = contents demo_mmem x)"
  using mmem_free_compacts [OF demo_mmem_inv, of 1] by simp

end
