(* ===== verification/Contiki_Ringbuf.thy ===== *)
theory Contiki_Ringbuf
  imports Contiki_Prelude
begin

text \<open>
  The byte ring buffer \<open>core/lib/ringbuf.c\<close>, with its 8-bit put and get indices and
  their masked wrap-around, and its refinement to a queue of at most \<open>size - 1\<close> bytes.
  The contract of a bounded queue is the locale \<open>bounded_fifo\<close>.
\<close>

section \<open>State and operations\<close>

record ringbuf =
  data :: bytes
  msk :: u8
  put_ptr :: u8
  get_ptr :: u8

definition ringbuf_init :: "bytes \<Rightarrow> u8 \<Rightarrow> ringbuf" where
  "ringbuf_init dataptr sz = \<lparr>data = dataptr, msk = sz - 1, put_ptr = 0, get_ptr = 0\<rparr>"

definition ringbuf_put :: "u8 \<Rightarrow> ringbuf \<Rightarrow> int \<times> ringbuf" where
  "ringbuf_put c r =
     (if (put_ptr r - get_ptr r) AND msk r = msk r then (0, r)
      else (1, r\<lparr>data := (data r)[unat (put_ptr r) := c],
                put_ptr := (put_ptr r + 1) AND msk r\<rparr>))"

definition ringbuf_get :: "ringbuf \<Rightarrow> int \<times> ringbuf" where
  "ringbuf_get r =
     (if 0 < (put_ptr r - get_ptr r) AND msk r
      then (uint (data r ! unat (get_ptr r)), r\<lparr>get_ptr := (get_ptr r + 1) AND msk r\<rparr>)
      else (-1, r))"

definition ringbuf_size :: "ringbuf \<Rightarrow> int" where
  "ringbuf_size r = uint (msk r) + 1"

definition ringbuf_elements :: "ringbuf \<Rightarrow> int" where
  "ringbuf_elements r = uint ((put_ptr r - get_ptr r) AND msk r)"

section \<open>Invariant and abstraction\<close>

text \<open>
  A buffer of \<open>2 ^ k\<close> bytes, as the header file requires (a power of two, at most 128),
  with both indices inside it.
\<close>

definition ringbuf_inv :: "nat \<Rightarrow> ringbuf \<Rightarrow> bool" where
  "ringbuf_inv k r \<longleftrightarrow> k \<le> 7 \<and> msk r = mask k \<and> length (data r) = 2 ^ k
     \<and> unat (put_ptr r) < 2 ^ k \<and> unat (get_ptr r) < 2 ^ k"

definition ringbuf_list :: "nat \<Rightarrow> ringbuf \<Rightarrow> bytes" where
  "ringbuf_list k r = map (\<lambda>i. data r ! ((unat (get_ptr r) + i) mod 2 ^ k))
     [0..<(unat (put_ptr r) + 2 ^ k - unat (get_ptr r)) mod 2 ^ k]"

lemma unat_mask_u8:
  assumes "k \<le> 7"
  shows "unat (mask k :: u8) = 2 ^ k - 1"
proof -
  have "k \<in> {0, 1, 2, 3, 4, 5, 6, 7}" using assms by auto
  then show ?thesis by (auto simp: mask_eq_decr_exp)
qed

lemma pow_dvd_256: "k \<le> 7 \<Longrightarrow> (2::nat) ^ k dvd 256"
proof -
  assume "k \<le> 7"
  then have "(2::nat) ^ k dvd 2 ^ 8" by (intro le_imp_power_dvd) simp
  then show ?thesis by simp
qed

lemma masked_diff:
  assumes "ringbuf_inv k r"
  shows "unat ((put_ptr r - get_ptr r) AND msk r)
    = (unat (put_ptr r) + 2 ^ k - unat (get_ptr r)) mod 2 ^ k"
proof -
  from assms have k: "k \<le> 7" and m: "msk r = mask k" and g: "unat (get_ptr r) < 2 ^ k"
    by (auto simp: ringbuf_inv_def)
  from pow_dvd_256 [OF k] obtain q where q: "(256::nat) = 2 ^ k * q" by (auto elim: dvdE)
  then have q0: "0 < q" by (cases q) auto
  have "unat (put_ptr r - get_ptr r) mod 2 ^ k
      = (unat (put_ptr r) + 256 - unat (get_ptr r)) mod 256 mod 2 ^ k"
    by (simp add: unat_minus_word)
  also have "\<dots> = (unat (put_ptr r) + 256 - unat (get_ptr r)) mod 2 ^ k"
    using pow_dvd_256 [OF k] by (rule mod_mod_cancel)
  also have "unat (put_ptr r) + 256 - unat (get_ptr r)
      = (unat (put_ptr r) + 2 ^ k - unat (get_ptr r)) + 2 ^ k * (q - 1)"
    using q q0 g by (cases q) auto
  also have "\<dots> mod 2 ^ k = (unat (put_ptr r) + 2 ^ k - unat (get_ptr r)) mod 2 ^ k"
    by simp
  finally show ?thesis using m by (simp add: unat_and_mask)
qed

lemma length_ringbuf_list: "ringbuf_inv k r \<Longrightarrow> int (length (ringbuf_list k r)) = ringbuf_elements r"
  by (simp add: ringbuf_list_def ringbuf_elements_def masked_diff [symmetric])

lemma ring_index_less:
  assumes "i < j" "j < (N::nat)"
  shows "(g + i) mod N \<noteq> (g + j) mod N"
proof
  assume "(g + i) mod N = (g + j) mod N"
  then have "(g + j) mod N = (g + i) mod N" by simp
  then have "N dvd (g + j) - (g + i)" using assms by (subst (asm) mod_eq_dvd_iff_nat) simp_all
  with assms show False by (simp add: nat_dvd_not_less)
qed

lemma ring_index_inj: "i < (N::nat) \<Longrightarrow> j < N \<Longrightarrow> (g + i) mod N = (g + j) mod N \<Longrightarrow> i = j"
  using ring_index_less [of i j N g] ring_index_less [of j i N g] by (metis nat_neq_iff)

lemma ring_put_index:
  assumes "p < (N::nat)" "g < N"
  shows "(g + (p + N - g) mod N) mod N = p"
proof -
  have "(g + (p + N - g) mod N) mod N = (g + (p + N - g)) mod N" by (simp add: mod_add_right_eq)
  also have "\<dots> = p" using assms by simp
  finally show ?thesis .
qed

lemma ring_put_count:
  assumes "p < (N::nat)" "g < N" "(p + N - g) mod N < N - 1"
  shows "((p + 1) mod N + N - g) mod N = Suc ((p + N - g) mod N)"
proof -
  have "((p + 1) mod N + N - g) mod N = ((p + 1) mod N + (N - g)) mod N" using assms by simp
  also have "\<dots> = (p + 1 + (N - g)) mod N" by (simp add: mod_add_left_eq)
  also have "p + 1 + (N - g) = Suc (p + N - g)" using assms by simp
  also have "Suc (p + N - g) mod N = Suc ((p + N - g) mod N)" using assms(3) by (simp add: mod_Suc)
  finally show ?thesis .
qed

lemma ring_get_count:
  assumes "p < (N::nat)" "g < N" "0 < (p + N - g) mod N"
  shows "(p + N - (g + 1) mod N) mod N = (p + N - g) mod N - 1"
proof (cases "g + 1 = N")
  case True
  then have "(p + N - (g + 1) mod N) mod N = p" using assms by simp
  moreover have "p + N - g = p + 1" using True by linarith
  ultimately show ?thesis using assms True by (auto simp: mod_Suc split: if_splits)
next
  case False
  then have "(p + N - (g + 1) mod N) mod N = (p + N - g - 1) mod N" using assms by simp
  moreover have "Suc (p + N - g - 1) = p + N - g" using assms by simp
  ultimately show ?thesis using assms by (metis diff_Suc_1 mod_Suc neq0_conv)
qed

section \<open>Refinement to a bounded queue\<close>

lemma ringbuf_init_refines:
  assumes "k \<le> 7" "sz = 2 ^ k" "length d = 2 ^ k"
  shows "ringbuf_inv k (ringbuf_init d sz) \<and> ringbuf_list k (ringbuf_init d sz) = []"
  using assms by (simp add: ringbuf_inv_def ringbuf_init_def ringbuf_list_def mask_eq_decr_exp)

lemma ringbuf_full_iff:
  assumes inv: "ringbuf_inv k r"
  shows "(put_ptr r - get_ptr r) AND msk r = msk r \<longleftrightarrow> length (ringbuf_list k r) = 2 ^ k - 1"
proof -
  from inv have k: "k \<le> 7" and m: "msk r = mask k" by (auto simp: ringbuf_inv_def)
  have "(put_ptr r - get_ptr r) AND msk r = msk r
    \<longleftrightarrow> unat ((put_ptr r - get_ptr r) AND msk r) = unat (msk r)" by (rule word_unat_eq_iff)
  also have "\<dots> \<longleftrightarrow> length (ringbuf_list k r) = 2 ^ k - 1"
    using masked_diff [OF inv] unat_mask_u8 [OF k] by (simp add: ringbuf_list_def m)
  finally show ?thesis .
qed

lemma unat_inc_masked:
  assumes "k \<le> 7" "unat (x::u8) < 2 ^ k"
  shows "unat ((x + 1) AND mask k) = (unat x + 1) mod 2 ^ k"
proof -
  have "(2::nat) ^ k \<le> 2 ^ 7" using assms(1) by (intro power_increasing) auto
  with assms(2) have "unat (x + 1) = unat x + 1" by (simp add: unat_word_ariths)
  then show ?thesis by (simp add: unat_and_mask)
qed

lemma ringbuf_put_refines:
  assumes inv: "ringbuf_inv k r"
  shows "\<exists>r'. ringbuf_put c r = (if length (ringbuf_list k r) < 2 ^ k - 1 then 1 else 0, r')
    \<and> ringbuf_inv k r'
    \<and> ringbuf_list k r' = (if length (ringbuf_list k r) < 2 ^ k - 1
         then ringbuf_list k r @ [c] else ringbuf_list k r)"
proof -
  let ?N = "2 ^ k :: nat" and ?p = "unat (put_ptr r)" and ?g = "unat (get_ptr r)"
  let ?n = "(?p + ?N - ?g) mod ?N"
  from inv have k: "k \<le> 7" and m: "msk r = mask k" and len: "length (data r) = ?N"
    and p: "?p < ?N" and g: "?g < ?N" by (auto simp: ringbuf_inv_def)
  have ln: "length (ringbuf_list k r) = ?n" by (simp add: ringbuf_list_def)
  have nN: "?n < ?N" by simp
  show ?thesis
  proof (cases "?n = ?N - 1")
    case True
    with ringbuf_full_iff [OF inv] inv ln show ?thesis by (auto simp: ringbuf_put_def)
  next
    case False
    with nN have lt: "?n < ?N - 1" by linarith
    define r' where "r' = r\<lparr>data := (data r)[?p := c], put_ptr := (put_ptr r + 1) AND msk r\<rparr>"
    have "ringbuf_put c r = (1, r')"
      using ringbuf_full_iff [OF inv] ln False by (simp add: ringbuf_put_def r'_def)
    moreover have p': "unat (put_ptr r') = (?p + 1) mod ?N"
      using unat_inc_masked [OF k p] m by (simp add: r'_def)
    moreover have "ringbuf_inv k r'"
      using inv p' by (simp add: ringbuf_inv_def r'_def)
    moreover have "ringbuf_list k r' = ringbuf_list k r @ [c]"
    proof -
      have same: "(data r)[?p := c] ! ((?g + i) mod ?N) = data r ! ((?g + i) mod ?N)" if "i < ?n" for i
      proof -
        have "(?g + i) mod ?N \<noteq> ?p"
          using ring_index_inj [of i ?N ?n ?g] ring_put_index [OF p g] that nN by auto
        then show ?thesis by simp
      qed
      have "(data r)[?p := c] ! ((?g + ?n) mod ?N) = c"
        using ring_put_index [OF p g] p len by simp
      with same show ?thesis
        using ring_put_count [OF p g lt] p' by (simp add: ringbuf_list_def r'_def)
    qed
    ultimately show ?thesis using lt ln by auto
  qed
qed

lemma ringbuf_get_refines:
  assumes inv: "ringbuf_inv k r"
  shows "\<exists>r'. ringbuf_get r = (case ringbuf_list k r of [] \<Rightarrow> -1 | x # _ \<Rightarrow> uint x, r')
    \<and> ringbuf_inv k r' \<and> ringbuf_list k r' = tl (ringbuf_list k r)"
proof -
  let ?N = "2 ^ k :: nat" and ?p = "unat (put_ptr r)" and ?g = "unat (get_ptr r)"
  let ?n = "(?p + ?N - ?g) mod ?N"
  from inv have k: "k \<le> 7" and m: "msk r = mask k"
    and p: "?p < ?N" and g: "?g < ?N" by (auto simp: ringbuf_inv_def)
  have pos: "0 < (put_ptr r - get_ptr r) AND msk r \<longleftrightarrow> 0 < ?n"
    using masked_diff [OF inv] by (metis unat_gt_0 word_neq_0_conv)
  show ?thesis
  proof (cases "?n = 0")
    case True
    then have "ringbuf_list k r = []" by (simp add: ringbuf_list_def)
    with pos True inv show ?thesis by (simp add: ringbuf_get_def)
  next
    case False
    define r' where "r' = r\<lparr>get_ptr := (get_ptr r + 1) AND msk r\<rparr>"
    have g': "unat (get_ptr r') = (?g + 1) mod ?N"
      using unat_inc_masked [OF k g] m by (simp add: r'_def)
    have cnt: "(?p + ?N - (?g + 1) mod ?N) mod ?N = ?n - 1"
      using ring_get_count [OF p g] False by simp
    have hd: "ringbuf_list k r = data r ! ?g # map (\<lambda>i. data r ! ((?g + Suc i) mod ?N)) [0..<?n - 1]"
    proof -
      from False obtain n where n: "?n = Suc n" by (cases ?n) auto
      then have "ringbuf_list k r = map (\<lambda>i. data r ! ((?g + i) mod ?N)) (0 # map Suc [0..<n])"
        by (simp only: ringbuf_list_def map_Suc_upt upt_conv_Cons [OF zero_less_Suc])
      with n g show ?thesis by (simp add: comp_def del: upt_Suc)
    qed
    have "ringbuf_list k r' = map (\<lambda>i. data r ! ((?g + Suc i) mod ?N)) [0..<?n - 1]"
      using cnt g' by (simp add: ringbuf_list_def r'_def mod_add_left_eq)
    moreover have "ringbuf_get r = (uint (data r ! ?g), r')"
      using pos False by (simp add: ringbuf_get_def r'_def)
    moreover have "ringbuf_inv k r'" using inv g' by (simp add: ringbuf_inv_def r'_def)
    ultimately show ?thesis using hd by simp
  qed
qed

section \<open>The contract as a locale\<close>

locale bounded_fifo =
  fixes inv :: "'q \<Rightarrow> bool" and content :: "'q \<Rightarrow> u8 list" and cap :: nat
    and put :: "u8 \<Rightarrow> 'q \<Rightarrow> int \<times> 'q" and get :: "'q \<Rightarrow> int \<times> 'q"
  assumes put_law: "inv q \<Longrightarrow> \<exists>q'. put c q = (if length (content q) < cap then 1 else 0, q') \<and> inv q'
      \<and> content q' = (if length (content q) < cap then content q @ [c] else content q)"
    and get_law: "inv q \<Longrightarrow> \<exists>q'. get q = (case content q of [] \<Rightarrow> -1 | x # _ \<Rightarrow> uint x, q') \<and> inv q'
      \<and> content q' = tl (content q)"
begin

primrec put_all :: "u8 list \<Rightarrow> 'q \<Rightarrow> 'q" where
  "put_all [] q = q"
| "put_all (c # cs) q = put_all cs (snd (put c q))"

primrec get_n :: "nat \<Rightarrow> 'q \<Rightarrow> int list \<times> 'q" where
  "get_n 0 q = ([], q)"
| "get_n (Suc n) q = (case get q of (x, q1) \<Rightarrow> (case get_n n q1 of (xs, q2) \<Rightarrow> (x # xs, q2)))"

lemma put_all_abs:
  "inv q \<Longrightarrow> length (content q) \<le> cap \<Longrightarrow>
     inv (put_all cs q) \<and> content (put_all cs q) = take cap (content q @ cs)"
proof (induction cs arbitrary: q)
  case Nil
  then show ?case by simp
next
  case (Cons c cs)
  from put_law [OF Cons.prems(1), of c] obtain q' where
    q': "put c q = (if length (content q) < cap then 1 else 0, q')" "inv q'"
    "content q' = (if length (content q) < cap then content q @ [c] else content q)" by blast
  show ?case
  proof (cases "length (content q) < cap")
    case True
    then obtain n where "cap - length (content q) = Suc n" by (metis Suc_diff_Suc)
    with True q' Cons.IH [OF q'(2)] Cons.prems(2) show ?thesis by (auto simp: Suc_diff_Suc)
  next
    case False
    with q' Cons.IH [OF q'(2)] Cons.prems(2) show ?thesis by simp
  qed
qed

lemma get_n_abs:
  "inv q \<Longrightarrow> n \<le> length (content q) \<Longrightarrow>
     \<exists>q'. get_n n q = (map uint (take n (content q)), q') \<and> inv q' \<and> content q' = drop n (content q)"
proof (induction n arbitrary: q)
  case 0
  then show ?case by simp
next
  case (Suc n)
  then obtain x xs where xs: "content q = x # xs" by (cases "content q") auto
  from get_law [OF Suc.prems(1)] xs obtain q1 where
    q1: "get q = (uint x, q1)" "inv q1" "content q1 = xs" by auto
  from Suc.IH [OF q1(2)] Suc.prems(2) q1 xs show ?case by auto
qed

text \<open>What goes in comes out, in order, up to the capacity.\<close>

lemma fifo_order:
  assumes "inv q" "content q = []" "length cs \<le> cap"
  shows "\<exists>q'. get_n (length cs) (put_all cs q) = (map uint cs, q') \<and> inv q' \<and> content q' = []"
  using put_all_abs [OF assms(1), of cs] get_n_abs [of "put_all cs q" "length cs"] assms(2,3) by simp

lemma put_full:
  assumes "inv q" "length (content q) = cap"
  shows "fst (put c q) = 0 \<and> content (snd (put c q)) = content q"
  using put_law [OF assms(1), of c] assms(2) by auto

end

interpretation ring: bounded_fifo "ringbuf_inv k" "ringbuf_list k" "2 ^ k - 1" ringbuf_put ringbuf_get for k
proof (unfold_locales, goal_cases)
  case (1 q c) then show ?case by (rule ringbuf_put_refines)
next
  case (2 q) then show ?case by (rule ringbuf_get_refines)
qed

section \<open>Properties\<close>

text \<open>Bytes put into an empty ring buffer, up to its capacity of \<open>size - 1\<close>, come out of
  \<open>ringbuf_get\<close> in the same order, wherever the indices stood and however they wrap.\<close>

theorem ringbuf_fifo:
  assumes "ringbuf_inv k r" "ringbuf_elements r = 0" "length cs \<le> 2 ^ k - 1"
  shows "\<exists>r'. ring.get_n (length cs) (ring.put_all cs r) = (map uint cs, r')
     \<and> ringbuf_inv k r' \<and> ringbuf_elements r' = 0"
proof -
  from assms(2) length_ringbuf_list [OF assms(1)] have "ringbuf_list k r = []" by simp
  from ring.fifo_order [OF assms(1) this assms(3)] show ?thesis
    using length_ringbuf_list by fastforce
qed

definition demo_ring :: ringbuf where
  "demo_ring = \<lparr>data = [0, 0, 0, 0], msk = 3, put_ptr = 3, get_ptr = 3\<rparr>"

lemma demo_ring_inv: "ringbuf_inv 2 demo_ring" "ringbuf_elements demo_ring = 0"
  by (simp_all add: ringbuf_inv_def demo_ring_def ringbuf_elements_def mask_eq_exp_minus_1)

theorem ringbuf_fifo_witness:
  "\<exists>r'. ring.get_n (length [9, 8, 7 :: u8]) (ring.put_all [9, 8, 7] demo_ring) = (map uint [9, 8, 7 :: u8], r')
     \<and> ringbuf_inv 2 r' \<and> ringbuf_elements r' = 0"
  by (rule ringbuf_fifo [OF demo_ring_inv]) simp

end
