(* ===== verification/Rpl_Of.thy ===== *)
theory Rpl_Of
  imports Rpl_Types
begin

text \<open>
  The objective functions \<open>core/net/rpl/rpl-of-etx.c\<close> and \<open>core/net/rpl/rpl-of0.c\<close>. All
  arithmetic is in the 16-bit \<open>unsigned int\<close> of the sky platform. What the DAG code
  relies on is the locale \<open>objective_function\<close>, which both implementations interpret.
\<close>

section \<open>ETX objective function\<close>

definition RPL_DAG_MC_ETX_DIVISOR :: u16 where "RPL_DAG_MC_ETX_DIVISOR = 128"
definition MAX_PATH_COST :: u16 where "MAX_PATH_COST = 100"

text \<open>\<open>PARENT_SWITCH_THRESHOLD_DIV\<close> is 2.\<close>

definition MIN_DIFF :: u16 where "MIN_DIFF = RPL_DAG_MC_ETX_DIVISOR div 2"

definition NI_ETX_TO_RPL_ETX :: "u8 \<Rightarrow> u16" where
  "NI_ETX_TO_RPL_ETX e = ucast e * (RPL_DAG_MC_ETX_DIVISOR div 16)"

lemmas of_consts = RPL_DAG_MC_ETX_DIVISOR_def MAX_PATH_COST_def MIN_DIFF_def NI_ETX_TO_RPL_ETX_def

definition calculate_path_metric :: "node \<Rightarrow> nat option \<Rightarrow> u16" where
  "calculate_path_metric s p = (case p of
     None \<Rightarrow> MAX_PATH_COST * RPL_DAG_MC_ETX_DIVISOR
   | Some i \<Rightarrow>
       (if mc_obj (p_mc (PAR s i)) = 0 \<and> ROOT_RANK (DAG s (p_dag (PAR s i))) < p_rank (PAR s i)
        then MAX_PATH_COST * RPL_DAG_MC_ETX_DIVISOR
        else mc_obj (p_mc (PAR s i)) + NI_ETX_TO_RPL_ETX (p_link_metric (PAR s i))))"

definition etx_reset :: "nat \<Rightarrow> node \<Rightarrow> node" where
  "etx_reset d s = s"

definition etx_parent_state_callback :: "nat \<Rightarrow> bool \<Rightarrow> u16 \<Rightarrow> node \<Rightarrow> node" where
  "etx_parent_state_callback p known etx s = s"

text \<open>The rank increase for a parent, or the default one.\<close>

definition etx_rank_increase :: "node \<Rightarrow> nat option \<Rightarrow> u16" where
  "etx_rank_increase s p = (case p of
     None \<Rightarrow> ucast (NEIGHBOR_INFO_FIX2ETX INITIAL_LINK_METRIC) * DEFAULT_MIN_HOPRANKINC
   | Some i \<Rightarrow> ucast (NEIGHBOR_INFO_FIX2ETX (p_link_metric (PAR s i)))
                * cf_min_hoprankinc (d_config (DAG s (p_dag (PAR s i)))))"

definition etx_calculate_rank :: "node \<Rightarrow> nat option \<Rightarrow> u16 \<Rightarrow> u16" where
  "etx_calculate_rank s p base_rank0 =
     (if p = None \<and> base_rank0 = 0 then INFINITE_RANK
      else
        (let rank_increase = etx_rank_increase s p;
             base_rank = (case p of Some i \<Rightarrow> if base_rank0 = 0 then p_rank (PAR s i) else base_rank0
                                  | None \<Rightarrow> base_rank0)
         in if INFINITE_RANK - base_rank < rank_increase then INFINITE_RANK
            else base_rank + rank_increase))"

definition etx_best_parent :: "node \<Rightarrow> nat \<Rightarrow> nat \<Rightarrow> nat option" where
  "etx_best_parent s p1 p2 =
     (let pref = d_preferred_parent (DAG s (p_dag (PAR s p1)));
          p1_metric = calculate_path_metric s (Some p1);
          p2_metric = calculate_path_metric s (Some p2)
      in if (pref = Some p1 \<or> pref = Some p2)
            \<and> p1_metric < p2_metric + MIN_DIFF \<and> p2_metric - MIN_DIFF < p1_metric
         then pref
         else if p1_metric < p2_metric then Some p1 else Some p2)"

definition etx_update_metric_container :: "nat \<Rightarrow> node \<Rightarrow> node" where
  "etx_update_metric_container d s =
     (let path_metric = (if d_rank (DAG s d) = ROOT_RANK (DAG s d) then 0
                         else calculate_path_metric s (d_preferred_parent (DAG s d)))
      in upd_dag d (\<lambda>D. D\<lparr>d_mc := (d_mc D)\<lparr>mc_flags := RPL_DAG_MC_FLAG_P, mc_aggr := 0, mc_prec := 0,
           mc_type := RPL_DAG_MC_ETX, mc_length := 2, mc_obj := path_metric\<rparr>\<rparr>) s)"

definition etx_p2p_route_cmp :: "node \<Rightarrow> nat \<Rightarrow> rpl_dio \<Rightarrow> nat option \<Rightarrow> int" where
  "etx_p2p_route_cmp s d dio p =
     (let dag_metric = mc_obj (d_mc (DAG s d));
          dio_metric = mc_obj (o_mc dio)
            + (case p of Some i \<Rightarrow> NI_ETX_TO_RPL_ETX (p_link_metric (PAR s i)) | None \<Rightarrow> 0)
      in if dag_metric - MIN_DIFF < dio_metric \<and> dio_metric < dag_metric + MIN_DIFF then 0
         else if dag_metric < dio_metric then -1 else 1)"

section \<open>Objective function zero\<close>

definition MIN_DIFFERENCE :: u16 where "MIN_DIFFERENCE = 16"

definition of0_reset :: "nat \<Rightarrow> node \<Rightarrow> node" where
  "of0_reset d s = s"

definition of0_calculate_rank :: "node \<Rightarrow> nat option \<Rightarrow> u16 \<Rightarrow> u16" where
  "of0_calculate_rank s p base_rank0 =
     (if base_rank0 = 0 \<and> p = None then INFINITE_RANK
      else
        (let base_rank = (case p of Some i \<Rightarrow> if base_rank0 = 0 then p_rank (PAR s i) else base_rank0
                                  | None \<Rightarrow> base_rank0);
             increment = (case p of Some i \<Rightarrow> cf_min_hoprankinc (d_config (DAG s (p_dag (PAR s i))))
                                  | None \<Rightarrow> DEFAULT_MIN_HOPRANKINC)
         in if base_rank + increment < base_rank then INFINITE_RANK else base_rank + increment))"

definition of0_best_parent :: "node \<Rightarrow> nat \<Rightarrow> nat \<Rightarrow> nat option" where
  "of0_best_parent s p1 p2 =
     (let D = DAG s (p_dag (PAR s p1));
          r1 = DAG_RANK (p_rank (PAR s p1)) D * 16 + ucast (p_link_metric (PAR s p1));
          r2 = DAG_RANK (p_rank (PAR s p2)) D * 16 + ucast (p_link_metric (PAR s p2))
      in if r1 < r2 + MIN_DIFFERENCE \<and> r2 - MIN_DIFFERENCE < r1 then d_preferred_parent D
         else if r1 < r2 then Some p1 else Some p2)"

definition of0_update_metric_container :: "nat \<Rightarrow> node \<Rightarrow> node" where
  "of0_update_metric_container d s = upd_dag d (\<lambda>D. D\<lparr>d_mc := (d_mc D)\<lparr>mc_type := RPL_DAG_MC_NONE\<rparr>\<rparr>) s"

definition of0_p2p_route_cmp :: "node \<Rightarrow> nat \<Rightarrow> rpl_dio \<Rightarrow> nat option \<Rightarrow> int" where
  "of0_p2p_route_cmp s d dio p =
     (let D = DAG s d;
          dag_rank = DAG_RANK (d_rank D) D * 16;
          dio_rank = (if p \<noteq> None then DAG_RANK (o_rank dio + cf_min_hoprankinc (d_config D)) D * 16
                      else DAG_RANK (o_rank dio) D * 16)
      in if dag_rank - MIN_DIFFERENCE < dio_rank \<and> dio_rank < dag_rank + MIN_DIFFERENCE then 0
         else if dag_rank < dio_rank then -1 else 1)"

section \<open>Calls through \<open>dag->of\<close>\<close>

text \<open>A DAG without objective function is a NULL pointer that the code would follow.\<close>

definition chk_of :: "nat \<Rightarrow> node \<Rightarrow> node" where
  "chk_of d s = (if d_of (DAG s d) = None then set_fault s else s)"

definition rpl_find_of :: "u16 \<Rightarrow> rpl_of option" where
  "rpl_find_of ocp = (if ocp = 1 then Some Rpl_of_etx else None)"

definition of_update_metric_container :: "nat \<Rightarrow> node \<Rightarrow> node" where
  "of_update_metric_container d s = (if d_of (DAG s d) = None then set_fault s else etx_update_metric_container d s)"

section \<open>What the DAG code relies on\<close>

text \<open>\<open>incr\<close> is the rank increase that a parent gives, \<open>adv\<close> the rank a parent advertised,
  \<open>pref\<close> the preferred parent of its DAG.\<close>

locale objective_function =
  fixes rank :: "'s \<Rightarrow> 'p option \<Rightarrow> u16 \<Rightarrow> u16" and best :: "'s \<Rightarrow> 'p \<Rightarrow> 'p \<Rightarrow> 'p option"
    and incr :: "'s \<Rightarrow> 'p option \<Rightarrow> u16" and adv :: "'s \<Rightarrow> 'p \<Rightarrow> u16" and pref :: "'s \<Rightarrow> 'p \<Rightarrow> 'p option"
  assumes rank_no_base: "rank s None 0 = INFINITE_RANK"
    and rank_stored: "rank s (Some p) 0 = rank s (Some p) (adv s p)"
    and rank_saturates: "b \<noteq> 0 \<Longrightarrow> unat (rank s po b) = min 65535 (unat b + unat (incr s po))"
    and best_choice: "best s p q \<in> {Some p, Some q, pref s p}"
begin

lemma rank_ge: "b \<noteq> 0 \<Longrightarrow> b \<le> rank s p b"
  using rank_saturates [of b s p] u16_less [of b] by (simp add: word_le_nat_alt del: u16_less)

lemma rank_grows:
  assumes "b \<noteq> 0" "incr s p \<noteq> 0" "b \<noteq> INFINITE_RANK"
  shows "b < rank s p b"
proof -
  have "unat b \<noteq> 65535" using assms(3) by (auto simp: INFINITE_RANK_def word_unat_eq_iff)
  moreover have "0 < unat (incr s p)" using assms(2) by (simp add: unat_gt_0)
  ultimately show ?thesis
    using rank_saturates [OF assms(1), of s p] u16_less [of b] by (simp add: word_less_nat_alt del: u16_less)
qed

lemma rank_mono: "b \<noteq> 0 \<Longrightarrow> b \<le> c \<Longrightarrow> rank s p b \<le> rank s p c"
proof -
  assume "b \<noteq> 0" "b \<le> c"
  then have "c \<noteq> 0" by (auto simp: word_le_nat_alt word_unat_eq_iff)
  with \<open>b \<noteq> 0\<close> \<open>b \<le> c\<close> show ?thesis
    using rank_saturates [of b s p] rank_saturates [of c s p] by (simp add: word_le_nat_alt)
qed

text \<open>Along a path on which each node takes its rank from the one before it, ranks grow
  strictly as long as they are finite: no node can be its own ancestor.\<close>

primrec rank_path :: "u16 \<Rightarrow> ('s \<times> 'p) list \<Rightarrow> u16 list" where
  "rank_path r [] = [r]"
| "rank_path r (sp # sps) = r # rank_path (rank (fst sp) (Some (snd sp)) r) sps"

lemma rank_path_hd: "hd (rank_path r sps) = r" "rank_path r sps \<noteq> []"
  by (cases sps; simp)+

lemma rank_path_above:
  "r \<noteq> 0 \<Longrightarrow> \<forall>(s, p) \<in> set sps. incr s (Some p) \<noteq> 0 \<Longrightarrow> INFINITE_RANK \<notin> set (rank_path r sps) \<Longrightarrow>
     sorted_wrt (<) (rank_path r sps)"
proof (induction sps arbitrary: r)
  case Nil
  then show ?case by simp
next
  case (Cons sp sps)
  let ?r = "rank (fst sp) (Some (snd sp)) r"
  from Cons.prems have "r \<noteq> INFINITE_RANK" "incr (fst sp) (Some (snd sp)) \<noteq> 0" by (auto simp: split_beta)
  with Cons.prems(1) have lt: "r < ?r" by (intro rank_grows) auto
  then have "?r \<noteq> 0" by auto
  with Cons.IH [of ?r] Cons.prems(2,3) have so: "sorted_wrt (<) (rank_path ?r sps)" by simp
  have "r < x" if "x \<in> set (rank_path ?r sps)" for x
  proof -
    from that so lt rank_path_hd [of ?r sps] show ?thesis
      by (cases "rank_path ?r sps") (auto intro: less_trans)
  qed
  with so show ?case by simp
qed

lemma rank_path_distinct:
  assumes "r \<noteq> 0" "\<forall>(s, p) \<in> set sps. incr s (Some p) \<noteq> 0" "INFINITE_RANK \<notin> set (rank_path r sps)"
  shows "distinct (rank_path r sps)"
  using rank_path_above [OF assms] by (auto simp: strict_sorted_iff)

end

lemma inf_minus_less:
  "(INFINITE_RANK - b < i) \<longleftrightarrow> 65535 < unat b + unat (i :: u16)"
proof -
  have "unat (INFINITE_RANK - b) = (65535 + 65536 - unat b) mod 65536"
    by (simp add: unat_minus_word INFINITE_RANK_def)
  also have "\<dots> = 65535 - unat b" using u16_less [of b] by (simp add: mod_if del: u16_less)
  finally show ?thesis using u16_less [of b] by (auto simp: word_less_nat_alt simp del: u16_less)
qed

lemma u16_add_saturate:
  fixes b i :: u16
  shows "unat (if 65535 < unat b + unat i then INFINITE_RANK else b + i) = min 65535 (unat b + unat i)"
proof (cases "65535 < unat b + unat i")
  case True
  then show ?thesis by (simp add: INFINITE_RANK_def)
next
  case False
  then have "unat (b + i) = unat b + unat i" by (simp add: unat_word_ariths)
  with False show ?thesis by simp
qed

lemma u16_add_wraps: "(b + i < (b :: u16)) \<longleftrightarrow> 65535 < unat b + unat i"
proof (cases "65535 < unat b + unat i")
  case True
  then have "unat (b + i) = unat b + unat i - 65536"
    using u16_less [of b] u16_less [of i] by (simp add: unat_word_ariths mod_if del: u16_less)
  then show ?thesis using True u16_less [of i] by (simp add: word_less_nat_alt del: u16_less)
next
  case False
  then have "unat (b + i) = unat b + unat i" by (simp add: unat_word_ariths)
  with False show ?thesis by (simp add: word_less_nat_alt)
qed

definition pref_of :: "node \<Rightarrow> nat \<Rightarrow> nat option" where
  "pref_of s p = d_preferred_parent (DAG s (p_dag (PAR s p)))"

interpretation etx: objective_function etx_calculate_rank etx_best_parent etx_rank_increase
  "\<lambda>s p. p_rank (PAR s p)" pref_of
proof (unfold_locales, goal_cases)
  case (1 s) show ?case by (simp add: etx_calculate_rank_def)
next
  case (2 s p) show ?case by (simp add: etx_calculate_rank_def Let_def)
next
  case (3 b s po)
  then have "etx_calculate_rank s po b = (if 65535 < unat b + unat (etx_rank_increase s po) then INFINITE_RANK
      else b + etx_rank_increase s po)"
    by (auto simp: etx_calculate_rank_def Let_def inf_minus_less split: option.splits)
  then show ?case by (simp only: u16_add_saturate)
next
  case (4 s p q) show ?case by (simp add: etx_best_parent_def Let_def pref_of_def)
qed

definition of0_rank_increase :: "node \<Rightarrow> nat option \<Rightarrow> u16" where
  "of0_rank_increase s p = (case p of Some i \<Rightarrow> cf_min_hoprankinc (d_config (DAG s (p_dag (PAR s i))))
     | None \<Rightarrow> DEFAULT_MIN_HOPRANKINC)"

interpretation of0: objective_function of0_calculate_rank of0_best_parent of0_rank_increase
  "\<lambda>s p. p_rank (PAR s p)" pref_of
proof (unfold_locales, goal_cases)
  case (1 s) show ?case by (simp add: of0_calculate_rank_def)
next
  case (2 s p) show ?case by (simp add: of0_calculate_rank_def Let_def)
next
  case (3 b s po)
  then have "of0_calculate_rank s po b = (if 65535 < unat b + unat (of0_rank_increase s po) then INFINITE_RANK
      else b + of0_rank_increase s po)"
    by (auto simp: of0_calculate_rank_def of0_rank_increase_def Let_def u16_add_wraps split: option.splits)
  then show ?case by (simp only: u16_add_saturate)
next
  case (4 s p q) show ?case by (simp add: of0_best_parent_def Let_def pref_of_def)
qed

end
