(* ===== verification/Uip_Ds6_Laws.thy ===== *)
theory Uip_Ds6_Laws
  imports Uip_Ds6 "HOL-Library.Multiset"
begin

text \<open>
  What the tables of \<open>core/net/uip-ds6.c\<close> promise. Every table is searched by
  \<open>uip_ds6_list_loop\<close>, entered at a free slot and cleared by its flag: the locale
  \<open>ds6_table\<close> states that contract once, and the neighbour cache, the default routers, the
  unicast and multicast addresses and the source routes are its interpretations.
\<close>

section \<open>The search loop\<close>

lemma prefixcmp_128: "uip_ipaddr_prefixcmp a b 128 = uip_ipaddr_cmp a b"
  by (simp add: uip_ipaddr_prefixcmp_def uip_ipaddr_cmp_def drop_bit_eq_div)

lemma uip_ipaddr_cmp_refl [simp]: "uip_ipaddr_cmp a a"
  by (simp add: uip_ipaddr_cmp_def)

lemma uip_ipaddr_cmp_sym: "uip_ipaddr_cmp a b = uip_ipaddr_cmp b a"
  by (auto simp: uip_ipaddr_cmp_def)

lemma uip_ipaddr_cmp_trans: "uip_ipaddr_cmp a b \<Longrightarrow> uip_ipaddr_cmp b c \<Longrightarrow> uip_ipaddr_cmp a c"
  by (simp add: uip_ipaddr_cmp_def)

lemma loop_FOUND:
  "list_loop_from used adr es ip len i out = (FOUND, r) \<Longrightarrow>
     \<exists>j. r = Some (i + j) \<and> j < length es \<and> used (es ! j) \<and> uip_ipaddr_prefixcmp (adr (es ! j)) ip len
       \<and> (\<forall>k < j. used (es ! k) \<longrightarrow> \<not> uip_ipaddr_prefixcmp (adr (es ! k)) ip len)"
proof (induction es arbitrary: i out)
  case Nil
  then show ?case by (simp split: if_splits)
next
  case (Cons e es)
  show ?case
  proof (cases "used e \<and> uip_ipaddr_prefixcmp (adr e) ip len")
    case True
    with Cons.prems show ?thesis by (intro exI [of _ 0]) simp
  next
    case False
    with Cons.prems obtain out' where "list_loop_from used adr es ip len (Suc i) out' = (FOUND, r)"
      by (auto split: if_splits)
    from Cons.IH [OF this] obtain j where
      "r = Some (Suc i + j)" "j < length es" "used (es ! j)" "uip_ipaddr_prefixcmp (adr (es ! j)) ip len"
      "\<forall>k < j. used (es ! k) \<longrightarrow> \<not> uip_ipaddr_prefixcmp (adr (es ! k)) ip len" by blast
    with False show ?thesis by (intro exI [of _ "Suc j"]) (auto simp: less_Suc_eq_0_disj)
  qed
qed

lemma loop_FREESPACE:
  "list_loop_from used adr es ip len i out = (FREESPACE, r) \<Longrightarrow>
     (\<forall>e \<in> set es. used e \<longrightarrow> \<not> uip_ipaddr_prefixcmp (adr e) ip len)
     \<and> ((\<exists>j. r = Some (i + j) \<and> j < length es \<and> \<not> used (es ! j)) \<or> (r = out \<and> out \<noteq> None))"
proof (induction es arbitrary: i out)
  case Nil
  then show ?case by (simp split: if_splits)
next
  case (Cons e es)
  show ?case
  proof (cases "used e")
    case True
    with Cons.prems have n: "\<not> uip_ipaddr_prefixcmp (adr e) ip len"
      and l: "list_loop_from used adr es ip len (Suc i) out = (FREESPACE, r)" by (auto split: if_splits)
    from Cons.IH [OF l] True n show ?thesis by (auto intro: exI [of _ "Suc _"])
  next
    case False
    with Cons.prems have "list_loop_from used adr es ip len (Suc i) (Some i) = (FREESPACE, r)" by simp
    from Cons.IH [OF this] False show ?thesis
      by (auto intro: exI [of _ "Suc _"] exI [of _ 0])
  qed
qed

lemma loop_NOSPACE:
  "list_loop_from used adr es ip len i out = (NOSPACE, r) \<Longrightarrow>
     r = None \<and> out = None \<and> (\<forall>e \<in> set es. used e \<and> \<not> uip_ipaddr_prefixcmp (adr e) ip len)"
proof (induction es arbitrary: i out)
  case Nil
  then show ?case by (simp split: if_splits)
next
  case (Cons e es)
  show ?case
  proof (cases "used e")
    case True
    with Cons.prems have n: "\<not> uip_ipaddr_prefixcmp (adr e) ip len"
      and l: "list_loop_from used adr es ip len (Suc i) out = (NOSPACE, r)" by (auto split: if_splits)
    from Cons.IH [OF l] True n show ?thesis by auto
  next
    case False
    with Cons.prems have "list_loop_from used adr es ip len (Suc i) (Some i) = (NOSPACE, r)" by simp
    from Cons.IH [OF this] show ?thesis by simp
  qed
qed

lemma list_loop_FOUND:
  "uip_ds6_list_loop used adr es ip len = (FOUND, r) \<Longrightarrow>
     \<exists>j. r = Some j \<and> j < length es \<and> used (es ! j) \<and> uip_ipaddr_prefixcmp (adr (es ! j)) ip len"
  using loop_FOUND [of used adr es ip len 0 None r] by (auto simp: uip_ds6_list_loop_def)

lemma list_loop_FREESPACE:
  "uip_ds6_list_loop used adr es ip len = (FREESPACE, r) \<Longrightarrow>
     \<exists>j. r = Some j \<and> j < length es \<and> \<not> used (es ! j)
       \<and> (\<forall>e \<in> set es. used e \<longrightarrow> \<not> uip_ipaddr_prefixcmp (adr e) ip len)"
  using loop_FREESPACE [of used adr es ip len 0 None r] by (auto simp: uip_ds6_list_loop_def)

lemma list_loop_NOSPACE:
  "uip_ds6_list_loop used adr es ip len = (NOSPACE, r) \<Longrightarrow>
     r = None \<and> (\<forall>e \<in> set es. used e \<and> \<not> uip_ipaddr_prefixcmp (adr e) ip len)"
  using loop_NOSPACE [of used adr es ip len 0 None r] by (auto simp: uip_ds6_list_loop_def)

lemma found_Some:
  "found (uip_ds6_list_loop used adr es ip len) = Some j \<Longrightarrow>
     j < length es \<and> used (es ! j) \<and> uip_ipaddr_prefixcmp (adr (es ! j)) ip len"
proof -
  assume a: "found (uip_ds6_list_loop used adr es ip len) = Some j"
  obtain r i where l: "uip_ds6_list_loop used adr es ip len = (r, i)" by (rule prod.exhaust)
  with a have "r = FOUND" "i = Some j" by (auto simp: found_def split: loop_result.splits)
  with list_loop_FOUND [of used adr es ip len "Some j"] l show ?thesis by simp
qed

lemma found_None:
  "found (uip_ds6_list_loop used adr es ip len) = None \<longleftrightarrow>
     (\<forall>e \<in> set es. used e \<longrightarrow> \<not> uip_ipaddr_prefixcmp (adr e) ip len)"
proof -
  obtain r i where l: "uip_ds6_list_loop used adr es ip len = (r, i)" by (rule prod.exhaust)
  show ?thesis
  proof (cases r)
    case FOUND
    with l list_loop_FOUND [of used adr es ip len i] show ?thesis by (auto simp: found_def)
  next
    case FREESPACE
    with l list_loop_FREESPACE [of used adr es ip len i] show ?thesis by (auto simp: found_def)
  next
    case NOSPACE
    with l list_loop_NOSPACE [of used adr es ip len i] show ?thesis by (auto simp: found_def)
  qed
qed

section \<open>The contract of a table\<close>

text \<open>No two entries in use have the same address.\<close>

definition uniq :: "('e \<Rightarrow> bool) \<Rightarrow> ('e \<Rightarrow> ipaddr) \<Rightarrow> 'e list \<Rightarrow> bool" where
  "uniq used adr es \<longleftrightarrow> (\<forall>i < length es. \<forall>j < length es.
     used (es ! i) \<longrightarrow> used (es ! j) \<longrightarrow> uip_ipaddr_cmp (adr (es ! i)) (adr (es ! j)) \<longrightarrow> i = j)"

lemma uniqD:
  assumes "uniq used adr es" "i < length es" "j < length es" "used (es ! i)" "used (es ! j)"
    "uip_ipaddr_cmp (adr (es ! i)) ip" "uip_ipaddr_cmp (adr (es ! j)) ip"
  shows "i = j"
proof -
  from assms(6,7) have "uip_ipaddr_cmp (adr (es ! i)) (adr (es ! j))" by (simp add: uip_ipaddr_cmp_def)
  with assms(1-5) show ?thesis by (simp add: uniq_def)
qed

lemma found_None_nth:
  "found (uip_ds6_list_loop used adr es ip 128) = None \<longleftrightarrow>
     (\<forall>k < length es. \<not> (used (es ! k) \<and> uip_ipaddr_cmp (adr (es ! k)) ip))"
  by (simp add: found_None prefixcmp_128 all_set_conv_all_nth)

locale ds6_table =
  fixes used :: "'e \<Rightarrow> bool" and adr :: "'e \<Rightarrow> ipaddr"
    and enter :: "'p \<Rightarrow> ipaddr \<Rightarrow> 'e \<Rightarrow> 'e" and clear :: "'e \<Rightarrow> 'e"
  assumes used_enter [simp]: "used (enter p ip e)"
    and adr_enter [simp]: "adr (enter p ip e) = ip"
    and used_clear [simp]: "\<not> used (clear e)"
begin

lemma lookup_Some:
  "found (uip_ds6_list_loop used adr es ip 128) = Some j \<Longrightarrow>
     j < length es \<and> used (es ! j) \<and> uip_ipaddr_cmp (adr (es ! j)) ip"
  using found_Some by (fastforce simp: prefixcmp_128)

lemma enter_uniq:
  assumes "uniq used adr es" "uip_ds6_list_loop used adr es ip 128 = (FREESPACE, Some i)"
  shows "uniq used adr (updf i (enter p ip) es)"
proof -
  from list_loop_FREESPACE [OF assms(2)] have i: "i < length es"
    and n: "found (uip_ds6_list_loop used adr es ip 128) = None" by (auto simp: found_None)
  have n: "\<not> (used (es ! k) \<and> uip_ipaddr_cmp (adr (es ! k)) ip)" if "k < length es" for k
    using n that by (simp add: found_None_nth)
  show ?thesis unfolding uniq_def
  proof (intro allI impI)
    fix a b
    assume ab: "a < length (updf i (enter p ip) es)" "b < length (updf i (enter p ip) es)"
      "used (updf i (enter p ip) es ! a)" "used (updf i (enter p ip) es ! b)"
      "uip_ipaddr_cmp (adr (updf i (enter p ip) es ! a)) (adr (updf i (enter p ip) es ! b))"
    show "a = b"
    proof (cases "a = i \<or> b = i")
      case True
      show ?thesis
      proof (rule ccontr)
        assume "a \<noteq> b"
        with True consider "a = i" "b \<noteq> i" | "b = i" "a \<noteq> i" by auto
        then show False
          using ab i n [of a] n [of b] uip_ipaddr_cmp_sym [of ip "adr (es ! b)"] by cases auto
      qed
    next
      case False
      with ab assms(1) show ?thesis by (simp add: uniq_def)
    qed
  qed
qed

lemma lookup_enter:
  assumes "uniq used adr es" "uip_ds6_list_loop used adr es ip 128 = (FREESPACE, Some i)"
  shows "found (uip_ds6_list_loop used adr (updf i (enter p ip) es) ip 128) = Some i"
proof -
  let ?es = "updf i (enter p ip) es"
  from list_loop_FREESPACE [OF assms(2)] have i: "i < length es" by auto
  have "found (uip_ds6_list_loop used adr ?es ip 128) \<noteq> None"
    using i found_None_nth [of used adr ?es ip] by (auto dest!: spec [of _ i])
  then obtain j where j: "found (uip_ds6_list_loop used adr ?es ip 128) = Some j" by blast
  from lookup_Some [OF j] i have "j = i"
    by (intro uniqD [OF enter_uniq [OF assms, of p], where ip = ip]) auto
  with j show ?thesis by simp
qed

text \<open>Entering an address does not change what the other addresses find.\<close>

lemma lookup_enter_other:
  assumes "uniq used adr es" "uip_ds6_list_loop used adr es ip 128 = (FREESPACE, Some i)"
    "\<not> uip_ipaddr_cmp ip ip'"
  shows "found (uip_ds6_list_loop used adr (updf i (enter p ip) es) ip' 128)
       = found (uip_ds6_list_loop used adr es ip' 128)"
proof -
  let ?es = "updf i (enter p ip) es"
  from list_loop_FREESPACE [OF assms(2)] have i: "i < length es" "\<not> used (es ! i)" by auto
  have same: "used (es ! j) \<and> uip_ipaddr_cmp (adr (es ! j)) ip'
      \<longleftrightarrow> used (?es ! j) \<and> uip_ipaddr_cmp (adr (?es ! j)) ip'" for j
    using i assms(3) by (cases "j = i") simp_all
  show ?thesis
  proof (cases "found (uip_ds6_list_loop used adr es ip' 128)")
    case None
    then have "found (uip_ds6_list_loop used adr ?es ip' 128) = None"
      using same by (simp add: found_None_nth)
    with None show ?thesis by simp
  next
    case (Some j)
    then have "found (uip_ds6_list_loop used adr ?es ip' 128) \<noteq> None"
      using same found_None_nth [of used adr es ip'] found_None_nth [of used adr ?es ip'] by auto
    then obtain k where k: "found (uip_ds6_list_loop used adr ?es ip' 128) = Some k" by blast
    from lookup_Some [OF k] lookup_Some [OF Some] same have "k = j"
      by (intro uniqD [OF assms(1)]) auto
    with k Some show ?thesis by simp
  qed
qed

lemma clear_uniq: "uniq used adr es \<Longrightarrow> uniq used adr (updf i clear es)"
  by (cases "i < length es") (auto simp: uniq_def nth_updf)

lemma lookup_clear:
  assumes "uniq used adr es" "found (uip_ds6_list_loop used adr es ip 128) = Some i"
  shows "found (uip_ds6_list_loop used adr (updf i clear es) ip 128) = None"
proof -
  from lookup_Some [OF assms(2)] have i: "i < length es" "used (es ! i)" "uip_ipaddr_cmp (adr (es ! i)) ip" by auto
  have "\<not> (used (updf i clear es ! k) \<and> uip_ipaddr_cmp (adr (updf i clear es ! k)) ip)"
    if "k < length es" for k
  proof (cases "k = i")
    case True
    with i show ?thesis by simp
  next
    case False
    with uniqD [OF assms(1), of k i ip] i that show ?thesis by auto
  qed
  then show ?thesis by (simp add: found_None_nth)
qed

end

section \<open>The tables of the node\<close>

interpretation nbr_table: ds6_table n_isused n_ipaddr
  "\<lambda>f ip n. (f n)\<lparr>n_isused := True, n_ipaddr := ip\<rparr>" "\<lambda>n. n\<lparr>n_isused := False\<rparr>"
  by unfold_locales simp_all

interpretation defrt_table: ds6_table r_isused r_ipaddr
  defrt_enter "\<lambda>r. r\<lparr>r_isused := False\<rparr>"
  by unfold_locales (auto simp: defrt_enter_def Let_def)

interpretation maddr_table: ds6_table m_isused m_ipaddr
  "\<lambda>(_ :: unit) ip m. m\<lparr>m_isused := True, m_ipaddr := ip\<rparr>" "\<lambda>m. m\<lparr>m_isused := False\<rparr>"
  by unfold_locales simp_all

interpretation addr_table: ds6_table a_isused a_ipaddr
  "\<lambda>f ip a. (f a)\<lparr>a_isused := True, a_ipaddr := ip\<rparr>" "\<lambda>a. a\<lparr>a_isused := False\<rparr>"
  by unfold_locales simp_all

interpretation src_table: ds6_table s_isused s_ipaddr
  "\<lambda>(_ :: unit) ip r. r\<lparr>s_isused := True, s_ipaddr := ip, s_addr_list := []\<rparr>"
  "\<lambda>r. r\<lparr>s_addr_list := [], s_isused := False\<rparr>"
  by unfold_locales simp_all

lemma defrt_add_cases:
  assumes "uip_ds6_defrt_add ip iv s = (Some i, s')"
  shows "uip_ds6_list_loop r_isused r_ipaddr (defrt_list s) ip 128 = (FREESPACE, Some i)"
    and "s' = s\<lparr>defrt_list := updf i (defrt_enter (iv, secs s) ip) (defrt_list s)\<rparr>"
  using assms unfolding uip_ds6_defrt_add_def
  by (auto split: prod.splits loop_result.splits option.splits)

section \<open>Longest-prefix routing\<close>

definition route_matches :: "ipaddr \<Rightarrow> route \<Rightarrow> bool" where
  "route_matches dest r \<longleftrightarrow> t_isused r \<and> uip_ipaddr_prefixcmp dest (t_ipaddr r) (t_length r)"

lemma route_lookup_loop_max:
  "route_lookup_loop dest rs i loc lm = res \<Longrightarrow>
     (case res of
        None \<Rightarrow> loc = None \<and> (\<forall>r \<in> set rs. route_matches dest r \<longrightarrow> t_length r < lm)
      | Some k \<Rightarrow> (loc = Some k \<and> (\<forall>r \<in> set rs. route_matches dest r \<longrightarrow> t_length r < lm))
          \<or> (\<exists>j < length rs. k = i + j \<and> route_matches dest (rs ! j) \<and> lm \<le> t_length (rs ! j)
               \<and> (\<forall>l < length rs. route_matches dest (rs ! l) \<longrightarrow> t_length (rs ! l) \<le> t_length (rs ! j)
                    \<and> (j < l \<longrightarrow> t_length (rs ! l) < t_length (rs ! j)))))"
proof (induction rs arbitrary: i loc lm)
  case Nil
  then show ?case by (cases res) auto
next
  case (Cons r rs)
  show ?case
  proof (cases "route_matches dest r \<and> lm \<le> t_length r")
    case True
    with Cons.prems have "route_lookup_loop dest rs (Suc i) (Some i) (t_length r) = res"
      by (simp add: route_matches_def)
    from Cons.IH [OF this] True show ?thesis
    proof (cases res)
      case None
      with Cons.IH [OF \<open>route_lookup_loop dest rs (Suc i) (Some i) (t_length r) = res\<close>] show ?thesis by simp
    next
      case (Some k)
      with Cons.IH [OF \<open>route_lookup_loop dest rs (Suc i) (Some i) (t_length r) = res\<close>]
      consider "k = i" "\<forall>x \<in> set rs. route_matches dest x \<longrightarrow> t_length x < t_length r"
        | j where "j < length rs" "k = Suc i + j" "route_matches dest (rs ! j)" "t_length r \<le> t_length (rs ! j)"
          "\<forall>l < length rs. route_matches dest (rs ! l) \<longrightarrow> t_length (rs ! l) \<le> t_length (rs ! j)
                    \<and> (j < l \<longrightarrow> t_length (rs ! l) < t_length (rs ! j))" by auto
      then show ?thesis
      proof cases
        case 1
        with True Some show ?thesis
          by (auto intro!: exI [of _ 0] simp: nth_Cons' all_set_conv_all_nth order.strict_implies_order)
      next
        case 2
        with True Some show ?thesis
          by (auto intro!: exI [of _ "Suc j"] simp: less_Suc_eq_0_disj)
      qed
    qed
  next
    case False
    with Cons.prems have "route_lookup_loop dest rs (Suc i) loc lm = res"
      by (auto simp: route_matches_def split: if_splits)
    note IH = Cons.IH [OF this]
    from False have r: "route_matches dest r \<longrightarrow> t_length r < lm" by auto
    show ?thesis
    proof (cases res)
      case None
      with IH r show ?thesis by simp
    next
      case (Some k)
      with IH consider "loc = Some k" "\<forall>x \<in> set rs. route_matches dest x \<longrightarrow> t_length x < lm"
        | j where "j < length rs" "k = Suc i + j" "route_matches dest (rs ! j)" "lm \<le> t_length (rs ! j)"
          "\<forall>l < length rs. route_matches dest (rs ! l) \<longrightarrow> t_length (rs ! l) \<le> t_length (rs ! j)
                    \<and> (j < l \<longrightarrow> t_length (rs ! l) < t_length (rs ! j))" by auto
      then show ?thesis
      proof cases
        case 1
        with r Some show ?thesis by simp
      next
        case 2
        with r Some show ?thesis
          by (auto intro!: exI [of _ "Suc j"] simp: less_Suc_eq_0_disj)
      qed
    qed
  qed
qed

lemma route_lookup_Some:
  assumes "uip_ds6_route_lookup dest s = Some i"
  shows "i < length (routing_table s) \<and> route_matches dest (routing_table s ! i)
    \<and> (\<forall>j < length (routing_table s). route_matches dest (routing_table s ! j) \<longrightarrow>
         t_length (routing_table s ! j) \<le> t_length (routing_table s ! i))"
  using route_lookup_loop_max [of dest "routing_table s" 0 None 0 "Some i"] assms
  by (auto simp: uip_ds6_route_lookup_def)

lemma route_lookup_None:
  "uip_ds6_route_lookup dest s = None \<longleftrightarrow> (\<forall>r \<in> set (routing_table s). \<not> route_matches dest r)"
proof
  assume "uip_ds6_route_lookup dest s = None"
  then show "\<forall>r \<in> set (routing_table s). \<not> route_matches dest r"
    using route_lookup_loop_max [of dest "routing_table s" 0 None 0 None]
    by (auto simp: uip_ds6_route_lookup_def)
next
  assume n: "\<forall>r \<in> set (routing_table s). \<not> route_matches dest r"
  show "uip_ds6_route_lookup dest s = None"
  proof (cases "uip_ds6_route_lookup dest s")
    case (Some i)
    from route_lookup_Some [OF this] n nth_mem show ?thesis by blast
  qed
qed

section \<open>Source routes and their address blocks\<close>

text \<open>Every allocated address block is on the list of exactly one source route, and a route
  that is not in use has no block.\<close>

definition src_inv :: "'z ds6_scheme \<Rightarrow> bool" where
  "src_inv s \<longleftrightarrow> pool_wf (src_addr_cnt s) \<and> length (src_addr_mem s) = length (src_addr_cnt s)
     \<and> distinct (concat (map s_addr_list (src_routing_table s)))
     \<and> set (concat (map s_addr_list (src_routing_table s))) = pool_used (src_addr_cnt s)
     \<and> (\<forall>r \<in> set (src_routing_table s). \<not> s_isused r \<longrightarrow> s_addr_list r = [])"

lemma pool_used_less: "i \<in> pool_used c \<Longrightarrow> i < length c"
  by (simp add: pool_used_def)

lemma fold_pool_free:
  "pool_wf c \<Longrightarrow> set as \<subseteq> {..<length c} \<Longrightarrow>
     pool_wf (fold (\<lambda>a c. pool_free c a) as c) \<and> length (fold (\<lambda>a c. pool_free c a) as c) = length c
     \<and> pool_used (fold (\<lambda>a c. pool_free c a) as c) = pool_used c - set as"
proof (induction as arbitrary: c)
  case Nil
  then show ?case by simp
next
  case (Cons a as)
  from pool.free_used [OF Cons.prems(1), of a] Cons.prems(2) have
    f: "pool_used (pool_free c a) = pool_used c - {a}" "pool_wf (pool_free c a)" by auto
  from Cons.IH [OF f(2)] Cons.prems(2) f(1) show ?case by auto
qed

lemma concat_split:
  "i < length xs \<Longrightarrow> concat (map f xs) = concat (map f (take i xs)) @ f (xs ! i) @ concat (map f (drop (Suc i) xs))"
  by (subst id_take_nth_drop [of i xs]) simp_all

lemma concat_updf:
  "i < length xs \<Longrightarrow> concat (map f (updf i g xs))
     = concat (map f (take i xs)) @ f (g (xs ! i)) @ concat (map f (drop (Suc i) xs))"
  by (simp add: updf_def upd_conv_take_nth_drop)

lemma set_updf_le: "r \<in> set (updf i g xs) \<Longrightarrow> r \<in> set xs \<or> (i < length xs \<and> r = g (xs ! i))"
  by (auto simp: updf_def dest: set_update_subset_insert [THEN subsetD] split: if_splits)

lemma src_route_rm_inv:
  assumes "src_inv s"
  shows "src_inv (uip_ds6_src_route_rm i s)"
proof (cases "i < length (src_routing_table s)")
  case True
  let ?L = "s_addr_list (src_routing_table s ! i)"
  from assms have
    wf: "pool_wf (src_addr_cnt s)" and d: "distinct (concat (map s_addr_list (src_routing_table s)))"
    and u: "set (concat (map s_addr_list (src_routing_table s))) = pool_used (src_addr_cnt s)"
    and e: "\<forall>r \<in> set (src_routing_table s). \<not> s_isused r \<longrightarrow> s_addr_list r = []"
    by (auto simp: src_inv_def)
  have sub: "set ?L \<subseteq> pool_used (src_addr_cnt s)"
    using nth_mem [OF True] unfolding u [symmetric] by auto
  have f: "pool_wf (fold (\<lambda>a c. pool_free c a) ?L (src_addr_cnt s))
     \<and> length (fold (\<lambda>a c. pool_free c a) ?L (src_addr_cnt s)) = length (src_addr_cnt s)
     \<and> pool_used (fold (\<lambda>a c. pool_free c a) ?L (src_addr_cnt s)) = pool_used (src_addr_cnt s) - set ?L"
    using wf sub pool_used_less by (intro fold_pool_free) auto
  note sp = concat_split [OF True, of s_addr_list]
  from d u have "distinct (concat (map s_addr_list (take i (src_routing_table s)))
      @ concat (map s_addr_list (drop (Suc i) (src_routing_table s))))"
    "set (concat (map s_addr_list (take i (src_routing_table s)))
      @ concat (map s_addr_list (drop (Suc i) (src_routing_table s)))) = pool_used (src_addr_cnt s) - set ?L"
    unfolding sp by auto
  with f assms e True show ?thesis
    by (auto simp: src_inv_def uip_ds6_src_route_rm_def concat_updf dest!: set_updf_le)
next
  case False
  with assms show ?thesis by (simp add: uip_ds6_src_route_rm_def)
qed

lemma length_src_route_rm [simp]:
  "length (src_routing_table (uip_ds6_src_route_rm i s)) = length (src_routing_table s)"
  by (simp add: uip_ds6_src_route_rm_def)

lemma src_hop_add_None:
  "uip_ds6_src_route_hop_add i hop push s = (None, s') \<Longrightarrow>
     s' = s \<and> (\<forall>k < length (src_addr_cnt s). src_addr_cnt s ! k \<noteq> 0)"
  by (auto simp: uip_ds6_src_route_hop_add_def pool_alloc_None split: prod.splits option.splits)

lemma src_hops_in_pool:
  assumes "src_inv s" "j < length (src_routing_table s)" "a \<in> set (s_addr_list (src_routing_table s ! j))"
  shows "a \<in> pool_used (src_addr_cnt s)"
  using assms nth_mem [OF assms(2)] unfolding src_inv_def by auto

lemma src_hop_add_Some:
  assumes inv: "src_inv s" and i: "i < length (src_routing_table s)"
    and use: "s_isused (src_routing_table s ! i)"
    and eq: "uip_ds6_src_route_hop_add i hop push s = (Some a, s')"
  shows "src_inv s'" and "length (src_routing_table s') = length (src_routing_table s)"
    and "s_isused (src_routing_table s' ! i)"
    and "src_route_hops i s' = (if push then hop # src_route_hops i s else src_route_hops i s @ [hop])"
    and "j < length (src_routing_table s) \<Longrightarrow> j \<noteq> i \<Longrightarrow> src_route_hops j s' = src_route_hops j s"
proof -
  let ?L = "s_addr_list (src_routing_table s ! i)"
  from inv have
    wf: "pool_wf (src_addr_cnt s)" and d: "distinct (concat (map s_addr_list (src_routing_table s)))"
    and u: "set (concat (map s_addr_list (src_routing_table s))) = pool_used (src_addr_cnt s)"
    and ml: "length (src_addr_mem s) = length (src_addr_cnt s)"
    and e: "\<forall>r \<in> set (src_routing_table s). \<not> s_isused r \<longrightarrow> s_addr_list r = []"
    by (auto simp: src_inv_def)
  from eq obtain cnt where al: "pool_alloc (src_addr_cnt s) = (Some a, cnt)"
    and s': "s' = s\<lparr>src_addr_cnt := cnt, src_addr_mem := (src_addr_mem s)[a := hop],
             src_routing_table := updf i (\<lambda>r. r\<lparr>s_addr_list :=
               (if push then lst_push (s_addr_list r) a else lst_add (s_addr_list r) a)\<rparr>)
               (src_routing_table s)\<rparr>"
    by (auto simp: uip_ds6_src_route_hop_add_def split: prod.splits option.splits)
  from pool.alloc_Some [OF wf al] have
    a: "a < length (src_addr_cnt s)" "a \<notin> pool_used (src_addr_cnt s)"
      "pool_used cnt = insert a (pool_used (src_addr_cnt s))" "pool_wf cnt"
      "length cnt = length (src_addr_cnt s)" by auto
  have fresh: "a \<notin> set (s_addr_list (src_routing_table s ! j))" if "j < length (src_routing_table s)" for j
    using src_hops_in_pool [OF inv that] a(2) by blast
  from fresh [OF i] have L': "lst_push ?L a = a # ?L" "lst_add ?L a = ?L @ [a]"
    by (simp_all add: lst_push_def lst_add_def)
  note sp = concat_split [OF i, of s_addr_list]
  show "length (src_routing_table s') = length (src_routing_table s)" by (simp add: s')
  show "s_isused (src_routing_table s' ! i)" using use i by (simp add: s')
  have mem: "map (\<lambda>b. (src_addr_mem s)[a := hop] ! b) (s_addr_list (src_routing_table s ! j))
      = map (\<lambda>b. src_addr_mem s ! b) (s_addr_list (src_routing_table s ! j))"
    if "j < length (src_routing_table s)" for j
    using fresh [OF that] by (intro map_cong refl nth_list_update_neq) blast
  have "a \<notin> set (concat (map s_addr_list (src_routing_table s)))" using u a(2) by blast
  moreover have "mset (concat (map s_addr_list (src_routing_table s')))
      = add_mset a (mset (concat (map s_addr_list (src_routing_table s))))"
    by (simp add: s' concat_updf [OF i] sp L')
  then have m: "mset (concat (map s_addr_list (src_routing_table s')))
      = mset (a # concat (map s_addr_list (src_routing_table s)))" by simp
  ultimately have cc: "distinct (concat (map s_addr_list (src_routing_table s')))"
    "set (concat (map s_addr_list (src_routing_table s')))
       = insert a (set (concat (map s_addr_list (src_routing_table s))))"
    using d mset_eq_imp_distinct_iff [OF m] mset_eq_setD [OF m] by simp_all
  have "\<forall>r \<in> set (src_routing_table s'). \<not> s_isused r \<longrightarrow> s_addr_list r = []"
    using e use unfolding s' by (auto dest!: set_updf_le)
  moreover have "pool_used (src_addr_cnt s') = insert a (pool_used (src_addr_cnt s))"
    "pool_wf (src_addr_cnt s')" "length (src_addr_mem s') = length (src_addr_cnt s')"
    using a ml by (simp_all add: s')
  ultimately show "src_inv s'" using cc u unfolding src_inv_def by simp
  show "src_route_hops i s' = (if push then hop # src_route_hops i s else src_route_hops i s @ [hop])"
    using mem [OF i] a(1) ml i by (simp add: src_route_hops_def s' L')
  show "src_route_hops j s' = src_route_hops j s" if "j < length (src_routing_table s)" "j \<noteq> i"
    using mem [OF that(1)] that by (simp add: src_route_hops_def s')
qed

lemma src_route_add_Some:
  assumes inv: "src_inv s" and eq: "uip_ds6_src_route_add ip s = (Some i, s')"
  shows "src_inv s'" and "i < length (src_routing_table s')"
    and "length (src_routing_table s') = length (src_routing_table s)"
    and "s_isused (src_routing_table s' ! i)" and "src_route_hops i s' = []"
    and "uip_ipaddr_cmp (s_ipaddr (src_routing_table s' ! i)) ip"
proof -
  obtain r o' where l: "uip_ds6_list_loop s_isused s_ipaddr (src_routing_table s) ip 128 = (r, o')"
    by (rule prod.exhaust)
  have main: "src_inv s' \<and> i < length (src_routing_table s') \<and> length (src_routing_table s') = length (src_routing_table s)
     \<and> s_isused (src_routing_table s' ! i) \<and> src_route_hops i s' = []
     \<and> uip_ipaddr_cmp (s_ipaddr (src_routing_table s' ! i)) ip"
  proof (cases r)
    case NOSPACE
    with l eq list_loop_NOSPACE [of s_isused s_ipaddr "src_routing_table s" ip 128 o'] show ?thesis
      by (simp add: uip_ds6_src_route_add_def)
  next
    case FREESPACE
    from list_loop_FREESPACE [OF l [unfolded FREESPACE]] obtain j where
      j: "o' = Some j" "j < length (src_routing_table s)" "\<not> s_isused (src_routing_table s ! j)" by blast
    from j inv have emp: "s_addr_list (src_routing_table s ! j) = []" by (auto simp: src_inv_def)
    from eq l j FREESPACE have
      s': "i = j" "s' = s\<lparr>src_routing_table := updf j (\<lambda>r. r\<lparr>s_isused := True, s_ipaddr := ip,
             s_addr_list := []\<rparr>) (src_routing_table s)\<rparr>"
      by (auto simp: uip_ds6_src_route_add_def)
    have "concat (map s_addr_list (src_routing_table s')) = concat (map s_addr_list (src_routing_table s))"
      using j(2) emp by (simp add: s' concat_updf concat_split [OF j(2), of s_addr_list])
    then have "src_inv s'" using inv unfolding src_inv_def
      by (auto simp: s'(2) dest!: set_updf_le)
    then show ?thesis using j by (simp add: s' src_route_hops_def)
  next
    case FOUND
    from list_loop_FOUND [OF l [unfolded FOUND]] obtain j where
      j: "o' = Some j" "j < length (src_routing_table s)"
      and cmp: "uip_ipaddr_cmp (s_ipaddr (src_routing_table s ! j)) ip" by (auto simp: prefixcmp_128)
    let ?s = "uip_ds6_src_route_rm j s"
    from eq l j FOUND have
      s': "i = j" "s' = ?s\<lparr>src_routing_table := updf j (\<lambda>r. r\<lparr>s_isused := True\<rparr>) (src_routing_table ?s)\<rparr>"
      by (auto simp: uip_ds6_src_route_add_def Let_def)
    have emp: "s_addr_list (src_routing_table ?s ! j) = []" "s_ipaddr (src_routing_table ?s ! j) = s_ipaddr (src_routing_table s ! j)"
      using j(2) by (simp_all add: uip_ds6_src_route_rm_def)
    have "concat (map s_addr_list (src_routing_table s')) = concat (map s_addr_list (src_routing_table ?s))"
      using j(2) by (simp add: s'(2) concat_updf concat_split [of j "src_routing_table ?s" s_addr_list])
    then have "src_inv s'" using src_route_rm_inv [OF inv, of j] unfolding src_inv_def
      by (auto simp: s'(2) dest!: set_updf_le)
    then show ?thesis using j emp cmp by (simp add: s' src_route_hops_def)
  qed
  then show "src_inv s'" "i < length (src_routing_table s')"
    "length (src_routing_table s') = length (src_routing_table s)"
    "s_isused (src_routing_table s' ! i)" "src_route_hops i s' = []"
    "uip_ipaddr_cmp (s_ipaddr (src_routing_table s' ! i)) ip" by auto
qed

section \<open>Properties\<close>

text \<open>A default router that could be added is what its address then finds, no other
  address finds anything else than before, and the addresses in use stay distinct.\<close>

theorem defrt_add_lookup:
  assumes "uniq r_isused r_ipaddr (defrt_list s)" "uip_ds6_defrt_add ip iv s = (Some i, s')"
  shows "uip_ds6_defrt_lookup ip s' = Some i
    \<and> (\<forall>ip'. \<not> uip_ipaddr_cmp ip ip' \<longrightarrow> uip_ds6_defrt_lookup ip' s' = uip_ds6_defrt_lookup ip' s)
    \<and> uniq r_isused r_ipaddr (defrt_list s')"
  using defrt_table.lookup_enter [OF assms(1) defrt_add_cases(1) [OF assms(2)]]
    defrt_table.lookup_enter_other [OF assms(1) defrt_add_cases(1) [OF assms(2)]]
    defrt_table.enter_uniq [OF assms(1) defrt_add_cases(1) [OF assms(2)]]
  by (simp add: uip_ds6_defrt_lookup_def defrt_add_cases(2) [OF assms(2)])

definition demo_ds6 :: ds6 where
  "demo_ds6 = \<lparr>nbr_cache = replicate 10 nbr0,
     defrt_list = [defrt0\<lparr>r_isused := True, r_ipaddr := replicate 16 1\<rparr>, defrt0], prefix_list = replicate 3 prefix0,
     addr_list = replicate 3 addr_entry0, aaddr_list = replicate 2 maddr0, maddr_list = replicate 5 maddr0,
     routing_table = [route0\<lparr>t_isused := True, t_ipaddr := replicate 16 1, t_length := 64\<rparr>,
        route0\<lparr>t_isused := True, t_ipaddr := replicate 16 1, t_length := 128\<rparr>] @ replicate 6 route0,
     src_routing_table = replicate 3 src_route0, src_addr_cnt = replicate 8 0,
     src_addr_mem = replicate 8 addr0, link_mtu = 1280, cur_hop_limit = 64, base_reachable_time = 600000,
     reachable_time = 600000, retrans_timer = 10000, maxdadns = 1, lladdr = replicate 8 2, clk = 0, secs = 0,
     rand_state = 1, outbox = [], fault = False\<rparr>"

theorem defrt_add_lookup_witness:
  "uip_ds6_defrt_lookup (replicate 16 7) (snd (uip_ds6_defrt_add (replicate 16 7) 510 demo_ds6)) = Some 1
    \<and> uniq r_isused r_ipaddr (defrt_list (snd (uip_ds6_defrt_add (replicate 16 7) 510 demo_ds6)))"
proof -
  have u: "uniq r_isused r_ipaddr (defrt_list demo_ds6)"
    by (auto simp: uniq_def demo_ds6_def ds6_zero less_Suc_eq numeral_2_eq_2)
  have a: "uip_ds6_defrt_add (replicate 16 7) 510 demo_ds6
      = (Some 1, snd (uip_ds6_defrt_add (replicate 16 7) 510 demo_ds6))"
    by (simp add: uip_ds6_defrt_add_def uip_ds6_list_loop_def demo_ds6_def ds6_zero prefixcmp_128
        uip_ipaddr_cmp_def)
  from defrt_add_lookup [OF u a] show ?thesis by simp
qed



text \<open>Adding a hop to a source route keeps every address block on exactly one route,
  puts the hop at the front or at the end, and leaves every other source route as it was;
  when no block is free nothing changes.\<close>

theorem src_route_hop_add_correct:
  assumes "src_inv s" "i < length (src_routing_table s)" "s_isused (src_routing_table s ! i)"
  shows "case uip_ds6_src_route_hop_add i hop push s of
      (None, s') \<Rightarrow> s' = s \<and> (\<forall>k < length (src_addr_cnt s). src_addr_cnt s ! k \<noteq> 0)
    | (Some a, s') \<Rightarrow> src_inv s'
        \<and> src_route_hops i s' = (if push then hop # src_route_hops i s else src_route_hops i s @ [hop])
        \<and> (\<forall>j < length (src_routing_table s). j \<noteq> i \<longrightarrow> src_route_hops j s' = src_route_hops j s)"
proof (cases "uip_ds6_src_route_hop_add i hop push s")
  case (Pair r s')
  with src_hop_add_None [of i hop push s s'] src_hop_add_Some [OF assms, of hop push _ s'] show ?thesis
    by (cases r) auto
qed

theorem src_route_hop_add_correct_witness:
  "let s = snd (uip_ds6_src_route_add (replicate 16 9) demo_ds6)
   in case uip_ds6_src_route_hop_add 2 (replicate 16 5) True s of
        (None, s') \<Rightarrow> False
      | (Some a, s') \<Rightarrow> src_inv s' \<and> src_route_hops 2 s' = [replicate 16 5]"
proof -
  let ?s = "snd (uip_ds6_src_route_add (replicate 16 9) demo_ds6)"
  have s: "?s = demo_ds6\<lparr>src_routing_table := [src_route0, src_route0,
      src_route0\<lparr>s_isused := True, s_ipaddr := replicate 16 9\<rparr>]\<rparr>"
    by (simp add: uip_ds6_src_route_add_def uip_ds6_list_loop_def demo_ds6_def ds6_zero updf_def eval_nat_numeral)
  have inv: "src_inv ?s" unfolding s
    by (simp add: src_inv_def demo_ds6_def ds6_zero pool_wf_def pool_used_def)
  have some: "fst (uip_ds6_src_route_hop_add 2 (replicate 16 5) True ?s) = Some 0" unfolding s by code_simp
  have "2 < length (src_routing_table ?s)" "s_isused (src_routing_table ?s ! 2)" "src_route_hops 2 ?s = []"
    unfolding s by (simp_all add: src_route_hops_def ds6_zero)
  from src_route_hop_add_correct [OF inv this(1,2), where hop = "replicate 16 5" and push = True] this(3) some
  show ?thesis by (cases "uip_ds6_src_route_hop_add 2 (replicate 16 5) True ?s") (simp add: Let_def)
qed

end
