(* ===== verification/Rpl_Routes.thy ===== *)
theory Rpl_Routes
  imports Rpl_Of Uip_Ds6_Laws
begin

text \<open>
  The routing part of \<open>core/net/rpl/rpl.c\<close>: ageing and removal of routes, and the
  installation of a route with eviction of the one that expires next.
\<close>

section \<open>Ageing\<close>

definition purge_route :: "route \<Rightarrow> route" where
  "purge_route r =
     (if t_isused r then
        (if e_lifetime (t_state r) \<le> 1 then route_rm r
         else r\<lparr>t_state := (t_state r)\<lparr>e_lifetime := e_lifetime (t_state r) - 1\<rparr>\<rparr>)
      else r)"

definition purge_src_route :: "nat \<Rightarrow> node \<Rightarrow> node" where
  "purge_src_route i s =
     (let r = src_routing_table s ! i in
      if s_isused r then
        (if e_lifetime (s_state r) \<le> 1 then uip_ds6_src_route_rm i s
         else s\<lparr>src_routing_table := updf i (\<lambda>r. r\<lparr>s_state := (s_state r)\<lparr>e_lifetime :=
                 e_lifetime (s_state r) - 1\<rparr>\<rparr>) (src_routing_table s)\<rparr>)
      else s)"

definition rpl_purge_routes :: "node \<Rightarrow> node" where
  "rpl_purge_routes s =
     fold purge_src_route [0..<UIP_DS6_SRC_ROUTE_NB]
       (s\<lparr>routing_table := map purge_route (routing_table s)\<rparr>)"

definition rpl_remove_routes :: "nat \<Rightarrow> node \<Rightarrow> node" where
  "rpl_remove_routes d s =
     s\<lparr>routing_table := map (\<lambda>r. if e_dag (t_state r) = Some d then route_rm r else r) (routing_table s)\<rparr>"

section \<open>Installation\<close>

text \<open>The first entry with the smallest lifetime.\<close>

primrec min_lifetime_from :: "route list \<Rightarrow> nat \<Rightarrow> nat \<Rightarrow> u32 \<Rightarrow> nat" where
  "min_lifetime_from [] i i_min lmin = i_min"
| "min_lifetime_from (r # rs) i i_min lmin =
     (if e_lifetime (t_state r) < lmin then min_lifetime_from rs (Suc i) i (e_lifetime (t_state r))
      else min_lifetime_from rs (Suc i) i_min lmin)"

definition next_to_expire :: "route list \<Rightarrow> nat" where
  "next_to_expire rs = min_lifetime_from rs 0 0 (e_lifetime (t_state (rs ! 0)))"

text \<open>The assignments to \<open>rep->state\<close>; without a DAG the lifetime is
  \<open>RPL_DEFAULT_LIFETIME * RPL_DEFAULT_LIFETIME_UNIT\<close>, and \<open>RPL_ROUTE_FROM_INTERNAL\<close> is 0.\<close>

definition set_route_state :: "nat option \<Rightarrow> nat \<Rightarrow> node \<Rightarrow> node" where
  "set_route_state d r s =
     (let l = (case d of None \<Rightarrow> 510 | Some k \<Rightarrow> RPL_LIFETIME (DAG s k) (cf_default_lifetime (d_config (DAG s k))))
      in s\<lparr>routing_table := updf r (\<lambda>t. t\<lparr>t_state := (t_state t)\<lparr>e_dag := d, e_lifetime := l,
             e_learned_from := 0\<rparr>\<rparr>) (routing_table s)\<rparr>)"

definition rpl_add_route :: "nat option \<Rightarrow> ipaddr \<Rightarrow> u8 \<Rightarrow> ipaddr \<Rightarrow> node \<Rightarrow> nat option \<times> node" where
  "rpl_add_route d prefix prefix_len next_hop s =
     (case uip_ds6_route_lookup prefix s of
        Some r \<Rightarrow> (Some r, set_route_state d r
          (s\<lparr>routing_table := updf r (\<lambda>t. t\<lparr>t_nexthop := next_hop\<rparr>) (routing_table s)\<rparr>))
      | None \<Rightarrow>
          (case uip_ds6_route_add prefix prefix_len next_hop 0 s of
             (Some r, s) \<Rightarrow> (Some r, set_route_state d r s)
           | (None, s) \<Rightarrow>
               (let s = uip_ds6_route_rm (next_to_expire (routing_table s)) s in
                case uip_ds6_route_add prefix prefix_len next_hop 0 s of
                  (Some r, s) \<Rightarrow> (Some r, set_route_state d r s)
                | (None, s) \<Rightarrow> (None, s))))"

section \<open>Lemmas\<close>

lemma purge_route_iterate:
  "t_isused ((purge_route ^^ n) r) \<longleftrightarrow> t_isused r \<and> (n = 0 \<or> n < unat (e_lifetime (t_state r)))"
  "t_isused ((purge_route ^^ n) r) \<Longrightarrow> unat (e_lifetime (t_state ((purge_route ^^ n) r))) = unat (e_lifetime (t_state r)) - n
     \<and> t_nexthop ((purge_route ^^ n) r) = t_nexthop r \<and> t_ipaddr ((purge_route ^^ n) r) = t_ipaddr r"
proof -
  have "(t_isused ((purge_route ^^ n) r) \<longleftrightarrow> t_isused r \<and> (n = 0 \<or> n < unat (e_lifetime (t_state r))))
    \<and> (t_isused ((purge_route ^^ n) r) \<longrightarrow> unat (e_lifetime (t_state ((purge_route ^^ n) r))) = unat (e_lifetime (t_state r)) - n
     \<and> t_nexthop ((purge_route ^^ n) r) = t_nexthop r \<and> t_ipaddr ((purge_route ^^ n) r) = t_ipaddr r)"
  proof (induction n)
    case 0
    then show ?case by simp
  next
    case (Suc n)
    define q where "q = (purge_route ^^ n) r"
    have q: "(purge_route ^^ Suc n) r = purge_route q" by (simp add: q_def)
    note IH = Suc [folded q_def]
    show ?case unfolding q
    proof (cases "t_isused q \<and> 1 < e_lifetime (t_state q)")
      case True
      then have l: "1 < unat (e_lifetime (t_state q))" by (simp add: word_less_nat_alt)
      then have m: "unat (e_lifetime (t_state q) - 1) = unat (e_lifetime (t_state q)) - 1"
        by (subst unat_minus_one) auto
      from True have "purge_route q = q\<lparr>t_state := (t_state q)\<lparr>e_lifetime := e_lifetime (t_state q) - 1\<rparr>\<rparr>"
        by (auto simp: purge_route_def)
      with IH True l m show "(t_isused (purge_route q) \<longleftrightarrow> t_isused r \<and> (Suc n = 0 \<or> Suc n < unat (e_lifetime (t_state r))))
         \<and> (t_isused (purge_route q) \<longrightarrow> unat (e_lifetime (t_state (purge_route q))) = unat (e_lifetime (t_state r)) - Suc n
           \<and> t_nexthop (purge_route q) = t_nexthop r \<and> t_ipaddr (purge_route q) = t_ipaddr r)"
        by auto
    next
      case False
      then have "\<not> t_isused (purge_route q)" by (auto simp: purge_route_def route_rm_def)
      moreover have "t_isused q \<Longrightarrow> unat (e_lifetime (t_state q)) \<le> 1"
        using False by (auto simp: word_less_nat_alt not_less)
      ultimately show "(t_isused (purge_route q) \<longleftrightarrow> t_isused r \<and> (Suc n = 0 \<or> Suc n < unat (e_lifetime (t_state r))))
         \<and> (t_isused (purge_route q) \<longrightarrow> unat (e_lifetime (t_state (purge_route q))) = unat (e_lifetime (t_state r)) - Suc n
           \<and> t_nexthop (purge_route q) = t_nexthop r \<and> t_ipaddr (purge_route q) = t_ipaddr r)"
        using IH by auto
    qed
  qed
  then show "t_isused ((purge_route ^^ n) r) \<longleftrightarrow> t_isused r \<and> (n = 0 \<or> n < unat (e_lifetime (t_state r)))"
    "t_isused ((purge_route ^^ n) r) \<Longrightarrow> unat (e_lifetime (t_state ((purge_route ^^ n) r))) = unat (e_lifetime (t_state r)) - n
     \<and> t_nexthop ((purge_route ^^ n) r) = t_nexthop r \<and> t_ipaddr ((purge_route ^^ n) r) = t_ipaddr r" by blast+
qed

lemma purge_src_frame [simp]: "routing_table (purge_src_route i s) = routing_table s"
  by (simp add: purge_src_route_def Let_def uip_ds6_src_route_rm_def)

lemma fold_purge_src_frame [simp]: "routing_table (fold purge_src_route xs s) = routing_table s"
  by (induction xs arbitrary: s) simp_all

lemma rpl_purge_routes_table [simp]: "routing_table (rpl_purge_routes s) = map purge_route (routing_table s)"
  by (simp add: rpl_purge_routes_def)

lemma rpl_purge_routes_iterate:
  "routing_table ((rpl_purge_routes ^^ n) s) = map (purge_route ^^ n) (routing_table s)"
  by (induction n) simp_all

lemma purge_src_inv: "src_inv s \<Longrightarrow> src_inv (purge_src_route i s)"
proof -
  assume inv: "src_inv s"
  let ?f = "\<lambda>r. r\<lparr>s_state := (s_state r)\<lparr>e_lifetime := e_lifetime (s_state r) - 1\<rparr>\<rparr>"
  have "map s_addr_list (updf i ?f (src_routing_table s)) = map s_addr_list (src_routing_table s)"
    by (auto simp: updf_def map_update list_update_same_conv)
  moreover have "\<forall>r \<in> set (updf i ?f (src_routing_table s)). \<not> s_isused r \<longrightarrow> s_addr_list r = []"
    using inv unfolding src_inv_def by (auto dest!: set_updf_le)
  ultimately have "src_inv (s\<lparr>src_routing_table := updf i ?f (src_routing_table s)\<rparr>)"
    using inv unfolding src_inv_def by (simp del: set_concat set_map)
  then show ?thesis
    using inv src_route_rm_inv [OF inv, of i] by (simp add: purge_src_route_def Let_def)
qed

lemma min_lifetime_bound:
  "min_lifetime_from rs i m l = k \<Longrightarrow> k = m \<and> (\<forall>r \<in> set rs. l \<le> e_lifetime (t_state r))
     \<or> (\<exists>j < length rs. k = i + j \<and> e_lifetime (t_state (rs ! j)) < l
          \<and> (\<forall>r \<in> set rs. e_lifetime (t_state (rs ! j)) \<le> e_lifetime (t_state r)))"
proof (induction rs arbitrary: i m l)
  case Nil
  then show ?case by simp
next
  case (Cons r rs)
  show ?case
  proof (cases "e_lifetime (t_state r) < l")
    case True
    with Cons.prems have "min_lifetime_from rs (Suc i) i (e_lifetime (t_state r)) = k" by simp
    from Cons.IH [OF this] show ?thesis
    proof (elim disjE exE conjE)
      assume "k = i" "\<forall>x \<in> set rs. e_lifetime (t_state r) \<le> e_lifetime (t_state x)"
      with True show ?thesis by (intro disjI2 exI [of _ 0]) auto
    next
      fix j assume "j < length rs" "k = Suc i + j" "e_lifetime (t_state (rs ! j)) < e_lifetime (t_state r)"
        "\<forall>x \<in> set rs. e_lifetime (t_state (rs ! j)) \<le> e_lifetime (t_state x)"
      with True show ?thesis by (intro disjI2 exI [of _ "Suc j"]) auto
    qed
  next
    case False
    with Cons.prems have "min_lifetime_from rs (Suc i) m l = k" by simp
    from Cons.IH [OF this] show ?thesis
    proof (elim disjE exE conjE)
      assume "k = m" "\<forall>x \<in> set rs. l \<le> e_lifetime (t_state x)"
      with False show ?thesis by auto
    next
      fix j assume "j < length rs" "k = Suc i + j" "e_lifetime (t_state (rs ! j)) < l"
        "\<forall>x \<in> set rs. e_lifetime (t_state (rs ! j)) \<le> e_lifetime (t_state x)"
      with False show ?thesis by (intro disjI2 exI [of _ "Suc j"]) auto
    qed
  qed
qed

lemma next_to_expire_min:
  assumes "rs \<noteq> []"
  shows "next_to_expire rs < length rs
    \<and> (\<forall>r \<in> set rs. e_lifetime (t_state (rs ! next_to_expire rs)) \<le> e_lifetime (t_state r))"
  using min_lifetime_bound [of rs 0 0 "e_lifetime (t_state (rs ! 0))" "next_to_expire rs"] assms
  by (auto simp: next_to_expire_def)

lemma route_add_FREESPACE_after_rm:
  assumes "i < length rs"
  shows "uip_ds6_list_loop t_isused t_ipaddr (updf i route_rm rs) ip len \<noteq> (NOSPACE, o')"
proof
  assume a: "uip_ds6_list_loop t_isused t_ipaddr (updf i route_rm rs) ip len = (NOSPACE, o')"
  have "updf i route_rm rs ! i \<in> set (updf i route_rm rs)" using assms by (intro nth_mem) simp
  with list_loop_NOSPACE [OF a] assms show False by (auto simp: route_rm_def)
qed

lemma route_add_result:
  "uip_ds6_route_add ip len nh m s = (r, s') \<Longrightarrow>
     (\<exists>j. r = Some j \<and> j < length (routing_table s)) \<or>
     (r = None \<and> s' = s \<and> (\<exists>o'. uip_ds6_list_loop t_isused t_ipaddr (routing_table s) ip len = (NOSPACE, o')))"
proof -
  assume a: "uip_ds6_route_add ip len nh m s = (r, s')"
  obtain c o' where l: "uip_ds6_list_loop t_isused t_ipaddr (routing_table s) ip len = (c, o')"
    by (rule prod.exhaust)
  show ?thesis
  proof (cases c)
    case FOUND
    with list_loop_FOUND [of t_isused t_ipaddr "routing_table s" ip len o'] l a show ?thesis
      by (auto simp: uip_ds6_route_add_def)
  next
    case FREESPACE
    with list_loop_FREESPACE [of t_isused t_ipaddr "routing_table s" ip len o'] l a show ?thesis
      by (auto simp: uip_ds6_route_add_def)
  next
    case NOSPACE
    with list_loop_NOSPACE [of t_isused t_ipaddr "routing_table s" ip len o'] l a show ?thesis
      by (auto simp: uip_ds6_route_add_def)
  qed
qed

text \<open>The second attempt never fails: a route can always be installed.\<close>

lemma rpl_add_route_Some:
  assumes "routing_table s \<noteq> []"
  shows "\<exists>r s'. rpl_add_route d p len nh s = (Some r, s') \<and> r < length (routing_table s)"
proof (cases "uip_ds6_route_lookup p s")
  case (Some r)
  with route_lookup_Some [OF Some] show ?thesis by (simp add: rpl_add_route_def)
next
  case None
  obtain r1 s1 where a1: "uip_ds6_route_add p len nh 0 s = (r1, s1)" by (rule prod.exhaust)
  from route_add_result [OF a1] show ?thesis
  proof (elim disjE exE conjE)
    fix j assume "r1 = Some j" "j < length (routing_table s)"
    with None a1 show ?thesis by (simp add: rpl_add_route_def)
  next
    fix o' assume n: "r1 = None" "s1 = s"
    let ?i = "next_to_expire (routing_table s)"
    from next_to_expire_min [OF assms] have i: "?i < length (routing_table s)" by blast
    obtain r2 s2 where a2: "uip_ds6_route_add p len nh 0 (uip_ds6_route_rm ?i s) = (r2, s2)" by (rule prod.exhaust)
    from route_add_result [OF a2] route_add_FREESPACE_after_rm [OF i]
    obtain j where "r2 = Some j" "j < length (routing_table s)" by (auto simp: uip_ds6_route_rm_def)
    with None a1 a2 n show ?thesis by (simp add: rpl_add_route_def Let_def)
  qed
qed

end
