(* ===== verification/Rpl_Output.thy ===== *)
theory Rpl_Output
  imports Rpl_Routes
begin

text \<open>
  The sending half of \<open>core/net/rpl/rpl-icmp6.c\<close>: the encoders of DIS, DIO, DAO, DAO-ACK,
  DRO and measurement objects. A message is built as the list of its bytes in the order
  in which the code writes them; \<open>uip_icmp6_send\<close> appends it to the outbox. The lookups
  \<open>rpl_get_dag\<close>, \<open>rpl_find_parent\<close> and \<open>rpl_get_own_addr\<close>, which the encoders call, come
  first.
\<close>

section \<open>Lookups\<close>

definition rpl_get_own_addr :: "bool \<Rightarrow> 'z ds6_scheme \<Rightarrow> ipaddr option" where
  "rpl_get_own_addr global s =
     map_option (\<lambda>i. a_ipaddr (addr_list s ! i))
       (first_index (\<lambda>a. a_isused a \<and> (a_state a = ADDR_TENTATIVE \<or> a_state a = ADDR_PREFERRED)
          \<and> global \<noteq> uip_is_addr_link_local (a_ipaddr a)) (addr_list s) 0)"

definition get_global_addr :: "'z ds6_scheme \<Rightarrow> ipaddr option" where
  "get_global_addr s =
     map_option (\<lambda>i. a_ipaddr (addr_list s ! i))
       (first_index (\<lambda>a. a_isused a \<and> (a_state a = ADDR_TENTATIVE \<or> a_state a = ADDR_PREFERRED)
          \<and> \<not> uip_is_addr_link_local (a_ipaddr a)) (addr_list s) 0)"

text \<open>\<open>RPL_ANY_INSTANCE\<close> is -1.\<close>

definition RPL_ANY_INSTANCE :: int where "RPL_ANY_INSTANCE = -1"

definition rpl_get_dag :: "int \<Rightarrow> ipaddr option \<Rightarrow> node \<Rightarrow> nat option" where
  "rpl_get_dag instance_id dodag_id s =
     (let inst = (if instance_id = RPL_ANY_INSTANCE then uint RPL_DEFAULT_INSTANCE else instance_id)
      in first_index (\<lambda>D. d_joined D \<and> uint (d_instance_id D) = inst
            \<and> (case dodag_id of None \<Rightarrow> True | Some a \<Rightarrow> uip_ipaddr_cmp (d_dag_id D) a)) (dag_table s) 0)"

definition rpl_find_parent :: "nat \<Rightarrow> ipaddr \<Rightarrow> node \<Rightarrow> nat option" where
  "rpl_find_parent d ip s = List.find (\<lambda>p. uip_ipaddr_cmp (p_addr (PAR s p)) ip) (d_parents (DAG s d))"

text \<open>A NULL own address would be followed.\<close>

definition chk_own :: "node \<Rightarrow> node" where
  "chk_own s = (if rpl_get_own_addr True s = None then set_fault s else s)"

definition rpl_p2p_is_target :: "node \<Rightarrow> rpl_dag_p2p \<Rightarrow> bool" where
  "rpl_p2p_is_target s Q =
     (case rpl_get_own_addr True s of None \<Rightarrow> False
      | Some a \<Rightarrow> (let n = 16 - unat (q_compr Q) in take n (drop (unat (q_compr Q)) a) = take n (q_target Q)))"

section \<open>Bytes\<close>

definition set16 :: "u16 \<Rightarrow> bytes" where
  "set16 v = [ucast (drop_bit 8 v), ucast v]"

definition set32 :: "u32 \<Rightarrow> bytes" where
  "set32 v = [ucast (drop_bit 24 v), ucast (drop_bit 16 v), ucast (drop_bit 8 v), ucast v]"

text \<open>Received packets are read from the packet buffer, a memory that does not end with
  the packet.\<close>

definition get16 :: "(nat \<Rightarrow> u8) \<Rightarrow> nat \<Rightarrow> u16" where
  "get16 buf pos = push_bit 8 (ucast (buf pos)) OR ucast (buf (pos + 1))"

definition get32 :: "(nat \<Rightarrow> u8) \<Rightarrow> nat \<Rightarrow> u32" where
  "get32 buf pos = push_bit 24 (ucast (buf pos)) OR push_bit 16 (ucast (buf (pos + 1)))
     OR push_bit 8 (ucast (buf (pos + 2))) OR ucast (buf (pos + 3))"

definition rplnodes_mcast :: ipaddr where
  "rplnodes_mcast = uip_ip6addr [0xff02, 0, 0, 0, 0, 0, 0, 0x001a]"

text \<open>\<open>RPL_BITMASK_WRITE\<close> and \<open>RPL_BITMASK_READ\<close> with shift and mask as arguments.\<close>

definition bitmask_write :: "nat \<Rightarrow> u8 \<Rightarrow> u8 \<Rightarrow> u8 \<Rightarrow> u8" where
  "bitmask_write sh msk8 b v = b OR (push_bit sh v AND msk8)"

definition bitmask_read :: "nat \<Rightarrow> u8 \<Rightarrow> u8 \<Rightarrow> u8" where
  "bitmask_read sh msk8 b = drop_bit sh (b AND msk8)"

section \<open>DIS\<close>

definition dis_output :: "ipaddr option \<Rightarrow> node \<Rightarrow> node" where
  "dis_output addr s =
     emit (Icmp6_send (case addr of None \<Rightarrow> rplnodes_mcast | Some a \<Rightarrow> a) RPL_CODE_DIS [0, 0]) s"

section \<open>DIO\<close>

text \<open>The route discovery option. Addresses on the list are compressed; the node adds its own
  when it is neither the origin nor the target.\<close>

definition rdo_adds_own :: "node \<Rightarrow> rpl_dag \<Rightarrow> rpl_dag_p2p \<Rightarrow> bool" where
  "rdo_adds_own s D Q \<longleftrightarrow> \<not> uip_ds6_is_my_addr (d_dag_id D) s \<and> \<not> rpl_p2p_is_target s Q"

definition write_rdo :: "node \<Rightarrow> rpl_dag \<Rightarrow> rpl_dag_p2p \<Rightarrow> nat list \<Rightarrow> bytes" where
  "write_rdo s D Q addrs =
     (let w = 16 - q_compr Q; n = 16 - unat (q_compr Q);
          own = rdo_adds_own s D Q;
          len = 2 + w * (1 + of_nat (length addrs)) + (if own then w else 0);
          b2 = bitmask_write 0 0x0f (bitmask_write 4 0x30
                 ((if q_both_directions Q \<noteq> 0 then 0x80 else 0) OR (if q_hop_by_hop Q \<noteq> 0 then 0x40 else 0))
                 (q_num_routes Q)) (q_compr Q);
          b3 = bitmask_write 0 0x3f (bitmask_write 6 0xc0 0 (q_rdo_lifetime Q)) (q_max_rank Q)
      in [RPL_DIO_SUBOPT_ROUTE_DISCOVERY, len, b2, b3] @ take n (q_target Q)
         @ concat (map (\<lambda>a. take n (p2p_addr_mem s ! a)) addrs)
         @ (if own then (case rpl_get_own_addr True s of None \<Rightarrow> []
                         | Some a \<Rightarrow> take n (drop (unat (q_compr Q)) a)) else []))"

text \<open>The base object: the grounded bit is overwritten by the mode of operation.\<close>

definition dio_base :: "rpl_dag \<Rightarrow> bytes" where
  "dio_base D = [d_instance_id D, d_version D] @ set16 (d_rank D)
     @ [push_bit 3 (d_mop D), d_dtsn_out D, 0, 0] @ take 16 (d_dag_id D)"

text \<open>The metric container of the DAG; no result for a type that cannot be sent.\<close>

definition dio_metric :: "metric_container \<Rightarrow> bytes option" where
  "dio_metric m =
     (let hdr = [RPL_OPTION_DAG_METRIC_CONTAINER, 6, mc_type m, drop_bit 1 (mc_flags m),
                 push_bit 7 (mc_flags m AND 1) OR (push_bit 4 (mc_aggr m) OR mc_prec m)]
      in if mc_type m = RPL_DAG_MC_NONE then Some []
         else if mc_type m = RPL_DAG_MC_ETX then Some (hdr @ [2] @ set16 (mc_obj m))
         else if mc_type m = RPL_DAG_MC_ENERGY then Some (hdr @ [2, mc_energy_flags m, mc_energy_est m])
         else None)"

text \<open>The constraint of a route discovery, appended to the same option.\<close>

definition dio_constr :: "metric_container \<Rightarrow> bytes \<Rightarrow> bytes option" where
  "dio_constr c met =
     (if mc_type c = RPL_DAG_MC_NONE then Some met
      else
        (let met = (if met = [] then [RPL_OPTION_DAG_METRIC_CONTAINER, 6]
                    else met[length met - 7 := met ! (length met - 7) + 6]);
             hdr = [mc_type c, drop_bit 1 (mc_flags c), push_bit 4 (mc_aggr c) OR mc_prec c]
         in if mc_type c = RPL_DAG_MC_ETX then Some (met @ hdr @ [2] @ set16 (mc_obj c)) else None))"

text \<open>The DODAG configuration option; the only objective function has \<open>ocp\<close> 1.\<close>

definition dio_config :: "dodag_config \<Rightarrow> bytes" where
  "dio_config c = [RPL_OPTION_DAG_CONF, 14, 0, cf_dio_intdoubl c, cf_dio_intmin c, cf_dio_redund c]
     @ set16 (cf_max_rankinc c) @ set16 (cf_min_hoprankinc c) @ set16 1 @ [0, cf_default_lifetime c]
     @ set16 (cf_lifetime_unit c)"

definition dio_prefix :: "rpl_prefix \<Rightarrow> bytes" where
  "dio_prefix p =
     (if 0 < pf_length p then [RPL_OPTION_PREFIX_INFO, 30, pf_length p, pf_flags p] @ set32 (pf_lifetime p)
        @ set32 (pf_lifetime p) @ [0, 0, 0, 0] @ take 16 (pf_prefix p)
      else [])"

text \<open>The special value for a one-hop route: a list whose only element is the DODAG ID.\<close>

definition is_one_hop :: "node \<Rightarrow> rpl_dag \<Rightarrow> rpl_dag_p2p \<Rightarrow> nat list \<Rightarrow> bool" where
  "is_one_hop s D Q route \<longleftrightarrow>
     (case route of [a] \<Rightarrow> (let n = 16 - unat (q_compr Q)
                          in take n (p2p_addr_mem s ! a) = take n (drop (unat (q_compr Q)) (d_dag_id D)))
      | _ \<Rightarrow> False)"

text \<open>The choice of a partial route: with more than one, \<open>random_rand() / (RANDOM_RAND_MAX / cnt)\<close>.
  The quotient can reach the number of routes: an index past the array is a fault.\<close>

definition choose_route :: "nat \<Rightarrow> node \<Rightarrow> nat \<times> node" where
  "choose_route cnt s =
     (if 1 < cnt then (case rand s of (v, s) \<Rightarrow> (unat v div (0x7fff div cnt), s)) else (0, s))"

definition dio_route :: "nat \<Rightarrow> nat \<Rightarrow> node \<Rightarrow> bytes \<times> node" where
  "dio_route d q s =
     (let routes = q_partial_routes (P2P s q);
          cnt = length (filter (\<lambda>r. r \<noteq> []) routes);
          (r, s) = choose_route cnt s;
          s = (if r < length routes then s else set_fault s);
          route = (if r < length routes then routes ! r else []);
          route = (if is_one_hop s (DAG s d) (P2P s q) route then [] else route);
          s = chk_own s
      in (write_rdo s (DAG s d) (P2P s q) route, s))"

text \<open>A P2P DIO is suppressed for an expired DAG and at the maximum rank.\<close>

definition dio_suppressed :: "node \<Rightarrow> nat \<Rightarrow> bool" where
  "dio_suppressed s d =
     (case d_p2p (DAG s d) of None \<Rightarrow> False
      | Some q \<Rightarrow> d_mop (DAG s d) = RPL_MOP_P2P_ROUTE_DISCOVERY
          \<and> (q_expired (P2P s q)
             \<or> (0 < q_max_rank (P2P s q) \<and> DAG_RANK (d_rank (DAG s d)) (DAG s d) = ucast (q_max_rank (P2P s q)))))"

definition chk_dio_rank :: "nat \<Rightarrow> node \<Rightarrow> node" where
  "chk_dio_rank d s =
     (case d_p2p (DAG s d) of None \<Rightarrow> s
      | Some q \<Rightarrow> if d_mop (DAG s d) = RPL_MOP_P2P_ROUTE_DISCOVERY \<and> \<not> q_expired (P2P s q) \<and> 0 < q_max_rank (P2P s q)
                  then chk_rank d s else s)"

text \<open>From the metric container on; \<open>dtsn_out\<close> has been increased by then.\<close>

definition dio_options :: "nat \<Rightarrow> node \<Rightarrow> bytes option \<times> node" where
  "dio_options d s =
     (let s = (if mc_type (d_mc (DAG s d)) \<noteq> RPL_DAG_MC_NONE then of_update_metric_container d s else s);
          p2p_mop = (d_mop (DAG s d) = RPL_MOP_P2P_ROUTE_DISCOVERY)
      in case dio_metric (d_mc (DAG s d)) of
           None \<Rightarrow> (None, s)
         | Some met \<Rightarrow>
             (case (if p2p_mop then (case d_p2p (DAG s d) of None \<Rightarrow> None
                                     | Some q \<Rightarrow> dio_constr (q_constr (P2P s q)) met)
                    else Some met) of
                None \<Rightarrow> (None, if p2p_mop \<and> d_p2p (DAG s d) = None then set_fault s else s)
              | Some met \<Rightarrow>
                  (let s = chk_of d s; opts = met @ dio_config (d_config (DAG s d)) in
                   if p2p_mop then
                     (case d_p2p (DAG s d) of None \<Rightarrow> (None, set_fault s)
                      | Some q \<Rightarrow> (case dio_route d q s of (rdo, s) \<Rightarrow> (Some (opts @ rdo), s)))
                   else (Some (opts @ dio_prefix (d_prefix_info (DAG s d))), s))))"

definition dio_output :: "nat \<Rightarrow> ipaddr option \<Rightarrow> node \<Rightarrow> node" where
  "dio_output d uc_addr s =
     (if d_mop (DAG s d) = RPL_MOP_P2P_ROUTE_DISCOVERY \<and> d_p2p (DAG s d) = None then set_fault s
      else if dio_suppressed s d then chk_dio_rank d s
      else
        (let s = chk_dio_rank d s;
             s = (if d_p2p (DAG s d) = None then upd_dag d (\<lambda>D. D\<lparr>d_dtsn_out := d_dtsn_out D + 1\<rparr>) s else s);
             hdr = dio_base (DAG s d)
         in case dio_options d s of
              (None, s) \<Rightarrow> s
            | (Some opts, s) \<Rightarrow>
                emit (Icmp6_send (case uc_addr of None \<Rightarrow> rplnodes_mcast | Some a \<Rightarrow> a) RPL_CODE_DIO (hdr @ opts)) s))"

section \<open>DAO\<close>

text \<open>The target option carries the 128-bit own address, the transit option the lifetime.\<close>

definition dao_message :: "u8 \<Rightarrow> u8 \<Rightarrow> ipaddr \<Rightarrow> u8 \<Rightarrow> bytes" where
  "dao_message inst dao_seq prefix lifetime =
     [inst, 0, 0, dao_seq, RPL_OPTION_TARGET, 18, 0, 128] @ take 16 prefix
     @ [RPL_OPTION_TRANSIT, 4, 0, 0, 0, lifetime]"

definition dao_output :: "nat option \<Rightarrow> u8 \<Rightarrow> node \<Rightarrow> node" where
  "dao_output n lifetime s =
     (case get_global_addr s of None \<Rightarrow> s
      | Some prefix \<Rightarrow>
          (case (case n of None \<Rightarrow> rpl_get_dag RPL_ANY_INSTANCE None s | Some p \<Rightarrow> Some (p_dag (PAR s p))) of
             None \<Rightarrow> s
           | Some d \<Rightarrow>
               (let s = s\<lparr>dao_sequence := dao_sequence s + 1\<rparr>
                in emit (Icmp6_send (case n of None \<Rightarrow> rplnodes_mcast | Some p \<Rightarrow> p_addr (PAR s p)) RPL_CODE_DAO
                     (dao_message (d_instance_id (DAG s d)) (dao_sequence s) prefix lifetime)) s)))"

definition dao_ack_output :: "nat \<Rightarrow> ipaddr \<Rightarrow> u8 \<Rightarrow> node \<Rightarrow> node" where
  "dao_ack_output d dest dao_seq s =
     emit (Icmp6_send dest RPL_CODE_DAO_ACK [d_instance_id (DAG s d), 0, dao_seq, 0]) s"

section \<open>DRO\<close>

text \<open>The option of a DRO has its Rem field set to the number of addresses in the vector.\<close>

definition dro_rdo :: "bytes \<Rightarrow> bytes" where
  "dro_rdo rdo =
     (let b3 = rdo ! 3 AND NOT 0x3f;
          rem = (unat (rdo ! 1) - 2) div (16 - unat (bitmask_read 0 0x0f (rdo ! 2))) - 1
      in rdo[3 := bitmask_write 0 0x3f b3 (of_nat rem)])"

definition dro_cache_store :: "bytes \<Rightarrow> node \<Rightarrow> node" where
  "dro_cache_store msg s =
     (if length msg \<le> RPL_DRO_CACHE_ENTRY_SIZE then
        (case pool_alloc (dro_cache_cnt s) of
           (None, _) \<Rightarrow> s
         | (Some c, cnt) \<Rightarrow>
             s\<lparr>dro_cache_cnt := cnt,
               dro_cache_mem := updf c (\<lambda>e. e\<lparr>c_length := of_nat (length msg),
                  c_buffer := msg @ drop (length msg) (c_buffer e), c_rexmits := 0,
                  c_timer := ctimer_set 1280 Dro_rexmit (c_timer e)\<rparr>) (dro_cache_mem s),
               dro_cache := lst_add (dro_cache s) c\<rparr>)
      else s)"

definition dro_output :: "nat \<Rightarrow> nat list \<Rightarrow> node \<Rightarrow> node" where
  "dro_output d addrs s =
     (case d_p2p (DAG s d) of None \<Rightarrow> s
      | Some q \<Rightarrow>
          (let D = DAG s d;
               flags = (bitmask_write 6 0xC0 0 (q_dro_seq (P2P s q)) OR 0x20) OR 0x10;
               s = upd_p2p q (\<lambda>Q. Q\<lparr>q_dro_seq := q_dro_seq Q + 1, q_lifetime := 0\<rparr>) s;
               s = chk_own s;
               rdo = dro_rdo (write_rdo s D (P2P s q) addrs);
               msg = take (unat (20 + (rdo ! 1 + 2))) ([d_instance_id D, d_version D, flags, 0] @ take 16 (d_dag_id D) @ rdo);
               s = dro_cache_store msg s
           in emit (Icmp6_send rplnodes_mcast RPL_CODE_DRO msg) s))"

definition dro_rexmit :: "nat \<Rightarrow> node \<Rightarrow> node" where
  "dro_rexmit c s =
     (let s = s\<lparr>dro_cache_mem := updf c (\<lambda>e. e\<lparr>c_rexmits := c_rexmits e + 1\<rparr>) (dro_cache_mem s)\<rparr>;
          E = dro_cache_mem s ! c;
          s = (if c_rexmits E < 2
               then s\<lparr>dro_cache_mem := updf c (\<lambda>e. e\<lparr>c_timer := ctimer_reset (c_timer e)\<rparr>) (dro_cache_mem s)\<rparr>
               else s\<lparr>dro_cache := remove1 c (dro_cache s), dro_cache_cnt := pool_free (dro_cache_cnt s) c\<rparr>)
      in emit (Icmp6_send rplnodes_mcast RPL_CODE_DRO (take (unat (c_length E)) (c_buffer E))) s)"

end
