(* ===== verification/Rpl_Timers.thy ===== *)
theory Rpl_Timers
  imports Rpl_Output
begin

text \<open>
  The Trickle timer of DIOs and the DAO timer, \<open>core/net/rpl/rpl-timers.c\<close>. The handler
  of the periodic timer calls the DAG code and is modelled with it.
\<close>

section \<open>Trickle\<close>

text \<open>\<open>1UL << dio_intcurrent\<close> is undefined from 32 on.\<close>

definition chk_shift :: "nat \<Rightarrow> node \<Rightarrow> node" where
  "chk_shift d s = (if 32 \<le> d_dio_intcurrent (DAG s d) then set_fault s else s)"

text \<open>The length of the interval in clock ticks, and the moment in it at which a DIO may be
  sent: its half plus a random part of the other half.\<close>

definition interval_ticks :: "u8 \<Rightarrow> u32" where
  "interval_ticks i = push_bit (unat i) 1 * CLOCK_SECOND div 1000"

definition dio_delay :: "u32 \<Rightarrow> u16 \<Rightarrow> u32" where
  "dio_delay t r = (let h = drop_bit 1 t in h + h * ucast r div 0x7fff)"

definition new_dio_interval :: "nat \<Rightarrow> node \<Rightarrow> node" where
  "new_dio_interval d s =
     (let s = chk_shift d s;
          t = interval_ticks (d_dio_intcurrent (DAG s d));
          (r, s) = rand s;
          delay = dio_delay t r
      in upd_dag d (\<lambda>D. D\<lparr>d_dio_next_delay := t - delay, d_dio_send := True, d_dio_counter := 0,
           d_dio_timer := ctimer_set delay Handle_dio_timer (d_dio_timer D)\<rparr>) s)"

definition rpl_reset_dio_timer :: "nat \<Rightarrow> bool \<Rightarrow> node \<Rightarrow> node" where
  "rpl_reset_dio_timer d force s =
     (if force \<or> cf_dio_intmin (d_config (DAG s d)) < d_dio_intcurrent (DAG s d)
      then new_dio_interval d (upd_dag d (\<lambda>D. D\<lparr>d_dio_counter := 0,
             d_dio_intcurrent := cf_dio_intmin (d_config D)\<rparr>) s)
      else s)"

definition handle_dio_timer :: "nat \<Rightarrow> node \<Rightarrow> node" where
  "handle_dio_timer d s =
     (if \<not> dio_send_ok s \<and> uip_ds6_get_link_local (uint ADDR_PREFERRED) s = None
      then upd_dag d (\<lambda>D. D\<lparr>d_dio_timer := ctimer_set CLOCK_SECOND Handle_dio_timer (d_dio_timer D)\<rparr>) s
      else
        (let s = s\<lparr>dio_send_ok := True\<rparr> in
         if d_dio_send (DAG s d) then
           (let s = (if d_dio_counter (DAG s d) < cf_dio_redund (d_config (DAG s d)) then dio_output d None s else s)
            in upd_dag d (\<lambda>D. D\<lparr>d_dio_send := False,
                 d_dio_timer := ctimer_set (d_dio_next_delay D) Handle_dio_timer (d_dio_timer D)\<rparr>) s)
         else
           (let D = DAG s d;
                s = (if unat (d_dio_intcurrent D) < unat (cf_dio_intmin (d_config D)) + unat (cf_dio_intdoubl (d_config D))
                     then upd_dag d (\<lambda>D. D\<lparr>d_dio_intcurrent := d_dio_intcurrent D + 1\<rparr>) s else s)
            in new_dio_interval d s)))"

section \<open>DAO\<close>

definition handle_dao_timer :: "nat \<Rightarrow> node \<Rightarrow> node" where
  "handle_dao_timer d s =
     (if \<not> dio_send_ok s \<and> uip_ds6_get_link_local (uint ADDR_PREFERRED) s = None
      then upd_dag d (\<lambda>D. D\<lparr>d_dao_timer := ctimer_set CLOCK_SECOND Handle_dao_timer (d_dao_timer D)\<rparr>) s
      else
        (let s = (case d_preferred_parent (DAG s d) of
                    Some p \<Rightarrow> dao_output (Some p) (cf_default_lifetime (d_config (DAG s d))) s
                  | None \<Rightarrow> s)
         in upd_dag d (\<lambda>D. D\<lparr>d_dao_timer := ctimer_stop (d_dao_timer D)\<rparr>) s))"

text \<open>\<open>DEFAULT_DAO_LATENCY\<close> is 8 seconds, 1024 ticks.\<close>

definition rpl_schedule_dao :: "nat \<Rightarrow> node \<Rightarrow> node" where
  "rpl_schedule_dao d s =
     (if ct_active (d_dao_timer (DAG s d)) then s
      else (case rand s of (r, s) \<Rightarrow>
        upd_dag d (\<lambda>D. D\<lparr>d_dao_timer := ctimer_set (512 + ucast r mod 1024) Handle_dao_timer (d_dao_timer D)\<rparr>) s))"

section \<open>Lemmas\<close>

lemma push_bit_1_u32: "unat (push_bit n 1 :: u32) = 2 ^ n mod 4294967296"
proof -
  have "(push_bit n 1 :: u32) = word_of_nat (2 ^ n)" by (simp add: push_bit_eq_mult)
  then show ?thesis by (simp only: unat_of_nat take_bit_eq_mod) simp
qed

lemma interval_ticks_nat:
  assumes "unat i \<le> 24"
  shows "unat (interval_ticks i) = 2 ^ unat i * 128 div 1000"
proof -
  have le: "(2::nat) ^ unat i \<le> 2 ^ 24" using assms by (intro power_increasing) auto
  define w :: u32 where "w = push_bit (unat i) 1"
  have p: "unat w = 2 ^ unat i"
    using le unfolding w_def push_bit_1_u32 by (intro mod_less) simp
  have "unat (w * 128) = 2 ^ unat i * 128"
    using le by (simp add: unat_word_ariths p)
  then show ?thesis unfolding interval_ticks_def CLOCK_SECOND_def w_def [symmetric] by (simp add: unat_div)
qed

lemma dio_delay_bounds:
  assumes r: "unat r \<le> 0x7fff"
  shows "unat t div 2 \<le> unat (dio_delay t r) \<and> unat (dio_delay t r) \<le> unat t"
proof -
  let ?h = "unat t div 2"
  let ?q = "?h * unat r mod 4294967296 div 32767"
  define hw where "hw = drop_bit 1 t"
  define rw where "rw = (ucast r :: u32)"
  have h: "unat hw = ?h" unfolding hw_def by (simp add: drop_bit_eq_div unat_div)
  have rr: "unat rw = unat r" unfolding rw_def using u16_less [of r]
    by (simp add: unsigned_ucast_eq take_bit_eq_mod del: u16_less)
  have q: "unat (hw * rw div 0x7fff) = ?q"
    by (simp add: unat_div unat_word_ariths h rr)
  have "?q \<le> ?h"
  proof (cases "?h * unat r < 4294967296")
    case True
    then have "?q = ?h * unat r div 32767" by simp
    also have "\<dots> \<le> ?h * 32767 div 32767" using r by (intro div_le_mono mult_le_mono) auto
    finally show ?thesis by simp
  next
    case False
    have "?h * unat r \<le> ?h * 32767" using r by (intro mult_le_mono) auto
    with False have "131076 < ?h" by linarith
    moreover have "?q \<le> 131076"
      using mod_less_divisor [of 4294967296 "?h * unat r"] by linarith
    ultimately show ?thesis by linarith
  qed
  moreover have "unat (dio_delay t r) = ?h + ?q"
  proof -
    have "?h + ?q < 4294967296" using \<open>?q \<le> ?h\<close> u32_less [of t] by linarith
    then show ?thesis
      by (simp only: dio_delay_def Let_def hw_def [symmetric] rw_def [symmetric] unat_word_ariths h q) (simp add: rr)
  qed
  ultimately show ?thesis by linarith
qed

lemma rand_result: "rand s = (r, s') \<Longrightarrow> unat r \<le> 0x7fff"
  using random_rand_bound [of "rand_state s"] by (auto simp: rand_def split: prod.splits)

lemma rand_frame [simp]:
  "rand s = (r, s') \<Longrightarrow> dag_table s' = dag_table s"
  by (auto simp: rand_def split: prod.splits)

lemma chk_frames [simp]:
  "dag_table (chk_shift d s) = dag_table s" "dag_table (chk_rank d s) = dag_table s"
  "dag_table (chk_of d s) = dag_table s" "dag_table (chk_own s) = dag_table s"
  "dag_table (set_fault s) = dag_table s"
  by (simp_all add: chk_shift_def chk_rank_def chk_of_def chk_own_def set_fault_def)

text \<open>What a new interval does to its DAG.\<close>

lemma new_dio_interval_dag:
  assumes "d < length (dag_table s)"
  shows "\<exists>r. unat r \<le> 0x7fff \<and>
    DAG (new_dio_interval d s) d =
      (let D = DAG s d; t = interval_ticks (d_dio_intcurrent D)
       in D\<lparr>d_dio_next_delay := t - dio_delay t r, d_dio_send := True, d_dio_counter := 0,
            d_dio_timer := ctimer_set (dio_delay t r) Handle_dio_timer (d_dio_timer D)\<rparr>)"
proof -
  obtain r s1 where r: "rand (chk_shift d s) = (r, s1)" by (rule prod.exhaust)
  from rand_frame [OF r] have f: "dag_table s1 = dag_table s" by simp
  then have d1: "DAG s1 d = DAG s d" and d2: "DAG (chk_shift d s) d = DAG s d" by (simp_all add: DAG_def)
  from f assms have l: "d < length (dag_table s1)" by simp
  show ?thesis
    by (rule exI [of _ r])
      (simp only: new_dio_interval_def Let_def r d2 prod.case DAG_upd_dag(1) [OF l] d1 rand_result [OF r] simp_thms)
qed

section \<open>Properties\<close>



end
