(* ===== verification/Rpl_Dag.thy ===== *)
theory Rpl_Dag
  imports Rpl_Timers
begin

text \<open>
  DAGs and parents, \<open>core/net/rpl/rpl-dag.c\<close>, with the neighbour callbacks of \<open>rpl.c\<close>.
  Parents of all DAGs share one pool; a DAG holds the list of its parents. The processing
  of DIOs, which also needs the P2P extension, is in \<open>Rpl_Dio\<close>.
\<close>

section \<open>Parents\<close>

definition rpl_remove_parent :: "nat \<Rightarrow> nat \<Rightarrow> node \<Rightarrow> node" where
  "rpl_remove_parent d p s =
     (let a = p_addr (PAR s p);
          s = (if d_p2p (DAG s d) = None then
                 (let s = uip_ds6_route_rm_by_nexthop a s
                  in case uip_ds6_defrt_lookup a s of
                       Some r \<Rightarrow> upd_dag d (\<lambda>D. D\<lparr>d_def_route := None\<rparr>) (uip_ds6_defrt_rm r s)
                     | None \<Rightarrow> s)
               else s);
          s = upd_dag d (\<lambda>D. D\<lparr>d_preferred_parent := (if d_preferred_parent D = Some p then None else d_preferred_parent D),
                d_parents := remove1 p (d_parents D)\<rparr>) s
      in s\<lparr>parent_cnt := pool_free (parent_cnt s) p\<rparr>)"

definition rpl_remove_parents :: "nat \<Rightarrow> u16 \<Rightarrow> node \<Rightarrow> node" where
  "rpl_remove_parents d minimum_rank s =
     fold (\<lambda>p s. if minimum_rank \<le> p_rank (PAR s p) then rpl_remove_parent d p s else s) (d_parents (DAG s d)) s"

primrec worst_parent :: "node \<Rightarrow> nat option \<Rightarrow> nat list \<Rightarrow> nat option \<Rightarrow> nat option" where
  "worst_parent s preferred [] worst = worst"
| "worst_parent s preferred (p # ps) worst =
     worst_parent s preferred ps
       (if preferred \<noteq> Some p \<and> (case worst of None \<Rightarrow> True | Some w \<Rightarrow> p_rank (PAR s w) < p_rank (PAR s p))
        then Some p else worst)"

definition remove_worst_parent :: "nat \<Rightarrow> u16 \<Rightarrow> node \<Rightarrow> node" where
  "remove_worst_parent d min_worst_rank s =
     (case worst_parent s (d_preferred_parent (DAG s d)) (d_parents (DAG s d)) None of
        Some w \<Rightarrow> if min_worst_rank < p_rank (PAR s w) then rpl_remove_parent d w s else s
      | None \<Rightarrow> s)"

text \<open>What the code does with a freshly allocated block \<open>p\<close>.\<close>

definition enter_parent :: "nat \<Rightarrow> nat \<Rightarrow> rpl_dio \<Rightarrow> ipaddr \<Rightarrow> node \<Rightarrow> node" where
  "enter_parent d p dio addr s =
     (let metric = (case uip_ds6_nbr_lookup addr s of
                      Some n \<Rightarrow> ni_metric s (n_lladdr (nbr_cache s ! n))
                    | None \<Rightarrow> INITIAL_LINK_METRIC);
          s = upd_par p (\<lambda>P. P\<lparr>p_addr := take 16 addr, p_dag := d, p_rank := o_rank dio,
                p_link_metric := metric, p_dtsn := 0, p_mc := o_mc dio\<rparr>) s
      in upd_dag d (\<lambda>D. D\<lparr>d_parents := lst_add (d_parents D) p\<rparr>) s)"

definition rpl_add_parent :: "nat \<Rightarrow> rpl_dio \<Rightarrow> ipaddr \<Rightarrow> node \<Rightarrow> nat option \<times> node" where
  "rpl_add_parent d dio addr s =
     (case pool_alloc (parent_cnt s) of
        (Some p, cnt) \<Rightarrow> (Some p, enter_parent d p dio addr (s\<lparr>parent_cnt := cnt\<rparr>))
      | (None, _) \<Rightarrow>
          (let s = remove_worst_parent d (o_rank dio) s
           in case pool_alloc (parent_cnt s) of
                (Some p, cnt) \<Rightarrow> (Some p, enter_parent d p dio addr (s\<lparr>parent_cnt := cnt\<rparr>))
              | (None, _) \<Rightarrow> (None, s)))"

section \<open>Ranks and configuration\<close>

definition should_send_dao :: "nat \<Rightarrow> rpl_dio \<Rightarrow> nat \<Rightarrow> node \<Rightarrow> bool" where
  "should_send_dao d dio p s \<longleftrightarrow>
     d_mop (DAG s d) \<noteq> RPL_MOP_NO_DOWNWARD_ROUTES \<and> o_dtsn dio \<noteq> p_dtsn (PAR s p)
     \<and> d_preferred_parent (DAG s d) = Some p"

text \<open>The sum of the minimum rank and the maximum increase wraps at 16 bits.\<close>

definition acceptable_rank :: "rpl_dag \<Rightarrow> u16 \<Rightarrow> bool" where
  "acceptable_rank D rank \<longleftrightarrow>
     rank \<noteq> INFINITE_RANK \<and>
     (cf_max_rankinc (d_config D) = 0
      \<or> DAG_RANK rank D \<le> DAG_RANK (d_min_rank D + cf_max_rankinc (d_config D)) D)"

definition chk_acceptable :: "nat \<Rightarrow> u16 \<Rightarrow> node \<Rightarrow> node" where
  "chk_acceptable d rank s =
     (if rank \<noteq> INFINITE_RANK \<and> cf_max_rankinc (d_config (DAG s d)) \<noteq> 0 then chk_rank d s else s)"

definition rpl_set_dodag_config :: "nat \<Rightarrow> dodag_config \<Rightarrow> node \<Rightarrow> bool \<times> node" where
  "rpl_set_dodag_config d dcf s =
     (case rpl_find_of (cf_ocp dcf) of
        None \<Rightarrow> (False, s)
      | Some f \<Rightarrow> (True, upd_dag d (\<lambda>D. D\<lparr>d_of := Some f, d_config := dcf\<rparr>) s))"

text \<open>\<open>UIP_ND6_RA_FLAG_AUTONOMOUS\<close> is 0x40. The length is an \<open>int\<close> that no caller makes negative.\<close>

definition UIP_ND6_RA_FLAG_AUTONOMOUS :: u8 where "UIP_ND6_RA_FLAG_AUTONOMOUS = 0x40"

definition rpl_set_prefix :: "nat \<Rightarrow> ipaddr \<Rightarrow> nat \<Rightarrow> node \<Rightarrow> bool \<times> node" where
  "rpl_set_prefix d prefix len s =
     (if len \<le> 128
      then (True, upd_dag d (\<lambda>D. D\<lparr>d_prefix_info := (d_prefix_info D)\<lparr>
              pf_prefix := take ((len + 7) div 8) prefix @ replicate (16 - (len + 7) div 8) 0,
              pf_length := of_nat len, pf_flags := UIP_ND6_RA_FLAG_AUTONOMOUS\<rparr>\<rparr>) s)
      else (False, s))"

definition rpl_set_default_route :: "nat \<Rightarrow> ipaddr option \<Rightarrow> node \<Rightarrow> bool \<times> node" where
  "rpl_set_default_route d from_addr s =
     (if d_mop (DAG s d) = RPL_MOP_P2P_ROUTE_DISCOVERY then (True, s)
      else
        (let s = (case d_def_route (DAG s d) of Some r \<Rightarrow> uip_ds6_defrt_rm r s | None \<Rightarrow> s)
         in case from_addr of
              None \<Rightarrow> (True, s)
            | Some a \<Rightarrow>
                (case uip_ds6_defrt_add a (RPL_LIFETIME (DAG s d) (cf_default_lifetime (d_config (DAG s d)))) s of
                   (r, s) \<Rightarrow> (r \<noteq> None, upd_dag d (\<lambda>D. D\<lparr>d_def_route := r\<rparr>) s))))"

section \<open>DAGs\<close>

definition rpl_alloc_dag :: "u8 \<Rightarrow> node \<Rightarrow> nat option \<times> node" where
  "rpl_alloc_dag instance_id s =
     (case first_index (\<lambda>D. \<not> d_used D) (dag_table s) 0 of
        Some d \<Rightarrow> (Some d, upd_dag d (\<lambda>_. dag0\<lparr>d_instance_id := instance_id, d_def_route := None,
                     d_rank := INFINITE_RANK, d_min_rank := INFINITE_RANK, d_used := True\<rparr>) s)
      | None \<Rightarrow> (None, s))"

definition rpl_free_dag :: "nat \<Rightarrow> node \<Rightarrow> node" where
  "rpl_free_dag d s =
     (let s = (if d_mop (DAG s d) \<noteq> RPL_MOP_P2P_ROUTE_DISCOVERY then rpl_remove_routes d s else s);
          s = rpl_remove_parents d 0 s;
          s = snd (rpl_set_default_route d None s)
      in upd_dag d (\<lambda>D. D\<lparr>d_dio_timer := ctimer_stop (d_dio_timer D), d_dao_timer := ctimer_stop (d_dao_timer D),
           d_used := False, d_joined := False\<rparr>) s)"

definition rpl_set_root :: "ipaddr \<Rightarrow> node \<Rightarrow> nat option \<times> node" where
  "rpl_set_root dag_id s =
     (let (version, s) = (case rpl_get_dag (uint RPL_DEFAULT_INSTANCE) None s of
                            Some d \<Rightarrow> (d_version (DAG s d), rpl_free_dag d s)
                          | None \<Rightarrow> (- 1, s))
      in case rpl_alloc_dag RPL_DEFAULT_INSTANCE s of
           (None, s) \<Rightarrow> (None, s)
         | (Some d, s) \<Rightarrow>
             (let s = upd_dag d (\<lambda>D. D\<lparr>d_joined := True, d_version := version + 1, d_grounded := 0,
                        d_mop := RPL_MOP_DEFAULT, d_preferred_parent := None, d_dtsn_out := 1\<rparr>) s;
                  s = snd (rpl_set_dodag_config d DEFAULT_DODAG_CONFIG s);
                  s = upd_dag d (\<lambda>D. D\<lparr>d_dag_id := take 16 dag_id, d_rank := ROOT_RANK D\<rparr>) s;
                  s = of_update_metric_container d s
              in (Some d, rpl_reset_dio_timer d True s)))"

section \<open>Parent selection\<close>

primrec select_best :: "node \<Rightarrow> nat list \<Rightarrow> nat option \<Rightarrow> nat option" where
  "select_best s [] best = best"
| "select_best s (p # ps) best =
     select_best s ps
       (if p_rank (PAR s p) = INFINITE_RANK then best
        else (case best of None \<Rightarrow> Some p | Some b \<Rightarrow> etx_best_parent s b p))"

text \<open>The switch to a new preferred parent.\<close>

definition switch_parent :: "nat \<Rightarrow> nat \<Rightarrow> node \<Rightarrow> node" where
  "switch_parent d best s =
     (let s = dao_output (d_preferred_parent (DAG s d)) 0 s;
          s = upd_dag d (\<lambda>D. D\<lparr>d_preferred_parent := Some best\<rparr>) s;
          s = of_update_metric_container d s;
          s = snd (rpl_set_default_route d (Some (p_addr (PAR s best))) s);
          s = (if d_mop (DAG s d) \<noteq> RPL_MOP_NO_DOWNWARD_ROUTES then rpl_schedule_dao d s else s)
      in if d_p2p (DAG s d) = None then rpl_reset_dio_timer d True s else s)"

definition rpl_select_parent :: "nat \<Rightarrow> node \<Rightarrow> nat option \<times> node" where
  "rpl_select_parent d s =
     (case select_best s (d_parents (DAG s d)) None of
        None \<Rightarrow> (None, s)
      | Some best \<Rightarrow>
          (let s = chk_of d s;
               s = (if d_preferred_parent (DAG s d) \<noteq> Some best then switch_parent d best s else s);
               s = upd_dag d (\<lambda>D. D\<lparr>d_rank := etx_calculate_rank s (Some best) 0\<rparr>) s
           in if d_rank (DAG s d) < d_min_rank (DAG s d)
              then (Some best, upd_dag d (\<lambda>D. D\<lparr>d_min_rank := d_rank D\<rparr>) s)
              else
                (let s = chk_acceptable d (p_rank (PAR s best)) s in
                 if \<not> acceptable_rank (DAG s d) (p_rank (PAR s best))
                 then (None, rpl_remove_parents d 0 (dao_output (Some best) 0 s))
                 else (Some best, s))))"

definition rpl_local_repair :: "nat \<Rightarrow> node \<Rightarrow> node" where
  "rpl_local_repair d s =
     rpl_reset_dio_timer d True (rpl_remove_parents d 0 (upd_dag d (\<lambda>D. D\<lparr>d_rank := INFINITE_RANK\<rparr>) s))"

text \<open>The rank of the DAG has changed in its integer part.\<close>

definition rank_moved :: "nat \<Rightarrow> node \<Rightarrow> node" where
  "rank_moved d s =
     (let s = (if d_rank (DAG s d) < d_min_rank (DAG s d) then upd_dag d (\<lambda>D. D\<lparr>d_min_rank := d_rank D\<rparr>) s else s)
      in if d_p2p (DAG s d) = None then rpl_reset_dio_timer d True s else s)"

definition rpl_process_parent_event :: "nat \<Rightarrow> nat \<Rightarrow> node \<Rightarrow> bool \<times> node" where
  "rpl_process_parent_event d p s =
     (let parent_rank = p_rank (PAR s p); old_rank = d_rank (DAG s d)
      in case rpl_select_parent d s of
           (None, s) \<Rightarrow> (True, rpl_local_repair d s)
         | (Some _, s) \<Rightarrow>
             (let s = chk_rank d s;
                  s = (if DAG_RANK old_rank (DAG s d) \<noteq> DAG_RANK (d_rank (DAG s d)) (DAG s d) then rank_moved d s else s)
              in if parent_rank = INFINITE_RANK then (False, s)
                 else (acceptable_rank (DAG s d) (etx_calculate_rank s None parent_rank),
                       chk_acceptable d (etx_calculate_rank s None parent_rank) (chk_of d s))))"

definition rpl_recalculate_ranks :: "node \<Rightarrow> node" where
  "rpl_recalculate_ranks s =
     (case rpl_get_dag RPL_ANY_INSTANCE None s of
        None \<Rightarrow> s
      | Some d \<Rightarrow>
          (case List.find (\<lambda>p. p_updated (PAR s p)) (d_parents (DAG s d)) of
             None \<Rightarrow> s
           | Some p \<Rightarrow> snd (rpl_process_parent_event d p (upd_par p (\<lambda>P. P\<lparr>p_updated := False\<rparr>) s))))"

section \<open>Repair\<close>

definition global_repair :: "ipaddr \<Rightarrow> nat \<Rightarrow> rpl_dio \<Rightarrow> node \<Rightarrow> node" where
  "global_repair from_addr d dio s =
     (let s = rpl_remove_parents d 0 s;
          s = upd_dag d (\<lambda>D. D\<lparr>d_version := o_version dio, d_dtsn_out := 1\<rparr>) s;
          s = etx_reset d (chk_of d s)
      in case rpl_add_parent d dio from_addr s of
           (None, s) \<Rightarrow> upd_dag d (\<lambda>D. D\<lparr>d_rank := INFINITE_RANK\<rparr>) s
         | (Some p, s) \<Rightarrow>
             (let s = snd (rpl_set_default_route d (Some from_addr) s);
                  s = upd_dag d (\<lambda>D. D\<lparr>d_rank := etx_calculate_rank s None (o_rank dio),
                        d_min_rank := etx_calculate_rank s None (o_rank dio)\<rparr>) s;
                  s = rpl_reset_dio_timer d True s
              in if should_send_dao d dio p s then rpl_schedule_dao d s else s))"

definition rpl_repair_dag :: "nat \<Rightarrow> node \<Rightarrow> bool \<times> node" where
  "rpl_repair_dag d s =
     (if d_rank (DAG s d) = ROOT_RANK (DAG s d)
      then (True, rpl_reset_dio_timer d True (upd_dag d (\<lambda>D. D\<lparr>d_version := d_version D + 1, d_dtsn_out := 1\<rparr>) s))
      else (False, s))"

section \<open>Neighbour callbacks and initialisation, rpl.c\<close>

text \<open>The step of the loop over the DAGs in \<open>rpl_link_neighbor_callback\<close>.\<close>

definition link_neighbor_dag :: "ipaddr \<Rightarrow> bool \<Rightarrow> u8 \<Rightarrow> nat \<Rightarrow> node \<Rightarrow> node" where
  "link_neighbor_dag ip known etx d s =
     (let D = DAG s d in
      if \<not> d_joined D then s
      else if d_mop D = RPL_MOP_P2P_ROUTE_DISCOVERY \<and> d_p2p D = None then set_fault s
      else if d_mop D = RPL_MOP_P2P_ROUTE_DISCOVERY \<and> q_expired (P2P s (the (d_p2p D))) then s
      else
        (case rpl_find_parent d ip s of
           None \<Rightarrow> if \<not> known then uip_ds6_route_rm_by_nexthop ip s else s
         | Some p \<Rightarrow>
             (let s = chk_of d (upd_par p (\<lambda>P. P\<lparr>p_updated := True, p_link_metric := etx\<rparr>) s);
                  s = etx_parent_state_callback p known (ucast etx) s
              in if \<not> known then upd_par p (\<lambda>P. P\<lparr>p_rank := INFINITE_RANK\<rparr>) s else s)))"

definition rpl_link_neighbor_callback :: "bytes \<Rightarrow> bool \<Rightarrow> u8 \<Rightarrow> node \<Rightarrow> node" where
  "rpl_link_neighbor_callback addr known etx s =
     (let ip = uip_ds6_set_addr_iid (uip_ip6addr [0xfe80, 0, 0, 0, 0, 0, 0, 0]) addr
      in fold (link_neighbor_dag ip known etx) [0..<RPL_MAX_DAG_ENTRIES] s)"

definition rpl_ipv6_neighbor_callback :: "nat \<Rightarrow> node \<Rightarrow> node" where
  "rpl_ipv6_neighbor_callback n s =
     (case rpl_get_dag RPL_ANY_INSTANCE None s of
        None \<Rightarrow> s
      | Some d \<Rightarrow>
          (let N = nbr_cache s ! n;
               s = (case d_def_route (DAG s d) of
                      Some r \<Rightarrow> if uip_ipaddr_cmp (r_ipaddr (defrt_list s ! r)) (n_ipaddr N)
                                then upd_dag d (\<lambda>D. D\<lparr>d_def_route := None\<rparr>) s else s
                    | None \<Rightarrow> s)
           in if n_isused N then s
              else (case rpl_find_parent d (n_ipaddr N) s of
                      Some p \<Rightarrow> upd_par p (\<lambda>P. P\<lparr>p_rank := INFINITE_RANK, p_updated := True\<rparr>) s
                    | None \<Rightarrow> s)))"

definition rpl_reset_periodic_timer :: "node \<Rightarrow> node" where
  "rpl_reset_periodic_timer s = s\<lparr>periodic_timer := ctimer_set CLOCK_SECOND Handle_periodic_timer (periodic_timer s)\<rparr>"

definition rpl_init :: "node \<Rightarrow> node" where
  "rpl_init s = snd (uip_ds6_maddr_add rplnodes_mcast (rpl_reset_periodic_timer s))"

end
