(* ===== verification/Rpl_P2p.thy ===== *)
theory Rpl_P2p
  imports Rpl_Dag
begin

text \<open>
  The point-to-point route discovery extension, \<open>core/net/rpl/rpl-p2p.c\<close>: temporary DAGs,
  their partial routes, the discovery of a route by the origin, the replies of the target
  and the installation of the discovered routes. \<open>latest_p2p_dag\<close> is only read by
  debugging code and left out. A P2P DAG without extension would be a NULL pointer that is
  followed: \<open>with_p2p\<close> records that.
\<close>

definition with_p2p :: "nat \<Rightarrow> (nat \<Rightarrow> node \<Rightarrow> node) \<Rightarrow> node \<Rightarrow> node" where
  "with_p2p d f s = (case d_p2p (DAG s d) of None \<Rightarrow> set_fault s | Some q \<Rightarrow> f q s)"

section \<open>Partial routes\<close>

definition free_addr_list :: "nat \<Rightarrow> nat \<Rightarrow> node \<Rightarrow> node" where
  "free_addr_list q i s =
     (let s' = s\<lparr>p2p_addr_cnt := fold (\<lambda>a c. pool_free c a) (q_partial_routes (P2P s q) ! i) (p2p_addr_cnt s)\<rparr>
      in upd_p2p q (\<lambda>Q. Q\<lparr>q_partial_routes := (q_partial_routes Q)[i := []]\<rparr>) s')"

text \<open>A \<open>rpl_cmpr_addr_t\<close> has \<open>16 - RPL_P2P_RDO_COMPR\<close> bytes, which is one.\<close>

definition add_src_route_addr :: "nat \<Rightarrow> nat \<Rightarrow> (nat \<Rightarrow> u8) \<Rightarrow> node \<Rightarrow> nat option \<times> node" where
  "add_src_route_addr q i adr s =
     (case pool_alloc (p2p_addr_cnt s) of
        (None, _) \<Rightarrow> (None, s)
      | (Some a, cnt) \<Rightarrow>
          (Some a, upd_p2p q (\<lambda>Q. Q\<lparr>q_partial_routes := (q_partial_routes Q)[i := lst_add (q_partial_routes Q ! i) a]\<rparr>)
             (s\<lparr>p2p_addr_cnt := cnt, p2p_addr_mem := (p2p_addr_mem s)[a := [adr 0]]\<rparr>)))"

text \<open>The copy loop. Each round takes a block from the pool, so that it ends after at most
  \<open>RPL_MAX_SRC_ROUTE_ADDR_ENTRIES + 1\<close> rounds, the fuel.\<close>

primrec add_addrs :: "nat \<Rightarrow> nat \<Rightarrow> nat \<Rightarrow> rpl_dio_rdo \<Rightarrow> u8 \<Rightarrow> node \<Rightarrow> bool \<times> node" where
  "add_addrs 0 q i rdo j s = (False, s)"
| "add_addrs (Suc n) q i rdo j s =
     (if j < rd_addr_len rdo then
        (case add_src_route_addr q i (\<lambda>k. rd_addrs rdo (unat j + k)) s of
           (None, s) \<Rightarrow> (False, free_addr_list q i s)
         | (Some _, s) \<Rightarrow> add_addrs n q i rdo (j + (16 - rd_compr rdo)) s)
      else (True, s))"

definition rpl_p2p_add_partial_route :: "nat \<Rightarrow> nat \<Rightarrow> rpl_dio_rdo \<Rightarrow> node \<Rightarrow> bool \<times> node" where
  "rpl_p2p_add_partial_route d q rdo s =
     (case first_index (\<lambda>r. r = []) (q_partial_routes (P2P s q)) 0 of
        None \<Rightarrow> (False, s)
      | Some i \<Rightarrow>
          (case add_addrs (RPL_MAX_SRC_ROUTE_ADDR_ENTRIES + 1) q i rdo 0 s of
             (False, s) \<Rightarrow> (False, s)
           | (True, s) \<Rightarrow>
               if rd_addr_len rdo = 0 then
                 (case add_src_route_addr q i (\<lambda>k. d_dag_id (DAG s d) ! (unat (rd_compr rdo) + k)) s of
                    (None, s) \<Rightarrow> (False, free_addr_list q i s)
                  | (Some _, s) \<Rightarrow> (True, s))
               else (True, s)))"

text \<open>The comparison of a cached route with the address vector of a DIO: the loop reached the
  end of the list.\<close>

primrec same_addrs :: "node \<Rightarrow> rpl_dio_rdo \<Rightarrow> u8 \<Rightarrow> nat list \<Rightarrow> bool" where
  "same_addrs s rdo j [] \<longleftrightarrow> True"
| "same_addrs s rdo j (a # as) \<longleftrightarrow>
     j < rd_addr_len rdo
     \<and> map (\<lambda>k. rd_addrs rdo (unat j + k)) [0..<16 - unat (rd_compr rdo)] = take (16 - unat (rd_compr rdo)) (p2p_addr_mem s ! a)
     \<and> same_addrs s rdo (j + (16 - rd_compr rdo)) as"

definition route_matches_dio :: "node \<Rightarrow> rpl_dag \<Rightarrow> rpl_dio_rdo \<Rightarrow> nat list \<Rightarrow> bool" where
  "route_matches_dio s D rdo route \<longleftrightarrow>
     route \<noteq> [] \<and>
     (if rd_addr_len rdo = 0
      then length route = 1 \<and> (let c = unat (rd_compr rdo)
             in take (16 - c) (p2p_addr_mem s ! hd route) = take (16 - c) (drop c (d_dag_id D)))
      else length route = unat (rd_addr_len rdo) \<and> same_addrs s rdo 0 route)"

definition rpl_p2p_route_differs :: "nat \<Rightarrow> nat \<Rightarrow> rpl_dio_rdo \<Rightarrow> node \<Rightarrow> bool" where
  "rpl_p2p_route_differs d q rdo s \<longleftrightarrow>
     \<not> list_ex (route_matches_dio s (DAG s d) rdo) (q_partial_routes (P2P s q))"

section \<open>Temporary DAGs\<close>

definition rpl_p2p_alloc_dag :: "nat \<Rightarrow> node \<Rightarrow> nat option \<times> node" where
  "rpl_p2p_alloc_dag d s =
     (case first_index (\<lambda>Q. case q_dag Q of None \<Rightarrow> True | Some e \<Rightarrow> \<not> d_used (DAG s e)) (dag_p2p_table s) 0 of
        Some q \<Rightarrow> (Some q, upd_p2p q (\<lambda>_. p2p0\<lparr>q_dag := Some d\<rparr>) s)
      | None \<Rightarrow> (None, s))"

definition rpl_p2p_free_dag :: "nat \<Rightarrow> node \<Rightarrow> node" where
  "rpl_p2p_free_dag q s =
     (let s = fold (free_addr_list q) [0..<RPL_P2P_MAX_PARTIAL_ROUTES] s
      in case q_dag (P2P s q) of
           None \<Rightarrow> set_fault s
         | Some d \<Rightarrow>
             (let s = rpl_free_dag d (upd_dag d (\<lambda>D. D\<lparr>d_p2p := None\<rparr>) s)
              in upd_p2p q (\<lambda>Q. Q\<lparr>q_dag := None\<rparr>) s))"

definition rpl_p2p_lt2sec :: "u8 \<Rightarrow> u16" where
  "rpl_p2p_lt2sec l = (if l = 0 then 1 else if l = 1 then 4 else if l = 2 then 16 else if l = 3 then 64 else 0)"

text \<open>One P2P entry, once per second.\<close>

definition purge_p2p :: "nat \<Rightarrow> node \<Rightarrow> node" where
  "purge_p2p q s =
     (case q_dag (P2P s q) of
        None \<Rightarrow> s
      | Some d \<Rightarrow>
          if \<not> d_used (DAG s d) then s
          else if q_lifetime (P2P s q) \<le> 1 \<and> q_expired (P2P s q) then rpl_p2p_free_dag q s
          else if q_lifetime (P2P s q) \<le> 1 then
            (let s = upd_p2p q (\<lambda>Q. Q\<lparr>q_lifetime := rpl_p2p_lt2sec (q_rdo_lifetime Q) + 10, q_expired := True\<rparr>) s;
                 s = upd_dag d (\<lambda>D. D\<lparr>d_dio_timer := ctimer_stop (d_dio_timer D)\<rparr>) s
             in rpl_remove_parents d 0 s)
          else upd_p2p q (\<lambda>Q. Q\<lparr>q_lifetime := q_lifetime Q - 1\<rparr>) s)"

definition rpl_p2p_purge_dags :: "node \<Rightarrow> node" where
  "rpl_p2p_purge_dags s = fold purge_p2p [0..<RPL_MAX_DAG_P2P_ENTRIES] s"

section \<open>Route discovery\<close>

text \<open>The extension of a discovery by this node: both directions, a source route, one route,
  a lifetime of 16 seconds, no maximum rank, an ETX constraint of 100.\<close>

definition discovery_p2p :: "nat option \<Rightarrow> metric_container \<Rightarrow> ipaddr \<Rightarrow> rpl_dag_p2p \<Rightarrow> rpl_dag_p2p" where
  "discovery_p2p proc mc target Q =
     Q\<lparr>q_process := proc, q_both_directions := 1, q_hop_by_hop := 0, q_num_routes := 0,
       q_rdo_lifetime := 2, q_max_rank := 0, q_lifetime := rpl_p2p_lt2sec 2, q_expired := False,
       q_compr := RPL_P2P_RDO_COMPR, q_target := take 1 (drop (unat RPL_P2P_RDO_COMPR) target),
       q_constr := (q_constr Q)\<lparr>mc_type := mc_type mc, mc_flags := RPL_DAG_MC_FLAG_C, mc_aggr := 0,
          mc_obj := 100 * RPL_DAG_MC_ETX_DIVISOR\<rparr>\<rparr>"

definition rpl_discover_route :: "ipaddr \<Rightarrow> node \<Rightarrow> bool \<times> node" where
  "rpl_discover_route target s =
     (let s = s\<lparr>p2p_instance := (p2p_instance s + 1) mod 0x40\<rparr>;
          instance_id = RPL_LOCAL_DEFAULT_INSTANCE OR p2p_instance s;
          s = (case rpl_get_dag (uint instance_id) (rpl_get_own_addr True s) s of
                 Some d \<Rightarrow> rpl_free_dag d s | None \<Rightarrow> s)
      in case rpl_alloc_dag instance_id s of
           (None, s) \<Rightarrow> (False, s)
         | (Some d, s) \<Rightarrow>
             (case rpl_p2p_alloc_dag d s of
                (None, s) \<Rightarrow> (False, rpl_free_dag d (upd_dag d (\<lambda>D. D\<lparr>d_p2p := None\<rparr>) s))
              | (Some q, s) \<Rightarrow>
                  (let own = (case rpl_get_own_addr True s of Some a \<Rightarrow> take 16 a | None \<Rightarrow> replicate 16 0);
                       s = chk_own s;
                       s = upd_dag d (\<lambda>D. D\<lparr>d_p2p := Some q, d_used := True, d_joined := True, d_version := 0,
                             d_preferred_parent := None, d_grounded := 0, d_mop := RPL_MOP_P2P_ROUTE_DISCOVERY,
                             d_dtsn_out := 0, d_preference := 0, d_dag_id := own\<rparr>) s;
                       s = snd (rpl_set_dodag_config d P2P_DEFAULT_DODAG_CONFIG s);
                       s = upd_dag d (\<lambda>D. D\<lparr>d_rank := ROOT_RANK D\<rparr>) s;
                       s = of_update_metric_container d s;
                       s = upd_p2p q (discovery_p2p (process_cur s) (d_mc (DAG s d)) target) s
                   in (True, rpl_reset_dio_timer d True s))))"

definition rpl_p2p_meets_constraints :: "metric_container \<Rightarrow> metric_container option \<Rightarrow> bool" where
  "rpl_p2p_meets_constraints metric constr =
     (case constr of
        None \<Rightarrow> True
      | Some c \<Rightarrow> if mc_type metric \<noteq> mc_type c then False
                  else if mc_type metric = RPL_DAG_MC_ETX then mc_obj metric \<le> mc_obj c
                  else True)"

text \<open>Printing the route reads the own address unless this node is the origin.\<close>

definition chk_print_rdo :: "ipaddr \<Rightarrow> node \<Rightarrow> node" where
  "chk_print_rdo dodag_id s = (if uip_ds6_is_my_addr dodag_id s then s else chk_own s)"

definition copy_rdo :: "rpl_dio_rdo \<Rightarrow> metric_container option \<Rightarrow> rpl_dag_p2p \<Rightarrow> rpl_dag_p2p" where
  "copy_rdo rdo constr Q =
     Q\<lparr>q_constr := (case constr of Some c \<Rightarrow> c | None \<Rightarrow> (q_constr Q)\<lparr>mc_type := RPL_DAG_MC_NONE\<rparr>),
       q_both_directions := rd_both_directions rdo, q_num_routes := rd_num_routes rdo, q_compr := rd_compr rdo,
       q_hop_by_hop := rd_hop_by_hop rdo, q_rdo_lifetime := rd_lifetime rdo, q_max_rank := rd_max_rank rdo,
       q_target := map (rd_target rdo) [0..<16 - unat (rd_compr rdo)]\<rparr>"

definition rpl_p2p_update_dag :: "nat \<Rightarrow> rpl_dio_rdo \<Rightarrow> rpl_dio \<Rightarrow> node \<Rightarrow> node" where
  "rpl_p2p_update_dag d rdo dio =
     with_p2p d (\<lambda>q s.
       (let s = upd_p2p q (copy_rdo rdo (o_constr dio)) s;
            s = fold (free_addr_list q) [0..<RPL_P2P_MAX_PARTIAL_ROUTES] s;
            s = chk_print_rdo (o_dag_id dio) s
        in snd (rpl_p2p_add_partial_route d q rdo s)))"

text \<open>\<open>RPL_P2P_DRO_WAIT_TIME\<close> is three seconds.\<close>

definition rpl_p2p_process_target :: "nat \<Rightarrow> rpl_dio \<Rightarrow> node \<Rightarrow> node" where
  "rpl_p2p_process_target d dio =
     with_p2p d (\<lambda>q s.
       (let s = chk_own s in
        if \<not> rpl_p2p_is_target s (P2P s q) then s
        else
          (let s = upd_dag d (\<lambda>D. D\<lparr>d_dio_timer := ctimer_stop (d_dio_timer D)\<rparr>) s
           in if ct_f (q_dro_timer (P2P s q)) \<noteq> None then s
              else chk_print_rdo (o_dag_id dio)
                     (upd_p2p q (\<lambda>Q. Q\<lparr>q_dro_timer := ctimer_set (3 * CLOCK_SECOND) Send_dros (q_dro_timer Q)\<rparr>) s))))"

section \<open>Routes\<close>

definition decompress :: "ipaddr \<Rightarrow> u8 \<Rightarrow> bytes \<Rightarrow> ipaddr" where
  "decompress prefix compr bs = take (unat compr) prefix @ take (16 - unat compr) bs"

text \<open>The hops of the backward route, in front of each other; no entry is left when one cannot
  be stored.\<close>

primrec backward_hops :: "nat \<Rightarrow> ipaddr \<Rightarrow> u8 \<Rightarrow> nat list \<Rightarrow> node \<Rightarrow> bool \<times> node" where
  "backward_hops r dag_id compr [] s = (True, s)"
| "backward_hops r dag_id compr (a # as) s =
     (case uip_ds6_src_route_hop_add r
             (uip_create_linklocal_prefix (decompress dag_id compr (p2p_addr_mem s ! a))) True s of
        (None, s) \<Rightarrow> (False, uip_ds6_src_route_rm r s)
      | (Some _, s) \<Rightarrow> backward_hops r dag_id compr as s)"

definition set_src_lifetime :: "nat \<Rightarrow> u32 \<Rightarrow> 'z ds6_scheme \<Rightarrow> 'z ds6_scheme" where
  "set_src_lifetime r l s =
     s\<lparr>src_routing_table := updf r (\<lambda>t. t\<lparr>s_state := (s_state t)\<lparr>e_lifetime := l\<rparr>\<rparr>) (src_routing_table s)\<rparr>"

definition store_backward_route :: "nat \<Rightarrow> nat \<Rightarrow> nat list \<Rightarrow> node \<Rightarrow> node" where
  "store_backward_route d q addrs s =
     (let D = DAG s d in
      case uip_ds6_src_route_add (d_dag_id D) s of
        (None, s) \<Rightarrow> s
      | (Some r, s) \<Rightarrow>
          (let s = set_src_lifetime r (ucast (ucast (cf_default_lifetime (d_config D)) * cf_lifetime_unit (d_config D))) s
           in case backward_hops r (d_dag_id D) (q_compr (P2P s q)) addrs s of
                (False, s) \<Rightarrow> s
              | (True, s) \<Rightarrow>
                  (case uip_ds6_src_route_hop_add r (uip_create_linklocal_prefix (take 16 (d_dag_id D))) False s of
                     (None, s) \<Rightarrow> uip_ds6_src_route_rm r s
                   | (Some _, s) \<Rightarrow> s)))"

text \<open>One round of the loop over the partial routes; \<open>j\<close> counts the DROs sent.\<close>

definition send_dro :: "nat \<Rightarrow> nat \<Rightarrow> nat \<Rightarrow> u8 \<times> node \<Rightarrow> u8 \<times> node" where
  "send_dro d q i js =
     (case js of (j, s) \<Rightarrow>
        (let route = q_partial_routes (P2P s q) ! i in
         if \<not> j \<le> q_num_routes (P2P s q) \<or> route = [] then (j, s)
         else
           (let addrs = (if is_one_hop s (DAG s d) (P2P s q) route then [] else route);
                s = (if j = 0 \<and> q_both_directions (P2P s q) \<noteq> 0 then store_backward_route d q addrs s else s)
            in (j + 1, dro_output d addrs s))))"

definition send_dros :: "nat \<Rightarrow> node \<Rightarrow> node" where
  "send_dros d =
     with_p2p d (\<lambda>q s. snd (fold (send_dro d q) [0..<RPL_P2P_MAX_PARTIAL_ROUTES] (0, s)))"

text \<open>The copy of an address vector to a source route. A round takes a block from the pool:
  the fuel is \<open>UIP_DS6_SRC_ROUTE_ADDR_NB + 1\<close>.\<close>

primrec src_hops :: "nat \<Rightarrow> nat \<Rightarrow> ipaddr \<Rightarrow> (nat \<Rightarrow> u8) \<Rightarrow> u8 \<Rightarrow> u8 \<Rightarrow> bool \<Rightarrow> u8 \<Rightarrow> 'z ds6_scheme \<Rightarrow> bool \<times> 'z ds6_scheme" where
  "src_hops 0 r dest addrs addr_len compr reverse i s = (False, s)"
| "src_hops (Suc n) r dest addrs addr_len compr reverse i s =
     (if i < addr_len then
        (case uip_ds6_src_route_hop_add r (uip_create_linklocal_prefix
                (decompress dest compr (map (\<lambda>k. addrs (unat i + k)) [0..<16 - unat compr]))) reverse s of
           (None, s) \<Rightarrow> (False, uip_ds6_src_route_rm r s)
         | (Some _, s) \<Rightarrow> src_hops n r dest addrs addr_len compr reverse (i + (16 - compr)) s)
      else (True, s))"

definition rpl_p2p_add_src_route ::
  "ipaddr \<Rightarrow> (nat \<Rightarrow> u8) \<Rightarrow> u8 \<Rightarrow> u8 \<Rightarrow> bool \<Rightarrow> 'z ds6_scheme \<Rightarrow> nat option \<times> 'z ds6_scheme" where
  "rpl_p2p_add_src_route dest addrs addr_len compr reverse s =
     (case uip_ds6_src_route_add dest s of
        (None, s) \<Rightarrow> (None, s)
      | (Some r, s) \<Rightarrow>
          (case src_hops (UIP_DS6_SRC_ROUTE_ADDR_NB + 1) r dest addrs addr_len compr reverse 0 (set_src_lifetime r 510 s) of
             (False, s) \<Rightarrow> (None, s)
           | (True, s) \<Rightarrow>
               (case uip_ds6_src_route_hop_add r (uip_create_linklocal_prefix (take 16 dest)) False s of
                  (None, s) \<Rightarrow> (None, uip_ds6_src_route_rm r s)
                | (Some _, s) \<Rightarrow> (Some r, s))))"

definition rpl_p2p_add_hbh_route :: "u8 \<Rightarrow> ipaddr \<Rightarrow> ipaddr \<Rightarrow> ipaddr \<Rightarrow> node \<Rightarrow> nat option \<times> node" where
  "rpl_p2p_add_hbh_route inst dodagid target nexthop s =
     (case rpl_add_route (rpl_get_dag (uint inst) (Some dodagid) s) target 128 nexthop s of
        (None, s) \<Rightarrow> (None, s)
      | (Some r, s) \<Rightarrow>
          (Some r, s\<lparr>routing_table := updf r (\<lambda>t. t\<lparr>t_state := (t_state t)\<lparr>e_instance := inst,
             e_dodagid := take 16 dodagid\<rparr>\<rparr>) (routing_table s)\<rparr>))"

end
