(* ===== verification/Rpl_Dio.thy ===== *)
theory Rpl_Dio
  imports Rpl_P2p
begin

text \<open>
  Joining a DAG and processing a DIO, the end of \<open>core/net/rpl/rpl-dag.c\<close>, and the handler
  of the periodic timer from \<open>rpl-timers.c\<close>.
\<close>

section \<open>Joining\<close>

text \<open>Address autoconfiguration from the prefix of a DIO. \<open>uip_lladdr\<close> is the link-layer address.\<close>

definition join_prefix :: "nat \<Rightarrow> rpl_prefix option \<Rightarrow> node \<Rightarrow> node" where
  "join_prefix d prefix s =
     (case prefix of
        None \<Rightarrow> s
      | Some pf \<Rightarrow>
          (let s = (if pf_flags pf AND UIP_ND6_RA_FLAG_AUTONOMOUS \<noteq> 0
                       \<and> fst (uip_ds6_list_loop a_isused a_ipaddr (addr_list s) (pf_prefix pf) 64) \<noteq> FOUND
                    then snd (uip_ds6_addr_add (uip_ds6_set_addr_iid (pf_prefix pf) (lladdr s)) 0 ADDR_AUTOCONF s)
                    else s)
           in upd_dag d (\<lambda>D. D\<lparr>d_prefix_info := pf\<rparr>) s))"

text \<open>The P2P part: the maximum rank is checked, the extension allocated and filled.\<close>

definition join_p2p :: "nat \<Rightarrow> rpl_dio \<Rightarrow> node \<Rightarrow> bool \<times> node" where
  "join_p2p d dio s =
     (case o_rdo dio of
        None \<Rightarrow> (False, set_fault s)
      | Some rdo \<Rightarrow>
          (let s = (if 0 < rd_max_rank rdo then chk_rank d s else s) in
           if 0 < rd_max_rank rdo \<and> ucast (rd_max_rank rdo) < DAG_RANK (d_rank (DAG s d)) (DAG s d)
           then (False, rpl_free_dag d s)
           else
             (case rpl_p2p_alloc_dag d s of
                (None, s) \<Rightarrow> (False, rpl_free_dag d (upd_dag d (\<lambda>D. D\<lparr>d_p2p := None\<rparr>) s))
              | (Some q, s) \<Rightarrow>
                  (let s = upd_dag d (\<lambda>D. D\<lparr>d_p2p := Some q\<rparr>) s;
                       s = rpl_p2p_update_dag d rdo dio s;
                       s = upd_p2p q (\<lambda>Q. Q\<lparr>q_lifetime := rpl_p2p_lt2sec (q_rdo_lifetime Q)\<rparr>) s
                   in (True, rpl_p2p_process_target d dio s)))))"

definition join_dag :: "ipaddr \<Rightarrow> rpl_dio \<Rightarrow> node \<Rightarrow> node" where
  "join_dag from_addr dio s =
     (case rpl_alloc_dag (o_instance_id dio) s of
        (None, s) \<Rightarrow> s
      | (Some d, s) \<Rightarrow>
          (case rpl_add_parent d dio from_addr s of
             (None, s) \<Rightarrow> s
           | (Some p, s) \<Rightarrow>
               (case rpl_set_dodag_config d (case o_dodag_config dio of None \<Rightarrow> DEFAULT_DODAG_CONFIG | Some c \<Rightarrow> c) s of
                  (False, s) \<Rightarrow> s
                | (True, s) \<Rightarrow>
                    (let s = join_prefix d (o_prefix_info dio) s;
                         s = upd_dag d (\<lambda>D. D\<lparr>d_joined := True, d_grounded := o_grounded dio, d_mop := o_mop dio,
                               d_preference := o_preference dio, d_instance_id := o_instance_id dio,
                               d_version := o_version dio, d_preferred_parent := Some p\<rparr>) s;
                         s = of_update_metric_container d s;
                         s = upd_dag d (\<lambda>D. D\<lparr>d_dag_id := take 16 (o_dag_id dio)\<rparr>) s;
                         s = upd_dag d (\<lambda>D. D\<lparr>d_rank := etx_calculate_rank s (Some p) (o_rank dio),
                               d_min_rank := etx_calculate_rank s (Some p) (o_rank dio)\<rparr>) s;
                         s = rpl_reset_dio_timer d True s;
                         s = snd (rpl_set_default_route d (Some from_addr) s);
                         (ok, s) = (if o_mop dio = RPL_MOP_P2P_ROUTE_DISCOVERY then join_p2p d dio s
                                    else (True, upd_dag d (\<lambda>D. D\<lparr>d_p2p := None\<rparr>) s))
                     in if ok \<and> should_send_dao d dio p s then rpl_schedule_dao d s else s))))"

section \<open>Processing a DIO\<close>

text \<open>The loop that should remove every parent but \<open>p\<close> and the preferred one: \<open>list_remove\<close>
  clears the \<open>next\<close> pointer of the removed parent, on which the loop goes on, so that it
  ends after the first removal.\<close>

definition keep_two_parents :: "nat \<Rightarrow> nat \<Rightarrow> node \<Rightarrow> node" where
  "keep_two_parents d p s =
     (case List.find (\<lambda>p2. p2 \<noteq> p \<and> d_preferred_parent (DAG s d) \<noteq> Some p2) (d_parents (DAG s d)) of
        None \<Rightarrow> s
      | Some p2 \<Rightarrow> rpl_remove_parent d p2 s)"

text \<open>What follows for a P2P DIO after the parent event. The messages printed follow the
  preferred parent, which is NULL after a local repair.\<close>

definition chk_preferred :: "nat \<Rightarrow> node \<Rightarrow> node" where
  "chk_preferred d s = (if d_preferred_parent (DAG s d) = None then set_fault s else s)"

definition p2p_after_event :: "nat \<Rightarrow> nat \<Rightarrow> rpl_dio \<Rightarrow> rpl_dio_rdo \<Rightarrow> bool \<Rightarrow> node \<Rightarrow> node" where
  "p2p_after_event d p dio rdo adv_route_improved s =
     (let s = (if adv_route_improved then
                 rpl_reset_dio_timer d True (rpl_p2p_update_dag d rdo dio (chk_preferred d s))
               else if 0 \<le> etx_p2p_route_cmp s d dio None then
                 (let s = (if d_preferred_parent (DAG s d) \<noteq> Some p
                           then upd_dag d (\<lambda>D. D\<lparr>d_dio_counter := d_dio_counter D + 1\<rparr>) s else s)
                  in if 0 \<le> etx_p2p_route_cmp s d dio (Some p) then
                       with_p2p d (\<lambda>q s. if rpl_p2p_route_differs d q rdo s
                          then snd (rpl_p2p_add_partial_route d q rdo (chk_print_rdo (o_dag_id dio) s)) else s) s
                     else s)
               else s)
      in rpl_p2p_process_target d dio s)"

text \<open>From the candidate parent on.\<close>

definition process_candidate :: "nat \<Rightarrow> nat \<Rightarrow> rpl_dio \<Rightarrow> node \<Rightarrow> node" where
  "process_candidate d p dio s =
     (let p2p_mop = (o_mop dio = RPL_MOP_P2P_ROUTE_DISCOVERY);
          s = (if p2p_mop then chk_of d (keep_two_parents d p s) else s);
          adv_route_improved = (p2p_mop \<and> 0 < etx_p2p_route_cmp s d dio (Some p));
          s = upd_par p (\<lambda>P. P\<lparr>p_mc := o_mc dio, p_rank := o_rank dio\<rparr>) s
      in case rpl_process_parent_event d p s of
           (False, s) \<Rightarrow> s
         | (True, s) \<Rightarrow>
             (let s = (case o_rdo dio of
                         Some rdo \<Rightarrow> if p2p_mop then p2p_after_event d p dio rdo adv_route_improved s else s
                       | None \<Rightarrow> s);
                  s = (if should_send_dao d dio p s then rpl_schedule_dao d s else s)
              in upd_par p (\<lambda>P. P\<lparr>p_dtsn := o_dtsn dio\<rparr>) s))"

text \<open>The sender is looked up among the parents, or added.\<close>

definition find_candidate :: "nat \<Rightarrow> ipaddr \<Rightarrow> rpl_dio \<Rightarrow> node \<Rightarrow> nat option \<times> node" where
  "find_candidate d from_addr dio s =
     (case rpl_find_parent d from_addr s of
        None \<Rightarrow>
          (let s = (if length (d_parents (DAG s d)) = RPL_MAX_PARENTS then remove_worst_parent d (o_rank dio) s else s)
           in rpl_add_parent d dio from_addr s)
      | Some p \<Rightarrow>
          (let s = chk_rank d s in
           if DAG_RANK (p_rank (PAR s p)) (DAG s d) = DAG_RANK (o_rank dio) (DAG s d) \<and> d_p2p (DAG s d) = None
           then (Some p, upd_dag d (\<lambda>D. D\<lparr>d_dio_counter := d_dio_counter D + 1\<rparr>) s) else (Some p, s)))"

definition process_sender :: "nat \<Rightarrow> ipaddr \<Rightarrow> rpl_dio \<Rightarrow> node \<Rightarrow> node" where
  "process_sender d from_addr dio s =
     (case find_candidate d from_addr dio s of
        (None, s) \<Rightarrow> s
      | (Some p, s) \<Rightarrow> process_candidate d p dio s)"

text \<open>A DIO of the version that the DAG has, from the rank checks on.\<close>

definition process_same_version :: "nat \<Rightarrow> ipaddr \<Rightarrow> rpl_dio \<Rightarrow> node \<Rightarrow> node" where
  "process_same_version d from_addr dio s =
     (if o_rank dio \<noteq> INFINITE_RANK \<and> o_rank dio < ROOT_RANK (DAG s d) then s
      else
        (let s = (if o_rank dio = INFINITE_RANK then rpl_reset_dio_timer d True s else s) in
         if d_rank (DAG s d) = ROOT_RANK (DAG s d) then
           (if o_rank dio \<noteq> INFINITE_RANK then upd_dag d (\<lambda>D. D\<lparr>d_dio_counter := d_dio_counter D + 1\<rparr>) s else s)
         else if d_mop (DAG s d) = RPL_MOP_P2P_ROUTE_DISCOVERY then
           with_p2p d (\<lambda>q s.
             if q_expired (P2P s q) then s
             else (case o_rdo dio of
                     None \<Rightarrow> set_fault s
                   | Some rdo \<Rightarrow>
                       (let s = (if 0 < rd_max_rank rdo then chk_rank d s else s) in
                        if 0 < rd_max_rank rdo \<and> ucast (rd_max_rank rdo) < DAG_RANK (o_rank dio) (DAG s d)
                        then s else process_sender d from_addr dio s))) s
         else process_sender d from_addr dio s))"

text \<open>\<open>NEIGHBOR_INFO_ETX2FIX(3)\<close> is 48.\<close>

definition dio_accepted :: "ipaddr \<Rightarrow> rpl_dio \<Rightarrow> node \<Rightarrow> bool" where
  "dio_accepted from_addr dio s \<longleftrightarrow>
     (o_mop dio = RPL_MOP_DEFAULT \<or> o_mop dio = RPL_MOP_P2P_ROUTE_DISCOVERY)
     \<and> (o_mop dio = RPL_MOP_P2P_ROUTE_DISCOVERY \<longrightarrow> o_rdo dio \<noteq> None)
     \<and> (case uip_ds6_nbr_lookup from_addr s of
          None \<Rightarrow> False | Some n \<Rightarrow> ni_metric s (n_lladdr (nbr_cache s ! n)) \<le> 48)
     \<and> (o_mop dio = RPL_MOP_P2P_ROUTE_DISCOVERY \<longrightarrow> rpl_p2p_meets_constraints (o_mc dio) (o_constr dio))"

definition rpl_process_dio :: "ipaddr \<Rightarrow> rpl_dio \<Rightarrow> node \<Rightarrow> node" where
  "rpl_process_dio from_addr dio s =
     (if \<not> dio_accepted from_addr dio s then s
      else
        (case rpl_get_dag (uint (o_instance_id dio)) (Some (o_dag_id dio)) s of
           None \<Rightarrow> if o_rank dio \<noteq> INFINITE_RANK then join_dag from_addr dio s else s
         | Some d \<Rightarrow>
             if d_version (DAG s d) < o_version dio then
               (if d_rank (DAG s d) = ROOT_RANK (DAG s d)
                then rpl_reset_dio_timer d True (upd_dag d (\<lambda>D. D\<lparr>d_version := o_version dio + 1\<rparr>) s)
                else global_repair from_addr d dio s)
             else if o_version dio < d_version (DAG s d) then rpl_reset_dio_timer d True s
             else process_same_version d from_addr dio s))"

section \<open>The periodic timer\<close>

definition handle_periodic_timer :: "node \<Rightarrow> node" where
  "handle_periodic_timer s =
     (let s = rpl_recalculate_ranks (rpl_p2p_purge_dags (rpl_purge_routes s))
      in s\<lparr>periodic_timer := ctimer_reset (periodic_timer s)\<rparr>)"

text \<open>A callback timer that fires calls its function with the object it belongs to.\<close>

definition run_timer :: "timer_fn \<Rightarrow> nat \<Rightarrow> node \<Rightarrow> node" where
  "run_timer f k s = (case f of
     Handle_periodic_timer \<Rightarrow> handle_periodic_timer s
   | Handle_dio_timer \<Rightarrow> handle_dio_timer k s
   | Handle_dao_timer \<Rightarrow> handle_dao_timer k s
   | Send_dros \<Rightarrow> send_dros k s
   | Dro_rexmit \<Rightarrow> dro_rexmit k s)"

end
