(* ===== verification/Rpl_Input.thy ===== *)
theory Rpl_Input
  imports Rpl_Dio
begin

text \<open>
  The receiving half of \<open>core/net/rpl/rpl-icmp6.c\<close>: the parsers and handlers of DIS, DIO,
  DAO, DAO-ACK, DRO, DRO-ACK and measurement objects, the sender of measurement objects,
  and the dispatcher. A handler that leaves a packet in \<open>uip_buf\<close> to be sent when the
  dispatcher returns (\<open>rpl_send_uip_buf\<close>) gives it as the second component of its result.
\<close>

section \<open>Received packets\<close>

text \<open>Source and destination of the IPv6 header, the ICMPv6 code, the payload and its length
  truncated to eight bits (\<open>buffer_length\<close>), and the link-layer sender.\<close>

record packet =
  k_src :: ipaddr
  k_dest :: ipaddr
  k_code :: u8
  k_buf :: "nat \<Rightarrow> u8"
  k_len :: u8
  k_sender :: bytes

definition bget :: "(nat \<Rightarrow> u8) \<Rightarrow> nat \<Rightarrow> nat \<Rightarrow> bytes" where
  "bget buf pos n = map (\<lambda>k. buf (pos + k)) [0..<n]"

definition bset :: "nat \<Rightarrow> bytes \<Rightarrow> (nat \<Rightarrow> u8) \<Rightarrow> nat \<Rightarrow> u8" where
  "bset pos bs buf = (\<lambda>k. if pos \<le> k \<and> k < pos + length bs then bs ! (k - pos) else buf k)"

section \<open>DIS\<close>

definition dis_input :: "packet \<Rightarrow> node \<Rightarrow> node" where
  "dis_input k s =
     (case rpl_get_dag RPL_ANY_INSTANCE None s of
        None \<Rightarrow> s
      | Some d \<Rightarrow> if uip_is_addr_mcast (k_dest k) then rpl_reset_dio_timer d False s
                  else dio_output d (Some (k_src k)) s)"

section \<open>DIO\<close>

definition rpl_dio0 :: rpl_dio where
  "rpl_dio0 = \<lparr>o_dag_id = replicate 16 0, o_rank = 0, o_grounded = 0, o_mop = 0, o_preference = 0,
     o_version = 0, o_instance_id = 0, o_dtsn = 0, o_dodag_config = None, o_route_info = None,
     o_prefix_info = None, o_mc = mc0, o_rdo = None, o_constr = None\<rparr>"

definition parse_dio_base :: "(nat \<Rightarrow> u8) \<Rightarrow> rpl_dio" where
  "parse_dio_base buf =
     rpl_dio0\<lparr>o_instance_id := buf 0, o_version := buf 1, o_rank := get16 buf 2,
       o_grounded := buf 4 AND 0x80, o_mop := drop_bit 3 (buf 4 AND 0x38), o_preference := buf 4 AND 0x07,
       o_dtsn := buf 5, o_dag_id := bget buf 8 16\<rparr>"

text \<open>The check of the testbed build: a DODAG ID is \<open>aaaa::XX\<close>.\<close>

definition dag_id_ok :: "ipaddr \<Rightarrow> bool" where
  "dag_id_ok a \<longleftrightarrow> take 2 a = [0xaa, 0xaa] \<and> take 13 (drop 2 a) = replicate 13 0"

text \<open>A metric or constraint object at \<open>j\<close>; \<open>object\<close> gives its value, or nothing for an
  unhandled type.\<close>

definition mc_header :: "(nat \<Rightarrow> u8) \<Rightarrow> nat \<Rightarrow> metric_container \<Rightarrow> metric_container" where
  "mc_header buf j m =
     m\<lparr>mc_type := buf j, mc_flags := push_bit 1 (buf (j + 1)) OR drop_bit 7 (buf (j + 2)),
       mc_aggr := drop_bit 4 (buf (j + 2)) AND 0x3, mc_prec := buf (j + 2) AND 0xf, mc_length := buf (j + 3)\<rparr>"

text \<open>The flags of a container that make it a constraint: the second byte shifted as an \<open>int\<close>.\<close>

definition is_constraint :: "(nat \<Rightarrow> u8) \<Rightarrow> nat \<Rightarrow> bool" where
  "is_constraint buf j \<longleftrightarrow> push_bit 1 (ucast (buf (j + 1)) :: u16) AND ucast RPL_DAG_MC_FLAG_C \<noteq> 0"

definition parse_constr :: "(nat \<Rightarrow> u8) \<Rightarrow> nat \<Rightarrow> rpl_dio \<Rightarrow> rpl_dio option" where
  "parse_constr buf j dio =
     (if buf j = RPL_DAG_MC_ETX
      then Some (dio\<lparr>o_constr := Some ((mc_header buf j mc0)\<lparr>mc_obj := get16 buf (j + 4)\<rparr>)\<rparr>)
      else None)"

definition parse_metric :: "(nat \<Rightarrow> u8) \<Rightarrow> nat \<Rightarrow> rpl_dio \<Rightarrow> rpl_dio option" where
  "parse_metric buf j dio =
     (let m = mc_header buf j (o_mc dio) in
      if mc_type m = RPL_DAG_MC_ETX then Some (dio\<lparr>o_mc := m\<lparr>mc_obj := get16 buf (j + 4)\<rparr>\<rparr>)
      else if mc_type m = RPL_DAG_MC_ENERGY
      then Some (dio\<lparr>o_mc := m\<lparr>mc_obj := ucast (buf (j + 4)) OR push_bit 8 (ucast (buf (j + 5)))\<rparr>\<rparr>)
      else None)"

text \<open>The objects of one metric container option that ends at \<open>e\<close>.\<close>

function parse_objects :: "(nat \<Rightarrow> u8) \<Rightarrow> nat \<Rightarrow> nat \<Rightarrow> rpl_dio \<Rightarrow> rpl_dio option" where
  "parse_objects buf e j dio =
     (if e \<le> j then Some dio
      else (case (if is_constraint buf j then parse_constr buf j dio else parse_metric buf j dio) of
              None \<Rightarrow> None
            | Some dio \<Rightarrow> parse_objects buf e (j + (4 + unat (buf (j + 3)))) dio))"
  by pat_completeness auto
termination by (relation "measure (\<lambda>(buf, e, j, dio). e - j)") auto

text \<open>The other options, at \<open>i\<close> with length \<open>len\<close>. Only the bytes of a route information prefix
  that are copied are kept.\<close>

definition parse_route_info :: "(nat \<Rightarrow> u8) \<Rightarrow> nat \<Rightarrow> nat \<Rightarrow> rpl_dio \<Rightarrow> rpl_dio option" where
  "parse_route_info buf i len dio =
     (let n = (unat (buf (i + 2)) + 7) div 8 in
      if len < 9 \<or> \<not> (n + 8 \<le> len \<and> buf (i + 2) \<le> 128) then None
      else Some (dio\<lparr>o_route_info := Some \<lparr>pf_prefix = bget buf (i + 8) n, pf_lifetime = get32 buf (i + 4),
                   pf_length = buf (i + 2), pf_flags = buf (i + 3)\<rparr>\<rparr>))"

definition parse_config :: "(nat \<Rightarrow> u8) \<Rightarrow> nat \<Rightarrow> nat \<Rightarrow> rpl_dio \<Rightarrow> rpl_dio option" where
  "parse_config buf i len dio =
     (if len \<noteq> 16 then None
      else Some (dio\<lparr>o_dodag_config := Some \<lparr>cf_dio_intdoubl = buf (i + 3), cf_dio_intmin = buf (i + 4),
                   cf_dio_redund = buf (i + 5), cf_max_rankinc = get16 buf (i + 6),
                   cf_min_hoprankinc = get16 buf (i + 8), cf_ocp = get16 buf (i + 10),
                   cf_default_lifetime = buf (i + 13), cf_lifetime_unit = get16 buf (i + 14)\<rparr>\<rparr>))"

definition parse_prefix :: "(nat \<Rightarrow> u8) \<Rightarrow> nat \<Rightarrow> nat \<Rightarrow> rpl_dio \<Rightarrow> rpl_dio option" where
  "parse_prefix buf i len dio =
     (if len \<noteq> 32 then None
      else Some (dio\<lparr>o_prefix_info := Some \<lparr>pf_prefix = bget buf (i + 16) 16, pf_lifetime = get32 buf (i + 8),
                   pf_length = buf (i + 2), pf_flags = buf (i + 3)\<rparr>\<rparr>))"

definition parse_rdo :: "(nat \<Rightarrow> u8) \<Rightarrow> nat \<Rightarrow> nat \<Rightarrow> rpl_dio \<Rightarrow> rpl_dio option" where
  "parse_rdo buf i len dio =
     (let compr = bitmask_read 0 0x0f (buf (i + 2)) in
      if len \<le> 4 \<or> o_rdo dio \<noteq> None \<or> compr < RPL_P2P_RDO_COMPR then None
      else Some (dio\<lparr>o_rdo := Some \<lparr>rd_both_directions = buf (i + 2) AND 0x80,
                   rd_num_routes = bitmask_read 4 0x30 (buf (i + 2)), rd_compr = compr,
                   rd_hop_by_hop = buf (i + 2) AND 0x40, rd_lifetime = bitmask_read 6 0xc0 (buf (i + 3)),
                   rd_max_rank = bitmask_read 0 0x3f (buf (i + 3)), rd_target = (\<lambda>k. buf (i + 4 + k)),
                   rd_addrs = (\<lambda>k. buf (i + 4 + (16 - unat compr) + k)),
                   rd_addr_len = of_nat len - 4 - 16 + compr\<rparr>\<rparr>))"

definition parse_dio_option :: "(nat \<Rightarrow> u8) \<Rightarrow> nat \<Rightarrow> nat \<Rightarrow> rpl_dio \<Rightarrow> rpl_dio option" where
  "parse_dio_option buf i len dio =
     (let t = buf i in
      if t = RPL_OPTION_DAG_METRIC_CONTAINER then (if len < 6 then None else parse_objects buf (i + len) (i + 2) dio)
      else if t = RPL_OPTION_ROUTE_INFO then parse_route_info buf i len dio
      else if t = RPL_OPTION_DAG_CONF then parse_config buf i len dio
      else if t = RPL_OPTION_PREFIX_INFO then parse_prefix buf i len dio
      else if t = RPL_DIO_SUBOPT_ROUTE_DISCOVERY then parse_rdo buf i len dio
      else Some dio)"

definition option_len :: "(nat \<Rightarrow> u8) \<Rightarrow> nat \<Rightarrow> nat" where
  "option_len buf i = (if buf i = RPL_OPTION_PAD1 then 1 else 2 + unat (buf (i + 1)))"

lemma option_len_pos [simp]: "0 < option_len buf i"
  by (simp add: option_len_def)

function parse_dio_options :: "(nat \<Rightarrow> u8) \<Rightarrow> nat \<Rightarrow> nat \<Rightarrow> rpl_dio \<Rightarrow> rpl_dio option" where
  "parse_dio_options buf n i dio =
     (if n \<le> i then Some dio
      else if n < option_len buf i + i then None
      else (case parse_dio_option buf i (option_len buf i) dio of
              None \<Rightarrow> None
            | Some dio \<Rightarrow> parse_dio_options buf n (i + option_len buf i) dio))"
  by pat_completeness auto
termination
  by (relation "measure (\<lambda>(buf, n, i, dio). n - i)") (auto simp: option_len_def)

declare parse_objects.simps [simp del] parse_dio_options.simps [simp del]

definition parse_dio :: "(nat \<Rightarrow> u8) \<Rightarrow> u8 \<Rightarrow> rpl_dio option" where
  "parse_dio buf n =
     (if dag_id_ok (o_dag_id (parse_dio_base buf)) then parse_dio_options buf (unat n) 24 (parse_dio_base buf)
      else None)"

definition dio_input :: "packet \<Rightarrow> node \<Rightarrow> node" where
  "dio_input k s =
     (case parse_dio (k_buf k) (k_len k) of None \<Rightarrow> s | Some dio \<Rightarrow> rpl_process_dio (k_src k) dio s)"

section \<open>DAO\<close>

text \<open>The options of a DAO: the prefix (nothing while it is uninitialised), its length and the
  lifetime. A prefix longer than 128 bits is copied past the end of the variable.\<close>

record dao_opts =
  y_prefix :: "ipaddr option"
  y_prefixlen :: u8
  y_lifetime :: u8
  y_overflow :: bool

definition parse_dao_option :: "(nat \<Rightarrow> u8) \<Rightarrow> nat \<Rightarrow> dao_opts \<Rightarrow> dao_opts" where
  "parse_dao_option buf i y =
     (if buf i = RPL_OPTION_TARGET then
        (let n = (unat (buf (i + 3)) + 7) div 8
         in y\<lparr>y_prefixlen := buf (i + 3), y_prefix := Some (bget buf (i + 4) n @ replicate (16 - n) 0),
              y_overflow := y_overflow y \<or> 16 < n\<rparr>)
      else if buf i = RPL_OPTION_TRANSIT then y\<lparr>y_lifetime := buf (i + 5)\<rparr>
      else y)"

function parse_dao_options :: "(nat \<Rightarrow> u8) \<Rightarrow> nat \<Rightarrow> nat \<Rightarrow> dao_opts \<Rightarrow> dao_opts" where
  "parse_dao_options buf n i y =
     (if n \<le> i then y else parse_dao_options buf n (i + option_len buf i) (parse_dao_option buf i y))"
  by pat_completeness auto
termination
  by (relation "measure (\<lambda>(buf, n, i, y). n - i)") (auto simp: option_len_def)

declare parse_dao_options.simps [simp del]

text \<open>A No-Path DAO; \<open>DAO_EXPIRATION_TIMEOUT\<close> is 60.\<close>

definition no_path :: "nat option \<Rightarrow> node \<Rightarrow> node" where
  "no_path rep s =
     (case rep of
        None \<Rightarrow> s
      | Some r \<Rightarrow>
          if e_saved_lifetime (t_state (routing_table s ! r)) = 0
          then s\<lparr>routing_table := updf r (\<lambda>t. t\<lparr>t_state := (t_state t)\<lparr>
                 e_saved_lifetime := e_lifetime (t_state t), e_lifetime := 60\<rparr>\<rparr>) (routing_table s)\<rparr>
          else s)"

definition RPL_ROUTE_FROM_UNICAST_DAO :: u8 where "RPL_ROUTE_FROM_UNICAST_DAO = 1"
definition RPL_ROUTE_FROM_MULTICAST_DAO :: u8 where "RPL_ROUTE_FROM_MULTICAST_DAO = 2"

text \<open>The parent that sent a unicast DAO although its rank is lower than that of this node.\<close>

definition dao_loop :: "nat \<Rightarrow> ipaddr \<Rightarrow> node \<Rightarrow> nat option" where
  "dao_loop d sender s =
     (if uip_is_addr_mcast sender then None
      else (case rpl_find_parent d sender s of
              None \<Rightarrow> None
            | Some p \<Rightarrow> if DAG_RANK (p_rank (PAR s p)) (DAG s d) < DAG_RANK (d_rank (DAG s d)) (DAG s d)
                        then Some p else None))"

definition chk_dao_loop :: "nat \<Rightarrow> ipaddr \<Rightarrow> node \<Rightarrow> node" where
  "chk_dao_loop d sender s =
     (if \<not> uip_is_addr_mcast sender \<and> rpl_find_parent d sender s \<noteq> None then chk_rank d s else s)"

text \<open>After the route is known: its state, and the DAO passed on or acknowledged.\<close>

definition dao_route :: "nat \<Rightarrow> nat \<Rightarrow> u8 \<Rightarrow> packet \<Rightarrow> node \<Rightarrow> node" where
  "dao_route d r lifetime k s =
     (let mcast = uip_is_addr_mcast (k_src k);
          from_dao = (if mcast then RPL_ROUTE_FROM_MULTICAST_DAO else RPL_ROUTE_FROM_UNICAST_DAO);
          l = RPL_LIFETIME (DAG s d) lifetime;
          s = s\<lparr>routing_table := updf r (\<lambda>t. t\<lparr>t_state := (t_state t)\<lparr>e_lifetime := l, e_learned_from := from_dao\<rparr>\<rparr>)
                (routing_table s)\<rparr>
      in if mcast then s
         else (case d_preferred_parent (DAG s d) of
                 Some p \<Rightarrow> emit (Icmp6_send (p_addr (PAR s p)) RPL_CODE_DAO (bget (k_buf k) 0 (unat (k_len k)))) s
               | None \<Rightarrow> if k_buf k 1 AND 0x80 \<noteq> 0 then dao_ack_output d (k_src k) (k_buf k 3) s else s))"

definition dao_input :: "packet \<Rightarrow> node \<Rightarrow> node" where
  "dao_input k s =
     (let buf = k_buf k in
      case rpl_get_dag (uint (buf 0)) None s of
        None \<Rightarrow> s
      | Some d \<Rightarrow>
          (let pos = (if buf 1 AND 0x40 \<noteq> 0 then 20 else 4);
               y = parse_dao_options buf (unat (k_len k)) pos
                     \<lparr>y_prefix = None, y_prefixlen = 0, y_lifetime = cf_default_lifetime (d_config (DAG s d)),
                      y_overflow = False\<rparr>;
               s = (if y_overflow y \<or> y_prefix y = None then set_fault s else s);
               prefix = (case y_prefix y of Some a \<Rightarrow> take 16 a | None \<Rightarrow> replicate 16 0);
               rep = uip_ds6_route_lookup prefix s
           in if y_lifetime y = 0 then no_path rep s
              else
                (let s = chk_dao_loop d (k_src k) s in
                 case dao_loop d (k_src k) s of
                   Some p \<Rightarrow> upd_par p (\<lambda>P. P\<lparr>p_rank := INFINITE_RANK, p_updated := True\<rparr>) s
                 | None \<Rightarrow>
                     (case (case rep of Some r \<Rightarrow> (Some r, s)
                            | None \<Rightarrow> rpl_add_route (Some d) prefix (y_prefixlen y) (k_src k) s) of
                        (None, s) \<Rightarrow> s
                      | (Some r, s) \<Rightarrow> dao_route d r (y_lifetime y) k s))))"

text \<open>A DAO-ACK is only printed.\<close>

definition dao_ack_input :: "packet \<Rightarrow> node \<Rightarrow> node" where
  "dao_ack_input k s = s"

section \<open>DRO\<close>

text \<open>The sequence number of the packet is compared with itself.\<close>

definition dro_ack_input :: "packet \<Rightarrow> node \<Rightarrow> node" where
  "dro_ack_input k s =
     (let buf = k_buf k in
      case List.find (\<lambda>c. buf 0 = c_buffer (dro_cache_mem s ! c) ! 0
             \<and> uip_ipaddr_cmp (bget buf 4 16) (take 16 (drop 4 (c_buffer (dro_cache_mem s ! c))))
             \<and> bitmask_read 6 0xC0 (buf 2) = bitmask_read 6 0xC0 (buf 2)) (dro_cache s) of
        None \<Rightarrow> s
      | Some c \<Rightarrow>
          s\<lparr>dro_cache_mem := updf c (\<lambda>e. e\<lparr>c_timer := ctimer_stop (c_timer e)\<rparr>) (dro_cache_mem s),
            dro_cache := remove1 c (dro_cache s), dro_cache_cnt := pool_free (dro_cache_cnt s) c\<rparr>)"

text \<open>The position of the route discovery option, or the first one past the packet.\<close>

function find_rdo :: "(nat \<Rightarrow> u8) \<Rightarrow> nat \<Rightarrow> nat \<Rightarrow> nat" where
  "find_rdo buf n pos =
     (if buf pos \<noteq> RPL_DIO_SUBOPT_ROUTE_DISCOVERY \<and> pos < n then find_rdo buf n (pos + unat (buf (pos + 1)) + 2) else pos)"
  by pat_completeness auto
termination by (relation "measure (\<lambda>(buf, n, pos). n - pos)") auto

declare find_rdo.simps [simp del]

definition dro_stop :: "(nat \<Rightarrow> u8) \<Rightarrow> node \<Rightarrow> node" where
  "dro_stop buf s =
     (if buf 2 AND 0x20 = 0 then s
      else (case rpl_get_dag (uint (buf 0)) (Some (bget buf 4 16)) s of
              None \<Rightarrow> s
            | Some d \<Rightarrow>
                with_p2p d (\<lambda>q s. if q_expired (P2P s q) then s
                   else upd_p2p q (\<lambda>Q. Q\<lparr>q_lifetime := 0\<rparr>)
                          (upd_dag d (\<lambda>D. D\<lparr>d_dio_timer := ctimer_stop (d_dio_timer D)\<rparr>) s)) s))"

text \<open>\<open>rpl_init\<close> allocates the two events in this order.\<close>

definition rpl_p2p_event_dro :: nat where "rpl_p2p_event_dro = 0"
definition rpl_p2p_event_mo :: nat where "rpl_p2p_event_mo = 1"

text \<open>The origin stores the route, prepares the acknowledgement and tells the process that
  asked for the route.\<close>

definition dro_store_route :: "(nat \<Rightarrow> u8) \<Rightarrow> u8 \<Rightarrow> nat \<Rightarrow> node \<Rightarrow> node" where
  "dro_store_route buf n pos s =
     (let dodag_id = bget buf 4 16; compr = bitmask_read 0 0x0f (buf (pos + 2)); c = unat compr;
          target = decompress dodag_id compr (bget buf (pos + 4) (16 - c))
      in if buf (pos + 2) AND 0x40 \<noteq> 0 then
           (let nexthop = (if pos + 4 + 16 - c = unat n then target
                           else decompress dodag_id compr (bget buf (pos + 4 + 16 - c) (16 - c)))
            in snd (rpl_p2p_add_hbh_route (buf 0) dodag_id target (uip_create_linklocal_prefix nexthop) s))
         else snd (rpl_p2p_add_src_route target (\<lambda>k. buf (pos + 4 + 16 - c + k)) (buf (pos + 1) - 2 - 16 + compr)
                     compr False s))"

definition dro_ack_packet :: "(nat \<Rightarrow> u8) \<Rightarrow> nat \<Rightarrow> node \<Rightarrow> message option" where
  "dro_ack_packet buf pos s =
     (if buf 2 AND 0x10 = 0 then None
      else (let compr = bitmask_read 0 0x0f (buf (pos + 2));
                buf' = buf(2 := buf 2 AND 0xC0, 3 := 0);
                dest = decompress (bget buf 4 16) compr (bget buf' (pos + 4) (16 - unat compr))
            in Some (Buf_send (uip_ds6_select_src dest s) dest RPL_CODE_DRO_ACK (bget buf' 0 20))))"

definition dro_notify :: "(nat \<Rightarrow> u8) \<Rightarrow> node \<Rightarrow> node" where
  "dro_notify buf s =
     (case rpl_get_dag (uint (buf 0)) (Some (bget buf 4 16)) s of
        None \<Rightarrow> s
      | Some d \<Rightarrow>
          with_p2p d (\<lambda>q s. case q_process (P2P s q) of
             None \<Rightarrow> s | Some p \<Rightarrow> emit (Post_synch p rpl_p2p_event_dro []) s) s)"

text \<open>An intermediate node: it takes part when its address is the one at position Rem.\<close>

definition dro_forward :: "packet \<Rightarrow> nat \<Rightarrow> node \<Rightarrow> message option \<times> node" where
  "dro_forward k pos s =
     (let buf = k_buf k; dodag_id = bget buf 4 16;
          compr = bitmask_read 0 0x0f (buf (pos + 2)); w = 16 - unat compr;
          rem = unat (bitmask_read 0 0x3f (buf (pos + 3)));
          here = decompress dodag_id compr (bget buf (pos + 4 + rem * w) w);
          out = Some (Buf_send (uip_ds6_select_src (k_dest k) s) (k_dest k) RPL_CODE_DRO
                        (bget (buf(pos + 3 := buf (pos + 3) - 1)) 0 (unat (k_len k))))
      in if rem = 0 \<or> \<not> uip_ds6_is_my_addr here s then (None, s)
         else if buf (pos + 2) AND 0x40 \<noteq> 0 then
           (let target = decompress dodag_id compr (bget buf (pos + 4) w);
                nexthop = uip_create_linklocal_prefix
                  (if unat (k_len k) \<le> pos + 4 + (rem + 1) * w then target
                   else decompress dodag_id compr (bget buf (pos + 4 + (rem + 1) * w) w))
            in case uip_ds6_route_lookup target s of
                 Some r \<Rightarrow> if uip_ipaddr_cmp (t_nexthop (routing_table s ! r)) nexthop then (None, s) else (out, s)
               | None \<Rightarrow> (out, snd (rpl_p2p_add_hbh_route (buf 0) dodag_id target nexthop s)))
         else (out, s))"

definition dro_input :: "packet \<Rightarrow> node \<Rightarrow> message option \<times> node" where
  "dro_input k s =
     (let buf = k_buf k; pos = find_rdo buf (unat (k_len k)) 20; s = dro_stop buf s
      in if uip_ds6_is_my_addr (bget buf 4 16) s then
           (let s = dro_store_route buf (k_len k) pos s
            in (dro_ack_packet buf pos s, dro_notify buf s))
         else dro_forward k pos s)"

section \<open>Measurement objects\<close>

text \<open>A pointer to an address: a local variable, the next hop of a route, a default router or
  an address block of a source route. \<open>uip_create_linklocal_prefix\<close> writes through it.\<close>

datatype addr_ref = Local_addr ipaddr | Route_nexthop nat | Defrt_addr nat | Src_addr nat

definition ref_addr :: "addr_ref \<Rightarrow> 'z ds6_scheme \<Rightarrow> ipaddr" where
  "ref_addr r s = (case r of
     Local_addr a \<Rightarrow> a
   | Route_nexthop i \<Rightarrow> t_nexthop (routing_table s ! i)
   | Defrt_addr i \<Rightarrow> r_ipaddr (defrt_list s ! i)
   | Src_addr a \<Rightarrow> src_addr_mem s ! a)"

definition ref_linklocal :: "addr_ref \<Rightarrow> 'z ds6_scheme \<Rightarrow> addr_ref \<times> 'z ds6_scheme" where
  "ref_linklocal r s = (case r of
     Local_addr a \<Rightarrow> (Local_addr (uip_create_linklocal_prefix a), s)
   | Route_nexthop i \<Rightarrow> (r, s\<lparr>routing_table := updf i (\<lambda>t. t\<lparr>t_nexthop := uip_create_linklocal_prefix (t_nexthop t)\<rparr>) (routing_table s)\<rparr>)
   | Defrt_addr i \<Rightarrow> (r, s\<lparr>defrt_list := updf i (\<lambda>t. t\<lparr>r_ipaddr := uip_create_linklocal_prefix (r_ipaddr t)\<rparr>) (defrt_list s)\<rparr>)
   | Src_addr a \<Rightarrow> (r, s\<lparr>src_addr_mem := updf a uip_create_linklocal_prefix (src_addr_mem s)\<rparr>))"

text \<open>Compressed addresses are one byte, \<open>RPL_P2P_RDO_COMPR\<close> being 15. The first fifteen bytes
  come from the own address.\<close>

definition mo_addr :: "ipaddr \<Rightarrow> u8 \<Rightarrow> ipaddr" where
  "mo_addr own b = take 15 own @ [b]"

definition mo_N :: "(nat \<Rightarrow> u8) \<Rightarrow> nat" where "mo_N buf = unat (bitmask_read 4 0xf0 (buf 3))"
definition mo_I :: "(nat \<Rightarrow> u8) \<Rightarrow> nat" where "mo_I buf = unat (bitmask_read 0 0x0f (buf 3))"

definition mo_reply_to_origin :: "(nat \<Rightarrow> u8) \<Rightarrow> ipaddr \<Rightarrow> u16 \<Rightarrow> node \<Rightarrow> node" where
  "mo_reply_to_origin buf target metric s =
     (let q = unat (bitmask_read 0 0x3f (buf 2)) in
      if buf 1 AND 0x08 \<noteq> 0 then s
      else if q < 3 then
        (case mo_processes s ! q of None \<Rightarrow> s
         | Some p \<Rightarrow> emit (Post_synch p rpl_p2p_event_mo (target @ set16 metric)) s)
      else s)"

text \<open>The target turns the request into a reply. The length of the address vector,
  \<open>(Index - 1) * 1\<close>, is passed as eight bits.\<close>

definition mo_target :: "(nat \<Rightarrow> u8) \<Rightarrow> nat \<Rightarrow> ipaddr \<Rightarrow> node \<Rightarrow> message option \<times> node" where
  "mo_target buf pos origin s =
     (if buf 1 AND 0x08 = 0 then (None, s)
      else
        (let buf = buf(1 := buf 1 AND NOT 0x08);
             s = (if (buf 0 AND RPL_LOCAL_DEFAULT_INSTANCE \<noteq> 0 \<and> buf 1 AND 0x02 \<noteq> 0) \<or> buf 1 AND 0x01 \<noteq> 0
                  then snd (rpl_p2p_add_src_route origin (\<lambda>k. buf (6 + k)) (of_nat (mo_I buf) - 1) RPL_P2P_RDO_COMPR True s)
                  else s);
             buf = bset 6 (bget buf (pos - 6) 8) buf;
             buf = buf(3 := 0)
         in (Some (Buf_send (uip_ds6_select_src origin s) origin RPL_CODE_MO (bget buf 0 14)), s)))"

text \<open>The root of a non-storing DAG puts its source route into the packet. The condition of
  this branch is \<open>!buffer[0] & RPL_LOCAL_DEFAULT_INSTANCE\<close>, in which \<open>!\<close> binds first.\<close>

definition mo_not_local :: "(nat \<Rightarrow> u8) \<Rightarrow> bool" where
  "mo_not_local buf \<longleftrightarrow> (if buf 0 = 0 then 1 else 0) AND RPL_LOCAL_DEFAULT_INSTANCE \<noteq> 0"

definition mo_is_root :: "(nat \<Rightarrow> u8) \<Rightarrow> node \<Rightarrow> bool" where
  "mo_is_root buf s \<longleftrightarrow> mo_not_local buf \<and>
     (case rpl_get_dag (uint (buf 0)) None s of None \<Rightarrow> False
      | Some d \<Rightarrow> d_mop (DAG s d) = RPL_MOP_NON_STORING \<and> d_rank (DAG s d) = ROOT_RANK (DAG s d))"

definition mo_insert_route :: "(nat \<Rightarrow> u8) \<Rightarrow> nat \<Rightarrow> nat list \<Rightarrow> node \<Rightarrow> (nat \<Rightarrow> u8) \<times> nat" where
  "mo_insert_route buf pos addrs s =
     (let buf = buf(1 := buf 1 AND NOT 0x04 AND NOT 0x02 AND NOT 0x01);
          buf = buf(3 := bitmask_write 0 0x0f (buf 3) 1);
          buf = buf(3 := bitmask_write 4 0xf0 (buf 3) (of_nat (length addrs) - 1));
          buf = bset (4 + mo_N buf + 2) (bget buf (pos - 6) 8) buf
      in (bset 6 (map (\<lambda>a. src_addr_mem s ! a ! 15) (butlast addrs)) buf, 6 + length (butlast addrs) + 8))"

text \<open>The own address is added to the vector unless it is already there.\<close>

definition mo_accumulate :: "(nat \<Rightarrow> u8) \<Rightarrow> ipaddr \<Rightarrow> node \<Rightarrow> (nat \<Rightarrow> u8) option" where
  "mo_accumulate buf own s =
     (if \<not> (buf 0 AND RPL_LOCAL_DEFAULT_INSTANCE \<noteq> 0 \<and> buf 1 AND 0x02 \<noteq> 0) then Some buf
      else if list_ex (\<lambda>i. uip_ds6_is_my_addr (mo_addr own (buf (4 + i))) s) [2..<mo_I buf + 1] then None
      else Some (buf(4 + max 2 (mo_I buf + 1) := own ! 15, 3 := buf 3 + 1)))"

text \<open>The next hop of a request at an intermediate node, with the packet as changed.\<close>

definition mo_next_hop :: "(nat \<Rightarrow> u8) \<Rightarrow> nat \<Rightarrow> nat \<Rightarrow> ipaddr \<Rightarrow> ipaddr \<Rightarrow> node
    \<Rightarrow> ((nat \<Rightarrow> u8) \<times> nat \<times> addr_ref) option \<times> node" where
  "mo_next_hop buf n pos own target s =
     (if buf 1 AND 0x04 = 0 then
        (let buf = buf(3 := buf 3 + 1)
         in (Some (buf, n, Local_addr (if mo_I buf \<le> mo_N buf then mo_addr target (buf (4 + (mo_I buf + 1))) else target)), s))
      else if mo_is_root buf s then
        (case uip_ds6_src_route_lookup target s of
           None \<Rightarrow> (None, emit (Icmp6_error 1 0) s)
         | Some r \<Rightarrow>
             (case s_addr_list (src_routing_table s ! r) of
                [] \<Rightarrow> (None, set_fault s)
              | a # as \<Rightarrow> (case mo_insert_route buf pos (a # as) s of (buf, n) \<Rightarrow> (Some (buf, n, Src_addr a), s))))
      else
        (case (case uip_ds6_route_lookup target s of
                 Some r \<Rightarrow> Some (Route_nexthop r)
               | None \<Rightarrow> map_option Defrt_addr (uip_ds6_defrt_choose s)) of
           None \<Rightarrow> (None, emit (Icmp6_error 1 0) s)
         | Some h \<Rightarrow> (case mo_accumulate buf own s of None \<Rightarrow> (None, s) | Some buf \<Rightarrow> (Some (buf, n, h), s))))"

definition mo_forward :: "(nat \<Rightarrow> u8) \<Rightarrow> nat \<Rightarrow> nat \<Rightarrow> ipaddr \<Rightarrow> ipaddr \<Rightarrow> node \<Rightarrow> message option \<times> node" where
  "mo_forward buf n pos own target s =
     (if buf 1 AND 0x08 = 0 then (None, s)
      else
        (case mo_next_hop buf n pos own target s of
           (None, s) \<Rightarrow> (None, s)
         | (Some (buf, n, h), s) \<Rightarrow>
             (case ref_linklocal h s of (h, s) \<Rightarrow>
                (let dest = ref_addr h s
                 in (Some (Buf_send (uip_ds6_select_src dest s) dest RPL_CODE_MO (bget buf 0 n)), s)))))"

definition mo_input :: "packet \<Rightarrow> node \<Rightarrow> message option \<times> node" where
  "mo_input k s =
     (case rpl_get_own_addr True s of
        None \<Rightarrow> (None, set_fault s)
      | Some own \<Rightarrow>
          (let buf = k_buf k; origin = mo_addr own (buf 4); target = mo_addr own (buf 5);
               pos = 4 + (mo_N buf + 2) + 6; metric = get16 buf pos
           in if uip_ds6_is_my_addr origin s then (None, mo_reply_to_origin buf target metric s)
              else
                (case uip_ds6_nbr_lookup (k_src k) s of
                   None \<Rightarrow> (None, s)
                 | Some n \<Rightarrow>
                     (let metric = metric + NI_ETX_TO_RPL_ETX (ni_metric s (n_lladdr (nbr_cache s ! n)));
                          buf = bset pos (set16 metric) buf
                      in if uip_ds6_is_my_addr target s then mo_target buf pos origin s
                         else mo_forward buf (unat (k_len k)) pos own target s))))"

text \<open>The sender: along a source route, a hop-by-hop route or the default route. The result is
  the first, second and fourth byte, the address vector and the next hop.\<close>

definition mo_route :: "ipaddr \<Rightarrow> node \<Rightarrow> (u8 \<times> u8 \<times> u8 \<times> bytes \<times> ipaddr) option" where
  "mo_route target s =
     (let b1 = bitmask_write 4 0xf0 0 RPL_P2P_RDO_COMPR OR 0x08 in
      case uip_ds6_src_route_lookup target s of
        Some r \<Rightarrow>
          (let addrs = s_addr_list (src_routing_table s ! r)
           in Some (RPL_LOCAL_DEFAULT_INSTANCE, b1 OR 0x01,
                bitmask_write 4 0xf0 (bitmask_write 0 0x0f 0 1) (of_nat (length addrs) - 1),
                map (\<lambda>a. src_addr_mem s ! a ! 15) (butlast addrs),
                (case addrs of [] \<Rightarrow> [] | a # as \<Rightarrow> src_addr_mem s ! a)))
      | None \<Rightarrow>
          (case uip_ds6_route_lookup target s of
             Some r \<Rightarrow>
               (let R = routing_table s ! r; inst = e_instance (t_state R) in
                if inst AND RPL_LOCAL_DEFAULT_INSTANCE \<noteq> 0 then
                  (if \<not> uip_ds6_is_my_addr (e_dodagid (t_state R)) s then None
                   else Some (inst, (b1 OR 0x04) OR 0x02, bitmask_write 4 0xf0 (bitmask_write 0 0x0f 0 1) 10,
                          replicate 10 0, t_nexthop R))
                else Some (inst, b1 OR 0x04, 0, [], t_nexthop R))
           | None \<Rightarrow>
               (case (uip_ds6_defrt_choose s, rpl_get_dag (uint RPL_DEFAULT_INSTANCE) None s) of
                  (Some r, Some d) \<Rightarrow> Some (d_instance_id (DAG s d), b1 OR 0x04, 0, [], r_ipaddr (defrt_list s ! r))
                | _ \<Rightarrow> None)))"

definition mo_output :: "ipaddr option \<Rightarrow> node \<Rightarrow> node" where
  "mo_output target0 s =
     (case target0 of
        None \<Rightarrow> s
      | Some target \<Rightarrow>
          (let s = s\<lparr>mo_sequence := (mo_sequence s + 1) mod 3\<rparr>;
               s = s\<lparr>mo_processes := (mo_processes s)[unat (mo_sequence s) := process_cur s]\<rparr>;
               own = (case rpl_get_own_addr True s of Some a \<Rightarrow> a | None \<Rightarrow> replicate 16 0);
               s = chk_own s
           in case mo_route target s of
                None \<Rightarrow> s
              | Some (b0, b1, b3, vec, nexthop) \<Rightarrow>
                  (let s = (if nexthop = [] then set_fault s else s)
                   in emit (Icmp6_send nexthop RPL_CODE_MO
                     ([b0, b1, bitmask_write 0 0x3f 0 (mo_sequence s), b3, own ! 15, target ! 15] @ vec
                      @ [RPL_OPTION_DAG_METRIC_CONTAINER, 6, RPL_DAG_MC_ETX, 0, 0, 2, 0, 0])) s)))"

section \<open>The dispatcher\<close>

text \<open>The sender is entered into the neighbour cache; \<open>UIP_ND6_REACHABLE_TIME / 1000\<close> is 600.\<close>

definition learn_sender :: "packet \<Rightarrow> node \<Rightarrow> node" where
  "learn_sender k s =
     (case uip_ds6_nbr_lookup (k_src k) s of
        Some n \<Rightarrow> s
      | None \<Rightarrow>
          (case uip_ds6_nbr_add rpl_ipv6_neighbor_callback (k_src k) (Some (k_sender k)) 0 NBR_REACHABLE s of
             (None, s) \<Rightarrow> s
           | (Some n, s) \<Rightarrow>
               s\<lparr>nbr_cache := updf n (\<lambda>b. b\<lparr>n_reachable := stimer_set (secs s) 600 (n_reachable b)\<rparr>) (nbr_cache s)\<rparr>))"

definition rpl_dispatch :: "packet \<Rightarrow> node \<Rightarrow> message option \<times> node" where
  "rpl_dispatch k s =
     (let c = k_code k in
      if c = RPL_CODE_DIO then (None, dio_input k s)
      else if c = RPL_CODE_DIS then (None, dis_input k s)
      else if c = RPL_CODE_DAO then (None, dao_input k s)
      else if c = RPL_CODE_DAO_ACK then (None, dao_ack_input k s)
      else if c = RPL_CODE_DRO then dro_input k s
      else if c = RPL_CODE_DRO_ACK then (None, dro_ack_input k s)
      else if c = RPL_CODE_MO then mo_input k s
      else (None, s))"

definition uip_rpl_input :: "packet \<Rightarrow> node \<Rightarrow> node" where
  "uip_rpl_input k s =
     (case rpl_dispatch k (learn_sender k s) of
        (None, s) \<Rightarrow> s
      | (Some m, s) \<Rightarrow> emit m s)"

end
