(* ===== verification/Rpl_Codec.thy ===== *)
theory Rpl_Codec
  imports Rpl_Input
begin

text \<open>
  Encoders and parsers of \<open>rpl-icmp6.c\<close> against each other: what \<open>dio_output\<close> sends,
  \<open>dio_input\<close> reads back, for the global DAG and for a route discovery.
\<close>

section \<open>Bytes in a packet buffer\<close>

text \<open>The bytes \<open>bs\<close> are in the buffer from position \<open>i\<close> on.\<close>

primrec bytes_at :: "(nat \<Rightarrow> u8) \<Rightarrow> nat \<Rightarrow> bytes \<Rightarrow> bool" where
  "bytes_at buf i [] \<longleftrightarrow> True"
| "bytes_at buf i (b # bs) \<longleftrightarrow> buf i = b \<and> bytes_at buf (Suc i) bs"

lemma bytes_at_append: "bytes_at buf i (xs @ ys) \<longleftrightarrow> bytes_at buf i xs \<and> bytes_at buf (i + length xs) ys"
  by (induction xs arbitrary: i) auto

lemma bytes_at_nth: "bytes_at buf i bs \<longleftrightarrow> (\<forall>k < length bs. buf (i + k) = bs ! k)"
proof (induction bs arbitrary: i)
  case (Cons b bs)
  have "(\<forall>k < Suc (length bs). buf (i + k) = (b # bs) ! k)
      \<longleftrightarrow> buf i = b \<and> (\<forall>k < length bs. buf (Suc i + k) = bs ! k)"
    by (auto simp: All_less_Suc2)
  with Cons [of "Suc i"] show ?case by simp
qed simp

lemma bytes_at_bget: "bytes_at buf i bs \<Longrightarrow> bget buf i (length bs) = bs"
  by (rule nth_equalityI) (simp_all add: bget_def bytes_at_nth)

definition packet_buf :: "bytes \<Rightarrow> (nat \<Rightarrow> u8) \<Rightarrow> nat \<Rightarrow> u8" where
  "packet_buf bs rest = (\<lambda>i. if i < length bs then bs ! i else rest i)"

lemma bytes_at_packet: "bytes_at (packet_buf bs rest) 0 bs"
  by (simp add: bytes_at_nth packet_buf_def)

lemma get16_set16: "bytes_at buf i (set16 v) \<Longrightarrow> get16 buf i = v"
proof -
  assume "bytes_at buf i (set16 v)"
  then have b: "buf i = ucast (drop_bit 8 v)" "buf (i + 1) = ucast v" by (simp_all add: set16_def)
  show ?thesis unfolding get16_def b
    by (rule bit_word_eqI) (auto simp: bit_simps)
qed

lemma get32_set32: "bytes_at buf i (set32 v) \<Longrightarrow> get32 buf i = v"
proof -
  assume "bytes_at buf i (set32 v)"
  then have b: "buf i = ucast (drop_bit 24 v)" "buf (i + 1) = ucast (drop_bit 16 v)"
    "buf (i + 2) = ucast (drop_bit 8 v)" "buf (i + 3) = ucast v"
    by (simp_all add: set32_def eval_nat_numeral)
  show ?thesis unfolding get32_def b
  proof (rule bit_word_eqI)
    fix n :: nat
    assume "n < LENGTH(32)"
    then consider "n < 8" | "8 \<le> n" "n < 16" | "16 \<le> n" "n < 24" | "24 \<le> n" "n < 32" by force
    then show "bit (push_bit 24 (ucast (ucast (drop_bit 24 v) :: u8)) OR push_bit 16 (ucast (ucast (drop_bit 16 v) :: u8))
        OR push_bit 8 (ucast (ucast (drop_bit 8 v) :: u8)) OR ucast (ucast v :: u8) :: u32) n = bit v n"
      by cases (auto simp: bit_simps)
  qed
qed

lemma length_set [simp]: "length (set16 v) = 2" "length (set32 w) = 4"
  by (simp_all add: set16_def set32_def)

section \<open>The options of a DIO\<close>

lemma parse_config_option:
  assumes "bytes_at buf i (dio_config c)"
  shows "option_len buf i = 16" "parse_dio_option buf i 16 dio = Some (dio\<lparr>o_dodag_config := Some (c\<lparr>cf_ocp := 1\<rparr>)\<rparr>)"
proof -
  from assms have b: "buf i = RPL_OPTION_DAG_CONF" "buf (i + 1) = 14" "buf (i + 3) = cf_dio_intdoubl c"
    "buf (i + 4) = cf_dio_intmin c" "buf (i + 5) = cf_dio_redund c"
    "bytes_at buf (i + 6) (set16 (cf_max_rankinc c))" "bytes_at buf (i + 8) (set16 (cf_min_hoprankinc c))"
    "bytes_at buf (i + 10) (set16 1)" "buf (i + 13) = cf_default_lifetime c" "bytes_at buf (i + 14) (set16 (cf_lifetime_unit c))"
    by (simp_all add: dio_config_def bytes_at_append eval_nat_numeral)
  show "option_len buf i = 16" by (simp add: option_len_def b(1,2)[simplified] rpl_codes)
  show "parse_dio_option buf i 16 dio = Some (dio\<lparr>o_dodag_config := Some (c\<lparr>cf_ocp := 1\<rparr>)\<rparr>)"
    using b by (simp add: parse_dio_option_def parse_config_def get16_set16 rpl_codes)
qed

text \<open>The metric container: what the sender's objective function fills in comes back.\<close>

definition mc_sendable :: "metric_container \<Rightarrow> bool" where
  "mc_sendable m \<longleftrightarrow> mc_type m = RPL_DAG_MC_ETX \<and> mc_flags m = RPL_DAG_MC_FLAG_P \<and> mc_aggr m = 0
     \<and> mc_prec m = 0 \<and> mc_length m = 2"

lemma parse_objects_end: "e \<le> j \<Longrightarrow> parse_objects buf e j dio = Some dio"
  by (subst parse_objects.simps) simp

lemma parse_metric_bytes:
  assumes "mc_sendable m" "bytes_at buf j ([7, 4, 0, 2] @ set16 (mc_obj m))"
  shows "\<not> is_constraint buf j" "parse_metric buf j dio = Some (dio\<lparr>o_mc := m\<rparr>)" "buf (j + 3) = 2"
proof -
  from assms(2) have b: "buf j = 7" "buf (Suc j) = 4" "buf (j + 2) = 0" "buf (j + 3) = 2"
    "bytes_at buf (j + 4) (set16 (mc_obj m))"
    by (simp_all add: eval_nat_numeral)
  show "\<not> is_constraint buf j" using b(2) by (simp add: is_constraint_def rpl_consts)
  show "parse_metric buf j dio = Some (dio\<lparr>o_mc := m\<rparr>)"
    using assms(1) by (simp add: parse_metric_def mc_header_def mc_sendable_def rpl_consts b(1,2,4) b(3)[simplified] get16_set16 [OF b(5)])
  show "buf (j + 3) = 2" by (rule b)
qed

lemma parse_metric_option:
  assumes "mc_sendable m" "dio_metric m = Some met" "bytes_at buf i met"
  shows "length met = 8" "option_len buf i = 8" "parse_dio_option buf i 8 dio = Some (dio\<lparr>o_mc := m\<rparr>)"
proof -
  have met: "met = [RPL_OPTION_DAG_METRIC_CONTAINER, 6] @ ([7, 4, 0, 2] @ set16 (mc_obj m))"
    using assms(1,2) by (simp add: dio_metric_def mc_sendable_def rpl_consts)
  then show "length met = 8" by simp
  from assms(3) met have b: "buf i = RPL_OPTION_DAG_METRIC_CONTAINER" "buf (Suc i) = 6"
    "bytes_at buf (i + 2) ([7, 4, 0, 2] @ set16 (mc_obj m))"
    by (simp_all add: bytes_at_append eval_nat_numeral)
  show "option_len buf i = 8" by (simp add: option_len_def b(1,2) rpl_codes)
  note m = parse_metric_bytes [OF assms(1) b(3)]
  have "i + 2 + (4 + unat (buf (i + 2 + 3))) = i + 8" unfolding m(3) by simp
  then have "parse_objects buf (i + 8) (i + 2) dio = Some (dio\<lparr>o_mc := m\<rparr>)"
    using m(1,2) by (subst parse_objects.simps) (simp add: parse_objects_end)
  then show "parse_dio_option buf i 8 dio = Some (dio\<lparr>o_mc := m\<rparr>)"
    by (simp add: parse_dio_option_def b(1))
qed

lemma parse_prefix_option:
  assumes "0 < pf_length p" "length (pf_prefix p) = 16" "bytes_at buf i (dio_prefix p)"
  shows "option_len buf i = 32" "parse_dio_option buf i 32 dio = Some (dio\<lparr>o_prefix_info := Some p\<rparr>)"
proof -
  from assms(3,1,2) have b: "buf i = RPL_OPTION_PREFIX_INFO" "buf (i + 1) = 30" "buf (i + 2) = pf_length p"
    "buf (i + 3) = pf_flags p" "bytes_at buf (i + 8) (set32 (pf_lifetime p))" "bytes_at buf (i + 16) (pf_prefix p)"
    by (simp_all add: dio_prefix_def bytes_at_append eval_nat_numeral)
  show "option_len buf i = 32" by (simp add: option_len_def b(1,2)[simplified] rpl_codes)
  show "parse_dio_option buf i 32 dio = Some (dio\<lparr>o_prefix_info := Some p\<rparr>)"
    using b bytes_at_bget [OF b(6)] assms(2)
    by (simp add: parse_dio_option_def parse_prefix_def get32_set32 rpl_codes)
qed

lemma options_step:
  "\<lbrakk>option_len buf i = L; i < n; i + L \<le> n; parse_dio_option buf i L dio = Some dio'\<rbrakk>
     \<Longrightarrow> parse_dio_options buf n i dio = parse_dio_options buf n (i + L) dio'"
  by (subst parse_dio_options.simps) simp

lemma options_end: "parse_dio_options buf n n dio = Some dio"
  by (subst parse_dio_options.simps) simp

lemma word8_below_8: "(w :: u8) < 8 \<Longrightarrow> w \<in> {0, 1, 2, 3, 4, 5, 6, 7}"
proof -
  assume "w < 8"
  then have "unat w < 8" by (simp add: word_less_nat_alt)
  then have "unat w \<in> {0, 1, 2, 3, 4, 5, 6, 7}" by auto
  then have "of_nat (unat w) \<in> {0, 1, 2, 3, 4, 5, 6, 7 :: u8}" by (elim insertE emptyE) simp_all
  then show ?thesis by simp
qed

lemma parse_base:
  assumes "bytes_at buf 0 (dio_base D)" "length (d_dag_id D) = 16" "d_mop D < 8"
  shows "parse_dio_base buf = rpl_dio0\<lparr>o_instance_id := d_instance_id D, o_version := d_version D,
    o_rank := d_rank D, o_mop := d_mop D, o_dtsn := d_dtsn_out D, o_dag_id := d_dag_id D\<rparr>"
proof -
  from assms(1,2) have b: "buf 0 = d_instance_id D" "buf 1 = d_version D" "bytes_at buf 2 (set16 (d_rank D))"
    "buf 4 = push_bit 3 (d_mop D)" "buf 5 = d_dtsn_out D" "bytes_at buf 8 (d_dag_id D)"
    by (simp_all add: dio_base_def bytes_at_append eval_nat_numeral)
  have "push_bit 3 (d_mop D) AND 0x80 = 0" "drop_bit 3 (push_bit 3 (d_mop D) AND 0x38) = d_mop D"
    "push_bit 3 (d_mop D) AND 7 = 0"
    using word8_below_8 [OF assms(3)] by auto
  then show ?thesis using bytes_at_bget [OF b(6)] get16_set16 [OF b(3)] assms(2)
    by (simp add: parse_dio_base_def b(1,4,5) b(2)[simplified] rpl_dio0_def)
qed

section \<open>The DIO of a global DAG\<close>

text \<open>What a receiver should learn of a DAG. Two fields are lost on the way: the grounded flag,
  which the sender overwrites with the mode of operation, and the preference; the objective
  code point is always 1.\<close>

definition dio_content :: "rpl_dag \<Rightarrow> rpl_dio" where
  "dio_content D =
     \<lparr>o_dag_id = d_dag_id D, o_rank = d_rank D, o_grounded = 0, o_mop = d_mop D, o_preference = 0,
      o_version = d_version D, o_instance_id = d_instance_id D, o_dtsn = d_dtsn_out D,
      o_dodag_config = Some ((d_config D)\<lparr>cf_ocp := 1\<rparr>), o_route_info = None,
      o_prefix_info = (if 0 < pf_length (d_prefix_info D) then Some (d_prefix_info D) else None),
      o_mc = (if mc_type (d_mc D) = RPL_DAG_MC_NONE then mc0 else d_mc D), o_rdo = None, o_constr = None\<rparr>"

text \<open>The metric container after the objective function has filled it in.\<close>

definition mc_filled :: "metric_container \<Rightarrow> bool" where
  "mc_filled m \<longleftrightarrow> mc_type m = RPL_DAG_MC_NONE \<or> mc_sendable m"

definition dag_message :: "rpl_dag \<Rightarrow> bytes \<Rightarrow> bytes" where
  "dag_message D met = dio_base D @ met @ dio_config (d_config D) @ dio_prefix (d_prefix_info D)"

definition dag_sendable :: "rpl_dag \<Rightarrow> bool" where
  "dag_sendable D \<longleftrightarrow> dag_id_ok (d_dag_id D) \<and> length (d_dag_id D) = 16 \<and> d_mop D < 8
     \<and> (0 < pf_length (d_prefix_info D) \<longrightarrow> length (pf_prefix (d_prefix_info D)) = 16)"

lemma length_dio_parts:
  "length (d_dag_id D) = 16 \<Longrightarrow> length (dio_base D) = 24" "length (dio_config c) = 16"
  "length (pf_prefix p) = 16 \<Longrightarrow> length (dio_prefix p) = (if 0 < pf_length p then 32 else 0)"
  "\<not> 0 < pf_length p \<Longrightarrow> dio_prefix p = []"
  by (simp_all add: dio_base_def dio_config_def dio_prefix_def)

lemma parse_tail:
  assumes D: "dag_sendable D" and b: "bytes_at buf i (dio_config (d_config D) @ dio_prefix (d_prefix_info D))"
    and n: "n = i + 16 + length (dio_prefix (d_prefix_info D))"
  shows "parse_dio_options buf n i dio = Some (dio\<lparr>o_dodag_config := Some ((d_config D)\<lparr>cf_ocp := 1\<rparr>),
    o_prefix_info := (if 0 < pf_length (d_prefix_info D) then Some (d_prefix_info D) else o_prefix_info dio)\<rparr>)"
proof -
  let ?p = "d_prefix_info D" and ?c = "dio\<lparr>o_dodag_config := Some ((d_config D)\<lparr>cf_ocp := 1\<rparr>)\<rparr>"
  from b have c: "bytes_at buf i (dio_config (d_config D))" and p: "bytes_at buf (i + 16) (dio_prefix ?p)"
    by (simp_all add: bytes_at_append length_dio_parts)
  from n have "parse_dio_options buf n i dio = parse_dio_options buf n (i + 16) ?c"
    by (intro options_step [OF parse_config_option(1) [OF c] _ _ parse_config_option(2) [OF c]]) simp_all
  also have "\<dots> = Some (?c\<lparr>o_prefix_info := (if 0 < pf_length ?p then Some ?p else o_prefix_info dio)\<rparr>)"
  proof (cases "0 < pf_length ?p")
    case True
    then have l: "length (pf_prefix ?p) = 16" using D by (simp add: dag_sendable_def)
    note o = parse_prefix_option [OF True l p]
    have n': "n = i + 16 + 32" using n True length_dio_parts(3) [OF l] by simp
    have "parse_dio_options buf n (i + 16) ?c = parse_dio_options buf n (i + 16 + 32) (?c\<lparr>o_prefix_info := Some ?p\<rparr>)"
      by (rule options_step [OF o(1) _ _ o(2)]) (simp_all add: n')
    then show ?thesis unfolding n' options_end using True by simp
  next
    case False
    then show ?thesis using n options_end [of buf "i + 16" ?c] by (simp add: length_dio_parts(4))
  qed
  finally show ?thesis by simp
qed

lemma parse_dag_message:
  assumes D: "dag_sendable D" and m: "mc_filled (d_mc D)" "dio_metric (d_mc D) = Some met"
  shows "length (dag_message D met) \<le> 80"
    "parse_dio (packet_buf (dag_message D met) rest) (of_nat (length (dag_message D met))) = Some (dio_content D)"
proof -
  let ?msg = "dag_message D met" and ?p = "d_prefix_info D"
  define buf where "buf = packet_buf ?msg rest"
  have len: "length ?msg = 24 + length met + 16 + length (dio_prefix ?p)"
    using D by (simp add: dag_message_def dag_sendable_def length_dio_parts)
  have met: "length met = (if mc_type (d_mc D) = RPL_DAG_MC_NONE then 0 else 8)"
    using m parse_metric_option(1) [OF _ m(2) bytes_at_packet] by (auto simp: mc_filled_def dio_metric_def)
  have lp: "length (dio_prefix ?p) \<le> 32"
    using D length_dio_parts(3,4) [of ?p] by (cases "0 < pf_length ?p") (auto simp: dag_sendable_def)
  from len met lp show l: "length ?msg \<le> 80" by simp
  have n: "unat (of_nat (length ?msg) :: u8) = length ?msg"
    using l by (simp add: unat_of_nat take_bit_eq_mod)
  from bytes_at_packet [of ?msg rest, folded buf_def] D
  have b: "bytes_at buf 0 (dio_base D)" "bytes_at buf 24 met"
    "bytes_at buf (24 + length met) (dio_config (d_config D) @ dio_prefix ?p)"
    by (simp_all add: dag_message_def bytes_at_append length_dio_parts dag_sendable_def add.assoc)
  from parse_base [OF b(1)] D
  have base: "parse_dio_base buf = rpl_dio0\<lparr>o_instance_id := d_instance_id D, o_version := d_version D,
      o_rank := d_rank D, o_mop := d_mop D, o_dtsn := d_dtsn_out D, o_dag_id := d_dag_id D\<rparr>" (is "_ = ?b")
    by (simp add: dag_sendable_def)
  have metric: "parse_dio_options buf (length ?msg) 24 ?b
      = parse_dio_options buf (length ?msg) (24 + length met)
          (?b\<lparr>o_mc := (if mc_type (d_mc D) = RPL_DAG_MC_NONE then mc0 else d_mc D)\<rparr>)"
  proof (cases "mc_type (d_mc D) = RPL_DAG_MC_NONE")
    case True
    then show ?thesis using met by (simp add: rpl_dio0_def)
  next
    case False
    then have s: "mc_sendable (d_mc D)" using m by (simp add: mc_filled_def)
    note o = parse_metric_option(2,3) [OF s m(2) b(2)]
    from False met len show ?thesis
      by (simp add: options_step [OF o(1) _ _ o(2)])
  qed
  have "parse_dio buf (of_nat (length ?msg)) = parse_dio_options buf (length ?msg) 24 ?b"
    using D by (simp add: parse_dio_def base n dag_sendable_def rpl_dio0_def)
  also note metric
  also note parse_tail [OF D b(3)]
  finally show "parse_dio (packet_buf ?msg rest) (of_nat (length ?msg)) = Some (dio_content D)"
    using len by (simp add: dio_content_def rpl_dio0_def flip: buf_def)
qed

lemma dio_output_global:
  assumes d: "d < length (dag_table s)" and g: "d_p2p (DAG s d) = None" "d_mop (DAG s d) \<noteq> RPL_MOP_P2P_ROUTE_DISCOVERY"
    and f: "d_of (DAG s d) \<noteq> None"
  obtains met where "let D = DAG (dio_output d a s) d in
      D = (DAG s d)\<lparr>d_dtsn_out := d_dtsn_out (DAG s d) + 1, d_mc := d_mc D\<rparr>
      \<and> mc_filled (d_mc D) \<and> dio_metric (d_mc D) = Some met
      \<and> outbox (dio_output d a s) = outbox s @
          [Icmp6_send (case a of None \<Rightarrow> rplnodes_mcast | Some b \<Rightarrow> b) RPL_CODE_DIO (dag_message D met)]"
proof -
  define s1 where "s1 = upd_dag d (\<lambda>D. D\<lparr>d_dtsn_out := d_dtsn_out D + 1\<rparr>) s"
  define s2 where "s2 = (if mc_type (d_mc (DAG s1 d)) \<noteq> RPL_DAG_MC_NONE then of_update_metric_container d s1 else s1)"
  have l: "d < length (dag_table s1)" using d by (simp add: s1_def)
  have D1: "DAG s1 d = (DAG s d)\<lparr>d_dtsn_out := d_dtsn_out (DAG s d) + 1\<rparr>" using d by (simp add: s1_def)
  have D2: "DAG s2 d = (DAG s1 d)\<lparr>d_mc := d_mc (DAG s2 d)\<rparr>" "mc_filled (d_mc (DAG s2 d))" "outbox s2 = outbox s"
    using l f D1 by (auto simp: s2_def s1_def of_update_metric_container_def etx_update_metric_container_def Let_def
        mc_filled_def mc_sendable_def upd_dag_def DAG_def)
  from D2(2) obtain met where met: "dio_metric (d_mc (DAG s2 d)) = Some met"
    by (auto simp: mc_filled_def dio_metric_def mc_sendable_def Let_def rpl_consts)
  have base: "dio_base (DAG s1 d) = dio_base (DAG s2 d)" by (subst D2(1)) (simp add: dio_base_def)
  have nop: "d_mop (DAG s2 d) \<noteq> RPL_MOP_P2P_ROUTE_DISCOVERY" "d_of (DAG s2 d) \<noteq> None"
    using g f by (subst D2(1), simp add: D1)+
  have opts: "dio_options d s1 = (Some (met @ dio_config (d_config (DAG s2 d)) @ dio_prefix (d_prefix_info (DAG s2 d))), s2)"
  proof -
    have mop: "d_mop (DAG s2 d) = RPL_MOP_P2P_ROUTE_DISCOVERY \<longleftrightarrow> False" using nop by simp
    show ?thesis unfolding dio_options_def s2_def [symmetric] Let_def mop if_False met option.case
      using nop(2) by (auto simp: chk_of_def)
  qed
  have nosup: "\<not> dio_suppressed s d" "chk_dio_rank d s = s"
    using g by (simp_all add: dio_suppressed_def chk_dio_rank_def)
  have guard: "(d_mop (DAG s d) = RPL_MOP_P2P_ROUTE_DISCOVERY \<and> d_p2p (DAG s d) = None) = False" using g by simp
  have out: "dio_output d a s = emit (Icmp6_send (case a of None \<Rightarrow> rplnodes_mcast | Some b \<Rightarrow> b) RPL_CODE_DIO
      (dag_message (DAG s2 d) met)) s2"
    unfolding dio_output_def Let_def guard nosup(2) using nosup(1) g
    by (simp add: s1_def [symmetric] opts base dag_message_def)
  have "DAG (dio_output d a s) d = DAG s2 d" "outbox (dio_output d a s) = outbox s @
      [Icmp6_send (case a of None \<Rightarrow> rplnodes_mcast | Some b \<Rightarrow> b) RPL_CODE_DIO (dag_message (DAG s2 d) met)]"
    using D2(3) by (simp_all add: out) (simp add: emit_def)
  with that [of met] D2 D1 met show thesis by (simp add: Let_def)
qed

text \<open>C8: A node that receives the DIO which another node sends for a global DAG reads from
  it what the DAG entry of the sender holds after the call: \<open>dio_output\<close> and the parser of
  \<open>dio_input\<close> are inverse, whatever follows the packet in the receiver's buffer. The sender
  fills in the metric container first and counts \<open>dtsn_out\<close> up.\<close>

theorem dio_round_trip:
  assumes "d < length (dag_table s)" "d_p2p (DAG s d) = None" "d_mop (DAG s d) \<noteq> RPL_MOP_P2P_ROUTE_DISCOVERY"
    and "d_of (DAG s d) \<noteq> None" and "dag_sendable (DAG s d)"
  shows "let s' = dio_output d a s; D = DAG s' d
    in D = (DAG s d)\<lparr>d_dtsn_out := d_dtsn_out (DAG s d) + 1, d_mc := d_mc D\<rparr>
       \<and> (\<exists>msg. outbox s' = outbox s @ [Icmp6_send (case a of None \<Rightarrow> rplnodes_mcast | Some b \<Rightarrow> b) RPL_CODE_DIO msg]
            \<and> length msg \<le> 80 \<and> parse_dio (packet_buf msg rest) (of_nat (length msg)) = Some (dio_content D))"
proof -
  let ?D = "DAG (dio_output d a s) d"
  obtain met where m: "let D = ?D in
      D = (DAG s d)\<lparr>d_dtsn_out := d_dtsn_out (DAG s d) + 1, d_mc := d_mc D\<rparr>
      \<and> mc_filled (d_mc D) \<and> dio_metric (d_mc D) = Some met
      \<and> outbox (dio_output d a s) = outbox s @
          [Icmp6_send (case a of None \<Rightarrow> rplnodes_mcast | Some b \<Rightarrow> b) RPL_CODE_DIO (dag_message D met)]"
    by (rule dio_output_global [OF assms(1-4)])
  then have D: "?D = (DAG s d)\<lparr>d_dtsn_out := d_dtsn_out (DAG s d) + 1, d_mc := d_mc ?D\<rparr>" by (simp add: Let_def)
  have "d_dag_id ?D = d_dag_id (DAG s d)" "d_mop ?D = d_mop (DAG s d)" "d_prefix_info ?D = d_prefix_info (DAG s d)"
    by (subst D, simp)+
  then have "dag_sendable ?D" using assms(5) by (simp add: dag_sendable_def)
  with m parse_dag_message [of ?D met] show ?thesis by (auto simp: Let_def)
qed

text \<open>A root with a prefix and an ETX metric.\<close>

definition demo_dag :: rpl_dag where
  "demo_dag = dag0\<lparr>d_used := True, d_joined := True, d_of := Some Rpl_of_etx,
     d_dag_id := [0xaa, 0xaa] @ replicate 13 0 @ [1], d_rank := 256, d_mop := 2, d_config := DEFAULT_DODAG_CONFIG,
     d_mc := mc0\<lparr>mc_type := 7\<rparr>,
     d_prefix_info := \<lparr>pf_prefix = [0xaa, 0xaa] @ replicate 14 0, pf_lifetime = 0, pf_length = 64, pf_flags = 0x40\<rparr>\<rparr>"

definition demo_root :: node where
  "demo_root = (node0 [1, 2, 3, 4, 5, 6, 7, 8])\<lparr>dag_table := demo_dag # replicate 3 dag0\<rparr>"

theorem dio_round_trip_witness:
  "dag_sendable (DAG demo_root 0)
    \<and> (\<exists>msg. outbox (dio_output 0 None demo_root) = outbox demo_root @ [Icmp6_send rplnodes_mcast RPL_CODE_DIO msg]
         \<and> parse_dio (packet_buf msg (\<lambda>_. 0)) (of_nat (length msg)) = Some (dio_content (DAG (dio_output 0 None demo_root) 0)))"
proof -
  have l: "0 < length (dag_table demo_root)" by (simp add: demo_root_def)
  have D: "DAG demo_root 0 = demo_dag" by (simp add: demo_root_def DAG_def)
  have g: "d_p2p demo_dag = None" "d_mop demo_dag \<noteq> RPL_MOP_P2P_ROUTE_DISCOVERY" "d_of demo_dag \<noteq> None" "dag_sendable demo_dag"
    by code_simp+
  from dio_round_trip [OF l g [folded D], of None "\<lambda>_. 0"] g(4) show ?thesis by (auto simp: Let_def D)
qed

end
