(* ===== verification/Uip_Packet.thy ===== *)
theory Uip_Packet
  imports Rpl_Codec
begin

text \<open>
  The packet buffer of the IPv6 stack and the code that writes whole packets into it: the
  checksum of \<open>core/net/uip6.c\<close> and the messages of \<open>core/net/uip-icmp6.c\<close>. The buffer
  \<open>uip_buf\<close> and the memory behind it are a function from offsets to bytes; a copy that
  would leave the 240 bytes of the buffer sets \<open>fault\<close>. \<open>UIP_LLH_LEN\<close> is 0. The stack
  keeps its lengths at the width of the C variables: \<open>uip_len\<close> has 16 bits, \<open>uip_ext_len\<close> 8.
\<close>

section \<open>State\<close>

text \<open>A connection of \<open>uip_udp_conns\<close>; ports are kept in network byte order. The process and
  the application state that \<open>tcpip.c\<close> keeps in it are numbers.\<close>

record udp_conn =
  u_ripaddr :: ipaddr
  u_lport :: u16
  u_rport :: u16
  u_ttl :: u8
  u_proc :: "nat option"
  u_state :: nat

text \<open>\<open>usender\<close> is the link-layer sender of the packet in the buffer; \<open>frames\<close> are the packets
  handed to the link layer by \<open>tcpip_output\<close>, with their link-layer destination (\<open>None\<close> for
  a broadcast).\<close>

record stack =
  nd :: node
  ubuf :: "nat \<Rightarrow> u8"
  ulen :: u16
  uext :: u8
  uslen :: u16
  usender :: bytes
  udp_conns :: "udp_conn list"
  lastport :: u16
  frames :: "(bytes option \<times> bytes) list"

definition UIP_BUFSIZE :: nat where "UIP_BUFSIZE = 240"
definition UIP_LINK_MTU :: u16 where "UIP_LINK_MTU = 1280"
definition UIP_IPH_LEN :: u16 where "UIP_IPH_LEN = 40"

definition UIP_PROTO_HBHO :: u8 where "UIP_PROTO_HBHO = 0"
definition UIP_PROTO_UDP :: u8 where "UIP_PROTO_UDP = 17"
definition UIP_PROTO_ROUTING :: u8 where "UIP_PROTO_ROUTING = 43"
definition UIP_PROTO_FRAG :: u8 where "UIP_PROTO_FRAG = 44"
definition UIP_PROTO_ICMP6 :: u8 where "UIP_PROTO_ICMP6 = 58"
definition UIP_PROTO_NONE :: u8 where "UIP_PROTO_NONE = 59"
definition UIP_PROTO_DESTO :: u8 where "UIP_PROTO_DESTO = 60"

definition ICMP6_DST_UNREACH :: u8 where "ICMP6_DST_UNREACH = 1"
definition ICMP6_PACKET_TOO_BIG :: u8 where "ICMP6_PACKET_TOO_BIG = 2"
definition ICMP6_TIME_EXCEEDED :: u8 where "ICMP6_TIME_EXCEEDED = 3"
definition ICMP6_PARAM_PROB :: u8 where "ICMP6_PARAM_PROB = 4"
definition ICMP6_ECHO_REQUEST :: u8 where "ICMP6_ECHO_REQUEST = 128"
definition ICMP6_ECHO_REPLY :: u8 where "ICMP6_ECHO_REPLY = 129"
definition ICMP6_NS :: u8 where "ICMP6_NS = 135"
definition ICMP6_NA :: u8 where "ICMP6_NA = 136"
definition ICMP6_RPL :: u8 where "ICMP6_RPL = 155"

lemmas uip_consts = UIP_BUFSIZE_def UIP_LINK_MTU_def UIP_IPH_LEN_def UIP_PROTO_HBHO_def UIP_PROTO_UDP_def
  UIP_PROTO_ROUTING_def UIP_PROTO_FRAG_def UIP_PROTO_ICMP6_def UIP_PROTO_NONE_def UIP_PROTO_DESTO_def
  ICMP6_DST_UNREACH_def ICMP6_PACKET_TOO_BIG_def ICMP6_TIME_EXCEEDED_def ICMP6_PARAM_PROB_def
  ICMP6_ECHO_REQUEST_def ICMP6_ECHO_REPLY_def ICMP6_NS_def ICMP6_NA_def ICMP6_RPL_def

section \<open>Memory\<close>

definition memmove :: "nat \<Rightarrow> nat \<Rightarrow> nat \<Rightarrow> (nat \<Rightarrow> u8) \<Rightarrow> nat \<Rightarrow> u8" where
  "memmove d p n m = (\<lambda>i. if d \<le> i \<and> i < d + n then m (p + (i - d)) else m i)"

definition upd_nd :: "(node \<Rightarrow> node) \<Rightarrow> stack \<Rightarrow> stack" where
  "upd_nd f s = s\<lparr>nd := f (nd s)\<rparr>"

definition upd_buf :: "((nat \<Rightarrow> u8) \<Rightarrow> nat \<Rightarrow> u8) \<Rightarrow> stack \<Rightarrow> stack" where
  "upd_buf f s = s\<lparr>ubuf := f (ubuf s)\<rparr>"

text \<open>Writing up to offset \<open>n\<close>.\<close>

definition chk_buf :: "nat \<Rightarrow> stack \<Rightarrow> stack" where
  "chk_buf n s = (if UIP_BUFSIZE < n then upd_nd set_fault s else s)"

text \<open>The IPv6 header: the fields \<open>len\<close>, \<open>srcipaddr\<close> and \<open>destipaddr\<close> of \<open>UIP_IP_BUF\<close>.\<close>

definition ip_len :: "(nat \<Rightarrow> u8) \<Rightarrow> u16" where
  "ip_len m = push_bit 8 (ucast (m 4)) + ucast (m 5)"

definition ip_src :: "(nat \<Rightarrow> u8) \<Rightarrow> ipaddr" where
  "ip_src m = bget m 8 16"

definition ip_dst :: "(nat \<Rightarrow> u8) \<Rightarrow> ipaddr" where
  "ip_dst m = bget m 24 16"

definition set_ip_len :: "u16 \<Rightarrow> (nat \<Rightarrow> u8) \<Rightarrow> nat \<Rightarrow> u8" where
  "set_ip_len n m = m(4 := ucast (drop_bit 8 n), 5 := ucast n)"

text \<open>\<open>vtc\<close>, \<open>tcflow\<close> and \<open>flow\<close> of a packet that the node originates.\<close>

definition ip_version :: "(nat \<Rightarrow> u8) \<Rightarrow> nat \<Rightarrow> u8" where
  "ip_version m = m(0 := 0x60, 1 := 0, 2 := 0, 3 := 0)"

text \<open>\<open>uip_l2_l3_hdr_len\<close> and \<open>uip_l2_l3_icmp_hdr_len\<close>.\<close>

definition l3_hdr :: "stack \<Rightarrow> nat" where
  "l3_hdr s = 40 + unat (uext s)"

definition icmp_hdr :: "stack \<Rightarrow> nat" where
  "icmp_hdr s = 44 + unat (uext s)"

section \<open>Checksum\<close>

fun chksum :: "u16 \<Rightarrow> bytes \<Rightarrow> u16" where
  "chksum acc [] = acc"
| "chksum acc [a] =
     (let t = push_bit 8 (ucast a); acc = acc + t in if acc < t then acc + 1 else acc)"
| "chksum acc (a # b # bs) =
     (let t = push_bit 8 (ucast a) + ucast b; acc = acc + t
      in chksum (if acc < t then acc + 1 else acc) bs)"

text \<open>The MSP430 is little endian.\<close>

definition uip_htons :: "u16 \<Rightarrow> u16" where
  "uip_htons v = push_bit 8 v OR drop_bit 8 v"

definition store16 :: "nat \<Rightarrow> u16 \<Rightarrow> (nat \<Rightarrow> u8) \<Rightarrow> nat \<Rightarrow> u8" where
  "store16 p v m = m(p := ucast v, Suc p := ucast (drop_bit 8 v))"

definition load16 :: "nat \<Rightarrow> (nat \<Rightarrow> u8) \<Rightarrow> u16" where
  "load16 p m = ucast (m p) OR push_bit 8 (ucast (m (Suc p)))"

definition upper_layer_chksum :: "u8 \<Rightarrow> stack \<Rightarrow> u16" where
  "upper_layer_chksum proto s =
     (let n = ip_len (ubuf s) - ucast (uext s);
          acc = n + ucast proto;
          acc = chksum acc (bget (ubuf s) 8 32);
          acc = chksum acc (bget (ubuf s) (l3_hdr s) (unat n))
      in if acc = 0 then 0xffff else uip_htons acc)"

definition uip_icmp6chksum :: "stack \<Rightarrow> u16" where
  "uip_icmp6chksum s = upper_layer_chksum UIP_PROTO_ICMP6 s"

text \<open>\<open>UIP_ICMP_BUF->icmpchksum = 0; UIP_ICMP_BUF->icmpchksum = ~uip_icmp6chksum();\<close>\<close>

definition write_icmp6chksum :: "stack \<Rightarrow> stack" where
  "write_icmp6chksum s =
     (let s = upd_buf (store16 (l3_hdr s + 2) 0) s
      in upd_buf (store16 (l3_hdr s + 2) (NOT (uip_icmp6chksum s))) s)"

section \<open>Address predicates\<close>

definition uip_is_addr_unspecified :: "ipaddr \<Rightarrow> bool" where
  "uip_is_addr_unspecified a \<longleftrightarrow> take 16 a = replicate 16 0"

definition uip_is_addr_loopback :: "ipaddr \<Rightarrow> bool" where
  "uip_is_addr_loopback a \<longleftrightarrow> take 16 a = replicate 15 0 @ [1]"

definition uip_is_addr_solicited_node :: "ipaddr \<Rightarrow> bool" where
  "uip_is_addr_solicited_node a \<longleftrightarrow> take 13 a = [0xFF, 0x02, 0, 0, 0, 0, 0, 0, 0, 0, 0, 0x01, 0xFF]"

section \<open>ICMPv6 messages\<close>

text \<open>The reply goes out of the buffer that holds the request. When the request has extension
  headers they are removed: the message is moved down over them.\<close>

definition uip_icmp6_echo_request_input :: "stack \<Rightarrow> stack" where
  "uip_icmp6_echo_request_input s =
     (let src = ip_src (ubuf s); dst = ip_dst (ubuf s);
          s = upd_buf (\<lambda>m. m(7 := cur_hop_limit (nd s))) s;
          s = (if uip_is_addr_mcast dst
               then upd_buf (\<lambda>m. bset 8 (uip_ds6_select_src src (nd s)) (bset 24 src m)) s
               else upd_buf (\<lambda>m. bset 24 src (bset 8 dst m)) s);
          s = (if 0 < uext s
               then (let len = ulen s - ucast (uext s);
                         n = unat (len - UIP_IPH_LEN - 4);
                         s = chk_buf (icmp_hdr s + n) s;
                         e = unat (uext s)
                     in upd_buf (\<lambda>m. memmove 44 (44 + e) n
                          (set_ip_len (len - UIP_IPH_LEN) (m(6 := UIP_PROTO_ICMP6)))) (s\<lparr>ulen := len\<rparr>))
               else s);
          s = s\<lparr>uext := 0\<rparr>;
          s = upd_buf (\<lambda>m. m(40 := ICMP6_ECHO_REPLY, 41 := 0)) s
      in write_icmp6chksum s)"

definition uip_icmp6_error_output :: "u8 \<Rightarrow> u8 \<Rightarrow> u32 \<Rightarrow> stack \<Rightarrow> stack" where
  "uip_icmp6_error_output type code param s0 =
     (let s = s0\<lparr>uext := 0\<rparr> in
      if ubuf s 6 = UIP_PROTO_ICMP6 \<and> ubuf s 40 < 128 then s\<lparr>ulen := 0\<rparr>
      else
        (let dst = ip_dst (ubuf s); src = ip_src (ubuf s);
             len = ulen s + 48;
             len = (if UIP_LINK_MTU < len then UIP_LINK_MTU else len);
             s = chk_buf (unat len) (s\<lparr>ulen := len\<rparr>);
             s = upd_buf (\<lambda>m. (ip_version (memmove 48 0 (unat (len - 48)) m))
                   (6 := UIP_PROTO_ICMP6, 7 := cur_hop_limit (nd s))) s
         in if uip_is_addr_unspecified src then s\<lparr>ulen := 0\<rparr>
         else
           (let s = upd_buf (bset 24 src) s in
            if uip_is_addr_mcast dst \<and> \<not> (type = ICMP6_PARAM_PROB \<and> code = 2) then s\<lparr>ulen := 0\<rparr>
            else
              (let s = upd_buf (bset 8 (uip_ds6_select_src dst (nd s))) s;
                   s = upd_buf (\<lambda>m. set_ip_len (len - UIP_IPH_LEN)
                         (bset 44 (set32 param) (m(40 := type, 41 := code)))) s
               in write_icmp6chksum s))))"

end
