(* ===== verification/Uip_Nd6.thy ===== *)
theory Uip_Nd6
  imports Uip_Packet
begin

text \<open>
  Neighbour discovery, \<open>core/net/uip-nd6.c\<close>: solicitations and advertisements. The sky build
  has \<open>UIP_CONF_IPV6_CHECKS\<close> 0, so the validity checks are compiled out. The loops over the
  options follow length bytes from the packet and need not end: \<open>None\<close> stands for a call
  that never returns.
\<close>

section \<open>Options\<close>

definition UIP_ND6_OPT_SLLAO :: u8 where "UIP_ND6_OPT_SLLAO = 1"
definition UIP_ND6_OPT_TLLAO :: u8 where "UIP_ND6_OPT_TLLAO = 2"
definition UIP_ND6_NA_FLAG_ROUTER :: u8 where "UIP_ND6_NA_FLAG_ROUTER = 0x80"
definition UIP_ND6_NA_FLAG_SOLICITED :: u8 where "UIP_ND6_NA_FLAG_SOLICITED = 0x40"
definition UIP_ND6_NA_FLAG_OVERRIDE :: u8 where "UIP_ND6_NA_FLAG_OVERRIDE = 0x20"

lemmas nd6_consts = UIP_ND6_OPT_SLLAO_def UIP_ND6_OPT_TLLAO_def UIP_ND6_NA_FLAG_ROUTER_def
  UIP_ND6_NA_FLAG_SOLICITED_def UIP_ND6_NA_FLAG_OVERRIDE_def

text \<open>A link-layer address option of 16 bytes; the 802.15.4 address has 8.\<close>

definition create_llao :: "bytes \<Rightarrow> u8 \<Rightarrow> bytes" where
  "create_llao ll type = [type, 2] @ take 8 ll @ replicate 6 0"

definition upd_nbr :: "nat \<Rightarrow> (nbr \<Rightarrow> nbr) \<Rightarrow> stack \<Rightarrow> stack" where
  "upd_nbr i f = upd_nd (\<lambda>n. n\<lparr>nbr_cache := updf i f (nbr_cache n)\<rparr>)"

text \<open>What the source link-layer address option of a solicitation does: \<open>ll\<close> is the address
  in the option.\<close>

definition sllao_learn :: "bytes \<Rightarrow> stack \<Rightarrow> stack" where
  "sllao_learn ll s =
     (case uip_ds6_nbr_lookup (ip_src (ubuf s)) (nd s) of
        None \<Rightarrow> upd_nd (\<lambda>n. snd (uip_ds6_nbr_add rpl_ipv6_neighbor_callback (ip_src (ubuf s)) (Some ll) 0 NBR_STALE n)) s
      | Some i \<Rightarrow>
          (if ll \<noteq> n_lladdr (nbr_cache (nd s) ! i)
           then upd_nbr i (\<lambda>n. n\<lparr>n_lladdr := ll, n_state := NBR_STALE\<rparr>) s
           else if n_state (nbr_cache (nd s) ! i) = NBR_INCOMPLETE
           then upd_nbr i (\<lambda>n. n\<lparr>n_state := NBR_STALE\<rparr>) s else s))"

text \<open>The offset of the current option, \<open>nd6_opt_offset\<close>, has eight bits.\<close>

partial_function (option) ns_options :: "u8 \<Rightarrow> stack \<Rightarrow> stack option" where
  "ns_options off s =
     (if icmp_hdr s + unat off < unat (ulen s)
      then (let p = icmp_hdr s + unat off;
                s' = (if ubuf s p = UIP_ND6_OPT_SLLAO then sllao_learn (bget (ubuf s) (p + 2) 8) s else s)
            in ns_options (off + push_bit 3 (ubuf s (p + 1))) s')
      else Some s)"

partial_function (option) na_options :: "u8 \<Rightarrow> nat option \<Rightarrow> stack \<Rightarrow> nat option option" where
  "na_options off llao s =
     (if icmp_hdr s + unat off < unat (ulen s)
      then (let p = icmp_hdr s + unat off
            in na_options (off + push_bit 3 (ubuf s (p + 1)))
                 (if ubuf s p = UIP_ND6_OPT_TLLAO then Some p else llao) s)
      else Some llao)"

section \<open>Solicitations\<close>

text \<open>The code at the label \<open>create_na\<close>, for the interface address \<open>i\<close>. The addresses of the
  IPv6 header are already written.\<close>

definition create_na :: "u8 \<Rightarrow> nat \<Rightarrow> stack \<Rightarrow> stack" where
  "create_na flags i s0 =
     (let s = s0\<lparr>uext := 0\<rparr>;
          s = upd_buf (\<lambda>m. (ip_version m)(4 := 0, 5 := 40, 6 := UIP_PROTO_ICMP6, 7 := 255,
                40 := ICMP6_NA, 41 := 0, 44 := flags)) s;
          s = upd_buf (bset 48 (a_ipaddr (addr_list (nd s) ! i))) s;
          s = upd_buf (bset 64 (create_llao (lladdr (nd s)) UIP_ND6_OPT_TLLAO)) s
      in (write_icmp6chksum s)\<lparr>ulen := 80\<rparr>)"

definition uip_nd6_ns_input :: "stack \<Rightarrow> stack option" where
  "uip_nd6_ns_input s0 =
     Option.bind (ns_options 20 s0) (\<lambda>s.
       let tgt = bget (ubuf s) (icmp_hdr s + 4) 16; src = ip_src (ubuf s); dst = ip_dst (ubuf s);
           answer = (\<lambda>i s. create_na (UIP_ND6_NA_FLAG_SOLICITED OR UIP_ND6_NA_FLAG_OVERRIDE) i
                      (upd_buf (\<lambda>m. bset 8 tgt (bset 24 src m)) s))
       in Some (case uip_ds6_addr_lookup tgt (nd s) of
            None \<Rightarrow> s\<lparr>ulen := 0\<rparr>
          | Some i \<Rightarrow>
              if uip_is_addr_unspecified src then
                (if a_state (addr_list (nd s) ! i) \<noteq> ADDR_TENTATIVE
                 then create_na UIP_ND6_NA_FLAG_OVERRIDE i
                        (upd_buf (\<lambda>m. bset 8 (uip_ds6_select_src uip_create_linklocal_allnodes_mcast (nd s))
                                        (bset 24 uip_create_linklocal_allnodes_mcast m)) s)
                 else (upd_nd (\<lambda>n. snd (uip_ds6_dad_failed i n)) s)\<lparr>ulen := 0\<rparr>)
              else if uip_is_addr_solicited_node dst then answer i s
              else if uip_ds6_addr_lookup dst (nd s) = Some i then answer i s
              else create_na 0 i (upd_nd set_fault s)))"

text \<open>In the last branch the code goes on with \<open>flags\<close> uninitialised.

  \<open>uip_nd6_ns_output\<close>; a source or destination that is \<open>NULL\<close> is \<open>None\<close>.\<close>

definition uip_nd6_ns_output :: "ipaddr option \<Rightarrow> ipaddr option \<Rightarrow> ipaddr \<Rightarrow> stack \<Rightarrow> stack" where
  "uip_nd6_ns_output src dest tgt s0 =
     (let s = s0\<lparr>uext := 0\<rparr>;
          dst = (case dest of None \<Rightarrow> uip_create_solicited_node tgt | Some d \<Rightarrow> d);
          s = upd_buf (\<lambda>m. bset 24 dst ((ip_version m)(6 := UIP_PROTO_ICMP6, 7 := 255))) s;
          s = upd_buf (\<lambda>m. bset 48 tgt (bset 44 [0, 0, 0, 0] (m(40 := ICMP6_NS, 41 := 0, 4 := 0)))) s;
          s = (if \<not> uip_ds6_is_my_addr tgt (nd s)
               then (let own = (case src of Some a \<Rightarrow> a | None \<Rightarrow> uip_ds6_select_src dst (nd s))
                     in (upd_buf (\<lambda>m. bset 64 (create_llao (lladdr (nd s)) UIP_ND6_OPT_SLLAO)
                           (bset 8 own (m(5 := 40)))) s)\<lparr>ulen := 80\<rparr>)
               else (upd_buf (\<lambda>m. bset 8 uip_create_unspecified (m(5 := 24))) s)\<lparr>ulen := 64\<rparr>)
      in write_icmp6chksum s)"

section \<open>Advertisements\<close>

text \<open>\<open>uip_ds6_if.reachable_time / 1000\<close>\<close>

definition nbr_confirm :: "node \<Rightarrow> nbr \<Rightarrow> nbr" where
  "nbr_confirm n b = b\<lparr>n_state := NBR_REACHABLE,
     n_reachable := stimer_set (secs n) (reachable_time n div 1000) (n_reachable b)\<rparr>"

text \<open>The update of the neighbour \<open>i\<close>; \<open>ll\<close> is the address of a target link-layer address
  option. The second component says that the code reaches its end instead of jumping to
  \<open>discard\<close>; both set \<open>uip_len\<close> to 0, as the queue of packets is compiled out.\<close>

definition na_entry :: "u8 \<Rightarrow> bytes option \<Rightarrow> node \<Rightarrow> nbr \<Rightarrow> nbr \<times> bool" where
  "na_entry flags ll n b =
     (let router = flags AND UIP_ND6_NA_FLAG_ROUTER;
          solicited = flags AND UIP_ND6_NA_FLAG_SOLICITED \<noteq> 0;
          override = flags AND UIP_ND6_NA_FLAG_OVERRIDE \<noteq> 0;
          llchange = (case ll of Some a \<Rightarrow> a \<noteq> n_lladdr b | None \<Rightarrow> False);
          set_ll = (\<lambda>b. case ll of Some a \<Rightarrow> b\<lparr>n_lladdr := a\<rparr> | None \<Rightarrow> b)
      in if n_state b = NBR_INCOMPLETE then
           (case ll of None \<Rightarrow> (b, False)
            | Some a \<Rightarrow>
                ((if solicited then (nbr_confirm n (b\<lparr>n_lladdr := a\<rparr>))\<lparr>n_nscount := 0\<rparr>
                  else b\<lparr>n_lladdr := a, n_state := NBR_STALE\<rparr>)\<lparr>n_isrouter := router\<rparr>, True))
         else if \<not> override \<and> llchange then
           (if n_state b = NBR_REACHABLE then b\<lparr>n_state := NBR_STALE\<rparr> else b, False)
         else
           ((if solicited then nbr_confirm n (set_ll b)
             else if llchange then (set_ll b)\<lparr>n_state := NBR_STALE\<rparr> else set_ll b)\<lparr>n_isrouter := router\<rparr>, True))"

definition uip_nd6_na_input :: "stack \<Rightarrow> stack option" where
  "uip_nd6_na_input s =
     Option.bind (na_options 20 None s) (\<lambda>llao.
       let tgt = bget (ubuf s) (icmp_hdr s + 4) 16; flags = ubuf s (icmp_hdr s);
           ll = map_option (\<lambda>p. bget (ubuf s) (p + 2) 8) llao;
           n = nd s
       in Some ((case uip_ds6_addr_lookup tgt n of
            Some i \<Rightarrow>
              if a_state (addr_list n ! i) = ADDR_TENTATIVE
              then upd_nd (\<lambda>n. snd (uip_ds6_dad_failed i n)) s else s
          | None \<Rightarrow>
              (case uip_ds6_nbr_lookup tgt n of
                 None \<Rightarrow> s
               | Some i \<Rightarrow>
                   (let b = nbr_cache n ! i;
                        (b', ends) = na_entry flags ll n b;
                        s' = (if ends \<and> n_state b \<noteq> NBR_INCOMPLETE \<and> n_isrouter b \<noteq> 0
                                 \<and> flags AND UIP_ND6_NA_FLAG_ROUTER = 0
                              then (case uip_ds6_defrt_lookup (ip_src (ubuf s)) n of
                                      Some d \<Rightarrow> upd_nd (uip_ds6_defrt_rm d) s | None \<Rightarrow> s)
                              else s)
                    in upd_nbr i (\<lambda>_. b') s')))\<lparr>ulen := 0\<rparr>))"

end
