(* ===== verification/Uip_Output.thy ===== *)
theory Uip_Output
  imports Uip_Nd6
begin

text \<open>
  The sending of packets, \<open>tcpip_ipv6_output\<close> of \<open>core/net/tcpip.c\<close> with the patch that adds
  the source routing header of a discovered route, and the messages of RPL and DS6. \<open>UIP_CONF_IPV6_QUEUE_PKT\<close> is 0: a packet
  whose next hop is being resolved is lost. \<open>UIP_CONF_RH4_CMPRI\<close> is 15, so an intermediate
  hop is one byte of the header; \<open>UIP_RH4_CMPRE\<close> is 0.
\<close>

section \<open>Link layer\<close>

text \<open>\<open>tcpip_output\<close> calls the output function of the network layer below.\<close>

definition tcpip_output :: "bytes option \<Rightarrow> stack \<Rightarrow> stack" where
  "tcpip_output ll s = s\<lparr>frames := frames s @ [(ll, bget (ubuf s) 0 (unat (ulen s)))]\<rparr>"

section \<open>Source routing header\<close>

definition UIP_RH4_CMPRI :: nat where "UIP_RH4_CMPRI = 15"
definition UIP_RH4_CMPRE :: nat where "UIP_RH4_CMPRE = 0"

text \<open>The length of the address vector, of the header in units of 8 bytes without the first
  8, and of the padding, for a number of hops; all have eight bits.\<close>

definition rh_vector_len :: "u8 \<Rightarrow> u8" where
  "rh_vector_len k = (k - 1) * of_nat (16 - UIP_RH4_CMPRI) + of_nat (16 - UIP_RH4_CMPRE)"

definition rh_ext_len :: "u8 \<Rightarrow> u8" where
  "rh_ext_len k = of_nat ((unat (rh_vector_len k) + 7) div 8)"

definition rh_pad :: "u8 \<Rightarrow> u8" where
  "rh_pad k = rh_ext_len k * 8 - rh_vector_len k"

definition rh_header :: "u8 \<Rightarrow> ipaddr list \<Rightarrow> ipaddr \<Rightarrow> bytes" where
  "rh_header proto hops target =
     (let k = of_nat (length hops) in
      [proto, rh_ext_len k, 4, k, of_nat (UIP_RH4_CMPRI * 16 + UIP_RH4_CMPRE), push_bit 4 (rh_pad k), 0, 0]
      @ concat (map (drop UIP_RH4_CMPRI) (tl hops)) @ drop UIP_RH4_CMPRE target
      @ replicate (unat (rh_pad k)) 0)"

text \<open>The packet is moved up behind the header, whose offset \<open>pos\<close> has eight bits. A source
  route without hops makes the code follow \<open>NULL\<close>.\<close>

definition add_source_route :: "nat \<Rightarrow> stack \<Rightarrow> stack" where
  "add_source_route r s0 =
     (let hops = src_route_hops r (nd s0); target = s_ipaddr (src_routing_table (nd s0) ! r);
          k = of_nat (length hops); rh_len = rh_ext_len k * 8 + 8;
          pos = unat (40 + uext s0); n = unat (ulen s0 - (UIP_IPH_LEN + ucast (uext s0)));
          s = chk_buf (l3_hdr s0 + unat rh_len + n) (if hops = [] then upd_nd set_fault s0 else s0);
          len = ulen s + ucast rh_len
      in (upd_buf (\<lambda>m. set_ip_len (len - UIP_IPH_LEN)
            (bset pos (rh_header (m 6) hops target)
              ((bset 24 (case hops of [] \<Rightarrow> addr0 | a # _ \<Rightarrow> a) (memmove (pos + unat rh_len) pos n m))
                 (6 := UIP_PROTO_ROUTING)))) s)
           \<lparr>ulen := len, uext := uext s + rh_len\<rparr>)"

section \<open>Output\<close>

text \<open>The next hop for the destination in the buffer; \<open>None\<close> if there is no route.\<close>

definition next_hop :: "stack \<Rightarrow> ipaddr option \<times> stack" where
  "next_hop s =
     (let dst = ip_dst (ubuf s) in
      if uip_ds6_is_addr_onlink dst (nd s) then (Some dst, s)
      else (case uip_ds6_src_route_lookup dst (nd s) of
          Some r \<Rightarrow> (let s' = add_source_route r s in (Some (ip_dst (ubuf s')), s'))
        | None \<Rightarrow>
            (case uip_ds6_route_lookup dst (nd s) of
               Some r \<Rightarrow> (Some (t_nexthop (routing_table (nd s) ! r)), s)
             | None \<Rightarrow> (map_option (\<lambda>r. r_ipaddr (defrt_list (nd s) ! r)) (uip_ds6_defrt_choose (nd s)), s))))"

text \<open>\<open>UIP_ND6_DELAY_FIRST_PROBE_TIME\<close> is 5.\<close>

definition nbr_send :: "nat \<Rightarrow> stack \<Rightarrow> stack" where
  "nbr_send i s0 =
     (let s = (if n_state (nbr_cache (nd s0) ! i) = NBR_STALE
               then upd_nbr i (\<lambda>b. b\<lparr>n_state := NBR_DELAY, n_nscount := 0,
                      n_reachable := stimer_set (secs (nd s0)) 5 (n_reachable b)\<rparr>) s0 else s0);
          s = upd_nbr i (\<lambda>b. b\<lparr>n_sendns := stimer_set (secs (nd s0)) (retrans_timer (nd s0) div 1000) (n_sendns b)\<rparr>) s
      in tcpip_output (Some (n_lladdr (nbr_cache (nd s) ! i))) s)"

text \<open>A new neighbour: the packet in the buffer is replaced with a solicitation, which goes
  out at the end of the function.\<close>

definition output_end :: "stack \<Rightarrow> stack" where
  "output_end s = (tcpip_output None s)\<lparr>ulen := 0, uext := 0\<rparr>"

definition nbr_resolve :: "ipaddr \<Rightarrow> stack \<Rightarrow> stack" where
  "nbr_resolve hop s0 =
     (case uip_ds6_nbr_add rpl_ipv6_neighbor_callback hop None 0 NBR_INCOMPLETE (nd s0) of
        (None, n) \<Rightarrow> s0\<lparr>nd := n, ulen := 0\<rparr>
      | (Some i, n) \<Rightarrow>
          (let s = s0\<lparr>nd := n\<rparr>; src = ip_src (ubuf s);
               s = uip_nd6_ns_output (if uip_ds6_is_my_addr src (nd s) then Some src else None) None
                     (n_ipaddr (nbr_cache (nd s) ! i)) s
           in output_end (upd_nbr i (\<lambda>b. b\<lparr>n_nscount := 1,
                n_sendns := stimer_set (secs (nd s)) (retrans_timer (nd s) div 1000) (n_sendns b)\<rparr>) s)))"

definition tcpip_ipv6_output :: "stack \<Rightarrow> stack" where
  "tcpip_ipv6_output s0 =
     (let dst = ip_dst (ubuf s0) in
      if ulen s0 = 0 then s0
      else if UIP_LINK_MTU < ulen s0 \<or> uip_is_addr_unspecified dst then s0\<lparr>ulen := 0\<rparr>
      else if uip_is_addr_mcast dst then output_end s0
      else
        (case next_hop s0 of
           (None, s) \<Rightarrow> s\<lparr>ulen := 0\<rparr>
         | (Some hop, s) \<Rightarrow>
             (case uip_ds6_nbr_lookup hop (nd s) of
                None \<Rightarrow> nbr_resolve hop s
              | Some i \<Rightarrow>
                  if n_state (nbr_cache (nd s) ! i) = NBR_INCOMPLETE then s
                  else (nbr_send i s)\<lparr>ulen := 0, uext := 0\<rparr>)))"

section \<open>Messages\<close>

text \<open>\<open>uip_icmp6_send\<close>: the payload is in the buffer already.\<close>

definition uip_icmp6_send :: "ipaddr \<Rightarrow> u8 \<Rightarrow> u8 \<Rightarrow> u16 \<Rightarrow> stack \<Rightarrow> stack" where
  "uip_icmp6_send dest type code n s0 =
     (let s = upd_buf (\<lambda>m. (set_ip_len (n + 4) (ip_version m))(6 := UIP_PROTO_ICMP6, 7 := cur_hop_limit (nd s0))) s0;
          s = upd_buf (\<lambda>m. bset 8 (uip_ds6_select_src dest (nd s)) (bset 24 dest m)) s;
          s = upd_buf (\<lambda>m. m(l3_hdr s := type, Suc (l3_hdr s) := code)) s
      in tcpip_ipv6_output ((write_icmp6chksum s)\<lparr>ulen := UIP_IPH_LEN + 4 + n\<rparr>))"

text \<open>A message of RPL: the code writes the payload behind the headers and sends it. The
  buffer pointer of \<open>rpl-icmp6.c\<close> depends on \<open>uip_ext_len\<close>.\<close>

definition rpl_transmit :: "message \<Rightarrow> stack \<Rightarrow> stack" where
  "rpl_transmit m s =
     (case m of
        Icmp6_send dest code payload \<Rightarrow>
          uip_icmp6_send dest ICMP6_RPL code (of_nat (length payload)) (upd_buf (bset (icmp_hdr s) payload) s)
      | Ns_output dest tgt \<Rightarrow> uip_nd6_ns_output None dest tgt s
      | _ \<Rightarrow> s)"

text \<open>A step of the RPL or DS6 code, whose messages are appended to \<open>outbox\<close>: they are written
  to the buffer in their order, at the end of the step. A solicitation stays in the buffer.\<close>

definition node_event :: "(node \<Rightarrow> node) \<Rightarrow> stack \<Rightarrow> stack" where
  "node_event f s =
     (let n = f (nd s) in fold rpl_transmit (drop (length (outbox (nd s))) (outbox n)) (s\<lparr>nd := n\<rparr>))"

text \<open>\<open>eventhandler\<close> of \<open>tcpip.c\<close> for the periodic timer of DS6: one packet is sent at the end.\<close>

definition ds6_timer_event :: "stack \<Rightarrow> stack" where
  "ds6_timer_event s = tcpip_ipv6_output (node_event (uip_ds6_periodic rpl_ipv6_neighbor_callback) s)"

end
