(* ===== verification/Uip_Process.thy ===== *)
theory Uip_Process
  imports Uip_Output
begin

text \<open>
  The processing of a received packet, \<open>uip_process\<close> of \<open>core/net/uip6.c\<close>, with the patches
  for the source routing header of type 4. TCP, reassembly and the header checks are
  compiled out on the sky. The functions that loop over data of the packet return an
  option; \<open>None\<close> stands for a call that never returns. The application of a UDP connection
  is a parameter.
\<close>

section \<open>Options\<close>

text \<open>The result is 0 to go on, 1 to discard the packet, 2 to send the error that is now in
  the buffer. \<open>uip_ext_opt_offset\<close> has eight bits.\<close>

partial_function (option) ext_options :: "u8 \<Rightarrow> stack \<Rightarrow> (nat \<times> stack) option" where
  "ext_options off s =
     (if unat off < unat (ubuf s (l3_hdr s + 1)) * 8 + 8 then
        (let p = l3_hdr s + unat off; ty = ubuf s p in
         if ty = 0 then ext_options (off + 1) s
         else if ty = 1 then ext_options (off + (ubuf s (p + 1) + 2)) s
         else if ty AND 0xC0 = 0 then ext_options (off + (ubuf s (p + 1) + 2)) s
         else if ty AND 0xC0 = 0x40 \<or> (ty AND 0xC0 = 0xC0 \<and> uip_is_addr_mcast (ip_dst (ubuf s))) then Some (1, s)
         else Some (2, uip_icmp6_error_output ICMP6_PARAM_PROB 2 (40 + ucast (uext s) + ucast off) s))
      else Some (0, s))"

definition ext_hdr_options_process :: "stack \<Rightarrow> (nat \<times> stack) option" where
  "ext_hdr_options_process s = ext_options 2 s"

section \<open>Routing header\<close>

datatype verdict = Drop | Send | To_udp | To_icmp6 | Again

text \<open>The fields of \<open>UIP_ROUTING_BUF\<close> at offset \<open>h\<close>.\<close>

definition rh_cmpri :: "nat \<Rightarrow> (nat \<Rightarrow> u8) \<Rightarrow> nat" where "rh_cmpri h m = unat (drop_bit 4 (m (h + 4)))"
definition rh_cmpre :: "nat \<Rightarrow> (nat \<Rightarrow> u8) \<Rightarrow> nat" where "rh_cmpre h m = unat (m (h + 4) AND 0x0f)"

text \<open>Division of C truncates; the number of addresses is truncated to eight bits.\<close>

definition rh_count :: "nat \<Rightarrow> (nat \<Rightarrow> u8) \<Rightarrow> u8" where
  "rh_count h m =
     (let a = int (unat (m (h + 1))) * 8 - int (unat (drop_bit 4 (m (h + 5)))) - 16 + int (rh_cmpre h m);
          d = 16 - int (rh_cmpri h m);
          q = (if a < 0 then - ((- a) div d) else a div d)
      in word_of_int (q + 1))"

text \<open>Offset of the \<open>i\<close>-th address, counted from 1, the prefix it omits and its value
  relative to the destination address.\<close>

definition rh_pos :: "nat \<Rightarrow> (nat \<Rightarrow> u8) \<Rightarrow> u8 \<Rightarrow> nat" where
  "rh_pos h m i = (let w = 16 - rh_cmpri h m in h + 8 + unat i * w - w)"

definition rh_cmpr :: "nat \<Rightarrow> (nat \<Rightarrow> u8) \<Rightarrow> u8 \<Rightarrow> u8 \<Rightarrow> nat" where
  "rh_cmpr h m n i = (if i = n then rh_cmpre h m else rh_cmpri h m)"

definition rh_addr :: "nat \<Rightarrow> (nat \<Rightarrow> u8) \<Rightarrow> u8 \<Rightarrow> u8 \<Rightarrow> ipaddr" where
  "rh_addr h m n i = (let c = rh_cmpr h m n i in bget m 24 c @ bget m (rh_pos h m i) (16 - c))"

text \<open>Are two addresses of the vector assigned to this node, with another one between them?\<close>

partial_function (option) rh_scan :: "u8 \<Rightarrow> u8 \<Rightarrow> u8 \<Rightarrow> stack \<Rightarrow> bool option" where
  "rh_scan n ii il s =
     (if ii \<le> n then
        (if uip_ds6_is_my_addr (rh_addr (l3_hdr s) (ubuf s) n ii) (nd s)
         then (if 0 < il \<and> unat il + 1 < unat ii then Some True else rh_scan n (ii + 1) ii s)
         else rh_scan n (ii + 1) il s)
      else Some False)"

text \<open>A routing header of type 4 whose \<open>seg_left\<close> is not 0.\<close>

definition rh4_process :: "stack \<Rightarrow> (verdict \<times> stack) option" where
  "rh4_process s0 =
     (let h = l3_hdr s0; n = rh_count h (ubuf s0) in
      if n < ubuf s0 (h + 3)
      then Some (Send, uip_icmp6_error_output ICMP6_PARAM_PROB 0 (40 + ucast (uext s0) + 3) s0)
      else
        (let s = upd_buf (\<lambda>m. m(h + 3 := m (h + 3) - 1)) s0;
             i = n - ubuf s (h + 3);
             c = rh_cmpr h (ubuf s) n i;
             a = rh_addr h (ubuf s) n i;
             dst = ip_dst (ubuf s)
         in if uip_is_addr_mcast a \<or> uip_is_addr_mcast dst then Some (Drop, s)
         else Option.bind (rh_scan n 1 0 s) (\<lambda>loop.
           if loop then Some (Drop, s)
           else if i < n \<and> \<not> uip_ds6_is_addr_onlink a (nd s)
           then Some (Send, uip_icmp6_error_output ICMP6_DST_UNREACH 7 0 s)
           else if ubuf s 7 \<le> 1
           then Some (Send, uip_icmp6_error_output ICMP6_TIME_EXCEEDED 0 0 s)
           else
             (let s = upd_buf (\<lambda>m. bset (rh_pos h m i) (drop c dst) (bset 24 a (m(7 := m 7 - 1)))) s
              in Some (if uip_ds6_is_my_addr a (nd s) then Again else Send, s)))))"

section \<open>Chain of headers\<close>

text \<open>\<open>p\<close> is \<open>uip_next_hdr\<close>: the offset of the byte that holds the type of the next header,
  which begins at \<open>l3_hdr\<close>.\<close>

definition ext_skip :: "stack \<Rightarrow> stack" where
  "ext_skip s = s\<lparr>uext := uext s + (push_bit 3 (ubuf s (l3_hdr s + 1)) + 8)\<rparr>"

partial_function (option) ext_headers :: "nat \<Rightarrow> stack \<Rightarrow> (verdict \<times> stack) option" where
  "ext_headers p s =
     (let t = ubuf s p in
      if t = UIP_PROTO_UDP then Some (To_udp, s)
      else if t = UIP_PROTO_ICMP6 then Some (To_icmp6, s)
      else if t = UIP_PROTO_HBHO \<or> t = UIP_PROTO_DESTO then
        Option.bind (ext_hdr_options_process s) (\<lambda>r.
          if fst r = 0 then ext_headers (l3_hdr (snd r)) (ext_skip (snd r))
          else Some (if fst r = 1 then Drop else Send, snd r))
      else if t = UIP_PROTO_ROUTING then
        (if ubuf s (l3_hdr s + 3) = 0 then ext_headers (l3_hdr s) (ext_skip s)
         else if ubuf s (l3_hdr s + 2) = 4 then rh4_process s
         else Some (Send, uip_icmp6_error_output ICMP6_PARAM_PROB 0 (40 + ucast (uext s) + 2) s))
      else if t = UIP_PROTO_FRAG \<or> t = UIP_PROTO_NONE then Some (Drop, s)
      else Some (Send, uip_icmp6_error_output ICMP6_PARAM_PROB 1 (of_nat p) s))"

section \<open>IPv6 header\<close>

definition ip_input :: "stack \<Rightarrow> (verdict \<times> stack) option" where
  "ip_input s0 =
     (let m = ubuf s0; src = ip_src m; dst = ip_dst m in
      if m 0 AND 0xf0 \<noteq> 0x60 then Some (Drop, s0)
      else if ulen s0 < ip_len m then Some (Drop, s0)
      else
        (let s = s0\<lparr>ulen := ip_len m + UIP_IPH_LEN\<rparr> in
         if uip_is_addr_mcast src then Some (Drop, s)
         else if \<not> uip_ds6_is_my_addr dst (nd s) \<and> uip_ds6_maddr_lookup dst (nd s) = None then
           (if \<not> uip_is_addr_mcast dst \<and> \<not> uip_is_addr_link_local dst \<and> \<not> uip_is_addr_link_local src
               \<and> \<not> uip_is_addr_unspecified src \<and> \<not> uip_is_addr_loopback dst then
              (if UIP_LINK_MTU < ulen s
               then Some (Send, uip_icmp6_error_output ICMP6_PACKET_TOO_BIG 0 (ucast UIP_LINK_MTU) s)
               else if m 7 \<le> 1
               then Some (Send, uip_icmp6_error_output ICMP6_TIME_EXCEEDED 0 0 s)
               else Some (Send, upd_buf (\<lambda>m. m(7 := m 7 - 1)) s))
            else if uip_is_addr_link_local src \<and> \<not> uip_is_addr_unspecified src \<and> \<not> uip_is_addr_loopback dst
               \<and> \<not> uip_is_addr_mcast dst \<and> \<not> uip_ds6_is_addr_onlink dst (nd s)
            then Some (Send, uip_icmp6_error_output ICMP6_DST_UNREACH 2 0 s)
            else Some (Drop, s))
         else ext_headers 6 (s\<lparr>uext := 0\<rparr>)))"

section \<open>UDP\<close>

definition uip_drop :: "stack \<Rightarrow> stack" where
  "uip_drop s = s\<lparr>ulen := 0, uext := 0\<rparr>"

text \<open>The code at the label \<open>udp_send\<close>, for the connection \<open>uip_udp_conn\<close>.\<close>

definition udp_send :: "nat \<Rightarrow> stack \<Rightarrow> stack" where
  "udp_send i s0 =
     (if uslen s0 = 0 then uip_drop s0
      else
        (let c = udp_conns s0 ! i; h = l3_hdr s0; n = uslen s0;
             s = s0\<lparr>ulen := n + 48\<rparr>;
             s = upd_buf (\<lambda>m. (set_ip_len (n + 48 - UIP_IPH_LEN) m)(7 := u_ttl c, 6 := UIP_PROTO_UDP)) s;
             s = upd_buf (\<lambda>m. store16 (h + 2) (u_rport c) (store16 h (u_lport c)
                   (store16 (h + 6) 0 (store16 (h + 4) (uip_htons (n + 8)) m)))) s;
             s = upd_buf (bset 24 (u_ripaddr c)) s;
             s = upd_buf (bset 8 (uip_ds6_select_src (u_ripaddr c) (nd s))) s
         in upd_buf ip_version s))"

definition udp_match :: "u16 \<Rightarrow> u16 \<Rightarrow> ipaddr \<Rightarrow> udp_conn \<Rightarrow> bool" where
  "udp_match srcport destport src c \<longleftrightarrow>
     u_lport c \<noteq> 0 \<and> destport = u_lport c \<and> (u_rport c = 0 \<or> srcport = u_rport c)
     \<and> (uip_is_addr_unspecified (u_ripaddr c) \<or> uip_ipaddr_cmp src (u_ripaddr c))"

definition udp_input :: "(nat \<Rightarrow> stack \<Rightarrow> stack) \<Rightarrow> stack \<Rightarrow> stack" where
  "udp_input app s0 =
     (let h = l3_hdr s0; s = s0\<lparr>ulen := ulen s0 - 48\<rparr> in
      if load16 (h + 2) (ubuf s) = 0 then uip_drop s
      else
        (case first_index (udp_match (load16 h (ubuf s)) (load16 (h + 2) (ubuf s)) (ip_src (ubuf s))) (udp_conns s) 0 of
           None \<Rightarrow> uip_drop s
         | Some i \<Rightarrow> udp_send i (app i (s\<lparr>ulen := ulen s - ucast (uext s), uslen := 0\<rparr>))))"

text \<open>\<open>uip_udp_periodic_conn\<close>: \<open>uip_process\<close> for a poll of a connection.\<close>

definition uip_udp_periodic_conn :: "(nat \<Rightarrow> stack \<Rightarrow> stack) \<Rightarrow> nat \<Rightarrow> stack \<Rightarrow> stack" where
  "uip_udp_periodic_conn app i s =
     (if u_lport (udp_conns s ! i) \<noteq> 0 then udp_send i (app i (s\<lparr>ulen := 0, uslen := 0\<rparr>)) else uip_drop s)"

section \<open>ICMPv6\<close>

text \<open>The packet as \<open>rpl-icmp6.c\<close> reads it from the buffer.\<close>

definition rpl_packet :: "stack \<Rightarrow> packet" where
  "rpl_packet s =
     \<lparr>k_src = ip_src (ubuf s), k_dest = ip_dst (ubuf s), k_code = ubuf s (l3_hdr s + 1),
      k_buf = (\<lambda>i. ubuf s (icmp_hdr s + i)), k_len = ucast (ulen s - of_nat (icmp_hdr s)),
      k_sender = usender s\<rparr>"

text \<open>A message that is left in the buffer: the code writes the addresses, the lengths and
  the checksum. It does not count extension headers, which is recorded as a fault.\<close>

definition rpl_reply :: "ipaddr \<Rightarrow> ipaddr \<Rightarrow> u8 \<Rightarrow> bytes \<Rightarrow> stack \<Rightarrow> stack" where
  "rpl_reply src dst code payload s0 =
     (let s = (if uext s0 = 0 then s0 else upd_nd set_fault s0);
          n = of_nat (length payload);
          s = upd_buf (\<lambda>m. bset (icmp_hdr s) payload (bset 8 src (bset 24 dst
                ((set_ip_len (n + 4) m)(l3_hdr s + 1 := code))))) s
      in (write_icmp6chksum s)\<lparr>ulen := n + 44\<rparr>)"

definition rpl_input :: "stack \<Rightarrow> stack" where
  "rpl_input s =
     (let r = rpl_dispatch (rpl_packet s) (learn_sender (rpl_packet s) (nd s));
          s' = node_event (\<lambda>_. snd r) s
      in case fst r of
           Some (Buf_send src dst code payload) \<Rightarrow> rpl_reply src dst code payload s'
         | _ \<Rightarrow> s'\<lparr>ulen := 0\<rparr>)"

definition icmp6_input :: "stack \<Rightarrow> stack option" where
  "icmp6_input s0 =
     (let t = ubuf s0 (l3_hdr s0);
          r = (if t = ICMP6_NS then uip_nd6_ns_input s0
               else if t = ICMP6_NA then uip_nd6_na_input s0
               else if t = ICMP6_RPL then Some (rpl_input s0)
               else if t = ICMP6_ECHO_REQUEST then Some (uip_icmp6_echo_request_input s0)
               else Some (s0\<lparr>ulen := 0\<rparr>))
      in map_option (\<lambda>s. if 0 < ulen s then s else uip_drop s) r)"

section \<open>The processing of a packet\<close>

text \<open>The recursive call of the code is the verdict \<open>Again\<close>.\<close>

partial_function (option) uip_process :: "(nat \<Rightarrow> stack \<Rightarrow> stack) \<Rightarrow> stack \<Rightarrow> stack option" where
  "uip_process app s =
     Option.bind (ip_input s) (\<lambda>r.
       if fst r = Again then uip_process app (snd r)
       else if fst r = Drop then Some (uip_drop (snd r))
       else if fst r = Send then Some (snd r)
       else if fst r = To_udp then Some (udp_input app (snd r))
       else icmp6_input (snd r))"

section \<open>Entry points\<close>

text \<open>\<open>packet_input\<close> of \<open>tcpip.c\<close>, without \<open>check_for_tcp_syn\<close>, which restarts an event timer
  that nothing but TCP uses, and \<open>tcpip_input\<close>.\<close>

definition packet_input :: "(nat \<Rightarrow> stack \<Rightarrow> stack) \<Rightarrow> stack \<Rightarrow> stack option" where
  "packet_input app s =
     (if ulen s = 0 then Some s
      else map_option (\<lambda>s. if 0 < ulen s then tcpip_ipv6_output s else s) (uip_process app s))"

definition tcpip_input :: "(nat \<Rightarrow> stack \<Rightarrow> stack) \<Rightarrow> stack \<Rightarrow> stack option" where
  "tcpip_input app s = map_option (\<lambda>s. s\<lparr>ulen := 0, uext := 0\<rparr>) (packet_input app s)"

text \<open>A frame from the link layer: the packet is copied to the buffer.\<close>

definition load_frame :: "bytes \<Rightarrow> bytes \<Rightarrow> stack \<Rightarrow> stack" where
  "load_frame sender f s = upd_buf (bset 0 f) (s\<lparr>ulen := of_nat (length f), usender := sender\<rparr>)"

definition frame_input :: "(nat \<Rightarrow> stack \<Rightarrow> stack) \<Rightarrow> bytes \<Rightarrow> bytes \<Rightarrow> stack \<Rightarrow> stack option" where
  "frame_input app sender f s = tcpip_input app (load_frame sender f s)"

text \<open>\<open>uip_udp_packet_send\<close>. The length of the copy is bounded by the size of the buffer,
  not by the room behind the headers.\<close>

definition uip_udp_packet_send :: "nat \<Rightarrow> bytes \<Rightarrow> stack \<Rightarrow> stack" where
  "uip_udp_packet_send c data s0 =
     (let s = s0\<lparr>uext := 0, uslen := of_nat (length data)\<rparr>;
          n = (if UIP_BUFSIZE < length data then UIP_BUFSIZE else length data);
          s = chk_buf (48 + n) s;
          s = upd_buf (bset 48 (take n data)) s
      in (tcpip_ipv6_output (udp_send c s))\<lparr>uslen := 0\<rparr>)"

definition uip_udp_packet_sendto :: "nat \<Rightarrow> bytes \<Rightarrow> ipaddr option \<Rightarrow> u16 \<Rightarrow> stack \<Rightarrow> stack" where
  "uip_udp_packet_sendto c data toaddr toport s0 =
     (case toaddr of
        None \<Rightarrow> s0
      | Some a \<Rightarrow>
          (let old = udp_conns s0 ! c;
               s = s0\<lparr>udp_conns := updf c (\<lambda>u. u\<lparr>u_ripaddr := a, u_rport := toport\<rparr>) (udp_conns s0)\<rparr>;
               s = uip_udp_packet_send c data s
           in s\<lparr>udp_conns := updf c (\<lambda>u. u\<lparr>u_ripaddr := u_ripaddr old, u_rport := u_rport old\<rparr>) (udp_conns s)\<rparr>))"

text \<open>\<open>uip_udp_new\<close>: the search for a local port starts over on a clash. There are fewer
  connections than ports, so \<open>length + 1\<close> attempts suffice.\<close>

definition next_port :: "u16 \<Rightarrow> u16" where
  "next_port p = (if 32000 \<le> p + 1 then 4096 else p + 1)"

fun free_port :: "nat \<Rightarrow> udp_conn list \<Rightarrow> u16 \<Rightarrow> u16" where
  "free_port 0 cs p = p"
| "free_port (Suc k) cs p =
     (let q = next_port p in if list_ex (\<lambda>c. u_lport c = uip_htons q) cs then free_port k cs q else q)"

definition uip_udp_new :: "ipaddr option \<Rightarrow> u16 \<Rightarrow> stack \<Rightarrow> nat option \<times> stack" where
  "uip_udp_new ripaddr rport s0 =
     (let q = free_port (length (udp_conns s0) + 1) (udp_conns s0) (lastport s0);
          s = s0\<lparr>lastport := q\<rparr>
      in case first_index (\<lambda>c. u_lport c = 0) (udp_conns s) 0 of
           None \<Rightarrow> (None, s)
         | Some i \<Rightarrow> (Some i, s\<lparr>udp_conns := updf i (\<lambda>c. c\<lparr>u_lport := uip_htons q, u_rport := rport,
               u_ripaddr := (case ripaddr of None \<Rightarrow> addr0 | Some a \<Rightarrow> a), u_ttl := cur_hop_limit (nd s)\<rparr>)
               (udp_conns s)\<rparr>))"

end
