(* ===== verification/Uip_Tcpip.thy ===== *)
theory Uip_Tcpip
  imports Uip_Process
begin

text \<open>
  \<open>tcpip_process\<close>, \<open>core/net/tcpip.c\<close>: the connections of processes and the events of the
  stack. A process is a number; the thread of a process that gets \<open>tcpip_event\<close> is the
  parameter \<open>th\<close>, a function of the process, the state of the connection and the stack.
\<close>

section \<open>Connections\<close>

text \<open>\<open>PROCESS_CURRENT()\<close> is the argument \<open>p\<close>.\<close>

definition udp_attach :: "nat \<Rightarrow> nat \<Rightarrow> nat \<Rightarrow> stack \<Rightarrow> stack" where
  "udp_attach p i st s = s\<lparr>udp_conns := updf i (\<lambda>c. c\<lparr>u_proc := Some p, u_state := st\<rparr>) (udp_conns s)\<rparr>"

definition udp_new :: "nat \<Rightarrow> ipaddr option \<Rightarrow> u16 \<Rightarrow> nat \<Rightarrow> stack \<Rightarrow> nat option \<times> stack" where
  "udp_new p ripaddr port st s =
     (case uip_udp_new ripaddr port s of
        (None, s) \<Rightarrow> (None, s)
      | (Some i, s) \<Rightarrow> (Some i, udp_attach p i st s))"

definition udp_bind :: "nat \<Rightarrow> u16 \<Rightarrow> stack \<Rightarrow> stack" where
  "udp_bind i port s = s\<lparr>udp_conns := updf i (\<lambda>c. c\<lparr>u_lport := port\<rparr>) (udp_conns s)\<rparr>"

definition udp_broadcast_new :: "nat \<Rightarrow> u16 \<Rightarrow> nat \<Rightarrow> stack \<Rightarrow> nat option \<times> stack" where
  "udp_broadcast_new p port st s =
     (case udp_new p (Some uip_create_linklocal_allnodes_mcast) port st s of
        (None, s) \<Rightarrow> (None, s)
      | (Some i, s) \<Rightarrow> (Some i, udp_bind i port s))"

text \<open>The application of a connection is a synchronous event for its process.\<close>

definition tcpip_uipcall :: "(nat \<Rightarrow> nat \<Rightarrow> stack \<Rightarrow> stack) \<Rightarrow> nat \<Rightarrow> stack \<Rightarrow> stack" where
  "tcpip_uipcall th i s =
     (case u_proc (udp_conns s ! i) of
        None \<Rightarrow> s
      | Some p \<Rightarrow> th p (u_state (udp_conns s ! i)) s)"

section \<open>Events\<close>

text \<open>The connections of a process that exited are closed.\<close>

definition udp_close_process :: "nat \<Rightarrow> stack \<Rightarrow> stack" where
  "udp_close_process p s =
     s\<lparr>udp_conns := map (\<lambda>c. if u_proc c = Some p then c\<lparr>u_lport := 0\<rparr> else c) (udp_conns s)\<rparr>"

datatype tcpip_event =
    Process_exited nat
  | Ds6_timer
  | Udp_poll "nat option"
  | Packet_input

text \<open>\<open>Ds6_timer\<close> is the event of the periodic timer of DS6 when it has expired. The other
  timers and events belong to TCP, to reassembly and to hosts.\<close>

definition eventhandler :: "(nat \<Rightarrow> nat \<Rightarrow> stack \<Rightarrow> stack) \<Rightarrow> tcpip_event \<Rightarrow> stack \<Rightarrow> stack option" where
  "eventhandler th ev s =
     (case ev of
        Process_exited p \<Rightarrow> Some (udp_close_process p s)
      | Ds6_timer \<Rightarrow> Some (ds6_timer_event s)
      | Udp_poll None \<Rightarrow> Some s
      | Udp_poll (Some i) \<Rightarrow> Some (tcpip_ipv6_output (uip_udp_periodic_conn (tcpip_uipcall th) i s))
      | Packet_input \<Rightarrow> packet_input (tcpip_uipcall th) s)"

section \<open>Initialisation\<close>

definition uip_init :: "stack \<Rightarrow> stack" where
  "uip_init s =
     (upd_nd uip_ds6_init s)\<lparr>lastport := 1024, udp_conns := map (\<lambda>c. c\<lparr>u_lport := 0\<rparr>) (udp_conns s)\<rparr>"

definition tcpip_init :: "stack \<Rightarrow> stack" where
  "tcpip_init s = upd_nd rpl_init (uip_init s)"

end
