(* ===== verification/Uip_Packet_Laws.thy ===== *)
theory Uip_Packet_Laws
  imports Uip_Process
begin

text \<open>
  Laws of the packet buffer: what an access finds after an update, packets as lists of bytes,
  and the Internet checksum as a sum modulo 65535.
\<close>

section \<open>Memory\<close>

lemma length_bget [simp]: "length (bget m p n) = n"
  by (simp add: bget_def)

lemma nth_bget [simp]: "i < n \<Longrightarrow> bget m p n ! i = m (p + i)"
  by (simp add: bget_def)

lemma bget_0 [simp]: "bget m p 0 = []"
  by (simp add: bget_def)

lemma bget_Suc: "bget m p (Suc n) = m p # bget m (Suc p) n"
  by (rule nth_equalityI) (auto simp: nth_Cons split: nat.split)

lemma bget_split: "bget m p (a + b) = bget m p a @ bget m (p + a) b"
  by (rule nth_equalityI) (auto simp: nth_append)

lemma bget_eqI: "(\<And>i. i < n \<Longrightarrow> m (p + i) = m' (q + i)) \<Longrightarrow> bget m p n = bget m' q n"
  by (rule nth_equalityI) simp_all

lemma bytes_at_iff: "bytes_at m p bs \<longleftrightarrow> bget m p (length bs) = bs"
  by (auto simp: bytes_at_nth list_eq_iff_nth_eq)

lemma bset_nth: "bset p bs m i = (if p \<le> i \<and> i < p + length bs then bs ! (i - p) else m i)"
  by (simp add: bset_def)

lemma bset_outside [simp]: "i < p \<or> p + length bs \<le> i \<Longrightarrow> bset p bs m i = m i"
  by (auto simp: bset_def)

lemma bget_bset_same: "length bs = n \<Longrightarrow> bget (bset p bs m) p n = bs"
  by (rule nth_equalityI) (simp_all add: bset_nth)

lemma bget_bset_other: "q + n \<le> p \<or> p + length bs \<le> q \<Longrightarrow> bget (bset p bs m) q n = bget m q n"
  by (rule bget_eqI) auto

lemma bget_upd_other: "i < q \<or> q + n \<le> i \<Longrightarrow> bget (m(i := x)) q n = bget m q n"
  by (rule bget_eqI) auto

lemma bget_store16_other: "Suc i < q \<or> q + n \<le> i \<Longrightarrow> bget (store16 i x m) q n = bget m q n"
  by (rule bget_eqI) (auto simp: store16_def)

lemma bget_ip_len_other: "5 < q \<or> q + n \<le> 4 \<Longrightarrow> bget (set_ip_len x m) q n = bget m q n"
  by (rule bget_eqI) (auto simp: set_ip_len_def)

lemma bget_version_other: "3 < q \<Longrightarrow> bget (ip_version m) q n = bget m q n"
  by (rule bget_eqI) (auto simp: ip_version_def)

lemma bget_memmove_same: "bget (memmove d p n m) d n = bget m p n"
  by (rule bget_eqI) (simp add: memmove_def)

lemma bget_memmove_other: "q + k \<le> d \<or> d + n \<le> q \<Longrightarrow> bget (memmove d p n m) q k = bget m q k"
  by (rule bget_eqI) (auto simp: memmove_def)

lemmas bget_other = bget_bset_other bget_upd_other bget_store16_other bget_ip_len_other bget_version_other
  bget_memmove_other

lemma bytes_at_other: "bget m' p (length bs) = bget m p (length bs) \<Longrightarrow> bytes_at m' p bs = bytes_at m p bs"
  by (simp add: bytes_at_iff)

lemma bytes_at_upd: "bytes_at m p bs \<Longrightarrow> i < length bs \<Longrightarrow> bytes_at (m(p + i := x)) p (bs[i := x])"
  by (simp add: bytes_at_nth nth_list_update)

lemma bytes_at_bset:
  assumes "bytes_at m p (as @ bs @ cs)" "length bs' = length bs" "q = p + length as"
  shows "bytes_at (bset q bs' m) p (as @ bs' @ cs)"
proof -
  have "bytes_at m p as" "bytes_at m (q + length bs) cs" using assms by (simp_all add: bytes_at_append add.assoc)
  then have "bytes_at (bset q bs' m) p as" "bytes_at (bset q bs' m) (q + length bs) cs"
    using assms(2,3) by (simp_all add: bytes_at_iff bget_bset_other)
  moreover have "bytes_at (bset q bs' m) q bs'" by (simp add: bytes_at_iff bget_bset_same)
  ultimately show ?thesis using assms(2,3) by (simp add: bytes_at_append add.assoc)
qed

lemma bset_single: "bset p [b] m = m(p := b)"
  by (auto simp: bset_def fun_eq_iff)

lemma set_ip_len_get [simp]: "ip_len (set_ip_len n m) = n"
proof -
  have "push_bit 8 (ucast (ucast (drop_bit 8 n) :: u8)) + ucast (ucast n :: u8) = (n :: u16)"
  proof (subst disjunctive_add)
    show "push_bit 8 (ucast (ucast (drop_bit 8 n) :: u8)) OR ucast (ucast n :: u8) = n"
      by (rule bit_word_eqI) (auto simp: bit_simps)
  qed (auto simp: bit_simps)
  then show ?thesis by (simp add: ip_len_def set_ip_len_def)
qed

section \<open>Stack updates\<close>

lemma upd_buf_simps [simp]:
  "ubuf (upd_buf f s) = f (ubuf s)" "nd (upd_buf f s) = nd s" "ulen (upd_buf f s) = ulen s"
  "uext (upd_buf f s) = uext s" "uslen (upd_buf f s) = uslen s" "usender (upd_buf f s) = usender s"
  "udp_conns (upd_buf f s) = udp_conns s" "frames (upd_buf f s) = frames s" "lastport (upd_buf f s) = lastport s"
  by (simp_all add: upd_buf_def)

lemma upd_nd_simps [simp]:
  "nd (upd_nd g s) = g (nd s)" "ubuf (upd_nd g s) = ubuf s" "ulen (upd_nd g s) = ulen s"
  "uext (upd_nd g s) = uext s" "uslen (upd_nd g s) = uslen s" "usender (upd_nd g s) = usender s"
  "udp_conns (upd_nd g s) = udp_conns s" "frames (upd_nd g s) = frames s" "lastport (upd_nd g s) = lastport s"
  by (simp_all add: upd_nd_def)

lemma chk_buf_simps [simp]:
  "ubuf (chk_buf n s) = ubuf s" "ulen (chk_buf n s) = ulen s" "uext (chk_buf n s) = uext s"
  "frames (chk_buf n s) = frames s" "usender (chk_buf n s) = usender s" "udp_conns (chk_buf n s) = udp_conns s"
  by (simp_all add: chk_buf_def)

lemma chk_buf_fits [simp]: "n \<le> UIP_BUFSIZE \<Longrightarrow> chk_buf n s = s"
  by (simp add: chk_buf_def)

section \<open>IPv6 packets\<close>

text \<open>The buffer holds the IPv6 packet with these header fields and the bytes \<open>body\<close> behind
  the header.\<close>

definition ip_packet :: "(nat \<Rightarrow> u8) \<Rightarrow> ipaddr \<Rightarrow> ipaddr \<Rightarrow> u8 \<Rightarrow> u8 \<Rightarrow> bytes \<Rightarrow> bool" where
  "ip_packet m src dst ttl proto body \<longleftrightarrow>
     m 0 AND 0xf0 = 0x60 \<and> ip_src m = src \<and> ip_dst m = dst \<and> m 7 = ttl \<and> m 6 = proto
     \<and> ip_len m = of_nat (length body) \<and> bytes_at m 40 body"

lemma ip_packet_cong:
  assumes "\<And>i. i < 40 + length body \<Longrightarrow> m' i = m i"
  shows "ip_packet m' src dst ttl proto body = ip_packet m src dst ttl proto body"
proof -
  have "bget m' 8 16 = bget m 8 16" "bget m' 24 16 = bget m 24 16"
    "bget m' 40 (length body) = bget m 40 (length body)"
    by (rule bget_eqI; simp add: assms)+
  moreover have "m' 0 = m 0" "m' 7 = m 7" "m' 6 = m 6" "ip_len m' = ip_len m" by (simp_all add: assms ip_len_def)
  ultimately show ?thesis by (simp add: ip_packet_def ip_src_def ip_dst_def bytes_at_iff)
qed

text \<open>A frame carries the packet over to the buffer of the receiver.\<close>

lemma ip_packet_frame:
  assumes "ip_packet m src dst ttl proto body"
  shows "ip_packet (bset 0 (bget m 0 (40 + length body)) m') src dst ttl proto body"
  using ip_packet_cong [of body "bset 0 (bget m 0 (40 + length body)) m'" m src dst ttl proto] assms
  by (simp add: bset_nth)

section \<open>Checksum\<close>

text \<open>The sum of the 16-bit words of the data, as a natural number.\<close>

fun word_sum :: "bytes \<Rightarrow> nat" where
  "word_sum [] = 0"
| "word_sum [a] = 256 * unat a"
| "word_sum (a # b # bs) = 256 * unat a + unat b + word_sum bs"

text \<open>Addition in one's complement: 0 only for 0, else the representative in 1..65535.\<close>

definition ones :: "nat \<Rightarrow> nat" where
  "ones n = (if n = 0 then 0 else (n - 1) mod 65535 + 1)"

lemma ones_less [simp]: "n < 65536 \<Longrightarrow> ones n = n"
  by (cases n) (auto simp: ones_def)

lemma ones_ones_add: "ones (ones a + b) = ones (a + b)"
proof (cases "a = 0")
  case False
  then have "(a - 1) mod 65535 + 1 + b - 1 = (a - 1) mod 65535 + b" "a + b - 1 = (a - 1) + b" by auto
  with False show ?thesis by (simp add: ones_def mod_simps)
qed (simp add: ones_def)

lemma ones_bound: "ones n < 65536"
  using mod_less_divisor [of 65535 "n - 1"] by (simp add: ones_def)

lemma add_carry:
  fixes x t :: u16
  shows "unat (if x + t < t then x + t + 1 else x + t) = ones (unat x + unat t)"
proof (cases "unat x + unat t < 65536")
  case True
  then have u: "unat (x + t) = unat x + unat t" by (simp add: unat_add_lem [THEN iffD1])
  then have "\<not> x + t < t" by (simp add: word_less_nat_alt)
  with u True show ?thesis by simp
next
  case False
  define a where "a = unat x"
  define b where "b = unat t"
  have lt: "a < 65536" "b < 65536" by (simp_all add: a_def b_def)
  have ge: "65536 \<le> a + b" using False by (simp add: a_def b_def)
  have u: "unat (x + t) = (a + b) mod 65536" by (simp add: unat_word_ariths a_def b_def)
  have m: "(a + b) mod 65536 = a + b - 65536" using ge lt by (simp add: le_mod_geq)
  have "unat (x + t) < b" using u m ge lt by simp
  then have less: "x + t < t" by (simp add: word_less_nat_alt b_def)
  have "unat (x + t + 1) = (unat (x + t) + 1) mod 65536" by (simp add: unat_word_ariths)
  also have "\<dots> = a + b - 65536 + 1" using u m ge lt by simp
  finally have "unat (x + t + 1) = a + b - 65536 + 1" .
  moreover have "ones (a + b) = a + b - 65536 + 1"
  proof -
    have "(a + b - 1) mod 65535 = a + b - 1 - 65535" using ge lt by (simp add: le_mod_geq)
    moreover have "a + b \<noteq> 0" using ge by linarith
    ultimately show ?thesis by (simp add: ones_def)
  qed
  ultimately show ?thesis using less by (simp add: a_def b_def)
qed

lemma unat_ucast_u8: "unat (ucast (a :: u8) :: u16) = unat a"
proof -
  have "unat a < 65536" using u8_less_256 [of a] by linarith
  then show ?thesis by (simp add: unsigned_ucast_eq take_bit_eq_mod del: u8_less_256)
qed

lemma word_of_bytes: "unat (push_bit 8 (ucast (a :: u8)) + ucast (b :: u8) :: u16) = 256 * unat a + unat b"
proof -
  have lt: "unat a * 256 < 65536" "unat a * 256 + unat b < 65536"
    using u8_less_256 [of a] u8_less_256 [of b] by linarith+
  have "unat (push_bit 8 (ucast a) :: u16) = unat a * 256 mod 65536"
    by (simp add: push_bit_eq_mult unat_word_ariths unat_ucast_u8)
  with lt show ?thesis by (simp add: unat_word_ariths unat_ucast_u8)
qed

text \<open>The loop of the code computes the one's complement sum of the words (RFC 1071).\<close>

lemma chksum_ones: "unat (chksum acc bs) = ones (unat acc + word_sum bs)"
proof (induction acc bs rule: chksum.induct)
  case (1 acc)
  then show ?case by simp
next
  case (2 acc a)
  have "unat (push_bit 8 (ucast a) :: u16) = 256 * unat a" using word_of_bytes [of a 0] by simp
  then show ?case using add_carry [of acc "push_bit 8 (ucast a)"] by (simp add: Let_def)
next
  case (3 acc a b bs)
  show ?case
    using 3 [OF refl refl] add_carry [of acc "push_bit 8 (ucast a) + ucast b"]
    by (simp add: Let_def word_of_bytes ones_ones_add add.assoc del: ones_less)
qed

lemma word_sum_append: "even (length as) \<Longrightarrow> word_sum (as @ bs) = word_sum as + word_sum bs"
  by (induction as rule: word_sum.induct) auto

section \<open>The ICMPv6 checksum\<close>

lemma unat_not_u16: "unat (NOT (v :: u16)) = 65535 - unat v"
proof -
  have "NOT v = - 1 - v" by (simp add: not_eq_complement)
  moreover have "unat (- 1 :: u16) = 65535" by (simp add: unsigned_minus_1_eq_mask mask_eq_exp_minus_1)
  moreover have "unat v < 65536" by (rule u16_less)
  ultimately show ?thesis by (simp add: unat_minus_word le_mod_geq del: u16_less)
qed

text \<open>The two bytes of a stored checksum, read in network byte order.\<close>

lemma stored_chksum:
  "256 * unat (ucast (NOT (uip_htons v)) :: u8) + unat (ucast (drop_bit 8 (NOT (uip_htons v))) :: u8) = 65535 - unat v"
proof -
  let ?x = "ucast (NOT (uip_htons v)) :: u8" and ?y = "ucast (drop_bit 8 (NOT (uip_htons v))) :: u8"
  have "push_bit 8 (ucast ?x) + ucast ?y = (NOT v :: u16)"
  proof (subst disjunctive_add)
    show "push_bit 8 (ucast ?x) OR ucast ?y = (NOT v :: u16)"
      by (rule bit_word_eqI) (auto simp: bit_simps uip_htons_def dest: bit_imp_le_length)
  qed (auto simp: bit_simps)
  with word_of_bytes [of ?x ?y] show ?thesis by (simp add: unat_not_u16)
qed

text \<open>The code's checksum of a message of which \<open>d\<close> are the bytes and \<open>p\<close> the sum over the
  pseudo-header.\<close>

lemma upper_layer_chksum_eq:
  "upper_layer_chksum proto s =
     (let n = ip_len (ubuf s) - ucast (uext s);
          v = ones (unat (n + ucast proto) + word_sum (bget (ubuf s) 8 32) + word_sum (bget (ubuf s) (l3_hdr s) (unat n)))
      in if v = 0 then 0xffff else uip_htons (of_nat v))"
proof -
  let ?n = "ip_len (ubuf s) - ucast (uext s) :: u16"
  let ?c = "chksum (chksum (?n + ucast proto) (bget (ubuf s) 8 32)) (bget (ubuf s) (l3_hdr s) (unat ?n))"
  have v: "unat ?c = ones (unat (?n + ucast proto) + word_sum (bget (ubuf s) 8 32) + word_sum (bget (ubuf s) (l3_hdr s) (unat ?n)))"
    by (simp add: chksum_ones ones_ones_add del: ones_less)
  have "?c = of_nat (unat ?c)" "?c = 0 \<longleftrightarrow> unat ?c = 0" by (simp_all add: unat_eq_0)
  with v show ?thesis by (simp add: upper_layer_chksum_def Let_def)
qed

text \<open>A message whose checksum was just written passes the receiver's check.\<close>

lemma icmp6chksum_sum:
  assumes "ip_len (ubuf s) = L" "uext s = e" "word_sum (bget (ubuf s) 8 32) = a"
    "word_sum (bget (ubuf s) (40 + unat e) (unat (L - ucast e))) = b"
    "P = unat (L - ucast e + ucast UIP_PROTO_ICMP6 :: u16) + a + b"
  shows "uip_icmp6chksum s = (if ones P = 0 then 0xffff else uip_htons (of_nat (ones P)))"
  using assms by (simp add: uip_icmp6chksum_def upper_layer_chksum_eq l3_hdr_def Let_def del: ones_less)

lemma write_chksum_verifies:
  assumes "4 \<le> unat (ip_len (ubuf s) - ucast (uext s) :: u16)"
  shows "uip_icmp6chksum (write_icmp6chksum s) = 0xffff"
proof -
  define h where "h = 40 + unat (uext s)"
  define L where "L = ip_len (ubuf s)"
  define n where "n = unat (L - ucast (uext s) :: u16)"
  define m0 where "m0 = store16 (h + 2) 0 (ubuf s)"
  define s0 where "s0 = s\<lparr>ubuf := m0\<rparr>"
  define c where "c = uip_icmp6chksum s0"
  define m1 where "m1 = store16 (h + 2) (NOT c) m0"
  have h: "40 \<le> h" by (simp add: h_def)
  have w: "write_icmp6chksum s = s\<lparr>ubuf := m1\<rparr>"
    by (simp add: write_icmp6chksum_def m1_def m0_def c_def s0_def h_def l3_hdr_def Let_def upd_buf_def)
  have len: "ip_len m0 = L" "ip_len m1 = L"
    using h by (simp_all add: ip_len_def m0_def m1_def store16_def L_def)
  have hdr: "bget m0 8 32 = bget (ubuf s) 8 32" "bget m1 8 32 = bget (ubuf s) 8 32"
    using h by (simp_all add: m0_def m1_def bget_store16_other)
  define k where "k = n - 4"
  have k: "n = 4 + k" using assms by (simp add: n_def k_def L_def)
  have data: "bget m p n = m p # m (p + 1) # m (p + 2) # m (p + 3) # bget m (p + 4) k" for m p
    unfolding k bget_split by (simp add: bget_def eval_nat_numeral)
  have rest: "bget m0 (h + 4) k = bget (ubuf s) (h + 4) k" "bget m1 (h + 4) k = bget (ubuf s) (h + 4) k"
    by (simp_all add: m0_def m1_def bget_store16_other)
  define W where "W = 256 * unat (ubuf s h) + unat (ubuf s (h + 1)) + word_sum (bget (ubuf s) (h + 4) k)"
  define f where "f = 256 * unat (ucast (NOT c) :: u8) + unat (ucast (drop_bit 8 (NOT c)) :: u8)"
  have d0: "word_sum (bget m0 h n) = W"
    by (simp add: data rest W_def) (simp add: m0_def store16_def)
  have d1: "word_sum (bget m1 h n) = W + f"
    by (simp add: data rest W_def f_def) (simp add: m1_def m0_def store16_def)
  define P where "P = unat (L - ucast (uext s) + ucast UIP_PROTO_ICMP6 :: u16) + word_sum (bget (ubuf s) 8 32) + W"
  have c: "c = (if ones P = 0 then 0xffff else uip_htons (of_nat (ones P)))"
    unfolding c_def
    by (rule icmp6chksum_sum [where L = L and e = "uext s"])
      (use len hdr d0 in \<open>simp_all add: s0_def P_def n_def [symmetric] h_def [symmetric]\<close>)
  have "uip_icmp6chksum (s\<lparr>ubuf := m1\<rparr>) = (if ones (P + f) = 0 then 0xffff else uip_htons (of_nat (ones (P + f))))"
    by (rule icmp6chksum_sum [where L = L and e = "uext s"])
      (use len hdr d1 in \<open>simp_all add: P_def n_def [symmetric] h_def [symmetric]\<close>)
  moreover have "ones (P + f) = 0 \<or> ones (P + f) = 65535"
  proof (cases "P = 0")
    case True
    then have "c = 0xffff" using c by (simp add: ones_def)
    then have "f = 0" by (simp add: f_def)
    with True show ?thesis by (simp add: ones_def)
  next
    case False
    have pos: "ones P \<noteq> 0" using False by (simp add: ones_def)
    have "f = 65535 - unat (of_nat (ones P) :: u16)"
      using c pos stored_chksum [of "of_nat (ones P)"] by (simp add: f_def)
    also have "unat (of_nat (ones P) :: u16) = ones P" by (rule u16_of_nat) (rule ones_bound)
    finally have f: "f = 65535 - ones P" .
    have "ones (P + f) = ones (ones P + f)" by (simp add: ones_ones_add)
    also have "\<dots> = 65535" using f ones_bound [of P] by simp
    finally show ?thesis by simp
  qed
  moreover have "uip_htons 65535 = 65535" by (simp add: uip_htons_def)
  ultimately show ?thesis by (auto simp: w)
qed

text \<open>The pseudo-header of RFC 2460 for a message of \<open>n\<close> bytes.\<close>

definition pseudo_header :: "ipaddr \<Rightarrow> ipaddr \<Rightarrow> nat \<Rightarrow> u8 \<Rightarrow> bytes" where
  "pseudo_header src dst n proto =
     src @ dst @ [0, 0, of_nat (n div 256), of_nat (n mod 256)] @ [0, 0, 0, proto]"

text \<open>C35: The checksum of the code, which adds 16-bit words with the carry put back after each
  addition and skips the zero words of the pseudo-header, is the one's complement sum of RFC 1071
  over the pseudo-header of RFC 2460 and the message.\<close>

theorem icmp6chksum_rfc2460:
  assumes "n = unat (ip_len (ubuf s) - ucast (uext s))" "n + 58 < 65536"
  shows "uip_icmp6chksum s = uip_htons (of_nat (ones
    (word_sum (pseudo_header (ip_src (ubuf s)) (ip_dst (ubuf s)) n UIP_PROTO_ICMP6 @ bget (ubuf s) (l3_hdr s) n))))"
proof -
  let ?n = "ip_len (ubuf s) - ucast (uext s) :: u16" and ?src = "ip_src (ubuf s)" and ?dst = "ip_dst (ubuf s)"
  have lens: "length ?src = 16" "length ?dst = 16" by (simp_all add: ip_src_def ip_dst_def)
  have b: "bget (ubuf s) 8 32 = ?src @ ?dst"
    using bget_split [of "ubuf s" 8 16 16] by (simp add: ip_src_def ip_dst_def)
  have n: "unat (?n + ucast UIP_PROTO_ICMP6) = n + 58"
    using assms by (simp add: unat_word_ariths UIP_PROTO_ICMP6_def)
  have hi: "unat (of_nat (n div 256) :: u8) = n div 256" and lo: "unat (of_nat (n mod 256) :: u8) = n mod 256"
    using assms(2) by (simp_all add: unat_of_nat take_bit_eq_mod less_mult_imp_div_less)
  have len4: "word_sum [0, 0, of_nat (n div 256), of_nat (n mod 256), 0, 0, 0, UIP_PROTO_ICMP6] = n + 58"
    using hi lo div_mult_mod_eq [of n 256] by (simp add: UIP_PROTO_ICMP6_def)
  have "word_sum (pseudo_header ?src ?dst n UIP_PROTO_ICMP6 @ bget (ubuf s) (l3_hdr s) n)
      = word_sum ((?src @ ?dst) @ [0, 0, of_nat (n div 256), of_nat (n mod 256), 0, 0, 0, UIP_PROTO_ICMP6] @ bget (ubuf s) (l3_hdr s) n)"
    by (simp add: pseudo_header_def)
  also have "\<dots> = word_sum (?src @ ?dst) + word_sum ([0, 0, of_nat (n div 256), of_nat (n mod 256), 0, 0, 0, UIP_PROTO_ICMP6] @ bget (ubuf s) (l3_hdr s) n)"
    by (rule word_sum_append) (simp add: lens)
  also have "\<dots> = word_sum (?src @ ?dst) + (n + 58) + word_sum (bget (ubuf s) (l3_hdr s) n)"
    by (subst word_sum_append) (simp_all only: len4 list.size, simp_all)
  finally have sum: "word_sum (pseudo_header ?src ?dst n UIP_PROTO_ICMP6 @ bget (ubuf s) (l3_hdr s) n)
      = word_sum (?src @ ?dst) + (n + 58) + word_sum (bget (ubuf s) (l3_hdr s) n)" .
  have pos: "ones (n + 58 + word_sum (?src @ ?dst) + word_sum (bget (ubuf s) (l3_hdr s) n)) \<noteq> 0"
    by (simp add: ones_def)
  show ?thesis
    unfolding uip_icmp6chksum_def upper_layer_chksum_eq Let_def n b sum assms(1) [symmetric]
    using pos by (simp add: ac_simps del: ones_less)
qed

theorem icmp6chksum_rfc2460_witness:
  "uip_icmp6chksum \<lparr>nd = node0 [], ubuf = (\<lambda>_. 0), ulen = 40, uext = 0, uslen = 0, usender = [], udp_conns = [], lastport = 0, frames = []\<rparr>
   = uip_htons 58"
proof -
  let ?s = "\<lparr>nd = node0 [], ubuf = (\<lambda>_. 0), ulen = 40, uext = 0, uslen = 0, usender = [], udp_conns = [], lastport = 0, frames = []\<rparr>"
  have z: "bget (\<lambda>_. 0) p n = replicate n 0" for p n by (simp add: bget_def map_replicate_const)
  have "word_sum (pseudo_header (replicate 16 0) (replicate 16 0) 0 UIP_PROTO_ICMP6 @ []) = 58" by code_simp
  then have "word_sum (pseudo_header (ip_src (ubuf ?s)) (ip_dst (ubuf ?s)) 0 UIP_PROTO_ICMP6 @ bget (ubuf ?s) (l3_hdr ?s) 0) = 58"
    by (simp only: ip_src_def ip_dst_def stack.simps z replicate_0)
  then show ?thesis
    using icmp6chksum_rfc2460 [of 0 ?s] by (simp add: ip_len_def)
qed

end
