(* ===== verification/Rpl_Frames.thy ===== *)
theory Rpl_Frames
  imports Rpl_Input
begin

text \<open>
  Three views of the state of a node, and for every operation which of them it leaves
  alone: \<open>own\<close> says which blocks of the parent pool belong to which DAG, \<open>p2v\<close> which blocks
  of the address pool belong to which partial route, \<open>srv\<close> which blocks belong to which
  source route. The operations that change a view are treated in \<open>Rpl_Invariant\<close>.
\<close>

section \<open>The views\<close>

record dag_view =
  v_used :: bool
  v_joined :: bool
  v_parents :: "nat list"
  v_pref :: "nat option"

record owners =
  w_dags :: "dag_view list"
  w_cnt :: "u8 list"
  w_owner :: "nat list"

definition dv :: "rpl_dag \<Rightarrow> dag_view" where
  "dv D = \<lparr>v_used = d_used D, v_joined = d_joined D, v_parents = d_parents D, v_pref = d_preferred_parent D\<rparr>"

definition own :: "node \<Rightarrow> owners" where
  "own s = \<lparr>w_dags = map dv (dag_table s), w_cnt = parent_cnt s, w_owner = map p_dag (parent_mem s)\<rparr>"

record p2p_view =
  z_routes :: "nat list list list"
  z_cnt :: "u8 list"
  z_links :: "nat option list"
  z_back :: "nat option list"

definition p2v :: "node \<Rightarrow> p2p_view" where
  "p2v s = \<lparr>z_routes = map q_partial_routes (dag_p2p_table s), z_cnt = p2p_addr_cnt s,
     z_links = map d_p2p (dag_table s), z_back = map q_dag (dag_p2p_table s)\<rparr>"

definition srv :: "node \<Rightarrow> src_route list \<times> u8 list \<times> ipaddr list" where
  "srv s = (map (\<lambda>r. r\<lparr>s_state := route_state0\<rparr>) (src_routing_table s), src_addr_cnt s, src_addr_mem s)"

lemma map_updf: "map h (updf i f xs) = updf i g (map h xs)" if "\<And>x. h (f x) = g (h x)"
  using that by (auto simp: updf_def map_update)

lemma map_updf_same: "(\<And>x. h (f x) = h x) \<Longrightarrow> map h (updf i f xs) = map h xs"
  by (auto simp: updf_def map_update list_update_same_conv)

text \<open>Fields that are in no view.\<close>

lemma own_fields [simp]:
  "own (s\<lparr>nbr_cache := a1\<rparr>) = own s" "own (s\<lparr>defrt_list := a2\<rparr>) = own s" "own (s\<lparr>addr_list := a3\<rparr>) = own s"
  "own (s\<lparr>maddr_list := a4\<rparr>) = own s" "own (s\<lparr>routing_table := a5\<rparr>) = own s" "own (s\<lparr>src_routing_table := a6\<rparr>) = own s"
  "own (s\<lparr>src_addr_cnt := a7\<rparr>) = own s" "own (s\<lparr>src_addr_mem := a8\<rparr>) = own s" "own (s\<lparr>rand_state := a9\<rparr>) = own s"
  "own (s\<lparr>outbox := b1\<rparr>) = own s" "own (s\<lparr>fault := b2\<rparr>) = own s" "own (s\<lparr>dag_p2p_table := b3\<rparr>) = own s"
  "own (s\<lparr>p2p_addr_mem := b4\<rparr>) = own s" "own (s\<lparr>p2p_addr_cnt := b5\<rparr>) = own s" "own (s\<lparr>p2p_instance := b6\<rparr>) = own s"
  "own (s\<lparr>dro_cache_mem := b7\<rparr>) = own s" "own (s\<lparr>dro_cache_cnt := b8\<rparr>) = own s" "own (s\<lparr>dro_cache := b9\<rparr>) = own s"
  "own (s\<lparr>dao_sequence := c1\<rparr>) = own s" "own (s\<lparr>mo_sequence := c2\<rparr>) = own s" "own (s\<lparr>mo_processes := c3\<rparr>) = own s"
  "own (s\<lparr>dio_send_ok := c4\<rparr>) = own s" "own (s\<lparr>periodic_timer := c5\<rparr>) = own s"
  by (simp_all add: own_def)

lemma p2v_fields [simp]:
  "p2v (s\<lparr>nbr_cache := a1\<rparr>) = p2v s" "p2v (s\<lparr>defrt_list := a2\<rparr>) = p2v s" "p2v (s\<lparr>addr_list := a3\<rparr>) = p2v s"
  "p2v (s\<lparr>maddr_list := a4\<rparr>) = p2v s" "p2v (s\<lparr>routing_table := a5\<rparr>) = p2v s" "p2v (s\<lparr>src_routing_table := a6\<rparr>) = p2v s"
  "p2v (s\<lparr>src_addr_cnt := a7\<rparr>) = p2v s" "p2v (s\<lparr>src_addr_mem := a8\<rparr>) = p2v s" "p2v (s\<lparr>rand_state := a9\<rparr>) = p2v s"
  "p2v (s\<lparr>outbox := b1\<rparr>) = p2v s" "p2v (s\<lparr>fault := b2\<rparr>) = p2v s" "p2v (s\<lparr>parent_mem := b3\<rparr>) = p2v s"
  "p2v (s\<lparr>p2p_addr_mem := b4\<rparr>) = p2v s" "p2v (s\<lparr>parent_cnt := b5\<rparr>) = p2v s" "p2v (s\<lparr>p2p_instance := b6\<rparr>) = p2v s"
  "p2v (s\<lparr>dro_cache_mem := b7\<rparr>) = p2v s" "p2v (s\<lparr>dro_cache_cnt := b8\<rparr>) = p2v s" "p2v (s\<lparr>dro_cache := b9\<rparr>) = p2v s"
  "p2v (s\<lparr>dao_sequence := c1\<rparr>) = p2v s" "p2v (s\<lparr>mo_sequence := c2\<rparr>) = p2v s" "p2v (s\<lparr>mo_processes := c3\<rparr>) = p2v s"
  "p2v (s\<lparr>dio_send_ok := c4\<rparr>) = p2v s" "p2v (s\<lparr>periodic_timer := c5\<rparr>) = p2v s"
  by (simp_all add: p2v_def)

lemma srv_fields [simp]:
  "srv (s\<lparr>nbr_cache := a1\<rparr>) = srv s" "srv (s\<lparr>defrt_list := a2\<rparr>) = srv s" "srv (s\<lparr>addr_list := a3\<rparr>) = srv s"
  "srv (s\<lparr>maddr_list := a4\<rparr>) = srv s" "srv (s\<lparr>routing_table := a5\<rparr>) = srv s" "srv (s\<lparr>parent_mem := a6\<rparr>) = srv s"
  "srv (s\<lparr>parent_cnt := a7\<rparr>) = srv s" "srv (s\<lparr>dag_table := a8\<rparr>) = srv s" "srv (s\<lparr>rand_state := a9\<rparr>) = srv s"
  "srv (s\<lparr>outbox := b1\<rparr>) = srv s" "srv (s\<lparr>fault := b2\<rparr>) = srv s" "srv (s\<lparr>dag_p2p_table := b3\<rparr>) = srv s"
  "srv (s\<lparr>p2p_addr_mem := b4\<rparr>) = srv s" "srv (s\<lparr>p2p_addr_cnt := b5\<rparr>) = srv s" "srv (s\<lparr>p2p_instance := b6\<rparr>) = srv s"
  "srv (s\<lparr>dro_cache_mem := b7\<rparr>) = srv s" "srv (s\<lparr>dro_cache_cnt := b8\<rparr>) = srv s" "srv (s\<lparr>dro_cache := b9\<rparr>) = srv s"
  "srv (s\<lparr>dao_sequence := c1\<rparr>) = srv s" "srv (s\<lparr>mo_sequence := c2\<rparr>) = srv s" "srv (s\<lparr>mo_processes := c3\<rparr>) = srv s"
  "srv (s\<lparr>dio_send_ok := c4\<rparr>) = srv s" "srv (s\<lparr>periodic_timer := c5\<rparr>) = srv s"
  by (simp_all add: srv_def)

text \<open>Updates of DAGs, parents and P2P entries that touch no viewed field.\<close>

lemma own_upd [simp]:
  "(\<And>D. dv (f D) = dv D) \<Longrightarrow> own (upd_dag d f s) = own s"
  "(\<And>P. p_dag (g P) = p_dag P) \<Longrightarrow> own (upd_par p g s) = own s"
  "own (upd_p2p q h s) = own s"
  by (simp_all add: own_def upd_dag_def upd_par_def upd_p2p_def map_updf_same)

lemma p2v_upd [simp]:
  "(\<And>D. d_p2p (f D) = d_p2p D) \<Longrightarrow> p2v (upd_dag d f s) = p2v s"
  "p2v (upd_par p g s) = p2v s"
  "(\<And>Q. q_partial_routes (h Q) = q_partial_routes Q) \<Longrightarrow> (\<And>Q. q_dag (h Q) = q_dag Q) \<Longrightarrow> p2v (upd_p2p q h s) = p2v s"
  by (simp_all add: p2v_def upd_dag_def upd_par_def upd_p2p_def map_updf_same)

lemma srv_upd [simp]:
  "srv (upd_dag d f s) = srv s" "srv (upd_par p g s) = srv s" "srv (upd_p2p q h s) = srv s"
  by (simp_all add: upd_dag_def upd_par_def upd_p2p_def)

lemma dv_simps [simp]:
  "dv (D\<lparr>d_def_route := a1\<rparr>) = dv D" "dv (D\<lparr>d_mc := a2\<rparr>) = dv D" "dv (D\<lparr>d_rank := a3\<rparr>) = dv D"
  "dv (D\<lparr>d_min_rank := a4\<rparr>) = dv D" "dv (D\<lparr>d_dtsn_out := a5\<rparr>) = dv D" "dv (D\<lparr>d_version := a6\<rparr>) = dv D"
  "dv (D\<lparr>d_of := a7\<rparr>) = dv D" "dv (D\<lparr>d_config := a8\<rparr>) = dv D" "dv (D\<lparr>d_dio_counter := a9\<rparr>) = dv D"
  "dv (D\<lparr>d_dio_intcurrent := b1\<rparr>) = dv D" "dv (D\<lparr>d_dio_send := b2\<rparr>) = dv D" "dv (D\<lparr>d_dio_next_delay := b3\<rparr>) = dv D"
  "dv (D\<lparr>d_dio_timer := b4\<rparr>) = dv D" "dv (D\<lparr>d_dao_timer := b5\<rparr>) = dv D" "dv (D\<lparr>d_prefix_info := b6\<rparr>) = dv D"
  "dv (D\<lparr>d_p2p := b7\<rparr>) = dv D" "dv (D\<lparr>d_dag_id := b8\<rparr>) = dv D"
  "dv (D\<lparr>d_grounded := c1\<rparr>) = dv D" "dv (D\<lparr>d_mop := c2\<rparr>) = dv D" "dv (D\<lparr>d_preference := c3\<rparr>) = dv D"
  "dv (D\<lparr>d_instance_id := c4\<rparr>) = dv D"
  by (simp_all add: dv_def)

section \<open>Frames\<close>

lemma frame_basic [simp]:
  "own (emit m s) = own s" "p2v (emit m s) = p2v s" "srv (emit m s) = srv s"
  "own (set_fault s) = own s" "p2v (set_fault s) = p2v s" "srv (set_fault s) = srv s"
  by (simp_all add: emit_def set_fault_def)

lemma frame_chk [simp]:
  "own (chk_rank d s) = own s" "p2v (chk_rank d s) = p2v s" "srv (chk_rank d s) = srv s"
  "own (chk_own s) = own s" "p2v (chk_own s) = p2v s" "srv (chk_own s) = srv s"
  "own (chk_of d s) = own s" "p2v (chk_of d s) = p2v s" "srv (chk_of d s) = srv s"
  "own (chk_shift d s) = own s" "p2v (chk_shift d s) = p2v s" "srv (chk_shift d s) = srv s"
  "own (chk_acceptable d r s) = own s" "p2v (chk_acceptable d r s) = p2v s" "srv (chk_acceptable d r s) = srv s"
  "own (chk_preferred d s) = own s" "p2v (chk_preferred d s) = p2v s" "srv (chk_preferred d s) = srv s"
  "own (chk_print_rdo a s) = own s" "p2v (chk_print_rdo a s) = p2v s" "srv (chk_print_rdo a s) = srv s"
  "own (chk_dao_loop d a s) = own s" "p2v (chk_dao_loop d a s) = p2v s" "srv (chk_dao_loop d a s) = srv s"
  "own (chk_dio_rank d s) = own s" "p2v (chk_dio_rank d s) = p2v s" "srv (chk_dio_rank d s) = srv s"
  by (simp_all add: chk_rank_def chk_own_def chk_of_def chk_shift_def chk_acceptable_def chk_preferred_def
      chk_print_rdo_def chk_dao_loop_def chk_dio_rank_def split: option.split)

lemma frame_rand:
  "own (snd (rand s)) = own s" "p2v (snd (rand s)) = p2v s" "srv (snd (rand s)) = srv s"
  by (simp_all add: rand_def split: prod.split)

lemma frame_rand' [simp]:
  "rand s = (r, s') \<Longrightarrow> own s' = own s" "rand s = (r, s') \<Longrightarrow> p2v s' = p2v s" "rand s = (r, s') \<Longrightarrow> srv s' = srv s"
  using frame_rand [of s] by simp_all

lemma frame_ds6 [simp]:
  "own (uip_ds6_defrt_rm r s) = own s" "p2v (uip_ds6_defrt_rm r s) = p2v s" "srv (uip_ds6_defrt_rm r s) = srv s"
  "own (uip_ds6_route_rm r s) = own s" "p2v (uip_ds6_route_rm r s) = p2v s" "srv (uip_ds6_route_rm r s) = srv s"
  "own (uip_ds6_route_rm_by_nexthop a s) = own s" "p2v (uip_ds6_route_rm_by_nexthop a s) = p2v s"
  "srv (uip_ds6_route_rm_by_nexthop a s) = srv s"
  "own (rpl_remove_routes d s) = own s" "p2v (rpl_remove_routes d s) = p2v s" "srv (rpl_remove_routes d s) = srv s"
  by (simp_all add: uip_ds6_defrt_rm_def uip_ds6_route_rm_def uip_ds6_route_rm_by_nexthop_def rpl_remove_routes_def)

lemma frame_ds6_pairs:
  "own (snd (uip_ds6_defrt_add a l s)) = own s" "p2v (snd (uip_ds6_defrt_add a l s)) = p2v s"
  "srv (snd (uip_ds6_defrt_add a l s)) = srv s"
  "own (snd (uip_ds6_maddr_add a s)) = own s" "p2v (snd (uip_ds6_maddr_add a s)) = p2v s"
  "srv (snd (uip_ds6_maddr_add a s)) = srv s"
  "own (snd (uip_ds6_route_add a n h m s)) = own s" "p2v (snd (uip_ds6_route_add a n h m s)) = p2v s"
  "srv (snd (uip_ds6_route_add a n h m s)) = srv s"
  by (simp_all add: uip_ds6_defrt_add_def uip_ds6_maddr_add_def uip_ds6_route_add_def
      split: prod.split loop_result.split option.split)

lemma frame_ds6_pairs' [simp]:
  "uip_ds6_defrt_add a l s = (r, s') \<Longrightarrow> own s' = own s" "uip_ds6_defrt_add a l s = (r, s') \<Longrightarrow> p2v s' = p2v s"
  "uip_ds6_defrt_add a l s = (r, s') \<Longrightarrow> srv s' = srv s"
  "uip_ds6_route_add a n h m s = (r, s') \<Longrightarrow> own s' = own s" "uip_ds6_route_add a n h m s = (r, s') \<Longrightarrow> p2v s' = p2v s"
  "uip_ds6_route_add a n h m s = (r, s') \<Longrightarrow> srv s' = srv s"
  using frame_ds6_pairs(1,2,3) [of a l s] frame_ds6_pairs(7,8,9) [of a n h m s] by simp_all


lemma frame_addr_add [simp]:
  "own (snd (uip_ds6_addr_add a v t s)) = own s" "p2v (snd (uip_ds6_addr_add a v t s)) = p2v s"
  "srv (snd (uip_ds6_addr_add a v t s)) = srv s"
  by (simp_all add: uip_ds6_addr_add_def frame_ds6_pairs Let_def split: prod.split loop_result.split option.split)

lemma frame_timers [simp]:
  "own (new_dio_interval d s) = own s" "p2v (new_dio_interval d s) = p2v s" "srv (new_dio_interval d s) = srv s"
  by (simp_all add: new_dio_interval_def Let_def split: prod.split)

lemma frame_reset [simp]:
  "own (rpl_reset_dio_timer d b s) = own s" "p2v (rpl_reset_dio_timer d b s) = p2v s"
  "srv (rpl_reset_dio_timer d b s) = srv s"
  by (simp_all add: rpl_reset_dio_timer_def)

lemma frame_schedule [simp]:
  "own (rpl_schedule_dao d s) = own s" "p2v (rpl_schedule_dao d s) = p2v s" "srv (rpl_schedule_dao d s) = srv s"
  by (simp_all add: rpl_schedule_dao_def split: prod.split)

lemma frame_metric [simp]:
  "own (of_update_metric_container d s) = own s" "p2v (of_update_metric_container d s) = p2v s"
  "srv (of_update_metric_container d s) = srv s"
  by (simp_all add: of_update_metric_container_def etx_update_metric_container_def Let_def)

lemma frame_default_route [simp]:
  "own (snd (rpl_set_default_route d a s)) = own s" "p2v (snd (rpl_set_default_route d a s)) = p2v s"
  "srv (snd (rpl_set_default_route d a s)) = srv s"
  by (simp_all add: rpl_set_default_route_def Let_def split: prod.split option.split)

lemma frame_config [simp]:
  "own (snd (rpl_set_dodag_config d c s)) = own s" "p2v (snd (rpl_set_dodag_config d c s)) = p2v s"
  "srv (snd (rpl_set_dodag_config d c s)) = srv s"
  by (simp_all add: rpl_set_dodag_config_def split: option.split)

lemma frame_config' [simp]:
  "rpl_set_dodag_config d c s = (b, s') \<Longrightarrow> own s' = own s" "rpl_set_dodag_config d c s = (b, s') \<Longrightarrow> p2v s' = p2v s"
  "rpl_set_dodag_config d c s = (b, s') \<Longrightarrow> srv s' = srv s"
  using frame_config [of d c s] by simp_all

lemma frame_output [simp]:
  "own (dao_output n l s) = own s" "p2v (dao_output n l s) = p2v s" "srv (dao_output n l s) = srv s"
  "own (dao_ack_output d a q s) = own s" "p2v (dao_ack_output d a q s) = p2v s" "srv (dao_ack_output d a q s) = srv s"
  "own (dis_output x s) = own s" "p2v (dis_output x s) = p2v s" "srv (dis_output x s) = srv s"
  by (simp_all add: dao_output_def dao_ack_output_def dis_output_def Let_def split: option.split)

lemma frame_choose:
  "own (snd (choose_route c s)) = own s" "p2v (snd (choose_route c s)) = p2v s" "srv (snd (choose_route c s)) = srv s"
  by (simp_all add: choose_route_def split: prod.split)

lemma frame_dio_route [simp]:
  "own (snd (dio_route d q s)) = own s" "p2v (snd (dio_route d q s)) = p2v s" "srv (snd (dio_route d q s)) = srv s"
  by (simp_all add: dio_route_def Let_def frame_choose split_beta)

lemma frame_dio_options_views:
  assumes "\<And>s. v (set_fault s) = v s" "\<And>d s. v (chk_of d s) = v s"
    "\<And>d s. v (of_update_metric_container d s) = v s" "\<And>d q s. v (snd (dio_route d q s)) = v s"
  shows "v (snd (dio_options d s)) = v s"
proof -
  define s1 where "s1 = (if mc_type (d_mc (DAG s d)) \<noteq> RPL_DAG_MC_NONE then of_update_metric_container d s else s)"
  have 1: "v s1 = v s" by (simp add: s1_def assms(3))
  show ?thesis
  proof (cases "dio_metric (d_mc (DAG s1 d))")
    case None
    then show ?thesis unfolding dio_options_def Let_def s1_def [symmetric] by (simp add: 1)
  next
    case (Some met)
    define p where "p = (d_mop (DAG s1 d) = RPL_MOP_P2P_ROUTE_DISCOVERY)"
    define c where "c = (if p then (case d_p2p (DAG s1 d) of None \<Rightarrow> None
        | Some q \<Rightarrow> dio_constr (q_constr (P2P s1 q)) met) else Some met)"
    show ?thesis
      unfolding dio_options_def Let_def s1_def [symmetric] Some option.case p_def [symmetric] c_def [symmetric]
      using assms(4) by (simp add: 1 assms(1,2) split_beta split: option.split)
  qed
qed

lemma frame_dio_options [simp]:
  "own (snd (dio_options d s)) = own s" "p2v (snd (dio_options d s)) = p2v s" "srv (snd (dio_options d s)) = srv s"
  by (rule frame_dio_options_views; simp)+

lemma frame_dio_output_views:
  assumes "\<And>m s. v (emit m s) = v s" "\<And>s. v (set_fault s) = v s" "\<And>d s. v (chk_dio_rank d s) = v s"
    "\<And>d s. v (upd_dag d (\<lambda>D. D\<lparr>d_dtsn_out := d_dtsn_out D + 1\<rparr>) s) = v s"
    "\<And>d s. v (snd (dio_options d s)) = v s"
  shows "v (dio_output d a s) = v s"
proof -
  define s1 where "s1 = (if d_p2p (DAG (chk_dio_rank d s) d) = None
    then upd_dag d (\<lambda>D. D\<lparr>d_dtsn_out := d_dtsn_out D + 1\<rparr>) (chk_dio_rank d s) else chk_dio_rank d s)"
  obtain o1 s2 where o: "dio_options d s1 = (o1, s2)" by (rule prod.exhaust)
  have "v s1 = v s" by (simp add: s1_def assms(3,4))
  with o assms(5) [of d s1] have g: "v s2 = v s" by simp
  show ?thesis
    unfolding dio_output_def Let_def s1_def [symmetric] o
    by (cases o1) (simp_all add: assms(1-3) g)
qed

lemma frame_dio_output [simp]:
  "own (dio_output d a s) = own s" "p2v (dio_output d a s) = p2v s" "srv (dio_output d a s) = srv s"
  by (rule frame_dio_output_views; simp)+

lemma frame_cache [simp]:
  "own (dro_cache_store m s) = own s" "p2v (dro_cache_store m s) = p2v s" "srv (dro_cache_store m s) = srv s"
  by (simp_all add: dro_cache_store_def split: option.split prod.split)

lemma frame_dro_output [simp]:
  "own (dro_output d as s) = own s" "p2v (dro_output d as s) = p2v s" "srv (dro_output d as s) = srv s"
  by (cases "d_p2p (DAG s d)"; simp only: dro_output_def option.case Let_def; simp)+

lemma frame_handle_dio [simp]:
  "own (handle_dio_timer d s) = own s" "p2v (handle_dio_timer d s) = p2v s" "srv (handle_dio_timer d s) = srv s"
  by (simp_all only: handle_dio_timer_def Let_def split: if_split) simp_all

lemma frame_handle_dao [simp]:
  "own (handle_dao_timer d s) = own s" "p2v (handle_dao_timer d s) = p2v s" "srv (handle_dao_timer d s) = srv s"
  by (simp_all add: handle_dao_timer_def split: option.split)

lemma frame_rexmit [simp]:
  "own (dro_rexmit k s) = own s" "p2v (dro_rexmit k s) = p2v s" "srv (dro_rexmit k s) = srv s"
  by (simp_all add: dro_rexmit_def Let_def)

lemma frame_set_route_state [simp]:
  "own (set_route_state d r s) = own s" "p2v (set_route_state d r s) = p2v s" "srv (set_route_state d r s) = srv s"
  by (simp_all add: set_route_state_def Let_def)

lemma frame_add_route:
  "own (snd (rpl_add_route d p n h s)) = own s" "p2v (snd (rpl_add_route d p n h s)) = p2v s"
  "srv (snd (rpl_add_route d p n h s)) = srv s"
proof -
  obtain r1 s1 where a: "uip_ds6_route_add p n h 0 s = (r1, s1)" by (rule prod.exhaust)
  obtain r2 s2 where b: "uip_ds6_route_add p n h 0 (uip_ds6_route_rm (next_to_expire (routing_table s1)) s1) = (r2, s2)"
    by (rule prod.exhaust)
  show "own (snd (rpl_add_route d p n h s)) = own s" "p2v (snd (rpl_add_route d p n h s)) = p2v s"
    "srv (snd (rpl_add_route d p n h s)) = srv s"
    using frame_ds6_pairs' [where s = s] a b frame_ds6_pairs'(4,5,6) [OF b] frame_ds6_pairs'(4,5,6) [OF a]
    by (simp_all add: rpl_add_route_def Let_def split: option.split)
qed

lemma frame_add_route' [simp]:
  "rpl_add_route d p n h s = (r, s') \<Longrightarrow> own s' = own s" "rpl_add_route d p n h s = (r, s') \<Longrightarrow> p2v s' = p2v s"
  "rpl_add_route d p n h s = (r, s') \<Longrightarrow> srv s' = srv s"
  using frame_add_route [of d p n h s] by simp_all

lemma frame_callbacks [simp]:
  "own (link_neighbor_dag ip b e d s) = own s" "p2v (link_neighbor_dag ip b e d s) = p2v s"
  "srv (link_neighbor_dag ip b e d s) = srv s"
  "own (rpl_ipv6_neighbor_callback n s) = own s" "p2v (rpl_ipv6_neighbor_callback n s) = p2v s"
  "srv (rpl_ipv6_neighbor_callback n s) = srv s"
  by (simp_all add: link_neighbor_dag_def rpl_ipv6_neighbor_callback_def etx_parent_state_callback_def Let_def
      split: option.split)

lemma frame_fold:
  "(\<And>x s. v (f x s) = v s) \<Longrightarrow> v (fold f xs s) = v s"
  by (induction xs arbitrary: s) simp_all

lemma frame_link_callback [simp]:
  "own (rpl_link_neighbor_callback a b e s) = own s" "p2v (rpl_link_neighbor_callback a b e s) = p2v s"
  "srv (rpl_link_neighbor_callback a b e s) = srv s"
  by (simp_all add: rpl_link_neighbor_callback_def Let_def frame_fold)

section \<open>Operations that change one view only\<close>

lemma with_p2p_views:
  "(\<And>s. v (set_fault s) = v s) \<Longrightarrow> (\<And>q s. v (f q s) = v s) \<Longrightarrow> v (with_p2p d f s) = v s"
  by (simp add: with_p2p_def split: option.split)

lemma frame_remove_parent [simp]:
  "p2v (rpl_remove_parent d p s) = p2v s" "srv (rpl_remove_parent d p s) = srv s"
  by (simp_all add: rpl_remove_parent_def Let_def split: option.split)

lemma frame_remove_parents [simp]:
  "p2v (rpl_remove_parents d r s) = p2v s" "srv (rpl_remove_parents d r s) = srv s"
  by (simp_all add: rpl_remove_parents_def frame_fold)

lemma frame_remove_worst [simp]:
  "p2v (remove_worst_parent d r s) = p2v s" "srv (remove_worst_parent d r s) = srv s"
  by (simp_all add: remove_worst_parent_def split: option.split)

lemma frame_enter_parent [simp]:
  "p2v (enter_parent d p dio a s) = p2v s" "srv (enter_parent d p dio a s) = srv s"
  by (simp_all add: enter_parent_def Let_def)

lemma frame_add_parent:
  "p2v (snd (rpl_add_parent d dio a s)) = p2v s" "srv (snd (rpl_add_parent d dio a s)) = srv s"
  by (simp_all add: rpl_add_parent_def Let_def split: prod.split option.split)

lemma frame_add_parent' [simp]:
  "rpl_add_parent d dio a s = (r, s') \<Longrightarrow> p2v s' = p2v s" "rpl_add_parent d dio a s = (r, s') \<Longrightarrow> srv s' = srv s"
  using frame_add_parent [of d dio a s] by simp_all

lemma frame_free_dag [simp]:
  "p2v (rpl_free_dag d s) = p2v s" "srv (rpl_free_dag d s) = srv s"
  by (simp_all add: rpl_free_dag_def Let_def)

lemma frame_switch [simp]:
  "p2v (switch_parent d b s) = p2v s" "srv (switch_parent d b s) = srv s"
  by (simp_all add: switch_parent_def Let_def)

lemma frame_select:
  "p2v (snd (rpl_select_parent d s)) = p2v s" "srv (snd (rpl_select_parent d s)) = srv s"
  by (simp_all add: rpl_select_parent_def Let_def split: option.split)

lemma frame_select' [simp]:
  "rpl_select_parent d s = (r, s') \<Longrightarrow> p2v s' = p2v s" "rpl_select_parent d s = (r, s') \<Longrightarrow> srv s' = srv s"
  using frame_select [of d s] by simp_all

lemma frame_local_repair [simp]:
  "p2v (rpl_local_repair d s) = p2v s" "srv (rpl_local_repair d s) = srv s"
  by (simp_all add: rpl_local_repair_def)

lemma frame_rank_moved [simp]:
  "own (rank_moved d s) = own s" "p2v (rank_moved d s) = p2v s" "srv (rank_moved d s) = srv s"
  by (simp_all add: rank_moved_def Let_def)

lemma frame_parent_event:
  "p2v (snd (rpl_process_parent_event d p s)) = p2v s" "srv (snd (rpl_process_parent_event d p s)) = srv s"
  by (cases "rpl_select_parent d s" rule: prod.exhaust; cases "fst (rpl_select_parent d s)";
      simp add: rpl_process_parent_event_def Let_def)+

lemma frame_parent_event' [simp]:
  "rpl_process_parent_event d p s = (r, s') \<Longrightarrow> p2v s' = p2v s"
  "rpl_process_parent_event d p s = (r, s') \<Longrightarrow> srv s' = srv s"
  using frame_parent_event [of d p s] by simp_all

lemma frame_recalculate [simp]:
  "p2v (rpl_recalculate_ranks s) = p2v s" "srv (rpl_recalculate_ranks s) = srv s"
  by (simp_all add: rpl_recalculate_ranks_def frame_parent_event split: option.split)

lemma frame_global_repair [simp]:
  "p2v (global_repair a d dio s) = p2v s" "srv (global_repair a d dio s) = srv s"
  by (simp_all add: global_repair_def etx_reset_def Let_def split: prod.split option.split)

lemma frame_join_prefix [simp]:
  "own (join_prefix d x s) = own s" "p2v (join_prefix d x s) = p2v s" "srv (join_prefix d x s) = srv s"
  by (simp_all add: join_prefix_def Let_def split: option.split)

lemma frame_keep_two [simp]:
  "p2v (keep_two_parents d p s) = p2v s" "srv (keep_two_parents d p s) = srv s"
  by (simp_all add: keep_two_parents_def split: option.split)

lemma frame_free_addr_list [simp]:
  "own (free_addr_list q i s) = own s" "srv (free_addr_list q i s) = srv s"
  by (simp_all add: free_addr_list_def Let_def)

lemma frame_add_src_route_addr:
  "own (snd (add_src_route_addr q i a s)) = own s" "srv (snd (add_src_route_addr q i a s)) = srv s"
  by (simp_all add: add_src_route_addr_def split: prod.split option.split)

lemma frame_add_src_route_addr' [simp]:
  "add_src_route_addr q i a s = (r, s') \<Longrightarrow> own s' = own s" "add_src_route_addr q i a s = (r, s') \<Longrightarrow> srv s' = srv s"
  using frame_add_src_route_addr [of q i a s] by simp_all

lemma frame_add_addrs:
  "own (snd (add_addrs n q i rdo j s)) = own s" "srv (snd (add_addrs n q i rdo j s)) = srv s"
  by (induction n arbitrary: j s) (simp_all split: prod.split option.split)

lemma frame_add_addrs' [simp]:
  "add_addrs n q i rdo j s = (r, s') \<Longrightarrow> own s' = own s" "add_addrs n q i rdo j s = (r, s') \<Longrightarrow> srv s' = srv s"
  using frame_add_addrs [of n q i rdo j s] by simp_all

lemma frame_partial_route:
  "own (snd (rpl_p2p_add_partial_route d q rdo s)) = own s" "srv (snd (rpl_p2p_add_partial_route d q rdo s)) = srv s"
  by (simp_all add: rpl_p2p_add_partial_route_def split_beta frame_add_src_route_addr frame_add_addrs
      split: option.split bool.split del: add_addrs.simps)

lemma frame_update_dag [simp]:
  "own (rpl_p2p_update_dag d rdo dio s) = own s" "srv (rpl_p2p_update_dag d rdo dio s) = srv s"
  by (simp_all add: rpl_p2p_update_dag_def with_p2p_views Let_def frame_partial_route frame_fold)

lemma frame_process_target [simp]:
  "own (rpl_p2p_process_target d dio s) = own s" "p2v (rpl_p2p_process_target d dio s) = p2v s"
  "srv (rpl_p2p_process_target d dio s) = srv s"
  by (simp_all add: rpl_p2p_process_target_def with_p2p_views Let_def)

lemma frame_hop_add:
  "own (snd (uip_ds6_src_route_hop_add r a b s)) = own s" "p2v (snd (uip_ds6_src_route_hop_add r a b s)) = p2v s"
  by (simp_all add: uip_ds6_src_route_hop_add_def split: prod.split option.split)

lemma frame_hop_add' [simp]:
  "uip_ds6_src_route_hop_add r a b s = (x, s') \<Longrightarrow> own s' = own s"
  "uip_ds6_src_route_hop_add r a b s = (x, s') \<Longrightarrow> p2v s' = p2v s"
  using frame_hop_add [of r a b s] by simp_all

lemma frame_src_rm [simp]:
  "own (uip_ds6_src_route_rm r s) = own s" "p2v (uip_ds6_src_route_rm r s) = p2v s"
  by (simp_all add: uip_ds6_src_route_rm_def)

lemma frame_src_add:
  "own (snd (uip_ds6_src_route_add a s)) = own s" "p2v (snd (uip_ds6_src_route_add a s)) = p2v s"
  by (simp_all add: uip_ds6_src_route_add_def Let_def split: prod.split option.split loop_result.split)

lemma frame_src_add' [simp]:
  "uip_ds6_src_route_add a s = (x, s') \<Longrightarrow> own s' = own s" "uip_ds6_src_route_add a s = (x, s') \<Longrightarrow> p2v s' = p2v s"
  using frame_src_add [of a s] by simp_all

lemma frame_src_lifetime [simp]:
  "own (set_src_lifetime r l s) = own s" "p2v (set_src_lifetime r l s) = p2v s" "srv (set_src_lifetime r l s) = srv s"
  by (simp_all add: set_src_lifetime_def srv_def map_updf_same)

lemma frame_backward_hops:
  "own (snd (backward_hops r a c as s)) = own s" "p2v (snd (backward_hops r a c as s)) = p2v s"
  by (induction as arbitrary: s) (simp_all split: prod.split option.split)

lemma frame_backward_hops' [simp]:
  "backward_hops r a c as s = (x, s') \<Longrightarrow> own s' = own s" "backward_hops r a c as s = (x, s') \<Longrightarrow> p2v s' = p2v s"
  using frame_backward_hops [of r a c as s] by simp_all

lemma frame_store_backward [simp]:
  "own (store_backward_route d q as s) = own s" "p2v (store_backward_route d q as s) = p2v s"
  by (simp_all add: store_backward_route_def Let_def split: prod.split option.split bool.split)

lemma frame_send_dro:
  "own (snd (send_dro d q i js)) = own (snd js)" "p2v (snd (send_dro d q i js)) = p2v (snd js)"
  by (simp_all add: send_dro_def Let_def split: prod.split)

lemma frame_send_dros [simp]: "own (send_dros d s) = own s" "p2v (send_dros d s) = p2v s"
proof -
  have "own (snd (fold (send_dro d q) xs js)) = own (snd js)" "p2v (snd (fold (send_dro d q) xs js)) = p2v (snd js)"
    for q xs js by (induction xs arbitrary: js) (simp_all add: frame_send_dro)
  then show "own (send_dros d s) = own s" "p2v (send_dros d s) = p2v s"
    by (simp_all add: send_dros_def with_p2p_views)
qed

lemma frame_src_hops:
  "own (snd (src_hops n r a f l c b i s)) = own s" "p2v (snd (src_hops n r a f l c b i s)) = p2v s"
  by (induction n arbitrary: i s) (simp_all split: prod.split option.split)

lemma frame_src_hops' [simp]:
  "src_hops n r a f l c b i s = (x, s') \<Longrightarrow> own s' = own s" "src_hops n r a f l c b i s = (x, s') \<Longrightarrow> p2v s' = p2v s"
  using frame_src_hops [of n r a f l c b i s] by simp_all

lemma frame_p2p_src_route:
  "own (snd (rpl_p2p_add_src_route a f l c b s)) = own s" "p2v (snd (rpl_p2p_add_src_route a f l c b s)) = p2v s"
  by (simp_all add: rpl_p2p_add_src_route_def split_beta frame_src_add frame_src_hops frame_hop_add
      split: option.split bool.split del: src_hops.simps)

lemma frame_hbh:
  "own (snd (rpl_p2p_add_hbh_route i a t n s)) = own s" "p2v (snd (rpl_p2p_add_hbh_route i a t n s)) = p2v s"
  "srv (snd (rpl_p2p_add_hbh_route i a t n s)) = srv s"
  by (simp_all add: rpl_p2p_add_hbh_route_def split: prod.split option.split)

end
