(* ===== verification/Rpl_Invariant.thy ===== *)
theory Rpl_Invariant
  imports Rpl_Frames
begin

text \<open>
  Memory safety of the parent pool. The abstract state \<open>owners\<close> has operations of its own;
  each operation of the DAG code that allocates, frees or moves a parent is one of them,
  and each of them keeps the ownership invariant: every allocated parent is on the list of
  exactly one DAG, the DAG it points to, lists have no repetition, the preferred parent
  is on the list, and a DAG that is not in use has no parent.
\<close>

section \<open>The abstract operations\<close>

definition own_inv :: "owners \<Rightarrow> bool" where
  "own_inv w \<longleftrightarrow>
     length (w_owner w) = length (w_cnt w) \<and> pool_wf (w_cnt w)
     \<and> (\<forall>p < length (w_cnt w). w_cnt w ! p \<noteq> 0 \<longrightarrow> w_owner w ! p < length (w_dags w))
     \<and> (\<forall>d < length (w_dags w). distinct (v_parents (w_dags w ! d))
          \<and> set (v_parents (w_dags w ! d)) = {p. p < length (w_cnt w) \<and> w_cnt w ! p \<noteq> 0 \<and> w_owner w ! p = d}
          \<and> (\<forall>p. v_pref (w_dags w ! d) = Some p \<longrightarrow> p \<in> set (v_parents (w_dags w ! d)))
          \<and> (\<not> v_used (w_dags w ! d) \<longrightarrow> v_parents (w_dags w ! d) = [])
          \<and> (v_joined (w_dags w ! d) \<longrightarrow> v_used (w_dags w ! d)))"

definition own_remove :: "nat \<Rightarrow> nat \<Rightarrow> owners \<Rightarrow> owners" where
  "own_remove d p w =
     w\<lparr>w_dags := updf d (\<lambda>V. V\<lparr>v_pref := (if v_pref V = Some p then None else v_pref V),
                          v_parents := remove1 p (v_parents V)\<rparr>) (w_dags w),
       w_cnt := pool_free (w_cnt w) p\<rparr>"

definition own_enter :: "nat \<Rightarrow> nat \<Rightarrow> owners \<Rightarrow> owners" where
  "own_enter d p w =
     w\<lparr>w_dags := updf d (\<lambda>V. V\<lparr>v_parents := lst_add (v_parents V) p\<rparr>) (w_dags w),
       w_cnt := (w_cnt w)[p := 1], w_owner := updf p (\<lambda>_. d) (w_owner w)\<rparr>"

definition own_pref :: "nat \<Rightarrow> nat option \<Rightarrow> owners \<Rightarrow> owners" where
  "own_pref d p w = w\<lparr>w_dags := updf d (\<lambda>V. V\<lparr>v_pref := p\<rparr>) (w_dags w)\<rparr>"

definition own_join :: "nat \<Rightarrow> owners \<Rightarrow> owners" where
  "own_join d w = w\<lparr>w_dags := updf d (\<lambda>V. V\<lparr>v_joined := True\<rparr>) (w_dags w)\<rparr>"

definition own_free :: "nat \<Rightarrow> owners \<Rightarrow> owners" where
  "own_free d w = w\<lparr>w_dags := updf d (\<lambda>V. V\<lparr>v_used := False, v_joined := False\<rparr>) (w_dags w)\<rparr>"

definition own_alloc :: "nat \<Rightarrow> owners \<Rightarrow> owners" where
  "own_alloc d w = w\<lparr>w_dags := updf d (\<lambda>_. \<lparr>v_used = True, v_joined = False, v_parents = [], v_pref = None\<rparr>) (w_dags w)\<rparr>"

lemmas own_ops = own_remove_def own_enter_def own_pref_def own_join_def own_free_def own_alloc_def

lemma own_lengths [simp]:
  "length (w_dags (own_remove d p w)) = length (w_dags w)" "length (w_dags (own_enter d p w)) = length (w_dags w)"
  "length (w_dags (own_pref d x w)) = length (w_dags w)" "length (w_dags (own_join d w)) = length (w_dags w)"
  "length (w_dags (own_free d w)) = length (w_dags w)"
  "length (w_dags (own_alloc d w)) = length (w_dags w)"
  by (simp_all add: own_ops)

section \<open>They keep the invariant\<close>

lemma own_remove_inv:
  assumes "own_inv w" "d < length (w_dags w)" "p \<in> set (v_parents (w_dags w ! d))"
  shows "own_inv (own_remove d p w)"
proof -
  from assms have p: "p < length (w_cnt w)" "w_cnt w ! p \<noteq> 0" "w_owner w ! p = d"
    unfolding own_inv_def by auto
  from assms(1) have wf: "pool_wf (w_cnt w)" by (simp add: own_inv_def)
  with p have one: "w_cnt w ! p = 1" unfolding pool_wf_def by (metis nth_mem)
  have pos: "(0::u8) < 1" by simp
  with p one have c: "pool_free (w_cnt w) p = (w_cnt w)[p := 0]" by (simp add: pool_free_def)
  have wf': "pool_wf ((w_cnt w)[p := 0])"
    using wf unfolding pool_wf_def by (auto dest!: set_update_subset_insert [THEN subsetD])
  show ?thesis
    unfolding own_inv_def own_remove_def c
  proof (simp add: wf', intro conjI allI impI, goal_cases)
    case 1 show ?case using assms(1) by (simp add: own_inv_def)
  next
    case (2 q) then show ?case using assms(1) by (cases "q = p") (auto simp: own_inv_def)
  next
    case (3 e) then show ?case using assms(1,2) by (cases "e = d") (auto simp: own_inv_def distinct_remove1)
  next
    case (4 e)
    then have "distinct (v_parents (w_dags w ! e))"
      "set (v_parents (w_dags w ! e)) = {q. q < length (w_cnt w) \<and> w_cnt w ! q \<noteq> 0 \<and> w_owner w ! q = e}"
      using assms(1) by (simp_all add: own_inv_def)
    then show ?case using p 4 by (cases "e = d") (auto simp: nth_list_update set_remove1_eq)
  next
    case (5 e q) then show ?case using assms(1) by (cases "e = d") (auto simp: own_inv_def set_remove1_eq split: if_splits)
  next
    case (6 e) then show ?case using assms(1) by (cases "e = d") (auto simp: own_inv_def)
  next
    case (7 e) then show ?case using assms(1,2) by (cases "e = d") (auto simp: own_inv_def)
  qed
qed

lemma own_enter_inv:
  assumes "own_inv w" "d < length (w_dags w)" "p < length (w_cnt w)" "w_cnt w ! p = 0"
    "v_used (w_dags w ! d)"
  shows "own_inv (own_enter d p w)"
proof -
  have n: "p \<notin> set (v_parents (w_dags w ! e))" if "e < length (w_dags w)" for e
    using assms(1,4) that by (auto simp: own_inv_def)
  have wf: "pool_wf ((w_cnt w)[p := 1])"
    using assms(1) unfolding own_inv_def pool_wf_def by (auto dest!: set_update_subset_insert [THEN subsetD])
  have l: "p < length (w_owner w)" using assms by (simp add: own_inv_def)
  show ?thesis
    unfolding own_inv_def own_enter_def
  proof (simp add: wf, intro conjI allI impI, goal_cases)
    case 1 show ?case using assms(1) by (simp add: own_inv_def)
  next
    case (2 q) then show ?case using assms l by (cases "q = p") (auto simp: own_inv_def nth_list_update)
  next
    case (3 e) then show ?case using assms(1) n [of e] by (cases "e = d") (auto simp: own_inv_def lst_add_def)
  next
    case (4 e)
    then have s: "set (v_parents (w_dags w ! e)) = {q. q < length (w_cnt w) \<and> w_cnt w ! q \<noteq> 0 \<and> w_owner w ! q = e}"
      using assms(1) by (simp add: own_inv_def)
    have o: "updf p (\<lambda>_. d) (w_owner w) ! q = (if q = p then d else w_owner w ! q)" for q using l by simp
    show ?case
    proof (cases "e = d")
      case True
      with 4 n [of e] s assms(3) show ?thesis by (auto simp: lst_add_def o nth_list_update)
    next
      case False
      with 4 s assms(3,4) show ?thesis by (auto simp: o nth_list_update)
    qed
  next
    case (5 e q) then show ?case using assms(1) n [of e] by (cases "e = d") (auto simp: own_inv_def lst_add_def)
  next
    case (6 e) then show ?case using assms(1,5) by (cases "e = d") (auto simp: own_inv_def)
  next
    case (7 e) then show ?case using assms(1,2) by (cases "e = d") (auto simp: own_inv_def)
  qed
qed

lemma own_pref_inv:
  assumes "own_inv w" "d < length (w_dags w)" "\<And>p. x = Some p \<Longrightarrow> p \<in> set (v_parents (w_dags w ! d))"
  shows "own_inv (own_pref d x w)"
  using assms by (auto simp: own_inv_def own_pref_def nth_updf)

lemma own_join_inv:
  assumes "own_inv w" "d < length (w_dags w)" "v_used (w_dags w ! d)"
  shows "own_inv (own_join d w)"
  using assms by (auto simp: own_inv_def own_join_def nth_updf)

lemma own_no_owner:
  assumes "own_inv w" "d < length (w_dags w)" "v_parents (w_dags w ! d) = []"
  shows "p < length (w_cnt w) \<Longrightarrow> w_cnt w ! p \<noteq> 0 \<Longrightarrow> w_owner w ! p \<noteq> d"
proof -
  have "set (v_parents (w_dags w ! d)) = {p. p < length (w_cnt w) \<and> w_cnt w ! p \<noteq> 0 \<and> w_owner w ! p = d}"
    using assms(1,2) unfolding own_inv_def by blast
  with assms(3) show "p < length (w_cnt w) \<Longrightarrow> w_cnt w ! p \<noteq> 0 \<Longrightarrow> w_owner w ! p \<noteq> d" by auto
qed

lemma own_free_inv:
  assumes "own_inv w" "d < length (w_dags w)" "v_parents (w_dags w ! d) = []"
  shows "own_inv (own_free d w)"
proof -
  define V where "V = (w_dags w ! d)\<lparr>v_used := False, v_joined := False\<rparr>"
  have V: "updf d (\<lambda>V. V\<lparr>v_used := False, v_joined := False\<rparr>) (w_dags w) ! e
      = (if e = d then V else w_dags w ! e)" for e using assms(2) by (simp add: V_def)
  have f: "v_parents V = []" "\<not> v_used V" "\<not> v_joined V" using assms(3) by (simp_all add: V_def)
  have p: "v_pref V = None" using assms by (cases "v_pref V") (auto simp: V_def own_inv_def)
  show ?thesis
    unfolding own_inv_def own_free_def
  proof (simp add: V, intro conjI allI impI, goal_cases)
    case (5 e) then show ?case using own_no_owner [OF assms] f p by auto
  qed (use assms(1) f p in \<open>auto simp: own_inv_def\<close>)
qed

lemma own_alloc_inv:
  assumes "own_inv w" "d < length (w_dags w)" "v_parents (w_dags w ! d) = []"
  shows "own_inv (own_alloc d w)"
proof -
  define V where "V = \<lparr>v_used = True, v_joined = False, v_parents = [], v_pref = None\<rparr>"
  have V: "updf d (\<lambda>_. V) (w_dags w) ! e = (if e = d then V else w_dags w ! e)" for e
    using assms(2) by simp
  have f: "v_parents V = []" "v_used V" "\<not> v_joined V" "v_pref V = None" by (simp_all add: V_def)
  show ?thesis
    unfolding own_inv_def own_alloc_def V_def [symmetric]
  proof (simp add: V, intro conjI allI impI, goal_cases)
    case (5 e) then show ?case using own_no_owner [OF assms] f by auto
  qed (use assms(1) f in \<open>auto simp: own_inv_def\<close>)
qed

end
