(* ===== verification/Rpl_Owners.thy ===== *)
theory Rpl_Owners
  imports Rpl_Invariant
begin

text \<open>
  The operations of the DAG code refine the abstract operations on \<open>owners\<close>, and so every
  one of them, from the removal of a parent to the processing of a DIO and the timer
  handlers, keeps the ownership invariant.
\<close>

section \<open>The concrete invariant\<close>

text \<open>The abstract invariant and the sizes of the table and of the pool.\<close>

definition own_wf :: "owners \<Rightarrow> bool" where
  "own_wf w \<longleftrightarrow> own_inv w \<and> length (w_dags w) = RPL_MAX_DAG_ENTRIES \<and> length (w_cnt w) = RPL_MAX_PARENTS"

definition members :: "nat \<Rightarrow> owners \<Rightarrow> nat list" where
  "members d w = v_parents (w_dags w ! d)"

abbreviation valid_dag :: "nat \<Rightarrow> bool" where
  "valid_dag d \<equiv> d < RPL_MAX_DAG_ENTRIES"

lemma own_wf_len: "own_wf (own s) \<Longrightarrow> length (dag_table s) = RPL_MAX_DAG_ENTRIES"
  by (simp add: own_wf_def own_def)

lemma own_wf_cnt: "own_wf (own s) \<Longrightarrow> length (parent_cnt s) = RPL_MAX_PARENTS"
  by (simp add: own_wf_def own_def)

lemma members_own: "own_wf (own s) \<Longrightarrow> valid_dag d \<Longrightarrow> members d (own s) = d_parents (DAG s d)"
  by (simp add: members_def own_wf_def own_def DAG_def dv_def)

lemma pref_own: "own_wf (own s) \<Longrightarrow> valid_dag d \<Longrightarrow> v_pref (w_dags (own s) ! d) = d_preferred_parent (DAG s d)"
  by (simp add: own_wf_def own_def DAG_def dv_def)

lemma used_own: "own_wf (own s) \<Longrightarrow> valid_dag d \<Longrightarrow> v_used (w_dags (own s) ! d) = d_used (DAG s d)"
  by (simp add: own_wf_def own_def DAG_def dv_def)

lemma own_wf_dag:
  assumes "own_wf w" "valid_dag d"
  shows "distinct (members d w)"
    "set (members d w) = {p. p < length (w_cnt w) \<and> w_cnt w ! p \<noteq> 0 \<and> w_owner w ! p = d}"
    "v_pref (w_dags w ! d) = Some p \<Longrightarrow> p \<in> set (members d w)"
    "\<not> v_used (w_dags w ! d) \<Longrightarrow> members d w = []"
    "v_joined (w_dags w ! d) \<Longrightarrow> v_used (w_dags w ! d)"
proof -
  have "d < length (w_dags w)" using assms by (simp add: own_wf_def)
  moreover have "own_inv w" using assms(1) by (simp add: own_wf_def)
  ultimately show "distinct (members d w)"
    "set (members d w) = {p. p < length (w_cnt w) \<and> w_cnt w ! p \<noteq> 0 \<and> w_owner w ! p = d}"
    "v_pref (w_dags w ! d) = Some p \<Longrightarrow> p \<in> set (members d w)"
    "\<not> v_used (w_dags w ! d) \<Longrightarrow> members d w = []"
    "v_joined (w_dags w ! d) \<Longrightarrow> v_used (w_dags w ! d)"
    unfolding own_inv_def members_def by blast+
qed

lemma pref_member:
  "own_wf (own s) \<Longrightarrow> valid_dag d \<Longrightarrow> d_preferred_parent (DAG s d) = Some p \<Longrightarrow> p \<in> set (members d (own s))"
  using own_wf_dag(3) [of "own s" d p] pref_own [of s d] by simp

lemma first_index_Some:
  "first_index P xs k = Some i \<Longrightarrow> k \<le> i \<and> i < k + length xs \<and> P (xs ! (i - k))"
  by (induction xs arbitrary: k) (fastforce split: if_splits simp: nth_Cons')+

lemma first_index_None: "first_index P xs k = None \<longleftrightarrow> (\<forall>x \<in> set xs. \<not> P x)"
  by (induction xs arbitrary: k) auto

lemma first_index_valid: "first_index P xs 0 = Some i \<Longrightarrow> i < length xs \<and> P (xs ! i)"
  using first_index_Some [of P xs 0 i] by simp

definition in_use :: "nat \<Rightarrow> owners \<Rightarrow> bool" where
  "in_use d w \<longleftrightarrow> v_used (w_dags w ! d)"

lemma get_dag_valid:
  assumes "own_wf (own s)" "rpl_get_dag i a s = Some d"
  shows "valid_dag d" "in_use d (own s)"
proof -
  from first_index_valid [OF assms(2) [unfolded rpl_get_dag_def Let_def]]
  have d: "d < length (dag_table s)" "d_joined (dag_table s ! d)" by blast+
  with own_wf_len [OF assms(1)] show v: "valid_dag d" by simp
  have "v_joined (w_dags (own s) ! d)" using d by (simp add: own_def dv_def)
  with own_wf_dag(5) [OF assms(1) v] show "in_use d (own s)" by (simp add: in_use_def)
qed

lemma find_member: "List.find P xs = Some x \<Longrightarrow> x \<in> set xs \<and> P x"
  by (induction xs) (auto split: if_splits)

lemma find_parent_member:
  "own_wf (own s) \<Longrightarrow> valid_dag d \<Longrightarrow> rpl_find_parent d a s = Some p \<Longrightarrow> p \<in> set (members d (own s))"
  by (auto simp: rpl_find_parent_def members_own dest: find_member)

section \<open>Removal\<close>

lemma own_upd_dag_rel:
  "(\<And>D. dv (f D) = g (dv D)) \<Longrightarrow> own (upd_dag d f s) = (own s)\<lparr>w_dags := updf d g (w_dags (own s))\<rparr>"
  by (simp add: own_def upd_dag_def map_updf)

theorem own_remove_parent: "own (rpl_remove_parent d p s) = own_remove d p (own s)"
proof -
  define s1 where "s1 = (if d_p2p (DAG s d) = None then
      (let s = uip_ds6_route_rm_by_nexthop (p_addr (PAR s p)) s
       in case uip_ds6_defrt_lookup (p_addr (PAR s p)) s of
            Some r \<Rightarrow> upd_dag d (\<lambda>D. D\<lparr>d_def_route := None\<rparr>) (uip_ds6_defrt_rm r s)
          | None \<Rightarrow> s) else s)"
  have own1: "own s1 = own s" by (simp add: s1_def Let_def split: option.split)
  let ?f = "\<lambda>D. D\<lparr>d_preferred_parent := (if d_preferred_parent D = Some p then None else d_preferred_parent D),
                d_parents := remove1 p (d_parents D)\<rparr>"
  have e: "rpl_remove_parent d p s = (upd_dag d ?f s1)\<lparr>parent_cnt := pool_free (parent_cnt (upd_dag d ?f s1)) p\<rparr>"
    by (simp add: rpl_remove_parent_def Let_def s1_def PAR_def uip_ds6_route_rm_by_nexthop_def)
  have c: "own (s\<lparr>parent_cnt := c\<rparr>) = (own s)\<lparr>w_cnt := c\<rparr>" for s c
    by (simp add: own_def)
  have u: "own (upd_dag d ?f s1) = (own s)\<lparr>w_dags := updf d (\<lambda>V. V\<lparr>v_pref := (if v_pref V = Some p then None else v_pref V),
                          v_parents := remove1 p (v_parents V)\<rparr>) (w_dags (own s))\<rparr>"
    unfolding own1 [symmetric] by (rule own_upd_dag_rel) (simp add: dv_def)
  have n: "parent_cnt (upd_dag d ?f s1) = w_cnt (own s)"
    unfolding own1 [symmetric] by (simp add: own_def upd_dag_def)
  show ?thesis
    unfolding e c u n by (simp add: own_remove_def)
qed

lemma own_remove_wf:
  "own_wf w \<Longrightarrow> valid_dag d \<Longrightarrow> p \<in> set (members d w) \<Longrightarrow> own_wf (own_remove d p w)"
  using own_remove_inv [of w d p] by (simp add: own_wf_def members_def own_remove_def)

lemma members_remove:
  "own_wf w \<Longrightarrow> valid_dag d \<Longrightarrow> members d (own_remove d p w) = remove1 p (members d w)"
  by (simp add: own_wf_def members_def own_remove_def)

lemma remove_parent_wf:
  assumes "own_wf (own s)" "valid_dag d" "p \<in> set (members d (own s))"
  shows "own_wf (own (rpl_remove_parent d p s))"
    "members d (own (rpl_remove_parent d p s)) = remove1 p (members d (own s))"
  using assms by (simp_all add: own_remove_parent own_remove_wf members_remove)

lemma remove_all_parents:
  "rpl_remove_parents d 0 s = fold (rpl_remove_parent d) (d_parents (DAG s d)) s"
  by (simp add: rpl_remove_parents_def)

lemma fold_remove_wf:
  "own_wf (own s) \<Longrightarrow> valid_dag d \<Longrightarrow> members d (own s) = ps \<Longrightarrow>
     own_wf (own (fold (rpl_remove_parent d) ps s)) \<and> members d (own (fold (rpl_remove_parent d) ps s)) = []"
proof (induction ps arbitrary: s)
  case (Cons p ps)
  then have "own_wf (own (rpl_remove_parent d p s))" "members d (own (rpl_remove_parent d p s)) = ps"
    using remove_parent_wf [of s d p] by simp_all
  with Cons.IH Cons.prems(2) show ?case by simp
qed simp

lemma remove_parents_wf:
  assumes "own_wf (own s)" "valid_dag d"
  shows "own_wf (own (rpl_remove_parents d 0 s))" "members d (own (rpl_remove_parents d 0 s)) = []"
  using fold_remove_wf [OF assms refl] members_own [OF assms] by (simp_all add: remove_all_parents)

lemma worst_parent_member:
  "worst_parent s pr ps w = Some x \<Longrightarrow> (x \<in> set ps \<and> pr \<noteq> Some x) \<or> w = Some x"
  by (induction ps arbitrary: w) (fastforce split: if_splits)+

lemma remove_worst_wf:
  assumes "own_wf (own s)" "valid_dag d"
  shows "own_wf (own (remove_worst_parent d r s))"
    "set (members d (own (remove_worst_parent d r s))) \<subseteq> set (members d (own s))"
proof -
  let ?w = "worst_parent s (d_preferred_parent (DAG s d)) (d_parents (DAG s d)) None"
  have "own_wf (own (remove_worst_parent d r s))
    \<and> set (members d (own (remove_worst_parent d r s))) \<subseteq> set (members d (own s))"
  proof (cases ?w)
    case None
    with assms show ?thesis by (simp add: remove_worst_parent_def)
  next
    case (Some w)
    with worst_parent_member have "w \<in> set (members d (own s))" by (fastforce simp: members_own [OF assms])
    note remove_parent_wf [OF assms this]
    with Some assms(1) show ?thesis by (auto simp: remove_worst_parent_def dest: set_remove1_subset [THEN subsetD])
  qed
  then show "own_wf (own (remove_worst_parent d r s))"
    "set (members d (own (remove_worst_parent d r s))) \<subseteq> set (members d (own s))" by blast+
qed

section \<open>Entering a parent\<close>

lemma own_set_cnt: "own (s\<lparr>parent_cnt := c\<rparr>) = (own s)\<lparr>w_cnt := c\<rparr>"
  by (simp add: own_def)

theorem own_enter_parent:
  "own (enter_parent d p dio addr (s\<lparr>parent_cnt := (parent_cnt s)[p := 1]\<rparr>)) = own_enter d p (own s)"
proof -
  have "map p_dag (updf p (\<lambda>P. P\<lparr>p_addr := a1, p_dag := d, p_rank := a2, p_link_metric := a3, p_dtsn := 0,
      p_mc := a4\<rparr>) xs) = updf p (\<lambda>_. d) (map p_dag xs)" for a1 a2 a3 a4 xs
    by (intro map_updf) simp
  moreover have "map dv (updf d (\<lambda>D. D\<lparr>d_parents := lst_add (d_parents D) p\<rparr>) xs)
      = updf d (\<lambda>V. V\<lparr>v_parents := lst_add (v_parents V) p\<rparr>) (map dv xs)" for xs
    by (intro map_updf) (simp add: dv_def)
  ultimately show ?thesis
    unfolding enter_parent_def Let_def own_def upd_par_def upd_dag_def own_enter_def by simp
qed

lemma own_enter_wf:
  assumes "own_wf w" "valid_dag d" "p < length (w_cnt w)" "w_cnt w ! p = 0" "v_used (w_dags w ! d)"
  shows "own_wf (own_enter d p w)" "members d (own_enter d p w) = members d w @ [p]"
proof -
  show "own_wf (own_enter d p w)"
    using assms own_enter_inv [of w d p] by (simp add: own_wf_def own_enter_def)
  from own_wf_dag(2) [OF assms(1,2)] assms(4) have "p \<notin> set (members d w)" by simp
  with assms(1,2) show "members d (own_enter d p w) = members d w @ [p]"
    by (simp add: members_def own_enter_def own_wf_def lst_add_def remove1_idem)
qed

lemma in_use_own: "own_wf (own s) \<Longrightarrow> valid_dag d \<Longrightarrow> in_use d (own s) = d_used (DAG s d)"
  by (simp add: in_use_def used_own)

lemma in_use_remove: "own_wf w \<Longrightarrow> in_use e (own_remove d p w) = in_use e w"
  by (cases "e = d"; cases "d < length (w_dags w)") (simp_all add: in_use_def own_remove_def)

lemma in_use_remove_parent: "own_wf (own s) \<Longrightarrow> in_use e (own (rpl_remove_parent d p s)) = in_use e (own s)"
  by (simp add: own_remove_parent in_use_remove)

lemma in_use_enter: "in_use e (own_enter d p w) = in_use e w"
  by (cases "e = d"; cases "d < length (w_dags w)") (simp_all add: in_use_def own_enter_def)

lemma in_use_remove_parents:
  assumes "own_wf (own s)" "valid_dag d"
  shows "in_use e (own (rpl_remove_parents d 0 s)) = in_use e (own s)"
proof -
  have "own_wf (own s) \<Longrightarrow> members d (own s) = ps
      \<Longrightarrow> in_use e (own (fold (rpl_remove_parent d) ps s)) = in_use e (own s)" for ps s
  proof (induction ps arbitrary: s)
    case (Cons p ps)
    then have "own_wf (own (rpl_remove_parent d p s))" "members d (own (rpl_remove_parent d p s)) = ps"
      using remove_parent_wf [of s d p] assms(2) by simp_all
    with Cons show ?case by (simp add: in_use_remove_parent)
  qed simp
  with assms members_own [OF assms] show ?thesis by (simp add: remove_all_parents)
qed

lemma in_use_remove_worst:
  assumes "own_wf (own s)"
  shows "in_use e (own (remove_worst_parent d r s)) = in_use e (own s)"
  using assms by (simp add: remove_worst_parent_def in_use_remove_parent split: option.split)

lemma enter_parent_wf:
  assumes "own_wf (own s)" "valid_dag d" "in_use d (own s)" "pool_alloc (parent_cnt s) = (Some p, cnt)"
  shows "own_wf (own (enter_parent d p dio a (s\<lparr>parent_cnt := cnt\<rparr>)))"
    "members d (own (enter_parent d p dio a (s\<lparr>parent_cnt := cnt\<rparr>))) = members d (own s) @ [p]"
    "in_use e (own (enter_parent d p dio a (s\<lparr>parent_cnt := cnt\<rparr>))) = in_use e (own s)"
proof -
  note al = pool_alloc_Some [OF assms(4)]
  have c: "w_cnt (own s) = parent_cnt s" by (simp add: own_def)
  show "own_wf (own (enter_parent d p dio a (s\<lparr>parent_cnt := cnt\<rparr>)))"
    "members d (own (enter_parent d p dio a (s\<lparr>parent_cnt := cnt\<rparr>))) = members d (own s) @ [p]"
    "in_use e (own (enter_parent d p dio a (s\<lparr>parent_cnt := cnt\<rparr>))) = in_use e (own s)"
    unfolding al(3) own_enter_parent
    using own_enter_wf [OF assms(1,2)] al assms(3) by (simp_all add: c in_use_def in_use_enter [unfolded in_use_def])
qed

lemma add_parent_wf:
  assumes "own_wf (own s)" "valid_dag d" "in_use d (own s)" "rpl_add_parent d dio a s = (r, s')"
  shows "own_wf (own s') \<and> in_use e (own s') = in_use e (own s)
    \<and> (\<forall>p. r = Some p \<longrightarrow> p \<in> set (members d (own s')))"
proof -
  obtain p1 c1 where a1: "pool_alloc (parent_cnt s) = (p1, c1)" by (rule prod.exhaust)
  let ?t = "remove_worst_parent d (o_rank dio) s"
  obtain p2 c2 where a2: "pool_alloc (parent_cnt ?t) = (p2, c2)" by (rule prod.exhaust)
  note t = remove_worst_wf(1) [OF assms(1,2), of "o_rank dio"]
  note u = in_use_remove_worst [OF assms(1)]
  show ?thesis
  proof (cases p1)
    case (Some p)
    with a1 assms(4) have "r = Some p" "s' = enter_parent d p dio a (s\<lparr>parent_cnt := c1\<rparr>)"
      by (simp_all add: rpl_add_parent_def)
    with enter_parent_wf [OF assms(1-3), of p c1] a1 Some show ?thesis by simp
  next
    case None
    show ?thesis
    proof (cases p2)
      case (Some p)
      with a1 a2 None assms(4) have "r = Some p" "s' = enter_parent d p dio a (?t\<lparr>parent_cnt := c2\<rparr>)"
        by (simp_all add: rpl_add_parent_def)
      with enter_parent_wf [OF t assms(2), of p c2] a2 Some u assms(3) show ?thesis by simp
    next
      assume "p2 = None"
      with a1 a2 None assms(4) have "r = None" "s' = ?t" by (simp_all add: rpl_add_parent_def)
      with t u show ?thesis by simp
    qed
  qed
qed

section \<open>Whole DAGs\<close>

lemma own_upd_dag_at:
  assumes "dv (f (DAG s d)) = g (dv (DAG s d))"
  shows "own (upd_dag d f s) = (own s)\<lparr>w_dags := updf d g (w_dags (own s))\<rparr>"
  using assms by (auto simp: own_def upd_dag_def updf_def map_update DAG_def)

lemma own_updf_at: "in_use d w \<Longrightarrow> valid_dag d \<Longrightarrow> own_wf w
    \<Longrightarrow> updf d (\<lambda>V. V\<lparr>v_used := True, v_joined := True, v_pref := x\<rparr>) (w_dags w) = w_dags (own_join d (own_pref d x w))"
  by (cases "w_dags w ! d") (auto simp: in_use_def own_join_def own_pref_def updf_def own_wf_def)

text \<open>A DAG that is in use is joined, with a member as preferred parent or none.\<close>

lemma upd_join_wf:
  assumes "own_wf (own s)" "valid_dag d" "in_use d (own s)"
    "dv (f (DAG s d)) = (dv (DAG s d))\<lparr>v_used := True, v_joined := True, v_pref := x\<rparr>"
    "\<And>p. x = Some p \<Longrightarrow> p \<in> set (members d (own s))"
  shows "own_wf (own (upd_dag d f s))" "in_use e (own (upd_dag d f s)) = in_use e (own s)"
    "members e (own (upd_dag d f s)) = members e (own s)"
proof -
  have o: "own (upd_dag d f s) = own_join d (own_pref d x (own s))"
    unfolding own_upd_dag_at [where f = f and g = "\<lambda>V. V\<lparr>v_used := True, v_joined := True, v_pref := x\<rparr>", OF assms(4)] own_updf_at [OF assms(3,2,1)] by (simp add: own_join_def own_pref_def)
  have l: "d < length (w_dags (own s))" using assms(1,2) by (simp add: own_wf_def)
  have "own_inv (own_pref d x (own s))"
    using assms(1,5) l by (intro own_pref_inv) (auto simp: own_wf_def members_def)
  moreover have "v_used (w_dags (own_pref d x (own s)) ! d)" using assms(3) l by (simp add: own_pref_def in_use_def)
  ultimately show "own_wf (own (upd_dag d f s))"
    unfolding o using assms(1) l own_join_inv [of "own_pref d x (own s)" d] by (simp add: own_wf_def own_join_def own_pref_def)
  show "in_use e (own (upd_dag d f s)) = in_use e (own s)" "members e (own (upd_dag d f s)) = members e (own s)"
    unfolding o using l by (cases "e = d"; simp add: own_join_def own_pref_def in_use_def members_def)+
qed

lemma alloc_dag_wf:
  assumes "own_wf (own s)" "rpl_alloc_dag i s = (r, s')"
  shows "own_wf (own s')" "r = Some d \<Longrightarrow> valid_dag d" "r = Some d \<Longrightarrow> in_use d (own s')"
proof -
  have "own_wf (own s') \<and> (\<forall>d. r = Some d \<longrightarrow> valid_dag d \<and> in_use d (own s'))"
  proof (cases "first_index (\<lambda>D. \<not> d_used D) (dag_table s) 0")
    case None
    with assms show ?thesis by (simp add: rpl_alloc_dag_def)
  next
    case (Some e)
    from first_index_valid [OF Some] have e: "e < length (dag_table s)" "\<not> d_used (dag_table s ! e)" by blast+
    with own_wf_len [OF assms(1)] have v: "valid_dag e" by simp
    let ?D = "dag0\<lparr>d_instance_id := i, d_def_route := None, d_rank := INFINITE_RANK,
        d_min_rank := INFINITE_RANK, d_used := True\<rparr>"
    have "dv ?D = \<lparr>v_used = True, v_joined = False, v_parents = [], v_pref = None\<rparr>"
      by (simp add: dv_def dag0_def)
    then have o: "own (upd_dag e (\<lambda>_. ?D) s) = own_alloc e (own s)"
      by (subst own_upd_dag_rel [where g = "\<lambda>_. \<lparr>v_used = True, v_joined = False, v_parents = [], v_pref = None\<rparr>"])
        (simp_all add: own_alloc_def)
    have "\<not> v_used (w_dags (own s) ! e)" using e by (simp add: own_def dv_def)
    from own_wf_dag(4) [OF assms(1) v this] have "v_parents (w_dags (own s) ! e) = []" by (simp add: members_def)
    with assms(1) v have "own_wf (own_alloc e (own s))"
      using own_alloc_inv [of "own s" e] by (simp add: own_wf_def own_alloc_def)
    moreover have "in_use e (own_alloc e (own s))" using assms(1) v by (simp add: in_use_def own_alloc_def own_wf_def)
    ultimately show ?thesis using Some assms(2) v o by (auto simp: rpl_alloc_dag_def)
  qed
  then show "own_wf (own s')" "r = Some d \<Longrightarrow> valid_dag d" "r = Some d \<Longrightarrow> in_use d (own s')" by blast+
qed

lemma own_free_dag:
  "own (rpl_free_dag d s) = own_free d (own (rpl_remove_parents d 0
     (if d_mop (DAG s d) \<noteq> RPL_MOP_P2P_ROUTE_DISCOVERY then rpl_remove_routes d s else s)))"
  unfolding rpl_free_dag_def Let_def
  by (subst own_upd_dag_rel [where g = "\<lambda>V. V\<lparr>v_used := False, v_joined := False\<rparr>"])
    (simp_all add: dv_def own_free_def)

lemma free_dag_wf:
  assumes "own_wf (own s)" "valid_dag d"
  shows "own_wf (own (rpl_free_dag d s))"
proof -
  let ?s = "if d_mop (DAG s d) \<noteq> RPL_MOP_P2P_ROUTE_DISCOVERY then rpl_remove_routes d s else s"
  have "own_wf (own ?s)" using assms(1) by simp
  note r = remove_parents_wf [OF this assms(2)]
  then show ?thesis unfolding own_free_dag
    using assms(2) own_free_inv [of "own (rpl_remove_parents d 0 ?s)" d]
    by (simp add: own_wf_def own_free_def members_def)
qed

section \<open>Parent selection and repair\<close>

text \<open>The invariant holds again and the same DAGs are in use.\<close>

definition keeps :: "node \<Rightarrow> node \<Rightarrow> bool" where
  "keeps s s' \<longleftrightarrow> (own_wf (own s) \<longrightarrow> own_wf (own s') \<and> (\<forall>e. in_use e (own s') = in_use e (own s)))"

lemma keeps_frame: "own s' = own s \<Longrightarrow> keeps s s'"
  by (simp add: keeps_def)

lemma keeps_refl [simp]: "keeps s s"
  by (simp add: keeps_def)

lemma keeps_trans [trans]: "keeps s s1 \<Longrightarrow> keeps s1 s2 \<Longrightarrow> keeps s s2"
  by (simp add: keeps_def)

lemma keeps_wf: "keeps s s' \<Longrightarrow> own_wf (own s) \<Longrightarrow> own_wf (own s')"
  by (simp add: keeps_def)

lemma keeps_in_use: "keeps s s' \<Longrightarrow> own_wf (own s) \<Longrightarrow> in_use d (own s') = in_use d (own s)"
  by (simp add: keeps_def)

lemma own_set_pref: "own (upd_dag d (\<lambda>D. D\<lparr>d_preferred_parent := x\<rparr>) s) = own_pref d x (own s)"
  by (subst own_upd_dag_rel [where g = "\<lambda>V. V\<lparr>v_pref := x\<rparr>"]) (simp_all add: dv_def own_pref_def)

lemma own_pref_wf:
  assumes "own_wf w" "valid_dag d" "\<And>p. x = Some p \<Longrightarrow> p \<in> set (members d w)"
  shows "own_wf (own_pref d x w)" "in_use e (own_pref d x w) = in_use e w" "members e (own_pref d x w) = members e w"
proof -
  have l: "d < length (w_dags w)" using assms(1,2) by (simp add: own_wf_def)
  show "own_wf (own_pref d x w)"
    using assms(1,3) l own_pref_inv [of w d x] by (simp add: own_wf_def members_def own_pref_def)
  show "in_use e (own_pref d x w) = in_use e w" "members e (own_pref d x w) = members e w"
    using l by (cases "e = d"; simp add: own_pref_def in_use_def members_def)+
qed

lemma own_switch_parent: "own (switch_parent d b s) = own_pref d (Some b) (own s)"
  by (simp add: switch_parent_def Let_def own_set_pref)

lemma etx_best_parent_among: "etx_best_parent s p1 p2 = Some x \<Longrightarrow> x = p1 \<or> x = p2"
  by (auto simp: etx_best_parent_def Let_def split: if_splits)

lemma select_best_member: "select_best s ps b = Some x \<Longrightarrow> x \<in> set ps \<or> b = Some x"
  by (induction ps arbitrary: b) (fastforce split: if_splits option.splits dest: etx_best_parent_among)+

lemma select_parent_wf:
  assumes "own_wf (own s)" "valid_dag d" "rpl_select_parent d s = (r, s')"
  shows "keeps s s'" "r = Some b \<Longrightarrow> members d (own s') = members d (own s)"
proof -
  have "keeps s s' \<and> (r \<noteq> None \<longrightarrow> members d (own s') = members d (own s))"
  proof (cases "select_best s (d_parents (DAG s d)) None")
    case None
    with assms(3) show ?thesis by (simp add: rpl_select_parent_def)
  next
    case (Some best)
    with select_best_member members_own [OF assms(1,2)] have m: "best \<in> set (members d (own s))" by fastforce
    define s1 where "s1 = (if d_preferred_parent (DAG (chk_of d s) d) \<noteq> Some best
        then switch_parent d best (chk_of d s) else chk_of d s)"
    define s2 where "s2 = upd_dag d (\<lambda>D. D\<lparr>d_rank := etx_calculate_rank s1 (Some best) 0\<rparr>) s1"
    have 1: "own_wf (own s1) \<and> (\<forall>e. in_use e (own s1) = in_use e (own s)) \<and> members d (own s1) = members d (own s)"
      using own_pref_wf [OF assms(1,2), of "Some best"] m assms(1) by (simp add: s1_def own_switch_parent)
    have 2: "own s2 = own s1" by (simp add: s2_def)
    define s3 where "s3 = chk_acceptable d (p_rank (PAR s2 best)) s2"
    have 3: "own s3 = own s1" by (simp add: s3_def 2)
    have 4: "keeps s3 (rpl_remove_parents d 0 (dao_output (Some best) 0 s3))"
      using remove_parents_wf [of "dao_output (Some best) 0 s3" d] in_use_remove_parents [of "dao_output (Some best) 0 s3" d] assms(2)
      by (simp add: keeps_def)
    have k: "keeps s s3" using 1 3 by (simp add: keeps_def)
    have e: "rpl_select_parent d s = (if d_rank (DAG s2 d) < d_min_rank (DAG s2 d)
              then (Some best, upd_dag d (\<lambda>D. D\<lparr>d_min_rank := d_rank D\<rparr>) s2)
              else if \<not> acceptable_rank (DAG s3 d) (p_rank (PAR s3 best))
                 then (None, rpl_remove_parents d 0 (dao_output (Some best) 0 s3))
                 else (Some best, s3))"
      by (simp add: rpl_select_parent_def Some Let_def s1_def [symmetric] s2_def [symmetric] s3_def [symmetric])
    show ?thesis
      using assms(3) [unfolded e] keeps_trans [OF k 4] k 1 2 3
      by (auto split: if_splits simp: keeps_def)
  qed
  then show "keeps s s'" "r = Some b \<Longrightarrow> members d (own s') = members d (own s)" by auto
qed

lemma remove_parents_keeps: "valid_dag d \<Longrightarrow> keeps s (rpl_remove_parents d 0 s)"
  using remove_parents_wf in_use_remove_parents by (simp add: keeps_def)

lemma local_repair_keeps:
  assumes "valid_dag d" shows "keeps s (rpl_local_repair d s)"
proof -
  have "keeps s (upd_dag d (\<lambda>D. D\<lparr>d_rank := INFINITE_RANK\<rparr>) s)" by (simp add: keeps_frame)
  also note remove_parents_keeps [OF assms]
  finally show ?thesis by (simp add: rpl_local_repair_def keeps_def)
qed

lemma parent_event_keeps:
  assumes "own_wf (own s)" "valid_dag d" "rpl_process_parent_event d p s = (b, s')"
  shows "keeps s s'"
proof -
  obtain r s1 where sel: "rpl_select_parent d s = (r, s1)" by (rule prod.exhaust)
  note k = select_parent_wf(1) [OF assms(1,2) sel]
  show ?thesis
  proof (cases r)
    case None
    with sel assms(3) have "s' = rpl_local_repair d s1" by (simp add: rpl_process_parent_event_def)
    with keeps_trans [OF k local_repair_keeps [OF assms(2)]] show ?thesis by simp
  next
    case (Some x)
    with sel assms(3) have "own s' = own s1" by (auto simp: rpl_process_parent_event_def Let_def split: if_splits)
    with k show ?thesis by (simp add: keeps_def)
  qed
qed

lemma recalculate_keeps: "keeps s (rpl_recalculate_ranks s)"
proof (cases "own_wf (own s)")
  case True
  show ?thesis
  proof (cases "rpl_get_dag RPL_ANY_INSTANCE None s")
    case None
    then show ?thesis by (simp add: rpl_recalculate_ranks_def)
  next
    case (Some d)
    note v = get_dag_valid [OF True Some]
    show ?thesis
    proof (cases "List.find (\<lambda>p. p_updated (PAR s p)) (d_parents (DAG s d))")
      case None
      with Some show ?thesis by (simp add: rpl_recalculate_ranks_def)
    next
      case f: (Some p)
      let ?t = "upd_par p (\<lambda>P. P\<lparr>p_updated := False\<rparr>) s"
      obtain b u where e: "rpl_process_parent_event d p ?t = (b, u)" by (rule prod.exhaust)
      have "keeps ?t u" using parent_event_keeps [OF _ v(1) e] True by simp
      with Some f e show ?thesis by (simp add: rpl_recalculate_ranks_def keeps_def)
    qed
  qed
qed (simp add: keeps_def)

end
