(* ===== verification/Rpl_Dio_Owners.thy ===== *)
theory Rpl_Dio_Owners
  imports Rpl_Owners
begin

text \<open>
  The ownership invariant through the composed operations: repair, joining, the root, the
  processing of a DIO, route discovery, and the dispatcher.
\<close>

section \<open>Repair and the root\<close>

lemma global_repair_wf:
  assumes "own_wf (own s)" "valid_dag d" "in_use d (own s)"
  shows "own_wf (own (global_repair a d dio s))"
proof -
  define s1 where "s1 = etx_reset d (chk_of d (upd_dag d (\<lambda>D. D\<lparr>d_version := o_version dio, d_dtsn_out := 1\<rparr>)
    (rpl_remove_parents d 0 s)))"
  have o1: "own s1 = own (rpl_remove_parents d 0 s)" by (simp add: s1_def etx_reset_def)
  have k: "own_wf (own s1)" "in_use d (own s1)"
    using remove_parents_keeps [OF assms(2), of s] assms(1,3) by (simp_all add: o1 keeps_def)
  obtain r s2 where a: "rpl_add_parent d dio a s1 = (r, s2)" by (rule prod.exhaust)
  from add_parent_wf [OF k(1) assms(2) k(2) a] have w: "own_wf (own s2)" by blast
  have e: "global_repair a d dio s = (case rpl_add_parent d dio a s1 of
           (None, s) \<Rightarrow> upd_dag d (\<lambda>D. D\<lparr>d_rank := INFINITE_RANK\<rparr>) s
         | (Some p, s) \<Rightarrow>
             (let s = snd (rpl_set_default_route d (Some a) s);
                  s = upd_dag d (\<lambda>D. D\<lparr>d_rank := etx_calculate_rank s None (o_rank dio),
                        d_min_rank := etx_calculate_rank s None (o_rank dio)\<rparr>) s;
                  s = rpl_reset_dio_timer d True s
              in if should_send_dao d dio p s then rpl_schedule_dao d s else s))"
    by (simp add: global_repair_def Let_def s1_def [symmetric])
  show ?thesis unfolding e a using w by (cases r) (simp_all add: Let_def)
qed

lemma set_root_wf:
  assumes "own_wf (own s)" "rpl_set_root a s = (r, s')"
  shows "own_wf (own s')"
proof -
  obtain v s1 where vs: "(case rpl_get_dag (uint RPL_DEFAULT_INSTANCE) None s of
      Some d \<Rightarrow> (d_version (DAG s d), rpl_free_dag d s) | None \<Rightarrow> (- 1, s)) = (v, s1)" by (rule prod.exhaust)
  have w1: "own_wf (own s1)"
    using vs assms(1) free_dag_wf [OF assms(1)] get_dag_valid [OF assms(1)] by (auto split: option.splits)
  obtain q s2 where al: "rpl_alloc_dag RPL_DEFAULT_INSTANCE s1 = (q, s2)" by (rule prod.exhaust)
  show ?thesis
  proof (cases q)
    case None
    with assms(2) alloc_dag_wf(1) [OF w1 al] show ?thesis unfolding rpl_set_root_def vs by (simp add: al)
  next
    case (Some d)
    note al' = alloc_dag_wf [OF w1 al [unfolded Some]]
    let ?f = "\<lambda>D. D\<lparr>d_joined := True, d_version := v + 1, d_grounded := 0,
                        d_mop := RPL_MOP_DEFAULT, d_preferred_parent := None, d_dtsn_out := 1\<rparr>"
    have "d_used (DAG s2 d)" using al' in_use_own [of s2 d] by simp
    then have "dv (?f (DAG s2 d)) = (dv (DAG s2 d))\<lparr>v_used := True, v_joined := True, v_pref := None\<rparr>"
      by (simp add: dv_def)
    from upd_join_wf(1) [where f = ?f, OF al'(1) al'(2) al'(3) this] have "own_wf (own (upd_dag d ?f s2))" by simp
    with assms(2) Some show ?thesis unfolding rpl_set_root_def vs by (auto simp: al Let_def)
  qed
qed

section \<open>Route discovery\<close>

lemma frame_p2p_alloc [simp]:
  "rpl_p2p_alloc_dag d s = (r, s') \<Longrightarrow> own s' = own s" "rpl_p2p_alloc_dag d s = (r, s') \<Longrightarrow> srv s' = srv s"
  by (auto simp: rpl_p2p_alloc_dag_def split: option.splits)

lemma own_discover_join:
  assumes "own_wf (own s)" "valid_dag d" "in_use d (own s)"
  shows "own_wf (own (upd_dag d (\<lambda>D. D\<lparr>d_p2p := x, d_used := True, d_joined := True, d_version := 0,
      d_preferred_parent := None, d_grounded := 0, d_mop := m, d_dtsn_out := 0, d_preference := 0, d_dag_id := a\<rparr>) s))"
proof -
  let ?f = "\<lambda>D. D\<lparr>d_p2p := x, d_used := True, d_joined := True, d_version := 0,
      d_preferred_parent := None, d_grounded := 0, d_mop := m, d_dtsn_out := 0, d_preference := 0, d_dag_id := a\<rparr>"
  have "dv (?f (DAG s d)) = (dv (DAG s d))\<lparr>v_used := True, v_joined := True, v_pref := None\<rparr>"
    by (simp add: dv_def)
  from upd_join_wf(1) [where f = ?f, OF assms this] show ?thesis by simp
qed

lemma discover_route_wf:
  assumes "own_wf (own s)" "rpl_discover_route target s = (b, s')"
  shows "own_wf (own s')"
proof -
  define s1 where "s1 = s\<lparr>p2p_instance := (p2p_instance s + 1) mod 0x40\<rparr>"
  define i where "i = RPL_LOCAL_DEFAULT_INSTANCE OR p2p_instance s1"
  define s2 where "s2 = (case rpl_get_dag (uint i) (rpl_get_own_addr True s1) s1 of
                 Some d \<Rightarrow> rpl_free_dag d s1 | None \<Rightarrow> s1)"
  have w1: "own_wf (own s1)" using assms(1) by (simp add: s1_def)
  have w2: "own_wf (own s2)"
    using w1 free_dag_wf [OF w1] get_dag_valid [OF w1] by (auto simp: s2_def split: option.splits)
  obtain q s3 where al: "rpl_alloc_dag i s2 = (q, s3)" by (rule prod.exhaust)
  show ?thesis
  proof (cases q)
    case None
    with assms(2) alloc_dag_wf(1) [OF w2 al] show ?thesis
      by (simp add: rpl_discover_route_def Let_def s1_def [symmetric] i_def [symmetric] s2_def [symmetric] al)
  next
    case (Some d)
    note al' = alloc_dag_wf [OF w2 al [unfolded Some]]
    obtain z s4 where pa: "rpl_p2p_alloc_dag d s3 = (z, s4)" by (rule prod.exhaust)
    have w4: "own_wf (own s4)" "valid_dag d" "in_use d (own s4)"
      using al' frame_p2p_alloc(1) [OF pa] by simp_all
    have f: "own_wf (own (rpl_free_dag d (upd_dag d (\<lambda>D. D\<lparr>d_p2p := None\<rparr>) s4)))"
      using free_dag_wf [OF _ w4(2)] w4(1) by simp
    show ?thesis
      using assms(2) f own_discover_join [of "chk_own s4" d] w4
      by (auto simp: rpl_discover_route_def Let_def s1_def [symmetric] i_def [symmetric] s2_def [symmetric] al Some pa
          split: option.splits)
  qed
qed

lemma p2p_free_dag_wf:
  assumes "own_wf (own s)" "\<And>d. q_dag (P2P s q) = Some d \<Longrightarrow> valid_dag d"
  shows "own_wf (own (rpl_p2p_free_dag q s))"
proof -
  let ?s = "fold (free_addr_list q) [0..<RPL_P2P_MAX_PARTIAL_ROUTES] s"
  have b: "q_dag (P2P (free_addr_list q i s) q) = q_dag (P2P s q)" for i s
    by (simp add: free_addr_list_def Let_def P2P_def upd_p2p_def updf_def nth_list_update)
  have "q_dag (P2P ?s q) = q_dag (P2P s q)" by (rule frame_fold) (rule b)
  then show ?thesis using assms free_dag_wf [of "upd_dag d (\<lambda>D. D\<lparr>d_p2p := None\<rparr>) ?s" d for d]
    by (auto simp: rpl_p2p_free_dag_def Let_def frame_fold split: option.split)
qed

section \<open>Joining\<close>

lemma join_p2p_wf:
  assumes "own_wf (own s)" "valid_dag d" "join_p2p d dio s = (b, s')"
  shows "own_wf (own s')"
proof (cases "o_rdo dio")
  case None
  with assms show ?thesis by (auto simp: join_p2p_def)
next
  case (Some rdo)
  define s1 where "s1 = (if 0 < rd_max_rank rdo then chk_rank d s else s)"
  have w1: "own_wf (own s1)" using assms(1) by (simp add: s1_def)
  obtain z s2 where pa: "rpl_p2p_alloc_dag d s1 = (z, s2)" by (rule prod.exhaust)
  have w2: "own_wf (own s2)" using w1 frame_p2p_alloc(1) [OF pa] by simp
  show ?thesis
    using assms(3) w2 free_dag_wf [OF w1 assms(2)] free_dag_wf [OF _ assms(2), of "upd_dag d (\<lambda>D. D\<lparr>d_p2p := None\<rparr>) s2"]
    by (auto simp: join_p2p_def Some Let_def s1_def [symmetric] pa split: if_splits option.splits)
qed

lemma own_dio_join:
  assumes "own_wf (own s)" "valid_dag d" "in_use d (own s)" "p \<in> set (members d (own s))"
  shows "own_wf (own (upd_dag d (\<lambda>D. D\<lparr>d_joined := True, d_grounded := a1, d_mop := a2,
      d_preference := a3, d_instance_id := a4, d_version := a5, d_preferred_parent := Some p\<rparr>) s))"
proof -
  let ?f = "\<lambda>D. D\<lparr>d_joined := True, d_grounded := a1, d_mop := a2,
      d_preference := a3, d_instance_id := a4, d_version := a5, d_preferred_parent := Some p\<rparr>"
  have "d_used (DAG s d)" using assms(1-3) in_use_own [of s d] by simp
  then have "dv (?f (DAG s d)) = (dv (DAG s d))\<lparr>v_used := True, v_joined := True, v_pref := Some p\<rparr>"
    by (simp add: dv_def)
  from upd_join_wf(1) [where f = ?f, OF assms(1-3) this] assms(4) show ?thesis by simp
qed

text \<open>What follows the entry of the parent.\<close>

lemma join_dag_wf:
  assumes "own_wf (own s)"
  shows "own_wf (own (join_dag a dio s))"
proof -
  obtain q s1 where al: "rpl_alloc_dag (o_instance_id dio) s = (q, s1)" by (rule prod.exhaust)
  note w1 = alloc_dag_wf [OF assms al]
  show ?thesis
  proof (cases q)
    case None
    with al w1 show ?thesis by (simp add: join_dag_def)
  next
    case q: (Some d)
    obtain r s2 where ap: "rpl_add_parent d dio a s1 = (r, s2)" by (rule prod.exhaust)
    have w2: "own_wf (own s2)" "in_use d (own s2)" "\<And>p. r = Some p \<Longrightarrow> p \<in> set (members d (own s2))"
      using add_parent_wf [OF w1(1) w1(2) [OF q] w1(3) [OF q] ap] w1(3) [OF q] by blast+
    show ?thesis
    proof (cases r)
      case None
      with al q ap w2 show ?thesis by (simp add: join_dag_def)
    next
      case r: (Some p)
      let ?c = "case o_dodag_config dio of None \<Rightarrow> DEFAULT_DODAG_CONFIG | Some c \<Rightarrow> c"
      obtain b s3 where cf: "rpl_set_dodag_config d ?c s2 = (b, s3)" by (rule prod.exhaust)
      have o3: "own (join_prefix d (o_prefix_info dio) s3) = own s2" using cf by simp
      define s4 where "s4 = upd_dag d (\<lambda>D. D\<lparr>d_joined := True, d_grounded := o_grounded dio, d_mop := o_mop dio,
                 d_preference := o_preference dio, d_instance_id := o_instance_id dio,
                 d_version := o_version dio, d_preferred_parent := Some p\<rparr>) (join_prefix d (o_prefix_info dio) s3)"
      have w4: "own_wf (own s4)"
        unfolding s4_def using w2 r o3 by (intro own_dio_join w1(2) [OF q]) simp_all
      define s5 where "s5 = upd_dag d (\<lambda>D. D\<lparr>d_dag_id := take 16 (o_dag_id dio)\<rparr>) (of_update_metric_container d s4)"
      define s6 where "s6 = snd (rpl_set_default_route d (Some a) (rpl_reset_dio_timer d True
         (upd_dag d (\<lambda>D. D\<lparr>d_rank := etx_calculate_rank s5 (Some p) (o_rank dio),
                       d_min_rank := etx_calculate_rank s5 (Some p) (o_rank dio)\<rparr>) s5)))"
      have w6: "own_wf (own s6)" using w4 by (simp add: s6_def s5_def)
      obtain ok s7 where j: "(if o_mop dio = RPL_MOP_P2P_ROUTE_DISCOVERY then join_p2p d dio s6
                      else (True, upd_dag d (\<lambda>D. D\<lparr>d_p2p := None\<rparr>) s6)) = (ok, s7)" by (rule prod.exhaust)
      have w7: "own_wf (own s7)"
        using j w6 join_p2p_wf [OF w6 w1(2) [OF q], of dio] by (auto split: if_splits)
      show ?thesis
      proof (cases b)
        case False
        with al q ap r cf w2 show ?thesis using o3 by (simp add: join_dag_def)
      next
        case True
        have "join_dag a dio s = (if ok \<and> should_send_dao d dio p s7 then rpl_schedule_dao d s7 else s7)"
          using True
          by (simp only: join_dag_def al q ap r cf j prod.case option.case bool.case Let_def
              s4_def [symmetric] s5_def [symmetric] s6_def [symmetric])
        with w7 show ?thesis by simp
      qed
    qed
  qed
qed

section \<open>Processing a DIO\<close>

lemma keep_two_keeps:
  assumes "valid_dag d" shows "keeps s (keep_two_parents d p s)"
proof (cases "own_wf (own s)")
  case True
  show ?thesis
  proof (cases "List.find (\<lambda>p2. p2 \<noteq> p \<and> d_preferred_parent (DAG s d) \<noteq> Some p2) (d_parents (DAG s d))")
    case None
    then show ?thesis by (simp add: keep_two_parents_def)
  next
    case (Some x)
    with find_member members_own [OF True assms] have "x \<in> set (members d (own s))" by metis
    from remove_parent_wf(1) [OF True assms this] in_use_remove_parent [OF True] Some
    show ?thesis by (simp add: keep_two_parents_def keeps_def)
  qed
qed (simp add: keeps_def)

lemma frame_after_event [simp]: "own (p2p_after_event d p dio rdo b s) = own s" "srv (p2p_after_event d p dio rdo b s) = srv s"
  by (simp_all add: p2p_after_event_def Let_def with_p2p_views frame_partial_route)

lemma process_candidate_wf:
  assumes "own_wf (own s)" "valid_dag d"
  shows "own_wf (own (process_candidate d p dio s))"
proof -
  define s1 where "s1 = (if o_mop dio = RPL_MOP_P2P_ROUTE_DISCOVERY then chk_of d (keep_two_parents d p s) else s)"
  define s2 where "s2 = upd_par p (\<lambda>P. P\<lparr>p_mc := o_mc dio, p_rank := o_rank dio\<rparr>) s1"
  have "own_wf (own s1)" using keeps_wf [OF keep_two_keeps [OF assms(2)] assms(1)] assms(1) by (simp add: s1_def)
  then have w2: "own_wf (own s2)" by (simp add: s2_def)
  obtain b s3 where e: "rpl_process_parent_event d p s2 = (b, s3)" by (rule prod.exhaust)
  have w3: "own_wf (own s3)" by (rule keeps_wf [OF parent_event_keeps [OF w2 assms(2) e] w2])
  show ?thesis
    using w3 e by (simp add: process_candidate_def Let_def s1_def [symmetric] s2_def [symmetric] split: bool.split option.split)
qed

lemma find_candidate_wf:
  assumes "own_wf (own s)" "valid_dag d" "in_use d (own s)" "find_candidate d a dio s = (r, s')"
  shows "own_wf (own s')"
proof (cases "rpl_find_parent d a s")
  case None
  define s1 where "s1 = (if length (d_parents (DAG s d)) = RPL_MAX_PARENTS then remove_worst_parent d (o_rank dio) s else s)"
  have "own_wf (own s1)" "in_use d (own s1)"
    using remove_worst_wf(1) [OF assms(1,2)] in_use_remove_worst [OF assms(1)] assms(1,3) by (simp_all add: s1_def)
  moreover have "rpl_add_parent d dio a s1 = (r, s')"
    using assms(4) None by (simp add: find_candidate_def Let_def s1_def [symmetric])
  ultimately show ?thesis using add_parent_wf [of s1 d dio a r s'] assms(2) by blast
next
  case (Some p)
  with assms show ?thesis by (auto simp: find_candidate_def Let_def split: if_splits)
qed

lemma process_sender_wf:
  assumes "own_wf (own s)" "valid_dag d" "in_use d (own s)"
  shows "own_wf (own (process_sender d a dio s))"
proof -
  obtain r s1 where f: "find_candidate d a dio s = (r, s1)" by (rule prod.exhaust)
  from find_candidate_wf [OF assms f] process_candidate_wf [OF _ assms(2)] f show ?thesis
    by (cases r) (simp_all add: process_sender_def)
qed

lemma same_version_wf:
  assumes "own_wf (own s)" "valid_dag d" "in_use d (own s)"
  shows "own_wf (own (process_same_version d a dio s))"
proof -
  define s1 where "s1 = (if o_rank dio = INFINITE_RANK then rpl_reset_dio_timer d True s else s)"
  have o: "own s1 = own s" by (simp add: s1_def)
  have p: "own_wf (own (process_sender d a dio t))" if "own t = own s" for t
    using process_sender_wf [of t d a dio] that assms by simp
  have "own_wf (own (with_p2p d (\<lambda>q s.
             if q_expired (P2P s q) then s
             else (case o_rdo dio of
                     None \<Rightarrow> set_fault s
                   | Some rdo \<Rightarrow>
                       (let s = (if 0 < rd_max_rank rdo then chk_rank d s else s) in
                        if 0 < rd_max_rank rdo \<and> ucast (rd_max_rank rdo) < DAG_RANK (o_rank dio) (DAG s d)
                        then s else process_sender d a dio s))) s1))"
    using assms(1) o by (simp add: with_p2p_def Let_def p split: option.split)
  then show ?thesis
    unfolding process_same_version_def Let_def s1_def [symmetric] using assms(1) o p [OF o] by simp
qed

theorem process_dio_wf:
  assumes "own_wf (own s)"
  shows "own_wf (own (rpl_process_dio a dio s))"
proof (cases "rpl_get_dag (uint (o_instance_id dio)) (Some (o_dag_id dio)) s")
  case None
  show ?thesis unfolding rpl_process_dio_def None option.case using assms join_dag_wf [OF assms] by simp
next
  case (Some d)
  note v = get_dag_valid [OF assms Some]
  have r: "own_wf (own (rpl_reset_dio_timer d True s))"
    "own_wf (own (rpl_reset_dio_timer d True (upd_dag d (\<lambda>D. D\<lparr>d_version := o_version dio + 1\<rparr>) s)))"
    using assms by simp_all
  show ?thesis unfolding rpl_process_dio_def Some option.case
    using assms r global_repair_wf [OF assms v] same_version_wf [OF assms v] by (simp only: split: if_split) blast
qed

end
