(* ===== verification/Rpl_P2p_Safety.thy ===== *)
theory Rpl_P2p_Safety
  imports Rpl_Dio_Owners
begin

text \<open>
  Memory safety of the address pool of the partial routes: every block on a partial route
  is allocated, no block is on two routes or twice on one, and the links between DAGs and
  P2P extensions stay inside their tables.
\<close>

section \<open>The invariant\<close>

type_synonym slot = "nat \<times> nat"

definition slots :: "slot set" where
  "slots = {..<RPL_MAX_DAG_P2P_ENTRIES} \<times> {..<RPL_P2P_MAX_PARTIAL_ROUTES}"

definition routes_ok :: "(slot \<Rightarrow> nat list) \<Rightarrow> u8 list \<Rightarrow> bool" where
  "routes_ok f c \<longleftrightarrow> pool_wf c
     \<and> (\<forall>x \<in> slots. distinct (f x) \<and> set (f x) \<subseteq> pool_used c)
     \<and> (\<forall>x \<in> slots. \<forall>y \<in> slots. x \<noteq> y \<longrightarrow> set (f x) \<inter> set (f y) = {})"

definition slot_route :: "p2p_view \<Rightarrow> slot \<Rightarrow> nat list" where
  "slot_route z x = z_routes z ! fst x ! snd x"

definition p2p_wf :: "p2p_view \<Rightarrow> bool" where
  "p2p_wf z \<longleftrightarrow> length (z_routes z) = RPL_MAX_DAG_P2P_ENTRIES
     \<and> (\<forall>rs \<in> set (z_routes z). length rs = RPL_P2P_MAX_PARTIAL_ROUTES)
     \<and> length (z_links z) = RPL_MAX_DAG_ENTRIES \<and> length (z_back z) = RPL_MAX_DAG_P2P_ENTRIES
     \<and> (\<forall>q. Some q \<in> set (z_links z) \<longrightarrow> q < RPL_MAX_DAG_P2P_ENTRIES)
     \<and> (\<forall>d. Some d \<in> set (z_back z) \<longrightarrow> valid_dag d)
     \<and> routes_ok (slot_route z) (z_cnt z)"

abbreviation valid_p2p :: "nat \<Rightarrow> bool" where
  "valid_p2p q \<equiv> q < RPL_MAX_DAG_P2P_ENTRIES"

lemma routes_ok_cong: "routes_ok f c \<Longrightarrow> (\<And>x. x \<in> slots \<Longrightarrow> g x = f x) \<Longrightarrow> routes_ok g c"
  by (simp add: routes_ok_def)

lemma routes_ok_drop: "routes_ok f c \<Longrightarrow> (\<And>x. x \<in> slots \<Longrightarrow> g x = f x \<or> g x = []) \<Longrightarrow> routes_ok g c"
  unfolding routes_ok_def by (metis distinct.simps(1) empty_set empty_subsetI inf_bot_left inf_bot_right)

lemma routes_ok_clear:
  assumes "routes_ok f c" "x \<in> slots"
  shows "routes_ok (f(x := [])) (fold (\<lambda>a c. pool_free c a) (f x) c)"
proof -
  from assms have "pool_wf c" "set (f x) \<subseteq> {..<length c}"
    by (auto simp: routes_ok_def dest: pool_used_less)
  note fp = fold_pool_free [OF this]
  have "set (f y) \<subseteq> pool_used c - set (f x)" if "y \<in> slots" "y \<noteq> x" for y
    using assms that unfolding routes_ok_def by blast
  with fp assms show ?thesis by (simp add: routes_ok_def)
qed

lemma routes_ok_push:
  assumes "routes_ok f c" "x \<in> slots" "pool_alloc c = (Some a, c')"
  shows "routes_ok (f(x := lst_add (f x) a)) c'"
proof -
  note al = pool_alloc_Some [OF assms(3)]
  have n: "a \<notin> set (f y)" if "y \<in> slots" for y
    using assms(1) al(2) that by (auto simp: routes_ok_def pool_used_def)
  have wf: "pool_wf c'"
    using assms(1) unfolding al(3) routes_ok_def pool_wf_def by (auto dest!: set_update_subset_insert [THEN subsetD])
  have u: "pool_used c' = insert a (pool_used c)" using al by (auto simp: pool_used_def nth_list_update)
  show ?thesis
    using assms(1,2) n wf unfolding routes_ok_def u by (auto simp: lst_add_def remove1_idem)
qed

lemma p2p_wf_lens:
  assumes "p2p_wf (p2v s)"
  shows "length (dag_p2p_table s) = RPL_MAX_DAG_P2P_ENTRIES" "length (dag_table s) = RPL_MAX_DAG_ENTRIES"
    "valid_p2p q \<Longrightarrow> length (q_partial_routes (P2P s q)) = RPL_P2P_MAX_PARTIAL_ROUTES"
    "valid_dag d \<Longrightarrow> d_p2p (DAG s d) = Some q \<Longrightarrow> valid_p2p q"
    "valid_p2p q \<Longrightarrow> q_dag (P2P s q) = Some d \<Longrightarrow> valid_dag d"
proof -
  show l: "length (dag_p2p_table s) = RPL_MAX_DAG_P2P_ENTRIES" "length (dag_table s) = RPL_MAX_DAG_ENTRIES"
    using assms by (simp_all add: p2p_wf_def p2v_def)
  show "valid_p2p q \<Longrightarrow> length (q_partial_routes (P2P s q)) = RPL_P2P_MAX_PARTIAL_ROUTES"
    using assms l(1) by (simp add: p2p_wf_def p2v_def P2P_def)
  show "valid_p2p q" if "valid_dag d" "d_p2p (DAG s d) = Some q"
  proof -
    have "Some q \<in> set (map d_p2p (dag_table s))" using that l(2) by (metis DAG_def image_eqI list.set_map nth_mem)
    with assms show ?thesis by (simp add: p2p_wf_def p2v_def)
  qed
  show "valid_dag d" if "valid_p2p q" "q_dag (P2P s q) = Some d"
  proof -
    have "Some d \<in> set (map q_dag (dag_p2p_table s))" using that l(1) by (metis P2P_def image_eqI list.set_map nth_mem)
    with assms show ?thesis by (simp add: p2p_wf_def p2v_def)
  qed
qed

lemma p2v_slot: "p2p_wf (p2v s) \<Longrightarrow> valid_p2p q \<Longrightarrow> slot_route (p2v s) (q, i) = q_partial_routes (P2P s q) ! i"
  by (simp add: slot_route_def p2v_def P2P_def p2p_wf_lens)

section \<open>The operations on the address pool\<close>

definition z_set :: "nat \<Rightarrow> nat \<Rightarrow> nat list \<Rightarrow> u8 list \<Rightarrow> p2p_view \<Rightarrow> p2p_view" where
  "z_set q i r c z = z\<lparr>z_routes := updf q (\<lambda>rs. rs[i := r]) (z_routes z), z_cnt := c\<rparr>"

lemma z_set_wf:
  assumes "p2p_wf z" "valid_p2p q" "i < RPL_P2P_MAX_PARTIAL_ROUTES" "routes_ok ((slot_route z)((q, i) := r)) c"
  shows "p2p_wf (z_set q i r c z)"
proof -
  have l: "length (z_routes z ! q) = RPL_P2P_MAX_PARTIAL_ROUTES" "q < length (z_routes z)"
    using assms(1,2) by (simp_all add: p2p_wf_def)
  have "routes_ok (slot_route (z_set q i r c z)) c"
    using assms(4) by (rule routes_ok_cong) (use l assms(3) in \<open>auto simp: slot_route_def z_set_def nth_updf nth_list_update_if\<close>)
  moreover have "\<forall>rs \<in> set (updf q (\<lambda>rs. rs[i := r]) (z_routes z)). length rs = RPL_P2P_MAX_PARTIAL_ROUTES"
    using assms(1) l by (auto simp: p2p_wf_def updf_def dest!: set_update_subset_insert [THEN subsetD])
  ultimately show ?thesis using assms(1) by (simp add: p2p_wf_def z_set_def)
qed

lemma p2v_upd_p2p_routes:
  "p2v (upd_p2p q (\<lambda>Q. Q\<lparr>q_partial_routes := g (q_partial_routes Q)\<rparr>) s)
     = (p2v s)\<lparr>z_routes := updf q g (z_routes (p2v s))\<rparr>"
proof -
  have "map q_partial_routes (updf q (\<lambda>Q. Q\<lparr>q_partial_routes := g (q_partial_routes Q)\<rparr>) (dag_p2p_table s))
      = updf q g (map q_partial_routes (dag_p2p_table s))" by (intro map_updf) simp
  moreover have "map q_dag (updf q (\<lambda>Q. Q\<lparr>q_partial_routes := g (q_partial_routes Q)\<rparr>) (dag_p2p_table s))
      = map q_dag (dag_p2p_table s)" by (intro map_updf_same) simp
  ultimately show ?thesis by (simp add: p2v_def upd_p2p_def)
qed

lemma free_addr_list_wf:
  assumes "p2p_wf (p2v s)" "valid_p2p q" "i < RPL_P2P_MAX_PARTIAL_ROUTES"
  shows "p2p_wf (p2v (free_addr_list q i s))"
proof -
  let ?c = "fold (\<lambda>a c. pool_free c a) (q_partial_routes (P2P s q) ! i) (p2p_addr_cnt s)"
  have e: "p2v (free_addr_list q i s) = z_set q i [] ?c (p2v s)"
    by (simp add: free_addr_list_def p2v_upd_p2p_routes [where g = "\<lambda>rs. rs[i := []]"] z_set_def) (simp add: p2v_def)
  have "(q, i) \<in> slots" using assms(2,3) by (simp add: slots_def)
  moreover have "routes_ok (slot_route (p2v s)) (z_cnt (p2v s))" using assms(1) by (simp add: p2p_wf_def)
  ultimately have "routes_ok ((slot_route (p2v s))((q, i) := [])) ?c"
    using routes_ok_clear [of "slot_route (p2v s)" "z_cnt (p2v s)" "(q, i)"] p2v_slot [OF assms(1,2), of i]
    by (simp add: p2v_def)
  with assms show ?thesis unfolding e by (intro z_set_wf)
qed

lemma add_src_route_addr_wf:
  assumes "p2p_wf (p2v s)" "valid_p2p q" "i < RPL_P2P_MAX_PARTIAL_ROUTES" "add_src_route_addr q i a s = (r, s')"
  shows "p2p_wf (p2v s')"
proof -
  obtain x c where al: "pool_alloc (p2p_addr_cnt s) = (x, c)" by (rule prod.exhaust)
  show ?thesis
  proof (cases x)
    case None
    with al assms(1,4) show ?thesis by (simp add: add_src_route_addr_def)
  next
    case (Some b)
    let ?r = "lst_add (q_partial_routes (P2P s q) ! i) b"
    let ?t = "s\<lparr>p2p_addr_cnt := c, p2p_addr_mem := (p2p_addr_mem s)[b := [a 0]]\<rparr>"
    have s': "s' = upd_p2p q (\<lambda>Q. Q\<lparr>q_partial_routes := (q_partial_routes Q)[i := lst_add (q_partial_routes Q ! i) b]\<rparr>) ?t"
      using assms(4) al Some by (simp add: add_src_route_addr_def)
    have l: "q < length (z_routes (p2v s))" "z_routes (p2v s) ! q = q_partial_routes (P2P s q)"
      using assms(1,2) by (simp_all add: p2p_wf_def p2v_def P2P_def)
    have e: "p2v s' = z_set q i ?r c (p2v s)"
      unfolding s' p2v_upd_p2p_routes [where g = "\<lambda>rs. rs[i := lst_add (rs ! i) b]"]
      using l by (simp add: z_set_def updf_def) (simp add: p2v_def)
    have "(q, i) \<in> slots" using assms(2,3) by (simp add: slots_def)
    moreover have "routes_ok (slot_route (p2v s)) (p2p_addr_cnt s)" using assms(1) by (simp add: p2p_wf_def) (simp add: p2v_def)
    ultimately have "routes_ok ((slot_route (p2v s))((q, i) := ?r)) c"
      using routes_ok_push [of "slot_route (p2v s)" "p2p_addr_cnt s" "(q, i)" b c] al Some
        p2v_slot [OF assms(1,2), of i] by simp
    with assms(1-3) show ?thesis unfolding e by (intro z_set_wf)
  qed
qed

section \<open>The operations of the P2P extension\<close>

lemma free_addr_lists_wf:
  assumes "valid_p2p q"
  shows "set is \<subseteq> {..<RPL_P2P_MAX_PARTIAL_ROUTES} \<Longrightarrow> p2p_wf (p2v s) \<Longrightarrow> p2p_wf (p2v (fold (free_addr_list q) is s))"
  by (induction "is" arbitrary: s) (simp_all add: free_addr_list_wf [OF _ assms])

lemma add_addrs_wf:
  assumes "valid_p2p q" "i < RPL_P2P_MAX_PARTIAL_ROUTES"
  shows "p2p_wf (p2v s) \<Longrightarrow> add_addrs n q i rdo j s = (b, s') \<Longrightarrow> p2p_wf (p2v s')"
proof (induction n arbitrary: j s)
  case (Suc n)
  show ?case
  proof (cases "j < rd_addr_len rdo")
    case True
    obtain r t where a: "add_src_route_addr q i (\<lambda>k. rd_addrs rdo (unat j + k)) s = (r, t)" by (rule prod.exhaust)
    note w = add_src_route_addr_wf [OF Suc.prems(1) assms a]
    from Suc True a free_addr_list_wf [OF w assms] w show ?thesis by (cases r) auto
  qed (use Suc in auto)
qed simp

lemma partial_route_wf:
  assumes "p2p_wf (p2v s)" "valid_p2p q"
  shows "p2p_wf (p2v (snd (rpl_p2p_add_partial_route d q rdo s)))"
proof (cases "first_index (\<lambda>r. r = []) (q_partial_routes (P2P s q)) 0")
  case None
  with assms show ?thesis by (simp add: rpl_p2p_add_partial_route_def)
next
  case (Some i)
  have i: "i < RPL_P2P_MAX_PARTIAL_ROUTES" using first_index_valid [OF Some] p2p_wf_lens(3) [OF assms] by simp
  obtain b t where a: "add_addrs (RPL_MAX_SRC_ROUTE_ADDR_ENTRIES + 1) q i rdo 0 s = (b, t)" by (rule prod.exhaust)
  note w = add_addrs_wf [OF assms(2) i assms(1) a]
  obtain r u where c: "add_src_route_addr q i (\<lambda>k. d_dag_id (DAG t d) ! (unat (rd_compr rdo) + k)) t = (r, u)"
    by (rule prod.exhaust)
  note w' = add_src_route_addr_wf [OF w assms(2) i c]
  show ?thesis
    using w w' free_addr_list_wf [OF w' assms(2) i]
    unfolding rpl_p2p_add_partial_route_def Some option.case a prod.case
    by (simp add: c split: bool.split option.split)
qed

lemma update_dag_wf:
  assumes "p2p_wf (p2v s)" "valid_dag d"
  shows "p2p_wf (p2v (rpl_p2p_update_dag d rdo dio s))"
proof (cases "d_p2p (DAG s d)")
  case None
  with assms(1) show ?thesis by (simp add: rpl_p2p_update_dag_def with_p2p_def)
next
  case (Some q)
  note q = p2p_wf_lens(4) [OF assms Some]
  let ?t = "chk_print_rdo (o_dag_id dio) (fold (free_addr_list q) [0..<RPL_P2P_MAX_PARTIAL_ROUTES]
              (upd_p2p q (copy_rdo rdo (o_constr dio)) s))"
  have "p2v (upd_p2p q (copy_rdo rdo (o_constr dio)) s) = p2v s"
    by (intro p2v_upd) (simp_all add: copy_rdo_def)
  then have "p2p_wf (p2v ?t)"
    using assms(1) free_addr_lists_wf [OF q, of "[0..<RPL_P2P_MAX_PARTIAL_ROUTES]"] by (simp add: atLeast0LessThan)
  from partial_route_wf [OF this q] Some show ?thesis
    by (simp add: rpl_p2p_update_dag_def with_p2p_def Let_def)
qed

lemma p2v_link:
  assumes "d_p2p (f (DAG s d)) = x"
  shows "p2v (upd_dag d f s) = (p2v s)\<lparr>z_links := updf d (\<lambda>_. x) (z_links (p2v s))\<rparr>"
  using assms by (auto simp: p2v_def upd_dag_def updf_def map_update DAG_def)

lemma link_wf:
  assumes "p2p_wf (p2v s)" "d_p2p (f (DAG s d)) = x" "\<And>q. x = Some q \<Longrightarrow> valid_p2p q"
  shows "p2p_wf (p2v (upd_dag d f s))"
  using assms(1,3) unfolding p2v_link [where f = f, OF assms(2)]
  by (auto simp: p2p_wf_def updf_def slot_route_def [abs_def] dest!: set_update_subset_insert [THEN subsetD])

lemma p2p_alloc_wf:
  assumes "p2p_wf (p2v s)" "valid_dag d" "rpl_p2p_alloc_dag d s = (r, s')"
  shows "p2p_wf (p2v s')" "r = Some q \<Longrightarrow> valid_p2p q"
proof -
  have "p2p_wf (p2v s') \<and> (\<forall>q. r = Some q \<longrightarrow> valid_p2p q)"
  proof (cases "first_index (\<lambda>Q. case q_dag Q of None \<Rightarrow> True | Some e \<Rightarrow> \<not> d_used (DAG s e)) (dag_p2p_table s) 0")
    case None
    with assms show ?thesis by (simp add: rpl_p2p_alloc_dag_def)
  next
    case (Some q)
    with first_index_valid p2p_wf_lens(1) [OF assms(1)] have q: "valid_p2p q" "q < length (dag_p2p_table s)" by fastforce+
    let ?Q = "p2p0\<lparr>q_dag := Some d\<rparr>"
    let ?z = "(p2v s)\<lparr>z_routes := (z_routes (p2v s))[q := replicate RPL_P2P_MAX_PARTIAL_ROUTES []],
        z_back := (z_back (p2v s))[q := Some d]\<rparr>"
    have e: "p2v (upd_p2p q (\<lambda>_. ?Q) s) = ?z" using q by (simp add: p2v_def upd_p2p_def updf_def map_update p2p0_def)
    have "routes_ok (slot_route ?z) (z_cnt (p2v s))"
      by (rule routes_ok_drop [where f = "slot_route (p2v s)"])
        (use assms(1) q(1) in \<open>auto simp: p2p_wf_def slot_route_def slots_def nth_list_update_if\<close>)
    then have "p2p_wf ?z"
      using assms(1,2) by (auto simp: p2p_wf_def dest!: set_update_subset_insert [THEN subsetD])
    with Some assms(3) q e show ?thesis by (auto simp: rpl_p2p_alloc_dag_def)
  qed
  then show "p2p_wf (p2v s')" "r = Some q \<Longrightarrow> valid_p2p q" by blast+
qed

section \<open>DAGs and their extensions\<close>

lemma alloc_dag_p2p:
  assumes "p2p_wf (p2v s)" "rpl_alloc_dag i s = (r, s')"
  shows "p2p_wf (p2v s')" "r = Some d \<Longrightarrow> valid_dag d"
proof -
  have "p2p_wf (p2v s') \<and> (\<forall>d. r = Some d \<longrightarrow> valid_dag d)"
  proof (cases "first_index (\<lambda>D. \<not> d_used D) (dag_table s) 0")
    case None
    with assms show ?thesis by (simp add: rpl_alloc_dag_def)
  next
    case (Some e)
    with first_index_valid p2p_wf_lens(2) [OF assms(1)] have "valid_dag e" by fastforce
    moreover have "p2p_wf (p2v (upd_dag e (\<lambda>_. dag0\<lparr>d_instance_id := i, d_def_route := None,
        d_rank := INFINITE_RANK, d_min_rank := INFINITE_RANK, d_used := True\<rparr>) s))"
      by (rule link_wf [OF assms(1) refl]) (simp add: dag0_def)
    ultimately show ?thesis using Some assms(2) by (auto simp: rpl_alloc_dag_def)
  qed
  then show "p2p_wf (p2v s')" "r = Some d \<Longrightarrow> valid_dag d" by blast+
qed

lemma unlink_wf: "p2p_wf (p2v s) \<Longrightarrow> p2p_wf (p2v (upd_dag d (\<lambda>D. D\<lparr>d_p2p := None\<rparr>) s))"
  by (rule link_wf [OF _ refl]) simp_all

lemma get_dag_valid_p2p: "p2p_wf (p2v s) \<Longrightarrow> rpl_get_dag i a s = Some d \<Longrightarrow> valid_dag d"
  using first_index_valid p2p_wf_lens(2) by (fastforce simp: rpl_get_dag_def Let_def)

lemma set_root_p2p:
  assumes "p2p_wf (p2v s)" "rpl_set_root a s = (r, s')"
  shows "p2p_wf (p2v s')"
proof -
  obtain v s1 where vs: "(case rpl_get_dag (uint RPL_DEFAULT_INSTANCE) None s of
      Some d \<Rightarrow> (d_version (DAG s d), rpl_free_dag d s) | None \<Rightarrow> (- 1, s)) = (v, s1)" by (rule prod.exhaust)
  have w1: "p2p_wf (p2v s1)" using vs assms(1) by (auto split: option.splits)
  obtain q s2 where al: "rpl_alloc_dag RPL_DEFAULT_INSTANCE s1 = (q, s2)" by (rule prod.exhaust)
  from alloc_dag_p2p(1) [OF w1 al] assms(2) show ?thesis
    unfolding rpl_set_root_def vs by (auto simp: al Let_def split: option.splits)
qed

lemma p2p_free_dag_p2p:
  assumes "p2p_wf (p2v s)" "valid_p2p q"
  shows "p2p_wf (p2v (rpl_p2p_free_dag q s))"
proof -
  let ?s = "fold (free_addr_list q) [0..<RPL_P2P_MAX_PARTIAL_ROUTES] s"
  have w: "p2p_wf (p2v ?s)" by (rule free_addr_lists_wf [OF assms(2) _ assms(1)]) auto
  have b: "p2p_wf (p2v (upd_p2p q (\<lambda>Q. Q\<lparr>q_dag := None\<rparr>) t))" if "p2p_wf (p2v t)" for t
  proof -
    have "p2v (upd_p2p q (\<lambda>Q. Q\<lparr>q_dag := None\<rparr>) t) = (p2v t)\<lparr>z_back := updf q (\<lambda>_. None) (z_back (p2v t))\<rparr>"
    proof -
      have "map q_partial_routes (updf q (\<lambda>Q. Q\<lparr>q_dag := None\<rparr>) (dag_p2p_table t)) = map q_partial_routes (dag_p2p_table t)"
        by (intro map_updf_same) simp
      moreover have "map q_dag (updf q (\<lambda>Q. Q\<lparr>q_dag := None\<rparr>) (dag_p2p_table t)) = updf q (\<lambda>_. None) (map q_dag (dag_p2p_table t))"
        by (intro map_updf) simp
      ultimately show ?thesis by (simp add: p2v_def upd_p2p_def)
    qed
    with that show ?thesis
      by (auto simp: p2p_wf_def updf_def slot_route_def [abs_def] dest!: set_update_subset_insert [THEN subsetD])
  qed
  show ?thesis
  proof (cases "q_dag (P2P ?s q)")
    case None
    with w show ?thesis by (simp add: rpl_p2p_free_dag_def Let_def)
  next
    case (Some d)
    with b [of "rpl_free_dag d (upd_dag d (\<lambda>D. D\<lparr>d_p2p := None\<rparr>) ?s)"] unlink_wf [OF w] show ?thesis
      by (simp add: rpl_p2p_free_dag_def Let_def)
  qed
qed

lemma purge_p2p_p2p: "p2p_wf (p2v s) \<Longrightarrow> valid_p2p q \<Longrightarrow> p2p_wf (p2v (purge_p2p q s))"
  using p2p_free_dag_p2p [of s q] by (simp add: purge_p2p_def Let_def split: option.split)

lemma purge_p2p_own:
  assumes "own_wf (own s)" "p2p_wf (p2v s)" "valid_p2p q"
  shows "own_wf (own (purge_p2p q s))"
proof (cases "q_dag (P2P s q)")
  case (Some d)
  from p2p_wf_lens(5) [OF assms(2,3) Some] have d: "valid_dag d" .
  have f: "own_wf (own (rpl_p2p_free_dag q s))"
    using p2p_wf_lens(5) [OF assms(2,3)] by (rule p2p_free_dag_wf [OF assms(1)])
  have r: "own_wf (own (rpl_remove_parents d 0 t))" if "own t = own s" for t
    using remove_parents_wf(1) [OF _ d] that assms(1) by simp
  show ?thesis using assms(1) f r Some by (simp add: purge_p2p_def Let_def)
qed (use assms in \<open>simp add: purge_p2p_def\<close>)

lemma purge_dags_wf:
  assumes "own_wf (own s)" "p2p_wf (p2v s)"
  shows "own_wf (own (rpl_p2p_purge_dags s))" "p2p_wf (p2v (rpl_p2p_purge_dags s))"
proof -
  have "set qs \<subseteq> {..<RPL_MAX_DAG_P2P_ENTRIES} \<Longrightarrow> own_wf (own s) \<Longrightarrow> p2p_wf (p2v s)
      \<Longrightarrow> own_wf (own (fold purge_p2p qs s)) \<and> p2p_wf (p2v (fold purge_p2p qs s))" for qs s
    by (induction qs arbitrary: s) (simp_all add: purge_p2p_own purge_p2p_p2p)
  from this [of "[0..<RPL_MAX_DAG_P2P_ENTRIES]" s] assms
  show "own_wf (own (rpl_p2p_purge_dags s))" "p2p_wf (p2v (rpl_p2p_purge_dags s))"
    by (simp_all add: rpl_p2p_purge_dags_def atLeast0LessThan)
qed

section \<open>DIOs and route discovery\<close>

lemma join_p2p_p2p:
  assumes "p2p_wf (p2v s)" "valid_dag d" "join_p2p d dio s = (b, s')"
  shows "p2p_wf (p2v s')"
proof (cases "o_rdo dio")
  case None
  with assms show ?thesis by (auto simp: join_p2p_def)
next
  case (Some rdo)
  define s1 where "s1 = (if 0 < rd_max_rank rdo then chk_rank d s else s)"
  have w1: "p2p_wf (p2v s1)" using assms(1) by (simp add: s1_def)
  obtain z s2 where pa: "rpl_p2p_alloc_dag d s1 = (z, s2)" by (rule prod.exhaust)
  note w2 = p2p_alloc_wf [OF w1 assms(2) pa]
  have u: "p2p_wf (p2v (rpl_p2p_update_dag d rdo dio (upd_dag d (\<lambda>D. D\<lparr>d_p2p := Some q\<rparr>) s2)))" if "z = Some q" for q
  proof (rule update_dag_wf [OF _ assms(2)], rule link_wf [OF w2(1) refl])
    show "valid_p2p x" if "d_p2p ((DAG s2 d)\<lparr>d_p2p := Some q\<rparr>) = Some x" for x
      using w2(2) that \<open>z = Some q\<close> by simp
  qed
  show ?thesis
    using assms(3) w1 unlink_wf [OF w2(1)] u
    by (auto simp: join_p2p_def Some Let_def s1_def [symmetric] pa split: if_splits option.splits)
qed

lemma join_dag_p2p:
  assumes "p2p_wf (p2v s)"
  shows "p2p_wf (p2v (join_dag a dio s))"
proof -
  obtain q s1 where al: "rpl_alloc_dag (o_instance_id dio) s = (q, s1)" by (rule prod.exhaust)
  note w1 = alloc_dag_p2p [OF assms al]
  show ?thesis
  proof (cases q)
    case None
    with al w1 show ?thesis by (simp add: join_dag_def)
  next
    case q: (Some d)
    obtain r s2 where ap: "rpl_add_parent d dio a s1 = (r, s2)" by (rule prod.exhaust)
    have w2: "p2p_wf (p2v s2)" using w1 ap by simp
    show ?thesis
    proof (cases r)
      case None
      with al q ap w2 show ?thesis by (simp add: join_dag_def)
    next
      case r: (Some p)
      let ?c = "case o_dodag_config dio of None \<Rightarrow> DEFAULT_DODAG_CONFIG | Some c \<Rightarrow> c"
      obtain b s3 where cf: "rpl_set_dodag_config d ?c s2 = (b, s3)" by (rule prod.exhaust)
      define s5 where "s5 = upd_dag d (\<lambda>D. D\<lparr>d_dag_id := take 16 (o_dag_id dio)\<rparr>) (of_update_metric_container d
         (upd_dag d (\<lambda>D. D\<lparr>d_joined := True, d_grounded := o_grounded dio, d_mop := o_mop dio,
                 d_preference := o_preference dio, d_instance_id := o_instance_id dio,
                 d_version := o_version dio, d_preferred_parent := Some p\<rparr>) (join_prefix d (o_prefix_info dio) s3)))"
      define s6 where "s6 = snd (rpl_set_default_route d (Some a) (rpl_reset_dio_timer d True
         (upd_dag d (\<lambda>D. D\<lparr>d_rank := etx_calculate_rank s5 (Some p) (o_rank dio),
                       d_min_rank := etx_calculate_rank s5 (Some p) (o_rank dio)\<rparr>) s5)))"
      have w6: "p2p_wf (p2v s6)" using w2 cf by (simp add: s6_def s5_def)
      obtain ok s7 where j: "(if o_mop dio = RPL_MOP_P2P_ROUTE_DISCOVERY then join_p2p d dio s6
                      else (True, upd_dag d (\<lambda>D. D\<lparr>d_p2p := None\<rparr>) s6)) = (ok, s7)" by (rule prod.exhaust)
      have w7: "p2p_wf (p2v s7)"
        using j join_p2p_p2p [OF w6 w1(2) [OF q]] unlink_wf [OF w6] by (auto split: if_splits)
      show ?thesis
      proof (cases b)
        case False
        with al q ap r cf w2 show ?thesis by (simp add: join_dag_def)
      next
        case True
        have "join_dag a dio s = (if ok \<and> should_send_dao d dio p s7 then rpl_schedule_dao d s7 else s7)"
          using True
          by (simp only: join_dag_def al q ap r cf j prod.case option.case bool.case Let_def
              s5_def [symmetric] s6_def [symmetric])
        with w7 show ?thesis by simp
      qed
    qed
  qed
qed

lemma after_event_p2p:
  assumes "p2p_wf (p2v s)" "valid_dag d"
  shows "p2p_wf (p2v (p2p_after_event d p dio rdo b s))"
proof -
  have r: "p2p_wf (p2v (with_p2p d (\<lambda>q s. if rpl_p2p_route_differs d q rdo s
          then snd (rpl_p2p_add_partial_route d q rdo (chk_print_rdo (o_dag_id dio) s)) else s) t))"
    if "p2p_wf (p2v t)" for t
  proof (cases "d_p2p (DAG t d)")
    case (Some q)
    from p2p_wf_lens(4) [OF that assms(2) Some] partial_route_wf [of "chk_print_rdo (o_dag_id dio) t" q d rdo] that Some
    show ?thesis by (simp add: with_p2p_def)
  qed (use that in \<open>simp add: with_p2p_def\<close>)
  show ?thesis
    using assms update_dag_wf [of "chk_preferred d s" d rdo dio] r
    by (simp add: p2p_after_event_def Let_def)
qed

lemma process_candidate_p2p:
  assumes "p2p_wf (p2v s)" "valid_dag d"
  shows "p2p_wf (p2v (process_candidate d p dio s))"
proof -
  define s2 where "s2 = upd_par p (\<lambda>P. P\<lparr>p_mc := o_mc dio, p_rank := o_rank dio\<rparr>)
    (if o_mop dio = RPL_MOP_P2P_ROUTE_DISCOVERY then chk_of d (keep_two_parents d p s) else s)"
  have w2: "p2p_wf (p2v s2)" using assms(1) by (simp add: s2_def)
  obtain b s3 where e: "rpl_process_parent_event d p s2 = (b, s3)" by (rule prod.exhaust)
  have w3: "p2p_wf (p2v s3)" using w2 e by simp
  show ?thesis
    using w3 after_event_p2p [OF w3 assms(2)] e
    by (simp add: process_candidate_def Let_def s2_def [symmetric] split: bool.split option.split)
qed

lemma find_candidate_p2p: "find_candidate d a dio s = (r, s') \<Longrightarrow> p2v s' = p2v s"
  by (auto simp: find_candidate_def Let_def split: option.splits if_splits)

lemma process_sender_p2p:
  assumes "p2p_wf (p2v s)" "valid_dag d"
  shows "p2p_wf (p2v (process_sender d a dio s))"
proof -
  obtain r s1 where f: "find_candidate d a dio s = (r, s1)" by (rule prod.exhaust)
  have "p2p_wf (p2v s1)" using find_candidate_p2p [OF f] assms(1) by simp
  with process_candidate_p2p [OF this assms(2)] f show ?thesis by (cases r) (simp_all add: process_sender_def)
qed

lemma same_version_p2p:
  assumes "p2p_wf (p2v s)" "valid_dag d"
  shows "p2p_wf (p2v (process_same_version d a dio s))"
proof -
  define s1 where "s1 = (if o_rank dio = INFINITE_RANK then rpl_reset_dio_timer d True s else s)"
  have o: "p2v s1 = p2v s" by (simp add: s1_def)
  have p: "p2p_wf (p2v (process_sender d a dio t))" if "p2v t = p2v s" for t
    using process_sender_p2p [of t d a dio] that assms by simp
  have "p2p_wf (p2v (with_p2p d (\<lambda>q s.
             if q_expired (P2P s q) then s
             else (case o_rdo dio of
                     None \<Rightarrow> set_fault s
                   | Some rdo \<Rightarrow>
                       (let s = (if 0 < rd_max_rank rdo then chk_rank d s else s) in
                        if 0 < rd_max_rank rdo \<and> ucast (rd_max_rank rdo) < DAG_RANK (o_rank dio) (DAG s d)
                        then s else process_sender d a dio s))) s1))"
    using assms(1) o by (simp add: with_p2p_def Let_def p split: option.split)
  then show ?thesis
    unfolding process_same_version_def Let_def s1_def [symmetric] using assms(1) o p [OF o] by simp
qed

lemma process_dio_p2p:
  assumes "p2p_wf (p2v s)"
  shows "p2p_wf (p2v (rpl_process_dio a dio s))"
proof (cases "rpl_get_dag (uint (o_instance_id dio)) (Some (o_dag_id dio)) s")
  case None
  show ?thesis unfolding rpl_process_dio_def None option.case using assms join_dag_p2p [OF assms] by simp
next
  case (Some d)
  have r: "p2p_wf (p2v (rpl_reset_dio_timer d True s))"
    "p2p_wf (p2v (rpl_reset_dio_timer d True (upd_dag d (\<lambda>D. D\<lparr>d_version := o_version dio + 1\<rparr>) s)))"
    "p2p_wf (p2v (global_repair a d dio s))"
    using assms by simp_all
  show ?thesis unfolding rpl_process_dio_def Some option.case
    using assms r same_version_p2p [OF assms get_dag_valid_p2p [OF assms Some]] by (simp only: split: if_split) blast
qed

lemma discover_route_p2p:
  assumes "p2p_wf (p2v s)" "rpl_discover_route target s = (b, s')"
  shows "p2p_wf (p2v s')"
proof -
  define s1 where "s1 = s\<lparr>p2p_instance := (p2p_instance s + 1) mod 0x40\<rparr>"
  define i where "i = RPL_LOCAL_DEFAULT_INSTANCE OR p2p_instance s1"
  define s2 where "s2 = (case rpl_get_dag (uint i) (rpl_get_own_addr True s1) s1 of
                 Some d \<Rightarrow> rpl_free_dag d s1 | None \<Rightarrow> s1)"
  have w2: "p2p_wf (p2v s2)" using assms(1) by (simp add: s2_def s1_def split: option.split)
  obtain q s3 where al: "rpl_alloc_dag i s2 = (q, s3)" by (rule prod.exhaust)
  note w3 = alloc_dag_p2p [OF w2 al]
  show ?thesis
  proof (cases q)
    case None
    with assms(2) w3 show ?thesis
      by (simp add: rpl_discover_route_def Let_def s1_def [symmetric] i_def [symmetric] s2_def [symmetric] al)
  next
    case (Some d)
    obtain z s4 where pa: "rpl_p2p_alloc_dag d s3 = (z, s4)" by (rule prod.exhaust)
    note w4 = p2p_alloc_wf [OF w3(1) w3(2) [OF Some] pa]
    have c: "p2v (upd_p2p x (discovery_p2p pr mc tg) t) = p2v t" for x pr mc tg t
      by (intro p2v_upd) (simp_all add: discovery_p2p_def)
    have l: "p2p_wf (p2v (upd_dag d (\<lambda>D. D\<lparr>d_p2p := Some x, d_used := True, d_joined := True, d_version := 0,
        d_preferred_parent := None, d_grounded := 0, d_mop := m, d_dtsn_out := 0, d_preference := 0, d_dag_id := a\<rparr>)
        (chk_own s4)))" if "z = Some x" for x m a
      by (rule link_wf [OF _ refl]) (use w4 that in simp_all)
    show ?thesis
      using assms(2) unlink_wf [OF w4(1)] l
      by (auto simp: rpl_discover_route_def Let_def s1_def [symmetric] i_def [symmetric] s2_def [symmetric] al Some pa c
          split: option.splits)
  qed
qed

end
