(* ===== verification/Rpl_Src_Safety.thy ===== *)
theory Rpl_Src_Safety
  imports Rpl_P2p_Safety
begin

text \<open>
  The source routes that the P2P extension stores: the loops over an address vector end
  within their fuel, a route that is stored has the decompressed hops of the vector and
  the destination at the end, a route that does not fit leaves no entry, and the table of
  source routes keeps its invariant.
\<close>

section \<open>Fuel\<close>

definition free_blocks :: "u8 list \<Rightarrow> nat" where
  "free_blocks c = length (filter (\<lambda>x. x = 0) c)"

lemma free_blocks_le: "free_blocks c \<le> length c"
  by (simp add: free_blocks_def)

lemma free_blocks_alloc:
  assumes "pool_alloc c = (Some a, c')"
  shows "free_blocks c = Suc (free_blocks c')"
proof -
  note al = pool_alloc_Some [OF assms]
  have "filter (\<lambda>x. x = 0) c = filter (\<lambda>x. x = 0) (take a c) @ 0 # filter (\<lambda>x. x = 0) (drop (Suc a) c)"
    using al(1,2) by (subst id_take_nth_drop [OF al(1)]) simp
  moreover have "filter (\<lambda>x. x = 0) c' = filter (\<lambda>x. x = 0) (take a c) @ filter (\<lambda>x. x = 0) (drop (Suc a) c)"
    unfolding al(3) by (subst upd_conv_take_nth_drop [OF al(1)]) simp
  ultimately show ?thesis by (simp add: free_blocks_def)
qed

lemma hop_add_blocks:
  "uip_ds6_src_route_hop_add r h b s = (Some a, s') \<Longrightarrow> free_blocks (src_addr_cnt s) = Suc (free_blocks (src_addr_cnt s'))"
  by (auto simp: uip_ds6_src_route_hop_add_def dest: free_blocks_alloc split: prod.splits option.splits)

lemma src_hops_fuel:
  "free_blocks (src_addr_cnt s) < n \<Longrightarrow> n \<le> m \<Longrightarrow>
     src_hops m r dest addrs addr_len compr rv i s = src_hops n r dest addrs addr_len compr rv i s"
proof (induction n arbitrary: m i s)
  case (Suc n)
  then obtain k where m: "m = Suc k" "n \<le> k" by (cases m) auto
  let ?h = "uip_create_linklocal_prefix (decompress dest compr (map (\<lambda>k. addrs (unat i + k)) [0..<16 - unat compr]))"
  obtain x t where a: "uip_ds6_src_route_hop_add r ?h rv s = (x, t)" by (rule prod.exhaust)
  show ?case
  proof (cases x)
    case (Some b)
    with a hop_add_blocks [of r ?h rv s b t] Suc.prems(1) have "free_blocks (src_addr_cnt t) < n" by simp
    from Suc.IH [OF this m(2)] show ?thesis by (simp add: m a Some)
  qed (simp add: m a)
qed simp

lemma add_addr_blocks:
  "add_src_route_addr q i f s = (Some a, s') \<Longrightarrow> free_blocks (p2p_addr_cnt s) = Suc (free_blocks (p2p_addr_cnt s'))"
  by (auto simp: add_src_route_addr_def upd_p2p_def dest: free_blocks_alloc split: prod.splits option.splits)

lemma add_addrs_fuel:
  "free_blocks (p2p_addr_cnt s) < n \<Longrightarrow> n \<le> m \<Longrightarrow> add_addrs m q i rdo j s = add_addrs n q i rdo j s"
proof (induction n arbitrary: m j s)
  case (Suc n)
  then obtain k where m: "m = Suc k" "n \<le> k" by (cases m) auto
  obtain x t where a: "add_src_route_addr q i (\<lambda>k. rd_addrs rdo (unat j + k)) s = (x, t)" by (rule prod.exhaust)
  show ?case
  proof (cases x)
    case (Some b)
    with a add_addr_blocks [of q i _ s b t] Suc.prems(1) have "free_blocks (p2p_addr_cnt t) < n" by simp
    from Suc.IH [OF this m(2)] show ?thesis by (simp add: m a Some)
  qed (simp add: m a)
qed simp

section \<open>The hops of a stored route\<close>

definition vector_hops :: "ipaddr \<Rightarrow> u8 \<Rightarrow> (nat \<Rightarrow> u8) \<Rightarrow> nat \<Rightarrow> nat \<Rightarrow> ipaddr list" where
  "vector_hops dest compr addrs i n =
     map (\<lambda>p. uip_create_linklocal_prefix (decompress dest compr (map (\<lambda>k. addrs (p + k)) [0..<16 - unat compr])))
       (filter (\<lambda>p. (16 - unat compr) dvd p) [i..<n])"

lemma filter_dvd_step:
  assumes "0 < w" "w dvd i" "i < (n :: nat)"
  shows "filter (\<lambda>p. w dvd p) [i..<n] = i # filter (\<lambda>p. w dvd p) [i + w..<n]"
proof -
  have no: "\<not> w dvd p" if "i < p" "p < i + w" for p
  proof
    assume "w dvd p"
    with assms(2) have "w dvd (p - i)" by (simp add: dvd_diff_nat)
    with that show False by (auto dest!: dvd_imp_le)
  qed
  have e: "filter (\<lambda>p. w dvd p) [Suc i..<n] = filter (\<lambda>p. w dvd p) [i + w..<n]"
  proof (cases "i + w \<le> n")
    case True
    then have "[Suc i..<n] = [Suc i..<i + w] @ [i + w..<n]"
      using assms(1) upt_add_eq_append [of "Suc i" "i + w" "n - (i + w)"] by simp
    moreover have "filter (\<lambda>p. w dvd p) [Suc i..<i + w] = []" using no by (auto simp: filter_empty_conv)
    ultimately show ?thesis by simp
  next
    case False
    then have "filter (\<lambda>p. w dvd p) [Suc i..<n] = []" using no by (auto simp: filter_empty_conv)
    with False show ?thesis by simp
  qed
  show ?thesis using assms by (simp add: upt_conv_Cons e)
qed

lemma vector_hops_step:
  assumes "unat compr < 16" "(16 - unat compr) dvd i" "i < n"
  shows "vector_hops dest compr addrs i n =
    uip_create_linklocal_prefix (decompress dest compr (map (\<lambda>k. addrs (i + k)) [0..<16 - unat compr]))
      # vector_hops dest compr addrs (i + (16 - unat compr)) n"
  using assms filter_dvd_step [of "16 - unat compr" i n] by (simp add: vector_hops_def)

lemma vector_hops_end: "n \<le> i \<Longrightarrow> vector_hops dest compr addrs i n = []"
  by (simp add: vector_hops_def)

lemma unat_width: "unat c < 16 \<Longrightarrow> unat (16 - c :: u8) = 16 - unat c"
  by (simp add: unat_sub word_le_nat_alt)

text \<open>The loop from a position \<open>i\<close>: the position does not wrap while the fuel lasts.\<close>

lemma src_hops_result:
  assumes "unat compr < 16"
  shows "src_inv s \<Longrightarrow> r < length (src_routing_table s) \<Longrightarrow> s_isused (src_routing_table s ! r)
    \<Longrightarrow> free_blocks (src_addr_cnt s) < n \<Longrightarrow> (16 - unat compr) dvd unat i \<Longrightarrow> unat i + 16 * n < 256
    \<Longrightarrow> src_hops n r dest addrs addr_len compr rv i s = (b, s')
    \<Longrightarrow> src_inv s' \<and> length (src_routing_table s') = length (src_routing_table s)
      \<and> (\<forall>j < length (src_routing_table s). j \<noteq> r \<longrightarrow> src_route_hops j s' = src_route_hops j s)
      \<and> (if b then s_isused (src_routing_table s' ! r)
             \<and> src_route_hops r s' = (let hs = vector_hops dest compr addrs (unat i) (unat addr_len)
                 in if rv then rev hs @ src_route_hops r s else src_route_hops r s @ hs)
         else \<not> s_isused (src_routing_table s' ! r))"
proof (induction n arbitrary: i s)
  case (Suc n)
  let ?w = "16 - unat compr"
  let ?h = "uip_create_linklocal_prefix (decompress dest compr (map (\<lambda>k. addrs (unat i + k)) [0..<?w]))"
  show ?case
  proof (cases "i < addr_len")
    case False
    with Suc.prems show ?thesis by (auto simp: vector_hops_end word_le_nat_alt not_less)
  next
    case True
    then have lt: "unat i < unat addr_len" by (simp add: word_less_nat_alt)
    obtain x t where a: "uip_ds6_src_route_hop_add r ?h rv s = (x, t)" by (rule prod.exhaust)
    show ?thesis
    proof (cases x)
      case None
      with src_hop_add_None [of r ?h rv s t] a have t: "t = s" by simp
      with Suc.prems(7) True a None have e: "b = False" "s' = uip_ds6_src_route_rm r s" by auto
      have "src_route_hops j (uip_ds6_src_route_rm r s) = src_route_hops j s" if "j \<noteq> r" for j
        using that by (simp add: src_route_hops_def uip_ds6_src_route_rm_def)
      with Suc.prems(2) e src_route_rm_inv [OF Suc.prems(1), of r] show ?thesis
        by (simp add: uip_ds6_src_route_rm_def)
    next
      case (Some blk)
      note h = src_hop_add_Some [OF Suc.prems(1-3) a [unfolded Some]]
      have wrap: "unat (i + (16 - compr)) = unat i + ?w"
        using Suc.prems(6) assms by (subst unat_add_lem [THEN iffD1]) (simp_all add: unat_width)
      have rec: "src_hops n r dest addrs addr_len compr rv (i + (16 - compr)) t = (b, s')"
        using Suc.prems(7) True a Some by simp
      have d: "?w dvd unat (i + (16 - compr))" using Suc.prems(5) wrap by simp
      have bl: "free_blocks (src_addr_cnt t) < n" using hop_add_blocks [OF a [unfolded Some]] Suc.prems(4) by simp
      have "unat (i + (16 - compr)) + 16 * n < 256" using Suc.prems(6) wrap by simp
      from Suc.IH [OF h(1) _ h(3) bl d this rec] Suc.prems(2) h(2,4,5) show ?thesis
        unfolding wrap vector_hops_step [OF assms Suc.prems(5) lt] by (auto simp: Let_def)
    qed
  qed
qed simp

section \<open>Storing a route\<close>

abbreviation src_uniq :: "'z ds6_scheme \<Rightarrow> bool" where
  "src_uniq s \<equiv> uniq s_isused s_ipaddr (src_routing_table s)"

definition src_keys :: "'z ds6_scheme \<Rightarrow> (bool \<times> ipaddr) list" where
  "src_keys s = map (\<lambda>r. (s_isused r, s_ipaddr r)) (src_routing_table s)"

lemma src_keys_nth:
  "i < length (src_routing_table s) \<Longrightarrow> src_keys s ! i = (s_isused (src_routing_table s ! i), s_ipaddr (src_routing_table s ! i))"
  "length (src_keys s) = length (src_routing_table s)"
  by (simp_all add: src_keys_def)

lemma src_keys_cong:
  assumes "src_keys s = src_keys t"
  shows "length (src_routing_table s) = length (src_routing_table t)"
    "i < length (src_routing_table t) \<Longrightarrow> s_isused (src_routing_table s ! i) = s_isused (src_routing_table t ! i)"
    "i < length (src_routing_table t) \<Longrightarrow> s_ipaddr (src_routing_table s ! i) = s_ipaddr (src_routing_table t ! i)"
    "src_uniq s = src_uniq t"
proof -
  show l: "length (src_routing_table s) = length (src_routing_table t)"
    using assms src_keys_nth(2) by metis
  show u: "s_isused (src_routing_table s ! i) = s_isused (src_routing_table t ! i)"
    "s_ipaddr (src_routing_table s ! i) = s_ipaddr (src_routing_table t ! i)"
    if "i < length (src_routing_table t)" for i
    using src_keys_nth(1) [of i s] src_keys_nth(1) [of i t] that assms l by simp_all
  show "src_uniq s = src_uniq t" unfolding uniq_def l by (auto simp: u)
qed

lemma src_keys_hop_add: "uip_ds6_src_route_hop_add r h b s = (x, s') \<Longrightarrow> src_keys s' = src_keys s"
  by (auto simp: uip_ds6_src_route_hop_add_def src_keys_def map_updf_same split: prod.splits option.splits)

lemma src_keys_lifetime [simp]: "src_keys (set_src_lifetime r l s) = src_keys s"
  by (simp add: src_keys_def set_src_lifetime_def map_updf_same)

lemma src_keys_hops: "src_hops n r dest addrs addr_len compr rv i s = (True, s') \<Longrightarrow> src_keys s' = src_keys s"
  by (induction n arbitrary: i s) (auto dest: src_keys_hop_add split: if_splits prod.splits option.splits)

lemma src_keys_hops_False:
  "src_hops n r dest addrs addr_len compr rv i s = (False, s') \<Longrightarrow> 0 < n \<Longrightarrow> free_blocks (src_addr_cnt s) < n \<Longrightarrow>
     \<exists>t. src_keys t = src_keys s \<and> s' = uip_ds6_src_route_rm r t"
proof (induction n arbitrary: i s)
  case (Suc n)
  let ?h = "uip_create_linklocal_prefix (decompress dest compr (map (\<lambda>k. addrs (unat i + k)) [0..<16 - unat compr]))"
  obtain x t where a: "uip_ds6_src_route_hop_add r ?h rv s = (x, t)" by (rule prod.exhaust)
  show ?case
  proof (cases x)
    case None
    with Suc.prems(1) a src_keys_hop_add [OF a] show ?thesis by (auto split: if_splits)
  next
    case (Some b)
    with hop_add_blocks [of r ?h rv s b t] a Suc.prems(3) have "free_blocks (src_addr_cnt t) < n" by simp
    with Suc.IH [of "i + (16 - compr)" t] Suc.prems(1) a Some src_keys_hop_add [OF a] show ?thesis
      by (auto split: if_splits)
  qed
qed simp

lemma src_lookup_unique:
  assumes "src_uniq s" "r < length (src_routing_table s)" "s_isused (src_routing_table s ! r)"
    "uip_ipaddr_cmp (s_ipaddr (src_routing_table s ! r)) dest"
  shows "uip_ds6_src_route_lookup dest s = Some r"
proof (cases "uip_ds6_src_route_lookup dest s")
  case None
  then show ?thesis using assms nth_mem [OF assms(2)]
    by (auto simp: uip_ds6_src_route_lookup_def first_index_None uip_ipaddr_cmp_def)
next
  case (Some i)
  from first_index_valid [OF Some [unfolded uip_ds6_src_route_lookup_def]] have
    i: "i < length (src_routing_table s)" "s_isused (src_routing_table s ! i)"
    "uip_ipaddr_cmp dest (s_ipaddr (src_routing_table s ! i))" by blast+
  have "i = r" using assms i by (intro uniqD [where ip = dest, OF assms(1)]) (auto simp: uip_ipaddr_cmp_def)
  with Some show ?thesis by simp
qed

lemma src_route_add_uniq:
  assumes "src_uniq s" "uip_ds6_src_route_add ip s = (Some i, s')"
  shows "src_uniq s'"
proof -
  obtain r o' where l: "uip_ds6_list_loop s_isused s_ipaddr (src_routing_table s) ip 128 = (r, o')"
    by (rule prod.exhaust)
  show ?thesis
  proof (cases r)
    case NOSPACE
    with l assms(2) list_loop_NOSPACE [of s_isused s_ipaddr "src_routing_table s" ip 128 o'] show ?thesis
      by (simp add: uip_ds6_src_route_add_def)
  next
    case FREESPACE
    from list_loop_FREESPACE [OF l [unfolded FREESPACE]] obtain j where j: "o' = Some j" by blast
    with src_table.enter_uniq [OF assms(1) l [unfolded FREESPACE j]] assms(2) l FREESPACE
    show ?thesis by (auto simp: uip_ds6_src_route_add_def)
  next
    case FOUND
    from list_loop_FOUND [OF l [unfolded FOUND]] obtain j where
      j: "o' = Some j" "j < length (src_routing_table s)" "s_isused (src_routing_table s ! j)" by blast
    with assms(2) l FOUND have "src_keys s' = src_keys s"
      by (auto simp: uip_ds6_src_route_add_def Let_def src_keys_def uip_ds6_src_route_rm_def
          intro!: nth_equalityI simp: nth_updf)
    with src_keys_cong(4) assms(1) show ?thesis by blast
  qed
qed

lemma set_src_lifetime_hops [simp]:
  "src_inv (set_src_lifetime r l s) = src_inv s"
  "src_route_hops j (set_src_lifetime r l s) = src_route_hops j s"
  "src_addr_cnt (set_src_lifetime r l s) = src_addr_cnt s"
  "length (src_routing_table (set_src_lifetime r l s)) = length (src_routing_table s)"
  "s_isused (src_routing_table (set_src_lifetime r l s) ! j) = s_isused (src_routing_table s ! j)"
proof -
  let ?u = "updf r (\<lambda>t. t\<lparr>s_state := (s_state t)\<lparr>e_lifetime := l\<rparr>\<rparr>) (src_routing_table s)"
  have m: "map s_addr_list ?u = map s_addr_list (src_routing_table s)"
    "map s_isused ?u = map s_isused (src_routing_table s)" by (intro map_updf_same; simp)+
  then have n: "j < length (src_routing_table s) \<Longrightarrow> s_addr_list (?u ! j) = s_addr_list (src_routing_table s ! j)"
    "j < length (src_routing_table s) \<Longrightarrow> s_isused (?u ! j) = s_isused (src_routing_table s ! j)" for j
    by (cases "j = r"; simp add: nth_updf)+
  have "(\<forall>x \<in> set ?u. \<not> s_isused x \<longrightarrow> s_addr_list x = [])
      = (\<forall>x \<in> set (src_routing_table s). \<not> s_isused x \<longrightarrow> s_addr_list x = [])"
    by (simp add: all_set_conv_all_nth n)
  with m show "src_inv (set_src_lifetime r l s) = src_inv s"
    by (simp add: src_inv_def set_src_lifetime_def del: set_concat)
  show "src_route_hops j (set_src_lifetime r l s) = src_route_hops j s"
    "s_isused (src_routing_table (set_src_lifetime r l s) ! j) = s_isused (src_routing_table s ! j)"
    by (cases "j = r"; cases "r < length (src_routing_table s)"; simp add: src_route_hops_def set_src_lifetime_def)+
  show "src_addr_cnt (set_src_lifetime r l s) = src_addr_cnt s"
    "length (src_routing_table (set_src_lifetime r l s)) = length (src_routing_table s)"
    by (simp_all add: set_src_lifetime_def)
qed

lemma src_route_add_frame:
  "uip_ds6_src_route_add ip s = (None, s') \<Longrightarrow> s' = s \<and> uip_ds6_src_route_lookup ip s = None"
  "uip_ds6_src_route_add ip s = (Some i, s') \<Longrightarrow> j \<noteq> i \<Longrightarrow> src_route_hops j s' = src_route_hops j s"
proof -
  obtain r o' where l: "uip_ds6_list_loop s_isused s_ipaddr (src_routing_table s) ip 128 = (r, o')"
    by (rule prod.exhaust)
  show "s' = s \<and> uip_ds6_src_route_lookup ip s = None" if "uip_ds6_src_route_add ip s = (None, s')"
  proof (cases r)
    case NOSPACE
    with l that list_loop_NOSPACE [of s_isused s_ipaddr "src_routing_table s" ip 128 o'] show ?thesis
      by (auto simp: uip_ds6_src_route_add_def uip_ds6_src_route_lookup_def first_index_None prefixcmp_128 uip_ipaddr_cmp_def)
  next
    case FREESPACE
    with l that list_loop_FREESPACE [OF l [unfolded FREESPACE]] show ?thesis by (auto simp: uip_ds6_src_route_add_def)
  next
    case FOUND
    with l that list_loop_FOUND [OF l [unfolded FOUND]] show ?thesis by (auto simp: uip_ds6_src_route_add_def Let_def)
  qed
  show "src_route_hops j s' = src_route_hops j s" if "uip_ds6_src_route_add ip s = (Some i, s')" "j \<noteq> i"
    using that by (auto simp: uip_ds6_src_route_add_def Let_def src_route_hops_def uip_ds6_src_route_rm_def
        split: prod.splits loop_result.splits option.splits)
qed

lemma src_cnt_length [simp]:
  "length (src_addr_cnt (uip_ds6_src_route_rm r s)) = length (src_addr_cnt s)"
proof -
  have "length (fold (\<lambda>a c. pool_free c a) as c) = length c" for as c by (induction as arbitrary: c) simp_all
  then show ?thesis by (simp add: uip_ds6_src_route_rm_def)
qed

lemma src_cnt_hop_add: "uip_ds6_src_route_hop_add r h b s = (x, s') \<Longrightarrow> length (src_addr_cnt s') = length (src_addr_cnt s)"
  by (auto simp: uip_ds6_src_route_hop_add_def dest: length_pool_alloc split: prod.splits option.splits)

lemma src_cnt_hops: "src_hops n r dest addrs addr_len compr rv i s = (b, s') \<Longrightarrow> length (src_addr_cnt s') = length (src_addr_cnt s)"
  by (induction n arbitrary: i s) (auto dest: src_cnt_hop_add split: if_splits prod.splits option.splits)

lemma src_cnt_add: "uip_ds6_src_route_add ip s = (x, s') \<Longrightarrow> length (src_addr_cnt s') = length (src_addr_cnt s)"
  by (auto simp: uip_ds6_src_route_add_def Let_def split: prod.splits loop_result.splits option.splits)

text \<open>When a route is taken back, its destination has no entry any more.\<close>

lemma src_rm_uniq: "src_uniq s \<Longrightarrow> src_uniq (uip_ds6_src_route_rm r s)"
  using src_table.clear_uniq [of "src_routing_table s" r] by (simp add: uip_ds6_src_route_rm_def)

lemma src_lookup_removed:
  assumes "src_uniq s" "r < length (src_routing_table s)" "s_isused (src_routing_table s ! r)"
    "uip_ipaddr_cmp (s_ipaddr (src_routing_table s ! r)) dest"
  shows "uip_ds6_src_route_lookup dest (uip_ds6_src_route_rm r s) = None"
proof (cases "uip_ds6_src_route_lookup dest (uip_ds6_src_route_rm r s)")
  case (Some i)
  let ?t = "src_routing_table (uip_ds6_src_route_rm r s)"
  from first_index_valid [OF Some [unfolded uip_ds6_src_route_lookup_def]] have
    i: "i < length ?t" "s_isused (?t ! i)" "uip_ipaddr_cmp dest (s_ipaddr (?t ! i))" by blast+
  then have n: "i \<noteq> r" using assms(2) by (auto simp: uip_ds6_src_route_rm_def)
  with i have "s_isused (src_routing_table s ! i)" "uip_ipaddr_cmp (s_ipaddr (src_routing_table s ! i)) dest" "i < length (src_routing_table s)"
    using assms(2) by (simp_all add: uip_ds6_src_route_rm_def uip_ipaddr_cmp_def)
  with uniqD [OF assms(1) _ assms(2) _ assms(3) _ assms(4), of i] n show ?thesis by blast
qed

text \<open>The source route of a P2P reply or of a measurement request.\<close>

lemma add_src_route_result:
  assumes inv: "src_inv s" "src_uniq s" and sz: "length (src_addr_cnt s) = UIP_DS6_SRC_ROUTE_ADDR_NB"
    and c: "unat compr < 16" and e: "rpl_p2p_add_src_route dest addrs addr_len compr rv s = (x, s')"
  shows "src_inv s' \<and> src_uniq s' \<and> uip_ds6_src_route_lookup dest s' = x
    \<and> (case x of None \<Rightarrow> True | Some r \<Rightarrow>
          src_route_hops r s' = (let hs = vector_hops dest compr addrs 0 (unat addr_len)
             in (if rv then rev hs else hs) @ [uip_create_linklocal_prefix (take 16 dest)])
          \<and> (\<forall>j < length (src_routing_table s). j \<noteq> r \<longrightarrow> src_route_hops j s' = src_route_hops j s))
    \<and> length (src_addr_cnt s') = length (src_addr_cnt s)"
proof -
  obtain y s1 where a: "uip_ds6_src_route_add dest s = (y, s1)" by (rule prod.exhaust)
  show ?thesis
  proof (cases y)
    case None
    with src_route_add_frame(1) [of dest s s1] a e have "x = None" "s' = s" "uip_ds6_src_route_lookup dest s = None"
      by (simp_all add: rpl_p2p_add_src_route_def)
    with inv show ?thesis by simp
  next
    case (Some r)
    note add = src_route_add_Some [OF inv(1) a [unfolded Some]]
    note u1 = src_route_add_uniq [OF inv(2) a [unfolded Some]]
    note fr = src_route_add_frame(2) [OF a [unfolded Some]]
    let ?s = "set_src_lifetime r 510 s1"
    have k: "src_keys ?s = src_keys s1" by simp
    obtain b s2 where h: "src_hops (UIP_DS6_SRC_ROUTE_ADDR_NB + 1) r dest addrs addr_len compr rv 0 ?s = (b, s2)"
      by (rule prod.exhaust)
    have fuel: "free_blocks (src_addr_cnt ?s) < UIP_DS6_SRC_ROUTE_ADDR_NB + 1"
      using free_blocks_le [of "src_addr_cnt s1"] src_cnt_add [OF a] sz by simp
    have z: "(16 - unat compr) dvd unat (0 :: u8)" "unat (0 :: u8) + 16 * (UIP_DS6_SRC_ROUTE_ADDR_NB + 1) < 256"
      by (simp_all add: UIP_DS6_SRC_ROUTE_ADDR_NB_def)
    have res: "src_inv s2 \<and> length (src_routing_table s2) = length (src_routing_table s1)
      \<and> (\<forall>j < length (src_routing_table s1). j \<noteq> r \<longrightarrow> src_route_hops j s2 = src_route_hops j s1)
      \<and> (if b then s_isused (src_routing_table s2 ! r)
             \<and> src_route_hops r s2 = (let hs = vector_hops dest compr addrs 0 (unat addr_len) in if rv then rev hs else hs)
         else \<not> s_isused (src_routing_table s2 ! r))"
      using src_hops_result [OF c _ _ _ fuel z h] add by (simp add: Let_def)
    have cnt2: "length (src_addr_cnt s2) = length (src_addr_cnt s)" using src_cnt_hops [OF h] src_cnt_add [OF a] by simp
    show ?thesis
    proof (cases b)
      case False
      with h e a Some have x: "x = None" "s' = s2"
        by (simp_all add: rpl_p2p_add_src_route_def del: src_hops.simps)
      from False have bF: "b = False" by simp
      from src_keys_hops_False [OF h [unfolded bF] _ fuel] obtain t where
        t: "src_keys t = src_keys ?s" "s2 = uip_ds6_src_route_rm r t" by auto
      note kc = src_keys_cong [OF t(1) [unfolded k]]
      have "uip_ds6_src_route_lookup dest s2 = None" "src_uniq s2"
        unfolding t(2) using kc u1 add by (auto intro!: src_lookup_removed src_rm_uniq)
      with res x cnt2 show ?thesis by simp
    next
      case True
      from True have bT: "b = True" by simp
      note k2 = src_keys_cong [OF trans [OF src_keys_hops [OF h [unfolded bT]] k]]
      have r2: "r < length (src_routing_table s2)" "s_isused (src_routing_table s2 ! r)"
        "uip_ipaddr_cmp (s_ipaddr (src_routing_table s2 ! r)) dest" "src_uniq s2"
        using k2 u1 add by simp_all
      obtain w s3 where g: "uip_ds6_src_route_hop_add r (uip_create_linklocal_prefix (take 16 dest)) False s2 = (w, s3)"
        by (rule prod.exhaust)
      have cnt3: "length (src_addr_cnt s3) = length (src_addr_cnt s)" using src_cnt_hop_add [OF g] cnt2 by simp
      show ?thesis
      proof (cases w)
        case None
        with src_hop_add_None [of r _ False s2 s3] g have s3: "s3 = s2" by simp
        with None g h e a Some True have x: "x = None" "s' = uip_ds6_src_route_rm r s2"
          by (simp_all add: rpl_p2p_add_src_route_def del: src_hops.simps)
        with src_lookup_removed [OF r2(4,1-3)] src_rm_uniq [OF r2(4)] src_route_rm_inv [of s2 r] res cnt2 show ?thesis by simp
      next
        case w: (Some blk)
        with g h e a Some True have x: "x = Some r" "s' = s3"
          by (simp_all add: rpl_p2p_add_src_route_def del: src_hops.simps)
        from res True have i2: "src_inv s2" by simp
        note hp = src_hop_add_Some [OF i2 r2(1,2) g [unfolded w]]
        note k3 = src_keys_cong [OF src_keys_hop_add [OF g]]
        have "uip_ds6_src_route_lookup dest s3 = Some r" "src_uniq s3"
          using k3 r2 by (auto intro!: src_lookup_unique)
        with x hp res True fr add cnt3 show ?thesis by (simp add: Let_def)
      qed
    qed
  qed
qed

end
