(* ===== verification/Rpl_Route_Laws.thy ===== *)
theory Rpl_Route_Laws
  imports Rpl_Src_Safety
begin

text \<open>
  What the routing operations of RPL promise: a route that is installed is found, routes
  age, the source routes discovered by P2P-RPL are stored as they were reported, and the
  loops over address vectors end.
\<close>

section \<open>Lookup after a change\<close>

definition route_key :: "route \<Rightarrow> bool \<times> ipaddr \<times> u8" where
  "route_key r = (t_isused r, t_ipaddr r, t_length r)"

lemma lookup_loop_cong:
  "map route_key rs = map route_key rs' \<Longrightarrow> route_lookup_loop dest rs i loc l = route_lookup_loop dest rs' i loc l"
proof (induction rs arbitrary: rs' i loc l)
  case (Cons r rs)
  then obtain r' rs'' where r: "rs' = r' # rs''" "route_key r = route_key r'" "map route_key rs = map route_key rs''"
    by (cases rs') auto
  from Cons.IH [OF r(3)] r(2) show ?case by (simp add: r(1) route_key_def)
qed simp

lemma route_lookup_cong:
  "map route_key (routing_table s) = map route_key (routing_table t) \<Longrightarrow> uip_ds6_route_lookup dest s = uip_ds6_route_lookup dest t"
  unfolding uip_ds6_route_lookup_def by (rule lookup_loop_cong)

lemma route_lookup_sole:
  assumes "r < length (routing_table s)" "route_matches dest (routing_table s ! r)"
    "\<And>j. j < length (routing_table s) \<Longrightarrow> j \<noteq> r \<Longrightarrow> \<not> route_matches dest (routing_table s ! j)"
  shows "uip_ds6_route_lookup dest s = Some r"
proof (cases "uip_ds6_route_lookup dest s")
  case None
  with route_lookup_None [of dest s] assms(1,2) nth_mem show ?thesis by blast
next
  case (Some j)
  with route_lookup_Some [OF Some] assms(3) [of j] show ?thesis by auto
qed

lemma set_route_state_table:
  "r < length (routing_table s) \<Longrightarrow> map route_key (routing_table (set_route_state d r s)) = map route_key (routing_table s)"
  "r < length (routing_table s) \<Longrightarrow> t_nexthop (routing_table (set_route_state d r s) ! r) = t_nexthop (routing_table s ! r)"
  "r < length (routing_table s) \<Longrightarrow> e_dag (t_state (routing_table (set_route_state d r s) ! r)) = d"
  by (simp_all add: set_route_state_def Let_def map_updf_same route_key_def)

lemma matches_host:
  assumes "uip_ipaddr_cmp (t_ipaddr e) p" "t_isused e" "t_length e \<le> 128"
  shows "route_matches p e"
proof -
  let ?n = "unat (drop_bit 3 (t_length e))"
  have "unat (t_length e) \<le> unat (128 :: u8)" using assms(3) by (simp only: word_le_nat_alt)
  then have n: "?n \<le> 16" unfolding unat_drop_bit_eq by (simp add: drop_bit_eq_div)
  have c: "take 16 (t_ipaddr e) = take 16 p" using assms(1) by (simp add: uip_ipaddr_cmp_def)
  have "take ?n (t_ipaddr e) = take ?n (take 16 (t_ipaddr e))" using n by (simp add: min_absorb1)
  also have "\<dots> = take ?n p" unfolding c using n by (simp add: min_absorb1)
  finally show ?thesis using assms(2) by (simp add: route_matches_def uip_ipaddr_prefixcmp_def Let_def)
qed

text \<open>The new host route when no route covered the destination.\<close>

lemma route_add_fresh:
  assumes "\<And>e. e \<in> set (routing_table s) \<Longrightarrow> \<not> route_matches p e \<and> t_length e \<le> 128"
    "uip_ds6_route_add p 128 nh 0 s = (Some r, s')"
  shows "r < length (routing_table s')" "uip_ds6_route_lookup p s' = Some r" "t_nexthop (routing_table s' ! r) = nh"
proof -
  obtain c o' where l: "uip_ds6_list_loop t_isused t_ipaddr (routing_table s) p 128 = (c, o')" by (rule prod.exhaust)
  have "r < length (routing_table s') \<and> uip_ds6_route_lookup p s' = Some r \<and> t_nexthop (routing_table s' ! r) = nh"
  proof (cases c)
    case FOUND
    from list_loop_FOUND [OF l [unfolded FOUND]] obtain j where
      "j < length (routing_table s)" "t_isused (routing_table s ! j)" "uip_ipaddr_cmp (t_ipaddr (routing_table s ! j)) p"
      by (auto simp: prefixcmp_128)
    with assms(1) [OF nth_mem] matches_host [of "routing_table s ! j" p] show ?thesis by blast
  next
    case FREESPACE
    from list_loop_FREESPACE [OF l [unfolded FREESPACE]] obtain j where j: "o' = Some j" "j < length (routing_table s)" by blast
    let ?f = "\<lambda>r. r\<lparr>t_isused := True, t_ipaddr := p, t_length := 128, t_nexthop := nh, t_metric := 0\<rparr>"
    from assms(2) l FREESPACE j have
      s': "r = j" "s' = s\<lparr>routing_table := updf j ?f (routing_table s)\<rparr>" by (auto simp: uip_ds6_route_add_def)
    have "uip_ds6_route_lookup p s' = Some r"
    proof (rule route_lookup_sole)
      show "r < length (routing_table s')" "route_matches p (routing_table s' ! r)"
        using j by (simp_all add: s' route_matches_def uip_ipaddr_prefixcmp_def)
      show "\<not> route_matches p (routing_table s' ! k)" if "k < length (routing_table s')" "k \<noteq> r" for k
        using assms(1) [OF nth_mem, of k] that by (simp add: s')
    qed
    with j show ?thesis by (simp add: s')
  next
    case NOSPACE
    with l assms(2) list_loop_NOSPACE [OF l [unfolded NOSPACE]] show ?thesis by (simp add: uip_ds6_route_add_def)
  qed
  then show "r < length (routing_table s')" "uip_ds6_route_lookup p s' = Some r" "t_nexthop (routing_table s' ! r) = nh"
    by blast+
qed

lemma set_route_state_done:
  assumes "r < length (routing_table s)" "uip_ds6_route_lookup p s = Some r" "t_nexthop (routing_table s ! r) = nh"
  shows "uip_ds6_route_lookup p (set_route_state d r s) = Some r
    \<and> t_nexthop (routing_table (set_route_state d r s) ! r) = nh
    \<and> e_dag (t_state (routing_table (set_route_state d r s) ! r)) = d"
  using set_route_state_table [OF assms(1)] route_lookup_cong [of "set_route_state d r s" s p] assms by simp

lemma add_route_result:
  assumes ne: "routing_table s \<noteq> []" and len: "\<forall>e \<in> set (routing_table s). t_length e \<le> 128"
  shows "case rpl_add_route d p 128 nh s of (None, _) \<Rightarrow> False
    | (Some r, s') \<Rightarrow> uip_ds6_route_lookup p s' = Some r \<and> t_nexthop (routing_table s' ! r) = nh
        \<and> e_dag (t_state (routing_table s' ! r)) = d"
proof (cases "uip_ds6_route_lookup p s")
  case (Some r)
  from route_lookup_Some [OF Some] have r: "r < length (routing_table s)" by blast
  let ?t = "s\<lparr>routing_table := updf r (\<lambda>t. t\<lparr>t_nexthop := nh\<rparr>) (routing_table s)\<rparr>"
  have "map route_key (routing_table ?t) = map route_key (routing_table s)" by (simp add: map_updf_same route_key_def)
  then have "uip_ds6_route_lookup p ?t = Some r" using route_lookup_cong [of ?t s p] Some by simp
  with set_route_state_done [of r ?t p nh d] r Some show ?thesis by (simp add: rpl_add_route_def)
next
  case None
  with route_lookup_None [of p s] len have fr: "\<And>e. e \<in> set (routing_table s) \<Longrightarrow> \<not> route_matches p e \<and> t_length e \<le> 128" by auto
  obtain r1 s1 where a1: "uip_ds6_route_add p 128 nh 0 s = (r1, s1)" by (rule prod.exhaust)
  show ?thesis
  proof (cases r1)
    case (Some r)
    note f = route_add_fresh [OF fr a1 [unfolded Some]]
    from set_route_state_done [OF f] None a1 Some show ?thesis by (simp add: rpl_add_route_def)
  next
    case n: None
    with route_add_result [OF a1] have s1: "s1 = s" by auto
    let ?i = "next_to_expire (routing_table s)"
    let ?t = "uip_ds6_route_rm ?i s"
    from next_to_expire_min [OF ne] have i: "?i < length (routing_table s)" by blast
    have fr2: "\<And>e. e \<in> set (routing_table ?t) \<Longrightarrow> \<not> route_matches p e \<and> t_length e \<le> 128"
      using fr i by (auto simp: uip_ds6_route_rm_def route_rm_def route_matches_def dest!: set_updf_le)
    obtain r2 s2 where a2: "uip_ds6_route_add p 128 nh 0 ?t = (r2, s2)" by (rule prod.exhaust)
    from route_add_result [OF a2] route_add_FREESPACE_after_rm [OF i, of p 128] obtain r where r: "r2 = Some r"
      by (auto simp: uip_ds6_route_rm_def)
    note f = route_add_fresh [OF fr2 a2 [unfolded r]]
    from set_route_state_done [OF f, of d] None a1 n s1 a2 r show ?thesis by (simp add: rpl_add_route_def Let_def)
  qed
qed

section \<open>Properties\<close>

text \<open>C17: Adding a host route never fails: it updates the longest route that covers the
  destination, takes a free entry, or evicts the route that expires next; afterwards the
  lookup of the destination gives the new next hop, on behalf of the given DAG.\<close>

theorem add_route_installs:
  assumes "routing_table s \<noteq> []" "\<forall>e \<in> set (routing_table s). t_length e \<le> 128"
  shows "case rpl_add_route d p 128 nh s of (None, _) \<Rightarrow> False
    | (Some r, s') \<Rightarrow> uip_ds6_route_lookup p s' = Some r \<and> t_nexthop (routing_table s' ! r) = nh
        \<and> e_dag (t_state (routing_table s' ! r)) = d"
  by (rule add_route_result [OF assms])

text \<open>A node whose routing table is full of routes to other hosts.\<close>

definition full_table_node :: node where
  "full_table_node = (node0 [1, 2, 3, 4, 5, 6, 7, 8])\<lparr>routing_table :=
     replicate 8 (route0\<lparr>t_isused := True, t_ipaddr := replicate 16 5, t_length := 128\<rparr>)\<rparr>"

theorem add_route_installs_witness:
  "case rpl_add_route None (replicate 16 7) 128 (replicate 16 3) full_table_node of (None, _) \<Rightarrow> False
    | (Some r, s') \<Rightarrow> uip_ds6_route_lookup (replicate 16 7) s' = Some r
        \<and> t_nexthop (routing_table s' ! r) = replicate 16 3 \<and> e_dag (t_state (routing_table s' ! r)) = None"
  by (rule add_route_installs) (simp_all add: full_table_node_def)

text \<open>C18: A route stays in the table for exactly its lifetime: after \<open>n\<close> rounds of the
  periodic timer it is there if and only if its lifetime was more than \<open>n\<close>, with its next hop
  and with the lifetime that is left.\<close>

theorem routes_age:
  assumes "i < length (routing_table s)" "0 < n"
  shows "let r = routing_table s ! i; r' = routing_table ((rpl_purge_routes ^^ n) s) ! i
    in (t_isused r' \<longleftrightarrow> t_isused r \<and> n < unat (e_lifetime (t_state r)))
      \<and> (t_isused r' \<longrightarrow> unat (e_lifetime (t_state r')) = unat (e_lifetime (t_state r)) - n
            \<and> t_nexthop r' = t_nexthop r \<and> t_ipaddr r' = t_ipaddr r)"
  using assms purge_route_iterate [of n "routing_table s ! i"] by (simp add: rpl_purge_routes_iterate Let_def)

theorem routes_age_witness:
  "let s = (node0 [1, 2, 3, 4, 5, 6, 7, 8])\<lparr>routing_table := replicate 8 (route0\<lparr>t_isused := True,
      t_ipaddr := replicate 16 5, t_state := route_state0\<lparr>e_lifetime := 510\<rparr>\<rparr>)\<rparr>
   in t_isused (routing_table ((rpl_purge_routes ^^ 509) s) ! 3)
      \<and> unat (e_lifetime (t_state (routing_table ((rpl_purge_routes ^^ 509) s) ! 3))) = 1
      \<and> \<not> t_isused (routing_table ((rpl_purge_routes ^^ 510) s) ! 3)"
proof -
  let ?s = "(node0 [1, 2, 3, 4, 5, 6, 7, 8])\<lparr>routing_table := replicate 8 (route0\<lparr>t_isused := True,
      t_ipaddr := replicate 16 5, t_state := route_state0\<lparr>e_lifetime := 510\<rparr>\<rparr>)\<rparr>"
  have l: "3 < length (routing_table ?s)" by simp
  from routes_age [OF l, of 509] routes_age [OF l, of 510] show ?thesis by (simp add: Let_def)
qed

text \<open>C11: The source route of a discovery reply is stored as reported: the hops are the
  decompressed addresses of the vector with the link-local prefix, in order or reversed,
  and the destination; the other source routes are as before, and the lookup of the
  destination finds the new route. When the route cannot be stored completely, no entry for
  the destination is left.\<close>

theorem source_route_stored:
  assumes "src_inv s" "uniq s_isused s_ipaddr (src_routing_table s)"
    "length (src_addr_cnt s) = UIP_DS6_SRC_ROUTE_ADDR_NB" "unat compr < 16"
    "rpl_p2p_add_src_route dest addrs addr_len compr rv s = (x, s')"
  shows "src_inv s' \<and> uniq s_isused s_ipaddr (src_routing_table s') \<and> uip_ds6_src_route_lookup dest s' = x
    \<and> (case x of None \<Rightarrow> True | Some r \<Rightarrow>
          src_route_hops r s' = (let hs = vector_hops dest compr addrs 0 (unat addr_len)
             in (if rv then rev hs else hs) @ [uip_create_linklocal_prefix (take 16 dest)])
          \<and> (\<forall>j < length (src_routing_table s). j \<noteq> r \<longrightarrow> src_route_hops j s' = src_route_hops j s))"
  using add_src_route_result [OF assms] by blast

theorem source_route_stored_witness:
  "fst (rpl_p2p_add_src_route (replicate 16 9) (\<lambda>k. if k = 0 then 21 else 22) 2 15 True demo_ds6) = Some 2
    \<and> src_route_hops 2 (snd (rpl_p2p_add_src_route (replicate 16 9) (\<lambda>k. if k = 0 then 21 else 22) 2 15 True demo_ds6))
      = map (\<lambda>b. [0xfe, 0x80, 0, 0, 0, 0, 0, 0, 9, 9, 9, 9, 9, 9, 9, b]) [22, 21, 9]"
proof -
  let ?f = "\<lambda>k :: nat. if k = 0 then 21 else 22 :: u8"
  have inv: "src_inv demo_ds6" "uniq s_isused s_ipaddr (src_routing_table demo_ds6)"
    by (simp_all add: src_inv_def uniq_def demo_ds6_def ds6_zero pool_wf_def pool_used_def)
  have l: "length (src_addr_cnt demo_ds6) = UIP_DS6_SRC_ROUTE_ADDR_NB" "unat (15 :: u8) < 16"
    by (simp_all add: demo_ds6_def UIP_DS6_SRC_ROUTE_ADDR_NB_def)
  have x: "fst (rpl_p2p_add_src_route (replicate 16 9) ?f 2 15 True demo_ds6) = Some 2" by code_simp
  then have e: "rpl_p2p_add_src_route (replicate 16 9) ?f 2 15 True demo_ds6
      = (Some 2, snd (rpl_p2p_add_src_route (replicate 16 9) ?f 2 15 True demo_ds6))" by (simp add: prod_eq_iff)
  have h: "vector_hops (replicate 16 9) 15 ?f 0 (unat (2 :: u8))
      = map (\<lambda>b. [0xfe, 0x80, 0, 0, 0, 0, 0, 0, 9, 9, 9, 9, 9, 9, 9, b]) [21, 22]"
    by code_simp
  have d: "uip_create_linklocal_prefix (take 16 (replicate 16 9)) = [0xfe, 0x80, 0, 0, 0, 0, 0, 0, 9, 9, 9, 9, 9, 9, 9, 9]"
    by code_simp
  have "src_route_hops 2 (snd (rpl_p2p_add_src_route (replicate 16 9) ?f 2 15 True demo_ds6))
      = rev (vector_hops (replicate 16 9) 15 ?f 0 (unat (2 :: u8))) @ [uip_create_linklocal_prefix (take 16 (replicate 16 9))]"
    using source_route_stored [OF inv l e] unfolding Let_def option.case if_True by blast
  with x show ?thesis unfolding h d by (simp only: list.map rev.simps append.simps)
qed

text \<open>The two loops that copy an address vector to a pool end: a block is taken in every
  round, so that one round more than the pool has blocks is enough, and more fuel changes
  nothing.\<close>

theorem address_loops_end:
  "src_hops (Suc (length (src_addr_cnt s)) + k) r dest addrs addr_len compr rv i s
      = src_hops (Suc (length (src_addr_cnt s))) r dest addrs addr_len compr rv i s
   \<and> add_addrs (Suc (length (p2p_addr_cnt t)) + k) q l rdo j t = add_addrs (Suc (length (p2p_addr_cnt t))) q l rdo j t"
proof -
  have "free_blocks (src_addr_cnt s) < Suc (length (src_addr_cnt s))"
    "free_blocks (p2p_addr_cnt t) < Suc (length (p2p_addr_cnt t))"
    by (simp_all add: free_blocks_le le_imp_less_Suc)
  then show ?thesis by (intro conjI src_hops_fuel add_addrs_fuel le_add1)
qed

end
