(* ===== verification/Uip_Source_Routing.thy ===== *)
theory Uip_Source_Routing
  imports Uip_Packet_Laws Rpl_Route_Laws
begin

text \<open>
  The data plane of the discovered routes: \<open>tcpip_ipv6_output\<close> adds the source routing header,
  \<open>uip_process\<close> of every hop takes the next address out of it, and the packet reaches the
  upper layer of the target.
\<close>

section \<open>The header as a list of bytes\<close>

text \<open>A routing header of type 4 with \<open>length vec + 1\<close> addresses, the last of which is in full,
  in front of the \<open>payload\<close>.\<close>

definition srh :: "u8 \<Rightarrow> u8 \<Rightarrow> bytes \<Rightarrow> ipaddr \<Rightarrow> bytes \<Rightarrow> bytes" where
  "srh proto sl vec final payload =
     (let k = of_nat (length vec + 1) in
      [proto, rh_ext_len k, 4, sl, 0xF0, push_bit 4 (rh_pad k), 0, 0] @ vec @ final
      @ replicate (unat (rh_pad k)) 0 @ payload)"

lemma srh_lens:
  assumes "1 \<le> k" "k \<le> 8"
  shows "unat (rh_vector_len (of_nat k)) = k + 15" "unat (rh_ext_len (of_nat k)) = (k + 22) div 8"
    "unat (rh_pad (of_nat k)) = (k + 22) div 8 * 8 - (k + 15)"
proof -
  from assms consider "k = 1" | "k = 2" | "k = 3" | "k = 4" | "k = 5" | "k = 6" | "k = 7" | "k = 8" by linarith
  note c = this
  show "unat (rh_vector_len (of_nat k)) = k + 15" "unat (rh_ext_len (of_nat k)) = (k + 22) div 8"
    "unat (rh_pad (of_nat k)) = (k + 22) div 8 * 8 - (k + 15)"
    using c by (cases; simp add: rh_vector_len_def rh_ext_len_def rh_pad_def UIP_RH4_CMPRI_def UIP_RH4_CMPRE_def)+
qed

abbreviation hop_count :: "bytes \<Rightarrow> nat" where "hop_count vec \<equiv> length vec + 1"

lemma length_srh:
  assumes "length vec < 8" "length final = 16"
  shows "length (srh proto sl vec final payload) = unat (rh_ext_len (of_nat (hop_count vec))) * 8 + 8 + length payload"
  using assms srh_lens [of "hop_count vec"] by (simp add: srh_def Let_def)

lemma srh_fields:
  assumes "bytes_at m 40 (srh proto sl vec final payload)" "length vec < 8" "length final = 16"
  shows "m 40 = proto" "m 41 = rh_ext_len (of_nat (hop_count vec))" "m 42 = 4" "m 43 = sl"
    "rh_cmpri 40 m = 15" "rh_cmpre 40 m = 0" "rh_count 40 m = of_nat (hop_count vec)"
    "bytes_at m 48 vec" "bytes_at m (48 + length vec) final"
    "bytes_at m (48 + unat (rh_ext_len (of_nat (hop_count vec))) * 8) payload"
proof -
  let ?k = "of_nat (hop_count vec) :: u8"
  from assms(1) have b: "m 40 = proto" "m 41 = rh_ext_len ?k" "m 42 = 4" "m 43 = sl" "m 44 = 0xF0"
    "m 45 = push_bit 4 (rh_pad ?k)" "bytes_at m 48 vec" "bytes_at m (48 + length vec) final"
    "bytes_at m (48 + length vec + length final + unat (rh_pad ?k)) payload"
    by (simp_all add: srh_def Let_def bytes_at_append add.assoc)
  from b show "m 40 = proto" "m 41 = rh_ext_len ?k" "m 42 = 4" "m 43 = sl"
    "bytes_at m 48 vec" "bytes_at m (48 + length vec) final" by auto
  show c: "rh_cmpri 40 m = 15" "rh_cmpre 40 m = 0"
    using b by (simp_all add: rh_cmpri_def rh_cmpre_def)
  have eq: "48 + length vec + length final + unat (rh_pad ?k) = 48 + unat (rh_ext_len ?k) * 8"
    using assms srh_lens [of "hop_count vec"] by simp
  show "bytes_at m (48 + unat (rh_ext_len ?k) * 8) payload" using b(9) unfolding eq .
  from assms(2) consider "length vec = 0" | "length vec = 1" | "length vec = 2" | "length vec = 3"
    | "length vec = 4" | "length vec = 5" | "length vec = 6" | "length vec = 7" by linarith
  then show "rh_count 40 m = of_nat (hop_count vec)"
    using c b(2,6) by cases (simp_all add: rh_count_def Let_def rh_ext_len_def rh_pad_def rh_vector_len_def
      UIP_RH4_CMPRI_def UIP_RH4_CMPRE_def)
qed

lemma srh_addrs:
  assumes "bytes_at m 40 (srh proto sl vec final payload)" "length vec < 8" "length final = 16" "i \<le> length vec"
  shows "rh_pos 40 m (of_nat (Suc i)) = 48 + i"
    "rh_addr 40 m (of_nat (hop_count vec)) (of_nat (Suc i))
       = (if i < length vec then bget m 24 15 @ [vec ! i] else final)"
proof -
  note f = srh_fields [OF assms(1-3)]
  have u: "unat (of_nat (Suc i) :: u8) = Suc i" "unat (of_nat (hop_count vec) :: u8) = hop_count vec"
    using assms(2,4) by (simp_all del: of_nat_Suc of_nat_add add: unat_of_nat take_bit_eq_mod)
  show pos: "rh_pos 40 m (of_nat (Suc i)) = 48 + i" by (simp add: rh_pos_def f Let_def u(1) del: of_nat_Suc)
  have eq: "(of_nat (Suc i) :: u8) = of_nat (hop_count vec) \<longleftrightarrow> i = length vec"
    using u by (metis Suc_eq_plus1 Suc_inject)
  show "rh_addr 40 m (of_nat (hop_count vec)) (of_nat (Suc i))
       = (if i < length vec then bget m 24 15 @ [vec ! i] else final)"
  proof (cases "i < length vec")
    case True
    then have "rh_cmpr 40 m (of_nat (hop_count vec)) (of_nat (Suc i)) = 15"
      using eq by (simp add: rh_cmpr_def f del: of_nat_Suc of_nat_add)
    moreover have "m (48 + i) = vec ! i" using f(8) True by (simp add: bytes_at_nth)
    ultimately show ?thesis using True pos by (simp add: rh_addr_def Let_def bget_Suc del: of_nat_Suc of_nat_add)
  next
    case False
    then have i: "i = length vec" using assms(4) by simp
    then have "rh_cmpr 40 m (of_nat (hop_count vec)) (of_nat (Suc i)) = 0"
      using eq by (simp add: rh_cmpr_def f del: of_nat_Suc of_nat_add)
    moreover have "bget m (48 + i) 16 = final" using f(9) i assms(3) by (simp add: bytes_at_iff)
    ultimately show ?thesis using i pos by (simp add: rh_addr_def Let_def del: of_nat_Suc of_nat_add)
  qed
qed

section \<open>The scan for a loop\<close>

lemma rh_scan_free:
  assumes "n < 255" "\<And>i. ii \<le> i \<Longrightarrow> i \<le> n \<Longrightarrow> uip_ds6_is_my_addr (rh_addr (l3_hdr s) (ubuf s) n i) (nd s) \<Longrightarrow> i = n"
  shows "rh_scan n ii 0 s = Some False"
  using assms(2)
proof (induction "unat n + 1 - unat ii" arbitrary: ii)
  case 0
  then have "\<not> ii \<le> n" by (simp add: word_le_nat_alt)
  then show ?case by (simp add: rh_scan.simps)
next
  case (Suc d)
  then have le: "ii \<le> n" by (simp add: word_le_nat_alt)
  with assms(1) have lt: "ii < 255" by simp
  then have u: "unat (ii + 1) = unat ii + 1" by (simp add: word_less_nat_alt unat_word_ariths)
  have nxt: "rh_scan n (ii + 1) 0 s = Some False"
  proof (rule Suc.hyps(1))
    show "d = unat n + 1 - unat (ii + 1)" using Suc.hyps(2) u by simp
  next
    fix i
    assume a: "ii + 1 \<le> i" "i \<le> n" "uip_ds6_is_my_addr (rh_addr (l3_hdr s) (ubuf s) n i) (nd s)"
    from a(1) u have "ii \<le> i" by (simp add: word_le_nat_alt)
    with a Suc.prems show "i = n" by blast
  qed
  show ?case
  proof (cases "uip_ds6_is_my_addr (rh_addr (l3_hdr s) (ubuf s) n ii) (nd s)")
    case False
    with le nxt show ?thesis by (subst rh_scan.simps) simp
  next
    case True
    with le Suc.prems have ii: "ii = n" by blast
    have "\<not> n + 1 \<le> n" using u ii by (simp add: word_le_nat_alt)
    then have "rh_scan n (n + 1) n s = Some False" by (simp add: rh_scan.simps)
    with ii True show ?thesis by (subst rh_scan.simps) simp
  qed
qed

section \<open>One hop\<close>

lemma srh_update:
  assumes "bytes_at m 40 (srh proto sl vec final payload)" "length vec < 8"
  shows "bytes_at (m(43 := x)) 40 (srh proto x vec final payload)"
    "i < length vec \<Longrightarrow> bytes_at (bset (48 + i) [y] m) 40 (srh proto sl (vec[i := y]) final payload)"
    "length final' = length final \<Longrightarrow> bytes_at (bset (48 + length vec) final' m) 40 (srh proto sl vec final' payload)"
proof -
  show "bytes_at (m(43 := x)) 40 (srh proto x vec final payload)"
    using bytes_at_upd [OF assms(1), of 3 x] by (simp add: srh_def Let_def numeral_3_eq_3)
  let ?h = "[proto, rh_ext_len (of_nat (hop_count vec)), 4, sl, 0xF0, push_bit 4 (rh_pad (of_nat (hop_count vec))), 0, 0]"
  let ?z = "replicate (unat (rh_pad (of_nat (hop_count vec)))) 0 @ payload"
  show "bytes_at (bset (48 + length vec) final' m) 40 (srh proto sl vec final' payload)" if "length final' = length final"
    using bytes_at_bset [of m 40 "?h @ vec" final ?z final' "48 + length vec"] assms(1) that
    by (simp add: srh_def Let_def)
  assume i: "i < length vec"
  then have v: "vec = take i vec @ [vec ! i] @ drop (Suc i) vec" by (simp add: id_take_nth_drop)
  have b: "bytes_at m 40 ((?h @ take i vec) @ [vec ! i] @ (drop (Suc i) vec @ final @ ?z))"
    using assms(1) by (subst (asm) srh_def) (simp add: Let_def, subst (asm) v, simp)
  from bytes_at_bset [OF b, of "[y]" "48 + i"] i
  show "bytes_at (bset (48 + i) [y] m) 40 (srh proto sl (vec[i := y]) final payload)"
    by (simp add: srh_def Let_def upd_conv_take_nth_drop)
qed

text \<open>The \<open>j\<close>-th address of the header, counted from 0, relative to the destination.\<close>

definition srh_next :: "ipaddr \<Rightarrow> bytes \<Rightarrow> ipaddr \<Rightarrow> nat \<Rightarrow> ipaddr" where
  "srh_next dst vec final j = (if j < length vec then take 15 dst @ [vec ! j] else final)"

lemma rh4_process_step:
  assumes p: "ip_packet (ubuf s) src dst ttl UIP_PROTO_ROUTING (srh proto sl vec final payload)"
    and e: "uext s = 0" and len: "length vec < 8" "length final = 16"
    and sl: "unat sl = hop_count vec - j" "j \<le> length vec"
    and m: "\<not> uip_is_addr_mcast (srh_next dst vec final j)" "\<not> uip_is_addr_mcast dst"
    and ttl: "1 < ttl"
    and own: "\<And>i. i < length vec \<Longrightarrow> \<not> uip_ds6_is_my_addr (srh_next dst vec final i) (nd s)"
    and on: "j < length vec \<Longrightarrow> uip_ds6_is_addr_onlink (srh_next dst vec final j) (nd s)"
  shows "\<exists>m'. rh4_process s = Some (if uip_ds6_is_my_addr (srh_next dst vec final j) (nd s) then Again else Send, s\<lparr>ubuf := m'\<rparr>)
    \<and> ip_packet m' src (srh_next dst vec final j) (ttl - 1) UIP_PROTO_ROUTING
        (if j < length vec then srh proto (sl - 1) (vec[j := dst ! 15]) final payload else srh proto (sl - 1) vec dst payload)"
proof -
  let ?a = "srh_next dst vec final j" and ?n = "of_nat (hop_count vec) :: u8"
  define m0 where "m0 = ubuf s"
  define m1 where "m1 = m0(43 := m0 43 - 1)"
  define s1 where "s1 = s\<lparr>ubuf := m1\<rparr>"
  from p have b0: "bytes_at m0 40 (srh proto sl vec final payload)" and d0: "bget m0 24 16 = dst" and s0: "bget m0 8 16 = src"
    and h0: "m0 0 AND 0xf0 = 0x60" "m0 7 = ttl" "m0 6 = UIP_PROTO_ROUTING"
      "ip_len m0 = of_nat (length (srh proto sl vec final payload))"
    by (simp_all add: ip_packet_def m0_def ip_src_def ip_dst_def)
  have ld: "length dst = 16" using d0 by (metis length_bget)
  note f0 = srh_fields [OF b0 len]
  have b1: "bytes_at m1 40 (srh proto (sl - 1) vec final payload)"
    using srh_update(1) [OF b0 len(1), of "m0 43 - 1"] f0(4) by (simp add: m1_def)
  note f1 = srh_fields [OF b1 len] and a1 = srh_addrs [OF b1 len]
  have d1: "bget m1 24 16 = dst" "bget m1 24 15 = take 15 dst"
  proof -
    show "bget m1 24 16 = dst" by (simp add: m1_def bget_upd_other d0)
    then show "bget m1 24 15 = take 15 dst" using bget_split [of m1 24 15 1] by auto
  qed
  have addr: "rh_addr 40 m1 ?n (of_nat (Suc i)) = srh_next dst vec final i" if "i \<le> length vec" for i
    using a1(2) [OF that] d1 by (simp add: srh_next_def del: of_nat_Suc)
  have un: "unat ?n = hop_count vec" using len by (simp add: unat_of_nat take_bit_eq_mod del: of_nat_Suc of_nat_add)
  have usl: "unat (sl - 1) = hop_count vec - Suc j"
  proof -
    have "sl \<noteq> 0" using sl by (metis diff_is_0_eq not_less_eq_eq Suc_eq_plus1 unat_0 le_refl)
    then show ?thesis using sl by (simp add: unat_minus_one)
  qed
  have i: "?n - (sl - 1) = of_nat (Suc j)"
  proof (rule word_unat_eq_iff [THEN iffD2])
    have "unat (?n - (sl - 1)) = unat ?n - unat (sl - 1)"
      by (rule unat_sub) (simp only: word_le_nat_alt un usl)
    also have "\<dots> = Suc j" using un usl sl(2) by simp
    also have "\<dots> = unat (of_nat (Suc j) :: u8)" using sl(2) len(1) by (simp add: unat_of_nat take_bit_eq_mod del: of_nat_Suc)
    finally show "unat (?n - (sl - 1)) = unat (of_nat (Suc j) :: u8)" .
  qed
  have scan: "rh_scan ?n 1 0 s1 = Some False"
  proof (rule rh_scan_free)
    show "?n < 255" using un len by (simp add: word_less_nat_alt del: of_nat_Suc of_nat_add)
    fix i
    assume a: "1 \<le> i" "i \<le> ?n" "uip_ds6_is_my_addr (rh_addr (l3_hdr s1) (ubuf s1) ?n i) (nd s1)"
    then obtain k where k: "unat i = Suc k" "k \<le> length vec"
      using un by (cases "unat i") (auto simp: word_le_nat_alt)
    then have i: "i = of_nat (Suc k)" by (metis of_nat_unat ucast_id)
    from a(3) have "uip_ds6_is_my_addr (srh_next dst vec final k) (nd s)"
      using addr [OF k(2)] e by (simp add: s1_def l3_hdr_def i del: of_nat_Suc of_nat_add)
    with own k have "k = length vec" by (meson le_neq_implies_less)
    with i show "i = ?n" by simp
  qed
  define m2 where "m2 = bset (rh_pos 40 m1 (of_nat (Suc j))) (drop (if j < length vec then 15 else 0) dst) (bset 24 ?a (m1(7 := m1 7 - 1)))"
  have cmpr: "rh_cmpr 40 m1 ?n (of_nat (Suc j)) = (if j < length vec then 15 else 0)"
  proof -
    have "(of_nat (Suc j) :: u8) = ?n \<longleftrightarrow> j = length vec"
    proof
      assume "(of_nat (Suc j) :: u8) = ?n"
      then have "unat (of_nat (Suc j) :: u8) = hop_count vec" using un by simp
      then show "j = length vec" using sl(2) len(1) by (simp add: unat_of_nat take_bit_eq_mod del: of_nat_Suc)
    qed simp
    then show ?thesis using sl(2) f1(5,6) by (auto simp: rh_cmpr_def simp del: of_nat_Suc of_nat_add)
  qed
  define m1' where "m1' = bset 24 ?a (m1(7 := m1 7 - 1))"
  have la: "length ?a = 16" using ld len(2) by (simp add: srh_next_def)
  have b1': "bytes_at m1' 40 (srh proto (sl - 1) vec final payload)"
    using b1 la by (simp add: m1'_def bytes_at_iff bget_other)
  have m2: "m2 = (if j < length vec then bset (48 + j) [dst ! 15] m1' else bset (48 + length vec) dst m1')"
  proof (cases "j < length vec")
    case True
    moreover have "drop 15 dst = [dst ! 15]" using ld by (intro nth_equalityI) simp_all
    ultimately show ?thesis using a1(1) [OF sl(2)] by (simp add: m2_def m1'_def)
  next
    case False
    then show ?thesis using a1(1) [OF sl(2)] sl(2) by (simp add: m2_def m1'_def)
  qed
  let ?body = "if j < length vec then srh proto (sl - 1) (vec[j := dst ! 15]) final payload else srh proto (sl - 1) vec dst payload"
  have b2: "bytes_at m2 40 ?body"
    using srh_update(2) [OF b1' len(1), of j "dst ! 15"] srh_update(3) [OF b1' len(1), of dst] ld len(2) by (simp add: m2)
  have hdr: "m2 i = m1' i" if "i < 48" for i using that by (simp add: m2)
  have "ip_packet m2 src ?a (ttl - 1) UIP_PROTO_ROUTING ?body"
  proof -
    have "bget m2 8 16 = bget m1' 8 16" "bget m2 24 16 = bget m1' 24 16" by (rule bget_eqI; simp add: hdr)+
    moreover have "bget m1' 8 16 = src" using la s0 by (simp add: m1'_def bget_other m1_def)
    moreover have "bget m1' 24 16 = ?a" using la by (simp add: m1'_def bget_bset_same)
    moreover have "m2 0 AND 0xf0 = 0x60" "m2 7 = ttl - 1" "m2 6 = UIP_PROTO_ROUTING"
      using h0 by (simp_all add: hdr m1'_def m1_def)
    moreover have "ip_len m2 = of_nat (length ?body)"
    proof -
      have "ip_len m2 = ip_len m0" by (simp add: ip_len_def hdr m1'_def m1_def)
      moreover have "length ?body = length (srh proto sl vec final payload)"
        using len ld by (simp add: length_srh)
      ultimately show ?thesis using h0(4) by simp
    qed
    ultimately show ?thesis using b2 by (simp add: ip_packet_def ip_src_def ip_dst_def)
  qed
  moreover have "rh4_process s = Some (if uip_ds6_is_my_addr ?a (nd s) then Again else Send, s\<lparr>ubuf := m2\<rparr>)"
  proof -
    have h: "l3_hdr s = 40" using e by (simp add: l3_hdr_def)
    have c1: "rh_count 40 (ubuf s) = ?n" using f0(7) by (simp only: m0_def)
    have c2: "\<not> ?n < ubuf s (40 + 3)" using f0(4) sl(1) un by (simp add: m0_def word_less_nat_alt del: of_nat_Suc of_nat_add)
    have s1: "upd_buf (\<lambda>m. m(40 + 3 := m (40 + 3) - 1)) s = s1" by (simp add: s1_def m1_def m0_def upd_buf_def)
    have sl1: "m1 (40 + 3) = sl - 1" using f0(4) by (simp add: m1_def)
    have m1: "ubuf s1 = m1" by (simp add: s1_def)
    have ttl1: "\<not> m1 7 \<le> 1" using h0(2) ttl by (simp add: m1_def)
    have a: "rh_addr 40 m1 ?n (of_nat (Suc j)) = ?a" by (rule addr [OF sl(2)])
    have lt: "(of_nat (Suc j) :: u8) < ?n \<longleftrightarrow> j < length vec"
      using un i usl sl len(1) by (simp add: word_less_nat_alt u8_of_nat del: of_nat_Suc of_nat_add)
    have onl: "\<not> (of_nat (Suc j) < ?n \<and> \<not> uip_ds6_is_addr_onlink ?a (nd s))"
      using on lt by blast
    have fin: "upd_buf (\<lambda>m. bset (rh_pos 40 m (of_nat (Suc j))) (drop (if j < length vec then 15 else 0) dst)
        (bset 24 ?a (m(7 := m 7 - 1)))) s1 = s\<lparr>ubuf := m2\<rparr>"
      by (simp add: upd_buf_def s1_def m2_def)
    have dst1: "ip_dst m1 = dst" using d1 by (simp add: ip_dst_def)
    have nds: "nd s1 = nd s" by (simp add: s1_def)
    show ?thesis
      unfolding rh4_process_def Let_def h c1 s1 m1 sl1 i dst1 a cmpr fin
      by (simp only: c2 m scan onl ttl1 nds if_False simp_thms Option.bind_lunit upd_buf_simps) simp
  qed
  ultimately show ?thesis by blast
qed

section \<open>Receiving and sending\<close>

lemma ip_input_local:
  assumes p: "ip_packet (ubuf s) src dst ttl proto body" and len: "ulen s = of_nat (40 + length body)"
    and small: "length body \<le> 1240" and own: "uip_ds6_is_my_addr dst (nd s) \<or> uip_ds6_maddr_lookup dst (nd s) \<noteq> None" and src: "\<not> uip_is_addr_mcast src"
  shows "ip_input s = ext_headers 6 (s\<lparr>uext := 0\<rparr>)"
proof -
  have u: "unat (of_nat (40 + length body) :: u16) = 40 + length body" "unat (of_nat (length body) :: u16) = length body"
    using small by (simp_all only: u16_of_nat)
  have "\<not> ulen s < ip_len (ubuf s)" using p len u by (simp add: ip_packet_def word_less_nat_alt del: of_nat_add)
  moreover have "ip_len (ubuf s) + UIP_IPH_LEN = ulen s" using p len by (simp add: ip_packet_def UIP_IPH_LEN_def)
  moreover obtain x where "uip_ds6_is_my_addr dst (nd s) \<or> uip_ds6_maddr_lookup dst (nd s) = Some x"
    using own by blast
  ultimately show ?thesis using p src by (elim disjE) (simp_all add: ip_input_def ip_packet_def Let_def)
qed

lemma ext_headers_rh4:
  assumes "ubuf s 6 = UIP_PROTO_ROUTING" "ubuf s (l3_hdr s + 3) \<noteq> 0" "ubuf s (l3_hdr s + 2) = 4"
  shows "ext_headers 6 s = rh4_process s"
  using assms by (subst ext_headers.simps) (simp add: uip_consts)

text \<open>Behind a routing header whose segments are used up follows the upper layer.\<close>

lemma ext_headers_rh_done:
  assumes "ubuf s 6 = UIP_PROTO_ROUTING" "uext s = 0" "ubuf s 43 = 0"
    "ubuf s 40 = proto" "proto = UIP_PROTO_UDP \<or> proto = UIP_PROTO_ICMP6"
  shows "ext_headers 6 s = Some (if proto = UIP_PROTO_UDP then To_udp else To_icmp6, ext_skip s)"
proof -
  have "ext_headers 6 s = ext_headers 40 (ext_skip s)"
    using assms(1-3) by (subst ext_headers.simps) (simp add: uip_consts l3_hdr_def)
  also have "\<dots> = Some (if proto = UIP_PROTO_UDP then To_udp else To_icmp6, ext_skip s)"
    using assms(4,5) by (subst ext_headers.simps) (auto simp: ext_skip_def uip_consts Let_def)
  finally show ?thesis .
qed

text \<open>The neighbour with the address \<open>a\<close> can be sent to at the link address \<open>l\<close>.\<close>

definition knows :: "node \<Rightarrow> ipaddr \<Rightarrow> bytes \<Rightarrow> bool" where
  "knows n a l \<longleftrightarrow> (case uip_ds6_nbr_lookup a n of None \<Rightarrow> False
     | Some i \<Rightarrow> n_lladdr (nbr_cache n ! i) = l \<and> n_state (nbr_cache n ! i) \<noteq> NBR_INCOMPLETE)"

lemma upd_nbr_simps [simp]:
  "ubuf (upd_nbr i f s) = ubuf s" "ulen (upd_nbr i f s) = ulen s" "uext (upd_nbr i f s) = uext s"
  "frames (upd_nbr i f s) = frames s" "nbr_cache (nd (upd_nbr i f s)) = updf i f (nbr_cache (nd s))"
  by (simp_all add: upd_nbr_def)

lemma updf_field: "(\<And>x. g (f x) = g x) \<Longrightarrow> g (updf i f xs ! i) = g (xs ! i)"
  by (cases "i < length xs") simp_all

lemma nbr_send_frames:
  "frames (nbr_send i s) = frames s @ [(Some (n_lladdr (nbr_cache (nd s) ! i)), bget (ubuf s) 0 (unat (ulen s)))]"
  by (simp add: nbr_send_def Let_def tcpip_output_def updf_field)

lemma output_onlink:
  assumes "ulen s \<noteq> 0" "\<not> UIP_LINK_MTU < ulen s" "\<not> uip_is_addr_unspecified (ip_dst (ubuf s))"
    "\<not> uip_is_addr_mcast (ip_dst (ubuf s))" "next_hop s = (Some h, s')" "knows (nd s') h l"
  shows "frames (tcpip_ipv6_output s) = frames s' @ [(Some l, bget (ubuf s') 0 (unat (ulen s')))]"
proof -
  from assms(6) obtain i where "uip_ds6_nbr_lookup h (nd s') = Some i" "n_lladdr (nbr_cache (nd s') ! i) = l"
    "n_state (nbr_cache (nd s') ! i) \<noteq> NBR_INCOMPLETE" by (auto simp: knows_def split: option.splits)
  with assms show ?thesis by (simp add: tcpip_ipv6_output_def Let_def nbr_send_frames)
qed

section \<open>A path of nodes\<close>

text \<open>A unicast frame is received by the node that has its link address; the path gives up
  when a node does not send exactly one frame, to the next node.\<close>

fun carry :: "(nat \<Rightarrow> stack \<Rightarrow> stack) \<Rightarrow> stack list \<Rightarrow> bytes \<Rightarrow> bytes \<Rightarrow> stack option" where
  "carry app [] sender f = None"
| "carry app [s] sender f = uip_process app (load_frame sender f s)"
| "carry app (s # t # ns) sender f =
     Option.bind (frame_input app sender f s) (\<lambda>s'.
       case drop (length (frames s)) (frames s') of
         [(Some l, f')] \<Rightarrow> if l = lladdr (nd t) then carry app (t # ns) (lladdr (nd s)) f' else None
       | _ \<Rightarrow> None)"

text \<open>The hops that the header of this build can express: link-local addresses that differ
  in their last byte only.\<close>

definition hops_ok :: "ipaddr list \<Rightarrow> bool" where
  "hops_ok hops \<longleftrightarrow> hops \<noteq> [] \<and> length hops \<le> 8
     \<and> list_all (\<lambda>h. length h = 16 \<and> take 15 h = take 15 (hd hops) \<and> uip_is_addr_link_local h) hops"

text \<open>Each node of the path has exactly its own hop as address, and knows the link address
  of the next one; the last one has the target's address.\<close>

definition relay_ok :: "ipaddr list \<Rightarrow> ipaddr \<Rightarrow> stack list \<Rightarrow> nat \<Rightarrow> bool" where
  "relay_ok hops g ns j \<longleftrightarrow>
     (let n = nd (ns ! j) in
      list_all (\<lambda>i. uip_ds6_is_my_addr (hops ! i) n = (i = j)) [0..<length hops]
      \<and> (if Suc j = length hops then uip_ds6_is_my_addr g n
         else uip_ds6_is_addr_onlink (hops ! Suc j) n \<and> knows n (hops ! Suc j) (lladdr (nd (ns ! Suc j)))))"

definition path_ok :: "ipaddr list \<Rightarrow> ipaddr \<Rightarrow> stack list \<Rightarrow> bool" where
  "path_ok hops g ns \<longleftrightarrow> length ns = length hops \<and> list_all (relay_ok hops g ns) [0..<length hops]"

text \<open>The compressed addresses in the header while the packet is under way to hop \<open>j\<close>: the
  hops that were visited, then those still to come.\<close>

definition vec_at :: "ipaddr list \<Rightarrow> nat \<Rightarrow> bytes" where
  "vec_at hops j = (let bs = map (\<lambda>h. h ! 15) hops in take j bs @ drop (Suc j) bs)"

lemma length_vec_at: "j < length hops \<Longrightarrow> length (vec_at hops j) = length hops - 1"
  by (simp add: vec_at_def Let_def)

lemma hop_split: "length h = 16 \<Longrightarrow> take 15 h @ [h ! 15] = (h :: ipaddr)"
  using take_Suc_conv_app_nth [of 15 h] by simp

lemma hops_okD:
  assumes "hops_ok hops" "i < length hops"
  shows "length (hops ! i) = 16" "take 15 (hops ! i) = take 15 (hops ! 0)" "uip_is_addr_link_local (hops ! i)"
    "\<not> uip_is_addr_mcast (hops ! i)" "\<not> uip_is_addr_unspecified (hops ! i)"
proof -
  have hd: "hd hops = hops ! 0" using assms(2) by (intro hd_conv_nth) auto
  have "hops ! i \<in> set hops" using assms(2) by (rule nth_mem)
  with assms(1) have "length (hops ! i) = 16 \<and> take 15 (hops ! i) = take 15 (hd hops) \<and> uip_is_addr_link_local (hops ! i)"
    unfolding hops_ok_def list_all_iff by blast
  then show a: "length (hops ! i) = 16" "take 15 (hops ! i) = take 15 (hops ! 0)" "uip_is_addr_link_local (hops ! i)"
    unfolding hd by blast+
  from a(3) show "\<not> uip_is_addr_mcast (hops ! i)" by (simp add: uip_is_addr_link_local_def uip_is_addr_mcast_def)
  show "\<not> uip_is_addr_unspecified (hops ! i)"
  proof
    assume "uip_is_addr_unspecified (hops ! i)"
    with a(1) have "hops ! i = replicate 16 0" by (simp add: uip_is_addr_unspecified_def)
    with a(3) show False by (simp add: uip_is_addr_link_local_def)
  qed
qed

text \<open>The address that follows in the header is the next hop, and the step puts the
  current one in its place.\<close>

lemma srh_next_vec:
  assumes "hops_ok hops" "j < length hops" "i < length hops"
  shows "srh_next (hops ! j) (vec_at hops j) g i =
    (if Suc i = length hops then g else hops ! (if i < j then i else Suc i))"
proof (cases "Suc i = length hops")
  case True
  then show ?thesis using assms by (auto simp: srh_next_def length_vec_at)
next
  case False
  with assms(3) have i: "i < length hops - 1" by simp
  let ?k = "if i < j then i else Suc i"
  have k: "?k < length hops" using i by (cases "i < j") auto
  have "vec_at hops j ! i = hops ! ?k ! 15"
    using assms(2) i by (simp add: vec_at_def Let_def nth_append min_def)
  moreover have "take 15 (hops ! j) = take 15 (hops ! ?k)" using hops_okD(2) assms k by metis
  ultimately show ?thesis
    using False i assms(2) hop_split [OF hops_okD(1) [OF assms(1) k]] by (simp add: srh_next_def length_vec_at)
qed

lemma vec_at_step:
  assumes "Suc j < length hops"
  shows "(vec_at hops j)[j := hops ! j ! 15] = vec_at hops (Suc j)"
  using assms by (intro nth_equalityI)
    (auto simp: vec_at_def Let_def nth_append nth_list_update min_def less_Suc_eq)

section \<open>Along the path\<close>

text \<open>The frame is this packet.\<close>

definition frame_holds :: "bytes \<Rightarrow> ipaddr \<Rightarrow> ipaddr \<Rightarrow> u8 \<Rightarrow> u8 \<Rightarrow> bytes \<Rightarrow> bool" where
  "frame_holds f src dst ttl proto body \<longleftrightarrow>
     length f = 40 + length body \<and> ip_packet (bset 0 f (\<lambda>_. 0)) src dst ttl proto body"

lemma frame_holds_load:
  "frame_holds f src dst ttl proto body \<Longrightarrow> ip_packet (bset 0 f m) src dst ttl proto body"
  using ip_packet_cong [of body "bset 0 f m" "bset 0 f (\<lambda>_. 0)" src dst ttl proto]
  by (simp add: frame_holds_def bset_nth)

lemma frame_holds_bget:
  "ip_packet m src dst ttl proto body \<Longrightarrow> frame_holds (bget m 0 (40 + length body)) src dst ttl proto body"
  by (simp add: frame_holds_def ip_packet_frame)

lemma load_frame_simps [simp]:
  "ubuf (load_frame sd f s) = bset 0 f (ubuf s)" "nd (load_frame sd f s) = nd s"
  "ulen (load_frame sd f s) = of_nat (length f)" "usender (load_frame sd f s) = sd"
  "frames (load_frame sd f s) = frames s" "udp_conns (load_frame sd f s) = udp_conns s"
  by (simp_all add: load_frame_def)

abbreviation routed :: "bytes \<Rightarrow> ipaddr \<Rightarrow> ipaddr list \<Rightarrow> nat \<Rightarrow> u8 \<Rightarrow> u8 \<Rightarrow> ipaddr \<Rightarrow> bytes \<Rightarrow> bool" where
  "routed f src hops j ttl proto g payload \<equiv>
     frame_holds f src (hops ! j) ttl UIP_PROTO_ROUTING
       (srh proto (of_nat (length hops - j)) (vec_at hops j) g payload)"

text \<open>What every hop does first, with the frame in the buffer.\<close>

lemma hop_step:
  assumes ok: "hops_ok hops" "relay_ok hops g ns j" "j < length hops" and g: "length g = 16" "\<not> uip_is_addr_mcast g"
    and f: "routed f src hops j ttl proto g payload" "length f \<le> UIP_BUFSIZE" "\<not> uip_is_addr_mcast src" "1 < ttl"
  defines "next \<equiv> if Suc j = length hops then g else hops ! Suc j"
  shows "\<exists>m'. ip_input (load_frame sd f (ns ! j)) =
      Some (if uip_ds6_is_my_addr next (nd (ns ! j)) then Again else Send, (load_frame sd f (ns ! j))\<lparr>uext := 0, ubuf := m'\<rparr>)
    \<and> ip_packet m' src next (ttl - 1) UIP_PROTO_ROUTING
        (if Suc j = length hops then srh proto 0 (vec_at hops j) (hops ! j) payload
         else srh proto (of_nat (length hops - Suc j)) (vec_at hops (Suc j)) g payload)"
proof -
  define s where "s = load_frame sd f (ns ! j)"
  define n where "n = nd (ns ! j)"
  let ?v = "vec_at hops j" and ?sl = "of_nat (length hops - j) :: u8"
  let ?body = "srh proto ?sl ?v g payload"
  have k8: "length hops \<le> 8" using ok(1) by (simp add: hops_ok_def)
  have lv: "length ?v = length hops - 1" using ok(3) by (rule length_vec_at)
  have r: "\<And>i. i < length hops \<Longrightarrow> uip_ds6_is_my_addr (hops ! i) n = (i = j)"
    "Suc j \<noteq> length hops \<Longrightarrow> uip_ds6_is_addr_onlink (hops ! Suc j) n"
    using ok(2) by (auto simp: relay_ok_def Let_def list_all_iff n_def split: if_splits)
  have p: "ip_packet (ubuf s) src (hops ! j) ttl UIP_PROTO_ROUTING ?body"
    using frame_holds_load [OF f(1)] by (simp add: s_def)
  have lf: "length f = 40 + length ?body" using f(1) by (simp add: frame_holds_def)
  have usl: "unat ?sl = length hops - j" using k8 by (simp add: unat_of_nat take_bit_eq_mod)
  have "ip_input s = ext_headers 6 (s\<lparr>uext := 0\<rparr>)"
    by (rule ip_input_local [OF p]) (use f lf r(1) ok(3) in \<open>simp_all add: s_def n_def UIP_BUFSIZE_def\<close>)
  also have "\<dots> = rh4_process (s\<lparr>uext := 0\<rparr>)"
  proof (rule ext_headers_rh4)
    from p have b: "bytes_at (ubuf s) 40 ?body" and t: "ubuf s 6 = UIP_PROTO_ROUTING" by (simp_all add: ip_packet_def)
    note fl = srh_fields [OF b _ g(1)]
    show "ubuf (s\<lparr>uext := 0\<rparr>) 6 = UIP_PROTO_ROUTING" using t by simp
    show "ubuf (s\<lparr>uext := 0\<rparr>) (l3_hdr (s\<lparr>uext := 0\<rparr>) + 3) \<noteq> 0" "ubuf (s\<lparr>uext := 0\<rparr>) (l3_hdr (s\<lparr>uext := 0\<rparr>) + 2) = 4"
      using fl(3,4) lv k8 ok(3) usl by (auto simp: l3_hdr_def word_unat_eq_iff)
  qed
  finally have ip: "ip_input s = rh4_process (s\<lparr>uext := 0\<rparr>)" .
  have nxt: "srh_next (hops ! j) ?v g i = (if Suc i = length hops then g else hops ! (if i < j then i else Suc i))"
    if "i < length hops" for i using srh_next_vec [OF ok(1,3) that] .
  have next': "srh_next (hops ! j) ?v g j = next" using nxt [OF ok(3)] by (simp add: next_def)
  have dec: "?sl - 1 = of_nat (length hops - Suc j)"
    using ok(3) by (simp add: Suc_diff_Suc [symmetric])
  have "\<exists>m'. rh4_process (s\<lparr>uext := 0\<rparr>) = Some (if uip_ds6_is_my_addr (srh_next (hops ! j) ?v g j) (nd (s\<lparr>uext := 0\<rparr>)) then Again else Send,
      (s\<lparr>uext := 0\<rparr>)\<lparr>ubuf := m'\<rparr>) \<and> ip_packet m' src (srh_next (hops ! j) ?v g j) (ttl - 1) UIP_PROTO_ROUTING
      (if j < length ?v then srh proto (?sl - 1) (?v[j := hops ! j ! 15]) g payload else srh proto (?sl - 1) ?v (hops ! j) payload)"
  proof (rule rh4_process_step)
    show "ip_packet (ubuf (s\<lparr>uext := 0\<rparr>)) src (hops ! j) ttl UIP_PROTO_ROUTING ?body" using p by simp
    show "length ?v < 8" "length g = 16" "unat ?sl = hop_count ?v - j" "j \<le> length ?v" "1 < ttl"
      using lv k8 ok(3) usl f(4) g(1) by simp_all
    show "\<not> uip_is_addr_mcast (hops ! j)" using hops_okD(4) [OF ok(1,3)] .
    show "\<not> uip_is_addr_mcast (srh_next (hops ! j) ?v g j)"
      using hops_okD(4) [OF ok(1), of "Suc j"] ok(3) g(2) by (auto simp: next' next_def)
  next
    fix i
    assume "i < length ?v"
    with lv have i: "Suc i < length hops" by simp
    then show "\<not> uip_ds6_is_my_addr (srh_next (hops ! j) ?v g i) (nd (s\<lparr>uext := 0\<rparr>))"
      using nxt [of i] r(1) [of "if i < j then i else Suc i"] by (auto simp: s_def n_def split: if_splits)
  next
    assume "j < length ?v"
    with lv have "Suc j < length hops" by simp
    then show "uip_ds6_is_addr_onlink (srh_next (hops ! j) ?v g j) (nd (s\<lparr>uext := 0\<rparr>))"
      using r(2) by (simp add: next' next_def s_def n_def)
  qed (simp)
  moreover have "(if j < length ?v then srh proto (?sl - 1) (?v[j := hops ! j ! 15]) g payload else srh proto (?sl - 1) ?v (hops ! j) payload)
    = (if Suc j = length hops then srh proto 0 ?v (hops ! j) payload
       else srh proto (of_nat (length hops - Suc j)) (vec_at hops (Suc j)) g payload)"
  proof (cases "Suc j = length hops")
    case True
    then have "length hops - Suc j = 0" "\<not> j < length ?v" using lv by simp_all
    with True show ?thesis unfolding dec by (simp only: if_True if_False simp_thms) simp
  next
    case False
    then have "Suc j < length hops" "j < length ?v" using lv ok(3) by simp_all
    with False vec_at_step [of j hops] show ?thesis unfolding dec by (simp only: if_True if_False simp_thms)
  qed
  ultimately show ?thesis by (simp add: ip [unfolded s_def] next' s_def del: of_nat_diff)
qed

lemma hop_forwards:
  assumes ok: "hops_ok hops" "relay_ok hops g ns j" "Suc j < length hops" and g: "length g = 16" "\<not> uip_is_addr_mcast g"
    and f: "routed f src hops j ttl proto g payload" "length f \<le> UIP_BUFSIZE" "\<not> uip_is_addr_mcast src" "1 < ttl"
  shows "\<exists>s' f'. frame_input app sd f (ns ! j) = Some s'
    \<and> frames s' = frames (ns ! j) @ [(Some (lladdr (nd (ns ! Suc j))), f')]
    \<and> routed f' src hops (Suc j) (ttl - 1) proto g payload \<and> length f' = length f"
proof -
  let ?n = "nd (ns ! j)" and ?hop = "hops ! Suc j" and ?s = "load_frame sd f (ns ! j)"
  let ?body = "srh proto (of_nat (length hops - Suc j)) (vec_at hops (Suc j)) g payload"
  have r: "\<not> uip_ds6_is_my_addr ?hop ?n" "uip_ds6_is_addr_onlink ?hop ?n" "knows ?n ?hop (lladdr (nd (ns ! Suc j)))"
    using ok(2,3) by (auto simp: relay_ok_def Let_def list_all_iff split: if_splits)
  have j: "j < length hops" using ok(3) by simp
  obtain m' where ip: "ip_input ?s = Some (Send, ?s\<lparr>uext := 0, ubuf := m'\<rparr>)"
    and p: "ip_packet m' src ?hop (ttl - 1) UIP_PROTO_ROUTING ?body"
    using hop_step [OF ok(1,2) j g f, of sd] r(1) ok(3) by auto
  define s1 where "s1 = ?s\<lparr>uext := 0, ubuf := m'\<rparr>"
  have s1: "nd s1 = ?n" "frames s1 = frames (ns ! j)" "ubuf s1 = m'" "ulen s1 = of_nat (length f)" by (simp_all add: s1_def)
  have proc: "uip_process app ?s = Some s1" by (subst uip_process.simps) (simp add: ip s1_def)
  have lens: "length (vec_at hops (Suc j)) = length hops - 1" "length (vec_at hops j) = length hops - 1"
    using ok(3) by (simp_all add: length_vec_at)
  have k8: "length hops \<le> 8" using ok(1) by (simp add: hops_ok_def)
  then have lens8: "length (vec_at hops (Suc j)) < 8" "length (vec_at hops j) < 8"
    using lens ok(3) by linarith+
  have lf: "length f = 40 + length ?body"
    using f(1) length_srh [OF lens8(1) g(1)] length_srh [OF lens8(2) g(1)] lens by (simp add: frame_holds_def)
  have ul: "unat (ulen s1) = length f" using f(2) s1(4) u16_of_nat [of "length f"] by (simp add: UIP_BUFSIZE_def)
  have dst: "ip_dst m' = ?hop" using p by (simp add: ip_packet_def)
  note h = hops_okD [OF ok(1,3)]
  have out: "frames (tcpip_ipv6_output s1) = frames s1 @ [(Some (lladdr (nd (ns ! Suc j))), bget (ubuf s1) 0 (unat (ulen s1)))]"
  proof (rule output_onlink)
    show "ulen s1 \<noteq> 0" using ul lf by (auto simp: unat_eq_0 [symmetric])
    show "\<not> UIP_LINK_MTU < ulen s1" using ul f(2) by (simp add: word_less_nat_alt UIP_LINK_MTU_def UIP_BUFSIZE_def)
    show "\<not> uip_is_addr_unspecified (ip_dst (ubuf s1))" "\<not> uip_is_addr_mcast (ip_dst (ubuf s1))"
      using h by (simp_all add: dst s1)
    show "next_hop s1 = (Some ?hop, s1)" using r(2) by (simp add: next_hop_def Let_def dst s1)
    show "knows (nd s1) ?hop (lladdr (nd (ns ! Suc j)))" using r(3) by (simp add: s1)
  qed
  have "frame_input app sd f (ns ! j) = Some ((tcpip_ipv6_output s1)\<lparr>ulen := 0, uext := 0\<rparr>)"
  proof -
    have "ulen ?s \<noteq> 0" "0 < ulen s1" using ul lf s1(4) by (auto simp: unat_eq_0 [symmetric] word_gt_0)
    then show ?thesis by (simp add: frame_input_def tcpip_input_def packet_input_def proc)
  qed
  moreover have "frame_holds (bget (ubuf s1) 0 (unat (ulen s1))) src ?hop (ttl - 1) UIP_PROTO_ROUTING ?body"
    using frame_holds_bget [OF p] ul lf s1(3) by simp
  ultimately show ?thesis using out s1(2) ul by simp
qed

text \<open>The target takes the packet out of the header and hands it to the upper layer.\<close>

definition to_upper :: "(nat \<Rightarrow> stack \<Rightarrow> stack) \<Rightarrow> u8 \<Rightarrow> stack \<Rightarrow> stack option" where
  "to_upper app proto s = (if proto = UIP_PROTO_UDP then Some (udp_input app s) else icmp6_input s)"

lemma target_receives:
  assumes ok: "hops_ok hops" "relay_ok hops g ns j" "Suc j = length hops" and g: "length g = 16" "\<not> uip_is_addr_mcast g"
    and f: "routed f src hops j ttl proto g payload" "length f \<le> UIP_BUFSIZE" "\<not> uip_is_addr_mcast src" "1 < ttl"
    and proto: "proto = UIP_PROTO_UDP \<or> proto = UIP_PROTO_ICMP6"
  shows "\<exists>s'. uip_process app (load_frame sd f (ns ! j)) = to_upper app proto s'
    \<and> nd s' = nd (ns ! j) \<and> frames s' = frames (ns ! j) \<and> usender s' = sd \<and> udp_conns s' = udp_conns (ns ! j)
    \<and> ip_src (ubuf s') = src \<and> ip_dst (ubuf s') = g \<and> ubuf s' 7 = ttl - 1
    \<and> bytes_at (ubuf s') (l3_hdr s') payload \<and> unat (ulen s') = l3_hdr s' + length payload"
proof -
  let ?n = "nd (ns ! j)" and ?s = "load_frame sd f (ns ! j)" and ?v = "vec_at hops j"
  let ?body = "srh proto 0 ?v (hops ! j) payload"
  have own: "uip_ds6_is_my_addr g ?n" using ok(2,3) by (simp add: relay_ok_def Let_def)
  have j: "j < length hops" using ok(3) by simp
  obtain m' where ip: "ip_input ?s = Some (Again, ?s\<lparr>uext := 0, ubuf := m'\<rparr>)"
    and p: "ip_packet m' src g (ttl - 1) UIP_PROTO_ROUTING ?body"
    using hop_step [OF ok(1,2) j g f, of sd] own ok(3) by auto
  define s1 where "s1 = ?s\<lparr>uext := 0, ubuf := m'\<rparr>"
  have "length hops \<le> 8" using ok(1) by (simp add: hops_ok_def)
  then have lv: "length ?v = length hops - 1" "length ?v < 8" "length (hops ! j) = 16"
    using length_vec_at [OF j] j hops_okD(1) [OF ok(1) j] by linarith+
  have lf: "length f = 40 + length ?body"
    using f(1) lv g(1) by (simp add: frame_holds_def length_srh)
  have b: "bytes_at m' 40 ?body" and t: "m' 6 = UIP_PROTO_ROUTING" using p by (simp_all add: ip_packet_def)
  note fl = srh_fields [OF b lv(2,3)]
  have ip2: "ip_input s1 = Some (if proto = UIP_PROTO_UDP then To_udp else To_icmp6, ext_skip s1)"
  proof -
    have "ip_input s1 = ext_headers 6 (s1\<lparr>uext := 0\<rparr>)"
      by (rule ip_input_local [of _ src g "ttl - 1" UIP_PROTO_ROUTING ?body])
        (use p lf f own in \<open>simp_all add: s1_def UIP_BUFSIZE_def\<close>)
    also have "s1\<lparr>uext := 0\<rparr> = s1" by (simp add: s1_def)
    also have "ext_headers 6 s1 = Some (if proto = UIP_PROTO_UDP then To_udp else To_icmp6, ext_skip s1)"
      by (rule ext_headers_rh_done) (use fl t proto in \<open>simp_all add: s1_def\<close>)
    finally show ?thesis .
  qed
  have "uip_process app ?s = uip_process app s1" by (subst uip_process.simps) (simp add: ip s1_def)
  also have "\<dots> = to_upper app proto (ext_skip s1)"
    by (subst uip_process.simps) (simp add: ip2 to_upper_def)
  finally have proc: "uip_process app ?s = to_upper app proto (ext_skip s1)" .
  let ?e = "rh_ext_len (of_nat (hop_count ?v))"
  have e: "unat ?e = (hop_count ?v + 22) div 8" using lv by (intro srh_lens) simp_all
  have e3: "(hop_count ?v + 22) div 8 \<le> 3" using lv(2) by simp
  have "uext (ext_skip s1) = push_bit 3 ?e + 8"
    using fl(2) by (simp add: ext_skip_def s1_def l3_hdr_def)
  moreover have "unat (push_bit 3 ?e + 8) = unat ?e * 8 + 8"
  proof -
    have "unat ?e * 8 < 256" "unat ?e * 8 + 8 < 256" using e e3 by linarith+
    then show ?thesis by (simp add: push_bit_eq_mult unat_word_ariths)
  qed
  ultimately have l3: "l3_hdr (ext_skip s1) = 48 + unat ?e * 8" by (simp add: l3_hdr_def)
  have ul: "unat (ulen (ext_skip s1)) = length f"
    using f(2) u16_of_nat [of "length f"] by (simp add: ext_skip_def s1_def UIP_BUFSIZE_def)
  have "length f = l3_hdr (ext_skip s1) + length payload" using lf l3 lv by (simp add: length_srh)
  with proc ul fl(10) l3 p show ?thesis
    by (intro exI [of _ "ext_skip s1"]) (simp add: ext_skip_def s1_def ip_packet_def)
qed

lemma carry_along:
  assumes ok: "hops_ok hops" "path_ok hops g ns" "j < length hops" and g: "length g = 16" "\<not> uip_is_addr_mcast g"
    and f: "routed f src hops j ttl proto g payload" "length f \<le> UIP_BUFSIZE" "\<not> uip_is_addr_mcast src"
      "length hops - j < unat ttl"
    and proto: "proto = UIP_PROTO_UDP \<or> proto = UIP_PROTO_ICMP6"
  shows "\<exists>s'. carry app (drop j ns) sd f = to_upper app proto s'
    \<and> nd s' = nd (last ns) \<and> udp_conns s' = udp_conns (last ns)
    \<and> ip_src (ubuf s') = src \<and> ip_dst (ubuf s') = g \<and> unat (ubuf s' 7) = unat ttl - (length hops - j)
    \<and> bytes_at (ubuf s') (l3_hdr s') payload \<and> unat (ulen s') = l3_hdr s' + length payload"
  using ok(3) f(1,2,4)
proof (induction "length hops - Suc j" arbitrary: j ttl f sd)
  case 0
  then have j: "Suc j = length hops" by simp
  have r: "relay_ok hops g ns j" and ln: "length ns = length hops" using ok(2) 0(2) by (auto simp: path_ok_def list_all_iff)
  have ttl: "1 < ttl" using 0(5) j by (simp add: word_less_nat_alt)
  have last: "ns ! j = last ns" using ln j by (metis last_conv_nth diff_Suc_1 length_0_conv nat.simps(3))
  have "drop j ns = [ns ! j]" using ln j by (simp add: Cons_nth_drop_Suc [symmetric])
  moreover have "unat (ttl - 1) = unat ttl - 1" using ttl by (intro unat_minus_one) auto
  moreover obtain s' where "uip_process app (load_frame sd f (ns ! j)) = to_upper app proto s'"
    "nd s' = nd (ns ! j)" "udp_conns s' = udp_conns (ns ! j)" "ip_src (ubuf s') = src" "ip_dst (ubuf s') = g"
    "ubuf s' 7 = ttl - 1" "bytes_at (ubuf s') (l3_hdr s') payload" "unat (ulen s') = l3_hdr s' + length payload"
    using target_receives [OF ok(1) r j g 0(3,4) f(3) ttl proto, of app sd] by blast
  ultimately show ?case using last j by (intro exI [of _ s']) simp
next
  case (Suc d)
  then have j: "Suc j < length hops" by simp
  have r: "relay_ok hops g ns j" and ln: "length ns = length hops"
    using ok(2) Suc.prems(1) by (auto simp: path_ok_def list_all_iff)
  have ttl: "1 < ttl" using Suc.prems(4) j by (simp add: word_less_nat_alt)
  obtain s' f' where s': "frame_input app sd f (ns ! j) = Some s'"
    "frames s' = frames (ns ! j) @ [(Some (lladdr (nd (ns ! Suc j))), f')]"
    "routed f' src hops (Suc j) (ttl - 1) proto g payload" "length f' = length f"
    using hop_forwards [OF ok(1) r j g Suc.prems(2,3) f(3) ttl, of app sd] by blast
  have dr: "drop j ns = ns ! j # ns ! Suc j # drop (Suc (Suc j)) ns" "drop (Suc j) ns = ns ! Suc j # drop (Suc (Suc j)) ns"
    using ln j by (simp_all add: Cons_nth_drop_Suc)
  have t: "unat (ttl - 1) = unat ttl - 1" using ttl by (intro unat_minus_one) auto
  have c: "carry app (drop j ns) sd f = carry app (drop (Suc j) ns) (lladdr (nd (ns ! j))) f'"
    using s' by (simp add: dr)
  have "d = length hops - Suc (Suc j)" using Suc.hyps(2) by simp
  moreover have "length f' \<le> UIP_BUFSIZE" using s'(4) Suc.prems(3) by simp
  moreover have "length hops - Suc j < unat (ttl - 1)" using t Suc.prems(4) j by linarith
  moreover have "unat (ttl - 1) - (length hops - Suc j) = unat ttl - (length hops - j)" using t j by linarith
  ultimately show ?case using Suc.hyps(1) [of "Suc j", OF _ j s'(3)] unfolding c by simp
qed

section \<open>The origin\<close>

lemma src_route_lookup_cmp:
  assumes "uip_ds6_src_route_lookup dest n = Some r"
  shows "uip_ipaddr_cmp dest (s_ipaddr (src_routing_table n ! r))"
  using first_index_valid [OF assms [unfolded uip_ds6_src_route_lookup_def]] by blast

lemma rh_header_srh:
  assumes "hops_ok hops" "length g = 16"
  shows "rh_header proto hops g @ payload = srh proto (of_nat (length hops)) (vec_at hops 0) g payload"
proof -
  have ne: "hops \<noteq> []" using assms(1) by (simp add: hops_ok_def)
  have "map (drop UIP_RH4_CMPRI) (tl hops) = map (\<lambda>h. [h ! 15]) (tl hops)"
  proof (rule map_cong [OF refl])
    fix h
    assume "h \<in> set (tl hops)"
    then have "length h = 16" using assms(1) by (auto simp: hops_ok_def list_all_iff dest: list.set_sel(2) [OF ne])
    then show "drop UIP_RH4_CMPRI h = [h ! 15]" by (intro nth_equalityI) (simp_all add: UIP_RH4_CMPRI_def)
  qed
  moreover have "vec_at hops 0 = map (\<lambda>h. h ! 15) (tl hops)" by (cases hops) (simp_all add: vec_at_def Let_def)
  ultimately have c: "concat (map (drop UIP_RH4_CMPRI) (tl hops)) = vec_at hops 0"
    by (simp only: concat_map_singleton)
  have "length (vec_at hops 0) + 1 = length hops" using ne by (simp add: length_vec_at)
  with c show ?thesis using ne by (simp add: rh_header_def srh_def Let_def UIP_RH4_CMPRI_def UIP_RH4_CMPRE_def)
qed

lemma add_source_route_packet:
  assumes p: "ip_packet (ubuf s) src dst ttl proto payload" and s: "uext s = 0" "ulen s = of_nat (40 + length payload)"
    and small: "length payload \<le> 168"
    and r: "src_route_hops r (nd s) = hops" "s_ipaddr (src_routing_table (nd s) ! r) = g" "length g = 16"
    and ok: "hops_ok hops"
  shows "\<exists>m'. nd (add_source_route r s) = nd s \<and> frames (add_source_route r s) = frames s
    \<and> ubuf (add_source_route r s) = m'
    \<and> unat (ulen (add_source_route r s)) = 40 + length (srh proto (of_nat (length hops)) (vec_at hops 0) g payload)
    \<and> unat (ulen (add_source_route r s)) \<le> UIP_BUFSIZE
    \<and> ip_packet m' src (hops ! 0) ttl UIP_PROTO_ROUTING (srh proto (of_nat (length hops)) (vec_at hops 0) g payload)"
proof -
  let ?k = "of_nat (length hops) :: u8" and ?body = "srh proto (of_nat (length hops)) (vec_at hops 0) g payload"
  let ?m = "ubuf s"
  have ne: "hops \<noteq> []" and k8: "1 \<le> length hops" "length hops \<le> 8" using ok by (auto simp: hops_ok_def Suc_le_eq)
  define e where "e = unat (rh_ext_len ?k)"
  have e: "e \<le> 3" using srh_lens(2) [OF k8] k8 by (simp add: e_def)
  have rl: "unat (rh_ext_len ?k * 8 + 8) = e * 8 + 8"
  proof -
    have "e * 8 < 256" "e * 8 + 8 < 256" using e by linarith+
    then show ?thesis by (simp add: unat_word_ariths e_def)
  qed
  have lv: "length (vec_at hops 0) = length hops - 1" using ne by (simp add: length_vec_at)
  have lb: "length ?body = e * 8 + 8 + length payload"
    using length_srh [of "vec_at hops 0" g proto ?k payload] lv k8 r(3) ne by (simp add: e_def)
  have h0: "hd hops = hops ! 0" "length (hops ! 0) = 16" using ne hops_okD(1) [OF ok, of 0] by (simp_all add: hd_conv_nth)
  have n: "unat (ulen s - (UIP_IPH_LEN + ucast (uext s))) = length payload"
    using small by (simp add: s UIP_IPH_LEN_def u16_of_nat)
  define hd4 where "hd4 = rh_header (?m 6) hops g"
  define m1 where "m1 = (bset 24 (hops ! 0) (memmove (48 + e * 8) 40 (length payload) ?m))(6 := UIP_PROTO_ROUTING)"
  define len where "len = (of_nat (40 + length ?body) :: u16)"
  define m2 where "m2 = set_ip_len (len - UIP_IPH_LEN) (bset 40 hd4 m1)"
  have m6: "?m 6 = proto" using p by (simp add: ip_packet_def)
  have lh: "length hd4 = e * 8 + 8"
    using arg_cong [OF rh_header_srh [OF ok r(3), of proto payload], of length] lb by (simp add: hd4_def m6)
  have lenu: "40 + length ?body \<le> 240" "unat len = 40 + length ?body"
  proof -
    show *: "40 + length ?body \<le> 240" using lb e small by linarith
    show "unat len = 40 + length ?body" unfolding len_def by (rule u16_of_nat) (use * in linarith)
  qed
  have len: "ulen s + ucast (rh_ext_len ?k * 8 + 8 :: u8) = len"
  proof (rule word_unat_eq_iff [THEN iffD2])
    have "unat (ucast (rh_ext_len ?k * 8 + 8 :: u8) :: u16) = e * 8 + 8" using rl by (simp add: unat_ucast_u8)
    moreover have "unat (ulen s) = 40 + length payload" using small by (simp add: s u16_of_nat del: of_nat_add)
    ultimately show "unat (ulen s + ucast (rh_ext_len ?k * 8 + 8 :: u8)) = unat len"
      using lenu lb by (simp add: unat_word_ariths)
  qed
  have fits: "40 + unat (rh_ext_len ?k * 8 + 8) + length payload \<le> UIP_BUFSIZE"
    using rl e small by (simp add: UIP_BUFSIZE_def)
  have as: "add_source_route r s = (s\<lparr>ubuf := m2, ulen := len, uext := uext s + (rh_ext_len ?k * 8 + 8)\<rparr>)"
  proof -
    have pos: "unat (40 + uext s) = 40" and l3: "l3_hdr s = 40" by (simp_all add: s l3_hdr_def)
    have chk: "chk_buf (40 + unat (rh_ext_len ?k * 8 + 8) + length payload) s = s" using fits by simp
    have hd: "(case hops of [] \<Rightarrow> addr0 | a # _ \<Rightarrow> a) = hops ! 0" using ne by (cases hops) simp_all
    show ?thesis
      unfolding add_source_route_def Let_def r(1,2) pos l3 n chk if_not_P [OF ne] hd len
      unfolding rl by (simp add: upd_buf_def m2_def m1_def hd4_def add.commute)
  qed
  have m1: "m1 i = ?m i" if "i < 24" "i \<noteq> 6" for i
    using that h0(2) by (simp add: m1_def memmove_def)
  have hdr: "m2 i = m1 i" if "i < 40" "i \<noteq> 4" "i \<noteq> 5" for i
    using that by (simp add: m2_def set_ip_len_def)
  have "ip_packet m2 src (hops ! 0) ttl UIP_PROTO_ROUTING ?body"
    unfolding ip_packet_def
  proof (intro conjI)
    show "m2 0 AND 0xf0 = 0x60" "m2 7 = ttl" using p by (simp_all add: hdr m1 ip_packet_def)
    show "m2 6 = UIP_PROTO_ROUTING" by (simp add: hdr m1_def)
    show "ip_src m2 = src"
    proof -
      have "bget m2 8 16 = bget ?m 8 16" by (rule bget_eqI) (simp add: hdr m1)
      with p show ?thesis by (simp add: ip_packet_def ip_src_def)
    qed
    show "ip_dst m2 = hops ! 0"
    proof -
      have "bget m2 24 16 = bget (bset 24 (hops ! 0) (memmove (48 + e * 8) 40 (length payload) ?m)) 24 16"
        by (rule bget_eqI) (simp add: hdr m1_def)
      with h0(2) show ?thesis by (simp add: ip_dst_def bget_bset_same)
    qed
    show "ip_len m2 = of_nat (length ?body)" using len_def by (simp add: m2_def UIP_IPH_LEN_def)
    have "bytes_at m2 40 hd4" using lh by (simp add: m2_def bytes_at_iff bget_other bget_bset_same)
    moreover have "bytes_at m2 (48 + e * 8) payload"
    proof -
      have "bget m2 (48 + e * 8) (length payload) = bget (memmove (48 + e * 8) 40 (length payload) ?m) (48 + e * 8) (length payload)"
        using lh h0(2) by (simp add: m2_def m1_def bget_other)
      also have "\<dots> = bget ?m 40 (length payload)" by (rule bget_memmove_same)
      finally show ?thesis using p by (simp add: ip_packet_def bytes_at_iff)
    qed
    ultimately have "bytes_at m2 40 (hd4 @ payload)" using lh by (simp add: bytes_at_append)
    then show "bytes_at m2 40 ?body" using rh_header_srh [OF ok r(3), of proto payload] by (simp add: hd4_def m6)
  qed
  with lenu as show ?thesis by (simp add: UIP_BUFSIZE_def)
qed

section \<open>The whole path\<close>

text \<open>A packet for the target of a discovered source route travels from hop to hop as the
  route says. The origin sends it to the first hop, each node of the path sends it to the link
  address of the next, and the target hands it to the upper layer: with the source address of
  the origin, the target's own address as destination, the hop limit decremented once per hop
  and the payload unchanged.\<close>

lemma source_routed_delivery:
  assumes p: "ip_packet (ubuf s) src g ttl proto payload" "uext s = 0" "ulen s = of_nat (40 + length payload)"
      "length payload \<le> 168" "proto = UIP_PROTO_UDP \<or> proto = UIP_PROTO_ICMP6"
    and a: "\<not> uip_is_addr_mcast src" "\<not> uip_is_addr_mcast g" "\<not> uip_is_addr_unspecified g"
      "length (s_ipaddr (src_routing_table (nd s) ! r)) = 16"
    and r: "uip_ds6_src_route_lookup g (nd s) = Some r" "\<not> uip_ds6_is_addr_onlink g (nd s)"
      "hops = src_route_hops r (nd s)" "hops_ok hops" "length hops < unat ttl"
    and ns: "path_ok hops g ns" "knows (nd s) (hd hops) (lladdr (nd (hd ns)))"
  shows "\<exists>f s'. frames (tcpip_ipv6_output s) = frames s @ [(Some (lladdr (nd (hd ns))), f)]
    \<and> carry app ns (lladdr (nd s)) f = to_upper app proto s'
    \<and> nd s' = nd (last ns) \<and> udp_conns s' = udp_conns (last ns)
    \<and> ip_src (ubuf s') = src \<and> ip_dst (ubuf s') = g \<and> unat (ubuf s' 7) = unat ttl - length hops
    \<and> bytes_at (ubuf s') (l3_hdr s') payload \<and> unat (ulen s') = l3_hdr s' + length payload"
proof -
  have g: "ip_dst (ubuf s) = g" "length g = 16" using p(1) by (auto simp: ip_packet_def ip_dst_def)
  have "uip_ipaddr_cmp g (s_ipaddr (src_routing_table (nd s) ! r))"
    by (rule src_route_lookup_cmp [OF r(1)])
  with a(4) g(2) have sg: "s_ipaddr (src_routing_table (nd s) ! r) = g" by (simp add: uip_ipaddr_cmp_def)
  let ?s1 = "add_source_route r s" and ?body = "srh proto (of_nat (length hops)) (vec_at hops 0) g payload"
  obtain m' where s1: "nd ?s1 = nd s" "frames ?s1 = frames s" "ubuf ?s1 = m'" "unat (ulen ?s1) = 40 + length ?body"
    "unat (ulen ?s1) \<le> UIP_BUFSIZE" and p1: "ip_packet m' src (hops ! 0) ttl UIP_PROTO_ROUTING ?body"
    using add_source_route_packet [OF p(1-4) r(3) [symmetric] sg g(2) r(4)] by blast
  define f where "f = bget m' 0 (40 + length ?body)"
  have ne: "hops \<noteq> []" "hd hops = hops ! 0" using r(4) by (auto simp: hops_ok_def hd_conv_nth)
  have "next_hop s = (Some (hops ! 0), ?s1)"
    using r(1,2) p1 s1(3) by (simp add: next_hop_def Let_def g ip_packet_def)
  moreover have "ulen s \<noteq> 0" "\<not> UIP_LINK_MTU < ulen s"
    using p(3,4) u16_of_nat [of "40 + length payload"]
    by (auto simp: word_less_nat_alt word_unat_eq_iff UIP_LINK_MTU_def simp del: of_nat_add)
  ultimately have out: "frames (tcpip_ipv6_output s) = frames s @ [(Some (lladdr (nd (hd ns))), f)]"
    using output_onlink [of s "hops ! 0" ?s1 "lladdr (nd (hd ns))"] a g ns(2) s1 ne by (simp add: f_def)
  have "routed f src hops 0 ttl proto g payload" "length f \<le> UIP_BUFSIZE"
    using frame_holds_bget [OF p1] s1(4,5) by (simp_all add: f_def)
  from carry_along [OF r(4) ns(1) _ g(2) a(2) this a(1) _ p(5), of app "lladdr (nd s)"] r(5) ne(1) out
  show ?thesis by auto
qed

section \<open>Concrete nodes\<close>

definition LL :: "u8 \<Rightarrow> ipaddr" where "LL b = [0xFE, 0x80] @ replicate 13 0 @ [b]"
definition GL :: "u8 \<Rightarrow> ipaddr" where "GL b = [0xAA, 0xAA] @ replicate 13 0 @ [b]"

text \<open>A node with link-local and global address \<open>b\<close> that knows the neighbour \<open>c\<close>.\<close>

definition demo_stack :: "u8 \<Rightarrow> u8 \<Rightarrow> stack" where
  "demo_stack b c =
     \<lparr>nd = (node0 (replicate 7 0 @ [b]))
        \<lparr>addr_list := [addr_entry0\<lparr>a_isused := True, a_ipaddr := LL b, a_state := ADDR_PREFERRED\<rparr>,
            addr_entry0\<lparr>a_isused := True, a_ipaddr := GL b, a_state := ADDR_PREFERRED\<rparr>],
          prefix_list := [prefix0\<lparr>x_isused := True, x_ipaddr := LL 0, x_length := 64\<rparr>],
          nbr_cache := [nbr0\<lparr>n_isused := True, n_ipaddr := LL c, n_lladdr := replicate 7 0 @ [c], n_state := NBR_REACHABLE\<rparr>],
          src_addr_mem := [LL 2, LL 3],
          src_routing_table := [src_route0\<lparr>s_isused := True, s_ipaddr := GL 3, s_addr_list := [0, 1]\<rparr>]\<rparr>,
      ubuf = bset 0 ([0x60, 0, 0, 0, 0, 2, 17, 64] @ GL 1 @ GL 3 @ [7, 8]) (\<lambda>_. 0),
      ulen = 42, uext = 0, uslen = 0, usender = [], udp_conns = [], lastport = 0, frames = []\<rparr>"

end
