(* ===== verification/Uip_Udp_Laws.thy ===== *)
theory Uip_Udp_Laws
  imports Uip_Tcpip Uip_Source_Routing
begin

text \<open>
  Datagrams: what \<open>uip_udp_packet_sendto\<close> writes is what the process of the matching
  connection reads, at the end of a discovered source route.
\<close>

section \<open>The header\<close>

definition udp_header :: "u16 \<Rightarrow> u16 \<Rightarrow> u16 \<Rightarrow> bytes" where
  "udp_header sp dp n =
     [ucast sp, ucast (drop_bit 8 sp), ucast dp, ucast (drop_bit 8 dp),
      ucast (uip_htons (n + 8)), ucast (drop_bit 8 (uip_htons (n + 8))), 0, 0]"

lemma length_udp_header [simp]: "length (udp_header sp dp n) = 8"
  by (simp add: udp_header_def)

lemma load16_bytes: "m p = ucast v \<Longrightarrow> m (Suc p) = ucast (drop_bit 8 v) \<Longrightarrow> load16 p m = v"
  unfolding load16_def by (simp, rule bit_word_eqI) (auto simp: bit_simps)

lemma udp_header_ports:
  assumes "bytes_at m h (udp_header sp dp n @ payload)"
  shows "load16 h m = sp" "load16 (h + 2) m = dp" "bytes_at m (h + 8) payload"
  using assms
  by (auto intro!: load16_bytes simp: bytes_at_append) (simp_all add: udp_header_def)

section \<open>Sending\<close>

lemma udp_send_packet:
  assumes s: "uext s = 0" "uslen s = of_nat (length payload)" "bytes_at (ubuf s) 48 payload" "payload \<noteq> []" "length payload \<le> 192"
    and c: "c = udp_conns s ! i" "length (u_ripaddr c) = 16"
    and src: "src = uip_ds6_select_src (u_ripaddr c) (nd s)" "length src = 16"
  shows "\<exists>m'. udp_send i s = s\<lparr>ulen := of_nat (48 + length payload), ubuf := m'\<rparr>
    \<and> ip_packet m' src (u_ripaddr c) (u_ttl c) UIP_PROTO_UDP (udp_header (u_lport c) (u_rport c) (of_nat (length payload)) @ payload)"
proof -
  let ?n = "of_nat (length payload) :: u16"
  define m1 where "m1 = store16 42 (u_rport c) (store16 40 (u_lport c) (store16 46 0 (store16 44 (uip_htons (?n + 8))
     ((set_ip_len (?n + 48 - UIP_IPH_LEN) (ubuf s))(7 := u_ttl c, 6 := UIP_PROTO_UDP)))))"
  define m' where "m' = ip_version (bset 8 src (bset 24 (u_ripaddr c) m1))"
  have n0: "?n \<noteq> 0"
  proof -
    have "unat ?n = length payload" by (rule u16_of_nat) (use s(5) in simp)
    with s(4) show ?thesis by auto
  qed
  have out: "udp_send i s = s\<lparr>ulen := of_nat (48 + length payload), ubuf := m'\<rparr>"
    using s(1,2) n0 c(1) src(1) by (simp add: udp_send_def Let_def upd_buf_def m'_def m1_def l3_hdr_def add.commute)
  have lens: "length (u_ripaddr c) = 16" "length src = 16" using c src by simp_all
  have "ip_packet m' src (u_ripaddr c) (u_ttl c) UIP_PROTO_UDP (udp_header (u_lport c) (u_rport c) ?n @ payload)"
    unfolding ip_packet_def
  proof (intro conjI)
    show "m' 0 AND 0xf0 = 0x60" "m' 7 = u_ttl c" "m' 6 = UIP_PROTO_UDP"
      using lens by (simp_all add: m'_def m1_def ip_version_def store16_def)
    have b: "bget m' 8 16 = src" "bget m' 24 16 = u_ripaddr c" "bget m' 48 (length payload) = bget (ubuf s) 48 (length payload)"
      using lens by (simp_all add: m'_def m1_def bget_other bget_bset_same)
    then show "ip_src m' = src" "ip_dst m' = u_ripaddr c" by (simp_all add: ip_src_def ip_dst_def)
    have "ip_len m' = ?n + 8"
    proof -
      have "ip_len m' = ip_len (set_ip_len (?n + 48 - UIP_IPH_LEN) (ubuf s))"
        using lens by (simp add: ip_len_def m'_def m1_def ip_version_def store16_def)
      then show ?thesis by (simp add: UIP_IPH_LEN_def)
    qed
    then show "ip_len m' = of_nat (length (udp_header (u_lport c) (u_rport c) ?n @ payload))" by (simp add: add.commute)
    have "m' i = m1 i" if "40 \<le> i" for i using that lens by (simp add: m'_def ip_version_def)
    then have "bytes_at m' 40 (udp_header (u_lport c) (u_rport c) ?n)"
      by (simp add: udp_header_def) (simp add: m1_def store16_def)
    moreover have "bytes_at m' 48 payload" using b(3) s(3) by (simp add: bytes_at_iff)
    ultimately show "bytes_at m' 40 (udp_header (u_lport c) (u_rport c) ?n @ payload)" by (simp add: bytes_at_append)
  qed
  with out show ?thesis by blast
qed

section \<open>Receiving\<close>

lemma udp_input_delivers:
  assumes b: "bytes_at (ubuf s) (l3_hdr s) (udp_header sp dp n @ payload)" and len: "unat (ulen s) = l3_hdr s + 8 + length payload"
    and dp: "dp \<noteq> 0" and m: "first_index (udp_match sp dp (ip_src (ubuf s))) (udp_conns s) 0 = Some i"
  shows "udp_input app s = udp_send i (app i (s\<lparr>ulen := of_nat (length payload), uslen := 0\<rparr>))"
proof -
  have "unat (ulen s - 48) = unat (uext s) + length payload"
    using len by (simp add: unat_sub_if_size l3_hdr_def word_size)
  then have "unat (ulen s - 48 - ucast (uext s)) = length payload"
    by (simp add: unat_sub_if_size word_size unat_ucast_u8)
  then have u: "ulen s - 48 - ucast (uext s) = of_nat (length payload)"
    by (rule subst) simp
  show ?thesis
    using dp m udp_header_ports [OF b] u by (simp add: udp_input_def Let_def l3_hdr_def)
qed

section \<open>Connections survive output\<close>

lemma udp_conns_output [simp]: "udp_conns (tcpip_ipv6_output s) = udp_conns s"
proof -
  have ns: "udp_conns (uip_nd6_ns_output a b c t) = udp_conns t" for a b c t
    by (simp add: uip_nd6_ns_output_def Let_def write_icmp6chksum_def)
  have r: "udp_conns (add_source_route k t) = udp_conns t" for k t
    by (simp add: add_source_route_def Let_def)
  have h: "udp_conns (snd (next_hop s)) = udp_conns s"
    by (simp add: next_hop_def Let_def r split: option.split)
  have e: "udp_conns (output_end t) = udp_conns t" for t by (simp add: output_end_def tcpip_output_def)
  have u: "udp_conns (upd_nbr i f t) = udp_conns t" for i f t by (simp add: upd_nbr_def)
  have res: "udp_conns (nbr_resolve hop t) = udp_conns t" for hop t
    by (simp add: nbr_resolve_def Let_def e u ns split: option.split prod.split)
  have snt: "udp_conns (nbr_send i t) = udp_conns t" for i t by (simp add: nbr_send_def Let_def tcpip_output_def u)
  show ?thesis
    using h by (auto simp: tcpip_ipv6_output_def Let_def e res snt split: option.split prod.split)
qed

section \<open>Datagrams over a source route\<close>

lemma udp_packet_sendto_output:
  assumes k: "k < length (udp_conns s)" and d: "payload \<noteq> []" "length payload \<le> 160" "length g = 16"
    and src: "src = uip_ds6_select_src g (nd s)" "length src = 16"
    and c: "c = udp_conns s ! k"
  shows "\<exists>s1. frames (uip_udp_packet_sendto k payload (Some g) port s) = frames (tcpip_ipv6_output s1)
    \<and> udp_conns (uip_udp_packet_sendto k payload (Some g) port s) = udp_conns s
    \<and> nd s1 = nd s \<and> frames s1 = frames s \<and> uext s1 = 0 \<and> ulen s1 = of_nat (48 + length payload)
    \<and> ip_packet (ubuf s1) src g (u_ttl c) UIP_PROTO_UDP (udp_header (u_lport c) port (of_nat (length payload)) @ payload)"
proof -
  define cs where "cs = updf k (\<lambda>u. u\<lparr>u_ripaddr := g, u_rport := port\<rparr>) (udp_conns s)"
  define s0 where "s0 = s\<lparr>udp_conns := cs, uext := 0, uslen := of_nat (length payload), ubuf := bset 48 payload (ubuf s)\<rparr>"
  have ck: "cs ! k = c\<lparr>u_ripaddr := g, u_rport := port\<rparr>" using k c by (simp add: cs_def updf_def)
  have b: "bytes_at (ubuf s0) 48 payload" by (simp add: s0_def bytes_at_iff bget_bset_same)
  obtain m' where m': "udp_send k s0 = s0\<lparr>ulen := of_nat (48 + length payload), ubuf := m'\<rparr>"
    "ip_packet m' src g (u_ttl c) UIP_PROTO_UDP (udp_header (u_lport c) port (of_nat (length payload)) @ payload)"
    using udp_send_packet [of s0 payload "cs ! k" k src] d src b by (auto simp: s0_def ck)
  have n: "chk_buf (48 + length payload) t = t" "take (length payload) payload = payload" for t
    using d(2) by (simp_all add: UIP_BUFSIZE_def)
  have send: "uip_udp_packet_send k payload (s\<lparr>udp_conns := cs\<rparr>) = (tcpip_ipv6_output (udp_send k s0))\<lparr>uslen := 0\<rparr>"
    using d(2) by (simp add: uip_udp_packet_send_def Let_def n upd_buf_def s0_def UIP_BUFSIZE_def)
  have undo: "updf k (\<lambda>u. u\<lparr>u_ripaddr := u_ripaddr c, u_rport := u_rport c\<rparr>) cs = udp_conns s"
    using k c by (simp add: cs_def updf_def)
  have "uip_udp_packet_sendto k payload (Some g) port s =
      (tcpip_ipv6_output (udp_send k s0))\<lparr>uslen := 0, udp_conns := udp_conns s\<rparr>"
  proof -
    have "udp_conns (udp_send k s0) = cs" by (simp add: m'(1)) (simp add: s0_def)
    with undo show ?thesis by (simp add: uip_udp_packet_sendto_def Let_def cs_def [symmetric] send c [symmetric])
  qed
  with m' show ?thesis by (intro exI [of _ "udp_send k s0"]) (simp add: s0_def)
qed

text \<open>C5: Datagrams over a discovered route. What a process sends with
  \<open>uip_udp_packet_sendto\<close> to the target of a stored source route leaves the origin for the
  first hop, is passed on by every node of the path, and reaches the process of the matching
  connection of the target: the same bytes, from the address of the origin. The connection of
  the sender is as before.\<close>

theorem datagram_over_source_route:
  assumes k: "k < length (udp_conns s)" "c = udp_conns s ! k" and d: "payload \<noteq> []" "length payload \<le> 160" "length g = 16"
    and src: "src = uip_ds6_select_src g (nd s)" "length src = 16" "\<not> uip_is_addr_mcast src"
    and a: "\<not> uip_is_addr_mcast g" "\<not> uip_is_addr_unspecified g" "length (s_ipaddr (src_routing_table (nd s) ! r)) = 16"
    and r: "uip_ds6_src_route_lookup g (nd s) = Some r" "\<not> uip_ds6_is_addr_onlink g (nd s)"
      "hops = src_route_hops r (nd s)" "hops_ok hops" "length hops < unat (u_ttl c)"
    and ns: "path_ok hops g ns" "knows (nd s) (hd hops) (lladdr (nd (hd ns)))"
    and t: "port \<noteq> 0" "first_index (udp_match (u_lport c) port src) (udp_conns (last ns)) 0 = Some i"
      "u_proc (udp_conns (last ns) ! i) = Some p"
    and s2: "s2 = uip_udp_packet_sendto k payload (Some g) port s"
  shows "\<exists>f s'. frames s2 = frames s @ [(Some (lladdr (nd (hd ns))), f)] \<and> udp_conns s2 = udp_conns s
    \<and> carry (tcpip_uipcall th) ns (lladdr (nd s)) f = Some (udp_send i (th p (u_state (udp_conns (last ns) ! i)) s'))
    \<and> nd s' = nd (last ns) \<and> ip_src (ubuf s') = src \<and> ip_dst (ubuf s') = g
    \<and> ulen s' = of_nat (length payload) \<and> bytes_at (ubuf s') (l3_hdr s' + 8) payload"
proof -
  let ?body = "udp_header (u_lport c) port (of_nat (length payload)) @ payload"
  obtain s1 where s1: "frames s2 = frames (tcpip_ipv6_output s1)" "udp_conns s2 = udp_conns s"
    "nd s1 = nd s" "frames s1 = frames s" "uext s1 = 0" "ulen s1 = of_nat (48 + length payload)"
    and p: "ip_packet (ubuf s1) src g (u_ttl c) UIP_PROTO_UDP ?body"
    using udp_packet_sendto_output [OF k(1) d src(1,2) k(2), of port] s2 by blast
  have ul: "ulen s1 = of_nat (40 + length ?body)" and lb: "length ?body \<le> 168" using s1(6) d(2) by simp_all
  obtain f s' where f: "frames (tcpip_ipv6_output s1) = frames s @ [(Some (lladdr (nd (hd ns))), f)]"
    "carry (tcpip_uipcall th) ns (lladdr (nd s)) f = to_upper (tcpip_uipcall th) UIP_PROTO_UDP s'"
    and s': "nd s' = nd (last ns)" "udp_conns s' = udp_conns (last ns)" "ip_src (ubuf s') = src" "ip_dst (ubuf s') = g"
      "bytes_at (ubuf s') (l3_hdr s') ?body" "unat (ulen s') = l3_hdr s' + length ?body"
    using source_routed_delivery [OF p s1(5) ul lb disjI1 [OF refl] src(3) a(1,2), of r hops ns "tcpip_uipcall th"]
      a(3) r ns s1(3,4) by auto
  define s3 where "s3 = s'\<lparr>ulen := of_nat (length payload), uslen := 0\<rparr>"
  have "udp_input (tcpip_uipcall th) s' = udp_send i (tcpip_uipcall th i s3)"
    unfolding s3_def by (rule udp_input_delivers [OF s'(5) _ t(1)]) (use s'(2,3,6) t(2) in simp_all)
  also have "tcpip_uipcall th i s3 = th p (u_state (udp_conns (last ns) ! i)) s3"
    using t(3) s'(2) by (simp add: tcpip_uipcall_def s3_def)
  finally have "carry (tcpip_uipcall th) ns (lladdr (nd s)) f = Some (udp_send i (th p (u_state (udp_conns (last ns) ! i)) s3))"
    using f(2) by (simp add: to_upper_def)
  moreover have "bytes_at (ubuf s3) (l3_hdr s3 + 8) payload"
    using udp_header_ports(3) [OF s'(5)] by (simp add: s3_def l3_hdr_def)
  ultimately show ?thesis using f(1) s1(1,2) s'(1,3,4) by (intro exI [of _ f] exI [of _ s3]) (simp add: s3_def)
qed

text \<open>The concrete nodes with a connection of process 7 on port 10.\<close>

definition udp_demo :: "u8 \<Rightarrow> u8 \<Rightarrow> stack" where
  "udp_demo b c = (demo_stack b c)
     \<lparr>udp_conns := [\<lparr>u_ripaddr = addr0, u_lport = 10, u_rport = 0, u_ttl = 64, u_proc = Some 7, u_state = 1\<rparr>]\<rparr>"

lemma udp_demo_simps:
  "frames (udp_demo b c) = []" "lladdr (nd (udp_demo b c)) = replicate 7 0 @ [b]" "nd (udp_demo b c) = nd (demo_stack b c)"
  "udp_conns (udp_demo b c) = [\<lparr>u_ripaddr = addr0, u_lport = 10, u_rport = 0, u_ttl = 64, u_proc = Some 7, u_state = 1\<rparr>]"
  by (simp_all add: udp_demo_def demo_stack_def node0_def)

theorem datagram_over_source_route_witness:
  "\<exists>f s'. frames (uip_udp_packet_sendto 0 [7, 8, 9] (Some (GL 3)) 10 (udp_demo 1 2)) = [(Some (replicate 7 0 @ [2]), f)]
    \<and> carry (tcpip_uipcall (\<lambda>p st s. s)) [udp_demo 2 3, udp_demo 3 2] (replicate 7 0 @ [1]) f = Some (udp_send 0 s')
    \<and> ip_src (ubuf s') = GL 1 \<and> ulen s' = 3 \<and> bytes_at (ubuf s') (l3_hdr s' + 8) [7, 8, 9]"
proof -
  let ?s = "udp_demo 1 2" and ?ns = "[udp_demo 2 3, udp_demo 3 2]"
  have h: "src_route_hops 0 (nd ?s) = [LL 2, LL 3]" unfolding udp_demo_simps by code_simp
  have r: "uip_ds6_src_route_lookup (GL 3) (nd ?s) = Some 0" "\<not> uip_ds6_is_addr_onlink (GL 3) (nd ?s)" "hops_ok [LL 2, LL 3]"
    unfolding udp_demo_simps by code_simp+
  have n: "path_ok [LL 2, LL 3] (GL 3) ?ns" "knows (nd ?s) (LL 2) (lladdr (nd (udp_demo 2 3)))" by code_simp+
  have l: "length (s_ipaddr (src_routing_table (nd ?s) ! 0)) = 16" unfolding udp_demo_simps by code_simp
  have m: "\<not> uip_is_addr_mcast (GL 1)" "\<not> uip_is_addr_mcast (GL 3)" "\<not> uip_is_addr_unspecified (GL 3)" by code_simp+
  have src: "GL 1 = uip_ds6_select_src (GL 3) (nd ?s)" unfolding udp_demo_simps by code_simp
  have u: "length [7, 8, 9 :: u8] \<le> 160" "length (GL 3) = 16" "length (GL 1) = 16" by (simp_all add: GL_def)
  have c: "first_index (udp_match (u_lport (udp_conns ?s ! 0)) 10 (GL 1)) (udp_conns (last ?ns)) 0 = Some 0"
    "u_proc (udp_conns (last ?ns) ! 0) = Some 7" "length [LL 2, LL 3] < unat (u_ttl (udp_conns ?s ! 0))" "0 < length (udp_conns ?s)"
    by (simp_all add: udp_demo_simps udp_match_def uip_is_addr_unspecified_def addr0_def)
  have "\<exists>f s'. frames (uip_udp_packet_sendto 0 [7, 8, 9] (Some (GL 3)) 10 ?s) = frames ?s @ [(Some (lladdr (nd (hd ?ns))), f)]
    \<and> udp_conns (uip_udp_packet_sendto 0 [7, 8, 9] (Some (GL 3)) 10 ?s) = udp_conns ?s
    \<and> carry (tcpip_uipcall (\<lambda>p st s. s)) ?ns (lladdr (nd ?s)) f = Some (udp_send 0 s')
    \<and> nd s' = nd (last ?ns) \<and> ip_src (ubuf s') = GL 1 \<and> ip_dst (ubuf s') = GL 3
    \<and> ulen s' = of_nat (length [7, 8, 9 :: u8]) \<and> bytes_at (ubuf s') (l3_hdr s' + 8) [7, 8, 9]"
    by (rule datagram_over_source_route [OF c(4) refl _ u(1,2) src u(3) m l r(1,2) h [symmetric] r(3) c(3) n(1) _ _ c(1,2) refl])
      (use n(2) in simp_all)
  then show ?thesis by (simp add: udp_demo_simps(1,2) del: carry.simps bytes_at.simps) blast
qed

end
