(* ===== verification/Uip_Stack_Laws.thy ===== *)
theory Uip_Stack_Laws
  imports Uip_Source_Routing
begin

text \<open>
  Messages through the stack: an RPL message is sent, received and read back as the same
  packet with a valid checksum; an unknown neighbour is resolved by a solicitation and an
  advertisement; ICMPv6 errors answer no error and no multicast.
\<close>

section \<open>Writing the checksum\<close>

lemma write_chksum_simps [simp]:
  "nd (write_icmp6chksum s) = nd s" "ulen (write_icmp6chksum s) = ulen s" "uext (write_icmp6chksum s) = uext s"
  "frames (write_icmp6chksum s) = frames s" "usender (write_icmp6chksum s) = usender s"
  "l3_hdr (write_icmp6chksum s) = l3_hdr s" "udp_conns (write_icmp6chksum s) = udp_conns s"
  by (simp_all add: write_icmp6chksum_def Let_def l3_hdr_def)

lemma write_chksum_other:
  "i \<noteq> l3_hdr s + 2 \<Longrightarrow> i \<noteq> l3_hdr s + 3 \<Longrightarrow> ubuf (write_icmp6chksum s) i = ubuf s i"
  by (simp add: write_icmp6chksum_def Let_def store16_def l3_hdr_def)

lemma bget_write_chksum:
  "q + n \<le> l3_hdr s + 2 \<or> l3_hdr s + 4 \<le> q \<Longrightarrow> bget (ubuf (write_icmp6chksum s)) q n = bget (ubuf s) q n"
  by (rule bget_eqI) (auto intro!: write_chksum_other)

lemma ip_len_write_chksum [simp]: "ip_len (ubuf (write_icmp6chksum s)) = ip_len (ubuf s)"
  by (simp add: ip_len_def write_chksum_other l3_hdr_def)

text \<open>The checksum depends on the packet only.\<close>

lemma icmp6chksum_cong:
  assumes "ip_packet m src dst ttl proto body" "length body < 65536"
    "ubuf s = m" "ubuf t = m'" "uext s = 0" "uext t = 0" "\<And>i. i < 40 + length body \<Longrightarrow> m' i = m i"
  shows "uip_icmp6chksum t = uip_icmp6chksum s"
proof -
  have len: "ip_len m = of_nat (length body)" "ip_len m' = ip_len m" using assms(1,7) by (simp_all add: ip_packet_def ip_len_def)
  have "bget m' 8 32 = bget m 8 32" "bget m' 40 (length body) = bget m 40 (length body)"
    by (rule bget_eqI; simp add: assms(7))+
  with len assms(2-6) show ?thesis
    by (simp add: uip_icmp6chksum_def upper_layer_chksum_def l3_hdr_def u16_of_nat Let_def)
qed

section \<open>RPL messages\<close>

lemma receive_icmp6:
  assumes f: "frame_holds f src dst ttl UIP_PROTO_ICMP6 body" "length body \<le> 1240"
    and me: "uip_ds6_is_my_addr dst (nd t) \<or> uip_ds6_maddr_lookup dst (nd t) \<noteq> None" and src: "\<not> uip_is_addr_mcast src"
  shows "uip_process app (load_frame sd f t) = icmp6_input ((load_frame sd f t)\<lparr>uext := 0\<rparr>)"
proof -
  let ?s = "load_frame sd f t"
  have p: "ip_packet (ubuf ?s) src dst ttl UIP_PROTO_ICMP6 body" using frame_holds_load [OF f(1)] by simp
  have "ip_input ?s = ext_headers 6 (?s\<lparr>uext := 0\<rparr>)"
    by (rule ip_input_local [OF p]) (use f me src in \<open>simp_all add: frame_holds_def\<close>)
  also have "\<dots> = Some (To_icmp6, ?s\<lparr>uext := 0\<rparr>)"
    using p by (subst ext_headers.simps) (simp add: ip_packet_def uip_consts)
  finally show ?thesis by (subst uip_process.simps) simp
qed

lemma icmp6_send_packet:
  assumes s: "uext s = 0" and p: "bytes_at (ubuf s) 44 payload" "n = of_nat (length payload)" "length payload \<le> 196"
    and d: "length dest = 16" "length (uip_ds6_select_src dest (nd s)) = 16"
  shows "\<exists>c1 c2 s'. uip_icmp6_send dest type code n s = tcpip_ipv6_output s' \<and> nd s' = nd s \<and> frames s' = frames s \<and> uext s' = 0
    \<and> unat (ulen s') = 44 + length payload
    \<and> ip_packet (ubuf s') (uip_ds6_select_src dest (nd s)) dest (cur_hop_limit (nd s)) UIP_PROTO_ICMP6 ([type, code, c1, c2] @ payload)
    \<and> uip_icmp6chksum s' = 0xffff"
proof -
  let ?src = "uip_ds6_select_src dest (nd s)"
  define m1 where "m1 = (set_ip_len (n + 4) (ip_version (ubuf s)))(6 := UIP_PROTO_ICMP6, 7 := cur_hop_limit (nd s))"
  define m2 where "m2 = (bset 8 ?src (bset 24 dest m1))(40 := type, 41 := code)"
  define s2 where "s2 = s\<lparr>ubuf := m2\<rparr>"
  define s' where "s' = (write_icmp6chksum s2)\<lparr>ulen := UIP_IPH_LEN + 4 + n\<rparr>"
  have l3: "l3_hdr s2 = 40" "l3_hdr s' = 40" using s by (simp_all add: l3_hdr_def s2_def s'_def)
  have send: "uip_icmp6_send dest type code n s = tcpip_ipv6_output s'"
    using s by (simp add: uip_icmp6_send_def Let_def s'_def s2_def m2_def m1_def upd_buf_def l3_hdr_def)
  have m': "ubuf s' i = m2 i" if "i \<noteq> 42" "i \<noteq> 43" for i
    using that write_chksum_other [of i s2] l3 by (simp add: s'_def s2_def)
  have len2: "ip_len m2 = n + 4"
    using d by (simp add: m2_def m1_def ip_len_def [of "_(_ := _)"]) (simp add: ip_len_def [symmetric])
  have un: "unat (n + 4) = length payload + 4" using p by (simp add: unat_word_ariths u16_of_nat)
  have pay: "bget m2 44 (length payload) = payload"
    using p(1) d by (simp add: m2_def m1_def bget_other bytes_at_iff)
  have ip: "ip_packet (ubuf s') ?src dest (cur_hop_limit (nd s)) UIP_PROTO_ICMP6 ([type, code, ubuf s' 42, ubuf s' 43] @ payload)"
    unfolding ip_packet_def
  proof (intro conjI)
    show "ubuf s' 0 AND 0xf0 = 0x60" "ubuf s' 7 = cur_hop_limit (nd s)" "ubuf s' 6 = UIP_PROTO_ICMP6"
      using d by (simp_all add: m' m2_def m1_def set_ip_len_def ip_version_def)
    show "ip_src (ubuf s') = ?src" "ip_dst (ubuf s') = dest"
    proof -
      have "bget (ubuf s') 8 16 = bget m2 8 16" "bget (ubuf s') 24 16 = bget m2 24 16"
        by (rule bget_eqI; simp add: m')+
      then show "ip_src (ubuf s') = ?src" "ip_dst (ubuf s') = dest"
        using d by (simp_all add: ip_src_def ip_dst_def m2_def bget_other bget_bset_same)
    qed
    show "ip_len (ubuf s') = of_nat (length ([type, code, ubuf s' 42, ubuf s' 43] @ payload))"
      using len2 p(2) by (simp add: s'_def s2_def add.commute)
    have "bget (ubuf s') 44 (length payload) = bget m2 44 (length payload)" by (rule bget_eqI) (simp add: m')
    then show "bytes_at (ubuf s') 40 ([type, code, ubuf s' 42, ubuf s' 43] @ payload)"
      using pay by (simp add: bytes_at_iff [symmetric] m') (simp add: bytes_at_iff m2_def)
  qed
  have "uip_icmp6chksum (write_icmp6chksum s2) = 0xffff"
    by (rule write_chksum_verifies) (use s len2 un in \<open>simp add: s2_def\<close>)
  then have c: "uip_icmp6chksum s' = 0xffff"
    by (simp add: s'_def uip_icmp6chksum_def upper_layer_chksum_def l3_hdr_def)
  have "unat (ulen s') = 44 + length payload"
    using p by (simp add: s'_def UIP_IPH_LEN_def unat_word_ariths u16_of_nat)
  then show ?thesis using send ip c s by (intro exI [of _ "ubuf s' 42"] exI [of _ "ubuf s' 43"] exI [of _ s'])
    (simp add: s'_def s2_def)
qed

text \<open>Where the packet in the buffer goes on the link: to everybody if the destination is a
  multicast address, to the link address of the neighbour if it is on link.\<close>

definition link_dest :: "node \<Rightarrow> ipaddr \<Rightarrow> bytes option \<Rightarrow> bool" where
  "link_dest n dest ll \<longleftrightarrow> (case ll of
     None \<Rightarrow> uip_is_addr_mcast dest
   | Some l \<Rightarrow> \<not> uip_is_addr_mcast dest \<and> uip_ds6_is_addr_onlink dest n \<and> knows n dest l)
   \<and> \<not> uip_is_addr_unspecified dest"

lemma output_link_dest:
  assumes "link_dest (nd s) (ip_dst (ubuf s)) ll" "ulen s \<noteq> 0" "\<not> UIP_LINK_MTU < ulen s"
  shows "frames (tcpip_ipv6_output s) = frames s @ [(ll, bget (ubuf s) 0 (unat (ulen s)))]"
proof (cases ll)
  case None
  with assms show ?thesis by (simp add: link_dest_def tcpip_ipv6_output_def Let_def output_end_def tcpip_output_def)
next
  case (Some l)
  with assms(1) have d: "\<not> uip_is_addr_mcast (ip_dst (ubuf s))" "\<not> uip_is_addr_unspecified (ip_dst (ubuf s))"
    "knows (nd s) (ip_dst (ubuf s)) l" "next_hop s = (Some (ip_dst (ubuf s)), s)"
    by (simp_all add: link_dest_def next_hop_def Let_def)
  from output_onlink [OF assms(2,3) d(2,1,4,3)] Some show ?thesis by simp
qed



section \<open>Address resolution\<close>

definition ns_body :: "ipaddr \<Rightarrow> bytes \<Rightarrow> u8 \<Rightarrow> u8 \<Rightarrow> bytes" where
  "ns_body tgt ll c1 c2 = [ICMP6_NS, 0, c1, c2, 0, 0, 0, 0] @ tgt @ create_llao ll UIP_ND6_OPT_SLLAO"

definition na_body :: "u8 \<Rightarrow> ipaddr \<Rightarrow> bytes \<Rightarrow> bytes \<Rightarrow> bytes" where
  "na_body flags tgt ll c = [ICMP6_NA, 0, c ! 0, c ! 1, flags, c ! 2, c ! 3, c ! 4] @ tgt @ create_llao ll UIP_ND6_OPT_TLLAO"

lemma length_llao [simp]: "length ll = 8 \<Longrightarrow> length (create_llao ll ty) = 16"
  by (simp add: create_llao_def)

lemma ns_output_packet:
  assumes "length tgt = 16" "length (lladdr (nd s)) = 8" "length a = 16" "\<not> uip_ds6_is_my_addr tgt (nd s)"
  shows "\<exists>c1 c2 m'. uip_nd6_ns_output (Some a) None tgt s = s\<lparr>uext := 0, ulen := 80, ubuf := m'\<rparr>
    \<and> ip_packet m' a (uip_create_solicited_node tgt) 255 UIP_PROTO_ICMP6 (ns_body tgt (lladdr (nd s)) c1 c2)"
proof -
  define m2 where "m2 = bset 64 (create_llao (lladdr (nd s)) UIP_ND6_OPT_SLLAO) (bset 8 a ((bset 48 tgt (bset 44 [0, 0, 0, 0]
    ((bset 24 (uip_create_solicited_node tgt) ((ip_version (ubuf s))(6 := UIP_PROTO_ICMP6, 7 := 255)))
      (40 := ICMP6_NS, 41 := 0, 4 := 0))))(5 := 40)))"
  define s2 where "s2 = s\<lparr>uext := 0, ulen := 80, ubuf := m2\<rparr>"
  define m' where "m' = ubuf (write_icmp6chksum s2)"
  have out: "uip_nd6_ns_output (Some a) None tgt s = s\<lparr>uext := 0, ulen := 80, ubuf := m'\<rparr>"
  proof -
    have "uip_nd6_ns_output (Some a) None tgt s = write_icmp6chksum s2"
    proof -
      have "s\<lparr>uext := 0, ubuf := m2, ulen := 80\<rparr> = s2" by (simp add: s2_def)
      then show ?thesis using assms(4) by (simp add: uip_nd6_ns_output_def Let_def m2_def upd_buf_def)
    qed
    also have "\<dots> = s2\<lparr>ubuf := m'\<rparr>" by (simp add: m'_def write_icmp6chksum_def Let_def upd_buf_def)
    finally show ?thesis by (simp add: s2_def)
  qed
  have l3: "l3_hdr s2 = 40" by (simp add: s2_def l3_hdr_def)
  have m': "m' i = m2 i" if "i \<noteq> 42" "i \<noteq> 43" for i
    using that write_chksum_other [of i s2] l3 by (simp add: m'_def s2_def)
  have la: "length (create_llao (lladdr (nd s)) UIP_ND6_OPT_SLLAO) = 16" using assms(2) by simp
  have ls: "length (uip_create_solicited_node tgt) = 16" by (simp add: uip_create_solicited_node_def)
  have b: "bget m2 8 16 = a" "bget m2 24 16 = uip_create_solicited_node tgt" "bget m2 48 16 = tgt"
    "bget m2 44 4 = [0, 0, 0, 0]" "bget m2 64 16 = create_llao (lladdr (nd s)) UIP_ND6_OPT_SLLAO"
    using assms la ls by (simp_all add: m2_def bget_other bget_bset_same)
  have "ip_packet m' a (uip_create_solicited_node tgt) 255 UIP_PROTO_ICMP6 (ns_body tgt (lladdr (nd s)) (m' 42) (m' 43))"
    unfolding ip_packet_def
  proof (intro conjI)
    show "m' 0 AND 0xf0 = 0x60" "m' 7 = 255" "m' 6 = UIP_PROTO_ICMP6"
      using assms la ls by (simp_all add: m' m2_def ip_version_def)
    show "ip_src m' = a" "ip_dst m' = uip_create_solicited_node tgt"
    proof -
      have "bget m' 8 16 = bget m2 8 16" "bget m' 24 16 = bget m2 24 16" by (rule bget_eqI; simp add: m')+
      with b show "ip_src m' = a" "ip_dst m' = uip_create_solicited_node tgt" by (simp_all add: ip_src_def ip_dst_def)
    qed
    show "ip_len m' = of_nat (length (ns_body tgt (lladdr (nd s)) (m' 42) (m' 43)))"
      using assms la ls by (simp add: ip_len_def m' m2_def ns_body_def)
    have r: "bget m' 44 4 = bget m2 44 4" "bget m' 48 16 = bget m2 48 16" "bget m' 64 16 = bget m2 64 16"
      by (rule bget_eqI; simp add: m')+
    have "m' 40 = ICMP6_NS" "m' 41 = 0" using assms la ls by (simp_all add: m' m2_def)
    moreover have "bytes_at m' 44 ([0, 0, 0, 0] @ tgt @ create_llao (lladdr (nd s)) UIP_ND6_OPT_SLLAO)"
    proof -
      have z: "length [0, 0, 0, 0 :: u8] = 4" by simp
      have "bytes_at m' 44 [0, 0, 0, 0]" unfolding bytes_at_iff z using b(4) r(1) by simp
      moreover have "bytes_at m' 48 tgt" "bytes_at m' 64 (create_llao (lladdr (nd s)) UIP_ND6_OPT_SLLAO)"
        using b r assms(1) la by (simp_all add: bytes_at_iff)
      ultimately show ?thesis using assms(1) by (simp add: bytes_at_append)
    qed
    ultimately show "bytes_at m' 40 (ns_body tgt (lladdr (nd s)) (m' 42) (m' 43))" by (simp add: ns_body_def)
  qed
  with out show ?thesis by blast
qed

lemma create_na_packet:
  assumes "length (lladdr (nd s)) = 8" "a_ipaddr (addr_list (nd s) ! i) = tgt" "length tgt = 16"
  shows "\<exists>c m'. create_na flags i s = s\<lparr>uext := 0, ulen := 80, ubuf := m'\<rparr>
    \<and> ip_packet m' (ip_src (ubuf s)) (ip_dst (ubuf s)) 255 UIP_PROTO_ICMP6 (na_body flags tgt (lladdr (nd s)) c)"
proof -
  define m2 where "m2 = bset 64 (create_llao (lladdr (nd s)) UIP_ND6_OPT_TLLAO) (bset 48 tgt
    ((ip_version (ubuf s))(4 := 0, 5 := 40, 6 := UIP_PROTO_ICMP6, 7 := 255, 40 := ICMP6_NA, 41 := 0, 44 := flags)))"
  define s2 where "s2 = s\<lparr>uext := 0, ubuf := m2\<rparr>"
  define m' where "m' = ubuf (write_icmp6chksum s2)"
  have out: "create_na flags i s = s\<lparr>uext := 0, ulen := 80, ubuf := m'\<rparr>"
  proof -
    have "create_na flags i s = (write_icmp6chksum s2)\<lparr>ulen := 80\<rparr>"
      using assms(2) by (simp add: create_na_def Let_def s2_def m2_def upd_buf_def)
    also have "write_icmp6chksum s2 = s2\<lparr>ubuf := m'\<rparr>" by (simp add: m'_def write_icmp6chksum_def Let_def upd_buf_def)
    finally show ?thesis by (simp add: s2_def)
  qed
  have l3: "l3_hdr s2 = 40" by (simp add: s2_def l3_hdr_def)
  have m': "m' i = m2 i" if "i \<noteq> 42" "i \<noteq> 43" for i
    using that write_chksum_other [of i s2] l3 by (simp add: m'_def s2_def)
  have la: "length (create_llao (lladdr (nd s)) UIP_ND6_OPT_TLLAO) = 16" using assms(1) by simp
  have b: "bget m2 8 16 = bget (ubuf s) 8 16" "bget m2 24 16 = bget (ubuf s) 24 16" "bget m2 48 16 = tgt"
    "bget m2 64 16 = create_llao (lladdr (nd s)) UIP_ND6_OPT_TLLAO"
    using assms(3) la by (simp_all add: m2_def bget_other bget_bset_same)
  let ?c = "[m' 42, m' 43, m' 45, m' 46, m' 47]"
  have "ip_packet m' (ip_src (ubuf s)) (ip_dst (ubuf s)) 255 UIP_PROTO_ICMP6 (na_body flags tgt (lladdr (nd s)) ?c)"
    unfolding ip_packet_def
  proof (intro conjI)
    show "m' 0 AND 0xf0 = 0x60" "m' 7 = 255" "m' 6 = UIP_PROTO_ICMP6"
      using assms(3) la by (simp_all add: m' m2_def ip_version_def)
    show "ip_src m' = ip_src (ubuf s)" "ip_dst m' = ip_dst (ubuf s)"
    proof -
      have "bget m' 8 16 = bget m2 8 16" "bget m' 24 16 = bget m2 24 16" by (rule bget_eqI; simp add: m')+
      with b show "ip_src m' = ip_src (ubuf s)" "ip_dst m' = ip_dst (ubuf s)" by (simp_all add: ip_src_def ip_dst_def)
    qed
    show "ip_len m' = of_nat (length (na_body flags tgt (lladdr (nd s)) ?c))"
      using assms(3) la by (simp add: ip_len_def m' m2_def na_body_def)
    have r: "bget m' 48 16 = bget m2 48 16" "bget m' 64 16 = bget m2 64 16" by (rule bget_eqI; simp add: m')+
    have "bytes_at m' 48 tgt" "bytes_at m' 64 (create_llao (lladdr (nd s)) UIP_ND6_OPT_TLLAO)"
      using b r assms(3) la by (simp_all add: bytes_at_iff)
    moreover have "m' 40 = ICMP6_NA" "m' 41 = 0" "m' 44 = flags" using assms(3) la by (simp_all add: m' m2_def)
    ultimately show "bytes_at m' 40 (na_body flags tgt (lladdr (nd s)) ?c)"
      using assms(3) by (simp add: na_body_def bytes_at_append)
  qed
  with out show ?thesis by blast
qed

subsection \<open>The neighbour cache\<close>

lemma callback_frames [simp]:
  "nbr_cache (rpl_ipv6_neighbor_callback i n) = nbr_cache n" "addr_list (rpl_ipv6_neighbor_callback i n) = addr_list n"
  "maddr_list (rpl_ipv6_neighbor_callback i n) = maddr_list n" "prefix_list (rpl_ipv6_neighbor_callback i n) = prefix_list n"
  "lladdr (rpl_ipv6_neighbor_callback i n) = lladdr n"
  by (simp_all add: rpl_ipv6_neighbor_callback_def Let_def upd_dag_def upd_par_def split: option.split)

lemma nbr_lookup_entered:
  assumes "uip_ds6_list_loop n_isused n_ipaddr (nbr_cache n) ip 128 = (FREESPACE, Some i)"
    "uniq n_isused n_ipaddr (nbr_cache n)" "nbr_cache n' = (nbr_cache n)[i := e]" "n_isused e" "n_ipaddr e = ip"
  shows "uip_ds6_nbr_lookup ip n' = Some i" "i < length (nbr_cache n)"
proof -
  show i: "i < length (nbr_cache n)" using list_loop_FREESPACE [OF assms(1)] by auto
  have "e = e\<lparr>n_isused := True, n_ipaddr := ip\<rparr>" using assms(4,5) by (cases e) simp
  then have "(nbr_cache n)[i := e] = updf i (\<lambda>b. ((\<lambda>_. e) b)\<lparr>n_isused := True, n_ipaddr := ip\<rparr>) (nbr_cache n)"
    using i by (simp add: updf_def)
  with nbr_table.lookup_enter [OF assms(2,1), of "\<lambda>_. e"] assms(3) show "uip_ds6_nbr_lookup ip n' = Some i"
    by (simp add: uip_ds6_nbr_lookup_def)
qed

lemma nbr_add_entered:
  assumes "uip_ds6_list_loop n_isused n_ipaddr (nbr_cache n) ip 128 = (FREESPACE, Some i)"
  shows "\<exists>n' e. uip_ds6_nbr_add rpl_ipv6_neighbor_callback ip ll r st n = (Some i, n')
    \<and> nbr_cache n' = (nbr_cache n)[i := e] \<and> n_isused e \<and> n_ipaddr e = ip \<and> n_state e = st
    \<and> n_lladdr e = (case ll of Some l \<Rightarrow> take 8 l | None \<Rightarrow> replicate 8 0)
    \<and> addr_list n' = addr_list n \<and> maddr_list n' = maddr_list n \<and> prefix_list n' = prefix_list n \<and> lladdr n' = lladdr n"
proof -
  have i: "i < length (nbr_cache n)" using list_loop_FREESPACE [OF assms] by auto
  show ?thesis using assms i by (simp add: uip_ds6_nbr_add_def eval_nat_numeral Let_def updf_def)
      (rule exI, rule conjI, rule refl, simp)
qed

subsection \<open>The three steps\<close>

text \<open>The neighbour cache has a free place and no entry for the address.\<close>

definition nbr_room :: "node \<Rightarrow> ipaddr \<Rightarrow> bool" where
  "nbr_room n a \<longleftrightarrow> uniq n_isused n_ipaddr (nbr_cache n) \<and> length (lladdr n) = 8
     \<and> fst (uip_ds6_list_loop n_isused n_ipaddr (nbr_cache n) a 128) = FREESPACE"

lemma nbr_roomE:
  assumes "nbr_room n a"
  obtains i where "uip_ds6_list_loop n_isused n_ipaddr (nbr_cache n) a 128 = (FREESPACE, Some i)"
    "uip_ds6_nbr_lookup a n = None"
proof -
  obtain o' where l: "uip_ds6_list_loop n_isused n_ipaddr (nbr_cache n) a 128 = (FREESPACE, o')"
    using assms by (cases "uip_ds6_list_loop n_isused n_ipaddr (nbr_cache n) a 128") (simp add: nbr_room_def)
  with list_loop_FREESPACE [OF l] that show ?thesis by (auto simp: uip_ds6_nbr_lookup_def found_def)
qed

lemma resolve_solicits:
  assumes s: "ip_dst (ubuf s) = b" "ip_src (ubuf s) = a" "ulen s \<noteq> 0" "\<not> UIP_LINK_MTU < ulen s"
    and b: "uip_ds6_is_addr_onlink b (nd s)" "\<not> uip_is_addr_mcast b" "\<not> uip_is_addr_unspecified b"
      "\<not> uip_ds6_is_my_addr b (nd s)" and a: "uip_ds6_is_my_addr a (nd s)"
    and r: "nbr_room (nd s) b"
  shows "\<exists>c1 c2 f i e. frames (tcpip_ipv6_output s) = frames s @ [(None, f)]
    \<and> frame_holds f a (uip_create_solicited_node b) 255 UIP_PROTO_ICMP6 (ns_body b (lladdr (nd s)) c1 c2)
    \<and> uip_ds6_nbr_lookup b (nd (tcpip_ipv6_output s)) = Some i \<and> i < length (nbr_cache (nd (tcpip_ipv6_output s)))
    \<and> nbr_cache (nd (tcpip_ipv6_output s)) ! i = e \<and> n_isused e \<and> n_ipaddr e = b \<and> n_state e = NBR_INCOMPLETE
    \<and> addr_list (nd (tcpip_ipv6_output s)) = addr_list (nd s) \<and> uext (tcpip_ipv6_output s) = 0"
proof -
  obtain i where l: "uip_ds6_list_loop n_isused n_ipaddr (nbr_cache (nd s)) b 128 = (FREESPACE, Some i)"
    and n: "uip_ds6_nbr_lookup b (nd s) = None" by (rule nbr_roomE [OF r])
  have ll: "length (lladdr (nd s)) = 8" "uniq n_isused n_ipaddr (nbr_cache (nd s))" using r by (simp_all add: nbr_room_def)
  obtain n' e where n': "uip_ds6_nbr_add rpl_ipv6_neighbor_callback b None 0 NBR_INCOMPLETE (nd s) = (Some i, n')"
    "nbr_cache n' = (nbr_cache (nd s))[i := e]" "n_isused e" "n_ipaddr e = b" "n_state e = NBR_INCOMPLETE"
    "addr_list n' = addr_list (nd s)" "lladdr n' = lladdr (nd s)" using nbr_add_entered [OF l] by blast
  have i: "i < length (nbr_cache (nd s))" using nbr_lookup_entered(2) [OF l ll(2) n'(2-4)] .
  have lens: "length b = 16" "length a = 16" using s(1,2) by (auto simp: ip_dst_def ip_src_def)
  have my: "uip_ds6_is_my_addr x n' = uip_ds6_is_my_addr x (nd s)" for x
    by (simp add: uip_ds6_is_my_addr_def uip_ds6_addr_lookup_def n'(6))
  have nb: "nbr_cache n' ! i = e" using n'(2) i by simp
  obtain c1 c2 m' where ns: "uip_nd6_ns_output (Some a) None b (s\<lparr>nd := n'\<rparr>) = (s\<lparr>nd := n'\<rparr>)\<lparr>uext := 0, ulen := 80, ubuf := m'\<rparr>"
    and p: "ip_packet m' a (uip_create_solicited_node b) 255 UIP_PROTO_ICMP6 (ns_body b (lladdr (nd s)) c1 c2)"
    using ns_output_packet [of b "s\<lparr>nd := n'\<rparr>" a] lens ll(1) b(4) n'(7) my by auto
  define e' where "e' = e\<lparr>n_nscount := 1, n_sendns := stimer_set (secs n') (retrans_timer n' div 1000) (n_sendns e)\<rparr>"
  define n2 where "n2 = n'\<lparr>nbr_cache := (nbr_cache (nd s))[i := e']\<rparr>"
  have out: "tcpip_ipv6_output s = output_end (s\<lparr>nd := n2, uext := 0, ulen := 80, ubuf := m'\<rparr>)"
  proof -
    have "next_hop s = (Some b, s)" using b(1) by (simp add: next_hop_def Let_def s)
    moreover have "upd_nbr i (\<lambda>b. b\<lparr>n_nscount := 1, n_sendns := stimer_set (secs n') (retrans_timer n' div 1000) (n_sendns b)\<rparr>)
        (s\<lparr>nd := n', uext := 0, ulen := 80, ubuf := m'\<rparr>) = s\<lparr>nd := n2, uext := 0, ulen := 80, ubuf := m'\<rparr>"
      using i by (simp add: upd_nbr_def upd_nd_def updf_def n2_def n'(2) e'_def)
    ultimately show ?thesis
      using s b a n n'(1) nb n'(4) ns my by (simp add: tcpip_ipv6_output_def Let_def nbr_resolve_def)
  qed
  have lb: "length (ns_body b (lladdr (nd s)) c1 c2) = 40" using lens ll by (simp add: ns_body_def)
  have "uip_ds6_nbr_lookup b n2 = Some i"
    by (rule nbr_lookup_entered(1) [OF l ll(2), of _ e']) (simp_all add: n2_def e'_def n'(3,4))
  moreover have "frame_holds (bget m' 0 80) a (uip_create_solicited_node b) 255 UIP_PROTO_ICMP6 (ns_body b (lladdr (nd s)) c1 c2)"
    using frame_holds_bget [OF p] lb by simp
  ultimately show ?thesis
    using i n'(3-6) by (intro exI [of _ c1] exI [of _ c2] exI [of _ "bget m' 0 80"] exI [of _ i] exI [of _ e'])
      (simp add: out output_end_def tcpip_output_def n2_def e'_def)
qed

lemma frame_input_output:
  assumes "ulen (load_frame sd f t) \<noteq> 0" "uip_process app (load_frame sd f t) = Some s"
  shows "frame_input app sd f t =
    Some ((if ulen s = 0 then s else tcpip_ipv6_output s)\<lparr>ulen := 0, uext := 0\<rparr>)"
  using assms by (simp add: frame_input_def tcpip_input_def packet_input_def word_gt_0)

lemma ns_options_sllao:
  assumes "uext s = 0" "ulen s = 80" "ubuf s 64 = UIP_ND6_OPT_SLLAO" "ubuf s 65 = 2"
  shows "ns_options 20 s = Some (sllao_learn (bget (ubuf s) 66 8) s)"
proof -
  let ?s = "sllao_learn (bget (ubuf s) 66 8) s"
  have s': "ulen ?s = 80" "uext ?s = 0"
    using assms(1,2) by (simp_all add: sllao_learn_def upd_nbr_def split: option.split)
  have "ns_options 36 ?s = Some ?s" using s' by (subst ns_options.simps) (simp add: icmp_hdr_def)
  then show ?thesis using assms by (subst ns_options.simps) (simp add: icmp_hdr_def Let_def)
qed

lemma solicit_answered:
  assumes f: "frame_holds f a (uip_create_solicited_node b) 255 UIP_PROTO_ICMP6 (ns_body b lA c1 c2)"
    and len: "length a = 16" "length b = 16" "length lA = 8"
    and b: "uip_ds6_maddr_lookup (uip_create_solicited_node b) (nd t) \<noteq> None" "uip_ds6_addr_lookup b (nd t) = Some k"
      "a_ipaddr (addr_list (nd t) ! k) = b"
    and a: "uip_ds6_is_addr_onlink a (nd t)" "\<not> uip_is_addr_mcast a" "\<not> uip_is_addr_unspecified a"
    and r: "nbr_room (nd t) a"
  shows "\<exists>t' f2 c. frame_input app sd f t = Some t' \<and> frames t' = frames t @ [(Some lA, f2)]
    \<and> frame_holds f2 b a 255 UIP_PROTO_ICMP6 (na_body 0x60 b (lladdr (nd t)) c)"
proof -
  define s1 where "s1 = (load_frame sd f t)\<lparr>uext := 0\<rparr>"
  have s1: "nd s1 = nd t" "frames s1 = frames t" "uext s1 = 0" by (simp_all add: s1_def)
  have lb: "length (ns_body b lA c1 c2) = 40" using len by (simp add: ns_body_def)
  have lf: "length f = 80" using f lb by (simp add: frame_holds_def)
  then have ul: "ulen s1 = 80" "ulen (load_frame sd f t) = 80" by (simp_all add: s1_def)
  have p: "ip_packet (ubuf s1) a (uip_create_solicited_node b) 255 UIP_PROTO_ICMP6 (ns_body b lA c1 c2)"
    using frame_holds_load [OF f] by (simp add: s1_def)
  then have src: "ip_src (ubuf s1) = a" and dst: "ip_dst (ubuf s1) = uip_create_solicited_node b"
    and bt: "ubuf s1 40 = ICMP6_NS" "bytes_at (ubuf s1) 48 b" "bytes_at (ubuf s1) 64 (create_llao lA UIP_ND6_OPT_SLLAO)"
    using len by (simp_all add: ip_packet_def ns_body_def bytes_at_append)
  have opt: "ubuf s1 64 = UIP_ND6_OPT_SLLAO" "ubuf s1 65 = 2" "bget (ubuf s1) 66 8 = lA"
    using bt(3) len by (simp_all add: create_llao_def bytes_at_append) (simp add: bytes_at_iff)
  obtain j where l: "uip_ds6_list_loop n_isused n_ipaddr (nbr_cache (nd t)) a 128 = (FREESPACE, Some j)"
    and n: "uip_ds6_nbr_lookup a (nd t) = None" by (rule nbr_roomE [OF r])
  have un: "uniq n_isused n_ipaddr (nbr_cache (nd t))" "length (lladdr (nd t)) = 8" using r by (simp_all add: nbr_room_def)
  obtain n' e where n': "uip_ds6_nbr_add rpl_ipv6_neighbor_callback a (Some lA) 0 NBR_STALE (nd t) = (Some j, n')"
    "nbr_cache n' = (nbr_cache (nd t))[j := e]" "n_isused e" "n_ipaddr e = a" "n_state e = NBR_STALE" "n_lladdr e = lA"
    "addr_list n' = addr_list (nd t)" "prefix_list n' = prefix_list (nd t)" "lladdr n' = lladdr (nd t)"
    using nbr_add_entered [OF l, of "Some lA" 0 NBR_STALE] len(3) by auto
  have nl: "uip_ds6_nbr_lookup a n' = Some j" "j < length (nbr_cache (nd t))"
    using nbr_lookup_entered [OF l un(1) n'(2-4)] by blast+
  have kn: "knows n' a lA" using nl n'(2,5,6) by (simp add: knows_def ds6_consts)
  define s2 where "s2 = s1\<lparr>nd := n'\<rparr>"
  have opts: "ns_options 20 s1 = Some s2"
    using ns_options_sllao [OF s1(3) ul(1) opt(1,2)] n n'(1)
    by (simp add: opt(3) sllao_learn_def src s1(1) s2_def upd_nd_def)
  define s3 where "s3 = upd_buf (\<lambda>m. bset 8 b (bset 24 a m)) s2"
  have sol: "uip_is_addr_solicited_node (uip_create_solicited_node b)"
    by (simp add: uip_is_addr_solicited_node_def uip_create_solicited_node_def)
  have addr: "uip_ds6_addr_lookup b n' = Some k" using b(2) by (simp add: uip_ds6_addr_lookup_def n'(7))
  have tgt: "bget (ubuf s2) (icmp_hdr s2 + 4) 16 = b" using bt(2) len(2) s1(3) by (simp add: icmp_hdr_def bytes_at_iff s2_def)
  have ns: "uip_nd6_ns_input s1 = Some (create_na 0x60 k s3)"
    unfolding uip_nd6_ns_input_def opts Option.bind_lunit Let_def tgt
    using addr a(3) sol by (simp add: s2_def src dst s3_def nd6_consts)
  have s3: "ip_src (ubuf s3) = b" "ip_dst (ubuf s3) = a" "nd s3 = n'" "frames s3 = frames t"
    using len by (simp_all add: s3_def s2_def s1 ip_src_def ip_dst_def bget_other bget_bset_same)
  obtain c m' where na: "create_na 0x60 k s3 = s3\<lparr>uext := 0, ulen := 80, ubuf := m'\<rparr>"
    and p': "ip_packet m' b a 255 UIP_PROTO_ICMP6 (na_body 0x60 b (lladdr (nd t)) c)"
    using create_na_packet [of s3 k b "0x60"] un(2) b(3) len(2) s3 n'(7,9) by auto
  define s4 where "s4 = s3\<lparr>uext := 0, ulen := 80, ubuf := m'\<rparr>"
  have proc: "uip_process app (load_frame sd f t) = Some s4"
  proof -
    have "uip_process app (load_frame sd f t) = icmp6_input s1"
      unfolding s1_def by (rule receive_icmp6 [OF f]) (use lb b(1) a(2) in simp_all)
    also have "\<dots> = Some s4" using ns na s1(3) bt(1) by (simp add: icmp6_input_def Let_def l3_hdr_def s4_def)
    finally show ?thesis .
  qed
  have s4: "ip_dst (ubuf s4) = a" "nd s4 = n'" "frames s4 = frames t" "ulen s4 = 80" "ubuf s4 = m'"
    using p' s3 by (simp_all add: s4_def ip_packet_def)
  have on: "uip_ds6_is_addr_onlink a n'" using a(1) by (simp add: uip_ds6_is_addr_onlink_def n'(8))
  have out: "frames (tcpip_ipv6_output s4) = frames t @ [(Some lA, bget m' 0 80)]"
    using output_link_dest [of s4 "Some lA"] s4 a(2,3) on kn by (simp add: link_dest_def UIP_LINK_MTU_def)
  have "length (na_body 0x60 b (lladdr (nd t)) c) = 40" using len un(2) by (simp add: na_body_def)
  with frame_holds_bget [OF p'] have "frame_holds (bget m' 0 80) b a 255 UIP_PROTO_ICMP6 (na_body 0x60 b (lladdr (nd t)) c)"
    by simp
  then show ?thesis using frame_input_output [OF _ proc] ul(2) s4(4) out
    by (intro exI [of _ "(tcpip_ipv6_output s4)\<lparr>ulen := 0, uext := 0\<rparr>"] exI [of _ "bget m' 0 80"] exI [of _ c]) simp
qed

lemma list_loop_from_cong:
  "map used es' = map used es \<Longrightarrow> map adr es' = map adr es
   \<Longrightarrow> list_loop_from used adr es' ip k i out = list_loop_from used adr es ip k i out"
proof (induction es arbitrary: es' i out)
  case (Cons e es)
  then obtain d ds where d: "es' = d # ds" by (cases es') auto
  with Cons.prems have h: "used d = used e" "adr d = adr e" "map used ds = map used es" "map adr ds = map adr es" by simp_all
  show ?case unfolding d list_loop_from.simps h(1,2) Cons.IH [OF h(3,4)] by (rule refl)
qed simp

lemma nbr_lookup_cong:
  assumes "map n_isused (nbr_cache n') = map n_isused (nbr_cache n)" "map n_ipaddr (nbr_cache n') = map n_ipaddr (nbr_cache n)"
  shows "uip_ds6_nbr_lookup a n' = uip_ds6_nbr_lookup a n"
  unfolding uip_ds6_nbr_lookup_def uip_ds6_list_loop_def list_loop_from_cong [OF assms] by (rule refl)

lemma na_options_tllao:
  assumes "uext s = 0" "ulen s = 80" "ubuf s 64 = UIP_ND6_OPT_TLLAO" "ubuf s 65 = 2"
  shows "na_options 20 None s = Some (Some 64)"
proof -
  have "na_options 36 (Some 64) s = Some (Some 64)" using assms by (subst na_options.simps) (simp add: icmp_hdr_def)
  then show ?thesis using assms by (subst na_options.simps) (simp add: icmp_hdr_def Let_def)
qed

lemma advert_confirms:
  assumes f: "frame_holds f b a 255 UIP_PROTO_ICMP6 (na_body 0x60 b lB c)"
    and len: "length b = 16" "length lB = 8" and a: "uip_ds6_is_my_addr a (nd s)"
    and b: "\<not> uip_is_addr_mcast b" "uip_ds6_addr_lookup b (nd s) = None" "uip_ds6_nbr_lookup b (nd s) = Some i"
      "i < length (nbr_cache (nd s))" "n_state (nbr_cache (nd s) ! i) = NBR_INCOMPLETE"
  shows "\<exists>s'. frame_input app sd f s = Some s' \<and> frames s' = frames s
    \<and> uip_ds6_nbr_lookup b (nd s') = Some i \<and> n_state (nbr_cache (nd s') ! i) = NBR_REACHABLE
    \<and> n_lladdr (nbr_cache (nd s') ! i) = lB"
proof -
  define s1 where "s1 = (load_frame sd f s)\<lparr>uext := 0\<rparr>"
  have lb: "length (na_body 0x60 b lB c) = 40" using len by (simp add: na_body_def)
  have lf: "length f = 80" using f lb by (simp add: frame_holds_def)
  then have s1: "nd s1 = nd s" "frames s1 = frames s" "uext s1 = 0" "ulen s1 = 80" "ulen (load_frame sd f s) = 80"
    by (simp_all add: s1_def)
  have p: "ip_packet (ubuf s1) b a 255 UIP_PROTO_ICMP6 (na_body 0x60 b lB c)"
    using frame_holds_load [OF f] by (simp add: s1_def)
  then have bt: "ubuf s1 40 = ICMP6_NA" "ubuf s1 44 = 0x60" "bytes_at (ubuf s1) 48 b"
      "bytes_at (ubuf s1) 64 (create_llao lB UIP_ND6_OPT_TLLAO)"
    using len by (simp_all add: ip_packet_def na_body_def bytes_at_append)
  have opt: "ubuf s1 64 = UIP_ND6_OPT_TLLAO" "ubuf s1 65 = 2" "bget (ubuf s1) 66 8 = lB"
    using bt(4) len by (simp_all add: create_llao_def bytes_at_append) (simp add: bytes_at_iff)
  have tgt: "bget (ubuf s1) (icmp_hdr s1 + 4) 16 = b" "ubuf s1 (icmp_hdr s1) = 0x60"
    using bt(2,3) len(1) s1(3) by (simp_all add: icmp_hdr_def bytes_at_iff)
  define e where "e = fst (na_entry 0x60 (Some lB) (nd s) (nbr_cache (nd s) ! i))"
  have e: "n_state e = NBR_REACHABLE" "n_lladdr e = lB" "n_isused e = n_isused (nbr_cache (nd s) ! i)"
    "n_ipaddr e = n_ipaddr (nbr_cache (nd s) ! i)"
    using b(5) by (simp_all add: e_def na_entry_def Let_def nbr_confirm_def nd6_consts)
  define s2 where "s2 = (upd_nbr i (\<lambda>_. e) s1)\<lparr>ulen := 0\<rparr>"
  have na: "uip_nd6_na_input s1 = Some s2"
    unfolding uip_nd6_na_input_def na_options_tllao [OF s1(3,4) opt(1,2)] Option.bind_lunit Let_def tgt
    using b(2,3,5) by (simp add: s1(1) opt(3) e_def s2_def split_beta)
  have "uip_process app (load_frame sd f s) = icmp6_input s1"
    unfolding s1_def by (rule receive_icmp6 [OF f]) (use lb a b(1) in simp_all)
  also have "\<dots> = Some (uip_drop s2)" using na s1(3) bt(1) by (simp add: icmp6_input_def Let_def l3_hdr_def s2_def uip_consts)
  finally have proc: "uip_process app (load_frame sd f s) = Some (uip_drop s2)" .
  have nb: "nbr_cache (nd s2) = (nbr_cache (nd s))[i := e]"
    using b(4) by (simp add: s2_def upd_nbr_def upd_nd_def updf_def s1(1))
  have same: "map g ((nbr_cache (nd s))[i := e]) = map g (nbr_cache (nd s))" if "g e = g (nbr_cache (nd s) ! i)" for g :: "nbr \<Rightarrow> 'b"
    unfolding map_update that nth_map [OF b(4), symmetric] by (rule list_update_id)
  have "uip_ds6_nbr_lookup b (nd s2) = uip_ds6_nbr_lookup b (nd s)"
    by (rule nbr_lookup_cong) (simp_all only: nb same e(3,4))
  moreover have "frames s2 = frames s" by (simp add: s2_def s1)
  ultimately show ?thesis using frame_input_output [OF _ proc] s1(5) b(3,4) e nb by (simp add: uip_drop_def)
qed

text \<open>C13: Address resolution. A packet for an on-link neighbour that is not in the cache makes
  the node broadcast a solicitation; the owner of the address answers with an advertisement to
  the link address of the solicitor; and the advertisement makes the neighbour reachable at the
  link address of the owner.\<close>

theorem address_resolution:
  assumes s: "ip_dst (ubuf s) = b" "ip_src (ubuf s) = a" "ulen s \<noteq> 0" "\<not> UIP_LINK_MTU < ulen s"
    and A: "uip_ds6_is_my_addr a (nd s)" "\<not> uip_ds6_is_my_addr b (nd s)" "uip_ds6_is_addr_onlink b (nd s)" "nbr_room (nd s) b"
    and B: "uip_ds6_addr_lookup b (nd t) = Some k" "a_ipaddr (addr_list (nd t) ! k) = b"
      "uip_ds6_maddr_lookup (uip_create_solicited_node b) (nd t) \<noteq> None" "uip_ds6_is_addr_onlink a (nd t)" "nbr_room (nd t) a"
    and ab: "\<not> uip_is_addr_mcast a" "\<not> uip_is_addr_unspecified a" "\<not> uip_is_addr_mcast b" "\<not> uip_is_addr_unspecified b"
  shows "\<exists>f t' f2 s' i. frames (tcpip_ipv6_output s) = frames s @ [(None, f)]
    \<and> frame_input app (lladdr (nd s)) f t = Some t' \<and> frames t' = frames t @ [(Some (lladdr (nd s)), f2)]
    \<and> frame_input app (lladdr (nd t)) f2 (tcpip_ipv6_output s) = Some s'
    \<and> uip_ds6_nbr_lookup b (nd s') = Some i \<and> n_state (nbr_cache (nd s') ! i) = NBR_REACHABLE
    \<and> n_lladdr (nbr_cache (nd s') ! i) = lladdr (nd t)"
proof -
  let ?s = "tcpip_ipv6_output s"
  have len: "length b = 16" "length a = 16" using s(1,2) by (auto simp: ip_dst_def ip_src_def)
  have ll: "length (lladdr (nd s)) = 8" "length (lladdr (nd t)) = 8" using A(4) B(5) by (simp_all add: nbr_room_def)
  obtain c1 c2 f i where f: "frames ?s = frames s @ [(None, f)]"
    "frame_holds f a (uip_create_solicited_node b) 255 UIP_PROTO_ICMP6 (ns_body b (lladdr (nd s)) c1 c2)"
    and i: "uip_ds6_nbr_lookup b (nd ?s) = Some i" "i < length (nbr_cache (nd ?s))"
      "n_state (nbr_cache (nd ?s) ! i) = NBR_INCOMPLETE" "addr_list (nd ?s) = addr_list (nd s)"
    using resolve_solicits [OF s A(3) ab(3,4) A(2,1,4)] by metis
  obtain t' f2 c where t': "frame_input app (lladdr (nd s)) f t = Some t'" "frames t' = frames t @ [(Some (lladdr (nd s)), f2)]"
    "frame_holds f2 b a 255 UIP_PROTO_ICMP6 (na_body 0x60 b (lladdr (nd t)) c)"
    using solicit_answered [OF f(2) len(2,1) ll(1) B(3,1,2,4) ab(1,2) B(5)] by blast
  have "uip_ds6_is_my_addr a (nd ?s)" "uip_ds6_addr_lookup b (nd ?s) = None"
    using A(1,2) i(4) by (simp_all add: uip_ds6_is_my_addr_def uip_ds6_addr_lookup_def)
  with advert_confirms [OF t'(3) len(1) ll(2) _ ab(3) _ i(1-3)] f(1) t'(1,2) show ?thesis by blast
qed

lemma length_LL [simp]: "length (LL b) = 16" by (simp add: LL_def)

text \<open>A node \<open>b\<close> that knows no neighbour and has a packet for the link-local address \<open>c\<close>.\<close>

definition fresh_node :: "u8 \<Rightarrow> node" where
  "fresh_node b = (node0 (replicate 7 0 @ [b]))
     \<lparr>addr_list := [addr_entry0\<lparr>a_isused := True, a_ipaddr := LL b, a_state := ADDR_PREFERRED\<rparr>],
      prefix_list := [prefix0\<lparr>x_isused := True, x_ipaddr := LL 0, x_length := 64\<rparr>],
      nbr_cache := [nbr0],
      maddr_list := [maddr0\<lparr>m_isused := True, m_ipaddr := uip_create_solicited_node (LL b)\<rparr>]\<rparr>"

definition fresh_stack :: "u8 \<Rightarrow> u8 \<Rightarrow> stack" where
  "fresh_stack b c = (demo_stack b c)
     \<lparr>nd := fresh_node b, ubuf := bset 8 (LL b) (bset 24 (LL c) (ubuf (demo_stack b c)))\<rparr>"

lemma fresh_stack_simps:
  "nd (fresh_stack b c) = fresh_node b" "ulen (fresh_stack b c) = 42" "frames (fresh_stack b c) = []"
  "lladdr (fresh_node b) = replicate 7 0 @ [b]"
  "ip_src (ubuf (fresh_stack b c)) = LL b" "ip_dst (ubuf (fresh_stack b c)) = LL c"
  by (simp_all add: fresh_stack_def ip_dst_def ip_src_def bget_other bget_bset_same)
    (simp_all add: demo_stack_def fresh_node_def node0_def)

lemma nbr_room_fresh: "nbr_room (fresh_node b) a"
  by (simp add: nbr_room_def uniq_def fresh_node_def nbr0_def uip_ds6_list_loop_def node0_def)

theorem address_resolution_witness:
  "\<exists>f t' f2 s' i. frames (tcpip_ipv6_output (fresh_stack 1 2)) = [(None, f)]
    \<and> frame_input (\<lambda>_ s. s) (replicate 7 0 @ [1]) f (fresh_stack 2 1) = Some t'
    \<and> frames t' = [(Some (replicate 7 0 @ [1]), f2)]
    \<and> frame_input (\<lambda>_ s. s) (replicate 7 0 @ [2]) f2 (tcpip_ipv6_output (fresh_stack 1 2)) = Some s'
    \<and> uip_ds6_nbr_lookup (LL 2) (nd s') = Some i \<and> n_lladdr (nbr_cache (nd s') ! i) = replicate 7 0 @ [2]"
proof -
  let ?s = "fresh_node 1" and ?t = "fresh_node 2"
  have A: "uip_ds6_is_my_addr (LL 1) ?s" "\<not> uip_ds6_is_my_addr (LL 2) ?s" "uip_ds6_is_addr_onlink (LL 2) ?s"
    by code_simp+
  have B: "uip_ds6_addr_lookup (LL 2) ?t = Some 0" "a_ipaddr (addr_list ?t ! 0) = LL 2"
    "uip_ds6_maddr_lookup (uip_create_solicited_node (LL 2)) ?t \<noteq> None" "uip_ds6_is_addr_onlink (LL 1) ?t"
    by code_simp+
  have ab: "\<not> uip_is_addr_mcast (LL 1)" "\<not> uip_is_addr_unspecified (LL 1)" "\<not> uip_is_addr_mcast (LL 2)"
    "\<not> uip_is_addr_unspecified (LL 2)" by code_simp+
  have u: "(42 :: u16) \<noteq> 0" "\<not> UIP_LINK_MTU < (42 :: u16)" by (simp_all add: UIP_LINK_MTU_def)
  show ?thesis
    using address_resolution [of "fresh_stack 1 2" "LL 2" "LL 1" "fresh_stack 2 1" 0 "\<lambda>_ s. s",
      unfolded fresh_stack_simps, OF refl refl u A nbr_room_fresh B nbr_room_fresh ab] by (simp only: append_Nil) blast
qed

end
