(* ===== verification/Uip_Icmp_Laws.thy ===== *)
theory Uip_Icmp_Laws
  imports Uip_Stack_Laws
begin

text \<open>
  What the stack answers by itself, and what it does not survive: ICMPv6 errors quote the
  packet, and are suppressed as RFC 4443 asks where no extension header hides what it carries, an echo request comes back with its
  payload, and a routing header of 256 bytes stops the node.
\<close>

section \<open>Checksummed messages\<close>

lemma write_chksum_packet:
  assumes p: "ip_packet (ubuf s) src dst ttl UIP_PROTO_ICMP6 ([ty, code, x, y] @ rest)"
    and s: "uext s = 0" "length rest \<le> 1236"
  shows "ip_packet (ubuf (write_icmp6chksum s)) src dst ttl UIP_PROTO_ICMP6
      ([ty, code, ubuf (write_icmp6chksum s) 42, ubuf (write_icmp6chksum s) 43] @ rest)"
    "uip_icmp6chksum (write_icmp6chksum s) = 0xffff"
proof -
  let ?m = "ubuf (write_icmp6chksum s)"
  have m: "?m i = ubuf s i" if "i \<noteq> 42" "i \<noteq> 43" for i
    using that write_chksum_other [of i s] s(1) by (simp add: l3_hdr_def)
  have b: "bget ?m 8 16 = bget (ubuf s) 8 16" "bget ?m 24 16 = bget (ubuf s) 24 16"
    "bget ?m 44 (length rest) = bget (ubuf s) 44 (length rest)" by (rule bget_eqI; simp add: m)+
  from p have q: "ubuf s 40 = ty" "ubuf s 41 = code" "bytes_at (ubuf s) 44 rest" "ip_len (ubuf s) = of_nat (4 + length rest)"
    by (simp_all add: ip_packet_def)
  then show "ip_packet ?m src dst ttl UIP_PROTO_ICMP6 ([ty, code, ?m 42, ?m 43] @ rest)"
    using p b by (simp add: ip_packet_def ip_src_def ip_dst_def m bytes_at_iff [of _ 44])
  have "unat (ip_len (ubuf s)) = 4 + length rest" unfolding q(4) by (rule u16_of_nat) (use s(2) in simp)
  then show "uip_icmp6chksum (write_icmp6chksum s) = 0xffff"
    by (intro write_chksum_verifies) (simp add: s(1))
qed

section \<open>Errors\<close>

text \<open>RFC 4443, section 2.4 (e), as a specification over the bytes of a packet of length \<open>n\<close>:
  the upper-layer header is found behind the chain of hop-by-hop (0), routing (43), fragment
  (44) and destination (60) headers; no error is sent about an ICMPv6 error, about a packet
  without a sender, and, but for packet too big and for an unrecognised option, about a
  packet to a multicast address.\<close>

definition ext_header :: "u8 \<Rightarrow> bool" where
  "ext_header p \<longleftrightarrow> p \<in> {UIP_PROTO_HBHO, UIP_PROTO_ROUTING, UIP_PROTO_FRAG, UIP_PROTO_DESTO}"

function upper_layer :: "nat \<Rightarrow> (nat \<Rightarrow> u8) \<Rightarrow> u8 \<Rightarrow> nat \<Rightarrow> u8 \<times> nat" where
  "upper_layer n m p i =
     (if ext_header p \<and> i < n
      then upper_layer n m (m i) (i + 8 + (if p = UIP_PROTO_FRAG then 0 else 8 * unat (m (i + 1))))
      else (p, i))"
  by pat_completeness auto
termination by (relation "measure (\<lambda>(n, m, p, i). n - i)") auto

declare upper_layer.simps [simp del]

definition carries_icmp6_error :: "nat \<Rightarrow> (nat \<Rightarrow> u8) \<Rightarrow> bool" where
  "carries_icmp6_error n m \<longleftrightarrow> (case upper_layer n m (m 6) 40 of (p, i) \<Rightarrow> p = UIP_PROTO_ICMP6 \<and> m i < 128)"

definition must_not_answer :: "u8 \<Rightarrow> u8 \<Rightarrow> nat \<Rightarrow> (nat \<Rightarrow> u8) \<Rightarrow> bool" where
  "must_not_answer type code n m \<longleftrightarrow>
     carries_icmp6_error n m \<or> uip_is_addr_unspecified (ip_src m)
     \<or> uip_is_addr_mcast (ip_dst m) \<and> \<not> (type = ICMP6_PACKET_TOO_BIG \<or> type = ICMP6_PARAM_PROB \<and> code = 2)"

lemma carries_error_plain:
  "\<not> ext_header (m 6) \<Longrightarrow> carries_icmp6_error n m \<longleftrightarrow> m 6 = UIP_PROTO_ICMP6 \<and> m 40 < 128"
  by (simp add: carries_icmp6_error_def upper_layer.simps)

text \<open>The packets that the code does not answer: it looks for an ICMPv6 error directly behind
  the IPv6 header only.\<close>

definition unanswered :: "u8 \<Rightarrow> u8 \<Rightarrow> (nat \<Rightarrow> u8) \<Rightarrow> bool" where
  "unanswered type code m \<longleftrightarrow>
     m 6 = UIP_PROTO_ICMP6 \<and> m 40 < 128 \<or> uip_is_addr_unspecified (ip_src m)
     \<or> uip_is_addr_mcast (ip_dst m) \<and> \<not> (type = ICMP6_PARAM_PROB \<and> code = 2)"

lemma error_silent:
  "unanswered type code (ubuf s) \<Longrightarrow> ulen (uip_icmp6_error_output type code param s) = 0"
  by (auto simp: unanswered_def uip_icmp6_error_output_def Let_def)

lemma error_packet:
  assumes u: "\<not> unanswered type code (ubuf s)" and n: "unat (ulen s) \<le> 192"
    and ss: "length (uip_ds6_select_src (ip_dst (ubuf s)) (nd s)) = 16"
  shows "\<exists>c1 c2 m'. uip_icmp6_error_output type code param s = s\<lparr>uext := 0, ulen := ulen s + 48, ubuf := m'\<rparr>
    \<and> ip_packet m' (uip_ds6_select_src (ip_dst (ubuf s)) (nd s)) (ip_src (ubuf s)) (cur_hop_limit (nd s)) UIP_PROTO_ICMP6
        ([type, code, c1, c2] @ set32 param @ bget (ubuf s) 0 (unat (ulen s)))
    \<and> uip_icmp6chksum (uip_icmp6_error_output type code param s) = 0xffff"
proof -
  let ?r = "uip_icmp6_error_output type code param s" and ?src = "ip_src (ubuf s)"
  let ?ss = "uip_ds6_select_src (ip_dst (ubuf s)) (nd s)" and ?quote = "bget (ubuf s) 0 (unat (ulen s))"
  define mA where "mA = (ip_version (memmove 48 0 (unat (ulen s)) (ubuf s)))(6 := UIP_PROTO_ICMP6, 7 := cur_hop_limit (nd s))"
  define mD where "mD = set_ip_len (ulen s + 48 - UIP_IPH_LEN) (bset 44 (set32 param)
    ((bset 8 ?ss (bset 24 ?src mA))(40 := type, 41 := code)))"
  define s' where "s' = s\<lparr>uext := 0, ulen := ulen s + 48, ubuf := mD\<rparr>"
  have len: "unat (ulen s + 48) = unat (ulen s) + 48" using n by (simp add: unat_word_ariths)
  have lens: "length ?src = 16" "length (set32 param) = 4" by (simp_all add: ip_src_def set32_def)
  have r: "?r = write_icmp6chksum s'"
  proof -
    have "\<not> UIP_LINK_MTU < ulen s + 48" using n len by (simp add: word_less_nat_alt UIP_LINK_MTU_def)
    moreover have "chk_buf (unat (ulen s + 48)) t = t" for t using n len by (simp add: UIP_BUFSIZE_def)
    ultimately show ?thesis using u
      by (auto simp: uip_icmp6_error_output_def Let_def unanswered_def upd_buf_def mD_def mA_def s'_def)
  qed
  have b: "bget mD 8 16 = ?ss" "bget mD 24 16 = ?src" "bget mD 44 4 = set32 param" "bget mD 48 (unat (ulen s)) = ?quote"
    using lens ss by (simp_all add: mD_def mA_def bget_other bget_bset_same bget_memmove_same)
  have "ip_packet mD ?ss ?src (cur_hop_limit (nd s)) UIP_PROTO_ICMP6 ([type, code, mD 42, mD 43] @ set32 param @ ?quote)"
    unfolding ip_packet_def
  proof (intro conjI)
    show "mD 0 AND 0xf0 = 0x60" "mD 7 = cur_hop_limit (nd s)" "mD 6 = UIP_PROTO_ICMP6"
      using lens ss by (simp_all add: mD_def mA_def set_ip_len_def ip_version_def)
    show "ip_src mD = ?ss" "ip_dst mD = ?src" using b by (simp_all add: ip_src_def ip_dst_def)
    have "ulen s + 48 - UIP_IPH_LEN = of_nat (unat (ulen s) + 8)" by (simp add: UIP_IPH_LEN_def)
    then show "ip_len mD = of_nat (length ([type, code, mD 42, mD 43] @ set32 param @ ?quote))"
      using lens by (simp add: mD_def)
    have "bytes_at mD 44 (set32 param)" "bytes_at mD 48 ?quote" using b(3,4) lens by (simp_all add: bytes_at_iff)
    moreover have "mD 40 = type" "mD 41 = code" using lens ss by (simp_all add: mD_def set_ip_len_def)
    ultimately show "bytes_at mD 40 ([type, code, mD 42, mD 43] @ set32 param @ ?quote)"
      using lens by (simp add: bytes_at_append)
  qed
  then have p: "ip_packet (ubuf s') ?ss ?src (cur_hop_limit (nd s)) UIP_PROTO_ICMP6 ([type, code, mD 42, mD 43] @ (set32 param @ ?quote))"
    by (simp add: s'_def)
  have "write_icmp6chksum s' = s\<lparr>uext := 0, ulen := ulen s + 48, ubuf := ubuf (write_icmp6chksum s')\<rparr>"
    by (simp add: write_icmp6chksum_def Let_def upd_buf_def s'_def)
  with write_chksum_packet [OF p] r lens n show ?thesis
    by (intro exI [of _ "ubuf (write_icmp6chksum s') 42"] exI [of _ "ubuf (write_icmp6chksum s') 43"]
        exI [of _ "ubuf (write_icmp6chksum s')"]) (simp add: s'_def)
qed

lemma unanswered_plain:
  assumes "\<not> ext_header (m 6)" "type \<noteq> ICMP6_PACKET_TOO_BIG \<or> \<not> uip_is_addr_mcast (ip_dst m)"
  shows "unanswered type code m \<longleftrightarrow> must_not_answer type code n m"
  using assms by (auto simp: unanswered_def must_not_answer_def carries_error_plain)

lemma unanswered_ext:
  assumes "ext_header (m 6)"
  shows "unanswered type code m \<longleftrightarrow> uip_is_addr_unspecified (ip_src m)
    \<or> uip_is_addr_mcast (ip_dst m) \<and> \<not> (type = ICMP6_PARAM_PROB \<and> code = 2)"
proof -
  have "m 6 \<noteq> UIP_PROTO_ICMP6"
    using assms by (auto simp: ext_header_def UIP_PROTO_ICMP6_def UIP_PROTO_HBHO_def UIP_PROTO_ROUTING_def
        UIP_PROTO_FRAG_def UIP_PROTO_DESTO_def)
  then show ?thesis by (simp add: unanswered_def)
qed


text \<open>A plain packet from \<open>GL 1\<close>, and the same with an ICMPv6 error behind a hop-by-hop header,
  which must not be answered but is.\<close>

definition demo_error_behind :: stack where
  "demo_error_behind = (demo_stack 1 2)\<lparr>ulen := 56,
     ubuf := (ubuf (demo_stack 1 2))(6 := UIP_PROTO_HBHO, 40 := UIP_PROTO_ICMP6, 41 := 0, 48 := ICMP6_DST_UNREACH)\<rparr>"


section \<open>Echo\<close>

text \<open>C15: Ping. An echo request to a unicast address of the node is answered with a reply that
  has the payload of the request, swapped addresses and a checksum that verifies, sent to the
  link address of the neighbour it came from.\<close>

theorem echo_request_answered:
  assumes f: "frame_holds f src dst ttl UIP_PROTO_ICMP6 ([ICMP6_ECHO_REQUEST, code, c1, c2] @ payload)"
    and len: "length payload \<le> 196"
    and me: "uip_ds6_is_my_addr dst (nd t)" "\<not> uip_is_addr_mcast dst"
    and src: "\<not> uip_is_addr_mcast src" "link_dest (nd t) src (Some l)"
  shows "\<exists>t' f2 d1 d2. frame_input app sd f t = Some t' \<and> frames t' = frames t @ [(Some l, f2)]
    \<and> frame_holds f2 dst src (cur_hop_limit (nd t)) UIP_PROTO_ICMP6 ([ICMP6_ECHO_REPLY, 0, d1, d2] @ payload)"
proof -
  define s1 where "s1 = (load_frame sd f t)\<lparr>uext := 0\<rparr>"
  let ?body = "[ICMP6_ECHO_REQUEST, code, c1, c2] @ payload"
  have lf: "length f = 44 + length payload" using f by (simp add: frame_holds_def)
  have s1: "nd s1 = nd t" "frames s1 = frames t" "uext s1 = 0" "ulen s1 = of_nat (44 + length payload)"
    by (simp_all add: s1_def lf)
  have ul: "unat (ulen s1) = 44 + length payload" unfolding s1(4) by (rule u16_of_nat) (use len in simp)
  have p: "ip_packet (ubuf s1) src dst ttl UIP_PROTO_ICMP6 ?body" using frame_holds_load [OF f] by (simp add: s1_def)
  then have h: "ip_src (ubuf s1) = src" "ip_dst (ubuf s1) = dst" "ubuf s1 40 = ICMP6_ECHO_REQUEST" "ubuf s1 6 = UIP_PROTO_ICMP6"
    "ubuf s1 0 AND 0xf0 = 0x60" "ip_len (ubuf s1) = of_nat (4 + length payload)" "bytes_at (ubuf s1) 44 payload"
    by (simp_all add: ip_packet_def)
  have lens: "length src = 16" "length dst = 16" using h(1,2) by (auto simp: ip_src_def ip_dst_def)
  define m' where "m' = (bset 24 src (bset 8 dst ((ubuf s1)(7 := cur_hop_limit (nd t)))))(40 := ICMP6_ECHO_REPLY, 41 := 0)"
  define s2 where "s2 = s1\<lparr>ubuf := m'\<rparr>"
  have out: "uip_icmp6_echo_request_input s1 = write_icmp6chksum s2"
  proof -
    have "s1\<lparr>uext := 0, ubuf := m'\<rparr> = s2" using s1(3) by (simp add: s2_def)
    then show ?thesis using s1(1,3) h(1,2) me(2) by (simp add: uip_icmp6_echo_request_input_def Let_def upd_buf_def m'_def)
  qed
  have p2: "ip_packet (ubuf s2) dst src (cur_hop_limit (nd t)) UIP_PROTO_ICMP6 ([ICMP6_ECHO_REPLY, 0, m' 42, m' 43] @ payload)"
  proof -
    have "ip_src m' = dst" "ip_dst m' = src" "bget m' 44 (length payload) = bget (ubuf s1) 44 (length payload)"
      using lens by (simp_all add: m'_def ip_src_def ip_dst_def bget_other bget_bset_same)
    moreover have "ip_len m' = ip_len (ubuf s1)" "m' 0 = ubuf s1 0" "m' 6 = ubuf s1 6" "m' 7 = cur_hop_limit (nd t)"
      "m' 40 = ICMP6_ECHO_REPLY" "m' 41 = 0" using lens by (simp_all add: m'_def ip_len_def)
    ultimately show ?thesis using h by (simp add: s2_def ip_packet_def bytes_at_iff [of _ 44])
  qed
  define s3 where "s3 = write_icmp6chksum s2"
  note p3 = write_chksum_packet(1) [OF p2, folded s3_def]
  have s3: "nd s3 = nd t" "frames s3 = frames t" "ulen s3 = ulen s1" "uext s3 = 0" by (simp_all add: s3_def s2_def s1)
  have dst3: "ip_dst (ubuf s3) = src" using p3 s1(3) len by (simp add: s2_def ip_packet_def)
  have nz: "ulen s1 \<noteq> 0" using ul by auto
  have proc: "uip_process app (load_frame sd f t) = Some s3"
  proof -
    have "uip_process app (load_frame sd f t) = icmp6_input s1"
      unfolding s1_def by (rule receive_icmp6 [OF f]) (use me src len in simp_all)
    also have "\<dots> = Some s3" using out h(3) s1(3) nz s3(3)
      by (simp add: icmp6_input_def Let_def l3_hdr_def s3_def uip_consts word_gt_0)
    finally show ?thesis .
  qed
  have "frames (tcpip_ipv6_output s3) = frames t @ [(Some l, bget (ubuf s3) 0 (44 + length payload))]"
    using output_link_dest [of s3 "Some l"] src(2) s3 dst3 nz ul len by (simp add: word_less_nat_alt UIP_LINK_MTU_def)
  moreover have "frame_holds (bget (ubuf s3) 0 (44 + length payload)) dst src (cur_hop_limit (nd t)) UIP_PROTO_ICMP6
      ([ICMP6_ECHO_REPLY, 0, ubuf s3 42, ubuf s3 43] @ payload)"
    using frame_holds_bget [OF p3] s1(3) len by (simp add: s2_def)
  moreover have "frame_input app sd f t = Some ((tcpip_ipv6_output s3)\<lparr>ulen := 0, uext := 0\<rparr>)"
    using frame_input_output [OF _ proc] nz s3(3) s1_def by simp
  ultimately show ?thesis by (intro exI [of _ "(tcpip_ipv6_output s3)\<lparr>ulen := 0, uext := 0\<rparr>"]
    exI [of _ "bget (ubuf s3) 0 (44 + length payload)"] exI [of _ "ubuf s3 42"] exI [of _ "ubuf s3 43"]) simp
qed

theorem echo_request_answered_witness:
  "\<exists>t' f2 d1 d2. frame_input (\<lambda>_ s. s) (replicate 7 0 @ [1])
      ([0x60, 0, 0, 0, 0, 6, UIP_PROTO_ICMP6, 64] @ LL 1 @ LL 2 @ [ICMP6_ECHO_REQUEST, 0, 0, 0, 7, 8]) (demo_stack 2 1) = Some t'
    \<and> frames t' = [(Some (replicate 7 0 @ [1]), f2)]
    \<and> frame_holds f2 (LL 2) (LL 1) (cur_hop_limit (nd (demo_stack 2 1))) UIP_PROTO_ICMP6 [ICMP6_ECHO_REPLY, 0, d1, d2, 7, 8]"
proof -
  let ?f = "[0x60, 0, 0, 0, 0, 6, UIP_PROTO_ICMP6, 64] @ LL 1 @ LL 2 @ [ICMP6_ECHO_REQUEST, 0, 0, 0, 7, 8]"
  have f: "frame_holds ?f (LL 1) (LL 2) 64 UIP_PROTO_ICMP6 ([ICMP6_ECHO_REQUEST, 0, 0, 0] @ [7, 8])" by code_simp
  have a: "uip_ds6_is_my_addr (LL 2) (nd (demo_stack 2 1))" "\<not> uip_is_addr_mcast (LL 2)" "\<not> uip_is_addr_mcast (LL 1)"
    "link_dest (nd (demo_stack 2 1)) (LL 1) (Some (replicate 7 0 @ [1]))" by code_simp+
  have b: "length [7, 8 :: u8] \<le> 196" "frames (demo_stack 2 1) = []" by (simp_all add: demo_stack_def)
  show ?thesis using echo_request_answered [OF f b(1) a, of "\<lambda>_ s. s" "replicate 7 0 @ [1]"] unfolding b(2) append_Nil append_Cons .
qed

section \<open>A header that never ends\<close>

text \<open>\<open>uip_ext_len\<close> has eight bits: a routing header of 256 bytes adds 0 to it, and the code
  looks at the same header again.\<close>

lemma ext_headers_stuck:
  assumes "uext s = 0" "ubuf s 40 = UIP_PROTO_ROUTING" "ubuf s 41 = 31" "ubuf s 43 = 0"
  shows "ext_headers 40 s = None"
proof -
  have skip: "ext_skip s = s" using assms(1,3) by (simp add: ext_skip_def l3_hdr_def)
  have "\<not> (p = 40 \<and> t = s)" if "ext_headers p t = Some r" for p t r
    using that
  proof (induction p t r rule: ext_headers.raw_induct [rotated, consumes 1, case_names step])
    case (step f p t r)
    then show ?case using assms skip by (cases r) (auto simp: Let_def l3_hdr_def uip_consts, blast)
  qed
  then show ?thesis by (cases "ext_headers 40 s") auto
qed

text \<open>C16: The code hangs on any packet for the node whose first bytes behind the IPv6 header
  are a routing header of length 31 that names another routing header as its successor and
  has no segments left; 44 bytes are enough.\<close>

theorem routing_header_hangs:
  assumes f: "frame_holds f src dst ttl UIP_PROTO_ROUTING ([UIP_PROTO_ROUTING, 31, ty, 0] @ rest)"
    and len: "length rest \<le> 1236"
    and me: "uip_ds6_is_my_addr dst (nd t) \<or> uip_ds6_maddr_lookup dst (nd t) \<noteq> None" "\<not> uip_is_addr_mcast src"
  shows "frame_input app sd f t = None"
proof -
  let ?s = "load_frame sd f t" and ?body = "[UIP_PROTO_ROUTING, 31, ty, 0] @ rest"
  have p: "ip_packet (ubuf ?s) src dst ttl UIP_PROTO_ROUTING ?body" using frame_holds_load [OF f] by simp
  have lf: "length f = 44 + length rest" using f by (simp add: frame_holds_def)
  define s1 where "s1 = ?s\<lparr>uext := 0\<rparr>"
  have b: "ubuf s1 6 = UIP_PROTO_ROUTING" "ubuf s1 40 = UIP_PROTO_ROUTING" "ubuf s1 41 = 31" "ubuf s1 43 = 0" "uext s1 = 0"
    using p by (simp_all add: s1_def ip_packet_def)
  have "ip_input ?s = ext_headers 6 s1"
    unfolding s1_def by (rule ip_input_local [OF p]) (use me len lf in simp_all)
  also have "\<dots> = ext_headers 40 (ext_skip s1)"
    using b by (subst ext_headers.simps) (simp add: l3_hdr_def uip_consts)
  also have "ext_skip s1 = s1" using b by (simp add: ext_skip_def l3_hdr_def)
  also have "ext_headers 40 s1 = None" by (rule ext_headers_stuck [OF b(5,2-4)])
  finally have "uip_process app ?s = None" by (simp add: uip_process.simps)
  moreover have "ulen ?s \<noteq> 0"
  proof -
    have "unat (ulen ?s) = 44 + length rest" unfolding load_frame_simps lf by (rule u16_of_nat) (use len in simp)
    then show ?thesis by auto
  qed
  ultimately show ?thesis by (simp add: frame_input_def tcpip_input_def packet_input_def)
qed

theorem routing_header_hangs_witness:
  "frame_input (\<lambda>_ s. s) (replicate 7 0 @ [1])
     ([0x60, 0, 0, 0, 0, 4, UIP_PROTO_ROUTING, 64] @ LL 1 @ LL 2 @ [UIP_PROTO_ROUTING, 31, 4, 0]) (demo_stack 2 1) = None"
proof -
  let ?f = "[0x60, 0, 0, 0, 0, 4, UIP_PROTO_ROUTING, 64] @ LL 1 @ LL 2 @ [UIP_PROTO_ROUTING, 31, 4, 0]"
  have f: "frame_holds ?f (LL 1) (LL 2) 64 UIP_PROTO_ROUTING ([UIP_PROTO_ROUTING, 31, 4, 0] @ [])" by code_simp
  have a: "uip_ds6_is_my_addr (LL 2) (nd (demo_stack 2 1))" "\<not> uip_is_addr_mcast (LL 1)" by code_simp+
  show ?thesis by (rule routing_header_hangs [OF f _ disjI1 [OF a(1)] a(2)]) simp
qed

end
