(* ===== verification/Net_Neighbor.thy ===== *)
theory Net_Neighbor
  imports Contiki_Memb Contiki_List
begin

text \<open>
  The neighbour table and its attributes, \<open>core/net/neighbor-attr.c\<close>, and the link metric that
  \<open>core/net/neighbor-info.c\<close> keeps in it. Blocks of \<open>neighbor_addr_mem\<close> are named by their
  index; the list of neighbours is a list of indices and the attributes are numbered. The
  callback timer \<open>ct\<close> is the interval it was set to. The subscriber of the link metric is a
  parameter that works on a state of its own.
\<close>

section \<open>Neighbours\<close>

type_synonym rimeaddr = "8 word list"

definition NEIGHBOR_ATTR_MAX_NEIGHBORS :: nat where "NEIGHBOR_ATTR_MAX_NEIGHBORS = 12"

record neighbor_addr =
  l_addr :: rimeaddr
  l_time :: "16 word"
  l_index :: "16 word"

text \<open>The data of an attribute is an array with one element of \<open>at_size\<close> bytes for each block.\<close>

record neighbor_attr =
  at_size :: nat
  at_default :: "8 word list option"
  at_data :: "8 word list list"

record ntable =
  na_cnt :: "8 word list"
  na_mem :: "neighbor_addr list"
  neighbor_addrs :: "nat list"
  attrs :: "neighbor_attr list"
  neighbor_attrs :: "nat list"
  na_timeout :: "16 word"
  na_ct :: "32 word option"

text \<open>An address argument points somewhere else, or into a block of the table.\<close>

datatype addr_ref = Outside rimeaddr | Entry nat

definition addr_of :: "addr_ref \<Rightarrow> ntable \<Rightarrow> rimeaddr" where
  "addr_of r t = (case r of Outside a \<Rightarrow> a | Entry i \<Rightarrow> l_addr (na_mem t ! i))"

definition neighbor_addr_get :: "addr_ref \<Rightarrow> ntable \<Rightarrow> nat option" where
  "neighbor_addr_get r t =
     (case r of
        Entry i \<Rightarrow> Some i
      | Outside a \<Rightarrow> find (\<lambda>i. l_addr (na_mem t ! i) = a) (neighbor_addrs t))"

definition neighbor_attr_has_neighbor :: "addr_ref \<Rightarrow> ntable \<Rightarrow> bool" where
  "neighbor_attr_has_neighbor r t \<longleftrightarrow> neighbor_addr_get r t \<noteq> None"

text \<open>Writing the element \<open>i\<close> of attribute \<open>d\<close>.\<close>

definition put_attr :: "nat \<Rightarrow> nat \<Rightarrow> 8 word list \<Rightarrow> ntable \<Rightarrow> ntable" where
  "put_attr d i v t = t\<lparr>attrs := (attrs t)[d := (attrs t ! d)\<lparr>at_data := (at_data (attrs t ! d))[i := v]\<rparr>]\<rparr>"

definition set_attr :: "nat \<Rightarrow> 16 word \<Rightarrow> ntable \<Rightarrow> ntable" where
  "set_attr d i t =
     put_attr d (unat i) (case at_default (attrs t ! d) of Some v \<Rightarrow> v | None \<Rightarrow> replicate (at_size (attrs t ! d)) 0) t"

definition neighbor_attr_register :: "nat \<Rightarrow> ntable \<Rightarrow> int \<times> ntable" where
  "neighbor_attr_register d t =
     (1, fold (\<lambda>i. set_attr d (l_index (na_mem t ! i))) (neighbor_addrs t)
           (t\<lparr>neighbor_attrs := lst_push (neighbor_attrs t) d\<rparr>))"

definition upd_entry :: "nat \<Rightarrow> (neighbor_addr \<Rightarrow> neighbor_addr) \<Rightarrow> ntable \<Rightarrow> ntable" where
  "upd_entry i f t = t\<lparr>na_mem := (na_mem t)[i := f (na_mem t ! i)]\<rparr>"

definition neighbor_attr_add_neighbor :: "addr_ref \<Rightarrow> ntable \<Rightarrow> int \<times> ntable" where
  "neighbor_attr_add_neighbor r t =
     (if neighbor_attr_has_neighbor r t then (0, t)
      else (case pool_alloc (na_cnt t) of
          (None, cnt) \<Rightarrow> (- 1, t\<lparr>na_cnt := cnt\<rparr>)
        | (Some i, cnt) \<Rightarrow>
            (let t1 = t\<lparr>na_cnt := cnt, neighbor_addrs := lst_push (neighbor_addrs t) i\<rparr>;
                 t2 = upd_entry i (\<lambda>e. e\<lparr>l_time := 0, l_addr := addr_of r t, l_index := of_nat i\<rparr>) t1
             in (1, fold (\<lambda>d. set_attr d (of_nat i)) (neighbor_attrs t) t2))))"

definition remove_entry :: "nat \<Rightarrow> ntable \<Rightarrow> ntable" where
  "remove_entry i t = t\<lparr>neighbor_addrs := remove1 i (neighbor_addrs t), na_cnt := pool_free (na_cnt t) i\<rparr>"

definition neighbor_attr_remove_neighbor :: "addr_ref \<Rightarrow> ntable \<Rightarrow> int \<times> ntable" where
  "neighbor_attr_remove_neighbor r t =
     (case neighbor_addr_get r t of None \<Rightarrow> (- 1, t) | Some i \<Rightarrow> (0, remove_entry i t))"

text \<open>The pointer into the data of an attribute is the index of the element.\<close>

definition neighbor_attr_get_data :: "nat \<Rightarrow> addr_ref \<Rightarrow> ntable \<Rightarrow> nat option" where
  "neighbor_attr_get_data d r t = map_option (\<lambda>i. unat (l_index (na_mem t ! i))) (neighbor_addr_get r t)"

definition neighbor_attr_set_data :: "nat \<Rightarrow> addr_ref \<Rightarrow> 8 word list \<Rightarrow> ntable \<Rightarrow> bool \<times> ntable" where
  "neighbor_attr_set_data d r v t =
     (let t = (if neighbor_addr_get r t = None then snd (neighbor_attr_add_neighbor r t) else t)
      in case neighbor_addr_get r t of
           None \<Rightarrow> (False, t)
         | Some i \<Rightarrow> (True, put_attr d (unat (l_index (na_mem t ! i))) v (upd_entry i (\<lambda>e. e\<lparr>l_time := 0\<rparr>) t)))"

definition neighbor_attr_tick :: "addr_ref \<Rightarrow> ntable \<Rightarrow> ntable" where
  "neighbor_attr_tick r t =
     (case neighbor_addr_get r t of None \<Rightarrow> t | Some i \<Rightarrow> upd_entry i (\<lambda>e. e\<lparr>l_time := 0\<rparr>) t)"

section \<open>Time-outs\<close>

text \<open>\<open>TIMEOUT_SECONDS * CLOCK_SECOND\<close>\<close>

definition CHECK_TICKS :: "32 word" where "CHECK_TICKS = 5 * 128"

definition check_entry :: "nat \<Rightarrow> ntable \<Rightarrow> ntable" where
  "check_entry i t =
     (let t = upd_entry i (\<lambda>e. e\<lparr>l_time := l_time e + 5\<rparr>) t
      in if na_timeout t \<le> l_time (na_mem t ! i) then remove_entry i t else t)"

definition timeout_check :: "ntable \<Rightarrow> ntable" where
  "timeout_check t0 =
     (let t = t0\<lparr>na_ct := None\<rparr>
      in if 0 < na_timeout t then (fold check_entry (neighbor_addrs t) t)\<lparr>na_ct := Some CHECK_TICKS\<rparr> else t)"

definition neighbor_attr_set_timeout :: "16 word \<Rightarrow> ntable \<Rightarrow> ntable" where
  "neighbor_attr_set_timeout time t =
     (let t = (if na_timeout t = 0 \<and> 0 < time then t\<lparr>na_ct := Some CHECK_TICKS\<rparr>
               else if 0 < na_timeout t \<and> time = 0 then t\<lparr>na_ct := None\<rparr> else t)
      in t\<lparr>na_timeout := time\<rparr>)"

section \<open>Link metric\<close>

text \<open>The table and the state of the subscriber.\<close>

record 'n linkinfo =
  li_table :: ntable
  li_subscribed :: bool
  li_upper :: 'n

text \<open>\<open>etx\<close> is attribute 0, of one byte per neighbour.\<close>

definition ETX_LIMIT :: nat where "ETX_LIMIT = 15"
definition NEIGHBOR_INFO_ETX_DIVISOR :: nat where "NEIGHBOR_INFO_ETX_DIVISOR = 16"

definition read_etx :: "nat \<Rightarrow> ntable \<Rightarrow> 8 word" where
  "read_etx i t = at_data (attrs t ! 0) ! i ! 0"

definition neighbor_info_get_metric :: "addr_ref \<Rightarrow> ntable \<Rightarrow> 8 word" where
  "neighbor_info_get_metric r t =
     (case neighbor_attr_get_data 0 r t of
        None \<Rightarrow> of_nat (ETX_LIMIT * NEIGHBOR_INFO_ETX_DIVISOR)
      | Some i \<Rightarrow> read_etx i t)"

text \<open>The moving average. The products are of 16 bits, the result is cut to 8.\<close>

definition ewma :: "8 word \<Rightarrow> 16 word \<Rightarrow> 8 word" where
  "ewma rec pkt = ucast ((ucast rec * 90 + pkt * (100 - 90)) div 100)"

definition update_metric ::
  "(ntable \<Rightarrow> rimeaddr \<Rightarrow> 8 word \<Rightarrow> 'n \<Rightarrow> 'n) \<Rightarrow> addr_ref \<Rightarrow> 8 word \<Rightarrow> 'n linkinfo \<Rightarrow> 'n linkinfo" where
  "update_metric cb dest pkt s =
     (let t = li_table s;
          pkt = ucast pkt * of_nat NEIGHBOR_INFO_ETX_DIVISOR;
          (rec, new) =
            (case neighbor_attr_get_data 0 dest t of
               None \<Rightarrow> (of_nat (ETX_LIMIT * NEIGHBOR_INFO_ETX_DIVISOR), ucast pkt)
             | Some i \<Rightarrow>
                 if read_etx i t = 0 then (of_nat (ETX_LIMIT * NEIGHBOR_INFO_ETX_DIVISOR), ucast pkt)
                 else (read_etx i t, ewma (read_etx i t) pkt))
      in if neighbor_attr_has_neighbor dest t then
           (let t = snd (neighbor_attr_set_data 0 dest [new] t); s = s\<lparr>li_table := t\<rparr>
            in if new \<noteq> rec \<and> li_subscribed s
               then s\<lparr>li_upper := cb t (addr_of dest t) new (li_upper s)\<rparr> else s)
         else s)"

definition add_neighbor :: "addr_ref \<Rightarrow> 'n linkinfo \<Rightarrow> 'n linkinfo" where
  "add_neighbor r s = s\<lparr>li_table := snd (neighbor_attr_add_neighbor r (li_table s))\<rparr>"

datatype mac_status =
  MAC_TX_OK | MAC_TX_COLLISION | MAC_TX_NOACK | MAC_TX_DEFERRED | MAC_TX_ERR | MAC_TX_ERR_FATAL

text \<open>\<open>dest\<close> is the receiver address of the packet buffer; \<open>rimeaddr_null\<close> is all zeroes.\<close>

definition rimeaddr_null :: rimeaddr where "rimeaddr_null = replicate 8 0"

definition neighbor_info_packet_sent ::
  "(ntable \<Rightarrow> rimeaddr \<Rightarrow> 8 word \<Rightarrow> 'n \<Rightarrow> 'n) \<Rightarrow> rimeaddr \<Rightarrow> mac_status \<Rightarrow> 16 word \<Rightarrow> 'n linkinfo \<Rightarrow> 'n linkinfo" where
  "neighbor_info_packet_sent cb dest status numtx s =
     (if dest = rimeaddr_null then s
      else case status of
          MAC_TX_OK \<Rightarrow> update_metric cb (Outside dest) (ucast numtx) (add_neighbor (Outside dest) s)
        | MAC_TX_COLLISION \<Rightarrow> update_metric cb (Outside dest) (ucast numtx) s
        | MAC_TX_NOACK \<Rightarrow> update_metric cb (Outside dest) (of_nat ETX_LIMIT) s
        | _ \<Rightarrow> s)"

definition lqi_to_etx :: "8 word \<Rightarrow> 8 word" where
  "lqi_to_etx lqi =
     (if lqi = 37 then 1
      else if 85 \<le> lqi then 1
      else if 70 \<le> lqi then of_nat (1024 div (48 * unat lqi - 3140))
      else 10)"

definition neighbor_info_packet_received ::
  "(ntable \<Rightarrow> rimeaddr \<Rightarrow> 8 word \<Rightarrow> 'n \<Rightarrow> 'n) \<Rightarrow> rimeaddr \<Rightarrow> 8 word \<Rightarrow> 'n linkinfo \<Rightarrow> 'n linkinfo" where
  "neighbor_info_packet_received cb src lqi s =
     (if src = rimeaddr_null then s
      else update_metric cb (Outside src) (lqi_to_etx lqi) (add_neighbor (Outside src) s))"

definition neighbor_info_subscribe :: "'n linkinfo \<Rightarrow> bool \<times> 'n linkinfo" where
  "neighbor_info_subscribe s =
     (if \<not> li_subscribed s
      then (True, s\<lparr>li_table := snd (neighbor_attr_register 0 (li_table s)), li_subscribed := True\<rparr>)
      else (False, s))"

text \<open>The state after start-up: the static variables are zero.\<close>

definition ntable0 :: ntable where
  "ntable0 =
     \<lparr>na_cnt = replicate NEIGHBOR_ATTR_MAX_NEIGHBORS 0,
      na_mem = replicate NEIGHBOR_ATTR_MAX_NEIGHBORS \<lparr>l_addr = rimeaddr_null, l_time = 0, l_index = 0\<rparr>,
      neighbor_addrs = [],
      attrs = [\<lparr>at_size = 1, at_default = None, at_data = replicate NEIGHBOR_ATTR_MAX_NEIGHBORS [0]\<rparr>],
      neighbor_attrs = [], na_timeout = 0, na_ct = None\<rparr>"

end
