(* ===== verification/Net_Neighbor_Laws.thy ===== *)
theory Net_Neighbor_Laws
  imports Net_Neighbor
begin

text \<open>
  Laws of the neighbour table: every neighbour is on the list once and owns its block; an
  element that was set is read back; a silent neighbour is dropped on time; and the link
  metric is an average that stays in its range and lags behind from below.
\<close>

section \<open>Invariant\<close>

definition neighbors_ok :: "ntable \<Rightarrow> bool" where
  "neighbors_ok t \<longleftrightarrow>
     length (na_cnt t) = NEIGHBOR_ATTR_MAX_NEIGHBORS \<and> length (na_mem t) = NEIGHBOR_ATTR_MAX_NEIGHBORS
     \<and> pool_wf (na_cnt t) \<and> distinct (neighbor_addrs t) \<and> set (neighbor_addrs t) = pool_used (na_cnt t)
     \<and> (\<forall>i \<in> set (neighbor_addrs t). l_index (na_mem t ! i) = of_nat i)
     \<and> distinct (map (\<lambda>i. l_addr (na_mem t ! i)) (neighbor_addrs t))"

definition attrs_ok :: "ntable \<Rightarrow> bool" where
  "attrs_ok t \<longleftrightarrow> (\<forall>a \<in> set (attrs t). length (at_data a) = NEIGHBOR_ATTR_MAX_NEIGHBORS)
     \<and> set (neighbor_attrs t) \<subseteq> {..<length (attrs t)}"

definition metric_range :: "8 word \<Rightarrow> bool" where
  "metric_range v \<longleftrightarrow> v = 0 \<or> 16 \<le> v \<and> v \<le> 240"

definition metrics_ok :: "ntable \<Rightarrow> bool" where
  "metrics_ok t \<longleftrightarrow> attrs t \<noteq> [] \<and> at_size (attrs t ! 0) = 1 \<and> at_default (attrs t ! 0) = None
     \<and> list_all (\<lambda>e. \<exists>v. e = [v] \<and> metric_range v) (at_data (attrs t ! 0))"

definition table_ok :: "ntable \<Rightarrow> bool" where
  "table_ok t \<longleftrightarrow> neighbors_ok t \<and> attrs_ok t \<and> metrics_ok t"

lemma put_attr_simps [simp]:
  "na_cnt (put_attr d i v t) = na_cnt t" "na_mem (put_attr d i v t) = na_mem t"
  "neighbor_addrs (put_attr d i v t) = neighbor_addrs t" "neighbor_attrs (put_attr d i v t) = neighbor_attrs t"
  "na_timeout (put_attr d i v t) = na_timeout t" "length (attrs (put_attr d i v t)) = length (attrs t)"
  by (simp_all add: put_attr_def)

lemma set_attr_simps [simp]:
  "na_cnt (set_attr d i t) = na_cnt t" "na_mem (set_attr d i t) = na_mem t"
  "neighbor_addrs (set_attr d i t) = neighbor_addrs t" "neighbor_attrs (set_attr d i t) = neighbor_attrs t"
  "na_timeout (set_attr d i t) = na_timeout t" "length (attrs (set_attr d i t)) = length (attrs t)"
  by (simp_all add: set_attr_def)

lemma upd_entry_simps [simp]:
  "na_cnt (upd_entry i f t) = na_cnt t" "attrs (upd_entry i f t) = attrs t"
  "neighbor_addrs (upd_entry i f t) = neighbor_addrs t" "neighbor_attrs (upd_entry i f t) = neighbor_attrs t"
  "na_timeout (upd_entry i f t) = na_timeout t" "length (na_mem (upd_entry i f t)) = length (na_mem t)"
  by (simp_all add: upd_entry_def)

text \<open>What only the neighbours of a table decide, and what only its attributes decide.\<close>

lemma neighbors_ok_cong:
  "na_cnt t' = na_cnt t \<Longrightarrow> na_mem t' = na_mem t \<Longrightarrow> neighbor_addrs t' = neighbor_addrs t \<Longrightarrow> neighbors_ok t' = neighbors_ok t"
  by (simp add: neighbors_ok_def)

lemma attrs_ok_cong:
  "attrs t' = attrs t \<Longrightarrow> neighbor_attrs t' = neighbor_attrs t \<Longrightarrow> attrs_ok t' = attrs_ok t"
  by (simp add: attrs_ok_def)

lemma metrics_ok_cong: "attrs t' = attrs t \<Longrightarrow> metrics_ok t' = metrics_ok t"
  by (simp add: metrics_ok_def)

lemma put_attr_ok: "attrs_ok t \<Longrightarrow> attrs_ok (put_attr d i v t)"
proof (cases "d < length (attrs t)")
  case True
  moreover assume "attrs_ok t"
  ultimately show ?thesis
    using nth_mem [OF True] by (auto simp: attrs_ok_def put_attr_def dest!: set_update_subset_insert [THEN subsetD])
qed (simp add: attrs_ok_def put_attr_def not_less list_update_beyond)

lemma put_metric_ok:
  assumes "metrics_ok t" "d = 0 \<longrightarrow> (\<exists>x. v = [x] \<and> metric_range x)"
  shows "metrics_ok (put_attr d i v t)"
proof (cases "d = 0")
  case True
  with assms show ?thesis
    by (auto simp: metrics_ok_def put_attr_def list_all_iff dest!: set_update_subset_insert [THEN subsetD])
qed (use assms in \<open>simp add: metrics_ok_def put_attr_def\<close>)

lemma set_attr_ok:
  assumes "attrs_ok t" "metrics_ok t"
  shows "attrs_ok (set_attr d i t)" "metrics_ok (set_attr d i t)"
proof -
  show "attrs_ok (set_attr d i t)" unfolding set_attr_def by (rule put_attr_ok [OF assms(1)])
  have "d = 0 \<longrightarrow> (\<exists>x. (case at_default (attrs t ! d) of Some v \<Rightarrow> v | None \<Rightarrow> replicate (at_size (attrs t ! d)) 0) = [x]
      \<and> metric_range x)"
    using assms(2) by (simp add: metrics_ok_def metric_range_def)
  then show "metrics_ok (set_attr d i t)" unfolding set_attr_def by (rule put_metric_ok [OF assms(2)])
qed

lemma fold_set_attr:
  "attrs_ok t \<Longrightarrow> metrics_ok t \<Longrightarrow>
     attrs_ok (fold (\<lambda>x. set_attr (f x) (g x)) xs t) \<and> metrics_ok (fold (\<lambda>x. set_attr (f x) (g x)) xs t)"
  "na_cnt (fold (\<lambda>x. set_attr (f x) (g x)) xs t) = na_cnt t" "na_mem (fold (\<lambda>x. set_attr (f x) (g x)) xs t) = na_mem t"
  "neighbor_addrs (fold (\<lambda>x. set_attr (f x) (g x)) xs t) = neighbor_addrs t"
  "neighbor_attrs (fold (\<lambda>x. set_attr (f x) (g x)) xs t) = neighbor_attrs t"
  "na_timeout (fold (\<lambda>x. set_attr (f x) (g x)) xs t) = na_timeout t"
  by (induction xs arbitrary: t) (simp_all add: set_attr_ok)

section \<open>The operations keep the invariant\<close>

lemma get_Outside:
  assumes "neighbors_ok t"
  shows "neighbor_addr_get (Outside a) t = Some i \<longleftrightarrow> i \<in> set (neighbor_addrs t) \<and> l_addr (na_mem t ! i) = a"
    "neighbor_addr_get (Outside a) t = None \<longleftrightarrow> (\<forall>i \<in> set (neighbor_addrs t). l_addr (na_mem t ! i) \<noteq> a)"
proof -
  have d: "inj_on (\<lambda>i. l_addr (na_mem t ! i)) (set (neighbor_addrs t))"
    using assms unfolding neighbors_ok_def distinct_map by blast
  show n: "neighbor_addr_get (Outside a) t = None \<longleftrightarrow> (\<forall>i \<in> set (neighbor_addrs t). l_addr (na_mem t ! i) \<noteq> a)"
    by (auto simp: neighbor_addr_get_def find_None_iff)
  show "neighbor_addr_get (Outside a) t = Some i \<longleftrightarrow> i \<in> set (neighbor_addrs t) \<and> l_addr (na_mem t ! i) = a"
  proof
    assume "neighbor_addr_get (Outside a) t = Some i"
    then show "i \<in> set (neighbor_addrs t) \<and> l_addr (na_mem t ! i) = a"
      by (auto simp: neighbor_addr_get_def find_Some_iff)
  next
    assume i: "i \<in> set (neighbor_addrs t) \<and> l_addr (na_mem t ! i) = a"
    with n obtain j where j: "neighbor_addr_get (Outside a) t = Some j" by fastforce
    then have "j \<in> set (neighbor_addrs t)" "l_addr (na_mem t ! j) = a"
      by (auto simp: neighbor_addr_get_def find_Some_iff)
    with i d j show "neighbor_addr_get (Outside a) t = Some i" by (auto dest: inj_onD)
  qed
qed

lemma add_neighbor_ok:
  assumes "table_ok t" "neighbor_attr_add_neighbor (Outside a) t = (r, t')"
  shows "table_ok t'" "na_timeout t' = na_timeout t"
    "r = 1 \<Longrightarrow> \<exists>i. neighbor_addr_get (Outside a) t' = Some i" "r = 0 \<longleftrightarrow> neighbor_attr_has_neighbor (Outside a) t"
    "\<And>b. b \<noteq> a \<Longrightarrow> neighbor_addr_get (Outside b) t' = neighbor_addr_get (Outside b) t"
    "\<And>i. i \<in> set (neighbor_addrs t) \<Longrightarrow> na_mem t' ! i = na_mem t ! i"
proof -
  have ok: "neighbors_ok t" "attrs_ok t" "metrics_ok t" using assms(1) by (simp_all add: table_ok_def)
  note n = ok(1) [unfolded neighbors_ok_def]
  consider (known) "neighbor_attr_has_neighbor (Outside a) t" "r = 0" "t' = t"
    | (full) cnt where "\<not> neighbor_attr_has_neighbor (Outside a) t" "pool_alloc (na_cnt t) = (None, cnt)" "r = - 1" "t' = t\<lparr>na_cnt := cnt\<rparr>"
    | (new) i cnt where "\<not> neighbor_attr_has_neighbor (Outside a) t" "pool_alloc (na_cnt t) = (Some i, cnt)"
    using assms(2) by (cases "pool_alloc (na_cnt t)"; cases "fst (pool_alloc (na_cnt t))")
      (auto simp: neighbor_attr_add_neighbor_def split: if_splits)
  then have "table_ok t' \<and> na_timeout t' = na_timeout t
      \<and> (r = 1 \<longrightarrow> (\<exists>i. neighbor_addr_get (Outside a) t' = Some i)) \<and> (r = 0 \<longleftrightarrow> neighbor_attr_has_neighbor (Outside a) t)
      \<and> (\<forall>b. b \<noteq> a \<longrightarrow> neighbor_addr_get (Outside b) t' = neighbor_addr_get (Outside b) t)
      \<and> (\<forall>i \<in> set (neighbor_addrs t). na_mem t' ! i = na_mem t ! i)"
  proof cases
    case known
    with assms(1) show ?thesis by simp
  next
    case full
    then have "t' = t" by (simp add: pool_alloc_None)
    with full assms(1) show ?thesis by simp
  next
    case new
    let ?e = "(na_mem t ! i)\<lparr>l_time := 0, l_addr := a, l_index := of_nat i\<rparr>"
    define t2 where "t2 = t\<lparr>na_cnt := cnt, neighbor_addrs := lst_push (neighbor_addrs t) i, na_mem := (na_mem t)[i := ?e]\<rparr>"
    have t': "r = 1" "t' = fold (\<lambda>d. set_attr d (of_nat i)) (neighbor_attrs t) t2"
      using assms(2) new by (simp_all add: neighbor_attr_add_neighbor_def upd_entry_def addr_of_def t2_def)
    note al = pool_alloc_Some [OF new(2)]
    have fresh: "i \<notin> set (neighbor_addrs t)" "i < NEIGHBOR_ATTR_MAX_NEIGHBORS" using n al by (auto simp: pool_used_def)
    have l: "neighbor_addrs t2 = i # neighbor_addrs t" using fresh by (simp add: t2_def lst_push_def)
    have same: "na_mem t2 ! j = na_mem t ! j" if "j \<in> set (neighbor_addrs t)" for j
      using that fresh by (cases "i = j") (simp_all add: t2_def)
    have ni: "na_mem t2 ! i = ?e" using fresh n by (simp add: t2_def)
    have addrs: "map (\<lambda>j. l_addr (na_mem t2 ! j)) (neighbor_addrs t) = map (\<lambda>j. l_addr (na_mem t ! j)) (neighbor_addrs t)"
      by (simp add: same)
    have nin: "a \<notin> (\<lambda>j. l_addr (na_mem t ! j)) ` set (neighbor_addrs t)"
      using new(1) get_Outside(2) [OF ok(1)] by (auto simp: neighbor_attr_has_neighbor_def)
    have used: "pool_used cnt = insert i (pool_used (na_cnt t))" "pool_wf cnt" "length cnt = length (na_cnt t)"
      using pool.alloc_Some [OF _ new(2)] n al(3) by auto
    have nok: "neighbors_ok t2"
      unfolding neighbors_ok_def l
    proof (intro conjI)
      show "distinct (map (\<lambda>j. l_addr (na_mem t2 ! j)) (i # neighbor_addrs t))"
        using n nin by (simp add: addrs ni)
      show "\<forall>j \<in> set (i # neighbor_addrs t). l_index (na_mem t2 ! j) = of_nat j" using n ni same by auto
    qed (use n fresh used in \<open>simp_all add: t2_def\<close>)
    have "attrs_ok t2" "metrics_ok t2" using ok attrs_ok_cong [of t2 t] metrics_ok_cong [of t2 t] by (simp_all add: t2_def)
    then have ok2: "table_ok t'"
      using nok fold_set_attr [where t = t2 and f = "\<lambda>d. d" and g = "\<lambda>_. of_nat i" and xs = "neighbor_attrs t"]
        neighbors_ok_cong [of "fold (\<lambda>d. set_attr d (of_nat i)) (neighbor_attrs t) t2" t2]
      by (simp add: table_ok_def t'(2))
    have mem: "na_mem t' = na_mem t2" "neighbor_addrs t' = i # neighbor_addrs t" "na_timeout t' = na_timeout t"
      using fold_set_attr [where t = t2 and f = "\<lambda>d. d" and g = "\<lambda>_. of_nat i" and xs = "neighbor_attrs t"] l by (simp_all add: t'(2)) (simp add: t2_def)
    have nok': "neighbors_ok t'" using ok2 by (simp add: table_ok_def)
    have "neighbor_addr_get (Outside a) t' = Some i" using get_Outside(1) [OF nok'] ni by (simp add: mem)
    moreover have "neighbor_addr_get (Outside b) t' = neighbor_addr_get (Outside b) t" if "b \<noteq> a" for b
    proof -
      have "find (\<lambda>j. l_addr (na_mem t2 ! j) = b) (neighbor_addrs t) = find (\<lambda>j. l_addr (na_mem t ! j) = b) (neighbor_addrs t)"
        by (rule find_cong) (simp_all add: same)
      then show ?thesis using that ni by (simp add: neighbor_addr_get_def mem)
    qed
    ultimately show ?thesis using ok2 new(1) t'(1) mem same by (simp add: neighbor_attr_has_neighbor_def)
  qed
  then show "table_ok t'" "na_timeout t' = na_timeout t"
    "r = 1 \<Longrightarrow> \<exists>i. neighbor_addr_get (Outside a) t' = Some i" "r = 0 \<longleftrightarrow> neighbor_attr_has_neighbor (Outside a) t"
    "\<And>b. b \<noteq> a \<Longrightarrow> neighbor_addr_get (Outside b) t' = neighbor_addr_get (Outside b) t"
    "\<And>i. i \<in> set (neighbor_addrs t) \<Longrightarrow> na_mem t' ! i = na_mem t ! i"
    by blast+
qed

lemma remove_entry_ok:
  assumes "neighbors_ok t" "i \<in> set (neighbor_addrs t)"
  shows "neighbors_ok (remove_entry i t)"
proof -
  note n = assms(1) [unfolded neighbors_ok_def]
  have i: "i < length (na_cnt t)" using n assms(2) by (auto simp: pool_used_def)
  have "pool_used (pool_free (na_cnt t) i) = pool_used (na_cnt t) - {i}" "pool_wf (pool_free (na_cnt t) i)"
    using pool.free_used [of "na_cnt t" i] n i by auto
  moreover have "distinct (map (\<lambda>j. l_addr (na_mem t ! j)) (remove1 i (neighbor_addrs t)))"
    using n by (auto simp: distinct_map inj_on_diff)
  ultimately show ?thesis
    using n by (auto simp: neighbors_ok_def remove_entry_def distinct_remove1 set_remove1_eq)
qed

lemma upd_time_ok:
  assumes "neighbors_ok t"
  shows "neighbors_ok (upd_entry i (\<lambda>e. e\<lparr>l_time := f e\<rparr>) t)"
proof -
  have "na_mem (upd_entry i (\<lambda>e. e\<lparr>l_time := f e\<rparr>) t) ! j =
      (if i = j \<and> i < length (na_mem t) then (na_mem t ! j)\<lparr>l_time := f (na_mem t ! j)\<rparr> else na_mem t ! j)" for j
    by (cases "i = j"; cases "j < length (na_mem t)") (simp_all add: upd_entry_def not_less list_update_beyond)
  then have "l_addr (na_mem (upd_entry i (\<lambda>e. e\<lparr>l_time := f e\<rparr>) t) ! j) = l_addr (na_mem t ! j)"
    "l_index (na_mem (upd_entry i (\<lambda>e. e\<lparr>l_time := f e\<rparr>) t) ! j) = l_index (na_mem t ! j)" for j
    by simp_all
  with assms show ?thesis by (simp add: neighbors_ok_def)
qed

lemma check_entry_ok:
  assumes "neighbors_ok t" "i \<in> set (neighbor_addrs t)"
  shows "neighbors_ok (check_entry i t)"
  using upd_time_ok [OF assms(1), of i "\<lambda>e. l_time e + 5"] assms(2)
    remove_entry_ok [of "upd_entry i (\<lambda>e. e\<lparr>l_time := l_time e + 5\<rparr>) t" i]
  by (simp add: check_entry_def Let_def)

lemma check_entry_simps [simp]:
  "attrs (check_entry i t) = attrs t" "neighbor_attrs (check_entry i t) = neighbor_attrs t"
  "na_timeout (check_entry i t) = na_timeout t"
  by (simp_all add: check_entry_def Let_def remove_entry_def)

lemma check_entry_list: "neighbor_addrs (check_entry i t) \<in> {neighbor_addrs t, remove1 i (neighbor_addrs t)}"
  by (simp add: check_entry_def Let_def remove_entry_def)

lemma fold_check_ok:
  "neighbors_ok t \<Longrightarrow> set xs \<subseteq> set (neighbor_addrs t) \<Longrightarrow> distinct xs \<Longrightarrow>
     neighbors_ok (fold check_entry xs t) \<and> attrs (fold check_entry xs t) = attrs t
     \<and> neighbor_attrs (fold check_entry xs t) = neighbor_attrs t"
proof (induction xs arbitrary: t)
  case (Cons x xs)
  have d: "distinct (neighbor_addrs t)" using Cons.prems(1) by (simp add: neighbors_ok_def)
  have "set xs \<subseteq> set (neighbor_addrs (check_entry x t))"
    using check_entry_list [of x t] Cons.prems(2,3) d by (auto simp: set_remove1_eq)
  moreover have "neighbors_ok (check_entry x t)" using check_entry_ok Cons.prems by simp
  ultimately show ?case using Cons.IH [of "check_entry x t"] Cons.prems(3) by simp
qed simp

lemma timeout_check_ok:
  assumes "table_ok t" shows "table_ok (timeout_check t)"
proof -
  let ?t = "t\<lparr>na_ct := None\<rparr>"
  have n: "neighbors_ok ?t" "attrs_ok ?t" "metrics_ok ?t"
    using assms neighbors_ok_cong [of ?t t] attrs_ok_cong [of ?t t] metrics_ok_cong [of ?t t] by (simp_all add: table_ok_def)
  have d: "distinct (neighbor_addrs ?t)" using n(1) by (simp add: neighbors_ok_def)
  let ?f = "fold check_entry (neighbor_addrs ?t) ?t"
  note f = fold_check_ok [OF n(1) subset_refl d]
  let ?g = "?f\<lparr>na_ct := Some CHECK_TICKS\<rparr>"
  have "table_ok ?g" "table_ok ?t"
    using f n neighbors_ok_cong [of ?g ?f] attrs_ok_cong [of ?g ?t] metrics_ok_cong [of ?g ?t] by (simp_all add: table_ok_def)
  then show ?thesis by (simp add: timeout_check_def Let_def)
qed

lemma set_timeout_ok: "table_ok t \<Longrightarrow> table_ok (neighbor_attr_set_timeout x t)"
  by (auto simp: table_ok_def neighbor_attr_set_timeout_def Let_def neighbors_ok_def attrs_ok_def metrics_ok_def)

lemma register_ok:
  assumes "table_ok t" "d < length (attrs t)"
  shows "table_ok (snd (neighbor_attr_register d t))"
proof -
  let ?t = "t\<lparr>neighbor_attrs := lst_push (neighbor_attrs t) d\<rparr>"
  have "set (lst_push (neighbor_attrs t) d) \<subseteq> insert d (set (neighbor_attrs t))"
    using set_remove1_subset [of d "neighbor_attrs t"] by (auto simp: lst_push_def)
  then have "attrs_ok ?t" "metrics_ok ?t" "neighbors_ok ?t"
    using assms neighbors_ok_cong [of ?t t] by (auto simp: table_ok_def attrs_ok_def metrics_ok_def)
  then show ?thesis
    using fold_set_attr [where t = ?t and f = "\<lambda>_. d" and g = "\<lambda>i. l_index (na_mem t ! i)" and xs = "neighbor_addrs t"]
      neighbors_ok_cong [of "fold (\<lambda>i. set_attr d (l_index (na_mem t ! i))) (neighbor_addrs t) ?t" ?t]
    by (simp add: table_ok_def neighbor_attr_register_def)
qed

section \<open>Data of a neighbour\<close>

text \<open>Setting the data of a known neighbour.\<close>

lemma set_data_known:
  assumes "table_ok t" "neighbor_addr_get (Outside a) t = Some i" "d < length (attrs t)"
    "d = 0 \<longrightarrow> (\<exists>x. v = [x] \<and> metric_range x)" "neighbor_attr_set_data d (Outside a) v t = (r, t')"
  shows "r" "table_ok t'" "neighbor_addr_get (Outside b) t' = neighbor_addr_get (Outside b) t"
    "at_data (attrs t' ! d) = (at_data (attrs t ! d))[i := v]" "e \<noteq> d \<Longrightarrow> attrs t' ! e = attrs t ! e"
    "na_mem t' = (na_mem t)[i := (na_mem t ! i)\<lparr>l_time := 0\<rparr>]" "neighbor_addrs t' = neighbor_addrs t"
proof -
  have ok: "neighbors_ok t" "attrs_ok t" "metrics_ok t" using assms(1) by (simp_all add: table_ok_def)
  have i: "i \<in> set (neighbor_addrs t)" using assms(2) get_Outside(1) [OF ok(1)] by simp
  then have "i < 12" "l_index (na_mem t ! i) = of_nat i"
    using ok(1) by (auto simp: neighbors_ok_def pool_used_def NEIGHBOR_ATTR_MAX_NEIGHBORS_def)
  then have ix: "unat (l_index (na_mem t ! i)) = i" by (simp add: unat_of_nat take_bit_eq_mod)
  let ?u = "upd_entry i (\<lambda>e. e\<lparr>l_time := 0\<rparr>) t"
  have t': "r" "t' = put_attr d i v ?u"
    using assms(2,5) ix by (simp_all add: neighbor_attr_set_data_def Let_def)
  show "r" by (rule t')
  have nok: "neighbors_ok t'"
    using upd_time_ok [OF ok(1), of i "\<lambda>_. 0"] neighbors_ok_cong [of t' ?u] by (simp add: t')
  moreover have "attrs_ok t'" "metrics_ok t'"
    using put_attr_ok [of ?u d i v] put_metric_ok [of ?u d v i] attrs_ok_cong [of ?u t] metrics_ok_cong [of ?u t] ok assms(4)
    by (simp_all add: t')
  ultimately show "table_ok t'" by (simp add: table_ok_def)
  show m: "na_mem t' = (na_mem t)[i := (na_mem t ! i)\<lparr>l_time := 0\<rparr>]" "neighbor_addrs t' = neighbor_addrs t"
    by (simp_all add: t' upd_entry_def)
  have "l_addr (na_mem t' ! j) = l_addr (na_mem t ! j)" for j
    unfolding m by (cases "i = j"; cases "j < length (na_mem t)") (simp_all add: not_less list_update_beyond)
  then show "neighbor_addr_get (Outside b) t' = neighbor_addr_get (Outside b) t"
    by (simp add: neighbor_addr_get_def m(2))
  show "at_data (attrs t' ! d) = (at_data (attrs t ! d))[i := v]" "e \<noteq> d \<Longrightarrow> attrs t' ! e = attrs t ! e"
    using assms(3) by (simp_all add: t' put_attr_def)
qed

section \<open>The link metric\<close>

lemma ewma_unat:
  assumes "unat pkt \<le> 255"
  shows "unat (ewma rec pkt) = (90 * unat rec + 10 * unat pkt) div 100"
proof -
  have r: "unat rec < 256" using unsigned_less [of rec] by simp
  then have "unat rec < 65536" by linarith
  then have u: "unat (ucast rec :: 16 word) = unat rec" by (simp add: unsigned_ucast_eq take_bit_eq_mod)
  have "unat (ucast rec * 90 + pkt * (100 - 90) :: 16 word) = 90 * unat rec + 10 * unat pkt"
  proof -
    have "unat rec * 90 < 65536" "unat rec * 90 + unat pkt * 10 < 65536" using assms r by linarith+
    then show ?thesis by (simp add: unat_word_ariths u)
  qed
  then have "unat ((ucast rec * 90 + pkt * (100 - 90)) div 100 :: 16 word) = (90 * unat rec + 10 * unat pkt) div 100"
    by (simp add: unat_div_distrib)
  moreover have "(90 * unat rec + 10 * unat pkt) div 100 < 256" using assms r by linarith
  ultimately show ?thesis by (simp add: ewma_def unsigned_ucast_eq take_bit_eq_mod)
qed

text \<open>The metric of a packet that took \<open>k\<close> transmissions.\<close>

lemma pkt_unat:
  assumes "unat k \<le> 15"
  shows "unat (ucast k * of_nat NEIGHBOR_INFO_ETX_DIVISOR :: 16 word) = 16 * unat (k :: 8 word)"
proof -
  have "unat (ucast k :: 16 word) = unat k" using assms by (simp add: unsigned_ucast_eq take_bit_eq_mod)
  then show ?thesis using assms by (simp add: unat_word_ariths NEIGHBOR_INFO_ETX_DIVISOR_def)
qed

text \<open>The new metric of a neighbour with metric \<open>v\<close>.\<close>

definition next_metric :: "8 word \<Rightarrow> 8 word \<Rightarrow> 8 word" where
  "next_metric v k = (if v = 0 then ucast (ucast k * of_nat NEIGHBOR_INFO_ETX_DIVISOR :: 16 word)
     else ewma v (ucast k * of_nat NEIGHBOR_INFO_ETX_DIVISOR))"

lemma next_metric_unat:
  assumes "unat k \<le> 15"
  shows "unat (next_metric v k) = (if v = 0 then 16 * unat k else (90 * unat v + 160 * unat k) div 100)"
proof -
  have "16 * unat k < 256" using assms by simp
  then show ?thesis
    using pkt_unat [OF assms] ewma_unat [of "ucast k * of_nat NEIGHBOR_INFO_ETX_DIVISOR" v] assms
    by (simp add: next_metric_def unsigned_ucast_eq take_bit_eq_mod [of 8])
qed

lemma next_metric_range:
  assumes "metric_range v" "1 \<le> unat k" "unat k \<le> 15"
  shows "metric_range (next_metric v k)"
proof -
  have "v = 0 \<or> 16 \<le> unat v \<and> unat v \<le> 240" using assms(1) by (auto simp: metric_range_def word_le_nat_alt)
  then have "16 \<le> unat (next_metric v k) \<and> unat (next_metric v k) \<le> 240"
    unfolding next_metric_unat [OF assms(3)] using assms(2,3) by (cases "v = 0") (simp, simp, linarith)
  then show ?thesis by (simp add: metric_range_def word_le_nat_alt)
qed

lemma get_metric_Outside:
  assumes "table_ok t"
  shows "neighbor_addr_get (Outside a) t = Some i \<Longrightarrow> neighbor_info_get_metric (Outside a) t = at_data (attrs t ! 0) ! i ! 0"
    "neighbor_addr_get (Outside a) t = None \<Longrightarrow> neighbor_info_get_metric (Outside a) t = 240"
    "metric_range (neighbor_info_get_metric (Outside a) t)"
proof -
  have ok: "neighbors_ok t" "attrs_ok t" "metrics_ok t" using assms by (simp_all add: table_ok_def)
  have ix: "unat (l_index (na_mem t ! i)) = i \<and> i < 12" if "neighbor_addr_get (Outside a) t = Some i" for i
  proof -
    have i: "i \<in> set (neighbor_addrs t)" using that get_Outside(1) [OF ok(1)] by simp
    then have "i < 12" "l_index (na_mem t ! i) = of_nat i"
      using ok(1) by (auto simp: neighbors_ok_def pool_used_def NEIGHBOR_ATTR_MAX_NEIGHBORS_def)
    then show ?thesis by (simp add: unat_of_nat take_bit_eq_mod)
  qed
  show *: "neighbor_addr_get (Outside a) t = Some i \<Longrightarrow> neighbor_info_get_metric (Outside a) t = at_data (attrs t ! 0) ! i ! 0" for i
    using ix by (simp add: neighbor_info_get_metric_def neighbor_attr_get_data_def read_etx_def)
  show n: "neighbor_addr_get (Outside a) t = None \<Longrightarrow> neighbor_info_get_metric (Outside a) t = 240"
    by (simp add: neighbor_info_get_metric_def neighbor_attr_get_data_def ETX_LIMIT_def NEIGHBOR_INFO_ETX_DIVISOR_def)
  show "metric_range (neighbor_info_get_metric (Outside a) t)"
  proof (cases "neighbor_addr_get (Outside a) t")
    case None
    then show ?thesis using n by (simp add: metric_range_def)
  next
    case (Some i)
    have "i < length (at_data (attrs t ! 0))"
      using ix [OF Some] ok(2,3) nth_mem [of 0 "attrs t"] by (auto simp: attrs_ok_def metrics_ok_def NEIGHBOR_ATTR_MAX_NEIGHBORS_def)
    then show ?thesis using ok(3) * [OF Some] by (auto simp: metrics_ok_def list_all_length)
  qed
qed

lemma update_metric_unknown:
  "neighbor_addr_get (Outside a) (li_table s) = None \<Longrightarrow> update_metric cb (Outside a) k s = s"
  by (simp add: update_metric_def Let_def neighbor_attr_has_neighbor_def neighbor_attr_get_data_def)

lemma update_metric_known:
  assumes ok: "table_ok (li_table s)" and i: "neighbor_addr_get (Outside a) (li_table s) = Some i"
    and k: "1 \<le> unat k" "unat k \<le> 15" and v: "v = neighbor_info_get_metric (Outside a) (li_table s)"
    and s': "s' = update_metric cb (Outside a) k s"
  shows "table_ok (li_table s')" "neighbor_addr_get (Outside b) (li_table s') = neighbor_addr_get (Outside b) (li_table s)"
    "neighbor_info_get_metric (Outside b) (li_table s') = (if b = a then next_metric v k else neighbor_info_get_metric (Outside b) (li_table s))"
    "li_subscribed s' = li_subscribed s"
    "li_upper s' = (if li_subscribed s \<and> next_metric v k \<noteq> (if v = 0 then 240 else v)
       then cb (li_table s') a (next_metric v k) (li_upper s) else li_upper s)"
proof -
  let ?t = "li_table s" and ?new = "next_metric v k"
  have v': "v = at_data (attrs ?t ! 0) ! i ! 0" using get_metric_Outside(1) [OF ok i] v by simp
  have g: "neighbor_attr_get_data 0 (Outside a) ?t = Some i" "read_etx i ?t = v"
  proof -
    have "i \<in> set (neighbor_addrs ?t)" "neighbors_ok ?t" using i get_Outside(1) ok by (auto simp: table_ok_def)
    then have "i < 12" "l_index (na_mem ?t ! i) = of_nat i"
      by (auto simp: neighbors_ok_def pool_used_def NEIGHBOR_ATTR_MAX_NEIGHBORS_def)
    then show "neighbor_attr_get_data 0 (Outside a) ?t = Some i" using i by (simp add: neighbor_attr_get_data_def unat_of_nat take_bit_eq_mod)
    show "read_etx i ?t = v" using v' by (simp add: read_etx_def)
  qed
  obtain r t' where set: "neighbor_attr_set_data 0 (Outside a) [?new] ?t = (r, t')" by (cases "neighbor_attr_set_data 0 (Outside a) [?new] ?t")
  have a0: "0 < length (attrs ?t)" using ok by (simp add: table_ok_def metrics_ok_def)
  have new: "0 = (0 :: nat) \<longrightarrow> (\<exists>x. [?new] = [x] \<and> metric_range x)"
    using next_metric_range [OF _ k, of v] get_metric_Outside(3) [OF ok] v by simp
  note sd = set_data_known [OF ok i a0 new set]
  have li: "li_table s' = t'" "li_subscribed s' = li_subscribed s"
    "li_upper s' = (if li_subscribed s \<and> ?new \<noteq> (if v = 0 then 240 else v) then cb t' a ?new (li_upper s) else li_upper s)"
  proof -
    have pair: "(if read_etx i ?t = 0 then (of_nat (ETX_LIMIT * NEIGHBOR_INFO_ETX_DIVISOR), ucast (ucast k * of_nat NEIGHBOR_INFO_ETX_DIVISOR :: 16 word))
        else (read_etx i ?t, ewma (read_etx i ?t) (ucast k * of_nat NEIGHBOR_INFO_ETX_DIVISOR)))
        = (if v = 0 then 240 else v, ?new)"
      by (simp add: g(2) next_metric_def ETX_LIMIT_def NEIGHBOR_INFO_ETX_DIVISOR_def)
    have "s' = (let s1 = s\<lparr>li_table := t'\<rparr> in if ?new \<noteq> (if v = 0 then 240 else v) \<and> li_subscribed s1
        then s1\<lparr>li_upper := cb t' a ?new (li_upper s1)\<rparr> else s1)"
      unfolding s' update_metric_def Let_def g(1) option.case pair prod.case
      using i by (simp only: neighbor_attr_has_neighbor_def set) (simp add: addr_of_def)
    then show "li_table s' = t'" "li_subscribed s' = li_subscribed s"
      "li_upper s' = (if li_subscribed s \<and> ?new \<noteq> (if v = 0 then 240 else v) then cb t' a ?new (li_upper s) else li_upper s)"
      by (simp_all add: Let_def)
  qed
  show "table_ok (li_table s')" using sd(2) li(1) by simp
  show same: "neighbor_addr_get (Outside b) (li_table s') = neighbor_addr_get (Outside b) (li_table s)" for b using sd(3) li(1) by simp
  show "li_subscribed s' = li_subscribed s" "li_upper s' = (if li_subscribed s \<and> ?new \<noteq> (if v = 0 then 240 else v)
       then cb (li_table s') a ?new (li_upper s) else li_upper s)" using li by simp_all
  have len: "i < length (at_data (attrs ?t ! 0))"
    using get_Outside(1) ok i nth_mem [OF a0] by (auto simp: table_ok_def attrs_ok_def neighbors_ok_def pool_used_def)
  have other: "j \<noteq> i" if "neighbor_addr_get (Outside b) ?t = Some j" "b \<noteq> a" for j
    using that i get_Outside(1) ok by (auto simp: table_ok_def)
  show "neighbor_info_get_metric (Outside b) (li_table s') = (if b = a then ?new else neighbor_info_get_metric (Outside b) ?t)"
    using get_metric_Outside(1,2) [OF ok, of b] get_metric_Outside(1,2) [OF sd(2), of b] sd(3,4) i len other li(1)
    by (cases "neighbor_addr_get (Outside b) ?t"; cases "b = a") (auto simp: sd(3))
qed

section \<open>Time-outs\<close>

lemma check_entry_other:
  assumes "j \<noteq> i"
  shows "na_mem (check_entry j t) ! i = na_mem t ! i" "i \<in> set (neighbor_addrs (check_entry j t)) \<longleftrightarrow> i \<in> set (neighbor_addrs t)"
  using assms by (simp_all add: check_entry_def Let_def remove_entry_def upd_entry_def)

lemma fold_check_other:
  "i \<notin> set xs \<Longrightarrow> na_mem (fold check_entry xs t) ! i = na_mem t ! i
    \<and> (i \<in> set (neighbor_addrs (fold check_entry xs t)) \<longleftrightarrow> i \<in> set (neighbor_addrs t))"
proof (induction xs arbitrary: t)
  case (Cons x xs)
  then have "x \<noteq> i" by auto
  with Cons check_entry_other [OF this] show ?case by simp
qed simp

lemma fold_check_timeout: "na_timeout (fold check_entry xs t) = na_timeout t"
  by (induction xs arbitrary: t) simp_all

text \<open>One round, for a neighbour that is \<open>x\<close> seconds old.\<close>

lemma timeout_check_entry:
  assumes ok: "table_ok t" and i: "i \<in> set (neighbor_addrs t)" and x: "unat (l_time (na_mem t ! i)) = x" "x + 5 < 65536"
    and T: "0 < na_timeout t"
  shows "i \<in> set (neighbor_addrs (timeout_check t)) \<longleftrightarrow> x + 5 < unat (na_timeout t)"
    "na_mem (timeout_check t) ! i = (na_mem t ! i)\<lparr>l_time := l_time (na_mem t ! i) + 5\<rparr>"
    "na_timeout (timeout_check t) = na_timeout t"
proof -
  have d: "distinct (neighbor_addrs t)" "i < length (na_mem t)"
    using ok i by (auto simp: table_ok_def neighbors_ok_def pool_used_def NEIGHBOR_ATTR_MAX_NEIGHBORS_def)
  obtain xs ys where s: "neighbor_addrs t = xs @ i # ys" "i \<notin> set xs" "i \<notin> set ys"
    using split_list [OF i] d(1) by force
  define t1 where "t1 = fold check_entry xs (t\<lparr>na_ct := None\<rparr>)"
  have t1: "na_mem t1 ! i = na_mem t ! i" "i \<in> set (neighbor_addrs t1)" "na_timeout t1 = na_timeout t"
    using fold_check_other [OF s(2), of "t\<lparr>na_ct := None\<rparr>"] fold_check_timeout [of xs "t\<lparr>na_ct := None\<rparr>"] i by (simp_all add: t1_def)
  have len: "length (na_mem (fold check_entry zs u)) = length (na_mem u)" for zs u
    by (induction zs arbitrary: u) (simp_all add: check_entry_def Let_def remove_entry_def)
  then have l1: "i < length (na_mem t1)" using d(2) by (simp add: t1_def)
  have d1: "distinct (neighbor_addrs t1)"
  proof -
    have "neighbors_ok (t\<lparr>na_ct := None\<rparr>)" using ok neighbors_ok_cong [of "t\<lparr>na_ct := None\<rparr>" t] by (simp add: table_ok_def)
    moreover have "set xs \<subseteq> set (neighbor_addrs (t\<lparr>na_ct := None\<rparr>))" "distinct xs" using s(1) d(1) by auto
    ultimately have "neighbors_ok t1" unfolding t1_def by (rule fold_check_ok [THEN conjunct1])
    then show ?thesis by (simp add: neighbors_ok_def)
  qed
  define t2 where "t2 = check_entry i t1"
  have u: "unat (l_time (na_mem t ! i) + 5) = x + 5" using x by (simp add: unat_word_ariths)
  have t2: "na_mem t2 ! i = (na_mem t ! i)\<lparr>l_time := l_time (na_mem t ! i) + 5\<rparr>"
    "i \<in> set (neighbor_addrs t2) \<longleftrightarrow> \<not> na_timeout t \<le> l_time (na_mem t ! i) + 5"
    using t1 l1 d1 by (simp_all add: t2_def check_entry_def Let_def remove_entry_def upd_entry_def)
  have "timeout_check t = (fold check_entry ys t2)\<lparr>na_ct := Some CHECK_TICKS\<rparr>"
    using T by (simp add: timeout_check_def Let_def s(1) t1_def t2_def)
  then show "i \<in> set (neighbor_addrs (timeout_check t)) \<longleftrightarrow> x + 5 < unat (na_timeout t)"
    "na_mem (timeout_check t) ! i = (na_mem t ! i)\<lparr>l_time := l_time (na_mem t ! i) + 5\<rparr>"
    "na_timeout (timeout_check t) = na_timeout t"
    using fold_check_other [OF s(3), of t2] fold_check_timeout [of ys t2] t2 u t1(3)
    by (simp_all add: word_le_nat_alt not_le t2_def)
qed

lemma timeout_check_subset:
  assumes "table_ok t"
  shows "set (neighbor_addrs (timeout_check t)) \<subseteq> set (neighbor_addrs t)"
proof -
  have "set (neighbor_addrs (fold check_entry xs u)) \<subseteq> set (neighbor_addrs u)" for xs u
  proof (induction xs arbitrary: u)
    case (Cons y ys)
    have "set (neighbor_addrs (check_entry y u)) \<subseteq> set (neighbor_addrs u)"
      using check_entry_list [of y u] set_remove1_subset [of y "neighbor_addrs u"] by auto
    with Cons [of "check_entry y u"] show ?case by simp
  qed simp
  from this [of "neighbor_addrs t" "t\<lparr>na_ct := None\<rparr>"] show ?thesis by (simp add: timeout_check_def Let_def)
qed

lemma timeout_check_addr:
  assumes ok: "table_ok t" and j: "j \<in> set (neighbor_addrs (timeout_check t))"
  shows "l_addr (na_mem (timeout_check t) ! j) = l_addr (na_mem t ! j)"
proof -
  have "l_addr (na_mem (check_entry i u) ! k) = l_addr (na_mem u ! k)" for i u k
    by (cases "i = k"; cases "k < length (na_mem u)")
      (simp_all add: check_entry_def Let_def remove_entry_def upd_entry_def not_less list_update_beyond)
  then have "l_addr (na_mem (fold check_entry xs u) ! k) = l_addr (na_mem u ! k)" for xs u k
    by (induction xs arbitrary: u) simp_all
  then show ?thesis by (simp add: timeout_check_def Let_def)
qed

text \<open>A neighbour from which nothing was heard stays for exactly the lifetime that was set:
  it is known after \<open>k\<close> rounds of five seconds if and only if \<open>5 k\<close> is less than the lifetime.\<close>

theorem silent_neighbor_dropped:
  assumes ok: "table_ok t" and a: "neighbor_addr_get (Outside a) t = Some i" "l_time (na_mem t ! i) = 0"
    and T: "0 < na_timeout t" "na_timeout t \<le> 65530"
  shows "neighbor_attr_has_neighbor (Outside a) ((timeout_check ^^ k) t) \<longleftrightarrow> 5 * k < unat (na_timeout t)"
proof -
  have T': "unat (na_timeout t) \<le> 65530" "0 < unat (na_timeout t)" using T by (simp_all add: word_le_nat_alt word_less_nat_alt)
  have "table_ok ((timeout_check ^^ k) t) \<and> na_timeout ((timeout_check ^^ k) t) = na_timeout t
    \<and> (if 5 * k < unat (na_timeout t)
       then neighbor_addr_get (Outside a) ((timeout_check ^^ k) t) = Some i
          \<and> unat (l_time (na_mem ((timeout_check ^^ k) t) ! i)) = 5 * k
       else neighbor_addr_get (Outside a) ((timeout_check ^^ k) t) = None)"
  proof (induction k)
    case 0
    with ok a T' show ?case by simp
  next
    case (Suc k)
    define u where "u = (timeout_check ^^ k) t"
    have u: "table_ok u" "na_timeout u = na_timeout t" using Suc by (simp_all add: u_def)
    have nk: "neighbors_ok u" "neighbors_ok (timeout_check u)" "table_ok (timeout_check u)"
      using u(1) timeout_check_ok [OF u(1)] by (simp_all add: table_ok_def)
    have Tu: "0 < na_timeout u" using T u by simp
    have tm: "na_timeout (timeout_check u) = na_timeout u"
      by (simp add: timeout_check_def Let_def fold_check_timeout)
    have rec: "(timeout_check ^^ Suc k) t = timeout_check u" by (simp add: u_def)
    show ?case
    proof (cases "5 * k < unat (na_timeout t)")
      case True
      then have i: "neighbor_addr_get (Outside a) u = Some i" "unat (l_time (na_mem u ! i)) = 5 * k"
        using Suc by (simp_all add: u_def)
      then have im: "i \<in> set (neighbor_addrs u)" "l_addr (na_mem u ! i) = a" using get_Outside(1) [OF nk(1)] by simp_all
      have fit: "5 * k + 5 < 65536" using True T' by linarith
      note e = timeout_check_entry [OF u(1) im(1) i(2) fit Tu]
      have l: "unat (l_time (na_mem (timeout_check u) ! i)) = 5 * k + 5"
        using i(2) fit e(2) by (simp add: unat_word_ariths)
      show ?thesis
      proof (cases "5 * k + 5 < unat (na_timeout t)")
        case True
        then have "neighbor_addr_get (Outside a) (timeout_check u) = Some i"
          using e(1,2) u(2) im(2) get_Outside(1) [OF nk(2)] by simp
        with True l nk(3) u(2) tm show ?thesis unfolding rec by simp
      next
        case False
        then have "i \<notin> set (neighbor_addrs (timeout_check u))" using e(1) u(2) by simp
        moreover have "l_addr (na_mem (timeout_check u) ! j) \<noteq> a" if "j \<in> set (neighbor_addrs (timeout_check u))" "j \<noteq> i" for j
        proof
          assume "l_addr (na_mem (timeout_check u) ! j) = a"
          then have "neighbor_addr_get (Outside a) u = Some j"
            using that timeout_check_addr [OF u(1) that(1)] timeout_check_subset [OF u(1)] get_Outside(1) [OF nk(1)] by auto
          with i(1) that(2) show False by simp
        qed
        ultimately have "neighbor_addr_get (Outside a) (timeout_check u) = None"
          using get_Outside(2) [OF nk(2)] by metis
        with False nk(3) u(2) tm show ?thesis unfolding rec by simp
      qed
    next
      case False
      then have "neighbor_addr_get (Outside a) u = None" using Suc by (simp add: u_def)
      then have "neighbor_addr_get (Outside a) (timeout_check u) = None"
        using get_Outside(2) [OF nk(1)] get_Outside(2) [OF nk(2)] timeout_check_subset [OF u(1)] timeout_check_addr [OF u(1)]
        by (metis subsetD)
      with False nk(3) u(2) tm show ?thesis unfolding rec by simp
    qed
  qed
  then show ?thesis by (auto simp: neighbor_attr_has_neighbor_def split: if_splits)
qed

section \<open>Runs of the link layer\<close>

text \<open>The events that reach the module: the fate of a packet, a received packet, the
  subscription, the timer and the calls of its clients. The CSMA layer reports at most 15
  transmissions. \<open>upper\<close> is any step of the layer above.\<close>

inductive link_step :: "(ntable \<Rightarrow> rimeaddr \<Rightarrow> 8 word \<Rightarrow> 'n \<Rightarrow> 'n) \<Rightarrow> 'n linkinfo \<Rightarrow> 'n linkinfo \<Rightarrow> bool"
  for cb :: "ntable \<Rightarrow> rimeaddr \<Rightarrow> 8 word \<Rightarrow> 'n \<Rightarrow> 'n" where
  sent: "1 \<le> unat k \<Longrightarrow> unat k \<le> 15 \<Longrightarrow> link_step cb s (neighbor_info_packet_sent cb a status k s)"
| received: "link_step cb s (neighbor_info_packet_received cb a lqi s)"
| subscribed: "link_step cb s (snd (neighbor_info_subscribe s))"
| aged: "link_step cb s (s\<lparr>li_table := timeout_check (li_table s)\<rparr>)"
| lifetime: "link_step cb s (s\<lparr>li_table := neighbor_attr_set_timeout x (li_table s)\<rparr>)"
| removed: "link_step cb s (s\<lparr>li_table := snd (neighbor_attr_remove_neighbor (Outside a) (li_table s))\<rparr>)"
| ticked: "link_step cb s (s\<lparr>li_table := neighbor_attr_tick (Outside a) (li_table s)\<rparr>)"
| upper: "link_step cb s (s\<lparr>li_upper := u\<rparr>)"

lemma update_metric_ok:
  assumes "table_ok (li_table s)" "1 \<le> unat k" "unat k \<le> 15"
  shows "table_ok (li_table (update_metric cb (Outside a) k s))"
proof (cases "neighbor_addr_get (Outside a) (li_table s)")
  case None
  then show ?thesis using assms(1) by (simp add: update_metric_unknown)
next
  case (Some i)
  show ?thesis by (rule update_metric_known(1) [OF assms(1) Some assms(2,3) refl refl])
qed

lemma add_neighbor_table_ok: "table_ok (li_table s) \<Longrightarrow> table_ok (li_table (add_neighbor (Outside a) s))"
  using add_neighbor_ok(1) [of "li_table s" a] by (simp add: add_neighbor_def) (metis prod.collapse)

lemma lqi_to_etx_range: "1 \<le> unat (lqi_to_etx l) \<and> unat (lqi_to_etx l) \<le> 15"
proof (cases "70 \<le> l \<and> \<not> 85 \<le> l")
  case True
  then have l: "70 \<le> unat l" "unat l < 85" by (auto simp: word_le_nat_alt)
  then have d: "220 \<le> 48 * unat l - 3140" "48 * unat l - 3140 \<le> 892" by linarith+
  have "1024 div (48 * unat l - 3140) \<le> 1024 div 220" by (rule div_le_mono2) (use d in auto)
  moreover have "1024 div 892 \<le> 1024 div (48 * unat l - 3140)" by (rule div_le_mono2) (use d in auto)
  ultimately have "1 \<le> 1024 div (48 * unat l - 3140)" "1024 div (48 * unat l - 3140) \<le> 4" by simp_all
  moreover from this have "unat (of_nat (1024 div (48 * unat l - 3140)) :: 8 word) = 1024 div (48 * unat l - 3140)"
    by (simp add: unat_of_nat take_bit_eq_mod)
  moreover have "l \<noteq> 37" using l by auto
  ultimately show ?thesis using True by (simp add: lqi_to_etx_def)
qed (auto simp: lqi_to_etx_def)

lemma link_step_ok: "link_step cb s s' \<Longrightarrow> table_ok (li_table s) \<Longrightarrow> table_ok (li_table s')"
proof (induction rule: link_step.induct)
  case (sent k s a status)
  have "unat (ucast k :: 8 word) = unat k" using sent(2) by (simp add: unsigned_ucast_eq take_bit_eq_mod)
  then have k: "1 \<le> unat (ucast k :: 8 word)" "unat (ucast k :: 8 word) \<le> 15" using sent(1,2) by simp_all
  have "1 \<le> unat (of_nat ETX_LIMIT :: 8 word)" "unat (of_nat ETX_LIMIT :: 8 word) \<le> 15" by (simp_all add: ETX_LIMIT_def)
  then show ?case
    using sent(3) k by (cases status)
      (simp_all add: neighbor_info_packet_sent_def update_metric_ok add_neighbor_table_ok)
next
  case (received s a lqi)
  then show ?case
    using lqi_to_etx_range [of lqi] by (simp add: neighbor_info_packet_received_def update_metric_ok add_neighbor_table_ok)
next
  case (subscribed s)
  then show ?case using register_ok [of "li_table s" 0] by (simp add: neighbor_info_subscribe_def table_ok_def metrics_ok_def)
next
  case (removed s a)
  show ?case
  proof (cases "neighbor_addr_get (Outside a) (li_table s)")
    case (Some i)
    let ?t = "remove_entry i (li_table s)"
    have ok: "neighbors_ok (li_table s)" using removed by (simp add: table_ok_def)
    have "neighbors_ok ?t" using Some get_Outside(1) [OF ok] by (intro remove_entry_ok [OF ok]) simp
    then show ?thesis
      using removed Some attrs_ok_cong [of ?t "li_table s"] metrics_ok_cong [of ?t "li_table s"]
      by (simp add: neighbor_attr_remove_neighbor_def table_ok_def) (simp add: remove_entry_def)
  qed (use removed in \<open>simp add: neighbor_attr_remove_neighbor_def\<close>)
next
  case (ticked s a)
  show ?case
  proof (cases "neighbor_addr_get (Outside a) (li_table s)")
    case (Some i)
    let ?t = "upd_entry i (\<lambda>e. e\<lparr>l_time := 0\<rparr>) (li_table s)"
    have "neighbors_ok ?t" using ticked upd_time_ok [of "li_table s" i "\<lambda>_. 0"] by (simp add: table_ok_def)
    then show ?thesis
      using ticked Some attrs_ok_cong [of ?t "li_table s"] metrics_ok_cong [of ?t "li_table s"]
      by (simp add: neighbor_attr_tick_def table_ok_def)
  qed (use ticked in \<open>simp add: neighbor_attr_tick_def\<close>)
qed (simp_all add: timeout_check_ok set_timeout_ok)

lemma table0_ok: "table_ok ntable0"
  by (simp add: table_ok_def neighbors_ok_def attrs_ok_def metrics_ok_def ntable0_def pool_wf_def pool_used_def metric_range_def list_all_iff)

text \<open>C34: In every run of the link layer no neighbour is in the table twice, every neighbour
  has a block of its own, and the link metric of any address is 0 (nothing measured yet) or
  between 16 and 240, one to fifteen transmissions.\<close>

theorem reachable_link_metrics:
  assumes "(link_step cb)\<^sup>*\<^sup>* \<lparr>li_table = ntable0, li_subscribed = False, li_upper = u\<rparr> s" "t = li_table s"
  shows "distinct (map (\<lambda>i. l_addr (na_mem t ! i)) (neighbor_addrs t))
    \<and> set (neighbor_addrs t) = pool_used (na_cnt t) \<and> length (neighbor_addrs t) \<le> 12
    \<and> metric_range (neighbor_info_get_metric (Outside a) t)"
proof -
  have ok: "table_ok t"
    using assms(1) unfolding assms(2)
  proof (induction rule: rtranclp_induct)
    case base
    show ?case by (simp add: table0_ok)
  qed (rule link_step_ok)
  then have n: "neighbors_ok t" by (simp add: table_ok_def)
  then have "set (neighbor_addrs t) \<subseteq> {..<12}" "distinct (neighbor_addrs t)"
    by (auto simp: neighbors_ok_def pool_used_def NEIGHBOR_ATTR_MAX_NEIGHBORS_def)
  then have "length (neighbor_addrs t) \<le> 12" using card_mono [of "{..<12}" "set (neighbor_addrs t)"] by (simp add: distinct_card)
  with n get_metric_Outside(3) [OF ok] show ?thesis by (simp add: neighbors_ok_def)
qed

text \<open>Concrete runs: a neighbour and a table with a lifetime of 12 seconds.\<close>

definition demo_addr :: rimeaddr where "demo_addr = [0, 0, 0, 0, 0, 0, 0, 2]"

definition demo_link :: "unit linkinfo" where
  "demo_link = neighbor_info_packet_sent (\<lambda>t a e n. n) demo_addr MAC_TX_OK 1
     (snd (neighbor_info_subscribe \<lparr>li_table = neighbor_attr_set_timeout 12 ntable0, li_subscribed = False, li_upper = ()\<rparr>))"

lemma demo_link_run:
  "(link_step (\<lambda>t a e n. n))\<^sup>*\<^sup>* \<lparr>li_table = ntable0, li_subscribed = False, li_upper = ()\<rparr> demo_link"
proof -
  let ?s = "\<lparr>li_table = ntable0, li_subscribed = False, li_upper = ()\<rparr>"
  let ?s1 = "\<lparr>li_table = neighbor_attr_set_timeout 12 ntable0, li_subscribed = False, li_upper = ()\<rparr>"
  let ?cb = "\<lambda>t a e n. n :: unit"
  have "link_step ?cb ?s (?s\<lparr>li_table := neighbor_attr_set_timeout 12 (li_table ?s)\<rparr>)" by (rule lifetime)
  then have 1: "link_step ?cb ?s ?s1" by simp
  have 2: "link_step ?cb ?s1 (snd (neighbor_info_subscribe ?s1))" by (rule subscribed)
  have 3: "link_step ?cb (snd (neighbor_info_subscribe ?s1)) demo_link" unfolding demo_link_def by (rule sent) simp_all
  have "(link_step ?cb)\<^sup>*\<^sup>* ?s ?s1" using 1 by (rule r_into_rtranclp)
  from this 2 have "(link_step ?cb)\<^sup>*\<^sup>* ?s (snd (neighbor_info_subscribe ?s1))" by (rule rtranclp.rtrancl_into_rtrancl)
  from this 3 show ?thesis by (rule rtranclp.rtrancl_into_rtrancl)
qed

lemma demo_table_ok: "table_ok (li_table demo_link)"
proof -
  have "(link_step (\<lambda>t a e n. n))\<^sup>*\<^sup>* s s' \<Longrightarrow> table_ok (li_table s) \<Longrightarrow> table_ok (li_table s')" for s s' :: "unit linkinfo"
    by (induction rule: rtranclp_induct) (auto intro: link_step_ok)
  from this [OF demo_link_run] show ?thesis by (simp add: table0_ok)
qed

theorem reachable_link_metrics_witness:
  "metric_range (neighbor_info_get_metric (Outside demo_addr) (li_table demo_link)) \<and> length (neighbor_addrs (li_table demo_link)) \<le> 12"
  using reachable_link_metrics [OF demo_link_run refl, of demo_addr] by blast

theorem silent_neighbor_dropped_witness:
  "neighbor_attr_has_neighbor (Outside demo_addr) ((timeout_check ^^ 2) (li_table demo_link))
   \<and> \<not> neighbor_attr_has_neighbor (Outside demo_addr) ((timeout_check ^^ 3) (li_table demo_link))"
proof -
  have a: "neighbor_addr_get (Outside demo_addr) (li_table demo_link) = Some 0" "l_time (na_mem (li_table demo_link) ! 0) = 0"
    "na_timeout (li_table demo_link) = 12" by code_simp+
  show ?thesis
    using silent_neighbor_dropped [OF demo_table_ok a(1,2), of 2] silent_neighbor_dropped [OF demo_table_ok a(1,2), of 3] a(3)
    by simp
qed

section \<open>The average lags behind\<close>

lemma packet_ok_known:
  assumes "table_ok (li_table s)" "neighbor_addr_get (Outside a) (li_table s) = Some i" "a \<noteq> rimeaddr_null"
  shows "neighbor_info_packet_sent cb a MAC_TX_OK k s = update_metric cb (Outside a) (ucast k) s"
  using assms by (simp add: neighbor_info_packet_sent_def add_neighbor_def neighbor_attr_add_neighbor_def neighbor_attr_has_neighbor_def)

text \<open>One packet of the average as an arithmetic step, and what it does to its distance from the
  value \<open>16 n\<close> of a link with \<open>n\<close> transmissions for each packet: from below it climbs by at
  least 1 until it is 9 short, within 9 it stands still, from above it falls by at least 1
  until it is exact.\<close>

lemma average_step:
  fixes x y t :: nat
  assumes y: "y = (90 * x + 10 * t) div 100"
  shows "x + 9 \<le> t \<Longrightarrow> y + 9 \<le> t" "x + 9 < t \<Longrightarrow> x + 1 \<le> y" "x + 9 = t \<Longrightarrow> y = x"
    "x \<le> t \<Longrightarrow> t < x + 10 \<Longrightarrow> y = x" "t \<le> x \<Longrightarrow> t \<le> y" "t < x \<Longrightarrow> y + 1 \<le> x"
  unfolding y by linarith+

definition average_at :: "nat \<Rightarrow> nat \<Rightarrow> nat \<Rightarrow> nat \<Rightarrow> bool" where
  "average_at t x0 j x \<longleftrightarrow>
     (if x0 + 9 \<le> t then x + 9 \<le> t \<and> (x0 + j \<le> x \<or> x + 9 = t)
      else if x0 \<le> t then x = x0
      else t \<le> x \<and> x \<le> x0 \<and> (x + j \<le> x0 \<or> x = t))"

lemma average_at_step:
  assumes "average_at t x0 j x" and y: "y = (90 * x + 10 * t) div 100"
  shows "average_at t x0 (Suc j) y"
proof -
  note s = average_step [OF y]
  consider "x0 + 9 \<le> t" | "x0 \<le> t" "t < x0 + 9" | "t < x0" by linarith
  then show ?thesis
  proof cases
    case 1
    with assms(1) have x: "x + 9 \<le> t" "x0 + j \<le> x \<or> x + 9 = t" by (simp_all add: average_at_def)
    have "x0 + Suc j \<le> y \<or> y + 9 = t"
    proof (cases "x + 9 = t")
      case True
      with s(3) show ?thesis by simp
    next
      case False
      with x s(2) show ?thesis by simp
    qed
    with 1 s(1) [OF x(1)] show ?thesis by (simp add: average_at_def)
  next
    case 2
    with assms(1) have "x = x0" by (simp add: average_at_def)
    with 2 s(4) show ?thesis by (simp add: average_at_def)
  next
    case 3
    with assms(1) have x: "t \<le> x" "x \<le> x0" "x + j \<le> x0 \<or> x = t" by (simp_all add: average_at_def)
    have "t \<le> y \<and> y \<le> x0 \<and> (y + Suc j \<le> x0 \<or> y = t)"
    proof (cases "x = t")
      case True
      then have "y = t" using s(4) by simp
      with True x show ?thesis by simp
    next
      case False
      with x s(5,6) show ?thesis by simp
    qed
    with 3 show ?thesis by (simp add: average_at_def)
  qed
qed

text \<open>C33: The metric of a link on which every packet takes \<open>n\<close> transmissions, from any measured
  start \<open>m0\<close>, which is at least 16, the ETX 1. Its true value is \<open>16 n\<close>. Coming from 9 or
  more below, the metric never gets nearer than 9, and has got there after 240 packets: for
  two transmissions per packet the code reports 1.4. From less than 9 below, or from the value itself, it does not move at all.
  Coming from above, it stays between the value and the start, and is exact after 240 packets.\<close>

theorem link_metric_lags:
  assumes ok: "table_ok (li_table s)" and a: "neighbor_addr_get (Outside a) (li_table s) = Some i" "a \<noteq> rimeaddr_null"
    and n: "1 \<le> unat n" "unat n \<le> 15"
    and r: "m0 = unat (neighbor_info_get_metric (Outside a) (li_table s))" "16 \<le> m0"
    and m: "m = unat (neighbor_info_get_metric (Outside a) (li_table ((neighbor_info_packet_sent cb a MAC_TX_OK n ^^ k) s)))"
  shows "if m0 + 9 \<le> 16 * unat n then m + 9 \<le> 16 * unat n \<and> (240 \<le> k \<longrightarrow> m + 9 = 16 * unat n)
    else if m0 \<le> 16 * unat n then m = m0
    else 16 * unat n \<le> m \<and> m \<le> m0 \<and> (240 \<le> k \<longrightarrow> m = 16 * unat n)"
proof -
  have un: "unat (ucast n :: 8 word) = unat n" using n by (simp add: unsigned_ucast_eq take_bit_eq_mod)
  define M where "M j = neighbor_info_get_metric (Outside a) (li_table ((neighbor_info_packet_sent cb a MAC_TX_OK n ^^ j) s))" for j
  have run: "table_ok (li_table ((neighbor_info_packet_sent cb a MAC_TX_OK n ^^ j) s))
    \<and> neighbor_addr_get (Outside a) (li_table ((neighbor_info_packet_sent cb a MAC_TX_OK n ^^ j) s)) = Some i
    \<and> M j \<noteq> 0 \<and> average_at (16 * unat n) m0 j (unat (M j))" for j
  proof (induction j)
    case 0
    have "M 0 \<noteq> 0" using r by (auto simp: M_def)
    then show ?case using ok a r by (simp add: M_def average_at_def)
  next
    case (Suc j)
    define u where "u = (neighbor_info_packet_sent cb a MAC_TX_OK n ^^ j) s"
    have u: "table_ok (li_table u)" "neighbor_addr_get (Outside a) (li_table u) = Some i"
      and Mj: "M j = neighbor_info_get_metric (Outside a) (li_table u)" using Suc by (simp_all add: u_def M_def)
    have step: "(neighbor_info_packet_sent cb a MAC_TX_OK n ^^ Suc j) s = update_metric cb (Outside a) (ucast n) u"
      using packet_ok_known [OF u a(2)] by (simp add: u_def)
    have k: "1 \<le> unat (ucast n :: 8 word)" "unat (ucast n :: 8 word) \<le> 15" using un n by simp_all
    note up = update_metric_known [OF u k refl refl, where cb = cb, folded step]
    have new: "M (Suc j) = next_metric (M j) (ucast n)" unfolding M_def [of "Suc j"] using up(3) [of a] Mj by simp
    have val: "unat (M (Suc j)) = (90 * unat (M j) + 10 * (16 * unat n)) div 100"
      using next_metric_unat [OF k(2), of "M j"] Suc un new by simp
    have at: "average_at (16 * unat n) m0 (Suc j) (unat (M (Suc j)))"
      using average_at_step [OF _ val] Suc by blast
    have "M (Suc j) \<noteq> 0"
      using at n r(2) by (auto simp: average_at_def split: if_splits)
    with at up(1,2) u(2) show ?case by simp
  qed
  have at: "average_at (16 * unat n) m0 k m" using run [of k] m by (simp add: M_def)
  have lt: "m < 256" "m0 < 256" using m r(1) by (simp_all add: u8_less_256)
  show ?thesis
  proof (cases "240 \<le> k")
    case True
    with at lt r(2) n show ?thesis by (auto simp: average_at_def)
  next
    case False
    with at show ?thesis by (auto simp: average_at_def)
  qed
qed

text \<open>From ETX 1 to two transmissions per packet the metric ends at 23; with one it stays exact.\<close>

theorem link_metric_lags_witness:
  "unat (neighbor_info_get_metric (Outside demo_addr)
     (li_table ((neighbor_info_packet_sent (\<lambda>t a e n. n) demo_addr MAC_TX_OK 2 ^^ 240) demo_link))) = 23
   \<and> neighbor_info_get_metric (Outside demo_addr)
     (li_table ((neighbor_info_packet_sent (\<lambda>t a e n. n) demo_addr MAC_TX_OK 1 ^^ 7) demo_link)) = 16"
proof -
  have a: "neighbor_addr_get (Outside demo_addr) (li_table demo_link) = Some 0" "demo_addr \<noteq> rimeaddr_null"
    "neighbor_info_get_metric (Outside demo_addr) (li_table demo_link) = 16" by code_simp+
  note l = link_metric_lags [OF demo_table_ok a(1,2) _ _ refl _ refl, where cb = "\<lambda>t a e n. n"]
  from l [of 2 240] l [of 1 7] a(3) show ?thesis by (simp add: word_unat_eq_iff)
qed

end
