(* ===== verification/Net_Link_Rpl.thy ===== *)
theory Net_Link_Rpl
  imports Net_Neighbor_Laws Rpl_Dag
begin

text \<open>
  The link metric as RPL sees it: \<open>rpl_link_neighbor_callback\<close> is the subscriber, and
  \<open>neighbor_info_get_metric\<close> is the function \<open>ni_metric\<close> of the node.
\<close>

definition node_metric :: "ntable \<Rightarrow> node \<Rightarrow> node" where
  "node_metric t n = n\<lparr>ni_metric := (\<lambda>a. neighbor_info_get_metric (Outside a) t)\<rparr>"

text \<open>The code always passes 1 for \<open>known\<close>.\<close>

definition rpl_subscriber :: "ntable \<Rightarrow> bytes \<Rightarrow> u8 \<Rightarrow> node \<Rightarrow> node" where
  "rpl_subscriber t a e n = rpl_link_neighbor_callback a True e (node_metric t n)"

definition link_local :: "bytes \<Rightarrow> ipaddr" where
  "link_local a = uip_ds6_set_addr_iid (uip_ip6addr [0xfe80, 0, 0, 0, 0, 0, 0, 0]) a"

section \<open>The loop over the DAGs\<close>

definition same_dags :: "node \<Rightarrow> node \<Rightarrow> bool" where
  "same_dags s s' \<longleftrightarrow> dag_table s' = dag_table s \<and> dag_p2p_table s' = dag_p2p_table s
     \<and> length (parent_mem s') = length (parent_mem s) \<and> ni_metric s' = ni_metric s \<and> (\<forall>p. p_addr (PAR s' p) = p_addr (PAR s p))"

lemma link_neighbor_dag_same: "same_dags s (link_neighbor_dag ip True e d s)"
proof -
  have r: "same_dags s s" and f: "same_dags t (set_fault t)" for t
    by (simp_all add: same_dags_def set_fault_def PAR_def)
  have u: "same_dags s (upd_par q (\<lambda>P. P\<lparr>p_updated := True, p_link_metric := e\<rparr>) s)" for q
  proof -
    have "p_addr (PAR (upd_par q (\<lambda>P. P\<lparr>p_updated := True, p_link_metric := e\<rparr>) s) p) = p_addr (PAR s p)" for p
      by (cases "p = q"; cases "q < length (parent_mem s)") (simp_all add: PAR_def upd_par_def updf_def list_update_beyond)
    then show ?thesis by (simp add: same_dags_def) (simp add: upd_par_def)
  qed
  have c: "same_dags s (chk_of d t)" if "same_dags s t" for t
    using that f [of t] by (simp add: chk_of_def same_dags_def)
  show ?thesis
    by (simp add: link_neighbor_dag_def Let_def etx_parent_state_callback_def r f u c split: option.split)
qed

lemma same_dags_find: "same_dags s s' \<Longrightarrow> rpl_find_parent d ip s' = rpl_find_parent d ip s"
  by (simp add: same_dags_def rpl_find_parent_def DAG_def)

text \<open>A parent that has the new metric keeps it.\<close>

lemma link_neighbor_dag_keeps:
  assumes "p_link_metric (PAR s p) = e \<and> p_updated (PAR s p)"
  shows "p_link_metric (PAR (link_neighbor_dag ip True e d s) p) = e \<and> p_updated (PAR (link_neighbor_dag ip True e d s) p)"
proof -
  have "p_link_metric (PAR (upd_par q (\<lambda>P. P\<lparr>p_updated := True, p_link_metric := e\<rparr>) s) p) = e
      \<and> p_updated (PAR (upd_par q (\<lambda>P. P\<lparr>p_updated := True, p_link_metric := e\<rparr>) s) p)" for q
    using assms by (cases "p = q"; cases "q < length (parent_mem s)") (simp_all add: PAR_def upd_par_def updf_def list_update_beyond)
  with assms show ?thesis
    by (auto simp: link_neighbor_dag_def Let_def etx_parent_state_callback_def chk_of_def split: option.split)
qed

text \<open>The DAGs that the loop looks at.\<close>

definition listens :: "nat \<Rightarrow> node \<Rightarrow> bool" where
  "listens d s \<longleftrightarrow> d_joined (DAG s d) \<and> (d_mop (DAG s d) = RPL_MOP_P2P_ROUTE_DISCOVERY \<longrightarrow>
     (case d_p2p (DAG s d) of None \<Rightarrow> False | Some q \<Rightarrow> \<not> q_expired (P2P s q)))"

lemma fold_link_neighbor:
  "same_dags s (fold (link_neighbor_dag ip True e) ds s)
   \<and> (p_link_metric (PAR s p) = e \<and> p_updated (PAR s p) \<or> d \<in> set ds \<and> listens d s \<and> rpl_find_parent d ip s = Some p \<and> p < length (parent_mem s)
      \<longrightarrow> p_link_metric (PAR (fold (link_neighbor_dag ip True e) ds s) p) = e \<and> p_updated (PAR (fold (link_neighbor_dag ip True e) ds s) p))"
proof (induction ds arbitrary: s)
  case Nil
  show ?case by (simp add: same_dags_def)
next
  case (Cons x ds)
  let ?s = "link_neighbor_dag ip True e x s"
  have same: "same_dags s ?s" by (rule link_neighbor_dag_same)
  have trans: "same_dags s t" if "same_dags ?s t" for t using same that by (simp add: same_dags_def)
  have l: "listens d ?s = listens d s" "length (parent_mem ?s) = length (parent_mem s)"
    using same by (simp_all add: same_dags_def listens_def DAG_def P2P_def split: option.split)
  have hit: "p_link_metric (PAR ?s p) = e \<and> p_updated (PAR ?s p)"
    if "x = d" "listens d s" "rpl_find_parent d ip s = Some p" "p < length (parent_mem s)"
    using that by (auto simp: listens_def link_neighbor_dag_def Let_def etx_parent_state_callback_def chk_of_def
      split: option.splits)
  show ?case
    using Cons.IH [of ?s] trans hit link_neighbor_dag_keeps [of s p e ip x] same_dags_find [OF same, of d ip] l by auto
qed

section \<open>Feedback to RPL\<close>

text \<open>C32: A delivered packet updates RPL's view of the link. When the metric of a known
  neighbour changes, every parent with the link-local address of the neighbour gets the new
  metric and is marked for the recalculation of ranks, and the node reads the same value from
  the table.\<close>

theorem transmission_updates_parent:
  assumes ok: "table_ok (li_table s)" "li_subscribed s" and a: "neighbor_addr_get (Outside a) (li_table s) = Some i" "a \<noteq> rimeaddr_null"
    and k: "1 \<le> unat k" "unat k \<le> 15"
    and v: "v = neighbor_info_get_metric (Outside a) (li_table s)" "e = next_metric v (ucast k)" "e \<noteq> (if v = 0 then 240 else v)"
    and d: "d < RPL_MAX_DAG_ENTRIES" "listens d (li_upper s)" "rpl_find_parent d (link_local a) (li_upper s) = Some p"
      "p < length (parent_mem (li_upper s))"
    and s': "s' = neighbor_info_packet_sent rpl_subscriber a MAC_TX_OK k s"
  shows "p_link_metric (PAR (li_upper s') p) = e \<and> p_updated (PAR (li_upper s') p)
    \<and> ni_metric (li_upper s') a = e \<and> neighbor_info_get_metric (Outside a) (li_table s') = e"
proof -
  have un: "unat (ucast k :: 8 word) = unat k" using k by (simp add: unsigned_ucast_eq take_bit_eq_mod)
  have k': "1 \<le> unat (ucast k :: 8 word)" "unat (ucast k :: 8 word) \<le> 15" using un k by simp_all
  have upd: "s' = update_metric rpl_subscriber (Outside a) (ucast k) s"
    unfolding s' by (rule packet_ok_known [OF ok(1) a])
  note u = update_metric_known [OF ok(1) a(1) k' v(1) upd]
  have m: "neighbor_info_get_metric (Outside a) (li_table s') = e" using u(3) [of a] v(2) by simp
  define n where "n = node_metric (li_table s') (li_upper s)"
  have n: "li_upper s' = fold (link_neighbor_dag (link_local a) True e) [0..<RPL_MAX_DAG_ENTRIES] n"
    using u(5) ok(2) v(2,3) by (simp add: rpl_subscriber_def rpl_link_neighbor_callback_def link_local_def n_def)
  have nd: "listens d n" "rpl_find_parent d (link_local a) n = Some p" "p < length (parent_mem n)" "ni_metric n a = e"
    using d(2-4) m by (simp_all add: n_def node_metric_def listens_def rpl_find_parent_def DAG_def P2P_def PAR_def
      split: option.splits)
  show ?thesis
    using fold_link_neighbor [of n "link_local a" e "[0..<RPL_MAX_DAG_ENTRIES]" p d] nd d(1) m n by (simp add: same_dags_def)
qed

text \<open>A node in a DAG with one parent, the neighbour of the concrete table.\<close>

definition demo_rpl :: "node linkinfo" where
  "demo_rpl = \<lparr>li_table = li_table demo_link, li_subscribed = True,
     li_upper = (node0 demo_addr)
       \<lparr>dag_table := [dag0\<lparr>d_used := True, d_joined := True, d_of := Some Rpl_of_etx, d_parents := [0]\<rparr>, dag0],
         parent_mem := [parent0\<lparr>p_addr := link_local demo_addr\<rparr>]\<rparr>\<rparr>"

theorem transmission_updates_parent_witness:
  "p_link_metric (PAR (li_upper (neighbor_info_packet_sent rpl_subscriber demo_addr MAC_TX_OK 4 demo_rpl)) 0) = 20"
proof -
  have t: "table_ok (li_table demo_rpl)" "li_subscribed demo_rpl" using demo_table_ok by (simp_all add: demo_rpl_def)
  have a: "neighbor_addr_get (Outside demo_addr) (li_table demo_link) = Some 0" "demo_addr \<noteq> rimeaddr_null"
    "neighbor_info_get_metric (Outside demo_addr) (li_table demo_link) = 16" "next_metric 16 (ucast (4 :: 16 word)) = 20" by code_simp+
  have b: "listens 0 (li_upper demo_rpl)" "rpl_find_parent 0 (link_local demo_addr) (li_upper demo_rpl) = Some 0"
    "0 < length (parent_mem (li_upper demo_rpl))"
    by (simp_all add: demo_rpl_def listens_def DAG_def PAR_def rpl_find_parent_def uip_ipaddr_cmp_def dag0_def RPL_MOP_P2P_ROUTE_DISCOVERY_def)
  have c: "neighbor_addr_get (Outside demo_addr) (li_table demo_rpl) = Some 0"
    "neighbor_info_get_metric (Outside demo_addr) (li_table demo_rpl) = 16" using a by (simp_all add: demo_rpl_def)
  show ?thesis
    using transmission_updates_parent [OF t c(1) a(2) _ _ refl refl _ _ b refl, of 4] a(4)
    by (simp add: c(2) RPL_MAX_DAG_ENTRIES_def)
qed

end
