(* ===== verification/Rpl_Node_Safety.thy ===== *)
theory Rpl_Node_Safety
  imports Rpl_Src_Safety
begin

text \<open>
  The three invariants together, through every entry point of the RPL code: received
  packets, timers, calls from the neighbour cache, from the link layer and from the
  application.
\<close>

section \<open>The table of source routes\<close>

definition src_wf :: "'z ds6_scheme \<Rightarrow> bool" where
  "src_wf s \<longleftrightarrow> src_inv s \<and> src_uniq s \<and> length (src_addr_cnt s) = UIP_DS6_SRC_ROUTE_ADDR_NB"

lemma src_wf_srv:
  assumes "srv s = srv t"
  shows "src_wf s = src_wf t"
proof -
  let ?e = "\<lambda>r. r\<lparr>s_state := route_state0\<rparr>"
  have t: "map ?e (src_routing_table s) = map ?e (src_routing_table t)"
    and c: "src_addr_cnt s = src_addr_cnt t" "src_addr_mem s = src_addr_mem t"
    using assms by (simp_all add: srv_def)
  have l: "length (src_routing_table s) = length (src_routing_table t)" using t by (rule map_eq_imp_length_eq)
  have n: "?e (src_routing_table s ! i) = ?e (src_routing_table t ! i)" if "i < length (src_routing_table t)" for i
    using t l that by (metis nth_map)
  have f: "s_isused (src_routing_table s ! i) = s_isused (src_routing_table t ! i)"
    "s_addr_list (src_routing_table s ! i) = s_addr_list (src_routing_table t ! i)"
    "s_ipaddr (src_routing_table s ! i) = s_ipaddr (src_routing_table t ! i)"
    if "i < length (src_routing_table t)" for i
    using n [OF that] by (cases "src_routing_table s ! i"; cases "src_routing_table t ! i"; simp)+
  have "map s_addr_list (src_routing_table s) = map s_addr_list (src_routing_table t)"
    by (rule nth_equalityI) (use l f in auto)
  moreover have "(\<forall>r \<in> set (src_routing_table s). \<not> s_isused r \<longrightarrow> s_addr_list r = [])
      = (\<forall>r \<in> set (src_routing_table t). \<not> s_isused r \<longrightarrow> s_addr_list r = [])"
    by (simp add: all_set_conv_all_nth l f)
  moreover have "src_uniq s = src_uniq t" unfolding uniq_def l by (auto simp: f)
  ultimately show ?thesis by (simp add: src_wf_def src_inv_def c del: set_concat)
qed

lemma src_rm_wf: "src_wf s \<Longrightarrow> src_wf (uip_ds6_src_route_rm r s)"
  by (simp add: src_wf_def src_route_rm_inv src_rm_uniq)

lemma src_add_wf:
  assumes "src_wf s" "uip_ds6_src_route_add ip s = (Some r, s')"
  shows "src_wf s'" "r < length (src_routing_table s')" "s_isused (src_routing_table s' ! r)"
  using assms src_route_add_Some [of s ip r s'] src_route_add_uniq [of s ip r s'] src_cnt_add [of ip s "Some r" s']
  by (simp_all add: src_wf_def)

lemma src_hop_wf:
  assumes "src_wf s" "r < length (src_routing_table s)" "s_isused (src_routing_table s ! r)"
    "uip_ds6_src_route_hop_add r h b s = (Some a, s')"
  shows "src_wf s'" "r < length (src_routing_table s')" "s_isused (src_routing_table s' ! r)"
  using assms src_hop_add_Some [of s r h b a s'] src_keys_cong [OF src_keys_hop_add [OF assms(4)]]
    src_cnt_hop_add [OF assms(4)] by (simp_all add: src_wf_def)

lemma add_src_route_wf:
  assumes "src_wf s" "unat compr < 16"
  shows "src_wf (snd (rpl_p2p_add_src_route dest addrs n compr rv s))"
  using add_src_route_result [of s compr dest addrs n rv] assms
  by (cases "rpl_p2p_add_src_route dest addrs n compr rv s") (simp add: src_wf_def)

lemma purge_src_wf: "src_wf s \<Longrightarrow> src_wf (purge_src_route i s)"
proof -
  assume w: "src_wf s"
  have k: "src_keys (s\<lparr>src_routing_table := updf i (\<lambda>r. r\<lparr>s_state := (s_state r)\<lparr>e_lifetime := l\<rparr>\<rparr>) (src_routing_table s)\<rparr>)
     = src_keys s" for l by (simp add: src_keys_def map_updf_same)
  have "src_uniq (purge_src_route i s)"
    using w src_rm_uniq [of s i] src_keys_cong(4) [OF k] by (simp add: purge_src_route_def Let_def src_wf_def updf_def)
  moreover have "length (src_addr_cnt (purge_src_route i s)) = length (src_addr_cnt s)"
    by (simp add: purge_src_route_def Let_def)
  ultimately show ?thesis using w purge_src_inv [of s i] by (simp add: src_wf_def)
qed

lemma purge_routes_wf: "src_wf s \<Longrightarrow> src_wf (rpl_purge_routes s)"
proof -
  have "src_wf s \<Longrightarrow> src_wf (fold purge_src_route is s)" for "is" s
    by (induction "is" arbitrary: s) (simp_all add: purge_src_wf)
  then show "src_wf s \<Longrightarrow> src_wf (rpl_purge_routes s)"
    using src_wf_srv [of "s\<lparr>routing_table := map purge_route (routing_table s)\<rparr>" s] by (simp add: rpl_purge_routes_def)
qed

lemma backward_hops_wf:
  "src_wf s \<Longrightarrow> r < length (src_routing_table s) \<Longrightarrow> s_isused (src_routing_table s ! r)
     \<Longrightarrow> backward_hops r a c as s = (b, s')
     \<Longrightarrow> src_wf s' \<and> (b \<longrightarrow> r < length (src_routing_table s') \<and> s_isused (src_routing_table s' ! r))"
proof (induction as arbitrary: s)
  case (Cons x xs)
  let ?h = "uip_create_linklocal_prefix (decompress a c (p2p_addr_mem s ! x))"
  obtain y t where h: "uip_ds6_src_route_hop_add r ?h True s = (y, t)" by (rule prod.exhaust)
  show ?case
  proof (cases y)
    case None
    with src_hop_add_None [of r ?h True s t] h Cons.prems src_rm_wf [of s r] show ?thesis by auto
  next
    case (Some blk)
    note w = src_hop_wf [OF Cons.prems(1-3) h [unfolded Some]]
    from Cons.IH [OF w] Cons.prems(4) h Some show ?thesis by simp
  qed
qed simp

lemma set_src_lifetime_wf: "src_wf s \<Longrightarrow> src_wf (set_src_lifetime r l s)"
  using src_keys_cong(4) [OF src_keys_lifetime [of r l s]] by (simp add: src_wf_def)

lemma store_backward_wf:
  assumes "src_wf s"
  shows "src_wf (store_backward_route d q as s)"
proof -
  obtain x s1 where a: "uip_ds6_src_route_add (d_dag_id (DAG s d)) s = (x, s1)" by (rule prod.exhaust)
  show ?thesis
  proof (cases x)
    case None
    with a src_route_add_frame(1) [of "d_dag_id (DAG s d)" s s1] assms show ?thesis
      by (simp add: store_backward_route_def Let_def)
  next
    case (Some r)
    note w1 = src_add_wf [OF assms a [unfolded Some]]
    define s2 where "s2 = set_src_lifetime r (ucast (ucast (cf_default_lifetime (d_config (DAG s d))) * cf_lifetime_unit (d_config (DAG s d)))) s1"
    have w2: "src_wf s2" "r < length (src_routing_table s2)" "s_isused (src_routing_table s2 ! r)"
      using w1 by (simp_all add: s2_def set_src_lifetime_wf)
    obtain b s3 where h: "backward_hops r (d_dag_id (DAG s d)) (q_compr (P2P s2 q)) as s2 = (b, s3)" by (rule prod.exhaust)
    note w3 = backward_hops_wf [OF w2 h]
    obtain y s4 where g: "uip_ds6_src_route_hop_add r (uip_create_linklocal_prefix (take 16 (d_dag_id (DAG s d)))) False s3 = (y, s4)"
      by (rule prod.exhaust)
    have w4: "b \<Longrightarrow> src_wf (case y of None \<Rightarrow> uip_ds6_src_route_rm r s4 | Some _ \<Rightarrow> s4)"
      using src_hop_add_None [of r _ False s3 s4] src_rm_wf [of s3 r] g w3
        src_hop_wf(1) [of s3 r _ False _ s4] by (cases y) auto
    show ?thesis
      using w3 w4 a h g unfolding s2_def
      by (cases b; cases y) (simp_all add: store_backward_route_def Let_def Some)
  qed
qed

lemma send_dro_wf: "src_wf (snd js) \<Longrightarrow> src_wf (snd (send_dro d q i js))"
proof -
  assume w: "src_wf (snd js)"
  have o: "src_wf (dro_output d as s) = src_wf s" for as s by (rule src_wf_srv) simp
  show ?thesis using w store_backward_wf [of "snd js"] by (cases js) (simp add: send_dro_def Let_def o)
qed

lemma src_wf_fault [simp]: "src_wf (set_fault (s :: node)) = src_wf s"
  by (rule src_wf_srv) simp

lemma src_wf_emit [simp]: "src_wf (emit m (s :: node)) = src_wf s"
  by (rule src_wf_srv) simp

lemma send_dros_wf: "src_wf s \<Longrightarrow> src_wf (send_dros d s)"
proof -
  have "src_wf (snd js) \<Longrightarrow> src_wf (snd (fold (send_dro d q) is js))" for q "is" js
    by (induction "is" arbitrary: js) (simp_all add: send_dro_wf)
  then show "src_wf s \<Longrightarrow> src_wf (send_dros d s)"
    by (simp add: send_dros_def with_p2p_def split: option.split)
qed

section \<open>Frames of the DIO processing\<close>

lemma srv_join_p2p: "srv (snd (join_p2p d dio s)) = srv s"
proof (cases "o_rdo dio")
  case (Some rdo)
  define s1 where "s1 = (if 0 < rd_max_rank rdo then chk_rank d s else s)"
  obtain z s2 where pa: "rpl_p2p_alloc_dag d s1 = (z, s2)" by (rule prod.exhaust)
  have "srv s2 = srv s" using pa by (simp add: s1_def)
  moreover have "srv s1 = srv s" by (simp add: s1_def)
  ultimately show ?thesis
    by (simp add: join_p2p_def Some Let_def s1_def [symmetric] pa split: option.split)
qed (simp add: join_p2p_def)

lemma srv_alloc_dag: "rpl_alloc_dag i s = (r, s') \<Longrightarrow> srv s' = srv s"
  by (auto simp: rpl_alloc_dag_def split: option.splits)

lemma srv_join_dag [simp]: "srv (join_dag a dio s) = srv s"
proof -
  obtain q s1 where al: "rpl_alloc_dag (o_instance_id dio) s = (q, s1)" by (rule prod.exhaust)
  note w1 = srv_alloc_dag [OF al]
  show ?thesis
  proof (cases q)
    case None
    with al w1 show ?thesis by (simp add: join_dag_def)
  next
    case q: (Some d)
    obtain r s2 where ap: "rpl_add_parent d dio a s1 = (r, s2)" by (rule prod.exhaust)
    have w2: "srv s2 = srv s" using w1 ap by simp
    show ?thesis
    proof (cases r)
      case None
      with al q ap w2 show ?thesis by (simp add: join_dag_def)
    next
      case r: (Some p)
      let ?c = "case o_dodag_config dio of None \<Rightarrow> DEFAULT_DODAG_CONFIG | Some c \<Rightarrow> c"
      obtain b s3 where cf: "rpl_set_dodag_config d ?c s2 = (b, s3)" by (rule prod.exhaust)
      have w3: "srv s3 = srv s" using cf w2 by simp
      have "srv (join_dag a dio s) = srv s3"
        unfolding join_dag_def al q ap r cf prod.case option.case Let_def
        by (cases b) (simp_all only: bool.case split_beta, simp_all add: srv_join_p2p)
      with w3 show ?thesis by simp
    qed
  qed
qed

lemma srv_parent_event: "srv (snd (rpl_process_parent_event d p s)) = srv s"
  by (rule frame_parent_event)

lemma srv_process_candidate [simp]: "srv (process_candidate d p dio s) = srv s"
proof -
  define s2 where "s2 = upd_par p (\<lambda>P. P\<lparr>p_mc := o_mc dio, p_rank := o_rank dio\<rparr>)
    (if o_mop dio = RPL_MOP_P2P_ROUTE_DISCOVERY then chk_of d (keep_two_parents d p s) else s)"
  obtain b s3 where e: "rpl_process_parent_event d p s2 = (b, s3)" by (rule prod.exhaust)
  have "srv s3 = srv s" using e by (simp add: s2_def)
  then show ?thesis
    using e by (simp add: process_candidate_def Let_def s2_def [symmetric] split: bool.split option.split)
qed

lemma srv_find_candidate: "find_candidate d a dio s = (r, s') \<Longrightarrow> srv s' = srv s"
  by (auto simp: find_candidate_def Let_def split: option.splits if_splits)

lemma srv_process_sender [simp]: "srv (process_sender d a dio s) = srv s"
  by (auto simp: process_sender_def split: prod.split option.split dest: srv_find_candidate)

lemma srv_same_version [simp]: "srv (process_same_version d a dio s) = srv s"
proof -
  have "srv (with_p2p d (\<lambda>q s.
             if q_expired (P2P s q) then s
             else (case o_rdo dio of
                     None \<Rightarrow> set_fault s
                   | Some rdo \<Rightarrow>
                       (let s = (if 0 < rd_max_rank rdo then chk_rank d s else s) in
                        if 0 < rd_max_rank rdo \<and> ucast (rd_max_rank rdo) < DAG_RANK (o_rank dio) (DAG s d)
                        then s else process_sender d a dio s))) t) = srv t" for t
    by (rule with_p2p_views) (simp_all add: Let_def split: option.split)
  then show ?thesis unfolding process_same_version_def Let_def by simp
qed

lemma srv_process_dio [simp]: "srv (rpl_process_dio a dio s) = srv s"
proof (cases "rpl_get_dag (uint (o_instance_id dio)) (Some (o_dag_id dio)) s")
  case None
  show ?thesis unfolding rpl_process_dio_def None option.case by simp
next
  case (Some d)
  have "srv (rpl_reset_dio_timer d True s) = srv s"
    "srv (rpl_reset_dio_timer d True (upd_dag d (\<lambda>D. D\<lparr>d_version := o_version dio + 1\<rparr>) s)) = srv s"
    "srv (global_repair a d dio s) = srv s" "srv (process_same_version d a dio s) = srv s" by simp_all
  then show ?thesis unfolding rpl_process_dio_def Some option.case by (simp only: split: if_split) blast
qed

lemma srv_discover: "srv (snd (rpl_discover_route target s)) = srv s"
proof -
  define s1 where "s1 = s\<lparr>p2p_instance := (p2p_instance s + 1) mod 0x40\<rparr>"
  define i where "i = RPL_LOCAL_DEFAULT_INSTANCE OR p2p_instance s1"
  define s2 where "s2 = (case rpl_get_dag (uint i) (rpl_get_own_addr True s1) s1 of
                 Some d \<Rightarrow> rpl_free_dag d s1 | None \<Rightarrow> s1)"
  have w2: "srv s2 = srv s" by (simp add: s2_def s1_def split: option.split)
  obtain q s3 where al: "rpl_alloc_dag i s2 = (q, s3)" by (rule prod.exhaust)
  have w3: "srv s3 = srv s" using srv_alloc_dag [OF al] w2 by simp
  show ?thesis
  proof (cases q)
    case None
    with w3 show ?thesis
      by (simp add: rpl_discover_route_def Let_def s1_def [symmetric] i_def [symmetric] s2_def [symmetric] al)
  next
    case (Some d)
    obtain z s4 where pa: "rpl_p2p_alloc_dag d s3 = (z, s4)" by (rule prod.exhaust)
    have "srv s4 = srv s" using pa w3 by simp
    then show ?thesis
      by (simp add: rpl_discover_route_def Let_def s1_def [symmetric] i_def [symmetric] s2_def [symmetric] al Some pa
          split: option.split)
  qed
qed

lemma srv_set_root: "srv (snd (rpl_set_root a s)) = srv s"
proof -
  obtain v s1 where vs: "(case rpl_get_dag (uint RPL_DEFAULT_INSTANCE) None s of
      Some d \<Rightarrow> (d_version (DAG s d), rpl_free_dag d s) | None \<Rightarrow> (- 1, s)) = (v, s1)" by (rule prod.exhaust)
  have w1: "srv s1 = srv s" using vs by (auto split: option.splits)
  obtain q s2 where al: "rpl_alloc_dag RPL_DEFAULT_INSTANCE s1 = (q, s2)" by (rule prod.exhaust)
  from srv_alloc_dag [OF al] w1 show ?thesis
    unfolding rpl_set_root_def vs by (simp add: al Let_def split: option.split)
qed

lemma srv_purge_p2p [simp]: "srv (purge_p2p q s) = srv s"
  by (simp add: purge_p2p_def rpl_p2p_free_dag_def Let_def frame_fold split: option.split)

lemma srv_purge_dags [simp]: "srv (rpl_p2p_purge_dags s) = srv s"
  by (simp add: rpl_p2p_purge_dags_def frame_fold)

end
