(* ===== verification/Rpl_Reach.thy ===== *)
theory Rpl_Reach
  imports Rpl_Node_Safety
begin

text \<open>
  The node as a transition system: its events are the received RPL packets, the expired
  timers, the callbacks from the link layer, the neighbour cache and the IPv6 timer, and
  the calls of the application. The memory invariant holds in every reachable state.
\<close>

section \<open>The invariant of a node\<close>

definition node_wf :: "node \<Rightarrow> bool" where
  "node_wf s \<longleftrightarrow> own_wf (own s) \<and> p2p_wf (p2v s) \<and> src_wf s"

lemma node_wf_frame:
  "own s' = own s \<Longrightarrow> p2v s' = p2v s \<Longrightarrow> srv s' = srv s \<Longrightarrow> node_wf s' = node_wf s"
  using src_wf_srv [of s' s] by (simp add: node_wf_def)

lemma node_wf_simps [simp]:
  "node_wf (emit m s) = node_wf s" "node_wf (set_fault s) = node_wf s"
  "node_wf (s\<lparr>routing_table := a1\<rparr>) = node_wf s" "node_wf (s\<lparr>defrt_list := a2\<rparr>) = node_wf s"
  by (rule node_wf_frame; simp)+

section \<open>Frames of the packet handlers\<close>

text \<open>A view of a branch, for a fixed \<open>v\<close>: what remains is a goal per leaf.\<close>

lemma if_view: "v a = w \<Longrightarrow> v b = w \<Longrightarrow> v (if P then a else b) = w"
  by simp

lemma option_view: "v a = w \<Longrightarrow> (\<And>x. v (f x) = w) \<Longrightarrow> v (case o' of None \<Rightarrow> a | Some x \<Rightarrow> f x) = w"
  by (simp split: option.split)

lemma frame_sender_views:
  assumes "\<And>f s. v (s\<lparr>nbr_cache := f\<rparr>) = v s" "\<And>n s. v (rpl_ipv6_neighbor_callback n s) = v s"
  shows "v (snd (nbr_add_rec k rpl_ipv6_neighbor_callback ip ll r st s)) = v s"
proof (induction k arbitrary: s)
  case (Suc k)
  obtain x o' where l: "uip_ds6_list_loop n_isused n_ipaddr (nbr_cache s) ip 128 = (x, o')" by (rule prod.exhaust)
  have rm: "v (uip_ds6_nbr_rm rpl_ipv6_neighbor_callback j s) = v s" for j
    by (simp add: uip_ds6_nbr_rm_def assms)
  show ?case
  proof (cases x)
    case NOSPACE
    then show ?thesis using l Suc [of "uip_ds6_nbr_rm rpl_ipv6_neighbor_callback j s" for j] rm
      by (cases "oldest_nbr (nbr_cache s) 0 None (clk s)") (simp_all add: Suc rm)
  qed (use l assms in \<open>simp_all add: Let_def split: option.split\<close>)
qed simp

lemma frame_learn_sender [simp]:
  "own (learn_sender k s) = own s" "p2v (learn_sender k s) = p2v s" "srv (learn_sender k s) = srv s"
proof -
  let ?r = "uip_ds6_nbr_add rpl_ipv6_neighbor_callback (k_src k) (Some (k_sender k)) 0 NBR_REACHABLE s"
  have "own (snd ?r) = own s" "p2v (snd ?r) = p2v s" "srv (snd ?r) = srv s"
    unfolding uip_ds6_nbr_add_def by (rule frame_sender_views; simp)+
  then show "own (learn_sender k s) = own s" "p2v (learn_sender k s) = p2v s" "srv (learn_sender k s) = srv s"
    by (simp_all add: learn_sender_def split_beta split: option.split)
qed

lemma frame_dis_input [simp]:
  "own (dis_input k s) = own s" "p2v (dis_input k s) = p2v s" "srv (dis_input k s) = srv s"
  by (simp_all add: dis_input_def split: option.split)

lemma frame_no_path [simp]:
  "own (no_path r s) = own s" "p2v (no_path r s) = p2v s" "srv (no_path r s) = srv s"
  by (simp_all add: no_path_def split: option.split)

lemma frame_dao_route [simp]:
  "own (dao_route d r l k s) = own s" "p2v (dao_route d r l k s) = p2v s" "srv (dao_route d r l k s) = srv s"
  by (simp_all add: dao_route_def Let_def split: option.split)

lemma frame_dao_input_views:
  assumes "\<And>s. v (set_fault s) = v s" "\<And>r s. v (no_path r s) = v s" "\<And>d a s. v (chk_dao_loop d a s) = v s"
    "\<And>p s. v (upd_par p (\<lambda>P. P\<lparr>p_rank := INFINITE_RANK, p_updated := True\<rparr>) s) = v s"
    "\<And>d p n h s. v (snd (rpl_add_route d p n h s)) = v s" "\<And>d r l s. v (dao_route d r l k s) = v s"
  shows "v (dao_input k s) = v s"
proof (cases "rpl_get_dag (uint (k_buf k 0)) None s")
  case None
  then show ?thesis by (simp add: dao_input_def)
next
  case (Some d)
  define y where "y = parse_dao_options (k_buf k) (unat (k_len k)) (if k_buf k 1 AND 0x40 \<noteq> 0 then 20 else 4)
    \<lparr>y_prefix = None, y_prefixlen = 0, y_lifetime = cf_default_lifetime (d_config (DAG s d)), y_overflow = False\<rparr>"
  define s1 where "s1 = (if y_overflow y \<or> y_prefix y = None then set_fault s else s)"
  define pf where "pf = (case y_prefix y of Some a \<Rightarrow> take 16 a | None \<Rightarrow> replicate 16 0)"
  define s2 where "s2 = chk_dao_loop d (k_src k) s1"
  have v: "v s1 = v s" "v s2 = v s" by (simp_all add: s1_def s2_def assms)
  obtain x s3 where a: "rpl_add_route (Some d) pf (y_prefixlen y) (k_src k) s2 = (x, s3)" by (rule prod.exhaust)
  have "v s3 = v s" using assms(5) [of "Some d" pf "y_prefixlen y" "k_src k" s2] a v by simp
  with v show ?thesis
    unfolding dao_input_def Let_def Some option.case y_def [symmetric] s1_def [symmetric] pf_def [symmetric] s2_def [symmetric]
    by (simp add: assms a split: option.split)
qed

lemma frame_dao_input [simp]:
  "own (dao_input k s) = own s" "p2v (dao_input k s) = p2v s" "srv (dao_input k s) = srv s"
  by (rule frame_dao_input_views; simp add: frame_add_route)+

lemma frame_dro_ack [simp]:
  "own (dro_ack_input k s) = own s" "p2v (dro_ack_input k s) = p2v s" "srv (dro_ack_input k s) = srv s"
  by (simp_all add: dro_ack_input_def Let_def split: option.split)

lemma frame_dro_stop [simp]:
  "own (dro_stop b s) = own s" "p2v (dro_stop b s) = p2v s" "srv (dro_stop b s) = srv s"
  by (simp_all add: dro_stop_def with_p2p_views split: option.split)

lemma frame_dro_notify [simp]:
  "own (dro_notify b s) = own s" "p2v (dro_notify b s) = p2v s" "srv (dro_notify b s) = srv s"
  by (simp_all add: dro_notify_def with_p2p_views split: option.split)

lemma frame_dro_forward:
  "own (snd (dro_forward k pos s)) = own s" "p2v (snd (dro_forward k pos s)) = p2v s" "srv (snd (dro_forward k pos s)) = srv s"
proof -
  have "v (snd (dro_forward k pos s)) = v s" if "\<And>i a t n s. v (snd (rpl_p2p_add_hbh_route i a t n s)) = v s" for v :: "node \<Rightarrow> 'c"
    unfolding dro_forward_def Let_def
    by (intro if_view [of "\<lambda>x. v (snd x)"] option_view [of "\<lambda>x. v (snd x)"]) (simp_all only: snd_conv that)
  from this [of own] this [of p2v] this [of srv]
  show "own (snd (dro_forward k pos s)) = own s" "p2v (snd (dro_forward k pos s)) = p2v s"
    "srv (snd (dro_forward k pos s)) = srv s" by (simp_all only: frame_hbh)
qed

lemma compr_less: "unat (bitmask_read 0 0x0f b :: u8) < 16"
proof -
  have "unat (b AND mask 4) = unat b mod 2 ^ 4" by (rule unat_and_mask)
  then show ?thesis by (simp add: bitmask_read_def mask_numeral)
qed

lemma dro_store_wf: "node_wf s \<Longrightarrow> node_wf (dro_store_route b n pos s)"
  using src_wf_srv [of "snd (rpl_p2p_add_hbh_route i a t h s)" s for i a t h]
  by (simp add: dro_store_route_def Let_def node_wf_def frame_hbh frame_p2p_src_route add_src_route_wf compr_less)

lemma dro_input_wf: "node_wf s \<Longrightarrow> node_wf (snd (dro_input k s))"
  using node_wf_frame [of "dro_stop (k_buf k) s" s] dro_store_wf [of "dro_stop (k_buf k) s"]
    node_wf_frame [of "dro_notify (k_buf k) t" t for t] node_wf_frame [of "snd (dro_forward k pos t)" t for pos t]
  by (simp add: dro_input_def Let_def frame_dro_forward)

section \<open>Measurement objects\<close>

lemma ref_linklocal_wf: "node_wf s \<Longrightarrow> node_wf (snd (ref_linklocal r s))"
proof (cases r)
  case (Src_addr a)
  assume w: "node_wf s"
  let ?s = "s\<lparr>src_addr_mem := updf a uip_create_linklocal_prefix (src_addr_mem s)\<rparr>"
  have "own ?s = own s" "p2v ?s = p2v s" "src_wf ?s = src_wf s"
    by (simp_all add: src_wf_def src_inv_def)
  with w Src_addr show ?thesis by (simp add: ref_linklocal_def node_wf_def)
qed (simp_all add: ref_linklocal_def)

lemma mo_target_wf: "node_wf s \<Longrightarrow> node_wf (snd (mo_target buf pos origin s))"
  using add_src_route_wf [of s RPL_P2P_RDO_COMPR]
  by (simp add: mo_target_def Let_def node_wf_def frame_p2p_src_route RPL_P2P_RDO_COMPR_def)

lemma frame_mo_next_hop: "mo_next_hop buf n pos own' target s = (x, s') \<Longrightarrow> s' = s \<or> s' = set_fault s \<or> (\<exists>m. s' = emit m s)"
  by (auto simp: mo_next_hop_def Let_def split: if_splits option.splits list.splits prod.splits)

lemma mo_forward_wf: "node_wf s \<Longrightarrow> node_wf (snd (mo_forward buf n pos own' target s))"
proof -
  assume w: "node_wf s"
  obtain x s1 where m: "mo_next_hop buf n pos own' target s = (x, s1)" by (rule prod.exhaust)
  from frame_mo_next_hop [OF m] w have w1: "node_wf s1" by auto
  show ?thesis
  proof (cases x)
    case None
    with w w1 m show ?thesis by (simp add: mo_forward_def)
  next
    case (Some y)
    obtain buf' n' h where y: "y = (buf', n', h)" by (rule prod_cases3)
    with w w1 m ref_linklocal_wf [OF w1, of h] Some show ?thesis
      by (simp add: mo_forward_def split_beta Let_def)
  qed
qed

lemma mo_reply_wf: "node_wf s \<Longrightarrow> node_wf (mo_reply_to_origin b t m s)"
  by (simp add: mo_reply_to_origin_def Let_def split: option.split)

lemma mo_input_wf:
  assumes "node_wf s"
  shows "node_wf (snd (mo_input k s))"
proof -
  have leaf: "node_wf (mo_reply_to_origin b t m s)" "node_wf (snd (mo_target b p a s))"
    "node_wf (snd (mo_forward b n p o' t s))" "node_wf (set_fault s)" "node_wf s" for b t m p a n o'
    using assms by (simp_all only: mo_reply_wf mo_target_wf mo_forward_wf node_wf_simps)
  let ?v = "\<lambda>r :: message option \<times> node. node_wf (snd r)"
  have branch: "?v a = True \<Longrightarrow> ?v b = True \<Longrightarrow> ?v (if P then a else b) = True" for a b P
    by (rule if_view)
  have found: "?v a = True \<Longrightarrow> (\<And>x. ?v (f x) = True) \<Longrightarrow> ?v (case o' of None \<Rightarrow> a | Some x \<Rightarrow> f x) = True"
    for a and f :: "nat \<Rightarrow> _" and o'
    by (rule option_view)
  have "?v (mo_input k s) = True"
    unfolding mo_input_def Let_def
    by (rule option_view; (rule branch | rule found | simp only: snd_conv leaf)+)
  then show ?thesis by simp
qed

lemma frame_mo_output [simp]:
  "own (mo_output t s) = own s" "p2v (mo_output t s) = p2v s" "srv (mo_output t s) = srv s"
  by (simp_all add: mo_output_def Let_def split: option.split prod.split)

section \<open>The dispatcher and the timers\<close>

lemma dio_input_wf: "node_wf s \<Longrightarrow> node_wf (dio_input k s)"
  using process_dio_wf [of s "k_src k"] process_dio_p2p [of s "k_src k"] src_wf_srv [of "rpl_process_dio (k_src k) dio s" s for dio]
  by (simp add: dio_input_def node_wf_def split: option.split)

lemma rpl_dispatch_wf: "node_wf s \<Longrightarrow> node_wf (snd (rpl_dispatch k s))"
  using dio_input_wf [of s k] dro_input_wf [of s k] mo_input_wf [of s k] node_wf_frame [of "dis_input k s" s]
    node_wf_frame [of "dao_input k s" s] node_wf_frame [of "dro_ack_input k s" s]
  by (simp add: rpl_dispatch_def Let_def dao_ack_input_def)

lemma uip_rpl_input_wf: "node_wf s \<Longrightarrow> node_wf (uip_rpl_input k s)"
  using rpl_dispatch_wf [of "learn_sender k s" k] node_wf_frame [of "learn_sender k s" s]
    node_wf_frame [of "emit m t" t for m t]
  by (auto simp: uip_rpl_input_def split: prod.split option.split)

lemma frame_purge_routes [simp]: "own (rpl_purge_routes s) = own s" "p2v (rpl_purge_routes s) = p2v s"
proof -
  have "own (purge_src_route i s) = own s" "p2v (purge_src_route i s) = p2v s" for i s
    by (simp_all add: purge_src_route_def Let_def)
  then show "own (rpl_purge_routes s) = own s" "p2v (rpl_purge_routes s) = p2v s"
    by (simp_all add: rpl_purge_routes_def frame_fold)
qed

lemma periodic_timer_wf: "node_wf s \<Longrightarrow> node_wf (handle_periodic_timer s)"
proof -
  assume w: "node_wf s"
  let ?t = "rpl_p2p_purge_dags (rpl_purge_routes s)"
  have t: "own_wf (own ?t)" "p2p_wf (p2v ?t)"
    using w purge_dags_wf [of "rpl_purge_routes s"] by (simp_all add: node_wf_def)
  have "src_wf ?t" using w purge_routes_wf [of s] src_wf_srv [of ?t "rpl_purge_routes s"] by (simp add: node_wf_def)
  moreover have "src_wf ((rpl_recalculate_ranks ?t)\<lparr>periodic_timer := c\<rparr>) = src_wf ?t" for c
    by (rule src_wf_srv) simp
  ultimately show ?thesis
    using t keeps_wf [OF recalculate_keeps t(1)]
    by (simp add: handle_periodic_timer_def Let_def node_wf_def)
qed

lemma run_timer_wf: "node_wf s \<Longrightarrow> node_wf (run_timer f k s)"
  using periodic_timer_wf [of s] node_wf_frame [of "handle_dio_timer k s" s] node_wf_frame [of "handle_dao_timer k s" s]
    node_wf_frame [of "dro_rexmit k s" s] send_dros_wf [of s k]
  by (cases f) (simp_all add: run_timer_def node_wf_def)

section \<open>The transition system\<close>

text \<open>The initial state is the zeroed memory after \<open>uip_ds6_init\<close> and \<open>rpl_init\<close>.\<close>

definition boot :: "bytes \<Rightarrow> node" where
  "boot ll = rpl_init (uip_ds6_init (node0 ll))"

text \<open>\<open>Environment\<close> stands for what other code does between two events: time passes, link
  metrics are measured, another process runs. A timer may fire at any moment.\<close>

datatype event =
    Receive packet
  | Timer timer_fn nat
  | Link_callback bytes bool u8
  | Neighbor_callback nat
  | Ds6_periodic
  | Discover_route ipaddr
  | Set_root ipaddr
  | Set_prefix nat ipaddr nat
  | Repair_dag nat
  | Send_mo "ipaddr option"
  | Send_dis "ipaddr option"
  | Environment u32 u32 "bytes \<Rightarrow> u8" "nat option"

inductive rpl_step :: "node \<Rightarrow> event \<Rightarrow> node \<Rightarrow> bool" where
  receive: "rpl_step s (Receive k) (uip_rpl_input k s)"
| timer: "rpl_step s (Timer f k) (run_timer f k s)"
| link: "rpl_step s (Link_callback a known etx) (rpl_link_neighbor_callback a known etx s)"
| neighbor: "rpl_step s (Neighbor_callback n) (rpl_ipv6_neighbor_callback n s)"
| ds6_periodic: "rpl_step s Ds6_periodic (uip_ds6_periodic rpl_ipv6_neighbor_callback s)"
| discover: "rpl_step s (Discover_route a) (snd (rpl_discover_route a s))"
| set_root: "rpl_step s (Set_root a) (snd (rpl_set_root a s))"
| set_prefix: "rpl_step s (Set_prefix d a n) (snd (rpl_set_prefix d a n s))"
| repair: "rpl_step s (Repair_dag d) (snd (rpl_repair_dag d s))"
| send_mo: "rpl_step s (Send_mo a) (mo_output a s)"
| send_dis: "rpl_step s (Send_dis a) (dis_output a s)"
| environment: "rpl_step s (Environment t u m p) (s\<lparr>clk := t, secs := u, ni_metric := m, process_cur := p\<rparr>)"

inductive_cases rpl_stepE: "rpl_step s e s'"

inductive reachable :: "node \<Rightarrow> bool" where
  initially: "reachable (boot ll)"
| next_state: "reachable s \<Longrightarrow> rpl_step s e s' \<Longrightarrow> reachable s'"

section \<open>The invariant is inductive\<close>

lemma frame_more_fields [simp]:
  "own (s\<lparr>clk := t, secs := u, ni_metric := m, process_cur := p\<rparr>) = own s"
  "p2v (s\<lparr>clk := t, secs := u, ni_metric := m, process_cur := p\<rparr>) = p2v s"
  "srv (s\<lparr>clk := t, secs := u, ni_metric := m, process_cur := p\<rparr>) = srv s"
  "own (s\<lparr>prefix_list := x\<rparr>) = own s" "p2v (s\<lparr>prefix_list := x\<rparr>) = p2v s" "srv (s\<lparr>prefix_list := x\<rparr>) = srv s"
  by (simp_all add: own_def p2v_def srv_def)

lemma frame_set_prefix: "own (snd (rpl_set_prefix d a n s)) = own s" "p2v (snd (rpl_set_prefix d a n s)) = p2v s"
  "srv (snd (rpl_set_prefix d a n s)) = srv s"
  by (simp_all add: rpl_set_prefix_def)

lemma frame_repair_dag: "own (snd (rpl_repair_dag d s)) = own s" "p2v (snd (rpl_repair_dag d s)) = p2v s"
  "srv (snd (rpl_repair_dag d s)) = srv s"
  by (simp_all add: rpl_repair_dag_def)

lemma frame_periodic_views:
  assumes "\<And>f s. v (s\<lparr>nbr_cache := f\<rparr>) = v s" "\<And>f s. v (s\<lparr>defrt_list := f\<rparr>) = v s"
    "\<And>f s. v (s\<lparr>addr_list := f\<rparr>) = v s" "\<And>f s. v (s\<lparr>maddr_list := f\<rparr>) = v s"
    "\<And>n s. v (rpl_ipv6_neighbor_callback n s) = v s" "\<And>m s. v (emit m s) = v s"
  shows "v (uip_ds6_periodic rpl_ipv6_neighbor_callback s) = v s"
proof -
  have rm: "v (uip_ds6_addr_rm i s) = v s" for i s
    by (simp add: uip_ds6_addr_rm_def uip_ds6_maddr_rm_def Let_def assms split: option.split)
  have dad: "v (uip_ds6_dad i s) = v s" for i s
    by (simp add: uip_ds6_dad_def Let_def assms)
  have a: "v (periodic_addr i s) = v s" for i s
    by (simp add: periodic_addr_def Let_def rm dad)
  have d: "v (periodic_defrt i s) = v s" for i s
    by (simp add: periodic_defrt_def uip_ds6_defrt_rm_def Let_def assms)
  have nrm: "v (uip_ds6_nbr_rm rpl_ipv6_neighbor_callback i s) = v s" for i s
    by (simp add: uip_ds6_nbr_rm_def assms)
  have ns: "v (send_ns x i s) = v s" for x i s
    by (simp add: send_ns_def Let_def assms)
  have drm: "v (uip_ds6_defrt_rm i s) = v s" for i s
    by (simp add: uip_ds6_defrt_rm_def assms)
  have n: "v (periodic_nbr rpl_ipv6_neighbor_callback i s) = v s" for i s
  proof -
    have o: "v (case x of None \<Rightarrow> s | Some d \<Rightarrow> uip_ds6_defrt_rm d s) = v s" for x
      by (intro option_view [of v]) (simp_all only: drm)
    show ?thesis
      unfolding periodic_nbr_def Let_def by (intro if_view [of v]) (simp_all only: nrm ns o assms)
  qed
  show ?thesis by (simp add: uip_ds6_periodic_def Let_def frame_fold [of v] a d n)
qed

lemma frame_periodic [simp]:
  "own (uip_ds6_periodic rpl_ipv6_neighbor_callback s) = own s"
  "p2v (uip_ds6_periodic rpl_ipv6_neighbor_callback s) = p2v s"
  "srv (uip_ds6_periodic rpl_ipv6_neighbor_callback s) = srv s"
  by (rule frame_periodic_views; simp)+

lemma step_wf:
  assumes "rpl_step s e s'" "node_wf s"
  shows "node_wf s'"
  using assms(1)
proof cases
  case (receive k) with assms(2) show ?thesis by (simp add: uip_rpl_input_wf)
next
  case (timer f k) with assms(2) show ?thesis by (simp add: run_timer_wf)
next
  case (discover a)
  obtain b t where "rpl_discover_route a s = (b, t)" by (rule prod.exhaust)
  with discover discover_route_wf [of s a b t] discover_route_p2p [of s a b t] srv_discover [of a s] src_wf_srv [of t s] assms(2)
  show ?thesis by (simp add: node_wf_def)
next
  case (set_root a)
  obtain b t where "rpl_set_root a s = (b, t)" by (rule prod.exhaust)
  with set_root set_root_wf [of s a b t] set_root_p2p [of s a b t] srv_set_root [of a s] src_wf_srv [of t s] assms(2)
  show ?thesis by (simp add: node_wf_def)
next
  case (link a known etx) with assms(2) node_wf_frame [of s' s] show ?thesis by simp
next
  case (neighbor n) with assms(2) node_wf_frame [of s' s] show ?thesis by simp
next
  case ds6_periodic with assms(2) node_wf_frame [of s' s] show ?thesis by simp
next
  case (set_prefix d a n) with assms(2) node_wf_frame [of s' s] show ?thesis by (simp add: frame_set_prefix)
next
  case (repair d) with assms(2) node_wf_frame [of s' s] show ?thesis by (simp add: frame_repair_dag)
next
  case (send_mo a) with assms(2) node_wf_frame [of s' s] show ?thesis by simp
next
  case (send_dis a) with assms(2) node_wf_frame [of s' s] show ?thesis by simp
next
  case (environment t u m p) with assms(2) node_wf_frame [of s' s] show ?thesis by simp
qed

lemma own_inv_node0: "own_wf (own (node0 ll))"
  by (simp add: own_wf_def own_inv_def own_def node0_def dv_def dag0_def parent0_def pool_wf_def RPL_MAX_PARENTS_def
      RPL_MAX_DAG_ENTRIES_def)

lemma p2p_wf_node0: "p2p_wf (p2v (node0 ll))"
  by (auto simp: p2p_wf_def p2v_def node0_def routes_ok_def slot_route_def slots_def pool_wf_def p2p0_def dag0_def)

lemma frame_init_views:
  assumes "\<And>f s. v (s\<lparr>prefix_list := f\<rparr>) = v s" "\<And>r s. v (snd (rand s)) = v s"
    "\<And>a b c s. v (snd (uip_ds6_addr_add a b c s)) = v s" "\<And>a s. v (snd (uip_ds6_maddr_add a s)) = v s"
    "\<And>a b c s. v (s\<lparr>reachable_time := a, retrans_timer := b, maxdadns := c\<rparr>) = v s"
  shows "v (uip_ds6_init s) = v (s\<lparr>nbr_cache := replicate UIP_DS6_NBR_NB nbr0,
                defrt_list := replicate UIP_DS6_DEFRT_NB defrt0,
                prefix_list := replicate UIP_DS6_PREFIX_NB prefix0,
                addr_list := replicate UIP_DS6_ADDR_NB addr_entry0,
                aaddr_list := replicate UIP_DS6_AADDR_NB maddr0,
                maddr_list := replicate UIP_DS6_MADDR_NB maddr0,
                routing_table := replicate UIP_DS6_ROUTE_NB route0,
                src_routing_table := replicate UIP_DS6_SRC_ROUTE_NB src_route0,
                src_addr_cnt := replicate UIP_DS6_SRC_ROUTE_ADDR_NB 0,
                src_addr_mem := replicate UIP_DS6_SRC_ROUTE_ADDR_NB addr0,
                link_mtu := 1280, cur_hop_limit := 64, base_reachable_time := 600000\<rparr>)"
proof -
  have c: "v (snd (uip_ds6_compute_reachable_time s)) = v s" for s
    by (simp add: uip_ds6_compute_reachable_time_def split_beta Let_def assms(2))
  have p: "v (snd (uip_ds6_prefix_add a b c d e f s)) = v s" for a b c d e f s
    by (simp add: uip_ds6_prefix_add_def assms(1) split: prod.split loop_result.split option.split)
  show ?thesis
    unfolding uip_ds6_init_def Let_def split_beta by (simp only: assms(3-5) p c)
qed

lemma boot_wf: "node_wf (boot ll)"
proof -
  let ?t = "(node0 ll)\<lparr>nbr_cache := replicate UIP_DS6_NBR_NB nbr0,
                defrt_list := replicate UIP_DS6_DEFRT_NB defrt0,
                prefix_list := replicate UIP_DS6_PREFIX_NB prefix0,
                addr_list := replicate UIP_DS6_ADDR_NB addr_entry0,
                aaddr_list := replicate UIP_DS6_AADDR_NB maddr0,
                maddr_list := replicate UIP_DS6_MADDR_NB maddr0,
                routing_table := replicate UIP_DS6_ROUTE_NB route0,
                src_routing_table := replicate UIP_DS6_SRC_ROUTE_NB src_route0,
                src_addr_cnt := replicate UIP_DS6_SRC_ROUTE_ADDR_NB 0,
                src_addr_mem := replicate UIP_DS6_SRC_ROUTE_ADDR_NB addr0,
                link_mtu := 1280, cur_hop_limit := 64, base_reachable_time := 600000\<rparr>"
  have m: "own (s\<lparr>reachable_time := a, retrans_timer := b, maxdadns := c\<rparr>) = own s"
    "p2v (s\<lparr>reachable_time := a, retrans_timer := b, maxdadns := c\<rparr>) = p2v s"
    "srv (s\<lparr>reachable_time := a, retrans_timer := b, maxdadns := c\<rparr>) = srv s" for a b c s
    by (simp_all add: own_def p2v_def srv_def)
  have i: "own (uip_ds6_init (node0 ll)) = own ?t" "p2v (uip_ds6_init (node0 ll)) = p2v ?t"
    "srv (uip_ds6_init (node0 ll)) = srv ?t"
    by (rule frame_init_views; simp add: frame_rand frame_ds6_pairs m)+
  have o: "own ?t = own (node0 ll)" "p2v ?t = p2v (node0 ll)" by (simp_all add: own_def p2v_def)
  have "src_wf ?t"
    by (simp add: src_wf_def src_inv_def uniq_def ds6_zero pool_wf_def pool_used_def)
  moreover have r: "own (boot ll) = own (uip_ds6_init (node0 ll))" "p2v (boot ll) = p2v (uip_ds6_init (node0 ll))"
    "srv (boot ll) = srv (uip_ds6_init (node0 ll))"
    by (simp_all add: boot_def rpl_init_def rpl_reset_periodic_timer_def frame_ds6_pairs)
  ultimately show ?thesis
    using own_inv_node0 p2p_wf_node0 src_wf_srv [of "boot ll" ?t] by (simp add: node_wf_def i o)
qed

lemma reachable_wf: "reachable s \<Longrightarrow> node_wf s"
  by (induction rule: reachable.induct) (simp_all add: boot_wf step_wf)

end
