(* ===== verification/Rpl_Memory.thy ===== *)
theory Rpl_Memory
  imports Rpl_Reach
begin

text \<open>
  The memory invariant read off the C structures: what every reachable state of the node
  guarantees for the pool of parents, the pool of partial-route addresses and the pool of
  source-route addresses.
\<close>

section \<open>A reachable state that has joined a DAG\<close>

text \<open>The DIO of a root \<open>aaaa::1\<close>: instance 0, version 0, rank 256, mode 2, with a DODAG
  configuration option.\<close>

definition demo_dio_bytes :: bytes where
  "demo_dio_bytes = [0, 0, 1, 0, 0x10, 1, 0, 0] @ ([0xaa, 0xaa] @ replicate 13 0 @ [1])
     @ [4, 14, 0, 8, 12, 10, 3, 0, 1, 0, 0, 1, 0, 0xff, 0, 2]"

definition demo_dio_packet :: packet where
  "demo_dio_packet = \<lparr>k_src = [0xfe, 0x80, 0, 0, 0, 0, 0, 0, 0, 0, 0, 0, 0, 0, 0, 1], k_dest = rplnodes_mcast,
     k_code = 1, k_buf = (\<lambda>i. if i < length demo_dio_bytes then demo_dio_bytes ! i else 0), k_len = 40,
     k_sender = [2, 0, 0, 0, 0, 0, 0, 1]\<rparr>"

definition demo_node :: node where
  "demo_node = uip_rpl_input demo_dio_packet (boot [1, 2, 3, 4, 5, 6, 7, 8])"

lemma demo_node_reachable: "reachable demo_node"
  unfolding demo_node_def by (rule next_state [OF initially receive])

section \<open>Properties\<close>

text \<open>C1: In every reachable state the parents on the list of a DAG are exactly the allocated
  blocks of the parent pool that point back to this DAG, each once; so no parent is on the
  lists of two DAGs, none is used after it was freed and none is leaked. The preferred
  parent is on the list, a joined DAG is in use, and an unused one has no parent.\<close>

theorem reachable_parents_owned:
  assumes "reachable s" "d < RPL_MAX_DAG_ENTRIES"
  shows "distinct (d_parents (DAG s d))
    \<and> set (d_parents (DAG s d)) = {p. p < RPL_MAX_PARENTS \<and> parent_cnt s ! p \<noteq> 0 \<and> p_dag (PAR s p) = d}
    \<and> (case d_preferred_parent (DAG s d) of None \<Rightarrow> True | Some p \<Rightarrow> p \<in> set (d_parents (DAG s d)))
    \<and> (d_joined (DAG s d) \<longrightarrow> d_used (DAG s d))
    \<and> (d_used (DAG s d) \<or> d_parents (DAG s d) = [])"
proof -
  have w: "own_wf (own s)" using reachable_wf [OF assms(1)] by (simp add: node_wf_def)
  note o = own_wf_dag [OF w assms(2)]
  note m = members_own [OF w assms(2)]
  have c: "w_cnt (own s) = parent_cnt s" "length (parent_cnt s) = RPL_MAX_PARENTS"
    using own_wf_cnt [OF w] by (simp_all add: own_def)
  have j: "v_joined (w_dags (own s) ! d) = d_joined (DAG s d)"
    using own_wf_len [OF w] assms(2) by (simp add: own_def dv_def DAG_def)
  have l: "length (parent_mem s) = RPL_MAX_PARENTS" using w by (simp add: own_wf_def own_inv_def own_def)
  have p: "w_owner (own s) ! p = p_dag (PAR s p)" if "p < RPL_MAX_PARENTS" for p
    using that l by (simp add: own_def PAR_def)
  show ?thesis
    using o(1,2,4,5) m c j p used_own [OF w assms(2)] pref_member [OF w assms(2)]
    by (auto split: option.split)
qed

theorem reachable_parents_owned_witness:
  "reachable demo_node \<and> distinct (d_parents (DAG demo_node 0))
    \<and> set (d_parents (DAG demo_node 0))
        = {p. p < RPL_MAX_PARENTS \<and> parent_cnt demo_node ! p \<noteq> 0 \<and> p_dag (PAR demo_node p) = 0}"
  using reachable_parents_owned [OF demo_node_reachable, of 0] demo_node_reachable
  by (simp add: RPL_MAX_DAG_ENTRIES_def)

text \<open>C2: In every reachable state the address blocks of the partial routes of route
  discoveries are allocated, no block is on two routes or twice on one, and the pointer of
  a DAG to its P2P extension stays inside the table.\<close>

theorem reachable_partial_routes:
  assumes "reachable s" "q < RPL_MAX_DAG_P2P_ENTRIES" "i < RPL_P2P_MAX_PARTIAL_ROUTES"
    "q' < RPL_MAX_DAG_P2P_ENTRIES" "i' < RPL_P2P_MAX_PARTIAL_ROUTES"
  shows "distinct (q_partial_routes (P2P s q) ! i)
    \<and> set (q_partial_routes (P2P s q) ! i) \<subseteq> pool_used (p2p_addr_cnt s)
    \<and> ((q, i) = (q', i') \<or> set (q_partial_routes (P2P s q) ! i) \<inter> set (q_partial_routes (P2P s q') ! i') = {})
    \<and> length (q_partial_routes (P2P s q)) = RPL_P2P_MAX_PARTIAL_ROUTES
    \<and> (\<forall>D \<in> set (dag_table s). d_p2p D = None \<or> the (d_p2p D) < RPL_MAX_DAG_P2P_ENTRIES)"
proof -
  have w: "p2p_wf (p2v s)" using reachable_wf [OF assms(1)] by (simp add: node_wf_def)
  have "routes_ok (slot_route (p2v s)) (p2p_addr_cnt s)" using w by (simp add: p2p_wf_def) (simp add: p2v_def)
  moreover have "(q, i) \<in> slots" "(q', i') \<in> slots" using assms(2-) by (simp_all add: slots_def)
  ultimately have "distinct (slot_route (p2v s) (q, i)) \<and> set (slot_route (p2v s) (q, i)) \<subseteq> pool_used (p2p_addr_cnt s)"
    "(q, i) = (q', i') \<or> set (slot_route (p2v s) (q, i)) \<inter> set (slot_route (p2v s) (q', i')) = {}"
    unfolding routes_ok_def by blast+
  moreover have "\<forall>D \<in> set (dag_table s). d_p2p D = None \<or> the (d_p2p D) < RPL_MAX_DAG_P2P_ENTRIES"
    using w by (force simp: p2p_wf_def p2v_def)
  ultimately show ?thesis
    unfolding p2v_slot [OF w assms(2)] p2v_slot [OF w assms(4)] using p2p_wf_lens(3) [OF w assms(2)] by blast
qed

theorem reachable_partial_routes_witness:
  "set (q_partial_routes (P2P demo_node 0) ! 1) \<inter> set (q_partial_routes (P2P demo_node 2) ! 1) = {}
    \<and> set (q_partial_routes (P2P demo_node 0) ! 1) \<subseteq> pool_used (p2p_addr_cnt demo_node)"
  using reachable_partial_routes [OF demo_node_reachable, of 0 1 2 1]
  by (simp add: RPL_MAX_DAG_P2P_ENTRIES_def RPL_P2P_MAX_PARTIAL_ROUTES_def)

text \<open>C3: In every reachable state each address block of the source-route pool that is
  allocated is on exactly one source route, once; a route that is not in use holds no block;
  and no two source routes in use have the same destination.\<close>

theorem reachable_source_routes:
  assumes "reachable s"
  shows "distinct (concat (map s_addr_list (src_routing_table s)))
    \<and> set (concat (map s_addr_list (src_routing_table s))) = pool_used (src_addr_cnt s)
    \<and> (\<forall>r \<in> set (src_routing_table s). s_isused r \<or> s_addr_list r = [])
    \<and> uniq s_isused s_ipaddr (src_routing_table s)"
  using reachable_wf [OF assms] by (auto simp: node_wf_def src_wf_def src_inv_def)

theorem reachable_source_routes_witness:
  "distinct (concat (map s_addr_list (src_routing_table demo_node)))
    \<and> uniq s_isused s_ipaddr (src_routing_table demo_node)"
  using reachable_source_routes [OF demo_node_reachable] by blast

end
