(* ===== verification/Rpl_Rank.thy ===== *)
theory Rpl_Rank
  imports Rpl_Memory
begin

text \<open>
  Ranks: the choice of the preferred parent sets the rank of a DAG from that parent, ranks
  grow strictly towards the leaves as long as they are finite, and so the preferred
  parents of a network whose nodes have up-to-date ranks form no loop.
\<close>

section \<open>What parent selection leaves alone\<close>

definition rkv :: "node \<Rightarrow> (u16 \<times> u16 \<times> dodag_config) list \<times> rpl_parent list" where
  "rkv s = (map (\<lambda>D. (d_rank D, d_min_rank D, d_config D)) (dag_table s), parent_mem s)"

lemma rkv_fields [simp]:
  "rkv (s\<lparr>outbox := a1\<rparr>) = rkv s" "rkv (s\<lparr>fault := a2\<rparr>) = rkv s" "rkv (s\<lparr>defrt_list := a3\<rparr>) = rkv s"
  "rkv (s\<lparr>rand_state := a4\<rparr>) = rkv s" "rkv (s\<lparr>dao_sequence := a5\<rparr>) = rkv s"
  by (simp_all add: rkv_def)

lemma rkv_upd [simp]:
  "(\<And>D. (d_rank (f D), d_min_rank (f D), d_config (f D)) = (d_rank D, d_min_rank D, d_config D)) \<Longrightarrow> rkv (upd_dag d f s) = rkv s"
  by (simp add: rkv_def upd_dag_def map_updf_same)

lemma rkv_basic [simp]:
  "rkv (emit m s) = rkv s" "rkv (set_fault s) = rkv s" "rkv (chk_of d s) = rkv s" "rkv (chk_rank d s) = rkv s"
  "rkv (chk_shift d s) = rkv s" "rkv (chk_acceptable d r s) = rkv s"
  by (simp_all add: emit_def set_fault_def chk_of_def chk_rank_def chk_shift_def chk_acceptable_def)

lemma rkv_rand [simp]: "rkv (snd (rand s)) = rkv s"
  by (simp add: rand_def split: prod.split)

lemma rkv_reset [simp]: "rkv (rpl_reset_dio_timer d b s) = rkv s"
  by (simp add: rpl_reset_dio_timer_def new_dio_interval_def Let_def split_beta)

lemma rkv_schedule [simp]: "rkv (rpl_schedule_dao d s) = rkv s"
  by (simp add: rpl_schedule_dao_def split_beta)

lemma rkv_dao [simp]: "rkv (dao_output n l s) = rkv s"
  by (simp add: dao_output_def Let_def split: option.split)

lemma rkv_metric [simp]: "rkv (of_update_metric_container d s) = rkv s"
  by (simp add: of_update_metric_container_def etx_update_metric_container_def Let_def)

lemma rkv_default_route [simp]: "rkv (snd (rpl_set_default_route d a s)) = rkv s"
  by (simp add: rpl_set_default_route_def uip_ds6_defrt_rm_def uip_ds6_defrt_add_def Let_def split_beta split: option.split loop_result.split)

lemma rkv_switch [simp]: "rkv (switch_parent d b s) = rkv s"
  by (simp add: switch_parent_def Let_def)

lemma rkv_same:
  assumes "rkv s = rkv t" "d < length (dag_table t)"
  shows "d_rank (DAG s d) = d_rank (DAG t d)" "d_min_rank (DAG s d) = d_min_rank (DAG t d)"
    "d_config (DAG s d) = d_config (DAG t d)" "PAR s p = PAR t p" "length (dag_table s) = length (dag_table t)"
proof -
  from assms(1) have m: "map (\<lambda>D. (d_rank D, d_min_rank D, d_config D)) (dag_table s)
      = map (\<lambda>D. (d_rank D, d_min_rank D, d_config D)) (dag_table t)" and p: "parent_mem s = parent_mem t"
    by (simp_all add: rkv_def)
  show l: "length (dag_table s) = length (dag_table t)" using m by (rule map_eq_imp_length_eq)
  have "(\<lambda>D. (d_rank D, d_min_rank D, d_config D)) (dag_table s ! d) = (\<lambda>D. (d_rank D, d_min_rank D, d_config D)) (dag_table t ! d)"
    using m l assms(2) by (metis (no_types, lifting) nth_map)
  then show "d_rank (DAG s d) = d_rank (DAG t d)" "d_min_rank (DAG s d) = d_min_rank (DAG t d)"
    "d_config (DAG s d) = d_config (DAG t d)" by (simp_all add: DAG_def)
  show "PAR s p = PAR t p" by (simp add: PAR_def p)
qed

lemma etx_rank_same:
  assumes "rkv s = rkv t" "p_dag (PAR t p) < length (dag_table t)"
  shows "etx_calculate_rank s (Some p) b = etx_calculate_rank t (Some p) b"
proof -
  have p: "PAR s p = PAR t p" by (rule rkv_same(4) [OF assms])
  have c: "d_config (DAG s (p_dag (PAR t p))) = d_config (DAG t (p_dag (PAR t p)))" by (rule rkv_same(3) [OF assms])
  show ?thesis unfolding etx_calculate_rank_def etx_rank_increase_def Let_def option.case p c by (rule refl)
qed

section \<open>The choice of the preferred parent\<close>

lemma select_best_finite:
  "select_best s ps b = Some x \<Longrightarrow> (\<And>y. b = Some y \<Longrightarrow> p_rank (PAR s y) \<noteq> INFINITE_RANK)
     \<Longrightarrow> p_rank (PAR s x) \<noteq> INFINITE_RANK"
proof (induction ps arbitrary: b)
  case (Cons p ps)
  define b' where "b' = (if p_rank (PAR s p) = INFINITE_RANK then b
        else (case b of None \<Rightarrow> Some p | Some b \<Rightarrow> etx_best_parent s b p))"
  have e: "select_best s ps b' = Some x" using Cons.prems(1) unfolding b'_def by simp
  have fin: "p_rank (PAR s y) \<noteq> INFINITE_RANK" if "b' = Some y" for y
  proof (cases "p_rank (PAR s p) = INFINITE_RANK")
    case True
    with that Cons.prems(2) show ?thesis by (simp add: b'_def)
  next
    case False
    show ?thesis
    proof (cases b)
      case None
      with that False show ?thesis by (simp add: b'_def)
    next
      case (Some c)
      with that False have "etx_best_parent s c p = Some y" by (simp add: b'_def)
      from etx_best_parent_among [OF this] False Cons.prems(2) [OF Some] show ?thesis by blast
    qed
  qed
  show ?case by (rule Cons.IH [OF e fin])
qed simp

lemma select_best_None:
  "(\<And>p q. p \<in> set ps \<or> b = Some p \<Longrightarrow> q \<in> set ps \<Longrightarrow> etx_best_parent s p q \<noteq> None) \<Longrightarrow>
   select_best s ps b = None \<longleftrightarrow> b = None \<and> (\<forall>p \<in> set ps. p_rank (PAR s p) = INFINITE_RANK)"
proof (induction ps arbitrary: b)
  case (Cons p ps)
  show ?case
  proof (cases "p_rank (PAR s p) = INFINITE_RANK")
    case True
    with Cons.IH [of b] Cons.prems show ?thesis by auto
  next
    case False
    define b' where "b' = (case b of None \<Rightarrow> Some p | Some b \<Rightarrow> etx_best_parent s b p)"
    have n: "b' \<noteq> None" using Cons.prems [of _ p] by (auto simp: b'_def split: option.split)
    have m: "b' = Some y \<Longrightarrow> y = p \<or> b = Some y" for y
      by (auto simp: b'_def dest: etx_best_parent_among split: option.splits)
    have "select_best s ps b' = None \<longleftrightarrow> b' = None \<and> (\<forall>p \<in> set ps. p_rank (PAR s p) = INFINITE_RANK)"
    proof (rule Cons.IH)
      show "etx_best_parent s x q \<noteq> None" if "x \<in> set ps \<or> b' = Some x" "q \<in> set ps" for x q
        using m [of x] that by (intro Cons.prems) auto
    qed
    with n False show ?thesis by (auto simp: b'_def [symmetric])
  qed
qed auto

lemma etx_best_parent_Some: "etx_best_parent s p q \<noteq> None"
  by (auto simp: etx_best_parent_def Let_def)

lemma pref_switch: "d < length (dag_table s) \<Longrightarrow> d_preferred_parent (DAG (switch_parent d b s) d) = Some b"
proof -
  assume d: "d < length (dag_table s)"
  let ?t = "switch_parent d b s"
  have "v_pref (w_dags (own ?t) ! d) = Some b"
    unfolding own_switch_parent own_pref_def using d by (simp add: own_def)
  moreover have "length (dag_table ?t) = length (dag_table s)" by (rule rkv_same(5) [OF rkv_switch d])
  ultimately show ?thesis using d by (simp add: own_def dv_def DAG_def)
qed

lemma member_points_back:
  assumes "own_wf (own s)" "valid_dag d" "p \<in> set (d_parents (DAG s d))"
  shows "p_dag (PAR s p) = d"
proof -
  have "p < length (w_cnt (own s)) \<and> w_owner (own s) ! p = d"
    using own_wf_dag(2) [OF assms(1,2)] members_own [OF assms(1,2)] assms(3) by simp
  moreover have "length (parent_mem s) = length (w_cnt (own s))"
    using assms(1) by (simp add: own_wf_def own_inv_def own_def)
  ultimately show ?thesis by (auto simp: own_def PAR_def)
qed

text \<open>All parents of the DAG point back to it.\<close>

lemma select_parent_result:
  assumes w: "own_wf (own s)" "valid_dag d" and sel: "rpl_select_parent d s = (Some b, s')"
  shows "b \<in> set (d_parents (DAG s d)) \<and> p_rank (PAR s b) \<noteq> INFINITE_RANK
    \<and> d_preferred_parent (DAG s' d) = Some b
    \<and> d_rank (DAG s' d) = etx_calculate_rank s (Some b) 0
    \<and> d_min_rank (DAG s' d) = min (d_min_rank (DAG s d)) (d_rank (DAG s' d))
    \<and> (d_rank (DAG s' d) < d_min_rank (DAG s d) \<or> acceptable_rank (DAG s' d) (p_rank (PAR s b)))"
proof -
  from sel obtain best where best: "select_best s (d_parents (DAG s d)) None = Some best"
    by (cases "select_best s (d_parents (DAG s d)) None") (auto simp: rpl_select_parent_def)
  define s1 where "s1 = (if d_preferred_parent (DAG (chk_of d s) d) \<noteq> Some best
      then switch_parent d best (chk_of d s) else chk_of d s)"
  define r where "r = etx_calculate_rank s1 (Some best) 0"
  define s2 where "s2 = upd_dag d (\<lambda>D. D\<lparr>d_rank := r\<rparr>) s1"
  define s3 where "s3 = chk_acceptable d (p_rank (PAR s2 best)) s2"
  have e: "rpl_select_parent d s = (if d_rank (DAG s2 d) < d_min_rank (DAG s2 d)
            then (Some best, upd_dag d (\<lambda>D. D\<lparr>d_min_rank := d_rank D\<rparr>) s2)
            else if \<not> acceptable_rank (DAG s3 d) (p_rank (PAR s3 best))
               then (None, rpl_remove_parents d 0 (dao_output (Some best) 0 s3))
               else (Some best, s3))"
    by (simp add: rpl_select_parent_def best Let_def s1_def [symmetric] r_def [symmetric] s2_def [symmetric] s3_def [symmetric])
  have d: "d < length (dag_table s)" using own_wf_len [OF w(1)] w(2) by simp
  have k: "rkv s1 = rkv s" by (simp add: s1_def)
  note r1 = rkv_same [OF k d]
  have d1: "d < length (dag_table s1)" using r1(5) d by simp
  have m: "best \<in> set (d_parents (DAG s d))" using select_best_member [OF best] by simp
  then have pd: "p_dag (PAR s best) = d" by (rule member_points_back [OF w])
  have rr: "r = etx_calculate_rank s (Some best) 0"
    unfolding r_def by (rule etx_rank_same [OF k]) (simp add: pd d)
  have pr: "d_preferred_parent (DAG s1 d) = Some best"
    using pref_switch [of d "chk_of d s" best] d rkv_same(5) [of "chk_of d s" s d] by (simp add: s1_def)
  have s2: "d_rank (DAG s2 d) = r" "d_min_rank (DAG s2 d) = d_min_rank (DAG s d)"
    "d_preferred_parent (DAG s2 d) = Some best" "PAR s2 best = PAR s best" "d < length (dag_table s2)"
    using d1 r1 pr by (simp_all add: s2_def)
  have s3: "DAG s3 d = DAG s2 d" "PAR s3 best = PAR s best"
    using s2(4) by (simp_all add: s3_def chk_acceptable_def chk_rank_def)
  have fin: "p_rank (PAR s best) \<noteq> INFINITE_RANK" using select_best_finite [OF best] by simp
  from sel [unfolded e] consider
      "r < d_min_rank (DAG s d)" "b = best" "s' = upd_dag d (\<lambda>D. D\<lparr>d_min_rank := d_rank D\<rparr>) s2"
    | "\<not> r < d_min_rank (DAG s d)" "b = best" "s' = s3" "acceptable_rank (DAG s3 d) (p_rank (PAR s best))"
    using s2 s3 by (auto split: if_splits)
  then show ?thesis
  proof cases
    case 1
    from min.absorb2 [OF less_imp_le [OF 1(1)]] 1 s2 m fin rr show ?thesis by simp
  next
    case 2
    from min.absorb1 [of "d_min_rank (DAG s d)" r] 2 s2 s3 m fin rr show ?thesis by (simp add: not_less)
  qed
qed

text \<open>Selection without a result: no parent has a finite rank, or the best one's rank is
  not acceptable and every parent is removed.\<close>

lemma select_parent_none:
  assumes w: "own_wf (own s)" "valid_dag d" and sel: "rpl_select_parent d s = (None, s')"
  shows "(s' = s \<and> (\<forall>p \<in> set (d_parents (DAG s d)). p_rank (PAR s p) = INFINITE_RANK)) \<or> d_parents (DAG s' d) = []"
proof (cases "select_best s (d_parents (DAG s d)) None")
  case None
  with sel have "s' = s" by (simp add: rpl_select_parent_def)
  with None select_best_None [of "d_parents (DAG s d)" None s] etx_best_parent_Some show ?thesis by blast
next
  case (Some best)
  define s1 where "s1 = (if d_preferred_parent (DAG (chk_of d s) d) \<noteq> Some best
      then switch_parent d best (chk_of d s) else chk_of d s)"
  define s2 where "s2 = upd_dag d (\<lambda>D. D\<lparr>d_rank := etx_calculate_rank s1 (Some best) 0\<rparr>) s1"
  define s3 where "s3 = chk_acceptable d (p_rank (PAR s2 best)) s2"
  have "best \<in> set (members d (own s))" using select_best_member [OF Some] members_own [OF w] by simp
  then have "own_wf (own s1)" using own_pref_wf [OF w, of "Some best"] w(1) by (simp add: s1_def own_switch_parent)
  then have w3: "own_wf (own (dao_output (Some best) 0 s3))" by (simp add: s3_def s2_def)
  have "s' = rpl_remove_parents d 0 (dao_output (Some best) 0 s3)"
    using sel by (auto simp: rpl_select_parent_def Some Let_def s1_def [symmetric] s2_def [symmetric] s3_def [symmetric] split: if_splits)
  with remove_parents_wf [OF w3 w(2)] members_own [of s' d] w(2) show ?thesis by simp
qed

section \<open>Loop freedom\<close>

text \<open>A network: \<open>net n\<close> is the state of node \<open>n\<close>, \<open>up n\<close> the node that its preferred parent
  is. A hop is up to date when the rank of the node is the one computed from its preferred
  parent, and the rank stored for the parent is the parent's rank.\<close>

definition ranked_hop :: "(nat \<Rightarrow> node) \<Rightarrow> nat \<Rightarrow> (nat \<Rightarrow> nat) \<Rightarrow> nat \<Rightarrow> bool" where
  "ranked_hop net d up n \<longleftrightarrow>
     (case d_preferred_parent (DAG (net n) d) of None \<Rightarrow> False
      | Some p \<Rightarrow> d_rank (DAG (net n) d) = etx_calculate_rank (net n) (Some p) 0
          \<and> d_rank (DAG (net n) d) \<noteq> INFINITE_RANK
          \<and> p_rank (PAR (net n) p) = d_rank (DAG (net (up n)) d))"

text \<open>A hop that costs something: the link has an ETX of at least 1, \<open>min_hoprankinc\<close> is not 0,
  and their product, the rank increase, does not wrap to 0 in 16 bits.\<close>

definition costly_hop :: "(nat \<Rightarrow> node) \<Rightarrow> nat \<Rightarrow> nat \<Rightarrow> bool" where
  "costly_hop net d n \<longleftrightarrow>
     (case d_preferred_parent (DAG (net n) d) of None \<Rightarrow> True | Some p \<Rightarrow> etx_rank_increase (net n) (Some p) \<noteq> 0)"

lemma etx_rank_grows:
  assumes "etx_rank_increase s (Some p) \<noteq> 0" "etx_calculate_rank s (Some p) 0 \<noteq> INFINITE_RANK"
  shows "p_rank (PAR s p) < etx_calculate_rank s (Some p) 0"
proof -
  let ?r = "p_rank (PAR s p)" and ?i = "etx_rank_increase s (Some p)"
  have e: "etx_calculate_rank s (Some p) 0 = (if INFINITE_RANK - ?r < ?i then INFINITE_RANK else ?r + ?i)"
    by (simp add: etx_calculate_rank_def Let_def)
  with assms(2) have n: "\<not> INFINITE_RANK - ?r < ?i" by auto
  have b: "unat INFINITE_RANK = 65535" by (simp add: INFINITE_RANK_def)
  have l: "unat ?r \<le> 65535" using u16_less [of ?r] by linarith
  then have "?r \<le> INFINITE_RANK" unfolding word_le_nat_alt b .
  with n b l have "unat ?r + unat ?i \<le> 65535" by (simp add: word_less_nat_alt unat_sub)
  moreover have "0 < unat ?i" using assms(1) by (simp add: word_unat_eq_iff)
  ultimately have "?r < ?r + ?i" by (simp add: word_less_nat_alt unat_word_ariths)
  with e n show ?thesis by simp
qed

lemma ranked_hop_less: "ranked_hop net d up n \<Longrightarrow> costly_hop net d n \<Longrightarrow> d_rank (DAG (net (up n)) d) < d_rank (DAG (net n) d)"
proof -
  assume r: "ranked_hop net d up n" and c: "costly_hop net d n"
  from r obtain p where p: "d_preferred_parent (DAG (net n) d) = Some p"
    by (cases "d_preferred_parent (DAG (net n) d)") (simp_all add: ranked_hop_def)
  from r have f: "d_rank (DAG (net n) d) = etx_calculate_rank (net n) (Some p) 0"
    "d_rank (DAG (net n) d) \<noteq> INFINITE_RANK" "p_rank (PAR (net n) p) = d_rank (DAG (net (up n)) d)"
    unfolding ranked_hop_def p option.case by blast+
  from c have "etx_rank_increase (net n) (Some p) \<noteq> 0" by (simp add: costly_hop_def p)
  from etx_rank_grows [OF this] f show ?thesis by simp
qed

section \<open>Properties\<close>

text \<open>C10: Selecting a parent gives a parent of the DAG whose rank is finite, makes it the
  preferred one, and sets the rank of the DAG to the rank the objective function computes
  from it; the minimum rank is the smallest rank so far, and unless the rank is a new
  minimum the parent's rank is one that the configured maximum increase admits.\<close>

theorem select_parent_sets_rank:
  assumes "own_wf (own s)" "d < RPL_MAX_DAG_ENTRIES" "rpl_select_parent d s = (Some b, s')"
  shows "b \<in> set (d_parents (DAG s d)) \<and> p_rank (PAR s b) \<noteq> INFINITE_RANK
    \<and> d_preferred_parent (DAG s' d) = Some b
    \<and> d_rank (DAG s' d) = etx_calculate_rank s (Some b) 0
    \<and> d_min_rank (DAG s' d) = min (d_min_rank (DAG s d)) (d_rank (DAG s' d))
    \<and> (d_rank (DAG s' d) < d_min_rank (DAG s d) \<or> acceptable_rank (DAG s' d) (p_rank (PAR s b)))"
  by (rule select_parent_result [OF assms])

text \<open>A node with one parent of rank 256 and link ETX 1 in its only DAG.\<close>

definition demo_child :: "u16 \<Rightarrow> u16 \<Rightarrow> node" where
  "demo_child pr r = (node0 [1, 2, 3, 4, 5, 6, 7, 8])\<lparr>
     dag_table := dag0\<lparr>d_used := True, d_joined := True, d_of := Some Rpl_of_etx, d_config := DEFAULT_DODAG_CONFIG,
       d_rank := r, d_min_rank := INFINITE_RANK, d_parents := [0], d_preferred_parent := Some 0\<rparr> # replicate 3 dag0,
     parent_mem := parent0\<lparr>p_rank := pr, p_link_metric := 16\<rparr> # replicate 19 parent0,
     parent_cnt := 1 # replicate 19 0\<rparr>"

lemma demo_child_wf: "own_wf (own (demo_child pr r))"
proof -
  have "own (demo_child pr r) = \<lparr>w_dags = \<lparr>v_used = True, v_joined = True, v_parents = [0], v_pref = Some 0\<rparr>
        # replicate 3 \<lparr>v_used = False, v_joined = False, v_parents = [], v_pref = None\<rparr>,
      w_cnt = 1 # replicate 19 0, w_owner = replicate 20 0\<rparr>"
    by (simp add: own_def demo_child_def dv_def dag0_def parent0_def eval_nat_numeral)
  then show ?thesis
    by (auto simp: own_wf_def own_inv_def pool_wf_def nth_Cons' RPL_MAX_DAG_ENTRIES_def RPL_MAX_PARENTS_def)
qed

lemma demo_child_rank: "etx_calculate_rank (demo_child pr r) (Some 0) 0 = (if 65535 - pr < 256 then 65535 else pr + 256)"
  by (simp add: etx_calculate_rank_def etx_rank_increase_def demo_child_def PAR_def DAG_def parent0_def dag0_def
      DEFAULT_DODAG_CONFIG_def NEIGHBOR_INFO_FIX2ETX_def INFINITE_RANK_def)

theorem select_parent_sets_rank_witness:
  "fst (rpl_select_parent 0 (demo_child 256 700)) = Some 0
    \<and> d_rank (DAG (snd (rpl_select_parent 0 (demo_child 256 700))) 0) = 512
    \<and> d_min_rank (DAG (snd (rpl_select_parent 0 (demo_child 256 700))) 0) = 512"
proof -
  let ?s = "demo_child 256 700"
  have D: "d_parents (DAG ?s 0) = [0]" "d_preferred_parent (DAG ?s 0) = Some 0" "d_min_rank (DAG ?s 0) = INFINITE_RANK"
    "d_of (DAG ?s 0) = Some Rpl_of_etx" "0 < length (dag_table ?s)" "p_rank (PAR ?s 0) = 256"
    by (simp_all add: demo_child_def DAG_def PAR_def)
  have f: "fst (rpl_select_parent 0 ?s) = Some 0"
    using D by (simp add: rpl_select_parent_def INFINITE_RANK_def chk_of_def demo_child_rank)
  then have e: "rpl_select_parent 0 ?s = (Some 0, snd (rpl_select_parent 0 ?s))" by (simp add: prod_eq_iff)
  from select_parent_sets_rank [OF demo_child_wf _ e] f D show ?thesis
    by (simp add: RPL_MAX_DAG_ENTRIES_def demo_child_rank INFINITE_RANK_def)
qed

text \<open>C9: In a network whose ranks are finite and up to date, and in which no hop has the rank
  increase 0, following preferred parents from a node never returns to it: the rank falls at
  every hop. The condition on the increase is needed: it is a product of 16 bits that can wrap
  to 0, and then two nodes of the same rank can be the preferred parents of each other.\<close>

theorem preferred_parents_loop_free:
  assumes "\<And>i. i \<le> k \<Longrightarrow> ranked_hop net d up ((up ^^ i) n)"
    and "\<And>i. i \<le> k \<Longrightarrow> costly_hop net d ((up ^^ i) n)"
  shows "(up ^^ Suc k) n \<noteq> n \<and> d_rank (DAG (net ((up ^^ Suc k) n)) d) < d_rank (DAG (net n) d)"
proof -
  have "d_rank (DAG (net ((up ^^ Suc k) n)) d) < d_rank (DAG (net n) d)"
    using assms
  proof (induction k)
    case 0
    from ranked_hop_less [OF 0(1) [of 0] 0(2) [of 0]] show ?case by simp
  next
    case (Suc k)
    then have "d_rank (DAG (net ((up ^^ Suc k) n)) d) < d_rank (DAG (net n) d)" by simp
    with ranked_hop_less [OF Suc.prems(1) [of "Suc k"] Suc.prems(2) [of "Suc k"]] show ?case by simp
  qed
  then show ?thesis by force
qed

lemma demo_child_facts:
  "d_preferred_parent (DAG (demo_child pr r) 0) = Some 0" "d_rank (DAG (demo_child pr r) 0) = r"
  "p_rank (PAR (demo_child pr r) 0) = pr" "etx_rank_increase (demo_child pr r) (Some 0) = 256"
  by (simp_all add: demo_child_def DAG_def PAR_def etx_rank_increase_def parent0_def DEFAULT_DODAG_CONFIG_def
      NEIGHBOR_INFO_FIX2ETX_def)

theorem preferred_parents_loop_free_witness:
  "let net = (\<lambda>n :: nat. if n = 2 then demo_child 512 768 else if n = 1 then demo_child 256 512 else demo_child 0 256)
   in ((\<lambda>n. n - 1) ^^ Suc 1) (2 :: nat) \<noteq> 2 \<and> d_rank (DAG (net 0) 0) < d_rank (DAG (net 2) 0)"
proof -
  let ?net = "\<lambda>n :: nat. if n = 2 then demo_child 512 768 else if n = 1 then demo_child 256 512 else demo_child 0 256"
  have h: "ranked_hop ?net 0 (\<lambda>n. n - 1) (((\<lambda>n. n - 1) ^^ i) 2)" if "i \<le> 1" for i :: nat
  proof -
    from that consider "i = 0" | "i = 1" by linarith
    then show ?thesis by cases (simp_all add: ranked_hop_def demo_child_facts demo_child_rank INFINITE_RANK_def)
  qed
  have c: "costly_hop ?net 0 n" for n by (simp add: costly_hop_def demo_child_facts)
  from preferred_parents_loop_free [where k = 1, OF h c] show ?thesis by (simp add: demo_child_facts)
qed


text \<open>The preferred parent 0 against parent 1: with 256 against 224 it stays, with 256 against
  192, exactly half a transmission less, it does not.\<close>

definition demo_choice :: "u16 \<Rightarrow> node" where
  "demo_choice m = (demo_child 256 512)\<lparr>parent_mem := parent0\<lparr>p_mc := mc0\<lparr>mc_obj := 128\<rparr>, p_link_metric := 16\<rparr>
     # parent0\<lparr>p_mc := mc0\<lparr>mc_obj := m\<rparr>, p_link_metric := 16\<rparr> # replicate 18 parent0\<rparr>"


text \<open>A rank increase that wraps to nothing: with a \<open>min_hoprankinc\<close> of 8192, which any DIO can
  configure, and a link of ETX 8, the rank of the child is the rank of the parent.\<close>

lemma rank_increase_wraps:
  assumes "p_link_metric (PAR s p) = 128" "cf_min_hoprankinc (d_config (DAG s (p_dag (PAR s p)))) = 8192"
    "p_rank (PAR s p) \<noteq> 0"
  shows "etx_calculate_rank s (Some p) 0 = p_rank (PAR s p)"
proof -
  have z: "(8 :: u16) * 8192 = 0" by code_simp
  have f: "ucast (NEIGHBOR_INFO_FIX2ETX 128) = (8 :: u16)" by (simp add: NEIGHBOR_INFO_FIX2ETX_def)
  have i: "etx_rank_increase s (Some p) = 0" unfolding etx_rank_increase_def option.case assms(1,2) f z ..
  show ?thesis by (simp add: etx_calculate_rank_def i)
qed

end
