(* ===== verification/Rpl_Discovery.thy ===== *)
theory Rpl_Discovery
  imports Rpl_Codec Rpl_Reach
begin

text \<open>
  Route discovery end to end: the address vector that a P2P DIO carries, the partial route
  that a receiver stores from it, and the discovery reply that takes the vector back to the
  origin.
\<close>

section \<open>The route discovery option\<close>

text \<open>The fields that fit into their bits.\<close>

definition rdo_sendable :: "rpl_dag_p2p \<Rightarrow> bool" where
  "rdo_sendable Q \<longleftrightarrow> q_compr Q = RPL_P2P_RDO_COMPR \<and> q_num_routes Q < 4 \<and> q_rdo_lifetime Q < 4
     \<and> q_max_rank Q < 64 \<and> q_target Q \<noteq> []"

text \<open>The bytes of the vector: the blocks on the list, then the own address unless the node is
  origin or target.\<close>

definition sent_vector :: "node \<Rightarrow> rpl_dag \<Rightarrow> rpl_dag_p2p \<Rightarrow> nat list \<Rightarrow> bytes" where
  "sent_vector s D Q addrs =
     map (\<lambda>a. hd (p2p_addr_mem s ! a)) addrs
     @ (if rdo_adds_own s D Q then [the (rpl_get_own_addr True s) ! 15] else [])"

definition vector_ok :: "node \<Rightarrow> rpl_dag \<Rightarrow> rpl_dag_p2p \<Rightarrow> nat list \<Rightarrow> bool" where
  "vector_ok s D Q addrs \<longleftrightarrow> (\<forall>a \<in> set addrs. p2p_addr_mem s ! a \<noteq> []) \<and> length addrs \<le> RPL_MAX_SRC_ROUTE_ADDR_ENTRIES
     \<and> (rdo_adds_own s D Q \<longrightarrow> (case rpl_get_own_addr True s of None \<Rightarrow> False | Some a \<Rightarrow> length a = 16))"

definition rdo_flags :: "rpl_dag_p2p \<Rightarrow> u8" where
  "rdo_flags Q = bitmask_write 0 0x0f (bitmask_write 4 0x30
     ((if q_both_directions Q \<noteq> 0 then 0x80 else 0) OR (if q_hop_by_hop Q \<noteq> 0 then 0x40 else 0)) (q_num_routes Q)) (q_compr Q)"

definition rdo_limits :: "rpl_dag_p2p \<Rightarrow> u8" where
  "rdo_limits Q = bitmask_write 0 0x3f (bitmask_write 6 0xc0 0 (q_rdo_lifetime Q)) (q_max_rank Q)"

lemma take_1_hd: "xs \<noteq> [] \<Longrightarrow> take (Suc 0) xs = [hd xs]"
  by (cases xs) simp_all

lemma concat_singles: "(\<forall>a \<in> set addrs. mem' a \<noteq> []) \<Longrightarrow> concat (map (\<lambda>a. take (Suc 0) (mem' a)) addrs) = map (\<lambda>a. hd (mem' a)) addrs"
  by (induction addrs) (simp_all add: take_1_hd)

lemma write_rdo_bytes:
  assumes "rdo_sendable Q" "vector_ok s D Q addrs"
  shows "write_rdo s D Q addrs =
    [RPL_DIO_SUBOPT_ROUTE_DISCOVERY, 3 + of_nat (length (sent_vector s D Q addrs)), rdo_flags Q, rdo_limits Q,
     hd (q_target Q)] @ sent_vector s D Q addrs"
    "length (sent_vector s D Q addrs) \<le> 21"
proof -
  have c: "q_compr Q = 15" "16 - q_compr Q = 1" "16 - unat (q_compr Q) = 1" "unat (q_compr Q) = 15"
    using assms(1) by (simp_all add: rdo_sendable_def RPL_P2P_RDO_COMPR_def)
  have own: "rdo_adds_own s D Q \<Longrightarrow> \<exists>a. rpl_get_own_addr True s = Some a \<and> length a = 16"
    using assms(2) by (auto simp: vector_ok_def split: option.splits)
  have v: "concat (map (\<lambda>a. take 1 (p2p_addr_mem s ! a)) addrs) = map (\<lambda>a. hd (p2p_addr_mem s ! a)) addrs"
    using concat_singles [of addrs "\<lambda>a. p2p_addr_mem s ! a"] assms(2) by (simp add: vector_ok_def)
  have t: "take 1 (q_target Q) = [hd (q_target Q)]" using assms(1) by (simp add: rdo_sendable_def take_1_hd)
  have o': "(if rdo_adds_own s D Q then (case rpl_get_own_addr True s of None \<Rightarrow> [] | Some a \<Rightarrow> take 1 (drop 15 a)) else [])
      = (if rdo_adds_own s D Q then [the (rpl_get_own_addr True s) ! 15] else [])"
  proof (cases "rdo_adds_own s D Q")
    case True
    with own obtain a where a: "rpl_get_own_addr True s = Some a" "length a = 16" by blast
    then have "take 1 (drop 15 a) = [a ! 15]" using Cons_nth_drop_Suc [of 15 a] by simp
    with a True show ?thesis by simp
  qed simp
  show "write_rdo s D Q addrs =
    [RPL_DIO_SUBOPT_ROUTE_DISCOVERY, 3 + of_nat (length (sent_vector s D Q addrs)), rdo_flags Q, rdo_limits Q,
     hd (q_target Q)] @ sent_vector s D Q addrs"
    unfolding write_rdo_def Let_def c(2,3) v t
    unfolding c(4) o' sent_vector_def by (simp add: rdo_flags_def rdo_limits_def)
  show "length (sent_vector s D Q addrs) \<le> 21"
    using assms(2) by (simp add: vector_ok_def sent_vector_def rpl_sizes)
qed

text \<open>What the receiver learns from the option: the parameters, the target and the vector.\<close>

definition rdo_carries :: "rpl_dio_rdo \<Rightarrow> rpl_dag_p2p \<Rightarrow> bytes \<Rightarrow> bool" where
  "rdo_carries r Q v \<longleftrightarrow>
     (rd_both_directions r = 0 \<longleftrightarrow> q_both_directions Q = 0) \<and> (rd_hop_by_hop r = 0 \<longleftrightarrow> q_hop_by_hop Q = 0)
     \<and> rd_num_routes r = q_num_routes Q \<and> rd_compr r = q_compr Q \<and> rd_lifetime r = q_rdo_lifetime Q
     \<and> rd_max_rank r = q_max_rank Q \<and> rd_target r 0 = hd (q_target Q)
     \<and> rd_addr_len r = of_nat (length v) \<and> map (rd_addrs r) [0..<length v] = v"

lemma word8_below_4: "(w :: u8) < 4 \<Longrightarrow> w \<in> {0, 1, 2, 3}"
proof -
  assume "w < 4"
  then have "unat w < 4" by (simp add: word_less_nat_alt)
  then have "unat w \<in> {0, 1, 2, 3}" by auto
  then have "of_nat (unat w) \<in> {0, 1, 2, 3 :: u8}" by (elim insertE emptyE) simp_all
  then show ?thesis by simp
qed

lemma flags_word:
  "bitmask_write 0 0x0f (bitmask_write 4 0x30 ((if b then 0x80 else 0) OR (if h then 0x40 else 0)) n) 15 = w
    \<Longrightarrow> n \<in> {0, 1, 2, 3} \<Longrightarrow> w = (if b then 0x80 else 0) + (if h then 0x40 else 0) + 16 * n + 15"
  by (cases b; cases h; elim insertE emptyE; simp add: bitmask_write_def)

lemma flags_word_read:
  "n \<in> {0, 1, 2, 3 :: u8} \<Longrightarrow> w = (if b then 0x80 else 0) + (if h then 0x40 else 0) + 16 * n + 15 \<Longrightarrow>
     bitmask_read 0 0x0f w = 15 \<and> bitmask_read 4 0x30 w = n \<and> (w AND 0x80 = 0 \<longleftrightarrow> \<not> b) \<and> (w AND 0x40 = 0 \<longleftrightarrow> \<not> h)"
  by (cases b; cases h; elim insertE emptyE; simp add: bitmask_read_def)

lemma rdo_flags_read:
  assumes "rdo_sendable Q"
  shows "bitmask_read 0 0x0f (rdo_flags Q) = q_compr Q" "bitmask_read 4 0x30 (rdo_flags Q) = q_num_routes Q"
    "rdo_flags Q AND 0x80 = 0 \<longleftrightarrow> q_both_directions Q = 0" "rdo_flags Q AND 0x40 = 0 \<longleftrightarrow> q_hop_by_hop Q = 0"
proof -
  have n: "q_num_routes Q \<in> {0, 1, 2, 3}"
    using assms by (intro word8_below_4) (simp add: rdo_sendable_def)
  have c: "q_compr Q = 15" using assms by (simp add: rdo_sendable_def RPL_P2P_RDO_COMPR_def)
  have w: "rdo_flags Q = (if q_both_directions Q \<noteq> 0 then 0x80 else 0) + (if q_hop_by_hop Q \<noteq> 0 then 0x40 else 0)
      + 16 * q_num_routes Q + 15"
    by (rule flags_word [OF _ n]) (simp only: rdo_flags_def c)
  from flags_word_read [OF n w] c
  show "bitmask_read 0 0x0f (rdo_flags Q) = q_compr Q" "bitmask_read 4 0x30 (rdo_flags Q) = q_num_routes Q"
    "rdo_flags Q AND 0x80 = 0 \<longleftrightarrow> q_both_directions Q = 0" "rdo_flags Q AND 0x40 = 0 \<longleftrightarrow> q_hop_by_hop Q = 0"
    by simp_all
qed

lemma limits_word_read:
  assumes "l \<in> {0, 1, 2, 3 :: u8}" "m AND 0x3f = m"
  shows "bitmask_read 6 0xc0 (bitmask_write 0 0x3f (bitmask_write 6 0xc0 0 l) m) = l"
    "bitmask_read 0 0x3f (bitmask_write 0 0x3f (bitmask_write 6 0xc0 0 l) m) = m"
proof -
  have m: "m AND 0xc0 = 0"
  proof -
    have "m AND 0xc0 = m AND (0x3f AND 0xc0)" by (subst assms(2) [symmetric]) (simp only: word_bw_assocs)
    then show ?thesis by simp
  qed
  show "bitmask_read 6 0xc0 (bitmask_write 0 0x3f (bitmask_write 6 0xc0 0 l) m) = l"
    using assms(1) by (elim insertE emptyE; simp add: bitmask_write_def bitmask_read_def word_ao_dist assms(2) m)
  show "bitmask_read 0 0x3f (bitmask_write 0 0x3f (bitmask_write 6 0xc0 0 l) m) = m"
    using assms(1) by (elim insertE emptyE; simp add: bitmask_write_def bitmask_read_def word_ao_dist assms(2))
qed

lemma rdo_limits_read:
  assumes "rdo_sendable Q"
  shows "bitmask_read 6 0xc0 (rdo_limits Q) = q_rdo_lifetime Q" "bitmask_read 0 0x3f (rdo_limits Q) = q_max_rank Q"
proof -
  have l: "q_rdo_lifetime Q \<in> {0, 1, 2, 3}"
    using assms by (intro word8_below_4) (simp add: rdo_sendable_def)
  have m: "q_max_rank Q AND 0x3f = q_max_rank Q"
  proof -
    have "take_bit 6 (q_max_rank Q) = q_max_rank Q"
      using assms by (simp add: rdo_sendable_def word_less_nat_alt word_unat_eq_iff unsigned_take_bit_eq take_bit_eq_mod unat_mod)
    then show ?thesis by (simp add: take_bit_eq_mask mask_eq_exp_minus_1)
  qed
  show "bitmask_read 6 0xc0 (rdo_limits Q) = q_rdo_lifetime Q" "bitmask_read 0 0x3f (rdo_limits Q) = q_max_rank Q"
    using limits_word_read [OF l m] by (simp_all only: rdo_limits_def)
qed

lemma parse_rdo_option:
  assumes Q: "rdo_sendable Q" "vector_ok s D Q addrs" and b: "bytes_at buf i (write_rdo s D Q addrs)"
    and n: "o_rdo dio = None"
  obtains r where "option_len buf i = 5 + length (sent_vector s D Q addrs)"
    "parse_dio_option buf i (5 + length (sent_vector s D Q addrs)) dio = Some (dio\<lparr>o_rdo := Some r\<rparr>)"
    "rdo_carries r Q (sent_vector s D Q addrs)"
proof -
  let ?v = "sent_vector s D Q addrs"
  have l: "length ?v \<le> 21" by (rule write_rdo_bytes(2) [OF Q])
  from b [unfolded write_rdo_bytes(1) [OF Q]]
  have b: "buf i = RPL_DIO_SUBOPT_ROUTE_DISCOVERY" "buf (Suc i) = 3 + of_nat (length ?v)" "buf (i + 2) = rdo_flags Q"
    "buf (i + 3) = rdo_limits Q" "buf (i + 4) = hd (q_target Q)" "bytes_at buf (i + 5) ?v"
    by (simp_all add: eval_nat_numeral)
  have c: "q_compr Q = 15" using Q by (simp add: rdo_sendable_def RPL_P2P_RDO_COMPR_def)
  have n3: "(3 :: u8) + of_nat (length ?v) = of_nat (3 + length ?v)" by simp
  have len: "unat (buf (Suc i)) = 3 + length ?v"
    unfolding b(2) n3 using l by (simp add: unat_of_nat take_bit_eq_mod del: of_nat_add of_nat_numeral)
  then have ol: "option_len buf i = 5 + length ?v" by (simp add: option_len_def b(1) rpl_codes)
  define r where "r = \<lparr>rd_both_directions = buf (i + 2) AND 0x80,
     rd_num_routes = bitmask_read 4 0x30 (buf (i + 2)), rd_compr = bitmask_read 0 0x0f (buf (i + 2)),
     rd_hop_by_hop = buf (i + 2) AND 0x40, rd_lifetime = bitmask_read 6 0xc0 (buf (i + 3)),
     rd_max_rank = bitmask_read 0 0x3f (buf (i + 3)), rd_target = (\<lambda>k. buf (i + 4 + k)),
     rd_addrs = (\<lambda>k. buf (i + 4 + (16 - unat (bitmask_read 0 0x0f (buf (i + 2)))) + k)),
     rd_addr_len = of_nat (5 + length ?v) - 4 - 16 + bitmask_read 0 0x0f (buf (i + 2))\<rparr>"
  note rd = rdo_flags_read [OF Q(1)] rdo_limits_read [OF Q(1)]
  have ne: "?v \<noteq> [] \<Longrightarrow> 4 < 5 + length ?v" by simp
  have p: "parse_dio_option buf i (5 + length ?v) dio = Some (dio\<lparr>o_rdo := Some r\<rparr>)"
    using n rd(1) c b(1,3) unfolding r_def
    by (simp add: parse_dio_option_def parse_rdo_def Let_def rpl_codes RPL_P2P_RDO_COMPR_def)
  have "map (rd_addrs r) [0..<length ?v] = bget buf (i + 5) (length ?v)"
    by (simp add: r_def bget_def b(3)[simplified] rd(1) c add.commute [of 5 i])
  then have "rdo_carries r Q ?v"
    using bytes_at_bget [OF b(6)] unfolding rdo_carries_def
    by (simp add: r_def b(3)[simplified] b(4,5) rd c)
  with ol p show thesis by (rule that)
qed

section \<open>Metric and constraint\<close>

text \<open>A constraint on ETX as \<open>rpl_discover_route\<close> makes it.\<close>

definition constr_sendable :: "metric_container \<Rightarrow> bool" where
  "constr_sendable c \<longleftrightarrow> mc_type c = RPL_DAG_MC_ETX \<and> mc_flags c = RPL_DAG_MC_FLAG_C \<and> mc_aggr c = 0 \<and> mc_prec c = 0"

lemma parse_constraint_bytes:
  assumes "constr_sendable c" "bytes_at buf j ([7, 2, 0, 2] @ set16 (mc_obj c))"
  shows "is_constraint buf j" "parse_constr buf j dio = Some (dio\<lparr>o_constr := Some (c\<lparr>mc_length := 2\<rparr>)\<rparr>)" "buf (j + 3) = 2"
proof -
  from assms(2) have b: "buf j = 7" "buf (Suc j) = 2" "buf (j + 2) = 0" "buf (j + 3) = 2"
    "bytes_at buf (j + 4) (set16 (mc_obj c))"
    by (simp_all add: eval_nat_numeral)
  show "is_constraint buf j" using b(2) by (simp add: is_constraint_def rpl_consts)
  show "parse_constr buf j dio = Some (dio\<lparr>o_constr := Some (c\<lparr>mc_length := 2\<rparr>)\<rparr>)"
    using assms(1)
    by (simp add: parse_constr_def mc_header_def constr_sendable_def rpl_consts b(1,2,4) b(3)[simplified] get16_set16 [OF b(5)])
  show "buf (j + 3) = 2" by (rule b)
qed

text \<open>The option of a P2P DIO, with or without constraint.\<close>

definition constr_sent :: "metric_container \<Rightarrow> metric_container option" where
  "constr_sent c = (if mc_type c = RPL_DAG_MC_NONE then None else Some (c\<lparr>mc_length := 2\<rparr>))"

lemma parse_metric_constr:
  assumes m: "mc_sendable m" and c: "mc_type c = RPL_DAG_MC_NONE \<or> constr_sendable c"
  obtains met0 met where "dio_metric m = Some met0" "dio_constr c met0 = Some met" "length met \<le> 14"
    "\<And>buf i dio. bytes_at buf i met \<Longrightarrow> o_constr dio = None \<Longrightarrow> option_len buf i = length met
       \<and> parse_dio_option buf i (length met) dio = Some (dio\<lparr>o_mc := m, o_constr := constr_sent c\<rparr>)"
proof (cases "mc_type c = RPL_DAG_MC_NONE")
  case True
  obtain met where met: "dio_metric m = Some met"
    using m by (simp add: dio_metric_def mc_sendable_def rpl_consts)
  then have l: "length met = 8" by (rule parse_metric_option(1) [OF m _ bytes_at_packet])
  show ?thesis
  proof (rule that [OF met])
    show "dio_constr c met = Some met" using True by (simp add: dio_constr_def)
    fix buf i and dio :: rpl_dio
    assume "bytes_at buf i met" "o_constr dio = None"
    with parse_metric_option(2,3) [OF m met] True l
    show "option_len buf i = length met
       \<and> parse_dio_option buf i (length met) dio = Some (dio\<lparr>o_mc := m, o_constr := constr_sent c\<rparr>)"
      by (simp add: constr_sent_def)
  qed (simp add: l)
next
  case False
  with c have c: "constr_sendable c" by simp
  let ?om = "[7, 4, 0, 2] @ set16 (mc_obj m)" and ?oc = "[7, 2, 0, 2] @ set16 (mc_obj c)"
  have met: "dio_metric m = Some ([RPL_OPTION_DAG_METRIC_CONTAINER, 6] @ ?om)"
    using m by (simp add: dio_metric_def mc_sendable_def rpl_consts)
  let ?met = "[RPL_OPTION_DAG_METRIC_CONTAINER, 12] @ ?om @ ?oc"
  show ?thesis
  proof (rule that [OF met])
    show "dio_constr c ([RPL_OPTION_DAG_METRIC_CONTAINER, 6] @ ?om) = Some ?met"
      using c by (simp add: dio_constr_def constr_sendable_def rpl_consts Let_def)
    fix buf i and dio :: rpl_dio
    assume b: "bytes_at buf i ?met" and n: "o_constr dio = None"
    then have b: "buf i = RPL_OPTION_DAG_METRIC_CONTAINER" "buf (Suc i) = 12" "bytes_at buf (i + 2) ?om" "bytes_at buf (i + 8) ?oc"
      by (simp_all add: bytes_at_append eval_nat_numeral)
    note pm = parse_metric_bytes [OF m b(3)] and pc = parse_constraint_bytes [OF c b(4)]
    have e: "i + 2 + (4 + unat (buf (i + 2 + 3))) = i + 8" "i + 8 + (4 + unat (buf (i + 8 + 3))) = i + 14"
      unfolding pm(3) pc(3) by simp_all
    have "parse_objects buf (i + 14) (i + 8) (dio\<lparr>o_mc := m\<rparr>) = Some (dio\<lparr>o_mc := m, o_constr := Some (c\<lparr>mc_length := 2\<rparr>)\<rparr>)"
      using pc(1,2) e(2) by (subst parse_objects.simps) (simp add: parse_objects_end)
    then have "parse_objects buf (i + 14) (i + 2) dio = Some (dio\<lparr>o_mc := m, o_constr := Some (c\<lparr>mc_length := 2\<rparr>)\<rparr>)"
      using pm(1,2) e(1) by (subst parse_objects.simps) (simp add: add.commute)
    then show "option_len buf i = length ?met
       \<and> parse_dio_option buf i (length ?met) dio = Some (dio\<lparr>o_mc := m, o_constr := constr_sent c\<rparr>)"
      using False by (simp add: option_len_def b(1,2) rpl_codes parse_dio_option_def constr_sent_def)
  qed simp
qed

section \<open>The DIO of a route discovery\<close>

definition p2p_message :: "rpl_dag \<Rightarrow> bytes \<Rightarrow> bytes \<Rightarrow> bytes" where
  "p2p_message D met rdo = dio_base D @ met @ dio_config (d_config D) @ rdo"

text \<open>What a receiver should learn, with the route discovery option \<open>r\<close>.\<close>

definition p2p_content :: "rpl_dag \<Rightarrow> metric_container \<Rightarrow> rpl_dio_rdo \<Rightarrow> rpl_dio" where
  "p2p_content D c r = (dio_content D)\<lparr>o_prefix_info := None, o_rdo := Some r, o_constr := constr_sent c\<rparr>"

lemma parse_p2p_message:
  assumes D: "dag_id_ok (d_dag_id D)" "length (d_dag_id D) = 16" "d_mop D < 8"
    and m: "mc_sendable (d_mc D)" and c: "mc_type (q_constr Q) = RPL_DAG_MC_NONE \<or> constr_sendable (q_constr Q)"
    and Q: "rdo_sendable Q" "vector_ok s D' Q addrs"
  obtains met0 met where "dio_metric (d_mc D) = Some met0" "dio_constr (q_constr Q) met0 = Some met"
    "length (p2p_message D met (write_rdo s D' Q addrs)) \<le> 80"
    "\<And>rest. \<exists>r. parse_dio (packet_buf (p2p_message D met (write_rdo s D' Q addrs)) rest)
         (of_nat (length (p2p_message D met (write_rdo s D' Q addrs)))) = Some (p2p_content D (q_constr Q) r)
       \<and> rdo_carries r Q (sent_vector s D' Q addrs)"
proof -
  let ?v = "sent_vector s D' Q addrs" and ?rdo = "write_rdo s D' Q addrs"
  obtain met0 met where met: "dio_metric (d_mc D) = Some met0" "dio_constr (q_constr Q) met0 = Some met" "length met \<le> 14"
    and pm: "\<And>buf i dio. bytes_at buf i met \<Longrightarrow> o_constr dio = None \<Longrightarrow> option_len buf i = length met
       \<and> parse_dio_option buf i (length met) dio = Some (dio\<lparr>o_mc := d_mc D, o_constr := constr_sent (q_constr Q)\<rparr>)"
    using parse_metric_constr [OF m c] by blast
  let ?msg = "p2p_message D met ?rdo"
  have lv: "length ?rdo = 5 + length ?v" "length ?v \<le> 21" using write_rdo_bytes [OF Q] by simp_all
  have len: "length ?msg = 24 + length met + 16 + (5 + length ?v)"
    using D lv by (simp add: p2p_message_def length_dio_parts)
  then have l: "length ?msg \<le> 80" using met(3) lv(2) by simp
  have n: "unat (of_nat (length ?msg) :: u8) = length ?msg"
    using l by (simp add: unat_of_nat take_bit_eq_mod)
  have "\<exists>r. parse_dio (packet_buf ?msg rest) (of_nat (length ?msg)) = Some (p2p_content D (q_constr Q) r)
       \<and> rdo_carries r Q ?v" for rest
  proof -
    define buf where "buf = packet_buf ?msg rest"
    from bytes_at_packet [of ?msg rest, folded buf_def] D
    have b: "bytes_at buf 0 (dio_base D)" "bytes_at buf 24 met" "bytes_at buf (24 + length met) (dio_config (d_config D))"
      "bytes_at buf (24 + length met + 16) ?rdo"
      by (simp_all add: p2p_message_def bytes_at_append length_dio_parts add.assoc)
    define b0 where "b0 = rpl_dio0\<lparr>o_instance_id := d_instance_id D, o_version := d_version D,
      o_rank := d_rank D, o_mop := d_mop D, o_dtsn := d_dtsn_out D, o_dag_id := d_dag_id D\<rparr>"
    have b0: "o_constr b0 = None" "o_rdo b0 = None" "o_dag_id b0 = d_dag_id D" by (simp_all add: b0_def rpl_dio0_def)
    have base: "parse_dio_base buf = b0" unfolding b0_def by (rule parse_base [OF b(1) D(2,3)])
    define b1 where "b1 = b0\<lparr>o_mc := d_mc D, o_constr := constr_sent (q_constr Q)\<rparr>"
    define b2 where "b2 = b1\<lparr>o_dodag_config := Some ((d_config D)\<lparr>cf_ocp := 1\<rparr>)\<rparr>"
    have "o_rdo b2 = None" using b0 by (simp add: b1_def b2_def)
    from parse_rdo_option [OF Q b(4) this] obtain r where r: "option_len buf (24 + length met + 16) = 5 + length ?v"
      "parse_dio_option buf (24 + length met + 16) (5 + length ?v) b2 = Some (b2\<lparr>o_rdo := Some r\<rparr>)"
      "rdo_carries r Q ?v" by blast
    have "parse_dio buf (of_nat (length ?msg)) = parse_dio_options buf (length ?msg) 24 b0"
      using D(1) by (simp add: parse_dio_def base n b0(3))
    also have "\<dots> = parse_dio_options buf (length ?msg) (24 + length met) b1"
      using pm [OF b(2) b0(1)] len by (intro options_step) (simp_all add: b1_def)
    also have "\<dots> = parse_dio_options buf (length ?msg) (24 + length met + 16) b2"
      using parse_config_option [OF b(3)] len by (intro options_step) (simp_all add: b2_def)
    also have "\<dots> = parse_dio_options buf (length ?msg) (24 + length met + 16 + (5 + length ?v)) (b2\<lparr>o_rdo := Some r\<rparr>)"
      using r(1,2) len by (intro options_step) simp_all
    also have "\<dots> = Some (b2\<lparr>o_rdo := Some r\<rparr>)" using len options_end [of buf "length ?msg"] by (simp add: ac_simps)
    also have "b2\<lparr>o_rdo := Some r\<rparr> = p2p_content D (q_constr Q) r"
      using m by (simp add: b2_def b1_def b0_def p2p_content_def dio_content_def rpl_dio0_def mc_sendable_def rpl_consts)
    finally show ?thesis using r(3) unfolding buf_def by blast
  qed
  with met(1,2) l show thesis by (rule that)
qed

text \<open>The index of the route is in range as long as a slot is free.\<close>

text \<open>The slot whose route is sent: the first if at most one route is stored, else one that the
  next random number selects.\<close>

definition stored_routes :: "node \<Rightarrow> nat \<Rightarrow> nat" where
  "stored_routes s q = length (filter (\<lambda>r. r \<noteq> []) (q_partial_routes (P2P s q)))"

definition next_random :: "node \<Rightarrow> nat" where
  "next_random s = unat (fst (random_rand (rand_state s)))"

definition sent_slot :: "node \<Rightarrow> nat \<Rightarrow> nat" where
  "sent_slot s q = (if 1 < stored_routes s q then next_random s div (32767 div stored_routes s q) else 0)"

lemma choose_route_result:
  obtains g where "choose_route (stored_routes s q) s = (sent_slot s q, s\<lparr>rand_state := g\<rparr>)"
  by (cases "1 < stored_routes s q"; cases "random_rand (rand_state s)")
    (auto simp: choose_route_def rand_def sent_slot_def next_random_def intro: that [of "rand_state s"])

text \<open>All random numbers but the two largest select one of the routes.\<close>

lemma sent_slot_stored:
  assumes "next_random s < 32766" "0 < stored_routes s q" "stored_routes s q \<le> 3"
  shows "sent_slot s q < stored_routes s q"
proof -
  consider "stored_routes s q = 1" | "stored_routes s q = 2" | "stored_routes s q = 3" using assms(2,3) by linarith
  then show ?thesis
  proof cases
    case 2
    have "next_random s div 16383 < 2" using assms(1) by simp
    then show ?thesis by (simp add: sent_slot_def 2)
  next
    case 3
    have "next_random s div 10922 < 3" using assms(1) by simp
    then show ?thesis by (simp add: sent_slot_def 3)
  qed (simp add: sent_slot_def)
qed

definition chosen_vector :: "node \<Rightarrow> nat \<Rightarrow> nat \<Rightarrow> nat list \<Rightarrow> nat list" where
  "chosen_vector s d q route = (if is_one_hop s (DAG s d) (P2P s q) route then [] else route)"

text \<open>The encoder reads the address list and the pool of compressed addresses only.\<close>

lemma addr_list_views:
  assumes "addr_list s' = addr_list s"
  shows "rpl_get_own_addr b s' = rpl_get_own_addr b s" "uip_ds6_is_my_addr ip s' = uip_ds6_is_my_addr ip s"
    "rpl_p2p_is_target s' Q = rpl_p2p_is_target s Q" "rdo_adds_own s' D Q = rdo_adds_own s D Q"
proof -
  show o: "rpl_get_own_addr b s' = rpl_get_own_addr b s" for b by (simp add: rpl_get_own_addr_def assms)
  show m: "uip_ds6_is_my_addr ip s' = uip_ds6_is_my_addr ip s" for ip
    by (simp add: uip_ds6_is_my_addr_def uip_ds6_addr_lookup_def assms)
  show t: "rpl_p2p_is_target s' Q = rpl_p2p_is_target s Q" by (simp only: rpl_p2p_is_target_def o)
  show "rdo_adds_own s' D Q = rdo_adds_own s D Q" by (simp only: rdo_adds_own_def t m)
qed

lemma write_rdo_cong:
  assumes "addr_list s' = addr_list s" "p2p_addr_mem s' = p2p_addr_mem s"
  shows "write_rdo s' D Q addrs = write_rdo s D Q addrs" "is_one_hop s' D Q addrs = is_one_hop s D Q addrs"
  by (simp_all only: write_rdo_def is_one_hop_def addr_list_views [OF assms(1)] assms(2))

lemma dio_route_result:
  assumes "sent_slot s q < length (q_partial_routes (P2P s q))"
  shows "fst (dio_route d q s) = write_rdo s (DAG s d) (P2P s q) (chosen_vector s d q (q_partial_routes (P2P s q) ! sent_slot s q))"
    "DAG (snd (dio_route d q s)) d = DAG s d" "outbox (snd (dio_route d q s)) = outbox s"
proof (atomize (full))
  obtain g where g: "choose_route (stored_routes s q) s = (sent_slot s q, s\<lparr>rand_state := g\<rparr>)" by (rule choose_route_result)
  let ?s = "chk_own (s\<lparr>rand_state := g\<rparr>)"
  have c: "DAG ?s d = DAG s d" "outbox ?s = outbox s" "P2P ?s q = P2P s q" "DAG (s\<lparr>rand_state := g\<rparr>) d = DAG s d"
    "P2P (s\<lparr>rand_state := g\<rparr>) q = P2P s q"
    by (simp_all add: chk_own_def set_fault_def DAG_def P2P_def)
  have w: "write_rdo ?s D Q as = write_rdo s D Q as" "is_one_hop (s\<lparr>rand_state := g\<rparr>) D Q as = is_one_hop s D Q as" for D Q as
    by (rule write_rdo_cong; simp add: chk_own_def set_fault_def)+
  show "fst (dio_route d q s) = write_rdo s (DAG s d) (P2P s q) (chosen_vector s d q (q_partial_routes (P2P s q) ! sent_slot s q))
      \<and> DAG (snd (dio_route d q s)) d = DAG s d \<and> outbox (snd (dio_route d q s)) = outbox s"
    using assms by (simp add: dio_route_def Let_def g [unfolded stored_routes_def] chosen_vector_def c w)
qed

text \<open>A DAG whose DIO can be read back, and the state in which it is encoded.\<close>

definition discovery_sendable :: "node \<Rightarrow> nat \<Rightarrow> nat \<Rightarrow> bool" where
  "discovery_sendable s d q \<longleftrightarrow>
     d_mop (DAG s d) = RPL_MOP_P2P_ROUTE_DISCOVERY \<and> d_p2p (DAG s d) = Some q \<and> \<not> dio_suppressed s d
     \<and> d_of (DAG s d) \<noteq> None \<and> mc_type (d_mc (DAG s d)) \<noteq> RPL_DAG_MC_NONE
     \<and> dag_id_ok (d_dag_id (DAG s d)) \<and> length (d_dag_id (DAG s d)) = 16
     \<and> rdo_sendable (P2P s q) \<and> (mc_type (q_constr (P2P s q)) = RPL_DAG_MC_NONE \<or> constr_sendable (q_constr (P2P s q)))
     \<and> length (q_partial_routes (P2P s q)) = 3 \<and> sent_slot s q < 3
     \<and> (\<forall>route \<in> set (q_partial_routes (P2P s q)). vector_ok s (DAG s d) (P2P s q) route)"

definition encoding_state :: "nat \<Rightarrow> node \<Rightarrow> node" where
  "encoding_state d s = of_update_metric_container d (chk_dio_rank d s)"

lemma encoding_state_views:
  assumes d: "d < length (dag_table s)" and D: "d_of (DAG s d) \<noteq> None"
  shows "DAG (encoding_state d s) d = (DAG s d)\<lparr>d_mc := d_mc (DAG (encoding_state d s) d)\<rparr>"
    "mc_sendable (d_mc (DAG (encoding_state d s) d))" "P2P (encoding_state d s) q = P2P s q"
    "addr_list (encoding_state d s) = addr_list s" "p2p_addr_mem (encoding_state d s) = p2p_addr_mem s"
    "outbox (encoding_state d s) = outbox s" "rand_state (encoding_state d s) = rand_state s"
proof -
  define s0 where "s0 = chk_dio_rank d s"
  have s0: "s0 = s \<or> s0 = set_fault s"
    by (auto simp: s0_def chk_dio_rank_def chk_rank_def split: option.split)
  then have v: "DAG s0 d = DAG s d" "P2P s0 q = P2P s q" "addr_list s0 = addr_list s" "p2p_addr_mem s0 = p2p_addr_mem s"
    "outbox s0 = outbox s" "rand_state s0 = rand_state s" "d < length (dag_table s0)"
    using d by (auto simp: set_fault_def DAG_def P2P_def)
  have e: "encoding_state d s = etx_update_metric_container d s0"
    using D v by (auto simp: encoding_state_def s0_def [symmetric] of_update_metric_container_def)
  show "DAG (encoding_state d s) d = (DAG s d)\<lparr>d_mc := d_mc (DAG (encoding_state d s) d)\<rparr>"
    "mc_sendable (d_mc (DAG (encoding_state d s) d))"
    using v by (simp_all add: e etx_update_metric_container_def Let_def mc_sendable_def)
  show "P2P (encoding_state d s) q = P2P s q"
    "addr_list (encoding_state d s) = addr_list s" "p2p_addr_mem (encoding_state d s) = p2p_addr_mem s"
    "outbox (encoding_state d s) = outbox s" "rand_state (encoding_state d s) = rand_state s"
    using v by (simp_all add: e etx_update_metric_container_def Let_def upd_dag_def P2P_def)
qed

lemma dio_output_p2p:
  assumes D: "discovery_sendable s d q" and d: "d < length (dag_table s)"
    and met: "dio_metric (d_mc (DAG (encoding_state d s) d)) = Some met0" "dio_constr (q_constr (P2P s q)) met0 = Some met"
  shows "dio_output d a s = emit (Icmp6_send (case a of None \<Rightarrow> rplnodes_mcast | Some b \<Rightarrow> b) RPL_CODE_DIO
      (p2p_message (DAG (encoding_state d s) d) met (fst (dio_route d q (encoding_state d s)))))
      (snd (dio_route d q (encoding_state d s)))"
proof -
  let ?s = "encoding_state d s"
  define s0 where "s0 = chk_dio_rank d s"
  have f: "d_of (DAG s d) \<noteq> None" using D by (simp add: discovery_sendable_def)
  note v = encoding_state_views [OF d f]
  have s0: "DAG s0 d = DAG s d"
    by (auto simp: s0_def chk_dio_rank_def chk_rank_def split: option.split)
  have q: "d_mop (DAG ?s d) = RPL_MOP_P2P_ROUTE_DISCOVERY" "d_p2p (DAG ?s d) = Some q" "d_of (DAG ?s d) \<noteq> None"
    using D by (subst v(1), simp add: discovery_sendable_def)+
  have base: "dio_base (DAG s d) = dio_base (DAG ?s d)" by (subst v(1)) (simp add: dio_base_def)
  have e: "(if mc_type (d_mc (DAG s0 d)) \<noteq> RPL_DAG_MC_NONE then of_update_metric_container d s0 else s0) = ?s"
    using D unfolding s0 encoding_state_def s0_def [symmetric] by (simp add: discovery_sendable_def)
  have mop: "d_mop (DAG ?s d) = RPL_MOP_P2P_ROUTE_DISCOVERY \<longleftrightarrow> True" using q by simp
  have ck: "chk_of d ?s = ?s" using q(3) by (auto simp: chk_of_def)
  have opts: "dio_options d s0 = (case dio_route d q ?s of (rdo, s') \<Rightarrow> (Some ((met @ dio_config (d_config (DAG ?s d))) @ rdo), s'))"
    unfolding dio_options_def e Let_def mop if_True met(1) option.case q(2) v(3) met(2) ck by (rule refl)
  have guard: "(d_mop (DAG s d) = RPL_MOP_P2P_ROUTE_DISCOVERY \<and> d_p2p (DAG s d) = None) = False"
    "dio_suppressed s d = False" "(d_p2p (DAG s d) = None) = False"
    using D by (simp_all add: discovery_sendable_def)
  show ?thesis
    unfolding dio_output_def guard if_False s0_def [symmetric] Let_def s0 opts
    by (simp add: base p2p_message_def split_beta)
qed

text \<open>C4: The DIO that a node sends for a route discovery carries the discovery: a receiver
  reads back the DAG entry of the sender, the metric, the constraint, the parameters and the
  target of the discovery, and as address vector the stored partial route of one slot followed
  by the own address (nothing is added for the origin or the target, and a route that is only
  the origin is left out). The slot is the first if at most one route is stored; of two or
  three routes in the first slots the next random number selects one, unless it is one of the
  two largest, 32766 and 32767, which with two routes select the empty third slot and with
  three lead beyond the array.\<close>

theorem discovery_dio_round_trip:
  assumes D: "discovery_sendable s d q" and d: "d < length (dag_table s)"
  shows "let s' = dio_output d a s; D = DAG s' d; Q = P2P s q; route = q_partial_routes Q ! sent_slot s q
    in D = (DAG s d)\<lparr>d_mc := d_mc D\<rparr>
       \<and> (\<exists>msg r. outbox s' = outbox s @ [Icmp6_send (case a of None \<Rightarrow> rplnodes_mcast | Some b \<Rightarrow> b) RPL_CODE_DIO msg]
            \<and> parse_dio (packet_buf msg rest) (of_nat (length msg)) = Some (p2p_content D (q_constr Q) r)
            \<and> rdo_carries r Q (sent_vector s (DAG s d) Q (chosen_vector s d q route)))
       \<and> (next_random s < 32766 \<and> 0 < stored_routes s q \<and> (\<forall>i < stored_routes s q. q_partial_routes Q ! i \<noteq> []) \<longrightarrow> route \<noteq> [])"
proof -
  let ?s = "encoding_state d s" and ?Q = "P2P s q"
  have f: "d_of (DAG s d) \<noteq> None" using D by (simp add: discovery_sendable_def)
  note v = encoding_state_views [OF d f]
  have id: "d_dag_id (DAG ?s d) = d_dag_id (DAG s d)" "d_mop (DAG ?s d) = 4"
    using D by (subst v(1), simp add: discovery_sendable_def rpl_consts)+
  have own: "rdo_adds_own s' (DAG ?s d) Q = rdo_adds_own s' (DAG s d) Q" for s' Q by (simp add: rdo_adds_own_def id)
  have hop: "is_one_hop s' (DAG ?s d) Q r = is_one_hop s' (DAG s d) Q r" for s' Q r by (simp add: is_one_hop_def id cong: list.case_cong)
  define route where "route = q_partial_routes ?Q ! sent_slot s q"
  have slot: "sent_slot ?s q = sent_slot s q" by (simp add: sent_slot_def stored_routes_def next_random_def v(3,7))
  have "sent_slot ?s q < length (q_partial_routes (P2P ?s q))" using D by (simp add: discovery_sendable_def v(3) slot)
  note route = dio_route_result [OF this, of d, unfolded slot v(3), folded route_def]
  have mem: "route \<in> set (q_partial_routes ?Q)" using D by (simp add: discovery_sendable_def route_def)
  have stored: "next_random s < 32766 \<and> 0 < stored_routes s q \<and> (\<forall>i < stored_routes s q. q_partial_routes ?Q ! i \<noteq> []) \<longrightarrow> route \<noteq> []"
  proof -
    have "stored_routes s q \<le> 3"
      using D length_filter_le [of "\<lambda>r. r \<noteq> []" "q_partial_routes ?Q"] by (simp add: discovery_sendable_def stored_routes_def)
    with sent_slot_stored [of s q] show ?thesis unfolding route_def by blast
  qed
  let ?as = "chosen_vector s d q route"
  have as: "chosen_vector ?s d q route = ?as"
    by (simp add: chosen_vector_def write_rdo_cong(2) [OF v(4,5)] hop v(3))
  have rdo: "fst (dio_route d q ?s) = write_rdo s (DAG ?s d) ?Q ?as"
    unfolding route(1) as by (rule write_rdo_cong [OF v(4,5)])
  have "vector_ok s (DAG s d) ?Q route" using D mem by (simp add: discovery_sendable_def)
  then have vo: "vector_ok s (DAG ?s d) ?Q ?as" by (simp add: vector_ok_def own chosen_vector_def)
  have ids: "dag_id_ok (d_dag_id (DAG ?s d))" "length (d_dag_id (DAG ?s d)) = 16" "d_mop (DAG ?s d) < 8"
    and c: "mc_type (q_constr ?Q) = RPL_DAG_MC_NONE \<or> constr_sendable (q_constr ?Q)" and qs: "rdo_sendable ?Q"
    using D id by (simp_all add: discovery_sendable_def)
  obtain met0 met where met: "dio_metric (d_mc (DAG ?s d)) = Some met0" "dio_constr (q_constr ?Q) met0 = Some met"
    and pm: "\<And>rest. \<exists>r. parse_dio (packet_buf (p2p_message (DAG ?s d) met (write_rdo s (DAG ?s d) ?Q ?as)) rest)
         (of_nat (length (p2p_message (DAG ?s d) met (write_rdo s (DAG ?s d) ?Q ?as)))) = Some (p2p_content (DAG ?s d) (q_constr ?Q) r)
       \<and> rdo_carries r ?Q (sent_vector s (DAG ?s d) ?Q ?as)"
    using parse_p2p_message [OF ids v(2) c qs vo] by blast
  let ?msg = "p2p_message (DAG ?s d) met (write_rdo s (DAG ?s d) ?Q ?as)"
  note out = dio_output_p2p [OF D d met, of a, unfolded rdo]
  have o': "DAG (dio_output d a s) d = DAG ?s d" "outbox (dio_output d a s) = outbox s @
      [Icmp6_send (case a of None \<Rightarrow> rplnodes_mcast | Some b \<Rightarrow> b) RPL_CODE_DIO ?msg]"
    unfolding out using route(2) apply simp
    unfolding emit_def using route(3) v(6) by simp
  have sv: "sent_vector s (DAG ?s d) ?Q ?as = sent_vector s (DAG s d) ?Q ?as" by (simp add: sent_vector_def own)
  show ?thesis
    unfolding Let_def o'(1) route_def [symmetric] using v(1) o'(2) pm [of rest] stored unfolding sv by blast
qed

text \<open>A router on the way of a discovery from \<open>aaaa::1\<close> to a target \<open>::7\<close>: its own address is
  \<open>aaaa::9\<close>, and the one partial route it has stored consists of the router \<open>::5\<close>.\<close>

definition demo_discovery :: rpl_dag_p2p where
  "demo_discovery = p2p0\<lparr>q_dag := Some 0, q_both_directions := 0x80, q_rdo_lifetime := 2, q_lifetime := 16, q_compr := 15,
     q_target := [7], q_constr := mc0\<lparr>mc_type := 7, mc_flags := 4, mc_obj := 12800\<rparr>, q_partial_routes := [[0], [], []]\<rparr>"

definition demo_router :: node where
  "demo_router = (node0 [1, 2, 3, 4, 5, 6, 7, 8])\<lparr>
     dag_table := dag0\<lparr>d_used := True, d_joined := True, d_of := Some Rpl_of_etx, d_instance_id := 0x81,
       d_dag_id := [0xaa, 0xaa] @ replicate 13 0 @ [1], d_rank := 512, d_mop := 4, d_config := P2P_DEFAULT_DODAG_CONFIG,
       d_mc := mc0\<lparr>mc_type := 7\<rparr>, d_p2p := Some 0\<rparr> # replicate 3 dag0,
     dag_p2p_table := demo_discovery # replicate 2 p2p0,
     p2p_addr_mem := [5] # replicate 19 [0], p2p_addr_cnt := 1 # replicate 19 0,
     addr_list := [addr_entry0\<lparr>a_isused := True, a_state := ADDR_PREFERRED, a_ipaddr := [0xaa, 0xaa] @ replicate 13 0 @ [9]\<rparr>]\<rparr>"

theorem discovery_dio_round_trip_witness:
  "\<exists>msg r. outbox (dio_output 0 None demo_router) = [Icmp6_send rplnodes_mcast RPL_CODE_DIO msg]
     \<and> parse_dio (packet_buf msg (\<lambda>_. 0)) (of_nat (length msg))
         = Some (p2p_content (DAG (dio_output 0 None demo_router) 0) (q_constr (P2P demo_router 0)) r)
     \<and> rd_addr_len r = 2 \<and> map (rd_addrs r) [0..<2] = [5, 9] \<and> rd_target r 0 = 7"
proof -
  have l: "0 < length (dag_table demo_router)" by (simp add: demo_router_def)
  have D: "discovery_sendable demo_router 0 0" by code_simp
  have v: "sent_vector demo_router (DAG demo_router 0) (P2P demo_router 0)
      (chosen_vector demo_router 0 0 (q_partial_routes (P2P demo_router 0) ! sent_slot demo_router 0)) = [5, 9]"
    "q_target (P2P demo_router 0) = [7]" "outbox demo_router = []"
    by code_simp+
  from discovery_dio_round_trip [OF D l, of None "\<lambda>_. 0"] obtain msg r where
    m: "outbox (dio_output 0 None demo_router) = [Icmp6_send rplnodes_mcast RPL_CODE_DIO msg]"
      "parse_dio (packet_buf msg (\<lambda>_. 0)) (of_nat (length msg))
        = Some (p2p_content (DAG (dio_output 0 None demo_router) 0) (q_constr (P2P demo_router 0)) r)"
    and r: "rdo_carries r (P2P demo_router 0) [5, 9]"
    unfolding Let_def v by auto
  have "rd_addr_len r = 2 \<and> map (rd_addrs r) [0..<2] = [5, 9] \<and> rd_target r 0 = 7"
    using r v(2) by (simp add: rdo_carries_def numeral_2_eq_2)
  with m show ?thesis by (intro exI [of _ msg] exI [of _ r]) blast
qed

section \<open>The partial route that a receiver stores\<close>

definition route_bytes :: "node \<Rightarrow> nat \<Rightarrow> nat \<Rightarrow> bytes list" where
  "route_bytes s q i = map (\<lambda>a. p2p_addr_mem s ! a) (q_partial_routes (P2P s q) ! i)"

text \<open>The pool has a block of memory for every counter.\<close>

definition routes_wf :: "node \<Rightarrow> bool" where
  "routes_wf s \<longleftrightarrow> p2p_wf (p2v s) \<and> length (p2p_addr_mem s) = length (p2p_addr_cnt s)"

abbreviation valid_slot :: "nat \<Rightarrow> bool" where
  "valid_slot i \<equiv> i < RPL_P2P_MAX_PARTIAL_ROUTES"

lemma routes_wf_used:
  assumes "routes_wf s" "valid_p2p q" "valid_slot i"
  shows "set (q_partial_routes (P2P s q) ! i) \<subseteq> pool_used (p2p_addr_cnt s)"
proof -
  have "routes_ok (slot_route (p2v s)) (p2p_addr_cnt s)" using assms(1) by (simp add: routes_wf_def p2p_wf_def) (simp add: p2v_def)
  moreover have "(q, i) \<in> slots" using assms(2,3) by (simp add: slots_def)
  ultimately have "set (slot_route (p2v s) (q, i)) \<subseteq> pool_used (p2p_addr_cnt s)" unfolding routes_ok_def by blast
  moreover have "p2p_wf (p2v s)" using assms(1) by (simp add: routes_wf_def)
  ultimately show ?thesis by (simp add: p2v_slot [OF _ assms(2)])
qed

lemma add_addr_route:
  assumes w: "routes_wf s" and q: "valid_p2p q" "valid_slot i" and a: "add_src_route_addr q i f s = (Some a, t)"
  shows "routes_wf t" "route_bytes t q i = route_bytes s q i @ [[f 0]]" "DAG t d = DAG s d"
    "valid_p2p q' \<Longrightarrow> valid_slot j \<Longrightarrow> (q', j) \<noteq> (q, i) \<Longrightarrow> route_bytes t q' j = route_bytes s q' j"
proof -
  have w': "p2p_wf (p2v s)" using w by (simp add: routes_wf_def)
  obtain c where al: "pool_alloc (p2p_addr_cnt s) = (Some a, c)"
    and t: "t = upd_p2p q (\<lambda>Q. Q\<lparr>q_partial_routes := (q_partial_routes Q)[i := lst_add (q_partial_routes Q ! i) a]\<rparr>)
             (s\<lparr>p2p_addr_cnt := c, p2p_addr_mem := (p2p_addr_mem s)[a := [f 0]]\<rparr>)"
    using a by (auto simp: add_src_route_addr_def split: prod.splits option.splits)
  note ac = pool_alloc_Some [OF al]
  have fresh: "a \<notin> set (q_partial_routes (P2P s q') ! j)" if "valid_p2p q'" "valid_slot j" for q' j
    using routes_wf_used [OF w that] ac by (auto simp: pool_used_def)
  have old: "map (\<lambda>b. (p2p_addr_mem s)[a := x] ! b) (q_partial_routes (P2P s q') ! j) = route_bytes s q' j"
    if "valid_p2p q'" "valid_slot j" for q' j x
    unfolding route_bytes_def using fresh [OF that] by (intro map_cong refl nth_list_update_neq) auto
  have l: "q < length (dag_p2p_table s)" "i < length (q_partial_routes (P2P s q))"
    using p2p_wf_lens [OF w'] q by simp_all
  have P: "q_partial_routes (P2P t q) = (q_partial_routes (P2P s q))[i := q_partial_routes (P2P s q) ! i @ [a]]"
    "q' \<noteq> q \<Longrightarrow> P2P t q' = P2P s q'" for q'
    using l fresh [OF q] by (simp_all add: t upd_p2p_def P2P_def nth_updf lst_add_def remove1_idem)
  have m: "p2p_addr_mem t = (p2p_addr_mem s)[a := [f 0]]" by (simp add: t upd_p2p_def)
  show "DAG t d = DAG s d" by (simp add: t upd_p2p_def DAG_def)
  have "length (p2p_addr_cnt t) = length (p2p_addr_cnt s)" using length_pool_alloc [OF al] by (simp add: t upd_p2p_def)
  then show "routes_wf t" using add_src_route_addr_wf [OF w' q a] w by (simp add: routes_wf_def m)
  have "a < length (p2p_addr_mem s)" using ac w by (simp add: routes_wf_def)
  then show "route_bytes t q i = route_bytes s q i @ [[f 0]]"
    using l old [OF q] by (simp add: route_bytes_def P m)
  show "route_bytes t q' j = route_bytes s q' j" if "valid_p2p q'" "valid_slot j" "(q', j) \<noteq> (q, i)"
    using old [OF that(1,2)] that(3) l by (cases "q' = q") (simp_all add: route_bytes_def [of t] P m)
qed

lemma free_addr_list_route:
  assumes w: "routes_wf s" and q: "valid_p2p q" "valid_slot i"
  shows "routes_wf (free_addr_list q i s)" "route_bytes (free_addr_list q i s) q i = []"
    "valid_p2p q' \<Longrightarrow> valid_slot j \<Longrightarrow> (q', j) \<noteq> (q, i) \<Longrightarrow> route_bytes (free_addr_list q i s) q' j = route_bytes s q' j"
proof -
  let ?t = "free_addr_list q i s"
  have w': "p2p_wf (p2v s)" using w by (simp add: routes_wf_def)
  have l: "q < length (dag_p2p_table s)" "i < length (q_partial_routes (P2P s q))"
    using p2p_wf_lens [OF w'] q by simp_all
  have P: "q_partial_routes (P2P ?t q) = (q_partial_routes (P2P s q))[i := []]" "q' \<noteq> q \<Longrightarrow> P2P ?t q' = P2P s q'"
    "p2p_addr_mem ?t = p2p_addr_mem s" for q'
    using l by (simp_all add: free_addr_list_def upd_p2p_def P2P_def nth_updf)
  have "length (fold (\<lambda>a c. pool_free c a) as c) = length c" for as c by (induction as arbitrary: c) simp_all
  then have "length (p2p_addr_cnt ?t) = length (p2p_addr_cnt s)" by (simp add: free_addr_list_def upd_p2p_def)
  then show "routes_wf ?t" using free_addr_list_wf [OF w' q] w by (simp add: routes_wf_def P)
  show "route_bytes ?t q i = []" using l by (simp add: route_bytes_def P)
  show "route_bytes ?t q' j = route_bytes s q' j" if "valid_p2p q'" "valid_slot j" "(q', j) \<noteq> (q, i)"
    using that(3) l by (cases "q' = q") (simp_all add: route_bytes_def P)
qed

text \<open>The copy of a vector of one-byte addresses from a position \<open>j\<close>.\<close>

definition vector_bytes :: "rpl_dio_rdo \<Rightarrow> nat \<Rightarrow> bytes list" where
  "vector_bytes rdo j = map (\<lambda>k. [rd_addrs rdo k]) [j..<unat (rd_addr_len rdo)]"

lemma add_addrs_route:
  assumes q: "valid_p2p q" "valid_slot i" and c: "rd_compr rdo = 15"
  shows "routes_wf s \<Longrightarrow> free_blocks (p2p_addr_cnt s) < n \<Longrightarrow> unat j + n < 256
    \<Longrightarrow> add_addrs n q i rdo j s = (b, s')
    \<Longrightarrow> routes_wf s' \<and> DAG s' d = DAG s d
      \<and> route_bytes s' q i = (if b then route_bytes s q i @ vector_bytes rdo (unat j) else [])
      \<and> (\<forall>q' l. valid_p2p q' \<longrightarrow> valid_slot l \<longrightarrow> (q', l) \<noteq> (q, i) \<longrightarrow> route_bytes s' q' l = route_bytes s q' l)"
proof (induction n arbitrary: j s)
  case (Suc n)
  let ?f = "\<lambda>k. rd_addrs rdo (unat j + k)"
  show ?case
  proof (cases "j < rd_addr_len rdo")
    case False
    then have "vector_bytes rdo (unat j) = []" by (simp add: vector_bytes_def word_le_nat_alt not_less)
    with False Suc.prems show ?thesis by auto
  next
    case True
    obtain x t where a: "add_src_route_addr q i ?f s = (x, t)" by (rule prod.exhaust)
    show ?thesis
    proof (cases x)
      case None
      with a have "t = s" by (simp add: add_src_route_addr_def split: prod.splits option.splits)
      with Suc.prems(4) True a None have e: "b = False" "s' = free_addr_list q i s" by auto
      have "DAG (free_addr_list q i s) d = DAG s d" by (simp add: free_addr_list_def DAG_def upd_p2p_def)
      with free_addr_list_route [OF Suc.prems(1) q] e show ?thesis by simp
    next
      case (Some blk)
      note r = add_addr_route [OF Suc.prems(1) q a [unfolded Some]]
      have wrap: "unat (j + 1) = unat j + 1"
        using Suc.prems(3) by (subst unat_add_lem [THEN iffD1]) simp_all
      have rec: "add_addrs n q i rdo (j + 1) t = (b, s')"
        using Suc.prems(4) True a Some c by simp
      have bl: "free_blocks (p2p_addr_cnt t) < n" using add_addr_blocks [OF a [unfolded Some]] Suc.prems(2) by simp
      have "unat (j + 1) + n < 256" using Suc.prems(3) wrap by simp
      note IH = Suc.IH [OF r(1) bl this rec]
      have "vector_bytes rdo (unat j) = [?f 0] # vector_bytes rdo (unat (j + 1))"
        using True by (simp add: vector_bytes_def word_less_nat_alt wrap upt_conv_Cons)
      with IH r(2-4) show ?thesis by auto
    qed
  qed
qed simp

text \<open>C7: The address vector of a received route discovery is stored completely or not at all:
  in the first empty slot when it fits into the pool (a vector without address as the one
  byte of the origin's address), and otherwise the slot stays empty. Every other partial
  route, of this and of other discoveries, keeps its addresses.\<close>

theorem partial_route_stored:
  assumes "routes_wf s" "valid_p2p q" "length (p2p_addr_cnt s) \<le> RPL_MAX_SRC_ROUTE_ADDR_ENTRIES" "rd_compr rdo = 15"
    and "rpl_p2p_add_partial_route d q rdo s = (ok, s')"
  shows "routes_wf s'
    \<and> (if ok then \<exists>i. valid_slot i \<and> route_bytes s q i = []
          \<and> route_bytes s' q i = (if rd_addr_len rdo = 0 then [[d_dag_id (DAG s d) ! 15]] else vector_bytes rdo 0)
          \<and> (\<forall>q' j. valid_p2p q' \<longrightarrow> valid_slot j \<longrightarrow> (q', j) \<noteq> (q, i) \<longrightarrow> route_bytes s' q' j = route_bytes s q' j)
        else \<forall>q' j. valid_p2p q' \<longrightarrow> valid_slot j \<longrightarrow> route_bytes s' q' j = route_bytes s q' j)"
proof (cases "first_index (\<lambda>r. r = []) (q_partial_routes (P2P s q)) 0")
  case None
  with assms(1,5) show ?thesis by (auto simp: rpl_p2p_add_partial_route_def)
next
  case (Some i)
  have w': "p2p_wf (p2v s)" using assms(1) by (simp add: routes_wf_def)
  from first_index_valid [OF Some] p2p_wf_lens(3) [OF w' assms(2)]
  have i: "valid_slot i" and e: "route_bytes s q i = []" by (auto simp: route_bytes_def)
  obtain b t where a: "add_addrs (RPL_MAX_SRC_ROUTE_ADDR_ENTRIES + 1) q i rdo 0 s = (b, t)" by (rule prod.exhaust)
  have "free_blocks (p2p_addr_cnt s) < RPL_MAX_SRC_ROUTE_ADDR_ENTRIES + 1"
    using free_blocks_le [of "p2p_addr_cnt s"] assms(3) by simp
  from add_addrs_route [OF assms(2) i assms(4,1) this _ a]
  have r: "routes_wf t" "DAG t d = DAG s d" "route_bytes t q i = (if b then vector_bytes rdo 0 else [])"
    "valid_p2p q' \<Longrightarrow> valid_slot j \<Longrightarrow> (q', j) \<noteq> (q, i) \<Longrightarrow> route_bytes t q' j = route_bytes s q' j" for q' j
    by (simp_all add: e RPL_MAX_SRC_ROUTE_ADDR_ENTRIES_def)
  show ?thesis
  proof (cases "b \<and> rd_addr_len rdo = 0")
    case False
    with assms(5) a Some have "ok = b" "s' = t"
      unfolding rpl_p2p_add_partial_route_def Some option.case a prod.case by (auto split: bool.splits)
    moreover have "route_bytes t q' j = route_bytes s q' j" if "\<not> b" "valid_p2p q'" "valid_slot j" for q' j
      using r(3,4) e that by (cases "(q', j) = (q, i)") auto
    moreover have "b \<Longrightarrow> rd_addr_len rdo \<noteq> 0" using False by simp
    ultimately show ?thesis using r e i by (cases b) auto
  next
    case True
    let ?f = "\<lambda>k. d_dag_id (DAG t d) ! (unat (rd_compr rdo) + k)"
    obtain x u where c: "add_src_route_addr q i ?f t = (x, u)" by (rule prod.exhaust)
    have v: "vector_bytes rdo 0 = []" using True by (simp add: vector_bytes_def)
    show ?thesis
    proof (cases x)
      case None
      with c have "u = t" by (simp add: add_src_route_addr_def split: prod.splits option.splits)
      with assms(5) a True None c have s': "ok = False" "s' = free_addr_list q i t"
        unfolding rpl_p2p_add_partial_route_def Some option.case a prod.case by auto
      note fr = free_addr_list_route [OF r(1) assms(2) i]
      have "route_bytes s' q' j = route_bytes s q' j" if "valid_p2p q'" "valid_slot j" for q' j
        using fr(2,3) r(4) e s'(2) that by (cases "(q', j) = (q, i)") auto
      with fr(1) s' show ?thesis by simp
    next
      case (Some blk)
      with assms(5) a True c have s': "ok" "s' = u"
        unfolding rpl_p2p_add_partial_route_def \<open>first_index _ _ _ = _\<close> option.case a prod.case by auto
      note x = add_addr_route [OF r(1) assms(2) i c [unfolded Some]]
      have "route_bytes u q i = [[d_dag_id (DAG s d) ! 15]]" using x(2) r(2,3) v True assms(4) by simp
      moreover have "route_bytes u q' j = route_bytes s q' j" if "valid_p2p q'" "valid_slot j" "(q', j) \<noteq> (q, i)" for q' j
        using x(4) r(4) that by simp
      ultimately show ?thesis using s' x(1) e i True by auto
    qed
  qed
qed

definition demo_rdo :: rpl_dio_rdo where
  "demo_rdo = \<lparr>rd_both_directions = 0x80, rd_num_routes = 0, rd_compr = 15, rd_hop_by_hop = 0, rd_lifetime = 2,
     rd_max_rank = 0, rd_target = (\<lambda>_. 7), rd_addrs = (\<lambda>k. if k = 0 then 5 else 9), rd_addr_len = 2\<rparr>"

theorem partial_route_stored_witness:
  "\<exists>i. valid_slot i \<and> route_bytes (snd (rpl_p2p_add_partial_route 0 1 demo_rdo (node0 [1, 2, 3, 4, 5, 6, 7, 8]))) 1 i = [[5], [9]]"
proof -
  let ?s = "node0 [1, 2, 3, 4, 5, 6, 7, 8]"
  have w: "routes_wf ?s" using p2p_wf_node0 by (simp add: routes_wf_def node0_def)
  have l: "length (p2p_addr_cnt ?s) \<le> RPL_MAX_SRC_ROUTE_ADDR_ENTRIES" "valid_p2p 1" "rd_compr demo_rdo = 15"
    by (simp_all add: node0_def RPL_MAX_DAG_P2P_ENTRIES_def demo_rdo_def)
  have "fst (rpl_p2p_add_partial_route 0 1 demo_rdo ?s) = True" by code_simp
  then have e: "rpl_p2p_add_partial_route 0 1 demo_rdo ?s = (True, snd (rpl_p2p_add_partial_route 0 1 demo_rdo ?s))"
    by (simp add: prod_eq_iff)
  have v: "rd_addr_len demo_rdo \<noteq> 0" "vector_bytes demo_rdo 0 = [[5], [9]]"
    by (simp_all add: demo_rdo_def vector_bytes_def upt_rec)
  from partial_route_stored [OF w l(2,1,3) e] v show ?thesis by auto
qed

end
