(* ===== verification/Rpl_Reply.thy ===== *)
theory Rpl_Reply
  imports Rpl_Discovery Rpl_Memory
begin

text \<open>
  The discovery reply: what the target writes into a DRO, the origin reads back and stores
  as a source route; and the cache from which an unacknowledged DRO is sent again.
\<close>

section \<open>The reply of the target\<close>

text \<open>The bytes of a DRO with the address vector \<open>v\<close>. The flags hold the sequence number, the
  stop bit 0x20 and the bit 0x10 that asks for an acknowledgement.\<close>

definition dro_flags :: "u8 \<Rightarrow> u8" where
  "dro_flags sq = (bitmask_write 6 0xC0 0 sq OR 0x20) OR 0x10"

definition dro_message :: "rpl_dag \<Rightarrow> rpl_dag_p2p \<Rightarrow> u8 \<Rightarrow> bytes \<Rightarrow> bytes" where
  "dro_message D Q rem v =
     [d_instance_id D, d_version D, dro_flags (q_dro_seq Q), 0] @ d_dag_id D
     @ [RPL_DIO_SUBOPT_ROUTE_DISCOVERY, 3 + of_nat (length v), rdo_flags Q, rem, hd (q_target Q)] @ v"

lemma write_rdo_params:
  assumes "q_compr Q' = q_compr Q" "q_target Q' = q_target Q" "q_both_directions Q' = q_both_directions Q"
    "q_hop_by_hop Q' = q_hop_by_hop Q" "q_num_routes Q' = q_num_routes Q" "q_rdo_lifetime Q' = q_rdo_lifetime Q"
    "q_max_rank Q' = q_max_rank Q"
  shows "write_rdo s D Q' addrs = write_rdo s D Q addrs"
  by (simp only: write_rdo_def rdo_adds_own_def rpl_p2p_is_target_def assms)

text \<open>The state of the sender needs a DODAG ID of sixteen bytes; the message is not truncated.\<close>

lemma dro_output_message:
  assumes q: "d_p2p (DAG s d) = Some q" "q < length (dag_p2p_table s)" and l: "length (d_dag_id (DAG s d)) = 16"
    and Q: "rdo_sendable (P2P s q)" "vector_ok s (DAG s d) (P2P s q) addrs"
  obtains rem s1 where "outbox (dro_output d addrs s) = outbox s @
      [Icmp6_send rplnodes_mcast RPL_CODE_DRO (dro_message (DAG s d) (P2P s q) rem (sent_vector s (DAG s d) (P2P s q) addrs))]"
    "dro_output d addrs s = (let m = dro_message (DAG s d) (P2P s q) rem (sent_vector s (DAG s d) (P2P s q) addrs)
       in emit (Icmp6_send rplnodes_mcast RPL_CODE_DRO m) (dro_cache_store m s1))"
    "outbox s1 = outbox s" "dro_cache s1 = dro_cache s" "dro_cache_cnt s1 = dro_cache_cnt s" "dro_cache_mem s1 = dro_cache_mem s"
proof -
  let ?D = "DAG s d" and ?Q = "P2P s q" and ?v = "sent_vector s (DAG s d) (P2P s q) addrs"
  define s1 where "s1 = chk_own (upd_p2p q (\<lambda>Q. Q\<lparr>q_dro_seq := q_dro_seq Q + 1, q_lifetime := 0\<rparr>) s)"
  have P: "P2P s1 q = ?Q\<lparr>q_dro_seq := q_dro_seq ?Q + 1, q_lifetime := 0\<rparr>" "addr_list s1 = addr_list s"
    "p2p_addr_mem s1 = p2p_addr_mem s" "outbox s1 = outbox s"
    using q(2) by (simp_all add: s1_def chk_own_def set_fault_def upd_p2p_def P2P_def)
  have k: "dro_cache s1 = dro_cache s" "dro_cache_cnt s1 = dro_cache_cnt s" "dro_cache_mem s1 = dro_cache_mem s"
    by (simp_all add: s1_def chk_own_def set_fault_def upd_p2p_def)
  have w: "write_rdo s1 ?D (P2P s1 q) addrs = write_rdo s ?D ?Q addrs"
    by (rule trans [OF write_rdo_params write_rdo_cong(1) [OF P(2,3)]]) (simp_all add: P(1))
  note wb = write_rdo_bytes [OF Q]
  define rem where "rem = bitmask_write 0 0x3f (rdo_limits ?Q AND NOT 0x3f)
     (of_nat ((unat (3 + of_nat (length ?v) :: u8) - 2) div (16 - unat (bitmask_read 0 0x0f (rdo_flags ?Q))) - 1))"
  have rdo: "dro_rdo (write_rdo s ?D ?Q addrs)
      = [RPL_DIO_SUBOPT_ROUTE_DISCOVERY, 3 + of_nat (length ?v), rdo_flags ?Q, rem, hd (q_target ?Q)] @ ?v" (is "_ = ?r")
    unfolding wb(1) by (simp add: dro_rdo_def rem_def numeral_eq_Suc)
  have n3: "(3 :: u8) + of_nat (length ?v) = of_nat (3 + length ?v)" by simp
  have n: "unat (20 + (?r ! 1 + 2)) = 25 + length ?v"
  proof -
    have "20 + (?r ! 1 + 2) = (of_nat (25 + length ?v) :: u8)" by simp
    then show ?thesis using wb(2) by (simp add: unat_of_nat take_bit_eq_mod del: of_nat_add)
  qed
  have c: "outbox (dro_cache_store m t) = outbox t" for m t
    by (auto simp: dro_cache_store_def split: prod.split option.split)
  have out: "dro_output d addrs s = emit (Icmp6_send rplnodes_mcast RPL_CODE_DRO (dro_message ?D ?Q rem ?v))
      (dro_cache_store (dro_message ?D ?Q rem ?v) s1)"
    unfolding dro_output_def q option.case Let_def s1_def [symmetric] w rdo n
    using l by (simp add: dro_message_def dro_flags_def)
  show thesis
  proof (rule that [of rem s1])
    show "outbox (dro_output d addrs s) = outbox s @
      [Icmp6_send rplnodes_mcast RPL_CODE_DRO (dro_message ?D ?Q rem ?v)]"
      unfolding out by (simp add: emit_def c P)
  qed (simp_all only: out P k Let_def)
qed

section \<open>Room for a source route\<close>

lemma hop_add_room:
  assumes "0 < free_blocks (src_addr_cnt s)"
  obtains a t where "uip_ds6_src_route_hop_add r h rv s = (Some a, t)" "free_blocks (src_addr_cnt s) = Suc (free_blocks (src_addr_cnt t))"
proof (cases "uip_ds6_src_route_hop_add r h rv s")
  case (Pair x t)
  show thesis
  proof (cases x)
    case None
    with src_hop_add_None Pair have "\<forall>k < length (src_addr_cnt s). src_addr_cnt s ! k \<noteq> 0" by blast
    then have "free_blocks (src_addr_cnt s) = 0" by (auto simp: free_blocks_def filter_empty_conv in_set_conv_nth)
    with assms show thesis by simp
  next
    case (Some a)
    with Pair that hop_add_blocks show thesis by blast
  qed
qed

lemma src_hops_room:
  "unat addr_len - unat i \<le> free_blocks (src_addr_cnt s) \<Longrightarrow> unat addr_len - unat i < n \<Longrightarrow> unat i + n < 256
    \<Longrightarrow> src_hops n r dest addrs addr_len 15 rv i s = (b, s')
    \<Longrightarrow> b \<and> free_blocks (src_addr_cnt s) = free_blocks (src_addr_cnt s') + (unat addr_len - unat i)"
proof (induction n arbitrary: i s)
  case (Suc n)
  let ?h = "uip_create_linklocal_prefix (decompress dest 15 (map (\<lambda>k. addrs (unat i + k)) [0..<16 - unat (15 :: u8)]))"
  show ?case
  proof (cases "i < addr_len")
    case False
    with Suc.prems show ?thesis by (simp add: word_less_nat_alt)
  next
    case True
    then have lt: "unat i < unat addr_len" by (simp add: word_less_nat_alt)
    with Suc.prems(1) have "0 < free_blocks (src_addr_cnt s)" by simp
    then obtain a t where a: "uip_ds6_src_route_hop_add r ?h rv s = (Some a, t)"
      "free_blocks (src_addr_cnt s) = Suc (free_blocks (src_addr_cnt t))" by (rule hop_add_room)
    have wrap: "unat (i + 1) = unat i + 1" using Suc.prems(3) by (subst unat_add_lem [THEN iffD1]) simp_all
    have rec: "src_hops n r dest addrs addr_len 15 rv (i + 1) t = (b, s')" using Suc.prems(4) True a(1) by simp
    have "b \<and> free_blocks (src_addr_cnt t) = free_blocks (src_addr_cnt s') + (unat addr_len - (unat i + 1))"
      using Suc.IH [OF _ _ _ rec] Suc.prems(1-3) a(2) lt unfolding wrap by linarith
    with a(2) lt show ?thesis by linarith
  qed
qed simp

definition src_room :: "ipaddr \<Rightarrow> nat \<Rightarrow> 'z ds6_scheme \<Rightarrow> bool" where
  "src_room dest n s \<longleftrightarrow> uip_ds6_src_route_lookup dest s = None \<and> list_ex (\<lambda>e. \<not> s_isused e) (src_routing_table s)
     \<and> n < free_blocks (src_addr_cnt s)"

lemma src_route_add_room:
  assumes "uip_ds6_src_route_lookup dest s = None" "list_ex (\<lambda>e. \<not> s_isused e) (src_routing_table s)"
  obtains r t where "uip_ds6_src_route_add dest s = (Some r, t)" "src_addr_cnt t = src_addr_cnt s"
proof -
  obtain c o' where l: "uip_ds6_list_loop s_isused s_ipaddr (src_routing_table s) dest 128 = (c, o')" by (rule prod.exhaust)
  show thesis
  proof (cases c)
    case NOSPACE
    with l list_loop_NOSPACE assms(2) show thesis by (fastforce simp: list_ex_iff)
  next
    case FREESPACE
    with l list_loop_FREESPACE [OF l [unfolded FREESPACE]] that show thesis by (auto simp: uip_ds6_src_route_add_def)
  next
    case FOUND
    from list_loop_FOUND [OF l [unfolded FOUND]] assms(1) nth_mem show thesis
      by (fastforce simp: uip_ds6_src_route_lookup_def first_index_None prefixcmp_128 uip_ipaddr_cmp_def)
  qed
qed

lemma add_src_route_room:
  assumes "src_room dest (unat addr_len) s" "length (src_addr_cnt s) = UIP_DS6_SRC_ROUTE_ADDR_NB"
  obtains r where "fst (rpl_p2p_add_src_route dest addrs addr_len 15 rv s) = Some r"
proof -
  obtain r t where a: "uip_ds6_src_route_add dest s = (Some r, t)" "src_addr_cnt t = src_addr_cnt s"
    using assms(1) by (auto simp: src_room_def elim: src_route_add_room)
  have fb: "unat addr_len < free_blocks (src_addr_cnt s)" using assms(1) by (simp add: src_room_def)
  then have le: "unat addr_len < UIP_DS6_SRC_ROUTE_ADDR_NB" using free_blocks_le [of "src_addr_cnt s"] assms(2) by simp
  obtain b u where h: "src_hops (UIP_DS6_SRC_ROUTE_ADDR_NB + 1) r dest addrs addr_len 15 rv 0 (set_src_lifetime r 510 t) = (b, u)"
    by (rule prod.exhaust)
  have "b \<and> free_blocks (src_addr_cnt s) = free_blocks (src_addr_cnt u) + unat addr_len"
    using src_hops_room [OF _ _ _ h] fb le a(2) by (simp add: UIP_DS6_SRC_ROUTE_ADDR_NB_def)
  with fb have b: "b = True" "0 < free_blocks (src_addr_cnt u)" by auto
  from b(2) obtain w v where "uip_ds6_src_route_hop_add r (uip_create_linklocal_prefix (take 16 dest)) False u = (Some w, v)"
    by (rule hop_add_room)
  with a h b that show thesis by (simp add: rpl_p2p_add_src_route_def del: src_hops.simps)
qed

section \<open>The origin\<close>

definition dro_packet :: "bytes \<Rightarrow> (nat \<Rightarrow> u8) \<Rightarrow> packet \<Rightarrow> packet" where
  "dro_packet msg rest k = k\<lparr>k_code := RPL_CODE_DRO, k_buf := packet_buf msg rest, k_len := of_nat (length msg)\<rparr>"

lemma dro_message_bytes:
  assumes "bytes_at buf 0 (dro_message D Q rem v)" "length (d_dag_id D) = 16"
  shows "buf 2 = dro_flags (q_dro_seq Q)" "bget buf 4 16 = d_dag_id D" "buf 20 = RPL_DIO_SUBOPT_ROUTE_DISCOVERY"
    "buf 21 = 3 + of_nat (length v)" "buf 22 = rdo_flags Q" "buf 24 = hd (q_target Q)" "bytes_at buf 25 v"
proof -
  have b: "buf 2 = dro_flags (q_dro_seq Q)" "bytes_at buf 4 (d_dag_id D)"
    "bytes_at buf 20 [RPL_DIO_SUBOPT_ROUTE_DISCOVERY, 3 + of_nat (length v), rdo_flags Q, rem, hd (q_target Q)]"
    "bytes_at buf 25 v"
    using assms by (simp_all add: dro_message_def bytes_at_append eval_nat_numeral)
  show "buf 2 = dro_flags (q_dro_seq Q)" "bytes_at buf 25 v" by (rule b)+
  show "bget buf 4 16 = d_dag_id D" using bytes_at_bget [OF b(2)] assms(2) by simp
  show "buf 20 = RPL_DIO_SUBOPT_ROUTE_DISCOVERY" "buf 21 = 3 + of_nat (length v)" "buf 22 = rdo_flags Q"
    "buf 24 = hd (q_target Q)"
    using b(3) by (simp_all add: eval_nat_numeral)
qed

lemma dro_flags_ack: "dro_flags sq AND 0x10 \<noteq> 0"
proof -
  have "bit (dro_flags sq AND 0x10) 4" unfolding dro_flags_def by (simp add: bit_simps)
  then show ?thesis by auto
qed

lemma dro_stop_frame:
  "src_routing_table (dro_stop b s) = src_routing_table s" "src_addr_cnt (dro_stop b s) = src_addr_cnt s"
  "src_addr_mem (dro_stop b s) = src_addr_mem s" "addr_list (dro_stop b s) = addr_list s"
  by (simp_all add: dro_stop_def with_p2p_views upd_p2p_def upd_dag_def set_fault_def split: option.split)

lemma dro_notify_frame:
  "src_routing_table (dro_notify b s) = src_routing_table s" "src_addr_cnt (dro_notify b s) = src_addr_cnt s"
  "src_addr_mem (dro_notify b s) = src_addr_mem s"
  by (simp_all add: dro_notify_def with_p2p_views set_fault_def emit_def split: option.split)

text \<open>The hops that a vector stands for, all link-local addresses.\<close>

definition hop_of :: "ipaddr \<Rightarrow> u8 \<Rightarrow> ipaddr" where
  "hop_of prefix b = uip_create_linklocal_prefix (take 15 prefix @ [b])"

lemma vector_hops_bytes:
  assumes "bytes_at buf i v"
  shows "vector_hops dest 15 (\<lambda>k. buf (i + k)) 0 (length v) = map (hop_of dest) v"
proof -
  have "vector_hops dest 15 (\<lambda>k. buf (i + k)) 0 (length v) = map (\<lambda>p. hop_of dest (buf (i + p))) [0..<length v]"
    by (simp add: vector_hops_def decompress_def hop_of_def)
  also have "\<dots> = map (hop_of dest) v"
    using assms by (auto simp: bytes_at_nth intro!: nth_equalityI)
  finally show ?thesis .
qed

lemma dro_store_message:
  assumes b: "bytes_at buf 0 (dro_message D Q rem v)" "length (d_dag_id D) = 16"
    and Q: "rdo_sendable Q" "q_hop_by_hop Q = 0" and l: "length v \<le> 21"
  shows "dro_store_route buf n 20 s =
      snd (rpl_p2p_add_src_route (take 15 (d_dag_id D) @ [hd (q_target Q)]) (\<lambda>k. buf (25 + k)) (of_nat (length v)) 15 False s)"
    "\<exists>src. dro_ack_packet buf 20 s = Some (Buf_send src (take 15 (d_dag_id D) @ [hd (q_target Q)]) RPL_CODE_DRO_ACK
         (bget (buf(2 := buf 2 AND 0xC0, 3 := 0)) 0 20))"
proof -
  note m = dro_message_bytes [OF b]
  note f = rdo_flags_read [OF Q(1)]
  have c: "q_compr Q = 15" using Q by (simp add: rdo_sendable_def RPL_P2P_RDO_COMPR_def)
  have h: "buf 22 AND 0x40 = 0" "bitmask_read 0 0x0f (buf 22) = 15" using f Q(2) c by (simp_all add: m(5))
  have t: "decompress (bget buf 4 16) 15 (bget buf 24 1) = take 15 (d_dag_id D) @ [hd (q_target Q)]"
    by (simp add: decompress_def m(2)) (simp add: bget_def m(6))
  have t': "bget (buf(2 := x, 3 := y)) 24 1 = bget buf 24 1" for x y by (simp add: bget_def)
  have e: "buf 21 - 2 - 16 + 15 = of_nat (length v)" by (simp add: m(4))
  have e': "(\<lambda>k. buf (20 + 4 + 16 - 15 + k)) = (\<lambda>k. buf (25 + k))" by simp
  show "dro_store_route buf n 20 s =
      snd (rpl_p2p_add_src_route (take 15 (d_dag_id D) @ [hd (q_target Q)]) (\<lambda>k. buf (25 + k)) (of_nat (length v)) 15 False s)"
    using h t e by (simp add: dro_store_route_def Let_def)
  show "\<exists>src. dro_ack_packet buf 20 s = Some (Buf_send src (take 15 (d_dag_id D) @ [hd (q_target Q)]) RPL_CODE_DRO_ACK
         (bget (buf(2 := buf 2 AND 0xC0, 3 := 0)) 0 20))"
    using h t dro_flags_ack [of "q_dro_seq Q"] t' by (simp add: dro_ack_packet_def m(1) Let_def)
qed

text \<open>C6: The reply of the target reaches the origin's routing table: the DRO that the target
  sends for a partial route makes an origin that receives it, and that has room for the
  route, store exactly this route to the target, hop by hop, and answer the target with an
  acknowledgement; the pools of source routes stay well-formed.\<close>

theorem reply_installs_route:
  assumes q: "d_p2p (DAG t d) = Some q" "q < length (dag_p2p_table t)" and l: "length (d_dag_id (DAG t d)) = 16"
    and Q: "rdo_sendable (P2P t q)" "vector_ok t (DAG t d) (P2P t q) addrs" "q_hop_by_hop (P2P t q) = 0"
      "rpl_p2p_is_target t (P2P t q)"
    and s: "src_wf s" "uip_ds6_is_my_addr (d_dag_id (DAG t d)) s"
      "src_room (take 15 (d_dag_id (DAG t d)) @ [hd (q_target (P2P t q))]) (length addrs) s"
  shows "\<exists>msg. outbox (dro_output d addrs t) = outbox t @ [Icmp6_send rplnodes_mcast RPL_CODE_DRO msg]
    \<and> (let (out, s') = dro_input (dro_packet msg rest k) s;
           origin = d_dag_id (DAG t d); target = take 15 origin @ [hd (q_target (P2P t q))]
       in src_wf s'
          \<and> (\<exists>r. uip_ds6_src_route_lookup target s' = Some r
               \<and> src_route_hops r s' = map (\<lambda>a. hop_of target (hd (p2p_addr_mem t ! a))) addrs @ [uip_create_linklocal_prefix target])
          \<and> (\<exists>src ack. out = Some (Buf_send src target RPL_CODE_DRO_ACK ack)))"
proof -
  let ?D = "DAG t d" and ?Q = "P2P t q"
  let ?v = "map (\<lambda>a. hd (p2p_addr_mem t ! a)) addrs" and ?target = "take 15 (d_dag_id ?D) @ [hd (q_target ?Q)]"
  have v: "sent_vector t ?D ?Q addrs = ?v" using Q(4) by (simp add: sent_vector_def rdo_adds_own_def)
  obtain rem where msg: "outbox (dro_output d addrs t) = outbox t @
      [Icmp6_send rplnodes_mcast RPL_CODE_DRO (dro_message ?D ?Q rem ?v)]"
    using dro_output_message [OF q l Q(1,2)] unfolding v by blast
  let ?msg = "dro_message ?D ?Q rem ?v"
  define buf where "buf = packet_buf ?msg rest"
  have b: "bytes_at buf 0 ?msg" by (simp add: buf_def bytes_at_packet)
  have lv: "length ?v \<le> 21" using write_rdo_bytes(2) [OF Q(1,2)] by (simp add: v)
  note m = dro_message_bytes [OF b l]
  note st = dro_store_message [OF b l Q(1,3) lv]
  have pos: "find_rdo buf n 20 = 20" for n by (subst find_rdo.simps) (simp add: m(3))
  let ?s = "dro_stop buf s"
  have w: "src_wf ?s" using s(1) src_wf_srv [of ?s s] by simp
  have my: "uip_ds6_is_my_addr (bget buf 4 16) ?s"
    using s(2) addr_list_views(2) [OF dro_stop_frame(4)] by (simp add: m(2))
  obtain x u where a: "rpl_p2p_add_src_route ?target (\<lambda>k. buf (25 + k)) (of_nat (length ?v)) 15 False ?s = (x, u)"
    by (rule prod.exhaust)
  have n: "unat (of_nat (length ?v) :: u8) = length ?v" using lv by (simp add: unat_of_nat take_bit_eq_mod)
  have "src_room ?target (unat (of_nat (length ?v) :: u8)) ?s"
    unfolding n using s(3) by (simp add: src_room_def uip_ds6_src_route_lookup_def dro_stop_frame)
  moreover have "length (src_addr_cnt ?s) = UIP_DS6_SRC_ROUTE_ADDR_NB" using w by (simp add: src_wf_def)
  ultimately obtain r where "fst (rpl_p2p_add_src_route ?target (\<lambda>k. buf (25 + k)) (of_nat (length ?v)) 15 False ?s) = Some r"
    by (rule add_src_route_room)
  then have r: "x = Some r" by (simp only: a fst_conv)
  have res: "src_wf u" "uip_ds6_src_route_lookup ?target u = Some r"
    "src_route_hops r u = map (hop_of ?target) ?v @ [uip_create_linklocal_prefix (take 16 ?target)]"
    using add_src_route_result [OF _ _ _ _ a] w r vector_hops_bytes [OF m(7), of ?target] n
    by (simp_all add: src_wf_def Let_def)
  have in1: "dro_input (dro_packet ?msg rest k) s = (dro_ack_packet buf 20 u, dro_notify buf u)"
    using my by (simp add: dro_input_def dro_packet_def flip: buf_def) (use a in \<open>simp add: pos st(1)\<close>)
  let ?s' = "dro_notify buf u"
  have "src_wf ?s'" using res(1) src_wf_srv [of ?s' u] by simp
  moreover have "uip_ds6_src_route_lookup ?target ?s' = Some r" "src_route_hops r ?s' = src_route_hops r u"
    using res(2) by (simp_all add: uip_ds6_src_route_lookup_def src_route_hops_def dro_notify_frame)
  ultimately show ?thesis
    using msg in1 res(3) st(2) [of u] l by (intro exI [of _ ?msg]) (auto simp: Let_def comp_def)
qed

text \<open>The target \<open>::7\<close> of the discovery, and the origin \<open>aaaa::1\<close> with an empty source-route table.\<close>

definition demo_target :: node where
  "demo_target = demo_router\<lparr>addr_list := [addr_entry0\<lparr>a_isused := True, a_state := ADDR_PREFERRED,
     a_ipaddr := [0xaa, 0xaa] @ replicate 13 0 @ [7]\<rparr>]\<rparr>"

definition demo_origin :: node where
  "demo_origin = (node0 [1, 2, 3, 4, 5, 6, 7, 8])\<lparr>addr_list := [addr_entry0\<lparr>a_isused := True, a_state := ADDR_PREFERRED,
     a_ipaddr := [0xaa, 0xaa] @ replicate 13 0 @ [1]\<rparr>]\<rparr>"

theorem reply_installs_route_witness:
  "\<exists>msg r. outbox (dro_output 0 [0] demo_target) = outbox demo_target @ [Icmp6_send rplnodes_mcast RPL_CODE_DRO msg]
    \<and> src_route_hops r (snd (dro_input (dro_packet msg (\<lambda>_. 0) demo_dio_packet) demo_origin))
        = map (\<lambda>b. [0xfe, 0x80, 0, 0, 0, 0, 0, 0, 0, 0, 0, 0, 0, 0, 0, b]) [5, 7]"
proof -
  have q: "d_p2p (DAG demo_target 0) = Some 0" "0 < length (dag_p2p_table demo_target)"
    "length (d_dag_id (DAG demo_target 0)) = 16" "rdo_sendable (P2P demo_target 0)"
    "vector_ok demo_target (DAG demo_target 0) (P2P demo_target 0) [0]" "q_hop_by_hop (P2P demo_target 0) = 0"
    "rpl_p2p_is_target demo_target (P2P demo_target 0)"
    by code_simp+
  have "src_wf demo_origin"
    by (simp add: demo_origin_def src_wf_def src_inv_def uniq_def ds6_zero pool_wf_def pool_used_def node0_def)
  moreover have "uip_ds6_is_my_addr (d_dag_id (DAG demo_target 0)) demo_origin"
    "src_room (take 15 (d_dag_id (DAG demo_target 0)) @ [hd (q_target (P2P demo_target 0))]) (length [0 :: nat]) demo_origin"
    by code_simp+
  moreover have t: "take 15 (d_dag_id (DAG demo_target 0)) @ [hd (q_target (P2P demo_target 0))]
      = [0xaa, 0xaa, 0, 0, 0, 0, 0, 0, 0, 0, 0, 0, 0, 0, 0, 7]" "hd (p2p_addr_mem demo_target ! 0) = 5"
    by code_simp+
  moreover have h: "map (\<lambda>a. hop_of [0xaa, 0xaa, 0, 0, 0, 0, 0, 0, 0, 0, 0, 0, 0, 0, 0, 7] a) [5]
        @ [uip_create_linklocal_prefix [0xaa, 0xaa, 0, 0, 0, 0, 0, 0, 0, 0, 0, 0, 0, 0, 0, 7]]
      = map (\<lambda>b. [0xfe, 0x80, 0, 0, 0, 0, 0, 0, 0, 0, 0, 0, 0, 0, 0, b]) [5, 7]"
    by code_simp
  ultimately show ?thesis
    using reply_installs_route [OF q, of demo_origin "\<lambda>_. 0" demo_dio_packet] by (auto simp: Let_def split_beta)
qed

section \<open>Retransmission\<close>

definition cached_message :: "node \<Rightarrow> nat \<Rightarrow> bytes" where
  "cached_message s c = take (unat (c_length (dro_cache_mem s ! c))) (c_buffer (dro_cache_mem s ! c))"

lemma dro_cache_store_entry:
  assumes "length m \<le> RPL_DRO_CACHE_ENTRY_SIZE" "pool_alloc (dro_cache_cnt s) = (Some c, cnt)" "c < length (dro_cache_mem s)"
  shows "cached_message (dro_cache_store m s) c = m" "c_rexmits (dro_cache_mem (dro_cache_store m s) ! c) = 0"
    "dro_cache (dro_cache_store m s) = lst_add (dro_cache s) c" "dro_cache_cnt (dro_cache_store m s) = cnt"
    "length (dro_cache_mem (dro_cache_store m s)) = length (dro_cache_mem s)" "outbox (dro_cache_store m s) = outbox s"
proof -
  have n: "unat (of_nat (length m) :: u8) = length m"
    using assms(1) by (simp add: RPL_DRO_CACHE_ENTRY_SIZE_def unat_of_nat take_bit_eq_mod)
  show "cached_message (dro_cache_store m s) c = m" "c_rexmits (dro_cache_mem (dro_cache_store m s) ! c) = 0"
    "dro_cache (dro_cache_store m s) = lst_add (dro_cache s) c" "dro_cache_cnt (dro_cache_store m s) = cnt"
    "length (dro_cache_mem (dro_cache_store m s)) = length (dro_cache_mem s)" "outbox (dro_cache_store m s) = outbox s"
    using assms by (simp_all add: dro_cache_store_def cached_message_def n)
qed

lemma dro_rexmit_first:
  assumes "c < length (dro_cache_mem s)" "c_rexmits (dro_cache_mem s ! c) = 0"
  shows "outbox (dro_rexmit c s) = outbox s @ [Icmp6_send rplnodes_mcast RPL_CODE_DRO (cached_message s c)]"
    "cached_message (dro_rexmit c s) c = cached_message s c" "c_rexmits (dro_cache_mem (dro_rexmit c s) ! c) = 1"
    "ct_active (c_timer (dro_cache_mem (dro_rexmit c s) ! c))" "dro_cache (dro_rexmit c s) = dro_cache s"
    "dro_cache_cnt (dro_rexmit c s) = dro_cache_cnt s" "length (dro_cache_mem (dro_rexmit c s)) = length (dro_cache_mem s)"
  using assms by (simp_all add: dro_rexmit_def Let_def cached_message_def emit_def ctimer_reset_def)

lemma dro_rexmit_last:
  assumes "c < length (dro_cache_mem s)" "c_rexmits (dro_cache_mem s ! c) = 1"
  shows "outbox (dro_rexmit c s) = outbox s @ [Icmp6_send rplnodes_mcast RPL_CODE_DRO (cached_message s c)]"
    "dro_cache (dro_rexmit c s) = remove1 c (dro_cache s)" "dro_cache_cnt (dro_rexmit c s) = pool_free (dro_cache_cnt s) c"
  using assms by (simp_all add: dro_rexmit_def Let_def cached_message_def emit_def)

text \<open>C19: A reply that nobody acknowledges is sent three times and then forgotten: when the
  cache has a free entry, the first expiry of its timer repeats the message and starts the
  timer again, and the second one repeats it and releases the entry.\<close>

theorem reply_retransmitted_twice:
  assumes q: "d_p2p (DAG t d) = Some q" "q < length (dag_p2p_table t)" and l: "length (d_dag_id (DAG t d)) = 16"
    and Q: "rdo_sendable (P2P t q)" "vector_ok t (DAG t d) (P2P t q) addrs"
    and c: "fst (pool_alloc (dro_cache_cnt t)) = Some c" "c < length (dro_cache_mem t)" "c \<notin> set (dro_cache t)"
  shows "let s1 = dro_output d addrs t; s2 = dro_rexmit c s1; s3 = dro_rexmit c s2
    in (\<exists>m. outbox s3 = outbox t @ replicate 3 (Icmp6_send rplnodes_mcast RPL_CODE_DRO m))
       \<and> dro_cache s2 = dro_cache t @ [c] \<and> ct_active (c_timer (dro_cache_mem s2 ! c))
       \<and> dro_cache s3 = dro_cache t \<and> dro_cache_cnt s3 = dro_cache_cnt t"
proof -
  obtain cnt where al: "pool_alloc (dro_cache_cnt t) = (Some c, cnt)" using c(1) by (metis prod.collapse)
  let ?v = "sent_vector t (DAG t d) (P2P t q) addrs"
  obtain rem u where o: "dro_output d addrs t = (let m = dro_message (DAG t d) (P2P t q) rem ?v
       in emit (Icmp6_send rplnodes_mcast RPL_CODE_DRO m) (dro_cache_store m u))"
    and u: "outbox u = outbox t" "dro_cache u = dro_cache t" "dro_cache_cnt u = dro_cache_cnt t" "dro_cache_mem u = dro_cache_mem t"
    using dro_output_message [OF q l Q] by blast
  let ?m = "dro_message (DAG t d) (P2P t q) rem ?v"
  have len: "length ?m \<le> RPL_DRO_CACHE_ENTRY_SIZE"
    using write_rdo_bytes(2) [OF Q] l by (simp add: dro_message_def RPL_DRO_CACHE_ENTRY_SIZE_def)
  note st = dro_cache_store_entry [OF len, of u c cnt, unfolded u, OF al c(2)]
  define s1 where "s1 = dro_output d addrs t"
  define s2 where "s2 = dro_rexmit c s1"
  have s1: "cached_message s1 c = ?m" "c_rexmits (dro_cache_mem s1 ! c) = 0" "dro_cache s1 = dro_cache t @ [c]"
    "dro_cache_cnt s1 = cnt" "c < length (dro_cache_mem s1)"
    "outbox s1 = outbox t @ [Icmp6_send rplnodes_mcast RPL_CODE_DRO ?m]"
    using st c(2,3) by (simp_all add: s1_def o Let_def lst_add_def remove1_idem emit_def cached_message_def)
  note r1 = dro_rexmit_first [OF s1(5,2), folded s2_def]
  have "c < length (dro_cache_mem s2)" using r1(7) s1(5) by simp
  note r2 = dro_rexmit_last [OF this r1(3)]
  have "cnt = (dro_cache_cnt t)[c := 1]" "dro_cache_cnt t ! c = 0" "c < length (dro_cache_cnt t)"
    using pool_alloc_Some [OF al] by simp_all
  then have "pool_free cnt c = dro_cache_cnt t"
    by (simp add: pool_free_def list_update_same_conv)
  then show ?thesis
    unfolding Let_def s1_def [symmetric] s2_def [symmetric]
    using r1 r2 s1 c(3) by (auto simp: eval_nat_numeral remove1_append)
qed

theorem reply_retransmitted_twice_witness:
  "dro_cache (dro_rexmit 0 (dro_output 0 [0] demo_target)) = [0]
    \<and> dro_cache (dro_rexmit 0 (dro_rexmit 0 (dro_output 0 [0] demo_target))) = []"
proof -
  have q: "d_p2p (DAG demo_target 0) = Some 0" "0 < length (dag_p2p_table demo_target)"
    "length (d_dag_id (DAG demo_target 0)) = 16" "rdo_sendable (P2P demo_target 0)"
    "vector_ok demo_target (DAG demo_target 0) (P2P demo_target 0) [0]"
    "fst (pool_alloc (dro_cache_cnt demo_target)) = Some 0" "0 < length (dro_cache_mem demo_target)"
    "0 \<notin> set (dro_cache demo_target)"
    by code_simp+
  have "dro_cache demo_target = []" by code_simp
  with reply_retransmitted_twice [OF q] show ?thesis by (simp add: Let_def)
qed

end
