(* ===== verification/Rpl_Lifecycle.thy ===== *)
theory Rpl_Lifecycle
  imports Rpl_Reach
begin

text \<open>
  What the timers do to the DAGs over time: the end of a temporary DAG, and the Trickle
  timer of the DIOs.
\<close>

section \<open>What the purge of a discovery depends on\<close>

definition lifecycle :: "node \<Rightarrow> bool list \<times> rpl_dag_p2p list \<times> u8 list" where
  "lifecycle s = (map d_used (dag_table s), dag_p2p_table s, p2p_addr_cnt s)"

lemma lifecycle_used:
  "lifecycle s = lifecycle t \<Longrightarrow> d < length (dag_table t) \<Longrightarrow> d_used (DAG s d) = d_used (DAG t d)"
  "lifecycle s = lifecycle t \<Longrightarrow> length (dag_table s) = length (dag_table t)"
  "lifecycle s = lifecycle t \<Longrightarrow> dag_p2p_table s = dag_p2p_table t"
  "lifecycle s = lifecycle t \<Longrightarrow> p2p_addr_cnt s = p2p_addr_cnt t"
proof -
  assume e: "lifecycle s = lifecycle t"
  then have m: "map d_used (dag_table s) = map d_used (dag_table t)" by (simp add: lifecycle_def)
  from map_eq_imp_length_eq [OF m] show l: "length (dag_table s) = length (dag_table t)" .
  show "dag_p2p_table s = dag_p2p_table t" "p2p_addr_cnt s = p2p_addr_cnt t" using e by (simp_all add: lifecycle_def)
  show "d_used (DAG s d) = d_used (DAG t d)" if "d < length (dag_table t)"
    using that l arg_cong [OF m, of "\<lambda>xs. xs ! d"] by (simp add: DAG_def)
qed

lemma lifecycle_upd_dag: "(\<And>D. d_used (f D) = d_used D) \<Longrightarrow> lifecycle (upd_dag d f s) = lifecycle s"
  by (simp add: lifecycle_def upd_dag_def map_updf_same)

lemma lifecycle_frames [simp]:
  "lifecycle (s\<lparr>routing_table := a\<rparr>) = lifecycle s" "lifecycle (s\<lparr>defrt_list := b\<rparr>) = lifecycle s"
  "lifecycle (s\<lparr>parent_cnt := c\<rparr>) = lifecycle s" "lifecycle (emit m s) = lifecycle s" "lifecycle (set_fault s) = lifecycle s"
  by (simp_all add: lifecycle_def emit_def set_fault_def)

lemma lifecycle_remove_parent [simp]: "lifecycle (rpl_remove_parent d p s) = lifecycle s"
  by (simp add: rpl_remove_parent_def Let_def lifecycle_upd_dag uip_ds6_route_rm_by_nexthop_def uip_ds6_defrt_rm_def
      split: option.split)

lemma lifecycle_remove_parents [simp]: "lifecycle (rpl_remove_parents d r s) = lifecycle s"
  unfolding rpl_remove_parents_def by (rule frame_fold) simp

lemma lifecycle_no_default_route [simp]: "lifecycle (snd (rpl_set_default_route d None s)) = lifecycle s"
  by (simp add: rpl_set_default_route_def uip_ds6_defrt_rm_def Let_def split: option.split)

lemma lifecycle_remove_routes [simp]: "lifecycle (rpl_remove_routes d s) = lifecycle s"
  by (simp add: rpl_remove_routes_def)

section \<open>The end of a temporary DAG\<close>

text \<open>The extension \<open>q\<close> of the DAG \<open>d\<close> in use.\<close>

definition discovery_at :: "node \<Rightarrow> nat \<Rightarrow> nat \<Rightarrow> bool" where
  "discovery_at s q d \<longleftrightarrow> q < length (dag_p2p_table s) \<and> d < length (dag_table s)
     \<and> q_dag (P2P s q) = Some d \<and> d_used (DAG s d) \<and> length (q_partial_routes (P2P s q)) = RPL_P2P_MAX_PARTIAL_ROUTES"

lemma discovery_at_lifecycle:
  "lifecycle s = lifecycle t \<Longrightarrow> discovery_at s q d = discovery_at t q d"
  "lifecycle s = lifecycle t \<Longrightarrow> P2P s q = P2P t q"
proof -
  assume e: "lifecycle s = lifecycle t"
  show p: "P2P s q = P2P t q" by (simp add: P2P_def lifecycle_used(3) [OF e])
  show "discovery_at s q d = discovery_at t q d"
    unfolding discovery_at_def p lifecycle_used(2,3) [OF e] using lifecycle_used(1) [OF e, of d] by blast
qed

lemma lifecycle_upd_p2p: "lifecycle (upd_p2p q f s) = (map d_used (dag_table s), updf q f (dag_p2p_table s), p2p_addr_cnt s)"
  by (simp add: lifecycle_def upd_p2p_def)

lemma purge_counts:
  assumes "discovery_at s q d" "1 < q_lifetime (P2P s q)"
  shows "discovery_at (purge_p2p q s) q d" "P2P (purge_p2p q s) q = (P2P s q)\<lparr>q_lifetime := q_lifetime (P2P s q) - 1\<rparr>"
    "own (purge_p2p q s) = own s" "p2p_addr_cnt (purge_p2p q s) = p2p_addr_cnt s"
proof -
  have e: "purge_p2p q s = upd_p2p q (\<lambda>Q. Q\<lparr>q_lifetime := q_lifetime Q - 1\<rparr>) s"
    using assms unfolding discovery_at_def purge_p2p_def by (simp add: not_le [symmetric])
  have q: "q < length (dag_p2p_table s)" using assms(1) by (simp add: discovery_at_def)
  show P: "P2P (purge_p2p q s) q = (P2P s q)\<lparr>q_lifetime := q_lifetime (P2P s q) - 1\<rparr>"
    using q by (simp add: e upd_p2p_def P2P_def)
  show "discovery_at (purge_p2p q s) q d"
    using assms(1) unfolding discovery_at_def P by (simp add: e) (simp add: upd_p2p_def)
  show "own (purge_p2p q s) = own s" "p2p_addr_cnt (purge_p2p q s) = p2p_addr_cnt s"
    by (simp_all add: e) (simp add: upd_p2p_def)
qed

text \<open>The parents of the DAG go back to the pool when the DAG expires.\<close>

lemma remove_parents_cnt:
  assumes "own_wf (own s)" "d < RPL_MAX_DAG_ENTRIES"
  shows "pool_used (parent_cnt (rpl_remove_parents d 0 s)) = pool_used (parent_cnt s) - set (members d (own s))"
proof -
  have "own (fold (rpl_remove_parent d) ps s) = fold (own_remove d) ps (own s)" for ps
    by (induction ps arbitrary: s) (simp_all add: own_remove_parent)
  moreover have "w_cnt (fold (own_remove d) ps w) = fold (\<lambda>a c. pool_free c a) ps (w_cnt w)" for ps w
    by (induction ps arbitrary: w) (simp_all add: own_remove_def)
  moreover have "w_cnt (own s) = parent_cnt s" for s by (simp add: own_def)
  ultimately have e: "parent_cnt (rpl_remove_parents d 0 s) = fold (\<lambda>a c. pool_free c a) (members d (own s)) (parent_cnt s)"
    using members_own [OF assms] by (metis remove_all_parents)
  have "pool_wf (parent_cnt s)" using assms(1) by (simp add: own_wf_def own_inv_def own_def)
  moreover have "set (members d (own s)) \<subseteq> {..<length (parent_cnt s)}"
    using own_wf_dag(2) [OF assms] by (auto simp: own_def)
  ultimately show ?thesis using fold_pool_free by (simp add: e)
qed

lemma purge_expires:
  assumes "discovery_at s q d" "q_lifetime (P2P s q) \<le> 1" "\<not> q_expired (P2P s q)"
  shows "discovery_at (purge_p2p q s) q d"
    "P2P (purge_p2p q s) q = (P2P s q)\<lparr>q_lifetime := rpl_p2p_lt2sec (q_rdo_lifetime (P2P s q)) + 10, q_expired := True\<rparr>"
    "p2p_addr_cnt (purge_p2p q s) = p2p_addr_cnt s"
    "own_wf (own s) \<Longrightarrow> own_wf (own (purge_p2p q s)) \<and> members d (own (purge_p2p q s)) = []
       \<and> pool_used (parent_cnt (purge_p2p q s)) = pool_used (parent_cnt s) - set (members d (own s))"
proof -
  let ?t = "upd_p2p q (\<lambda>Q. Q\<lparr>q_lifetime := rpl_p2p_lt2sec (q_rdo_lifetime Q) + 10, q_expired := True\<rparr>) s"
  have e: "lifecycle (purge_p2p q s) = lifecycle ?t"
    using assms by (simp add: discovery_at_def purge_p2p_def lifecycle_upd_dag Let_def)
  have q: "q < length (dag_p2p_table s)" using assms(1) by (simp add: discovery_at_def)
  have P: "P2P ?t q = (P2P s q)\<lparr>q_lifetime := rpl_p2p_lt2sec (q_rdo_lifetime (P2P s q)) + 10, q_expired := True\<rparr>"
    using q by (simp add: upd_p2p_def P2P_def)
  have t: "discovery_at ?t q d" using assms(1) unfolding discovery_at_def P by (simp add: upd_p2p_def DAG_def)
  show "discovery_at (purge_p2p q s) q d" using t by (simp only: discovery_at_lifecycle(1) [OF e])
  show "P2P (purge_p2p q s) q = (P2P s q)\<lparr>q_lifetime := rpl_p2p_lt2sec (q_rdo_lifetime (P2P s q)) + 10, q_expired := True\<rparr>"
    by (simp only: discovery_at_lifecycle(2) [OF e] P)
  show "p2p_addr_cnt (purge_p2p q s) = p2p_addr_cnt s" by (simp add: lifecycle_used(4) [OF e] upd_p2p_def)
  define u where "u = upd_dag d (\<lambda>D. D\<lparr>d_dio_timer := ctimer_stop (d_dio_timer D)\<rparr>) ?t"
  have u: "own u = own s" "parent_cnt u = parent_cnt s" "purge_p2p q s = rpl_remove_parents d 0 u"
    using assms by (simp_all add: u_def discovery_at_def purge_p2p_def Let_def) (simp add: upd_dag_def upd_p2p_def)
  assume w: "own_wf (own s)"
  then have "own_wf (own u)" "d < RPL_MAX_DAG_ENTRIES" using assms(1) own_wf_len [OF w] u(1) by (simp_all add: discovery_at_def)
  from remove_parents_wf [OF this] remove_parents_cnt [OF this]
  show "own_wf (own (purge_p2p q s)) \<and> members d (own (purge_p2p q s)) = []
       \<and> pool_used (parent_cnt (purge_p2p q s)) = pool_used (parent_cnt s) - set (members d (own s))"
    by (simp add: u)
qed

lemma free_addr_lists_clear:
  assumes "q < length (dag_p2p_table s)"
  shows "map d_used (dag_table (fold (free_addr_list q) is s)) = map d_used (dag_table s)"
    "dag_p2p_table (fold (free_addr_list q) is s) = updf q (\<lambda>Q. Q\<lparr>q_partial_routes := fold (\<lambda>i rs. rs[i := []]) is (q_partial_routes Q)\<rparr>) (dag_p2p_table s)"
proof -
  have "map d_used (dag_table (fold (free_addr_list q) is s)) = map d_used (dag_table s)
    \<and> dag_p2p_table (fold (free_addr_list q) is s) = updf q (\<lambda>Q. Q\<lparr>q_partial_routes := fold (\<lambda>i rs. rs[i := []]) is (q_partial_routes Q)\<rparr>) (dag_p2p_table s)"
    using assms
  proof (induction "is" arbitrary: s)
    case Nil
    then show ?case by (simp add: updf_def)
  next
    case (Cons i "is")
    let ?t = "free_addr_list q i s"
    have t: "dag_table ?t = dag_table s"
      "dag_p2p_table ?t = updf q (\<lambda>Q. Q\<lparr>q_partial_routes := (q_partial_routes Q)[i := []]\<rparr>) (dag_p2p_table s)"
      by (simp_all add: free_addr_list_def upd_p2p_def)
    with Cons.IH [of ?t] Cons.prems show ?case by (simp add: updf_def)
  qed
  then show "map d_used (dag_table (fold (free_addr_list q) is s)) = map d_used (dag_table s)"
    "dag_p2p_table (fold (free_addr_list q) is s) = updf q (\<lambda>Q. Q\<lparr>q_partial_routes := fold (\<lambda>i rs. rs[i := []]) is (q_partial_routes Q)\<rparr>) (dag_p2p_table s)"
    by blast+
qed

text \<open>The blocks of the partial routes go back to the pool when the extension is freed.\<close>

lemma free_addr_lists_cnt:
  "q < length (dag_p2p_table s) \<Longrightarrow> distinct is \<Longrightarrow>
     p2p_addr_cnt (fold (free_addr_list q) is s)
       = fold (\<lambda>a c. pool_free c a) (concat (map (\<lambda>i. q_partial_routes (P2P s q) ! i) is)) (p2p_addr_cnt s)"
proof (induction "is" arbitrary: s)
  case (Cons i "is")
  let ?t = "free_addr_list q i s"
  have t: "q < length (dag_p2p_table ?t)" "q_partial_routes (P2P ?t q) = (q_partial_routes (P2P s q))[i := []]"
    "p2p_addr_cnt ?t = fold (\<lambda>a c. pool_free c a) (q_partial_routes (P2P s q) ! i) (p2p_addr_cnt s)"
    using Cons.prems(1) by (simp_all add: free_addr_list_def Let_def upd_p2p_def P2P_def)
  have "map (\<lambda>j. (q_partial_routes (P2P s q))[i := []] ! j) is = map (\<lambda>j. q_partial_routes (P2P s q) ! j) is"
    using Cons.prems(2) by (auto intro!: nth_list_update_neq)
  with Cons.IH [OF t(1)] Cons.prems(2) show ?case by (simp add: t)
qed simp

lemma free_addr_lists_used:
  assumes "p2p_wf (p2v s)" "q < RPL_MAX_DAG_P2P_ENTRIES"
  shows "pool_used (p2p_addr_cnt (fold (free_addr_list q) [0..<RPL_P2P_MAX_PARTIAL_ROUTES] s))
    = pool_used (p2p_addr_cnt s) - \<Union> (set ` set (q_partial_routes (P2P s q)))"
proof -
  let ?r = "q_partial_routes (P2P s q)" and ?n = RPL_P2P_MAX_PARTIAL_ROUTES
  have l: "length ?r = ?n" by (rule p2p_wf_lens(3) [OF assms])
  have q: "q < length (dag_p2p_table s)" using assms by (simp add: p2p_wf_def p2v_def)
  have r: "map (\<lambda>i. ?r ! i) [0..<?n] = ?r" using l map_nth [of ?r] by simp
  have ok: "routes_ok (slot_route (p2v s)) (p2p_addr_cnt s)" using assms(1) by (simp add: p2p_wf_def p2v_def)
  have "set xs \<subseteq> pool_used (p2p_addr_cnt s)" if xs: "xs \<in> set ?r" for xs
  proof -
    from xs l obtain i where i: "i < ?n" "xs = ?r ! i" by (metis in_set_conv_nth)
    then have "(q, i) \<in> slots" using assms(2) by (simp add: slots_def)
    with ok have "set (slot_route (p2v s) (q, i)) \<subseteq> pool_used (p2p_addr_cnt s)" unfolding routes_ok_def by blast
    then show ?thesis using p2v_slot [OF assms, of i] i by simp
  qed
  then have "set (concat ?r) \<subseteq> {..<length (p2p_addr_cnt s)}" by (auto simp: pool_used_def)
  moreover have "pool_wf (p2p_addr_cnt s)" using ok by (simp add: routes_ok_def)
  ultimately have "pool_used (fold (\<lambda>a c. pool_free c a) (concat ?r) (p2p_addr_cnt s)) = pool_used (p2p_addr_cnt s) - set (concat ?r)"
    using fold_pool_free by blast
  then show ?thesis using free_addr_lists_cnt [OF q, of "[0..<?n]"] r by simp
qed

lemma members_free: "members d (own_free d w) = members d w" "w_cnt (own_free d w) = w_cnt w"
  by (cases "d < length (w_dags w)") (simp_all add: members_def own_free_def updf_def)

lemma purge_frees:
  assumes "discovery_at s q d" "q_lifetime (P2P s q) \<le> 1" "q_expired (P2P s q)"
  shows "\<not> d_used (DAG (purge_p2p q s) d)" "q_dag (P2P (purge_p2p q s) q) = None"
    "set (q_partial_routes (P2P (purge_p2p q s) q)) = {[]}"
    "p2p_addr_cnt (purge_p2p q s) = p2p_addr_cnt (fold (free_addr_list q) [0..<RPL_P2P_MAX_PARTIAL_ROUTES] s)"
    "own_wf (own s) \<Longrightarrow> members d (own s) = [] \<Longrightarrow>
       members d (own (purge_p2p q s)) = [] \<and> pool_used (parent_cnt (purge_p2p q s)) = pool_used (parent_cnt s)"
proof -
  let ?s = "fold (free_addr_list q) [0..<RPL_P2P_MAX_PARTIAL_ROUTES] s"
  let ?t = "upd_dag d (\<lambda>D. D\<lparr>d_p2p := None\<rparr>) ?s"
  have q: "q < length (dag_p2p_table s)" "d < length (dag_table s)" using assms(1) by (simp_all add: discovery_at_def)
  note f = free_addr_lists_clear [OF q(1), of "[0..<RPL_P2P_MAX_PARTIAL_ROUTES]"]
  have P: "P2P ?s q = (P2P s q)\<lparr>q_partial_routes := replicate RPL_P2P_MAX_PARTIAL_ROUTES []\<rparr>"
  proof -
    have "fold (\<lambda>i rs. rs[i := []]) [0..<RPL_P2P_MAX_PARTIAL_ROUTES] (q_partial_routes (P2P s q)) = replicate RPL_P2P_MAX_PARTIAL_ROUTES []"
      using assms(1) by (auto simp: discovery_at_def RPL_P2P_MAX_PARTIAL_ROUTES_def upt_rec length_Suc_conv eval_nat_numeral)
    then show ?thesis using q by (simp add: P2P_def f(2))
  qed
  have e: "purge_p2p q s = upd_p2p q (\<lambda>Q. Q\<lparr>q_dag := None\<rparr>) (rpl_free_dag d ?t)"
    using assms P by (simp add: discovery_at_def purge_p2p_def rpl_p2p_free_dag_def Let_def)
  obtain u where u: "rpl_free_dag d ?t = upd_dag d (\<lambda>D. D\<lparr>d_dio_timer := ctimer_stop (d_dio_timer D),
      d_dao_timer := ctimer_stop (d_dao_timer D), d_used := False, d_joined := False\<rparr>) u" "lifecycle u = lifecycle ?t"
  proof -
    let ?r = "if d_mop (DAG ?t d) \<noteq> RPL_MOP_P2P_ROUTE_DISCOVERY then rpl_remove_routes d ?t else ?t"
    let ?u = "snd (rpl_set_default_route d None (rpl_remove_parents d 0 ?r))"
    have "lifecycle ?u = lifecycle ?t" by (simp del: upd_lengths)
    moreover have "rpl_free_dag d ?t = upd_dag d (\<lambda>D. D\<lparr>d_dio_timer := ctimer_stop (d_dio_timer D),
      d_dao_timer := ctimer_stop (d_dao_timer D), d_used := False, d_joined := False\<rparr>) ?u"
      unfolding rpl_free_dag_def Let_def by (rule refl)
    ultimately show thesis using that by blast
  qed
  have l: "d < length (dag_table u)" "dag_p2p_table u = dag_p2p_table ?s"
    using u(2) q(2) map_eq_imp_length_eq [OF f(1)] lifecycle_used(2,3) [OF u(2)] by (simp_all add: upd_dag_def)
  show "\<not> d_used (DAG (purge_p2p q s) d)" using l(1) by (simp add: e u(1))
  have "P2P (purge_p2p q s) q = (P2P ?s q)\<lparr>q_dag := None\<rparr>"
    using q l(2) f(2) unfolding e u(1) by (simp add: upd_p2p_def upd_dag_def P2P_def)
  then show "q_dag (P2P (purge_p2p q s) q) = None" "set (q_partial_routes (P2P (purge_p2p q s) q)) = {[]}"
    by (simp_all add: P) (simp add: RPL_P2P_MAX_PARTIAL_ROUTES_def)
  show "p2p_addr_cnt (purge_p2p q s) = p2p_addr_cnt ?s"
    unfolding e u(1) using lifecycle_used(4) [OF u(2)] by (simp add: upd_p2p_def upd_dag_def)
  let ?v = "if d_mop (DAG ?t d) \<noteq> RPL_MOP_P2P_ROUTE_DISCOVERY then rpl_remove_routes d ?t else ?t"
  have v: "own ?v = own s"
  proof -
    have "own ?s = own s" by (rule frame_fold) simp
    then show ?thesis by simp
  qed
  have o: "own (purge_p2p q s) = own_free d (own (rpl_remove_parents d 0 ?v))" by (simp add: e own_free_dag)
  assume w: "own_wf (own s)" "members d (own s) = []"
  have d: "d < RPL_MAX_DAG_ENTRIES" using q(2) own_wf_len [OF w(1)] by simp
  have wv: "own_wf (own ?v)" using w(1) by (simp only: v)
  have "members d (own (purge_p2p q s)) = []"
    unfolding o members_free by (rule remove_parents_wf(2) [OF wv d])
  moreover have "w_cnt (own s) = parent_cnt s" for s by (simp add: own_def)
  then have "parent_cnt (purge_p2p q s) = parent_cnt (rpl_remove_parents d 0 ?v)" "parent_cnt ?v = parent_cnt s"
    using o v members_free(2) by (metis, metis)
  ultimately show "members d (own (purge_p2p q s)) = [] \<and> pool_used (parent_cnt (purge_p2p q s)) = pool_used (parent_cnt s)"
    using remove_parents_cnt [OF wv d] w(2) v by simp
qed

lemma unat_minus_of_nat: "n \<le> unat l \<Longrightarrow> unat (l - of_nat n :: u16) = unat l - n"
proof -
  assume n: "n \<le> unat l"
  have "unat l < 65536" by (rule u16_less)
  with n have "n < 65536" by (rule le_less_trans)
  then have "unat (of_nat n :: u16) = n" by (simp add: unat_of_nat take_bit_eq_mod)
  with n show ?thesis by (simp add: unat_sub word_le_nat_alt)
qed

lemma purge_countdown:
  assumes "discovery_at s q d" "n < max 1 (unat (q_lifetime (P2P s q)))"
  shows "discovery_at ((purge_p2p q ^^ n) s) q d
    \<and> P2P ((purge_p2p q ^^ n) s) q = (P2P s q)\<lparr>q_lifetime := q_lifetime (P2P s q) - of_nat n\<rparr>
    \<and> own ((purge_p2p q ^^ n) s) = own s \<and> p2p_addr_cnt ((purge_p2p q ^^ n) s) = p2p_addr_cnt s"
  using assms(2)
proof (induction n)
  case 0
  then show ?case using assms(1) by simp
next
  case (Suc n)
  let ?t = "(purge_p2p q ^^ n) s" and ?l = "q_lifetime (P2P s q)"
  have ih: "discovery_at ?t q d" "P2P ?t q = (P2P s q)\<lparr>q_lifetime := ?l - of_nat n\<rparr>"
    "own ?t = own s" "p2p_addr_cnt ?t = p2p_addr_cnt s" using Suc by simp_all
  have n: "Suc n < unat ?l" using Suc.prems by simp
  then have "unat (?l - of_nat n) = unat ?l - n" by (intro unat_minus_of_nat) simp
  then have "1 < q_lifetime (P2P ?t q)" using n ih(2) by (simp add: word_less_nat_alt)
  from purge_counts [OF ih(1) this] ih(2-4) show ?case by (simp add: diff_diff_eq add.commute)
qed

lemma lifetime_after:
  fixes l :: u16
  assumes "n = max 1 (unat l)"
  shows "l - of_nat (n - 1) \<le> 1"
proof -
  have "unat (l - of_nat (n - 1)) = unat l - (n - 1)"
    using assms by (cases "unat l = 0") (simp_all add: unat_minus_of_nat)
  with assms show ?thesis by (simp add: word_le_nat_alt)
qed

text \<open>C23: A route discovery ends. Purged once per second, a temporary DAG that lives for
  \<open>l\<close> seconds is in use and active for \<open>l\<close> rounds (one when \<open>l\<close> is 0), then expired for the
  lifetime of the option plus ten rounds, and then its DAG entry and its extension are free,
  and the pools have back exactly the blocks of its parents and of its partial routes. The
  hypotheses on the two pools hold of every reachable node.\<close>

theorem discovery_ends:
  assumes wf: "own_wf (own s)" "p2p_wf (p2v s)"
    and D: "discovery_at s q d" "\<not> q_expired (P2P s q)"
    and len: "n = max 1 (unat (q_lifetime (P2P s q)))" "m = unat (rpl_p2p_lt2sec (q_rdo_lifetime (P2P s q))) + 10"
  shows "(\<forall>k < n. discovery_at ((purge_p2p q ^^ k) s) q d \<and> \<not> q_expired (P2P ((purge_p2p q ^^ k) s) q))
    \<and> (\<forall>k < m. discovery_at ((purge_p2p q ^^ (n + k)) s) q d \<and> q_expired (P2P ((purge_p2p q ^^ (n + k)) s) q))
    \<and> (let t = (purge_p2p q ^^ (n + m)) s in \<not> d_used (DAG t d) \<and> q_dag (P2P t q) = None
         \<and> set (q_partial_routes (P2P t q)) = {[]} \<and> d_parents (DAG t d) = []
         \<and> pool_used (p2p_addr_cnt t) = pool_used (p2p_addr_cnt s) - \<Union> (set ` set (q_partial_routes (P2P s q)))
         \<and> pool_used (parent_cnt t) = pool_used (parent_cnt s) - set (d_parents (DAG s d)))"
proof -
  let ?s = "\<lambda>k. (purge_p2p q ^^ k) s" and ?Q = "P2P s q"
  let ?m = "rpl_p2p_lt2sec (q_rdo_lifetime ?Q) + 10"
  have step: "?s (Suc k) = purge_p2p q (?s k)" for k by simp
  have count: "discovery_at (?s k) q d \<and> \<not> q_expired (P2P (?s k) q) \<and> own (?s k) = own s \<and> p2p_addr_cnt (?s k) = p2p_addr_cnt s"
    if "k < n" for k
    using purge_countdown [OF D(1), of k] that D(2) len(1) by simp
  have "0 < n" by (simp add: len(1))
  then obtain p where n: "n = Suc p" using gr0_implies_Suc by blast
  have last: "P2P (?s p) q = ?Q\<lparr>q_lifetime := q_lifetime ?Q - of_nat p\<rparr>"
    using purge_countdown [OF D(1), of p] len(1) n by simp
  have low: "q_lifetime (P2P (?s p) q) \<le> 1" using lifetime_after [OF len(1)] n by (simp add: last)
  have at: "discovery_at (?s p) q d" "\<not> q_expired (P2P (?s p) q)" "own (?s p) = own s" "p2p_addr_cnt (?s p) = p2p_addr_cnt s"
    using count [of p] n by simp_all
  note ex = purge_expires [OF at(1) low at(2), folded step n]
  have e: "discovery_at (?s n) q d" "P2P (?s n) q = ?Q\<lparr>q_lifetime := ?m, q_expired := True\<rparr>"
    using ex(1,2) by (simp_all add: last)
  have cnt: "parent_cnt (?s p) = parent_cnt s" using arg_cong [OF at(3), of w_cnt] by (simp add: own_def)
  have o: "own_wf (own (?s n))" "members d (own (?s n)) = []"
      "pool_used (parent_cnt (?s n)) = pool_used (parent_cnt s) - set (members d (own s))"
    using ex(4) wf(1) at(3) cnt by simp_all
  have m: "m = unat ?m" "m = max 1 (unat (q_lifetime (P2P (?s n) q)))"
    using len(2) by (simp_all add: e(2) rpl_p2p_lt2sec_def split: if_split)
  have add: "?s (n + k) = (purge_p2p q ^^ k) (?s n)" for k by (simp add: funpow_add add.commute [of n])
  have expired: "discovery_at (?s (n + k)) q d \<and> q_expired (P2P (?s (n + k)) q)
      \<and> own (?s (n + k)) = own (?s n) \<and> p2p_addr_cnt (?s (n + k)) = p2p_addr_cnt s
      \<and> q_partial_routes (P2P (?s (n + k)) q) = q_partial_routes ?Q" if "k < m" for k
    using purge_countdown [OF e(1), of k] that m(2) ex(3) at(4) unfolding add by (simp add: e(2))
  have "0 < m" by (simp add: m(2))
  then obtain p' where p': "m = Suc p'" using gr0_implies_Suc by blast
  let ?u = "?s (n + p')"
  have low': "q_lifetime (P2P ?u q) \<le> 1"
    using purge_countdown [OF e(1), of p'] lifetime_after [OF trans [OF p' [symmetric] m(2)]] m(2) p'
    unfolding add by (simp del: max_Suc_Suc)
  have u: "discovery_at ?u q d" "q_expired (P2P ?u q)" "own ?u = own (?s n)" "p2p_addr_cnt ?u = p2p_addr_cnt s"
      "q_partial_routes (P2P ?u q) = q_partial_routes ?Q"
    using expired [of p'] p' by simp_all
  have t: "?s (n + m) = purge_p2p q ?u" using step [of "n + p'"] p' by simp
  have q: "q < RPL_MAX_DAG_P2P_ENTRIES" "d < RPL_MAX_DAG_ENTRIES"
    using D(1) wf(2) own_wf_len [OF wf(1)] by (simp_all add: discovery_at_def p2p_wf_def p2v_def)
  have wu: "p2p_wf (p2v (?s k))" for k by (induction k) (simp_all add: wf(2) purge_p2p_p2p [OF _ q(1)])
  note fr = purge_frees [OF u(1) low' u(2), folded t]
  have uc: "parent_cnt ?u = parent_cnt (?s n)" using arg_cong [OF u(3), of w_cnt] by (simp add: own_def)
  have fin: "members d (own (?s (n + m))) = []" "pool_used (parent_cnt (?s (n + m))) = pool_used (parent_cnt (?s n))"
    using fr(5) o(1,2) u(3) uc by simp_all
  have "own_wf (own (?s (n + m)))" unfolding t by (rule purge_p2p_own [OF _ wu q(1)]) (simp add: u(3) o(1))
  from members_own [OF this q(2)] fin(1) have "d_parents (DAG (?s (n + m)) d) = []" by simp
  moreover have "pool_used (p2p_addr_cnt (?s (n + m))) = pool_used (p2p_addr_cnt s) - \<Union> (set ` set (q_partial_routes ?Q))"
    using free_addr_lists_used [OF wu q(1)] fr(4) u(4,5) by simp
  ultimately show ?thesis
    using count expired fr(1-3) fin(2) o(3) members_own [OF wf(1) q(2)] by (simp add: Let_def)
qed

text \<open>The discovery of a route with a parent and two partial routes of blocks 0, 3 and 1, 16
  seconds before its end; block 2 belongs to a route of another discovery.\<close>

definition demo_temporary :: node where
  "demo_temporary = (node0 [1, 2, 3, 4, 5, 6, 7, 8])\<lparr>
     dag_table := dag0\<lparr>d_used := True, d_joined := True, d_mop := 4, d_p2p := Some 0, d_parents := [0]\<rparr> # replicate 3 dag0,
     parent_cnt := 1 # replicate 19 0,
     dag_p2p_table := [p2p0\<lparr>q_dag := Some 0, q_rdo_lifetime := 2, q_lifetime := 16, q_partial_routes := [[0, 3], [1], []]\<rparr>,
       p2p0\<lparr>q_partial_routes := [[2], [], []]\<rparr>, p2p0],
     p2p_addr_cnt := 1 # 1 # 1 # 1 # replicate 16 0\<rparr>"

lemma pool_used_code: "pool_used c = set (filter (\<lambda>i. c ! i \<noteq> 0) [0..<length c])"
  by (auto simp: pool_used_def)

lemma demo_temporary_wf: "own_wf (own demo_temporary)"
proof -
  have "own demo_temporary = \<lparr>w_dags = \<lparr>v_used = True, v_joined = True, v_parents = [0], v_pref = None\<rparr>
        # replicate 3 \<lparr>v_used = False, v_joined = False, v_parents = [], v_pref = None\<rparr>,
      w_cnt = 1 # replicate 19 0, w_owner = replicate 20 0\<rparr>"
    by (simp add: own_def demo_temporary_def node0_def dv_def dag0_def parent0_def RPL_MAX_PARENTS_def eval_nat_numeral)
  then show ?thesis
    by (auto simp: own_wf_def own_inv_def pool_wf_def nth_Cons' RPL_MAX_DAG_ENTRIES_def RPL_MAX_PARENTS_def)
qed

lemma demo_temporary_p2p_wf: "p2p_wf (p2v demo_temporary)"
proof -
  let ?c = "1 # 1 # 1 # 1 # replicate 16 (0 :: u8)"
  have s: "slots = set (List.product [0..<3] [0..<3])"
    by (auto simp: slots_def RPL_MAX_DAG_P2P_ENTRIES_def RPL_P2P_MAX_PARTIAL_ROUTES_def)
  have z: "p2v demo_temporary = \<lparr>z_routes = [[[0, 3], [1], []], [[2], [], []], [[], [], []]], z_cnt = ?c,
      z_links = [Some 0, None, None, None], z_back = [Some 0, None, None]\<rparr>"
    by (simp add: p2v_def demo_temporary_def node0_def dag0_def p2p0_def RPL_P2P_MAX_PARTIAL_ROUTES_def eval_nat_numeral)
  have "\<forall>x \<in> slots. distinct (slot_route (p2v demo_temporary) x) \<and> set (slot_route (p2v demo_temporary) x) \<subseteq> pool_used ?c"
    "\<forall>x \<in> slots. \<forall>y \<in> slots. x \<noteq> y \<longrightarrow> set (slot_route (p2v demo_temporary) x) \<inter> set (slot_route (p2v demo_temporary) y) = {}"
    unfolding s z pool_used_code by code_simp+
  moreover have "pool_wf ?c" by (simp add: pool_wf_def)
  ultimately have "routes_ok (slot_route (p2v demo_temporary)) (z_cnt (p2v demo_temporary))" by (simp add: routes_ok_def z)
  then show ?thesis
    unfolding p2p_wf_def by (auto simp: z RPL_MAX_DAG_P2P_ENTRIES_def RPL_P2P_MAX_PARTIAL_ROUTES_def RPL_MAX_DAG_ENTRIES_def)
qed

theorem discovery_ends_witness:
  "d_used (DAG ((purge_p2p 0 ^^ 41) demo_temporary) 0) \<and> \<not> d_used (DAG ((purge_p2p 0 ^^ 42) demo_temporary) 0)
    \<and> pool_used (p2p_addr_cnt ((purge_p2p 0 ^^ 42) demo_temporary)) = {2} \<and> pool_used (parent_cnt ((purge_p2p 0 ^^ 42) demo_temporary)) = {}"
proof -
  have a: "discovery_at demo_temporary 0 0" "\<not> q_expired (P2P demo_temporary 0)"
    "16 = max 1 (unat (q_lifetime (P2P demo_temporary 0)))"
    "26 = unat (rpl_p2p_lt2sec (q_rdo_lifetime (P2P demo_temporary 0))) + 10"
    by code_simp+
  note e = discovery_ends [OF demo_temporary_wf demo_temporary_p2p_wf a]
  have "discovery_at ((purge_p2p 0 ^^ (16 + 25)) demo_temporary) 0 0"
    using conjunct1 [OF conjunct2 [OF e]] by (rule allE [where x = 25]) (simp only: less_numeral_simps, simp)
  then have "d_used (DAG ((purge_p2p 0 ^^ 41) demo_temporary) 0)" by (simp add: discovery_at_def)
  moreover have v: "pool_used (p2p_addr_cnt demo_temporary) = {0, 1, 2, 3}" "pool_used (parent_cnt demo_temporary) = {0}"
    "\<Union> (set ` set (q_partial_routes (P2P demo_temporary 0))) = {0, 1, 3}" "set (d_parents (DAG demo_temporary 0)) = {0}"
    unfolding pool_used_code by code_simp+
  moreover have "{0, 1, 2, 3} - {0, 1, 3} = {2 :: nat}" by auto
  ultimately show ?thesis using conjunct2 [OF conjunct2 [OF e]] by (simp only: Let_def v numeral_plus_numeral semiring_norm) simp
qed

section \<open>The Trickle timer\<close>

text \<open>What sending a DIO leaves alone of every DAG: all but the metric and the sequence number.\<close>

definition steady :: "node \<Rightarrow> rpl_dag list" where
  "steady s = map (\<lambda>D. D\<lparr>d_mc := mc0, d_dtsn_out := 0\<rparr>) (dag_table s)"

lemma steady_upd: "(\<And>D. (f D)\<lparr>d_mc := mc0, d_dtsn_out := 0\<rparr> = D\<lparr>d_mc := mc0, d_dtsn_out := 0\<rparr>) \<Longrightarrow> steady (upd_dag d f s) = steady s"
  unfolding steady_def upd_dag_def by (simp add: map_updf_same)

lemma steady_frames [simp]:
  "steady (emit m s) = steady s" "steady (set_fault s) = steady s" "steady (s\<lparr>rand_state := g\<rparr>) = steady s"
  by (simp_all add: steady_def emit_def set_fault_def)

lemma steady_checks [simp]: "steady (chk_dio_rank d s) = steady s" "steady (chk_of d s) = steady s" "steady (chk_own s) = steady s"
  by (simp_all add: chk_dio_rank_def chk_rank_def chk_of_def chk_own_def split: option.split)

lemma steady_metric [simp]: "steady (of_update_metric_container d s) = steady s"
  by (simp add: of_update_metric_container_def etx_update_metric_container_def Let_def steady_upd)

lemma steady_route [simp]: "steady (snd (dio_route d q s)) = steady s"
  by (simp add: dio_route_def choose_route_def rand_def Let_def split_beta)

lemma steady_options [simp]: "steady (snd (dio_options d s)) = steady s"
  by (rule frame_dio_options_views) simp_all

lemma steady_output [simp]: "steady (dio_output d a s) = steady s"
  by (rule frame_dio_output_views) (simp_all add: steady_upd)

lemma steady_dag:
  assumes "steady s = steady t" "d < length (dag_table t)"
  shows "(DAG s d)\<lparr>d_mc := mc0, d_dtsn_out := 0\<rparr> = (DAG t d)\<lparr>d_mc := mc0, d_dtsn_out := 0\<rparr>" "length (dag_table s) = length (dag_table t)"
proof -
  show l: "length (dag_table s) = length (dag_table t)" using assms(1) map_eq_imp_length_eq unfolding steady_def by blast
  have "steady s ! d = steady t ! d" by (simp only: assms(1))
  with assms(2) l show "(DAG s d)\<lparr>d_mc := mc0, d_dtsn_out := 0\<rparr> = (DAG t d)\<lparr>d_mc := mc0, d_dtsn_out := 0\<rparr>"
    by (simp add: steady_def DAG_def)
qed

lemma steady_fields:
  assumes "steady s = steady t" "d < length (dag_table t)"
  shows "d_dio_next_delay (DAG s d) = d_dio_next_delay (DAG t d)" "d_dio_intcurrent (DAG s d) = d_dio_intcurrent (DAG t d)"
    "d_dio_counter (DAG s d) = d_dio_counter (DAG t d)" "d_dio_timer (DAG s d) = d_dio_timer (DAG t d)"
  using arg_cong [OF steady_dag(1) [OF assms], of d_dio_next_delay] arg_cong [OF steady_dag(1) [OF assms], of d_dio_intcurrent]
    arg_cong [OF steady_dag(1) [OF assms], of d_dio_counter] arg_cong [OF steady_dag(1) [OF assms], of d_dio_timer]
  by simp_all


definition demo_timed :: "u8 \<Rightarrow> node" where
  "demo_timed n = (node0 [1, 2, 3, 4, 5, 6, 7, 8])\<lparr>dio_send_ok := True,
     dag_table := dag0\<lparr>d_used := True, d_joined := True, d_config := DEFAULT_DODAG_CONFIG, d_dio_intcurrent := 12,
       d_dio_send := True, d_dio_counter := n\<rparr> # replicate 3 dag0\<rparr>"


end
