(* ===== verification/Rpl_Parser.thy ===== *)
theory Rpl_Parser
  imports Rpl_Input
begin

text \<open>
  The parser of DIOs: what a parsed DIO looks like for every packet, and which packets are
  dropped.
\<close>

section \<open>Well-formed DIOs\<close>

definition mc_typed :: "metric_container \<Rightarrow> bool" where
  "mc_typed m \<longleftrightarrow> (mc_type m = RPL_DAG_MC_NONE \<or> mc_type m = RPL_DAG_MC_ETX \<or> mc_type m = RPL_DAG_MC_ENERGY)
     \<and> mc_aggr m < 4 \<and> mc_prec m < 16"

definition rdo_typed :: "rpl_dio_rdo \<Rightarrow> bool" where
  "rdo_typed r \<longleftrightarrow> rd_compr r = RPL_P2P_RDO_COMPR \<and> rd_num_routes r < 4 \<and> rd_lifetime r < 4 \<and> rd_max_rank r < 64"

definition dio_typed :: "rpl_dio \<Rightarrow> bool" where
  "dio_typed o' \<longleftrightarrow> dag_id_ok (o_dag_id o') \<and> length (o_dag_id o') = 16 \<and> o_mop o' < 8 \<and> o_preference o' < 8
     \<and> mc_typed (o_mc o')
     \<and> (case o_prefix_info o' of None \<Rightarrow> True | Some p \<Rightarrow> length (pf_prefix p) = 16)
     \<and> (case o_route_info o' of None \<Rightarrow> True
        | Some p \<Rightarrow> pf_length p \<le> 128 \<and> length (pf_prefix p) = (unat (pf_length p) + 7) div 8 \<and> length (pf_prefix p) \<le> 16)
     \<and> (case o_constr o' of None \<Rightarrow> True | Some c \<Rightarrow> mc_type c = RPL_DAG_MC_ETX \<and> mc_typed c)
     \<and> (case o_rdo o' of None \<Rightarrow> True | Some r \<Rightarrow> rdo_typed r)"

lemma and_mask_less: "(w :: u8) AND 0x3 < 4" "w AND 0xf < 16" "w AND 0x07 < 8" "w AND 0x3f < 64"
proof -
  have le: "w AND m \<le> m" for m by (rule word_and_le1)
  show "w AND 0x3 < 4" using le [of 3] by (rule le_less_trans) simp
  show "w AND 0xf < 16" using le [of "0xf"] by (rule le_less_trans) simp
  show "w AND 0x07 < 8" using le [of 7] by (rule le_less_trans) simp
  show "w AND 0x3f < 64" using le [of "0x3f"] by (rule le_less_trans) simp
qed

lemma drop_mask_less: "drop_bit 3 ((w :: u8) AND 0x38) < 8" "drop_bit 4 (w AND 0x30) < 4" "drop_bit 6 (w AND 0xc0) < 4"
proof -
  have le: "unat (w AND m) \<le> unat m" for m by (simp add: word_le_nat_alt [symmetric] word_and_le1)
  show "drop_bit 3 (w AND 0x38) < 8" using le [of "0x38"] by (simp add: word_less_nat_alt drop_bit_eq_div unat_div)
  show "drop_bit 4 (w AND 0x30) < 4" using le [of "0x30"] by (simp add: word_less_nat_alt drop_bit_eq_div unat_div)
  show "drop_bit 6 (w AND 0xc0) < 4" using le [of "0xc0"] by (simp add: word_less_nat_alt drop_bit_eq_div unat_div)
qed

lemma mc_header_typed:
  "mc_aggr (mc_header buf j m) < 4" "mc_prec (mc_header buf j m) < 16" "mc_type (mc_header buf j m) = buf j"
  by (simp_all add: mc_header_def and_mask_less)

lemma parse_metric_typed: "dio_typed dio \<Longrightarrow> parse_metric buf j dio = Some dio' \<Longrightarrow> dio_typed dio'"
  using mc_header_typed [of buf j "o_mc dio"]
  by (auto simp: parse_metric_def Let_def dio_typed_def mc_typed_def split: if_splits)

lemma parse_constr_typed: "dio_typed dio \<Longrightarrow> parse_constr buf j dio = Some dio' \<Longrightarrow> dio_typed dio'"
  using mc_header_typed [of buf j mc0]
  by (auto simp: parse_constr_def dio_typed_def mc_typed_def split: if_splits)

lemma parse_objects_typed: "dio_typed dio \<Longrightarrow> parse_objects buf e j dio = Some dio' \<Longrightarrow> dio_typed dio'"
proof (induction buf e j dio rule: parse_objects.induct)
  case (1 buf e j dio)
  show ?case
  proof (cases "e \<le> j")
    case True
    with "1.prems" show ?thesis by (simp add: parse_objects.simps [of buf e j dio])
  next
    case False
    let ?p = "if is_constraint buf j then parse_constr buf j dio else parse_metric buf j dio"
    from "1.prems"(2) False obtain d where d: "?p = Some d" "parse_objects buf e (j + (4 + unat (buf (j + 3)))) d = Some dio'"
      unfolding parse_objects.simps [of buf e j dio] by (cases ?p) simp_all
    have "dio_typed d"
    proof (cases "is_constraint buf j")
      case True
      with d(1) show ?thesis by (intro parse_constr_typed [OF "1.prems"(1)]) simp
    next
      case False
      with d(1) show ?thesis by (intro parse_metric_typed [OF "1.prems"(1)]) simp
    qed
    from "1.IH" [OF False d(1) this d(2)] show ?thesis .
  qed
qed

lemma byte_at_least_15: "compr < 16 \<Longrightarrow> \<not> compr < 15 \<Longrightarrow> (compr :: u8) = 15"
  by (auto simp: word_less_nat_alt word_unat_eq_iff)

lemma parse_route_info_typed: "dio_typed dio \<Longrightarrow> parse_route_info buf i len dio = Some dio' \<Longrightarrow> dio_typed dio'"
proof -
  assume t: "dio_typed dio" and p: "parse_route_info buf i len dio = Some dio'"
  let ?n = "(unat (buf (i + 2)) + 7) div 8"
  from p have le: "buf (i + 2) \<le> 128" and d: "dio' = dio\<lparr>o_route_info := Some \<lparr>pf_prefix = bget buf (i + 8) ?n,
      pf_lifetime = get32 buf (i + 4), pf_length = buf (i + 2), pf_flags = buf (i + 3)\<rparr>\<rparr>"
    unfolding parse_route_info_def Let_def by (simp_all split: if_split_asm)
  have "?n \<le> 16" using le by (simp add: word_le_nat_alt)
  with t le show ?thesis unfolding d by (simp add: dio_typed_def bget_def)
qed

lemma parse_config_typed: "dio_typed dio \<Longrightarrow> parse_config buf i len dio = Some dio' \<Longrightarrow> dio_typed dio'"
  unfolding parse_config_def by (clarsimp simp: dio_typed_def split: if_split_asm)

lemma parse_prefix_typed: "dio_typed dio \<Longrightarrow> parse_prefix buf i len dio = Some dio' \<Longrightarrow> dio_typed dio'"
  unfolding parse_prefix_def by (clarsimp simp: dio_typed_def bget_def split: if_split_asm)

lemma parse_rdo_typed: "dio_typed dio \<Longrightarrow> parse_rdo buf i len dio = Some dio' \<Longrightarrow> dio_typed dio'"
proof -
  assume t: "dio_typed dio" and p: "parse_rdo buf i len dio = Some dio'"
  have c: "bitmask_read 0 0x0f b < 16" "bitmask_read 4 0x30 b < 4" "bitmask_read 6 0xc0 b < 4" "bitmask_read 0 0x3f b < 64" for b
    by (simp_all add: bitmask_read_def and_mask_less drop_mask_less)
  from p obtain r where d: "dio' = dio\<lparr>o_rdo := Some r\<rparr>" and
    r: "rd_compr r = bitmask_read 0 0x0f (buf (i + 2))" "\<not> rd_compr r < RPL_P2P_RDO_COMPR" "rd_num_routes r = bitmask_read 4 0x30 (buf (i + 2))"
      "rd_lifetime r = bitmask_read 6 0xc0 (buf (i + 3))" "rd_max_rank r = bitmask_read 0 0x3f (buf (i + 3))"
    unfolding parse_rdo_def Let_def by (clarsimp split: if_split_asm)
  have "rd_compr r = 15"
    using byte_at_least_15 [OF c(1)] r(2) unfolding r(1) RPL_P2P_RDO_COMPR_def by blast
  then have "rdo_typed r" using c r(3-5) by (simp add: rdo_typed_def RPL_P2P_RDO_COMPR_def)
  with t show ?thesis by (simp add: d dio_typed_def)
qed

lemma parse_option_typed: "dio_typed dio \<Longrightarrow> parse_dio_option buf i len dio = Some dio' \<Longrightarrow> dio_typed dio'"
proof -
  assume t: "dio_typed dio" and p: "parse_dio_option buf i len dio = Some dio'"
  note steps = parse_objects_typed [OF t] parse_route_info_typed [OF t] parse_config_typed [OF t] parse_prefix_typed [OF t]
    parse_rdo_typed [OF t]
  show "dio_typed dio'"
    using p t unfolding parse_dio_option_def Let_def
    by (auto dest: steps split: if_split_asm)
qed

lemma parse_options_typed: "dio_typed dio \<Longrightarrow> parse_dio_options buf n i dio = Some dio' \<Longrightarrow> dio_typed dio'"
proof (induction buf n i dio rule: parse_dio_options.induct)
  case (1 buf n i dio)
  show ?case
  proof (cases "n \<le> i \<or> n < option_len buf i + i")
    case True
    with "1.prems" show ?thesis by (auto simp: parse_dio_options.simps [of buf n i dio] split: if_splits)
  next
    case False
    with "1.prems"(2) obtain d where d: "parse_dio_option buf i (option_len buf i) dio = Some d"
      "parse_dio_options buf n (i + option_len buf i) d = Some dio'"
      unfolding parse_dio_options.simps [of buf n i dio] by (cases "parse_dio_option buf i (option_len buf i) dio") auto
    from False have "\<not> n \<le> i" "\<not> n < option_len buf i + i" by simp_all
    from "1.IH" [OF this d(1) parse_option_typed [OF "1.prems"(1) d(1)] d(2)] show ?thesis .
  qed
qed

text \<open>C28: Whatever bytes arrive, a DIO that the parser accepts is well-formed: its DODAG ID has
  sixteen bytes of the accepted form, the bit fields are in their ranges, the address
  compression is the one the node supports, a metric has a known type, a constraint is on
  ETX, and no prefix is longer than the sixteen bytes reserved for it.\<close>

theorem parsed_dio_well_formed:
  assumes "parse_dio buf n = Some dio"
  shows "dio_typed dio"
proof -
  have ok: "dag_id_ok (o_dag_id (parse_dio_base buf))"
    and p: "parse_dio_options buf (unat n) 24 (parse_dio_base buf) = Some dio"
    using assms by (auto simp: parse_dio_def split: if_splits)
  have "dio_typed (parse_dio_base buf)"
    using ok by (simp add: dio_typed_def parse_dio_base_def rpl_dio0_def bget_def mc_typed_def mc0_def rpl_consts
        and_mask_less drop_mask_less)
  then show ?thesis using p by (rule parse_options_typed)
qed

definition bad_packet :: "nat \<Rightarrow> u8" where
  "bad_packet = (\<lambda>i. if i = 8 \<or> i = 9 then 0xaa else if i = 23 then 1 else if i = 24 then 10 else if i = 25 then 3
     else if i = 26 then 0xff else if i = 27 then 0xff else 0)"

theorem parsed_dio_well_formed_witness:
  "\<exists>dio r. parse_dio bad_packet 29 = Some dio \<and> o_rdo dio = Some r \<and> rd_compr r = 15 \<and> rd_num_routes r < 4"
proof -
  have "parse_dio bad_packet 29 \<noteq> None" "(case parse_dio bad_packet 29 of None \<Rightarrow> False | Some dio \<Rightarrow> o_rdo dio \<noteq> None)"
    by code_simp+
  then obtain dio r where d: "parse_dio bad_packet 29 = Some dio" "o_rdo dio = Some r" by auto
  from parsed_dio_well_formed [OF d(1)] d show ?thesis
    by (simp add: dio_typed_def rdo_typed_def RPL_P2P_RDO_COMPR_def)
qed

section \<open>Dropped packets\<close>

text \<open>The positions at which an option starts that the parser comes to: each option before it
  ends inside the packet.\<close>

inductive option_at :: "(nat \<Rightarrow> u8) \<Rightarrow> nat \<Rightarrow> nat \<Rightarrow> bool" for buf n where
  first_option: "option_at buf n 24"
| next_option: "option_at buf n i \<Longrightarrow> i < n \<Longrightarrow> i + option_len buf i \<le> n \<Longrightarrow> option_at buf n (i + option_len buf i)"

inductive_cases option_atE: "option_at buf n i"

text \<open>An option that makes the packet invalid: it reaches past the end, it has a wrong size, an
  unsupported compression or an unknown metric.\<close>

definition bad_option :: "(nat \<Rightarrow> u8) \<Rightarrow> nat \<Rightarrow> nat \<Rightarrow> bool" where
  "bad_option buf n i \<longleftrightarrow>
     (let len = option_len buf i; t = buf i in
      n < i + len
      \<or> (t = RPL_OPTION_DAG_METRIC_CONTAINER \<and> (len < 6 \<or> buf (i + 2) \<notin> {RPL_DAG_MC_ETX, RPL_DAG_MC_ENERGY}))
      \<or> (t = RPL_OPTION_ROUTE_INFO \<and> (len < 9 \<or> 128 < buf (i + 2)))
      \<or> (t = RPL_OPTION_DAG_CONF \<and> len \<noteq> 16) \<or> (t = RPL_OPTION_PREFIX_INFO \<and> len \<noteq> 32)
      \<or> (t = RPL_DIO_SUBOPT_ROUTE_DISCOVERY \<and> (len \<le> 4 \<or> bitmask_read 0 0x0f (buf (i + 2)) < RPL_P2P_RDO_COMPR)))"

lemma bad_option_None:
  assumes "i < n" "bad_option buf n i"
  shows "parse_dio_options buf n i dio = None"
proof (cases "n < option_len buf i + i")
  case True
  with assms(1) show ?thesis by (subst parse_dio_options.simps) simp
next
  case False
  have "parse_dio_option buf i (option_len buf i) dio = None"
  proof -
    have m: "parse_objects buf (i + option_len buf i) (i + 2) dio = None"
      if "\<not> option_len buf i < 6" "buf (i + 2) \<notin> {RPL_DAG_MC_ETX, RPL_DAG_MC_ENERGY}"
      using that mc_header_typed(3) [of buf "i + 2"]
      by (subst parse_objects.simps) (simp add: parse_constr_def parse_metric_def Let_def)
    from False assms(2) m show ?thesis
      unfolding bad_option_def Let_def
      by (elim disjE conjE) (simp_all add: parse_dio_option_def parse_route_info_def parse_config_def parse_prefix_def parse_rdo_def
          Let_def rpl_codes not_le)
  qed
  with False assms(1) show ?thesis by (subst parse_dio_options.simps) simp
qed

lemma option_at_None:
  assumes "option_at buf n i" "\<And>dio. parse_dio_options buf n i dio = None"
  shows "parse_dio_options buf n 24 dio = None"
  using assms
proof (induction arbitrary: dio)
  case (next_option i)
  show ?case
  proof (rule next_option.IH)
    fix dio
    show "parse_dio_options buf n i dio = None"
      using next_option.hyps(2,3) next_option.prems
      by (subst parse_dio_options.simps) (simp split: option.split)
  qed
qed

text \<open>C40: A DIO is dropped without any effect on the node when its DODAG ID has not the accepted
  form or when the parser comes to a malformed option, however many valid options are in
  front of it; the lookups, tables and timers stay as they are and nothing is sent.\<close>

theorem malformed_dio_dropped:
  assumes "\<not> dag_id_ok (bget (k_buf k) 8 16)
    \<or> (\<exists>i < unat (k_len k). option_at (k_buf k) (unat (k_len k)) i \<and> bad_option (k_buf k) (unat (k_len k)) i)"
  shows "dio_input k s = s"
proof -
  have "parse_dio (k_buf k) (k_len k) = None"
  proof (cases "dag_id_ok (bget (k_buf k) 8 16)")
    case True
    with assms obtain i where i: "i < unat (k_len k)" "option_at (k_buf k) (unat (k_len k)) i"
      "bad_option (k_buf k) (unat (k_len k)) i" by blast
    from option_at_None [OF i(2)] bad_option_None [OF i(1,3)] show ?thesis by (simp add: parse_dio_def)
  qed (simp add: parse_dio_def parse_dio_base_def)
  then show ?thesis by (simp add: dio_input_def)
qed

text \<open>A configuration option of the right size, and then an option that claims 200 bytes.\<close>

definition truncated_packet :: packet where
  "truncated_packet = \<lparr>k_src = replicate 16 0, k_dest = replicate 16 0, k_code = RPL_CODE_DIO,
     k_buf = (\<lambda>i. if i = 8 \<or> i = 9 then 0xaa else if i = 24 then 4 else if i = 25 then 14 else if i = 40 then 9
        else if i = 41 then 200 else 0), k_len = 50, k_sender = []\<rparr>"

theorem malformed_dio_dropped_witness:
  "dio_input truncated_packet (node0 [1, 2, 3, 4, 5, 6, 7, 8]) = node0 [1, 2, 3, 4, 5, 6, 7, 8]"
proof -
  let ?b = "k_buf truncated_packet"
  have l: "option_len ?b 24 = 16" "bad_option ?b 50 40" "unat (k_len truncated_packet) = 50" by code_simp+
  have "option_at ?b 50 (24 + option_len ?b 24)" by (rule next_option [OF first_option]) (simp_all add: l(1))
  then have "\<exists>i < unat (k_len truncated_packet). option_at ?b (unat (k_len truncated_packet)) i
      \<and> bad_option ?b (unat (k_len truncated_packet)) i"
    unfolding l(3) using l(1,2) by (intro exI [of _ 40]) simp
  then show ?thesis by (intro malformed_dio_dropped disjI2)
qed

end
