(* ===== verification/Rpl_Dao.thy ===== *)
theory Rpl_Dao
  imports Rpl_Codec Rpl_Rank Rpl_Route_Laws
begin

text \<open>
  Destination advertisements end to end: what \<open>dao_output\<close> of a child sends, \<open>dao_input\<close> of
  its parent installs, passes on, and takes back.
\<close>

section \<open>The message\<close>

definition dao_packet :: "bytes \<Rightarrow> (nat \<Rightarrow> u8) \<Rightarrow> packet \<Rightarrow> packet" where
  "dao_packet msg rest k = k\<lparr>k_code := RPL_CODE_DAO, k_buf := packet_buf msg rest, k_len := of_nat (length msg)\<rparr>"

lemma dao_message_bytes:
  assumes "bytes_at buf 0 (dao_message inst sq prefix lifetime)" "length prefix = 16"
  shows "buf 0 = inst" "buf 1 = 0" "option_len buf 4 = 20" "option_len buf 24 = 6"
    "parse_dao_option buf 4 y = y\<lparr>y_prefixlen := 128, y_prefix := Some prefix\<rparr>"
    "parse_dao_option buf 24 y = y\<lparr>y_lifetime := lifetime\<rparr>"
proof -
  have b: "buf 0 = inst" "buf 1 = 0" "buf 4 = RPL_OPTION_TARGET" "buf 5 = 18" "buf 7 = 128" "bytes_at buf 8 prefix"
    "buf 24 = RPL_OPTION_TRANSIT" "buf 25 = 4" "buf 29 = lifetime"
    using assms by (simp_all add: dao_message_def bytes_at_append eval_nat_numeral)
  show "buf 0 = inst" "buf 1 = 0" by (rule b)+
  show "option_len buf 4 = 20" "option_len buf 24 = 6" by (simp_all add: option_len_def b rpl_codes)
  show "parse_dao_option buf 4 y = y\<lparr>y_prefixlen := 128, y_prefix := Some prefix\<rparr>"
    using bytes_at_bget [OF b(6)] assms(2) by (simp add: parse_dao_option_def b Let_def)
  show "parse_dao_option buf 24 y = y\<lparr>y_lifetime := lifetime\<rparr>"
    by (simp add: parse_dao_option_def b) (simp add: rpl_codes)
qed

lemma parse_dao_message:
  assumes "bytes_at buf 0 (dao_message inst sq prefix lifetime)" "length prefix = 16"
  shows "parse_dao_options buf 30 4 y = y\<lparr>y_prefixlen := 128, y_prefix := Some prefix, y_lifetime := lifetime\<rparr>"
proof -
  note m = dao_message_bytes [OF assms]
  have "parse_dao_options buf 30 4 y = parse_dao_options buf 30 24 (parse_dao_option buf 4 y)"
    by (subst parse_dao_options.simps) (simp add: m(3))
  also have "\<dots> = parse_dao_options buf 30 30 (parse_dao_option buf 24 (parse_dao_option buf 4 y))"
    by (subst parse_dao_options.simps) (simp add: m(4))
  also have "\<dots> = parse_dao_option buf 24 (parse_dao_option buf 4 y)" by (subst parse_dao_options.simps) simp
  finally show ?thesis by (simp add: m(5,6))
qed

lemma dao_input_message:
  fixes k :: packet
  assumes p: "length prefix = 16" and d: "rpl_get_dag (uint inst) None s = Some d"
    and m: "m = dao_message inst sq prefix lifetime"
  shows "dao_input (dao_packet m rest k) s =
     (if lifetime = 0 then no_path (uip_ds6_route_lookup prefix s) s
      else let s = chk_dao_loop d (k_src k) s
        in case dao_loop d (k_src k) s of
             Some q \<Rightarrow> upd_par q (\<lambda>P. P\<lparr>p_rank := INFINITE_RANK, p_updated := True\<rparr>) s
           | None \<Rightarrow>
               (case (case uip_ds6_route_lookup prefix s of Some r \<Rightarrow> (Some r, s)
                      | None \<Rightarrow> rpl_add_route (Some d) prefix 128 (k_src k) s) of
                  (None, s) \<Rightarrow> s
                | (Some r, s) \<Rightarrow> dao_route d r lifetime (dao_packet m rest k) s))"
proof -
  let ?buf = "packet_buf m rest"
  have b: "bytes_at ?buf 0 (dao_message inst sq prefix lifetime)" unfolding m by (rule bytes_at_packet)
  have l: "length m = 30" using p by (simp add: m dao_message_def)
  have n: "unat (of_nat (length m) :: u8) = 30" by (simp add: l)
  have rep: "uip_ds6_route_lookup prefix (chk_dao_loop d a s) = uip_ds6_route_lookup prefix s" for a
    by (simp add: chk_dao_loop_def chk_rank_def uip_ds6_route_lookup_def set_fault_def)
  have k: "k_buf (dao_packet m rest k) = ?buf" "unat (k_len (dao_packet m rest k)) = 30" "k_src (dao_packet m rest k) = k_src k"
    by (simp_all add: dao_packet_def n)
  note mb = dao_message_bytes [OF b p]
  have tk: "take 16 prefix = prefix" using p by simp
  have and_zero: "(if (0 :: u8) AND 0x40 \<noteq> 0 then 20 else 4 :: nat) = 4" by simp
  show ?thesis
    unfolding dao_input_def Let_def k mb(1,2) d option.case
    unfolding and_zero parse_dao_message [OF b p] rep dao_opts.select_convs dao_opts.update_convs option.case tk
    by (simp add: rep)
qed

section \<open>Installing a route\<close>

lemma dao_route_result:
  assumes "r < length (routing_table s)"
  shows "map route_key (routing_table (dao_route d r l k s)) = map route_key (routing_table s)"
    "t_nexthop (routing_table (dao_route d r l k s) ! r) = t_nexthop (routing_table s ! r)"
    "e_dag (t_state (routing_table (dao_route d r l k s) ! r)) = e_dag (t_state (routing_table s ! r))"
    "e_lifetime (t_state (routing_table (dao_route d r l k s) ! r)) = RPL_LIFETIME (DAG s d) l"
    "e_saved_lifetime (t_state (routing_table (dao_route d r l k s) ! r)) = e_saved_lifetime (t_state (routing_table s ! r))"
    "dag_table (dao_route d r l k s) = dag_table s"
    "outbox (dao_route d r l k s) = outbox s @
       (if uip_is_addr_mcast (k_src k) then []
        else case d_preferred_parent (DAG s d) of
               Some p \<Rightarrow> [Icmp6_send (p_addr (PAR s p)) RPL_CODE_DAO (bget (k_buf k) 0 (unat (k_len k)))]
             | None \<Rightarrow> if k_buf k 1 AND 0x80 \<noteq> 0
                 then [Icmp6_send (k_src k) RPL_CODE_DAO_ACK [d_instance_id (DAG s d), 0, k_buf k 3, 0]] else [])"
  using assms
  by (simp_all add: dao_route_def Let_def emit_def dao_ack_output_def map_updf_same route_key_def DAG_def PAR_def split: option.split)

lemma rpl_add_route_frame:
  "rpl_add_route d p n nh s = (x, s') \<Longrightarrow> dag_table s' = dag_table s \<and> parent_mem s' = parent_mem s \<and> outbox s' = outbox s
     \<and> length (routing_table s') = length (routing_table s)"
  by (auto simp: rpl_add_route_def set_route_state_def uip_ds6_route_add_def uip_ds6_route_rm_def Let_def
      split: option.splits prod.splits loop_result.splits)

text \<open>What becomes of the lookup of the prefix when the DAO is accepted.\<close>

lemma dao_route_found:
  assumes "routing_table s \<noteq> []" "\<forall>e \<in> set (routing_table s). t_length e \<le> 128"
  obtains r v where
    "(case uip_ds6_route_lookup prefix s of Some r \<Rightarrow> (Some r, s) | None \<Rightarrow> rpl_add_route (Some d) prefix 128 nh s) = (Some r, v)"
    "uip_ds6_route_lookup prefix v = Some r"
    "case uip_ds6_route_lookup prefix s of
       None \<Rightarrow> t_nexthop (routing_table v ! r) = nh \<and> e_dag (t_state (routing_table v ! r)) = Some d
     | Some r0 \<Rightarrow> r = r0 \<and> t_nexthop (routing_table v ! r) = t_nexthop (routing_table s ! r0)
         \<and> e_dag (t_state (routing_table v ! r)) = e_dag (t_state (routing_table s ! r0))"
    "dag_table v = dag_table s" "parent_mem v = parent_mem s" "outbox v = outbox s"
proof (cases "uip_ds6_route_lookup prefix s")
  case None
  from add_route_result [where s = s and d = "Some d" and p = prefix and nh = nh, OF assms]
  obtain r v where a: "rpl_add_route (Some d) prefix 128 nh s = (Some r, v)"
    and r: "uip_ds6_route_lookup prefix v = Some r" "t_nexthop (routing_table v ! r) = nh" "e_dag (t_state (routing_table v ! r)) = Some d"
    by (auto split: prod.splits option.splits)
  from rpl_add_route_frame [OF a] a r None that [of r v] show ?thesis by simp
next
  case (Some r0)
  with that [of r0 s] show ?thesis by simp
qed

text \<open>C25: Downward routes: the DAO that a child sends to its parent leaves the parent with a
  route to the child's global address that has the lifetime of the DAO in the parent's unit,
  and makes it pass the same bytes on to its own preferred parent; nothing goes further from
  the root. When the parent had no route that covers the address, the route goes through the
  sender and belongs to the DAG. When it had one, the lookup still gives that route with its
  old next hop and DAG, whoever sent the DAO: only its lifetime is renewed.\<close>

theorem dao_installs_route:
  assumes child: "get_global_addr t = Some prefix" "length prefix = 16" "d_instance_id (DAG t (p_dag (PAR t n))) = inst"
      "lifetime \<noteq> 0"
    and parent: "rpl_get_dag (uint inst) None s = Some d" "dao_loop d (k_src k) s = None" "\<not> uip_is_addr_mcast (k_src k)"
    and table: "routing_table s \<noteq> []" "\<forall>e \<in> set (routing_table s). t_length e \<le> 128"
  shows "\<exists>m. outbox (dao_output (Some n) lifetime t) = outbox t @ [Icmp6_send (p_addr (PAR t n)) RPL_CODE_DAO m]
    \<and> (let s' = dao_input (dao_packet m rest k) s
       in (\<exists>r. uip_ds6_route_lookup prefix s' = Some r
             \<and> (case uip_ds6_route_lookup prefix s of
                  None \<Rightarrow> t_nexthop (routing_table s' ! r) = k_src k \<and> e_dag (t_state (routing_table s' ! r)) = Some d
                | Some r0 \<Rightarrow> r = r0 \<and> t_nexthop (routing_table s' ! r) = t_nexthop (routing_table s ! r0)
                    \<and> e_dag (t_state (routing_table s' ! r)) = e_dag (t_state (routing_table s ! r0)))
             \<and> e_lifetime (t_state (routing_table s' ! r)) = RPL_LIFETIME (DAG s d) lifetime)
          \<and> outbox s' = outbox s @ (case d_preferred_parent (DAG s d) of None \<Rightarrow> []
               | Some p \<Rightarrow> [Icmp6_send (p_addr (PAR s p)) RPL_CODE_DAO m]))"
proof -
  let ?m = "dao_message inst (dao_sequence t + 1) prefix lifetime" and ?k = "dao_packet"
  have out: "outbox (dao_output (Some n) lifetime t) = outbox t @ [Icmp6_send (p_addr (PAR t n)) RPL_CODE_DAO ?m]"
    using child(1,3) by (simp add: dao_output_def Let_def emit_def DAG_def PAR_def)
  define u where "u = chk_dao_loop d (k_src k) s"
  have u: "routing_table u = routing_table s" "dag_table u = dag_table s" "parent_mem u = parent_mem s" "outbox u = outbox s"
    by (simp_all add: u_def chk_dao_loop_def chk_rank_def set_fault_def)
  have "dao_loop d (k_src k) u = dao_loop d (k_src k) s"
    by (simp only: dao_loop_def rpl_find_parent_def DAG_def PAR_def u)
  then have loop: "dao_loop d (k_src k) u = None" by (simp only: parent(2))
  have lk0: "uip_ds6_route_lookup prefix u = uip_ds6_route_lookup prefix s" using u(1) by (simp add: uip_ds6_route_lookup_def)
  obtain r v where a: "(case uip_ds6_route_lookup prefix u of Some r \<Rightarrow> (Some r, u)
        | None \<Rightarrow> rpl_add_route (Some d) prefix 128 (k_src k) u) = (Some r, v)"
    and r: "uip_ds6_route_lookup prefix v = Some r"
    and old: "case uip_ds6_route_lookup prefix u of
       None \<Rightarrow> t_nexthop (routing_table v ! r) = k_src k \<and> e_dag (t_state (routing_table v ! r)) = Some d
     | Some r0 \<Rightarrow> r = r0 \<and> t_nexthop (routing_table v ! r) = t_nexthop (routing_table u ! r0)
         \<and> e_dag (t_state (routing_table v ! r)) = e_dag (t_state (routing_table u ! r0))"
    and fr: "dag_table v = dag_table u" "parent_mem v = parent_mem u" "outbox v = outbox u"
    by (rule dao_route_found [where s = u and prefix = prefix and d = d and nh = "k_src k"]) (use table u(1) in auto)
  let ?P = "dao_packet ?m rest k"
  have e: "dao_input ?P s = dao_route d r lifetime ?P v"
    unfolding dao_input_message [OF child(2) parent(1) refl] u_def [symmetric] Let_def loop option.case a prod.case
    using child(4) by simp
  have rl: "r < length (routing_table v)" using route_lookup_Some [OF r(1)] by blast
  note res = dao_route_result [OF rl, of d lifetime ?P]
  have bytes: "bget (k_buf ?P) 0 (unat (k_len ?P)) = ?m" "k_src ?P = k_src k" "k_buf ?P 1 AND 0x80 = 0"
  proof -
    have l: "length ?m = 30" using child(2) by (simp add: dao_message_def)
    show "bget (k_buf ?P) 0 (unat (k_len ?P)) = ?m" using bytes_at_bget [OF bytes_at_packet [of ?m rest]] l by (simp add: dao_packet_def)
    show "k_src ?P = k_src k" by (simp add: dao_packet_def)
    show "k_buf ?P 1 AND 0x80 = 0" by (simp add: dao_packet_def packet_buf_def dao_message_def)
  qed
  have lk: "uip_ds6_route_lookup prefix (dao_input ?P s) = Some r"
    using route_lookup_cong [OF res(1)] r(1) by (simp only: e)
  have kept: "case uip_ds6_route_lookup prefix s of
       None \<Rightarrow> t_nexthop (routing_table (dao_input ?P s) ! r) = k_src k \<and> e_dag (t_state (routing_table (dao_input ?P s) ! r)) = Some d
     | Some r0 \<Rightarrow> r = r0 \<and> t_nexthop (routing_table (dao_input ?P s) ! r) = t_nexthop (routing_table s ! r0)
         \<and> e_dag (t_state (routing_table (dao_input ?P s) ! r)) = e_dag (t_state (routing_table s ! r0))"
    using old unfolding lk0 u(1) e res(2,3) .
  have life: "e_lifetime (t_state (routing_table (dao_input ?P s) ! r)) = RPL_LIFETIME (DAG s d) lifetime"
    unfolding e res(4) using fr u by (simp add: DAG_def)
  have fwd: "outbox (dao_input ?P s) = outbox s @ (case d_preferred_parent (DAG s d) of None \<Rightarrow> []
      | Some p \<Rightarrow> [Icmp6_send (p_addr (PAR s p)) RPL_CODE_DAO ?m])"
    using fr u parent(3) by (auto simp: e res bytes bytes(3) [unfolded One_nat_def] DAG_def PAR_def split: option.split)
  show ?thesis unfolding Let_def using out lk kept life fwd by blast
qed

definition demo_parent :: node where
  "demo_parent = (demo_child 256 512)\<lparr>routing_table := replicate 8 route0\<rparr>"

definition demo_sender :: node where
  "demo_sender = demo_parent\<lparr>addr_list := [addr_entry0\<lparr>a_isused := True, a_state := ADDR_PREFERRED,
     a_ipaddr := [0xaa, 0xaa] @ replicate 13 0 @ [7]\<rparr>]\<rparr>"

definition demo_dao_from :: packet where
  "demo_dao_from = \<lparr>k_src = [0xfe, 0x80] @ replicate 13 0 @ [7], k_dest = [], k_code = 0, k_buf = (\<lambda>_. 0), k_len = 0, k_sender = []\<rparr>"

definition demo_route_holder :: node where
  "demo_route_holder = demo_parent\<lparr>routing_table := [route0\<lparr>t_isused := True, t_length := 128,
     t_ipaddr := [0xaa, 0xaa] @ replicate 13 0 @ [7], t_nexthop := k_src demo_dao_from,
     t_state := (t_state route0)\<lparr>e_lifetime := 510, e_dag := Some 0\<rparr>\<rparr>]\<rparr>"

definition demo_other_sender :: packet where
  "demo_other_sender = demo_dao_from\<lparr>k_src := [0xfe, 0x80] @ replicate 13 0 @ [9]\<rparr>"

text \<open>A first DAO, and one from another neighbour for an address with a route.\<close>

theorem dao_installs_route_witness:
  "(\<exists>m r. outbox (dao_output (Some 0) 255 demo_sender) = [Icmp6_send (replicate 16 0) RPL_CODE_DAO m]
    \<and> t_nexthop (routing_table (dao_input (dao_packet m (\<lambda>_. 0) demo_dao_from) demo_parent) ! r) = [0xfe, 0x80] @ replicate 13 0 @ [7]
    \<and> e_lifetime (t_state (routing_table (dao_input (dao_packet m (\<lambda>_. 0) demo_dao_from) demo_parent) ! r)) = 510)
   \<and> (\<exists>m. t_nexthop (routing_table (dao_input (dao_packet m (\<lambda>_. 0) demo_other_sender) demo_route_holder) ! 0)
        = [0xfe, 0x80] @ replicate 13 0 @ [7])"
proof -
  let ?a = "[0xaa, 0xaa] @ replicate 13 0 @ [7] :: ipaddr"
  have c: "get_global_addr demo_sender = Some ?a" "length ?a = 16" "d_instance_id (DAG demo_sender (p_dag (PAR demo_sender 0))) = 0"
    "(255 :: u8) \<noteq> 0" "rpl_get_dag (uint (0 :: u8)) None demo_parent = Some 0"
    "dao_loop 0 (k_src demo_dao_from) demo_parent = None" "\<not> uip_is_addr_mcast (k_src demo_dao_from)"
    by code_simp+
  have t: "routing_table demo_parent \<noteq> []" "\<forall>e \<in> set (routing_table demo_parent). t_length e \<le> 128"
    by (simp_all add: demo_parent_def route0_def)
  have l: "uip_ds6_route_lookup ?a demo_parent = None" by code_simp
  have o: "outbox demo_sender = []" "p_addr (PAR demo_sender 0) = replicate 16 0" "RPL_LIFETIME (DAG demo_parent 0) 255 = 510"
    "k_src demo_dao_from = [0xfe, 0x80] @ replicate 13 0 @ [7]"
    by code_simp+
  have h: "rpl_get_dag (uint (0 :: u8)) None demo_route_holder = Some 0" "dao_loop 0 (k_src demo_other_sender) demo_route_holder = None"
    "\<not> uip_is_addr_mcast (k_src demo_other_sender)" "uip_ds6_route_lookup ?a demo_route_holder = Some 0"
    "t_nexthop (routing_table demo_route_holder ! 0) = [0xfe, 0x80] @ replicate 13 0 @ [7]"
    by code_simp+
  have th: "routing_table demo_route_holder \<noteq> []" "\<forall>e \<in> set (routing_table demo_route_holder). t_length e \<le> 128"
    by (simp_all add: demo_route_holder_def)
  from dao_installs_route [OF c t, of "\<lambda>_. 0"] have "\<exists>m r. outbox (dao_output (Some 0) 255 demo_sender) = [Icmp6_send (replicate 16 0) RPL_CODE_DAO m]
    \<and> t_nexthop (routing_table (dao_input (dao_packet m (\<lambda>_. 0) demo_dao_from) demo_parent) ! r) = [0xfe, 0x80] @ replicate 13 0 @ [7]
    \<and> e_lifetime (t_state (routing_table (dao_input (dao_packet m (\<lambda>_. 0) demo_dao_from) demo_parent) ! r)) = 510"
    unfolding Let_def o l option.case by auto
  moreover from dao_installs_route [OF c(1-4) h(1-3) th, of "\<lambda>_. 0"]
  have "\<exists>m. t_nexthop (routing_table (dao_input (dao_packet m (\<lambda>_. 0) demo_other_sender) demo_route_holder) ! 0)
    = [0xfe, 0x80] @ replicate 13 0 @ [7]"
    unfolding Let_def h(4,5) option.case by blast
  ultimately show ?thesis by blast
qed

section \<open>Taking a route back\<close>

text \<open>C26: A No-Path DAO takes a route back: the DAO with lifetime 0 that a child sends when it
  leaves its parent does not remove the route at once but leaves it 60 rounds of the
  periodic timer, after which it is gone; the node sends nothing. This holds for a route
  that no No-Path DAO has met before.\<close>

theorem no_path_expires:
  assumes m: "m = dao_message inst sq prefix 0" "length prefix = 16"
    and d: "rpl_get_dag (uint inst) None s = Some d" and r: "uip_ds6_route_lookup prefix s = Some r"
    and fresh: "e_saved_lifetime (t_state (routing_table s ! r)) = 0" and n: "0 < n"
  shows "let s' = dao_input (dao_packet m rest k) s
    in outbox s' = outbox s \<and> uip_ds6_route_lookup prefix s' = Some r
       \<and> (t_isused (routing_table ((rpl_purge_routes ^^ n) s') ! r) \<longleftrightarrow> n < 60)"
proof -
  let ?s' = "dao_input (dao_packet m rest k) s"
  have e: "?s' = s\<lparr>routing_table := updf r (\<lambda>t. t\<lparr>t_state := (t_state t)\<lparr>
                 e_saved_lifetime := e_lifetime (t_state t), e_lifetime := 60\<rparr>\<rparr>) (routing_table s)\<rparr>"
    using r fresh by (simp add: dao_input_message [OF m(2) d m(1)] no_path_def)
  from route_lookup_Some [OF r] have rl: "r < length (routing_table s)" and u: "t_isused (routing_table s ! r)"
    by (auto simp: route_matches_def)
  have "map route_key (routing_table ?s') = map route_key (routing_table s)"
    unfolding e by (simp add: map_updf_same route_key_def)
  then have lk: "uip_ds6_route_lookup prefix ?s' = Some r" using route_lookup_cong r by metis
  have "t_isused (routing_table ((rpl_purge_routes ^^ n) ?s') ! r) \<longleftrightarrow> t_isused (routing_table ?s' ! r) \<and> n < 60"
    using purge_route_iterate(1) [of n "routing_table ?s' ! r"] rl n by (simp add: rpl_purge_routes_iterate e)
  moreover have "t_isused (routing_table ?s' ! r)" using u rl by (simp add: e)
  ultimately show ?thesis using lk by (simp add: Let_def) (simp add: e)
qed

lemma demo_route_holder_ok:
  "length ([0xaa, 0xaa] @ replicate 13 0 @ [7] :: ipaddr) = 16" "rpl_get_dag (uint (0 :: u8)) None demo_route_holder = Some 0"
  "uip_ds6_route_lookup ([0xaa, 0xaa] @ replicate 13 0 @ [7]) demo_route_holder = Some 0"
  "e_saved_lifetime (t_state (routing_table demo_route_holder ! 0)) = 0"
  "e_lifetime (t_state (routing_table demo_route_holder ! 0)) \<noteq> 0"
  "dao_loop 0 (k_src demo_dao_from) demo_route_holder = None"
  by code_simp+

theorem no_path_expires_witness:
  "let s' = dao_input (dao_packet (dao_message 0 9 ([0xaa, 0xaa] @ replicate 13 0 @ [7]) 0) (\<lambda>_. 0) demo_dao_from) demo_route_holder
   in t_isused (routing_table ((rpl_purge_routes ^^ 59) s') ! 0) \<and> \<not> t_isused (routing_table ((rpl_purge_routes ^^ 60) s') ! 0)"
  using no_path_expires [OF refl demo_route_holder_ok(1-4), of 59 9 "\<lambda>_. 0" demo_dao_from]
    no_path_expires [OF refl demo_route_holder_ok(1-4), of 60 9 "\<lambda>_. 0" demo_dao_from]
  by (simp add: Let_def)

text \<open>C27: After one No-Path DAO the route stays marked for good: when a later DAO renews it, the
  next No-Path DAO is without effect, because the saved lifetime is never cleared.\<close>

theorem second_no_path_ignored:
  assumes m: "length prefix = 16" "rpl_get_dag (uint inst) None s = Some d" "uip_ds6_route_lookup prefix s = Some r"
    and l: "e_lifetime (t_state (routing_table s ! r)) \<noteq> 0" "lifetime \<noteq> 0"
    and nl: "dao_loop d (k_src k) s = None" "e_saved_lifetime (t_state (routing_table s ! r)) = 0"
  shows "let no = (\<lambda>s. dao_input (dao_packet (dao_message inst 1 prefix 0) rest k) s);
      again = (\<lambda>s. dao_input (dao_packet (dao_message inst 2 prefix lifetime) rest k) s)
    in e_lifetime (t_state (routing_table (no s) ! r)) = 60
       \<and> no (again (no s)) = again (no s)"
proof -
  let ?no = "\<lambda>s. dao_input (dao_packet (dao_message inst 1 prefix 0) rest k) s"
  let ?again = "\<lambda>s. dao_input (dao_packet (dao_message inst 2 prefix lifetime) rest k) s"
  from route_lookup_Some [OF m(3)] have rl: "r < length (routing_table s)" by blast
  have e1: "?no s = s\<lparr>routing_table := updf r (\<lambda>t. t\<lparr>t_state := (t_state t)\<lparr>
                 e_saved_lifetime := e_lifetime (t_state t), e_lifetime := 60\<rparr>\<rparr>) (routing_table s)\<rparr>"
    using m(3) nl(2) by (simp add: dao_input_message [OF m(1,2) refl] no_path_def)
  define s1 where "s1 = ?no s"
  have s1: "dag_table s1 = dag_table s" "parent_mem s1 = parent_mem s" "rpl_get_dag (uint inst) None s1 = Some d"
      "map route_key (routing_table s1) = map route_key (routing_table s)"
      "e_lifetime (t_state (routing_table s1 ! r)) = 60" "e_saved_lifetime (t_state (routing_table s1 ! r)) \<noteq> 0"
    unfolding s1_def e1 using m(2) l(1) rl by (simp_all add: rpl_get_dag_def map_updf_same route_key_def)
  have lk1: "uip_ds6_route_lookup prefix s1 = Some r" using route_lookup_cong [OF s1(4)] m(3) by simp
  define u where "u = chk_dao_loop d (k_src k) s1"
  have u: "routing_table u = routing_table s1" "dag_table u = dag_table s" "parent_mem u = parent_mem s"
    by (simp_all add: u_def chk_dao_loop_def chk_rank_def set_fault_def s1)
  have "dao_loop d (k_src k) u = dao_loop d (k_src k) s"
    by (simp only: dao_loop_def rpl_find_parent_def DAG_def PAR_def u)
  then have loop: "dao_loop d (k_src k) u = None" by (simp only: nl(1))
  have lku: "uip_ds6_route_lookup prefix u = Some r" using lk1 u(1) by (simp add: uip_ds6_route_lookup_def)
  have e2: "?again s1 = dao_route d r lifetime (dao_packet (dao_message inst 2 prefix lifetime) rest k) u"
    unfolding dao_input_message [OF m(1) s1(3) refl] u_def [symmetric] Let_def loop lku option.case prod.case
    using l(2) by simp
  define s2 where "s2 = ?again s1"
  have ru: "r < length (routing_table u)" using rl s1(4) by (metis length_map u(1))
  have keys: "map route_key (routing_table s2) = map route_key (routing_table u)"
    unfolding s2_def e2 by (rule dao_route_result(1) [OF ru])
  have lk2: "uip_ds6_route_lookup prefix s2 = Some r" using route_lookup_cong [OF keys] lku by simp
  have d2: "rpl_get_dag (uint inst) None s2 = Some d" and sv: "e_saved_lifetime (t_state (routing_table s2 ! r)) \<noteq> 0"
    unfolding s2_def e2 using m(2) s1(6) u by (simp_all add: dao_route_result [OF ru] rpl_get_dag_def)
  have "?no s2 = s2" using lk2 sv by (simp add: dao_input_message [OF m(1) d2 refl] no_path_def)
  then show ?thesis using s1(5) by (simp add: Let_def s1_def s2_def)
qed

theorem second_no_path_ignored_witness:
  "let no = (\<lambda>s. dao_input (dao_packet (dao_message 0 1 ([0xaa, 0xaa] @ replicate 13 0 @ [7]) 0) (\<lambda>_. 0) demo_dao_from) s);
      again = (\<lambda>s. dao_input (dao_packet (dao_message 0 2 ([0xaa, 0xaa] @ replicate 13 0 @ [7]) 255) (\<lambda>_. 0) demo_dao_from) s)
   in e_lifetime (t_state (routing_table (no demo_route_holder) ! 0)) = 60 \<and> no (again (no demo_route_holder)) = again (no demo_route_holder)"
  using second_no_path_ignored [OF demo_route_holder_ok(1-3,5) _ demo_route_holder_ok(6,4), of 255 "\<lambda>_. 0"]
  by (simp add: Let_def)

end
