(* ===== verification/Net_Packetbuf.thy ===== *)
theory Net_Packetbuf
  imports Net_Neighbor Uip_Packet_Laws
begin

text \<open>
  The packet buffer \<open>core/net/packetbuf.c\<close> with its attributes, and the copies of it that
  \<open>core/net/queuebuf.c\<close> keeps. The array \<open>packetbuf\<close> is a function from offsets to bytes; its
  first 48 bytes are for headers, which grow downwards from the data. \<open>packetbufptr\<close> is the
  data area (\<open>None\<close>) or the memory that the buffer refers to.
\<close>

section \<open>Attributes\<close>

datatype packetbuf_attr =
    PACKETBUF_ATTR_NONE | PACKETBUF_ATTR_CHANNEL | PACKETBUF_ATTR_NETWORK_ID | PACKETBUF_ATTR_LINK_QUALITY
  | PACKETBUF_ATTR_RSSI | PACKETBUF_ATTR_TIMESTAMP | PACKETBUF_ATTR_RADIO_TXPOWER | PACKETBUF_ATTR_LISTEN_TIME
  | PACKETBUF_ATTR_TRANSMIT_TIME | PACKETBUF_ATTR_MAX_MAC_TRANSMISSIONS | PACKETBUF_ATTR_MAC_SEQNO
  | PACKETBUF_ATTR_MAC_ACK | PACKETBUF_ATTR_RELIABLE | PACKETBUF_ATTR_PACKET_ID | PACKETBUF_ATTR_PACKET_TYPE
  | PACKETBUF_ATTR_REXMIT | PACKETBUF_ATTR_MAX_REXMIT | PACKETBUF_ATTR_NUM_REXMIT | PACKETBUF_ATTR_PENDING
  | PACKETBUF_ATTR_HOPS | PACKETBUF_ATTR_TTL | PACKETBUF_ATTR_EPACKET_ID | PACKETBUF_ATTR_EPACKET_TYPE
  | PACKETBUF_ATTR_ERELIABLE

datatype packetbuf_addr =
    PACKETBUF_ADDR_SENDER | PACKETBUF_ADDR_RECEIVER | PACKETBUF_ADDR_ESENDER | PACKETBUF_ADDR_ERECEIVER

section \<open>The buffer\<close>

definition PACKETBUF_SIZE :: u16 where "PACKETBUF_SIZE = 128"
definition PACKETBUF_HDR_SIZE :: nat where "PACKETBUF_HDR_SIZE = 48"

lemmas packetbuf_consts = PACKETBUF_SIZE_def PACKETBUF_HDR_SIZE_def

record packetbuf =
  pb_len :: u16
  pb_bufptr :: u16
  pb_hdrptr :: u8
  pb_mem :: "nat \<Rightarrow> u8"
  pb_ref :: "(nat \<Rightarrow> u8) option"
  pb_attr :: "packetbuf_attr \<Rightarrow> u16"
  pb_addr :: "packetbuf_addr \<Rightarrow> rimeaddr"

text \<open>The bytes behind \<open>packetbufptr\<close>, and those behind \<open>packetbuf_dataptr()\<close>.\<close>

definition pb_area :: "'z packetbuf_scheme \<Rightarrow> nat \<Rightarrow> u8" where
  "pb_area p i = (case pb_ref p of None \<Rightarrow> pb_mem p (PACKETBUF_HDR_SIZE + i) | Some m \<Rightarrow> m i)"

definition packetbuf_dataptr :: "'z packetbuf_scheme \<Rightarrow> nat" where
  "packetbuf_dataptr p = unat (pb_bufptr p) + PACKETBUF_HDR_SIZE"

definition packetbuf_attr_clear :: "'z packetbuf_scheme \<Rightarrow> 'z packetbuf_scheme" where
  "packetbuf_attr_clear p = p\<lparr>pb_attr := \<lambda>_. 0, pb_addr := \<lambda>_. rimeaddr_null\<rparr>"

definition packetbuf_clear :: "'z packetbuf_scheme \<Rightarrow> 'z packetbuf_scheme" where
  "packetbuf_clear p =
     packetbuf_attr_clear (p\<lparr>pb_len := 0, pb_bufptr := 0, pb_hdrptr := of_nat PACKETBUF_HDR_SIZE, pb_ref := None\<rparr>)"

definition packetbuf_clear_hdr :: "'z packetbuf_scheme \<Rightarrow> 'z packetbuf_scheme" where
  "packetbuf_clear_hdr p = p\<lparr>pb_hdrptr := of_nat PACKETBUF_HDR_SIZE\<rparr>"

definition packetbuf_copyfrom :: "(nat \<Rightarrow> u8) \<Rightarrow> u16 \<Rightarrow> 'z packetbuf_scheme \<Rightarrow> 'z packetbuf_scheme" where
  "packetbuf_copyfrom src len p =
     (let p = packetbuf_clear p;
          l = (if PACKETBUF_SIZE < len then PACKETBUF_SIZE else len)
      in p\<lparr>pb_mem := bset PACKETBUF_HDR_SIZE (bget src 0 (unat l)) (pb_mem p), pb_len := l\<rparr>)"

text \<open>A buffer that refers to other memory keeps the reference.\<close>

definition packetbuf_compact :: "'z packetbuf_scheme \<Rightarrow> 'z packetbuf_scheme" where
  "packetbuf_compact p =
     (case pb_ref p of
        Some m \<Rightarrow> p\<lparr>pb_mem := bset PACKETBUF_HDR_SIZE (bget m 0 (unat (pb_len p))) (pb_mem p)\<rparr>
      | None \<Rightarrow>
          if 0 < pb_bufptr p
          then p\<lparr>pb_mem := bset PACKETBUF_HDR_SIZE (bget (pb_mem p) (packetbuf_dataptr p) (unat (pb_len p))) (pb_mem p),
                 pb_bufptr := 0\<rparr>
          else p)"

definition packetbuf_hdrlen :: "'z packetbuf_scheme \<Rightarrow> u8" where
  "packetbuf_hdrlen p = of_nat PACKETBUF_HDR_SIZE - pb_hdrptr p"

definition packetbuf_totlen :: "'z packetbuf_scheme \<Rightarrow> u16" where
  "packetbuf_totlen p = ucast (packetbuf_hdrlen p) + pb_len p"

text \<open>The bytes that are copied; none if the packet is too large.\<close>

definition packetbuf_copyto_hdr :: "'z packetbuf_scheme \<Rightarrow> bytes" where
  "packetbuf_copyto_hdr p =
     bget (pb_mem p) (unat (pb_hdrptr p)) (unat (of_nat PACKETBUF_HDR_SIZE - ucast (pb_hdrptr p) :: u16))"

definition packetbuf_copyto :: "'z packetbuf_scheme \<Rightarrow> bytes" where
  "packetbuf_copyto p =
     (if PACKETBUF_SIZE < of_nat PACKETBUF_HDR_SIZE - ucast (pb_hdrptr p) + pb_len p then []
      else packetbuf_copyto_hdr p @ bget (pb_area p) (unat (pb_bufptr p)) (unat (pb_len p)))"

definition packetbuf_hdralloc :: "u8 \<Rightarrow> 'z packetbuf_scheme \<Rightarrow> bool \<times> 'z packetbuf_scheme" where
  "packetbuf_hdralloc n p =
     (if n \<le> pb_hdrptr p \<and> packetbuf_totlen p + ucast n \<le> PACKETBUF_SIZE
      then (True, p\<lparr>pb_hdrptr := pb_hdrptr p - n\<rparr>) else (False, p))"

definition packetbuf_hdr_remove :: "u16 \<Rightarrow> 'z packetbuf_scheme \<Rightarrow> 'z packetbuf_scheme" where
  "packetbuf_hdr_remove n p = p\<lparr>pb_hdrptr := pb_hdrptr p + ucast n\<rparr>"

text \<open>The comparison of the unsigned \<open>buflen\<close> with an \<open>int\<close> is unsigned.\<close>

definition packetbuf_hdrreduce :: "u16 \<Rightarrow> 'z packetbuf_scheme \<Rightarrow> bool \<times> 'z packetbuf_scheme" where
  "packetbuf_hdrreduce n p =
     (if pb_len p < n then (False, p)
      else (True, p\<lparr>pb_bufptr := pb_bufptr p + n, pb_len := pb_len p - n\<rparr>))"

definition packetbuf_set_datalen :: "u16 \<Rightarrow> 'z packetbuf_scheme \<Rightarrow> 'z packetbuf_scheme" where
  "packetbuf_set_datalen n p = p\<lparr>pb_len := n\<rparr>"

definition packetbuf_reference :: "(nat \<Rightarrow> u8) \<Rightarrow> u16 \<Rightarrow> 'z packetbuf_scheme \<Rightarrow> 'z packetbuf_scheme" where
  "packetbuf_reference m n p = (packetbuf_clear p)\<lparr>pb_ref := Some m, pb_len := n\<rparr>"

definition packetbuf_set_attr :: "packetbuf_attr \<Rightarrow> u16 \<Rightarrow> 'z packetbuf_scheme \<Rightarrow> 'z packetbuf_scheme" where
  "packetbuf_set_attr a v p = p\<lparr>pb_attr := (pb_attr p)(a := v)\<rparr>"

definition packetbuf_set_addr :: "packetbuf_addr \<Rightarrow> rimeaddr \<Rightarrow> 'z packetbuf_scheme \<Rightarrow> 'z packetbuf_scheme" where
  "packetbuf_set_addr a v p = p\<lparr>pb_addr := (pb_addr p)(a := v)\<rparr>"

text \<open>Bytes written behind \<open>packetbuf_dataptr()\<close>.\<close>

definition packetbuf_write :: "nat \<Rightarrow> bytes \<Rightarrow> 'z packetbuf_scheme \<Rightarrow> 'z packetbuf_scheme" where
  "packetbuf_write i bs p = p\<lparr>pb_mem := bset (packetbuf_dataptr p + i) bs (pb_mem p)\<rparr>"

section \<open>Queue buffers\<close>

definition QUEUEBUF_NUM :: nat where "QUEUEBUF_NUM = 8"
definition QUEUEBUF_REF_NUM :: nat where "QUEUEBUF_REF_NUM = 2"

record queuebuf =
  qb_len :: u16
  qb_data :: "nat \<Rightarrow> u8"
  qb_attr :: "packetbuf_attr \<Rightarrow> u16"
  qb_addr :: "packetbuf_addr \<Rightarrow> rimeaddr"

record queuebuf_ref =
  qr_len :: u16
  qr_ref :: "nat \<Rightarrow> u8"
  qr_hdr :: "nat \<Rightarrow> u8"
  qr_hdrlen :: u8

text \<open>A pointer to a queue buffer is a block of one of the two pools; \<open>memb_inmemb\<close> tells which.\<close>

datatype qptr = Buf nat | Ref nat

record queuebufs = packetbuf +
  bufmem :: "u8 list"
  bufs :: "queuebuf list"
  refbufmem :: "u8 list"
  refs :: "queuebuf_ref list"
  qb_fault :: bool

definition queuebuf_init :: "'z queuebufs_scheme \<Rightarrow> 'z queuebufs_scheme" where
  "queuebuf_init s = s\<lparr>bufmem := replicate QUEUEBUF_NUM 0, refbufmem := replicate QUEUEBUF_REF_NUM 0\<rparr>"

definition queuebuf_new_from_packetbuf :: "'z queuebufs_scheme \<Rightarrow> qptr option \<times> 'z queuebufs_scheme" where
  "queuebuf_new_from_packetbuf s =
     (case pb_ref s of
        Some m \<Rightarrow>
          (case pool_alloc (refbufmem s) of
             (None, c) \<Rightarrow> (None, s\<lparr>refbufmem := c\<rparr>)
           | (Some i, c) \<Rightarrow>
               let h = packetbuf_copyto_hdr s in
               (Some (Ref i), s\<lparr>refbufmem := c,
                  refs := updf i (\<lambda>r. r\<lparr>qr_len := pb_len s, qr_ref := m, qr_hdr := bset 0 h (qr_hdr r),
                    qr_hdrlen := of_nat (length h)\<rparr>) (refs s)\<rparr>))
      | None \<Rightarrow>
          (case pool_alloc (bufmem s) of
             (None, c) \<Rightarrow> (None, s\<lparr>bufmem := c\<rparr>)
           | (Some i, c) \<Rightarrow>
               let d = packetbuf_copyto s in
               (Some (Buf i), s\<lparr>bufmem := c,
                  bufs := updf i (\<lambda>b. b\<lparr>qb_len := of_nat (length d), qb_data := bset 0 d (qb_data b),
                    qb_attr := pb_attr s, qb_addr := pb_addr s\<rparr>) (bufs s)\<rparr>)))"

text \<open>The C code writes the attributes of a plain queue buffer, whatever the pointer is; a
  \<open>queuebuf_ref\<close> is too short for them.\<close>

definition queuebuf_update_attr_from_packetbuf :: "qptr \<Rightarrow> 'z queuebufs_scheme \<Rightarrow> 'z queuebufs_scheme" where
  "queuebuf_update_attr_from_packetbuf q s =
     (case q of
        Buf i \<Rightarrow> s\<lparr>bufs := updf i (\<lambda>b. b\<lparr>qb_attr := pb_attr s, qb_addr := pb_addr s\<rparr>) (bufs s)\<rparr>
      | Ref i \<Rightarrow> s\<lparr>qb_fault := True\<rparr>)"

definition queuebuf_free :: "qptr \<Rightarrow> 'z queuebufs_scheme \<Rightarrow> 'z queuebufs_scheme" where
  "queuebuf_free q s =
     (case q of Buf i \<Rightarrow> s\<lparr>bufmem := pool_free (bufmem s) i\<rparr> | Ref i \<Rightarrow> s\<lparr>refbufmem := pool_free (refbufmem s) i\<rparr>)"

definition queuebuf_to_packetbuf :: "qptr \<Rightarrow> 'z queuebufs_scheme \<Rightarrow> 'z queuebufs_scheme" where
  "queuebuf_to_packetbuf q s =
     (case q of
        Buf i \<Rightarrow>
          let b = bufs s ! i in
          (packetbuf_copyfrom (qb_data b) (qb_len b) s)\<lparr>pb_attr := qb_attr b, pb_addr := qb_addr b\<rparr>
      | Ref i \<Rightarrow>
          let r = refs s ! i; s = packetbuf_copyfrom (qr_ref r) (qr_len r) s;
              s = snd (packetbuf_hdralloc (qr_hdrlen r) s)
          in s\<lparr>pb_mem := bset (unat (pb_hdrptr s)) (bget (qr_hdr r) 0 (unat (qr_hdrlen r))) (pb_mem s)\<rparr>)"

end
