(* ===== verification/Net_Mac.thy ===== *)
theory Net_Mac
  imports Net_Packetbuf
begin

text \<open>
  The link layer of the sky build: frames of IEEE 802.15.4 (\<open>core/net/mac/frame802154.c\<close>,
  \<open>framer-802154.c\<close>), the radio duty cycling layer that does nothing (\<open>nullrdc.c\<close>), and the
  queue of packets to transmit (\<open>csma.c\<close>, \<open>mac.c\<close>). The radio and the functions to call when a
  packet is sent are parameters: \<open>radio\<close> takes a frame and a state of its own.
\<close>

section \<open>Frames\<close>

definition FRAME802154_DATAFRAME :: u8 where "FRAME802154_DATAFRAME = 1"
definition FRAME802154_SHORTADDRMODE :: u8 where "FRAME802154_SHORTADDRMODE = 2"
definition FRAME802154_LONGADDRMODE :: u8 where "FRAME802154_LONGADDRMODE = 3"
definition FRAME802154_BROADCASTPANDID :: u16 where "FRAME802154_BROADCASTPANDID = 0xFFFF"
definition FRAME802154_IEEE802154_2003 :: u8 where "FRAME802154_IEEE802154_2003 = 0"
definition IEEE802154_PANID :: u16 where "IEEE802154_PANID = 0xABCD"

lemmas frame_consts = FRAME802154_DATAFRAME_def FRAME802154_SHORTADDRMODE_def FRAME802154_LONGADDRMODE_def
  FRAME802154_BROADCASTPANDID_def FRAME802154_IEEE802154_2003_def IEEE802154_PANID_def

record fcf =
  frame_type :: u8
  security_enabled :: u8
  frame_pending :: u8
  ack_required :: u8
  panid_compression :: u8
  dest_addr_mode :: u8
  frame_version :: u8
  src_addr_mode :: u8

text \<open>The payload is an offset in the buffer that was parsed; the auxiliary security header is
  not used by the code.\<close>

record frame802154 =
  f_fcf :: fcf
  f_seq :: u8
  f_dest_pid :: u16
  f_dest_addr :: rimeaddr
  f_src_pid :: u16
  f_src_addr :: rimeaddr
  f_payload :: nat
  f_payload_len :: u8

definition addr_len :: "u8 \<Rightarrow> nat" where
  "addr_len mode =
     (if mode = FRAME802154_SHORTADDRMODE then 2 else if mode = FRAME802154_LONGADDRMODE then 8 else 0)"

record field_length =
  dest_pid_len :: nat
  dest_addr_len :: nat
  src_pid_len :: nat
  src_addr_len :: nat

definition field_len :: "frame802154 \<Rightarrow> field_length \<times> frame802154" where
  "field_len p =
     (let f = f_fcf p;
          dm = dest_addr_mode f AND 3; sm = src_addr_mode f AND 3;
          same = (dm \<noteq> 0 \<and> sm \<noteq> 0 \<and> f_src_pid p = f_dest_pid p)
      in (\<lparr>dest_pid_len = (if dm \<noteq> 0 then 2 else 0), dest_addr_len = addr_len dm,
           src_pid_len = (if sm \<noteq> 0 \<and> \<not> same then 2 else 0), src_addr_len = addr_len sm\<rparr>,
          p\<lparr>f_fcf := f\<lparr>panid_compression := if same then 1 else 0\<rparr>\<rparr>))"

definition header_len :: "field_length \<Rightarrow> nat" where
  "header_len l = 3 + dest_pid_len l + dest_addr_len l + src_pid_len l + src_addr_len l"

definition frame802154_hdrlen :: "frame802154 \<Rightarrow> u8" where
  "frame802154_hdrlen p = of_nat (header_len (fst (field_len p)))"

definition le16 :: "u16 \<Rightarrow> bytes" where
  "le16 v = [ucast (v AND 0xff), ucast (drop_bit 8 v AND 0xff)]"

text \<open>The bytes of the header; none if they do not fit into \<open>buf_len\<close> bytes.\<close>

definition frame802154_create :: "frame802154 \<Rightarrow> u8 \<Rightarrow> bytes" where
  "frame802154_create p0 buf_len =
     (let (l, p) = field_len p0; f = f_fcf p in
      if unat buf_len < header_len l then []
      else
        [(frame_type f AND 7) OR push_bit 3 (security_enabled f AND 1) OR push_bit 4 (frame_pending f AND 1)
           OR push_bit 5 (ack_required f AND 1) OR push_bit 6 (panid_compression f AND 1),
         push_bit 2 (dest_addr_mode f AND 3) OR push_bit 4 (frame_version f AND 3)
           OR push_bit 6 (src_addr_mode f AND 3),
         f_seq p]
        @ (if dest_pid_len l = 2 then le16 (f_dest_pid p) else [])
        @ List.rev (take (dest_addr_len l) (f_dest_addr p))
        @ (if src_pid_len l = 2 then le16 (f_src_pid p) else [])
        @ List.rev (take (src_addr_len l) (f_src_addr p)))"

text \<open>The address at \<open>i\<close> in the given mode and the offset behind it. A reserved mode leaves the
  field \<open>old\<close> of the structure as it is.\<close>

definition parse_addr :: "(nat \<Rightarrow> u8) \<Rightarrow> nat \<Rightarrow> u8 \<Rightarrow> rimeaddr \<Rightarrow> rimeaddr \<times> nat" where
  "parse_addr m i mode old =
     (if mode = FRAME802154_SHORTADDRMODE then (rimeaddr_null[0 := m (i + 1), 1 := m i], i + 2)
      else if mode = FRAME802154_LONGADDRMODE then (List.rev (bget m i 8), i + 8)
      else (old, i))"

definition parse_pid :: "(nat \<Rightarrow> u8) \<Rightarrow> nat \<Rightarrow> u16" where
  "parse_pid m i = ucast (m i) + push_bit 8 (ucast (m (i + 1)))"

definition parse_fcf :: "u8 \<Rightarrow> u8 \<Rightarrow> fcf" where
  "parse_fcf a b =
     \<lparr>frame_type = a AND 7, security_enabled = drop_bit 3 a AND 1, frame_pending = drop_bit 4 a AND 1,
      ack_required = drop_bit 5 a AND 1, panid_compression = drop_bit 6 a AND 1,
      dest_addr_mode = drop_bit 2 b AND 3, frame_version = drop_bit 4 b AND 3,
      src_addr_mode = drop_bit 6 b AND 3\<rparr>"

text \<open>The fields are read before their length is compared with \<open>len\<close>.\<close>

definition frame802154_parse :: "(nat \<Rightarrow> u8) \<Rightarrow> u8 \<Rightarrow> frame802154 \<Rightarrow> u8 \<times> frame802154" where
  "frame802154_parse m len pf =
     (if len < 3 then (0, pf)
      else
        (let f = parse_fcf (m 0) (m 1); i = 3;
             (dpid, i) = (if dest_addr_mode f \<noteq> 0 then (parse_pid m i, i + 2) else (0, i));
             (dest, i) = (if dest_addr_mode f \<noteq> 0 then parse_addr m i (dest_addr_mode f) (f_dest_addr pf)
                          else (rimeaddr_null, i));
             (spid, i) = (if src_addr_mode f \<noteq> 0
                          then if panid_compression f = 0 then (parse_pid m i, i + 2) else (dpid, i)
                          else (0, i));
             (src, i) = (if src_addr_mode f \<noteq> 0 then parse_addr m i (src_addr_mode f) (f_src_addr pf)
                         else (rimeaddr_null, i));
             c = of_nat i
         in (if len < c then 0 else c,
             \<lparr>f_fcf = f, f_seq = m 2, f_dest_pid = dpid, f_dest_addr = dest, f_src_pid = spid,
              f_src_addr = src, f_payload = i, f_payload_len = len - c\<rparr>)))"

section \<open>State\<close>

text \<open>A packet in the queue of \<open>csma.c\<close>; \<open>qp_sent\<close> and \<open>qp_ptr\<close> are the function to call and
  its argument.\<close>

record queued_packet =
  qp_buf :: qptr
  qp_sent :: "nat option"
  qp_ptr :: nat
  qp_transmissions :: u8
  qp_max :: u8
  qp_collisions :: u8
  qp_deferrals :: u8

text \<open>\<open>transmit_timer\<close> is the time that the callback timer was set to; \<open>None\<close> when it is not
  running. \<open>user\<close> is the state of the radio and of the functions that are called.\<close>

record 'u mac = queuebufs +
  rimeaddr_node_addr :: rimeaddr
  mac_dsn :: u8
  framer_initialized :: bool
  rand_seed :: u32
  packet_memb :: "u8 list"
  packets :: "queued_packet list"
  queued_packet_list :: "nat list"
  transmit_timer :: "u32 option"
  rdc_is_transmitting :: bool
  seqno :: u16
  user :: 'u

section \<open>Framer\<close>

definition zero_frame :: frame802154 where
  "zero_frame =
     \<lparr>f_fcf = \<lparr>frame_type = 0, security_enabled = 0, frame_pending = 0, ack_required = 0, panid_compression = 0,
        dest_addr_mode = 0, frame_version = 0, src_addr_mode = 0\<rparr>,
      f_seq = 0, f_dest_pid = 0, f_dest_addr = replicate 8 0, f_src_pid = 0, f_src_addr = replicate 8 0,
      f_payload = 0, f_payload_len = 0\<rparr>"

definition is_broadcast_addr :: "u8 \<Rightarrow> rimeaddr \<Rightarrow> bool" where
  "is_broadcast_addr mode a \<longleftrightarrow>
     (let n = (if mode = FRAME802154_SHORTADDRMODE then 2 else 8) in take n a = replicate n 0xff)"

text \<open>\<open>random_rand\<close> on the seed of the node.\<close>

definition mac_rand :: "'u mac \<Rightarrow> u16 \<times> 'u mac" where
  "mac_rand s = (case random_rand (rand_seed s) of (r, seed) \<Rightarrow> (r, s\<lparr>rand_seed := seed\<rparr>))"

definition framer_params :: "'u mac \<Rightarrow> frame802154 \<times> 'u mac" where
  "framer_params s =
     (let s = (if framer_initialized s then s
               else case mac_rand (s\<lparr>framer_initialized := True\<rparr>) of (r, s) \<Rightarrow> s\<lparr>mac_dsn := ucast (r AND 0xff)\<rparr>);
          dest = pb_addr s PACKETBUF_ADDR_RECEIVER;
          (seq, s) = (if pb_attr s PACKETBUF_ATTR_MAC_SEQNO \<noteq> 0
                      then (ucast (pb_attr s PACKETBUF_ATTR_MAC_SEQNO), s)
                      else (mac_dsn s, packetbuf_set_attr PACKETBUF_ATTR_MAC_SEQNO (ucast (mac_dsn s))
                              (s\<lparr>mac_dsn := mac_dsn s + 1\<rparr>)))
      in (\<lparr>f_fcf = \<lparr>frame_type = FRAME802154_DATAFRAME, security_enabled = 0,
             frame_pending = ucast (pb_attr s PACKETBUF_ATTR_PENDING),
             ack_required = (if dest = rimeaddr_null then 0 else ucast (pb_attr s PACKETBUF_ATTR_MAC_ACK)),
             panid_compression = 0,
             dest_addr_mode = (if dest = rimeaddr_null then FRAME802154_SHORTADDRMODE else FRAME802154_LONGADDRMODE),
             frame_version = FRAME802154_IEEE802154_2003, src_addr_mode = FRAME802154_LONGADDRMODE\<rparr>,
           f_seq = seq, f_dest_pid = IEEE802154_PANID,
           f_dest_addr = (if dest = rimeaddr_null then (replicate 8 0)[0 := 0xFF, 1 := 0xFF] else dest),
           f_src_pid = IEEE802154_PANID, f_src_addr = rimeaddr_node_addr s,
           f_payload = packetbuf_dataptr s, f_payload_len = ucast (pb_len s)\<rparr>, s))"

definition framer_create :: "'u mac \<Rightarrow> u8 \<times> 'u mac" where
  "framer_create s =
     (let (p, s) = framer_params s; len = frame802154_hdrlen p in
      case packetbuf_hdralloc len s of
        (True, s) \<Rightarrow> (len, s\<lparr>pb_mem := bset (unat (pb_hdrptr s)) (frame802154_create p len) (pb_mem s)\<rparr>)
      | (False, s) \<Rightarrow> (0, s))"

text \<open>\<open>fr\<close> is the structure on the stack before \<open>frame802154_parse\<close> fills it.\<close>

definition framer_parse :: "frame802154 \<Rightarrow> 'u mac \<Rightarrow> u16 \<times> 'u mac" where
  "framer_parse fr s =
     (let len = pb_len s;
          (c, f) = frame802154_parse (\<lambda>i. pb_mem s (packetbuf_dataptr s + i)) (ucast len) fr;
          n = len - ucast (f_payload_len f)
      in if c = 0 then (0, s)
      else case packetbuf_hdrreduce n s of
          (False, s) \<Rightarrow> (0, s)
        | (True, s) \<Rightarrow>
            if dest_addr_mode (f_fcf f) \<noteq> 0 \<and> f_dest_pid f \<noteq> IEEE802154_PANID \<and> f_dest_pid f \<noteq> FRAME802154_BROADCASTPANDID
            then (0, s)
            else
              (let s = (if dest_addr_mode (f_fcf f) \<noteq> 0 \<and> \<not> is_broadcast_addr (dest_addr_mode (f_fcf f)) (f_dest_addr f)
                        then packetbuf_set_addr PACKETBUF_ADDR_RECEIVER (f_dest_addr f) s else s);
                   s = packetbuf_set_addr PACKETBUF_ADDR_SENDER (f_src_addr f) s;
                   s = packetbuf_set_attr PACKETBUF_ATTR_PENDING (ucast (frame_pending (f_fcf f))) s;
                   s = packetbuf_set_attr PACKETBUF_ATTR_PACKET_ID (ucast (f_seq f)) s
               in (n, s)))"

section \<open>Radio duty cycling\<close>

datatype radio_tx = RADIO_TX_OK | RADIO_TX_ERR | RADIO_TX_COLLISION | RADIO_TX_NOACK

type_synonym 'u radio = "bytes \<Rightarrow> 'u \<Rightarrow> radio_tx \<times> 'u"

text \<open>\<open>nullrdc_send\<close> gives the status; its callers call the function \<open>sent\<close> with it.\<close>

definition nullrdc_send :: "'u radio \<Rightarrow> 'u mac \<Rightarrow> mac_status \<times> 'u mac" where
  "nullrdc_send radio s =
     (let s = packetbuf_set_addr PACKETBUF_ADDR_SENDER (rimeaddr_node_addr s) s;
          (len, s) = framer_create s
      in if len = 0 then (MAC_TX_ERR_FATAL, s)
      else
        (let (r, u) = radio (bget (pb_mem s) (unat (pb_hdrptr s)) (unat (packetbuf_totlen s))) (user s)
         in (case r of RADIO_TX_OK \<Rightarrow> MAC_TX_OK | RADIO_TX_COLLISION \<Rightarrow> MAC_TX_COLLISION
             | RADIO_TX_NOACK \<Rightarrow> MAC_TX_NOACK | _ \<Rightarrow> MAC_TX_ERR,
             s\<lparr>user := u\<rparr>)))"

text \<open>True when the packet goes on to the MAC layer, whose \<open>input\<close> is that of the network layer.\<close>

definition nullrdc_input :: "frame802154 \<Rightarrow> 'u mac \<Rightarrow> bool \<times> 'u mac" where
  "nullrdc_input fr s =
     (let (n, s) = framer_parse fr s in
      (n \<noteq> 0 \<and> (pb_addr s PACKETBUF_ADDR_RECEIVER = rimeaddr_node_addr s
                \<or> pb_addr s PACKETBUF_ADDR_RECEIVER = rimeaddr_null), s))"

text \<open>The process of the radio driver reads a frame into the packet buffer.\<close>

definition radio_receive :: "bytes \<Rightarrow> 'z packetbuf_scheme \<Rightarrow> 'z packetbuf_scheme" where
  "radio_receive bs s = packetbuf_set_datalen (of_nat (length bs)) (packetbuf_write 0 bs (packetbuf_clear s))"

section \<open>Transmission queue\<close>

definition MAX_QUEUED_PACKETS :: nat where "MAX_QUEUED_PACKETS = 6"
definition CSMA_MAX_MAC_TRANSMISSIONS :: u8 where "CSMA_MAX_MAC_TRANSMISSIONS = 3"
definition PACKETBUF_ATTR_PACKET_TYPE_ACK :: u16 where "PACKETBUF_ATTR_PACKET_TYPE_ACK = 1"

type_synonym 'u callback = "nat \<Rightarrow> nat \<Rightarrow> mac_status \<Rightarrow> u16 \<Rightarrow> rimeaddr \<Rightarrow> 'u \<Rightarrow> 'u"

definition mac_call_sent_callback :: "'u callback \<Rightarrow> nat option \<Rightarrow> nat \<Rightarrow> mac_status \<Rightarrow> u16 \<Rightarrow> 'u mac \<Rightarrow> 'u mac" where
  "mac_call_sent_callback call sent ptr status num_tx s =
     (case sent of None \<Rightarrow> s
      | Some f \<Rightarrow> s\<lparr>user := call f ptr status num_tx (pb_addr s PACKETBUF_ADDR_RECEIVER) (user s)\<rparr>)"

text \<open>nullrdc has no channel check interval: \<open>CLOCK_SECOND / NETSTACK_RDC_CHANNEL_CHECK_RATE\<close>.\<close>

definition default_timebase :: u32 where "default_timebase = 128 div 8"

definition upd_packet :: "nat \<Rightarrow> (queued_packet \<Rightarrow> queued_packet) \<Rightarrow> 'u mac \<Rightarrow> 'u mac" where
  "upd_packet q f s = s\<lparr>packets := updf q f (packets s)\<rparr>"

definition start_transmission_timer :: "'u mac \<Rightarrow> 'u mac" where
  "start_transmission_timer s =
     (if queued_packet_list s \<noteq> [] \<and> transmit_timer s = None then s\<lparr>transmit_timer := Some 0\<rparr> else s)"

definition free_queued_packet :: "'u mac \<Rightarrow> 'u mac" where
  "free_queued_packet s =
     (case queued_packet_list s of
        [] \<Rightarrow> s
      | q # _ \<Rightarrow>
          let s = queuebuf_free (qp_buf (packets s ! q)) s;
              s = s\<lparr>queued_packet_list := remove1 q (queued_packet_list s), packet_memb := pool_free (packet_memb s) q\<rparr>
          in if queued_packet_list s \<noteq> [] then s\<lparr>transmit_timer := Some default_timebase\<rparr> else s)"

definition count_status :: "mac_status \<Rightarrow> queued_packet \<Rightarrow> queued_packet" where
  "count_status status q =
     (case status of
        MAC_TX_OK \<Rightarrow> q\<lparr>qp_transmissions := qp_transmissions q + 1\<rparr>
      | MAC_TX_NOACK \<Rightarrow> q\<lparr>qp_transmissions := qp_transmissions q + 1\<rparr>
      | MAC_TX_COLLISION \<Rightarrow> q\<lparr>qp_collisions := qp_collisions q + 1\<rparr>
      | MAC_TX_DEFERRED \<Rightarrow> q\<lparr>qp_deferrals := qp_deferrals q + 1\<rparr>
      | _ \<Rightarrow> q)"

definition backoff_time :: "u8 \<Rightarrow> u16 \<Rightarrow> u32" where
  "backoff_time transmissions r =
     (let n = min 3 (unat transmissions + 1)
      in default_timebase + ucast r mod (of_nat n * default_timebase))"

definition csma_packet_sent :: "'u callback \<Rightarrow> nat \<Rightarrow> mac_status \<Rightarrow> 'u mac \<Rightarrow> 'u mac" where
  "csma_packet_sent call q status s =
     (let s = upd_packet q (count_status status) (s\<lparr>rdc_is_transmitting := False\<rparr>);
          Q = packets s ! q;
          finish = (\<lambda>s. mac_call_sent_callback call (qp_sent Q) (qp_ptr Q) status (ucast (qp_transmissions Q))
                          (free_queued_packet s))
      in if status = MAC_TX_COLLISION \<or> status = MAC_TX_NOACK
         then (case mac_rand s of (r, s) \<Rightarrow>
                 if qp_transmissions Q < qp_max Q
                 then queuebuf_update_attr_from_packetbuf (qp_buf Q)
                        (s\<lparr>transmit_timer := Some (backoff_time (qp_transmissions Q) r)\<rparr>)
                 else finish s)
         else finish s)"

text \<open>The callback timer has expired when its function is called.\<close>

definition transmit_queued_packet :: "'u radio \<Rightarrow> 'u callback \<Rightarrow> 'u mac \<Rightarrow> 'u mac" where
  "transmit_queued_packet radio call s0 =
     (let s = s0\<lparr>transmit_timer := None\<rparr> in
      if rdc_is_transmitting s then s
      else case queued_packet_list s of
          [] \<Rightarrow> s
        | q # _ \<Rightarrow>
            let s = (queuebuf_to_packetbuf (qp_buf (packets s ! q)) s)\<lparr>rdc_is_transmitting := True\<rparr>;
                (status, s) = nullrdc_send radio s
            in csma_packet_sent call q status s)"

text \<open>\<open>list_push\<close> and \<open>list_add\<close> remove the packet from the list first.\<close>

definition enqueue :: "nat \<Rightarrow> qptr \<Rightarrow> nat option \<Rightarrow> nat \<Rightarrow> 'u mac \<Rightarrow> 'u mac" where
  "enqueue q b sent ptr s =
     (let m = pb_attr s PACKETBUF_ATTR_MAX_MAC_TRANSMISSIONS;
          s = upd_packet q (\<lambda>_. \<lparr>qp_buf = b, qp_sent = sent, qp_ptr = ptr, qp_transmissions = 0,
                qp_max = (if m = 0 then CSMA_MAX_MAC_TRANSMISSIONS else ucast m), qp_collisions = 0, qp_deferrals = 0\<rparr>) s;
          l = remove1 q (queued_packet_list s)
      in start_transmission_timer
           (s\<lparr>queued_packet_list :=
               (if pb_attr s PACKETBUF_ATTR_PACKET_TYPE = PACKETBUF_ATTR_PACKET_TYPE_ACK then q # l else l @ [q])\<rparr>))"

definition send_direct :: "'u radio \<Rightarrow> 'u callback \<Rightarrow> nat option \<Rightarrow> nat \<Rightarrow> 'u mac \<Rightarrow> 'u mac" where
  "send_direct radio call sent ptr s =
     (case nullrdc_send radio s of (status, s) \<Rightarrow> mac_call_sent_callback call sent ptr status 1 s)"

definition csma_send :: "'u radio \<Rightarrow> 'u callback \<Rightarrow> nat option \<Rightarrow> nat \<Rightarrow> 'u mac \<Rightarrow> 'u mac" where
  "csma_send radio call sent ptr s0 =
     (let s = (packetbuf_set_attr PACKETBUF_ATTR_MAC_SEQNO (seqno s0) s0)\<lparr>seqno := seqno s0 + 1\<rparr> in
      if pb_addr s PACKETBUF_ADDR_RECEIVER = rimeaddr_null then send_direct radio call sent ptr s
      else case pool_alloc (packet_memb s) of
          (None, c) \<Rightarrow> send_direct radio call sent ptr (s\<lparr>packet_memb := c\<rparr>)
        | (Some q, c) \<Rightarrow>
            (case queuebuf_new_from_packetbuf (s\<lparr>packet_memb := c\<rparr>) of
               (None, s) \<Rightarrow> send_direct radio call sent ptr (s\<lparr>packet_memb := pool_free (packet_memb s) q\<rparr>)
             | (Some b, s) \<Rightarrow> enqueue q b sent ptr s))"

definition csma_init :: "'u mac \<Rightarrow> 'u mac" where
  "csma_init s = s\<lparr>packet_memb := replicate MAX_QUEUED_PACKETS 0, rdc_is_transmitting := False\<rparr>"

text \<open>The link layer after start-up.\<close>

definition mac0 :: "rimeaddr \<Rightarrow> u32 \<Rightarrow> 'u \<Rightarrow> 'u mac" where
  "mac0 a seed u =
     csma_init (queuebuf_init (packetbuf_clear
       \<lparr>pb_len = 0, pb_bufptr = 0, pb_hdrptr = 0, pb_mem = \<lambda>_. 0, pb_ref = None, pb_attr = \<lambda>_. 0,
        pb_addr = \<lambda>_. rimeaddr_null, bufmem = [],
        bufs = replicate QUEUEBUF_NUM \<lparr>qb_len = 0, qb_data = \<lambda>_. 0, qb_attr = \<lambda>_. 0, qb_addr = \<lambda>_. rimeaddr_null\<rparr>,
        refbufmem = [],
        refs = replicate QUEUEBUF_REF_NUM \<lparr>qr_len = 0, qr_ref = \<lambda>_. 0, qr_hdr = \<lambda>_. 0, qr_hdrlen = 0\<rparr>,
        qb_fault = False, rimeaddr_node_addr = a, mac_dsn = 0, framer_initialized = False, rand_seed = seed,
        packet_memb = [],
        packets = replicate MAX_QUEUED_PACKETS
          \<lparr>qp_buf = Buf 0, qp_sent = None, qp_ptr = 0, qp_transmissions = 0, qp_max = 0, qp_collisions = 0, qp_deferrals = 0\<rparr>,
        queued_packet_list = [], transmit_timer = None, rdc_is_transmitting = False, seqno = 0, user = u\<rparr>))"

end
