(* ===== verification/Net_Frame_Laws.thy ===== *)
theory Net_Frame_Laws
  imports Net_Mac
begin

text \<open>
  Frames between two nodes: the header that \<open>frame802154_create\<close> writes is parsed to the same
  fields, and a packet that one node transmits is the packet that the MAC layer of the
  receiver passes on.
\<close>

section \<open>Fields\<close>

lemma u8_masks: "(1 :: u8) = mask 1" "(3 :: u8) = mask 2" "(7 :: u8) = mask 3"
  by (simp_all add: mask_eq_exp_minus_1)

definition masked :: "fcf \<Rightarrow> fcf" where
  "masked f =
     \<lparr>frame_type = frame_type f AND 7, security_enabled = security_enabled f AND 1,
      frame_pending = frame_pending f AND 1, ack_required = ack_required f AND 1,
      panid_compression = panid_compression f AND 1, dest_addr_mode = dest_addr_mode f AND 3,
      frame_version = frame_version f AND 3, src_addr_mode = src_addr_mode f AND 3\<rparr>"

text \<open>Fields that are packed next to each other are unpacked one by one.\<close>

lemma fcf_byte0:
  fixes a b c d e :: u8
  defines "w \<equiv> (a AND mask 3) OR push_bit 3 (b AND mask 1) OR push_bit 4 (c AND mask 1) OR push_bit 5 (d AND mask 1)
                OR push_bit 6 (e AND mask 1)"
  shows "w AND mask 3 = a AND mask 3" "drop_bit 3 w AND mask 1 = b AND mask 1" "drop_bit 4 w AND mask 1 = c AND mask 1"
    "drop_bit 5 w AND mask 1 = d AND mask 1" "drop_bit 6 w AND mask 1 = e AND mask 1"
  unfolding w_def by (rule bit_word_eqI, auto simp: bit_simps)+

lemma fcf_byte1:
  fixes a b c :: u8
  defines "w \<equiv> push_bit 2 (a AND mask 2) OR push_bit 4 (b AND mask 2) OR push_bit 6 (c AND mask 2)"
  shows "drop_bit 2 w AND mask 2 = a AND mask 2" "drop_bit 4 w AND mask 2 = b AND mask 2"
    "drop_bit 6 w AND mask 2 = c AND mask 2"
  unfolding w_def by (rule bit_word_eqI, auto simp: bit_simps)+

lemma parse_fcf_bytes:
  "parse_fcf
     ((frame_type f AND 7) OR push_bit 3 (security_enabled f AND 1) OR push_bit 4 (frame_pending f AND 1)
        OR push_bit 5 (ack_required f AND 1) OR push_bit 6 (panid_compression f AND 1))
     (push_bit 2 (dest_addr_mode f AND 3) OR push_bit 4 (frame_version f AND 3) OR push_bit 6 (src_addr_mode f AND 3))
   = masked f"
  unfolding parse_fcf_def masked_def u8_masks fcf_byte0 fcf_byte1 ..

lemma le16_word: "ucast (ucast (v AND 0xff) :: u8) + push_bit 8 (ucast (ucast (drop_bit 8 v AND 0xff) :: u8)) = (v :: u16)"
proof (subst disjunctive_add)
  have e: "(0xff :: u16) = mask 8" by (simp add: mask_eq_exp_minus_1)
  show "ucast (ucast (v AND 0xff) :: u8) OR push_bit 8 (ucast (ucast (drop_bit 8 v AND 0xff) :: u8)) = v"
    unfolding e by (rule bit_word_eqI) (auto simp: bit_simps)
qed (auto simp: bit_simps)

lemma parse_pid_le16: "bytes_at m i (le16 v) \<Longrightarrow> parse_pid m i = v"
  using le16_word [of v] by (simp add: parse_pid_def le16_def)

definition addr_view :: "u8 \<Rightarrow> rimeaddr \<Rightarrow> rimeaddr" where
  "addr_view mode a =
     (if mode = FRAME802154_SHORTADDRMODE then take 2 a @ replicate 6 0
      else if mode = FRAME802154_LONGADDRMODE then a else rimeaddr_null)"

lemma parse_addr_rev:
  assumes "bytes_at m i (List.rev (take (addr_len mode) a))" "length a = 8" "mode = 2 \<or> mode = 3"
  shows "parse_addr m i mode old = (addr_view mode a, i + addr_len mode)"
proof (cases "mode = 2")
  case True
  obtain x y zs where a: "a = x # y # zs" using assms(2) by (cases a; cases "tl a") auto
  show ?thesis using assms(1) True
    by (simp add: parse_addr_def addr_view_def addr_len_def frame_consts a rimeaddr_null_def numeral_eq_Suc)
next
  case False
  then have m: "mode = 3" using assms(3) by simp
  have "bget m i 8 = List.rev a" using bytes_at_bget [OF assms(1)] assms(2) m by (simp add: addr_len_def frame_consts)
  then show ?thesis using m by (simp add: parse_addr_def addr_view_def addr_len_def frame_consts)
qed

section \<open>Headers\<close>

definition dest_mode :: "frame802154 \<Rightarrow> u8" where "dest_mode p = dest_addr_mode (f_fcf p) AND 3"
definition src_mode :: "frame802154 \<Rightarrow> u8" where "src_mode p = src_addr_mode (f_fcf p) AND 3"

lemma mode_cases: "(w :: u8) AND 3 \<noteq> 1 \<Longrightarrow> w AND 3 \<noteq> 0 \<Longrightarrow> w AND 3 = 2 \<or> w AND 3 = 3"
proof -
  assume a: "w AND 3 \<noteq> 1" "w AND 3 \<noteq> 0"
  have "unat (w AND 3) < 4" by (simp add: u8_masks unat_and_mask)
  then have "unat (w AND 3) = 0 \<or> unat (w AND 3) = 1 \<or> unat (w AND 3) = 2 \<or> unat (w AND 3) = 3" by linarith
  then show ?thesis using a by (auto simp: unsigned_eq_0_iff simp flip: word_unat_eq_iff dest!: arg_cong [where f = "of_nat :: nat \<Rightarrow> u8"])
qed

lemma addr_len_values: "addr_len 0 = 0" "addr_len 2 = 2" "addr_len 3 = 8"
  by (simp_all add: addr_len_def frame_consts)

text \<open>The header as the receiver reads it: the fields at their width, no PAN and the null address
  where there is no address, and the short addresses padded with zeroes.\<close>

definition received :: "u8 \<Rightarrow> frame802154 \<Rightarrow> frame802154" where
  "received len p =
     \<lparr>f_fcf = masked (f_fcf (snd (field_len p))), f_seq = f_seq p,
      f_dest_pid = (if dest_mode p \<noteq> 0 then f_dest_pid p else 0), f_dest_addr = addr_view (dest_mode p) (f_dest_addr p),
      f_src_pid = (if src_mode p \<noteq> 0 then f_src_pid p else 0), f_src_addr = addr_view (src_mode p) (f_src_addr p),
      f_payload = unat (frame802154_hdrlen p), f_payload_len = len - frame802154_hdrlen p\<rparr>"

lemma frame_round_trip_bytes:
  assumes m: "bytes_at m 0 (frame802154_create p n)"
    and fits: "header_len (fst (field_len p)) \<le> unat n" "header_len (fst (field_len p)) \<le> unat len"
    and modes: "dest_mode p \<noteq> 1" "src_mode p \<noteq> 1"
    and addrs: "length (f_dest_addr p) = 8" "length (f_src_addr p) = 8"
  shows "frame802154_parse m len pf = (frame802154_hdrlen p, received len p)"
proof -
  let ?l = "fst (field_len p)" and ?f = "f_fcf (snd (field_len p))"
  have l: "dest_addr_len ?l = addr_len (dest_mode p)" "src_addr_len ?l = addr_len (src_mode p)"
    "dest_pid_len ?l = (if dest_mode p \<noteq> 0 then 2 else 0)"
    "src_pid_len ?l = (if src_mode p \<noteq> 0 \<and> panid_compression ?f = 0 then 2 else 0)"
    by (auto simp: field_len_def Let_def dest_mode_def src_mode_def)
  have f: "frame_type ?f = frame_type (f_fcf p)" "dest_addr_mode ?f AND 3 = dest_mode p" "src_addr_mode ?f AND 3 = src_mode p"
    "panid_compression ?f AND 1 = panid_compression ?f"
    "panid_compression ?f \<noteq> 0 \<longleftrightarrow> dest_mode p \<noteq> 0 \<and> src_mode p \<noteq> 0 \<and> f_src_pid p = f_dest_pid p"
    by (auto simp: field_len_def Let_def dest_mode_def src_mode_def)
  have rest: "f_seq (snd (field_len p)) = f_seq p" "f_dest_pid (snd (field_len p)) = f_dest_pid p"
    "f_src_pid (snd (field_len p)) = f_src_pid p" "f_dest_addr (snd (field_len p)) = f_dest_addr p"
    "f_src_addr (snd (field_len p)) = f_src_addr p"
    by (simp_all add: field_len_def Let_def)
  define i1 where "i1 = (3 :: nat) + dest_pid_len ?l"
  define i2 where "i2 = i1 + dest_addr_len ?l"
  define i3 where "i3 = i2 + src_pid_len ?l"
  have c: "frame802154_create p n =
      [(frame_type ?f AND 7) OR push_bit 3 (security_enabled ?f AND 1) OR push_bit 4 (frame_pending ?f AND 1)
         OR push_bit 5 (ack_required ?f AND 1) OR push_bit 6 (panid_compression ?f AND 1),
       push_bit 2 (dest_addr_mode ?f AND 3) OR push_bit 4 (frame_version ?f AND 3) OR push_bit 6 (src_addr_mode ?f AND 3),
       f_seq p]
      @ (if dest_pid_len ?l = 2 then le16 (f_dest_pid p) else [])
      @ List.rev (take (dest_addr_len ?l) (f_dest_addr p))
      @ (if src_pid_len ?l = 2 then le16 (f_src_pid p) else [])
      @ List.rev (take (src_addr_len ?l) (f_src_addr p))"
    using fits(1) by (simp add: frame802154_create_def split_def not_less rest Let_def)
  have lens: "length (if dest_pid_len ?l = 2 then le16 (f_dest_pid p) else []) = dest_pid_len ?l"
    "length (if src_pid_len ?l = 2 then le16 (f_src_pid p) else []) = src_pid_len ?l"
    "length (take (dest_addr_len ?l) (f_dest_addr p)) = dest_addr_len ?l"
    using l addrs by (auto simp: le16_def addr_len_def)
  have "parse_fcf (m 0) (m 1) = masked ?f" "m 2 = f_seq p"
    using m unfolding c by (simp_all add: parse_fcf_bytes [symmetric] numeral_2_eq_2)
  moreover have "bytes_at m 3 (if dest_pid_len ?l = 2 then le16 (f_dest_pid p) else [])"
    "bytes_at m i1 (List.rev (take (dest_addr_len ?l) (f_dest_addr p)))"
    "bytes_at m i2 (if src_pid_len ?l = 2 then le16 (f_src_pid p) else [])"
    "bytes_at m i3 (List.rev (take (src_addr_len ?l) (f_src_addr p)))"
    using m unfolding c bytes_at_append length_rev lens i1_def i2_def i3_def by (simp_all add: numeral_3_eq_3 add.assoc)
  ultimately have b: "parse_fcf (m 0) (m 1) = masked ?f" "m 2 = f_seq p"
    "dest_pid_len ?l = 2 \<Longrightarrow> bytes_at m 3 (le16 (f_dest_pid p))"
    "bytes_at m i1 (List.rev (take (dest_addr_len ?l) (f_dest_addr p)))"
    "src_pid_len ?l = 2 \<Longrightarrow> bytes_at m i2 (le16 (f_src_pid p))"
    "bytes_at m i3 (List.rev (take (src_addr_len ?l) (f_src_addr p)))"
    by (simp_all split: if_splits)
  have dm: "dest_mode p \<noteq> 0 \<Longrightarrow> dest_mode p = 2 \<or> dest_mode p = 3" using modes mode_cases by (simp add: dest_mode_def)
  have sm: "src_mode p \<noteq> 0 \<Longrightarrow> src_mode p = 2 \<or> src_mode p = 3" using modes mode_cases by (simp add: src_mode_def)
  have D: "dest_mode p \<noteq> 0 \<Longrightarrow> parse_pid m 3 = f_dest_pid p"
    "dest_mode p \<noteq> 0 \<Longrightarrow> parse_addr m i1 (dest_mode p) old = (addr_view (dest_mode p) (f_dest_addr p), i2)" for old
    using b(3) b(4) l parse_pid_le16 parse_addr_rev [of m i1 "dest_mode p"] addrs dm by (simp_all add: i2_def)
  have S: "src_mode p \<noteq> 0 \<Longrightarrow> panid_compression ?f = 0 \<Longrightarrow> parse_pid m i2 = f_src_pid p"
    "src_mode p \<noteq> 0 \<Longrightarrow> parse_addr m i3 (src_mode p) old = (addr_view (src_mode p) (f_src_addr p), i3 + src_addr_len ?l)" for old
    using b(5) b(6) l parse_pid_le16 parse_addr_rev [of m i3 "src_mode p"] addrs sm by simp_all
  have h: "header_len ?l = i3 + src_addr_len ?l" by (simp add: header_len_def i1_def i2_def i3_def)
  have small: "header_len ?l < 256" using fits(1) u8_less_256 [of n] by linarith
  have hl: "frame802154_hdrlen p = of_nat (i3 + src_addr_len ?l)" "unat (frame802154_hdrlen p) = i3 + src_addr_len ?l"
    using h small by (simp_all add: frame802154_hdrlen_def u8_of_nat del: of_nat_add)
  have len: "\<not> len < frame802154_hdrlen p" "\<not> len < 3"
    using fits(2) h hl(2) by (simp_all add: word_less_nat_alt header_len_def)
  have M: "dest_addr_mode (masked ?f) = dest_mode p" "src_addr_mode (masked ?f) = src_mode p"
    "panid_compression (masked ?f) = panid_compression ?f"
    using f by (simp_all add: masked_def)
  have null: "addr_view 0 a = rimeaddr_null" for a by (simp add: addr_view_def frame_consts)
  have i: "dest_mode p \<noteq> 0 \<Longrightarrow> i1 = 5" "dest_mode p = 0 \<Longrightarrow> i2 = 3"
    "src_mode p \<noteq> 0 \<Longrightarrow> panid_compression ?f = 0 \<Longrightarrow> i3 = i2 + 2" "src_mode p = 0 \<Longrightarrow> i3 + src_addr_len ?l = i2"
    "panid_compression ?f \<noteq> 0 \<Longrightarrow> i3 = i2"
    using l by (simp_all add: i1_def i2_def i3_def addr_len_values)
  consider "dest_mode p = 0" "src_mode p = 0" | "dest_mode p = 0" "src_mode p \<noteq> 0" "panid_compression ?f = 0"
    | "dest_mode p \<noteq> 0" "src_mode p = 0" | "dest_mode p \<noteq> 0" "src_mode p \<noteq> 0" "panid_compression ?f = 0"
    | "dest_mode p \<noteq> 0" "src_mode p \<noteq> 0" "panid_compression ?f \<noteq> 0" "f_src_pid p = f_dest_pid p"
    using f(5) by blast
  then show ?thesis
  proof cases
    case 1
    then show ?thesis using len b(1,2) M hl i null
      by (simp add: frame802154_parse_def received_def Let_def)
  next
    case 2
    then show ?thesis using len b(1,2) M hl i null S
      by (simp add: frame802154_parse_def received_def Let_def)
  next
    case 3
    then show ?thesis using len b(1,2) M hl i null D
      by (simp add: frame802154_parse_def received_def Let_def)
  next
    case 4
    then show ?thesis using len b(1,2) M hl i null D S
      by (simp add: frame802154_parse_def received_def Let_def)
  next
    case 5
    then show ?thesis using len b(1,2) M hl i null D S
      by (simp add: frame802154_parse_def received_def Let_def)
  qed
qed

section \<open>Packets\<close>

definition packet_data :: "'z packetbuf_scheme \<Rightarrow> bytes" where
  "packet_data s = bget (pb_mem s) (packetbuf_dataptr s) (unat (pb_len s))"

text \<open>A packet without header that leaves room for one, between addresses of eight bytes.\<close>

definition packet_ready :: "'u mac \<Rightarrow> bool" where
  "packet_ready s \<longleftrightarrow>
     pb_bufptr s = 0 \<and> pb_hdrptr s = 48 \<and> pb_len s \<le> 107 \<and> length (rimeaddr_node_addr s) = 8
     \<and> length (pb_addr s PACKETBUF_ADDR_RECEIVER) = 8"

text \<open>The packet with the address of the sender, and the frame that it becomes.\<close>

definition addressed :: "'u mac \<Rightarrow> 'u mac" where
  "addressed s = packetbuf_set_addr PACKETBUF_ADDR_SENDER (rimeaddr_node_addr s) s"

definition header_of :: "'u mac \<Rightarrow> frame802154" where
  "header_of s = fst (framer_params (addressed s))"

definition air :: "'u mac \<Rightarrow> bytes" where
  "air s = frame802154_create (header_of s) (frame802154_hdrlen (header_of s)) @ packet_data s"

lemma set_addr_simps [simp]:
  "pb_addr (packetbuf_set_addr a v s) = (pb_addr s)(a := v)" "pb_len (packetbuf_set_addr a v s) = pb_len s"
  "pb_bufptr (packetbuf_set_addr a v s) = pb_bufptr s" "pb_hdrptr (packetbuf_set_addr a v s) = pb_hdrptr s"
  "pb_mem (packetbuf_set_addr a v s) = pb_mem s" "pb_attr (packetbuf_set_addr a v s) = pb_attr s"
  "pb_ref (packetbuf_set_addr a v s) = pb_ref s"
  by (simp_all add: packetbuf_set_addr_def)

lemma set_attr_simps' [simp]:
  "pb_attr (packetbuf_set_attr a v s) = (pb_attr s)(a := v)" "pb_len (packetbuf_set_attr a v s) = pb_len s"
  "pb_bufptr (packetbuf_set_attr a v s) = pb_bufptr s" "pb_hdrptr (packetbuf_set_attr a v s) = pb_hdrptr s"
  "pb_mem (packetbuf_set_attr a v s) = pb_mem s" "pb_addr (packetbuf_set_attr a v s) = pb_addr s"
  "pb_ref (packetbuf_set_attr a v s) = pb_ref s"
  by (simp_all add: packetbuf_set_attr_def)

text \<open>The fields of the link layer that the framer and the radio leave alone.\<close>

definition mac_same :: "'u mac \<Rightarrow> 'u mac \<Rightarrow> bool" where
  "mac_same s s' \<longleftrightarrow>
     bufmem s' = bufmem s \<and> bufs s' = bufs s \<and> refbufmem s' = refbufmem s \<and> refs s' = refs s
     \<and> qb_fault s' = qb_fault s \<and> rimeaddr_node_addr s' = rimeaddr_node_addr s \<and> packet_memb s' = packet_memb s
     \<and> packets s' = packets s \<and> queued_packet_list s' = queued_packet_list s \<and> transmit_timer s' = transmit_timer s
     \<and> rdc_is_transmitting s' = rdc_is_transmitting s \<and> seqno s' = seqno s"

lemma mac_same_refl: "mac_same s s"
  by (simp add: mac_same_def)

lemma mac_same_trans: "mac_same s s' \<Longrightarrow> mac_same s' s'' \<Longrightarrow> mac_same s s''"
  by (simp add: mac_same_def)

lemma mac_same_addr: "mac_same s (packetbuf_set_addr a v s)"
  and mac_same_attr: "mac_same s (packetbuf_set_attr b w s)"
  and mac_same_rand: "mac_same s (snd (mac_rand s))"
  by (simp_all add: mac_same_def packetbuf_set_addr_def packetbuf_set_attr_def mac_rand_def split_def)

lemma framer_params_result:
  assumes "framer_params s = (p, s')"
  shows "mac_same s s'" "user s' = user s" "pb_len s' = pb_len s" "pb_bufptr s' = pb_bufptr s" "pb_hdrptr s' = pb_hdrptr s"
    "pb_mem s' = pb_mem s" "pb_addr s' = pb_addr s" "pb_ref s' = pb_ref s"
    "dest_addr_mode (f_fcf p) = (if pb_addr s PACKETBUF_ADDR_RECEIVER = rimeaddr_null then 2 else 3)"
    "src_addr_mode (f_fcf p) = 3" "f_dest_pid p = 0xABCD" "f_src_pid p = 0xABCD" "f_src_addr p = rimeaddr_node_addr s"
    "f_dest_addr p = (if pb_addr s PACKETBUF_ADDR_RECEIVER = rimeaddr_null then (replicate 8 0)[0 := 0xFF, 1 := 0xFF]
       else pb_addr s PACKETBUF_ADDR_RECEIVER)"
  using assms
  by (auto simp: framer_params_def mac_rand_def mac_same_def packetbuf_set_attr_def split_def Let_def frame_consts
      split: if_splits)

lemma header_facts:
  assumes "packet_ready s"
  shows "dest_mode (header_of s) = (if pb_addr s PACKETBUF_ADDR_RECEIVER = rimeaddr_null then 2 else 3)"
    "src_mode (header_of s) = 3" "f_src_addr (header_of s) = rimeaddr_node_addr s"
    "header_len (fst (field_len (header_of s))) = (if pb_addr s PACKETBUF_ADDR_RECEIVER = rimeaddr_null then 15 else 21)"
    "frame802154_hdrlen (header_of s) = (if pb_addr s PACKETBUF_ADDR_RECEIVER = rimeaddr_null then 15 else 21)"
    "length (f_dest_addr (header_of s)) = 8" "length (f_src_addr (header_of s)) = 8" "f_dest_pid (header_of s) = 0xABCD"
    "length (frame802154_create (header_of s) (frame802154_hdrlen (header_of s))) = unat (frame802154_hdrlen (header_of s))"
    "f_dest_addr (header_of s) = (if pb_addr s PACKETBUF_ADDR_RECEIVER = rimeaddr_null then [0xFF, 0xFF, 0, 0, 0, 0, 0, 0]
       else pb_addr s PACKETBUF_ADDR_RECEIVER)"
proof -
  obtain p s' where p: "framer_params (addressed s) = (p, s')" by fastforce
  note r = framer_params_result [OF p]
  have h: "header_of s = p" by (simp add: header_of_def p)
  have a: "rimeaddr_node_addr (addressed s) = rimeaddr_node_addr s"
    "pb_addr (addressed s) PACKETBUF_ADDR_RECEIVER = pb_addr s PACKETBUF_ADDR_RECEIVER"
    by (simp_all add: addressed_def packetbuf_set_addr_def)
  show f: "dest_mode (header_of s) = (if pb_addr s PACKETBUF_ADDR_RECEIVER = rimeaddr_null then 2 else 3)"
    "src_mode (header_of s) = 3" "f_src_addr (header_of s) = rimeaddr_node_addr s"
    "length (f_dest_addr (header_of s)) = 8" "length (f_src_addr (header_of s)) = 8" "f_dest_pid (header_of s) = 0xABCD"
    "f_dest_addr (header_of s) = (if pb_addr s PACKETBUF_ADDR_RECEIVER = rimeaddr_null then [0xFF, 0xFF, 0, 0, 0, 0, 0, 0]
       else pb_addr s PACKETBUF_ADDR_RECEIVER)"
    using r a assms by (simp_all add: h dest_mode_def src_mode_def packet_ready_def numeral_eq_Suc)
  have l: "fst (field_len p) = \<lparr>dest_pid_len = 2, dest_addr_len = (if pb_addr s PACKETBUF_ADDR_RECEIVER = rimeaddr_null then 2 else 8),
      src_pid_len = 0, src_addr_len = 8\<rparr>"
    using f r(11,12) by (simp add: field_len_def Let_def h dest_mode_def src_mode_def addr_len_values)
  show hl: "header_len (fst (field_len (header_of s))) = (if pb_addr s PACKETBUF_ADDR_RECEIVER = rimeaddr_null then 15 else 21)"
    by (simp add: h l header_len_def)
  show hd: "frame802154_hdrlen (header_of s) = (if pb_addr s PACKETBUF_ADDR_RECEIVER = rimeaddr_null then 15 else 21)"
    using hl by (simp add: frame802154_hdrlen_def)
  have q: "f_dest_addr (snd (field_len p)) = f_dest_addr p" "f_src_addr (snd (field_len p)) = f_src_addr p"
    by (simp_all add: field_len_def Let_def)
  show "length (frame802154_create (header_of s) (frame802154_hdrlen (header_of s))) = unat (frame802154_hdrlen (header_of s))"
    using hl f(4,5) hd by (simp add: frame802154_create_def split_def Let_def h l q le16_def)
qed

lemma le_107: "(n :: u16) \<le> 107 \<Longrightarrow> unat n \<le> 107"
  by (simp add: word_le_nat_alt)

lemma nullrdc_send_air:
  assumes ready: "packet_ready s"
  shows "fst (nullrdc_send radio s) =
      (case fst (radio (air s) (user s)) of RADIO_TX_OK \<Rightarrow> MAC_TX_OK | RADIO_TX_COLLISION \<Rightarrow> MAC_TX_COLLISION
       | RADIO_TX_NOACK \<Rightarrow> MAC_TX_NOACK | _ \<Rightarrow> MAC_TX_ERR)" (is ?status)
    and "user (snd (nullrdc_send radio s)) = snd (radio (air s) (user s))" (is ?user)
    and "mac_same s (snd (nullrdc_send radio s))" (is ?same)
    and "pb_addr (snd (nullrdc_send radio s)) PACKETBUF_ADDR_RECEIVER = pb_addr s PACKETBUF_ADDR_RECEIVER" (is ?addr)
proof -
  obtain p s' where p: "framer_params (addressed s) = (p, s')" by fastforce
  note r = framer_params_result [OF p]
  have h: "header_of s = p" by (simp add: header_of_def p)
  define n where "n = frame802154_hdrlen p"
  have n: "n = 15 \<or> n = 21" "0 < n" "n \<noteq> 0" using header_facts(5) [OF ready] by (auto simp: n_def h)
  have s': "pb_hdrptr s' = 48" "pb_len s' = pb_len s" "pb_mem s' = pb_mem s" "user s' = user s" "mac_same s s'"
    "pb_addr s' PACKETBUF_ADDR_RECEIVER = pb_addr s PACKETBUF_ADDR_RECEIVER" "pb_len s \<le> 107" "pb_bufptr s = 0"
    using r ready mac_same_trans [OF mac_same_addr r(1) [unfolded addressed_def]]
    by (simp_all add: addressed_def packet_ready_def packetbuf_set_addr_def)
  have small: "unat (pb_len s) \<le> 107" using le_107 s'(7) by blast
  have tot: "packetbuf_totlen s' + ucast n \<le> PACKETBUF_SIZE" "n \<le> pb_hdrptr s'"
    using n(1) small s' by (auto simp: packetbuf_totlen_def packetbuf_hdrlen_def packetbuf_consts word_le_nat_alt unat_word_ariths)
  define hdr where "hdr = frame802154_create p n"
  have lh: "length hdr = unat n" using header_facts(9) [OF ready] by (simp add: hdr_def h n_def)
  have c: "framer_create (addressed s) =
      (n, s'\<lparr>pb_hdrptr := 48 - n, pb_mem := bset (unat (48 - n)) hdr (pb_mem s)\<rparr>)"
    using tot s' by (simp add: framer_create_def p Let_def packetbuf_hdralloc_def n_def [symmetric] hdr_def)
  define s2 where "s2 = s'\<lparr>pb_hdrptr := 48 - n, pb_mem := bset (unat (48 - n)) hdr (pb_mem s)\<rparr>"
  have t2: "unat (packetbuf_totlen s2) = unat n + unat (pb_len s)" "unat (48 - n) + unat n = 48"
    using n(1) small s' by (auto simp: s2_def packetbuf_totlen_def packetbuf_hdrlen_def packetbuf_consts unat_word_ariths)
  have "bget (pb_mem s2) (unat (48 - n)) (unat n) = hdr" by (simp add: s2_def bget_bset_same lh)
  moreover have "bget (pb_mem s2) 48 (unat (pb_len s)) = packet_data s"
    using t2(2) lh s'(8) by (simp add: s2_def bget_bset_other packet_data_def packetbuf_dataptr_def packetbuf_consts)
  ultimately have frm: "bget (pb_mem s2) (unat (pb_hdrptr s2)) (unat (packetbuf_totlen s2)) = air s"
    using t2 by (simp add: bget_split air_def h n_def [symmetric] hdr_def [symmetric] s2_def)
  have u: "user s2 = user s" "mac_same s s2" "pb_addr s2 PACKETBUF_ADDR_RECEIVER = pb_addr s PACKETBUF_ADDR_RECEIVER"
    using s' by (simp_all add: s2_def mac_same_def)
  have "nullrdc_send radio s = (case radio (air s) (user s) of (r, u) \<Rightarrow>
      (case r of RADIO_TX_OK \<Rightarrow> MAC_TX_OK | RADIO_TX_COLLISION \<Rightarrow> MAC_TX_COLLISION
             | RADIO_TX_NOACK \<Rightarrow> MAC_TX_NOACK | _ \<Rightarrow> MAC_TX_ERR, s2\<lparr>user := u\<rparr>))"
    using c n(3) frm u(1) by (simp add: nullrdc_send_def addressed_def [symmetric] s2_def [symmetric] Let_def split_def)
  then show ?status ?user ?same ?addr using u(2,3) by (simp_all add: split_def mac_same_def)
qed

lemma radio_receive_simps:
  "pb_len (radio_receive bs t) = of_nat (length bs)" "pb_bufptr (radio_receive bs t) = 0"
  "pb_mem (radio_receive bs t) = bset 48 bs (pb_mem t)" "pb_addr (radio_receive bs t) = (\<lambda>_. rimeaddr_null)"
  "rimeaddr_node_addr (radio_receive bs t) = rimeaddr_node_addr t"
  by (simp_all add: radio_receive_def packetbuf_set_datalen_def packetbuf_write_def packetbuf_clear_def
      packetbuf_attr_clear_def packetbuf_dataptr_def packetbuf_consts)

lemma length_air:
  assumes "packet_ready s"
  shows "length (air s) = unat (frame802154_hdrlen (header_of s)) + unat (pb_len s)" "length (air s) \<le> 128"
proof -
  have "unat (pb_len s) \<le> 107" using assms le_107 by (simp add: packet_ready_def)
  then show "length (air s) = unat (frame802154_hdrlen (header_of s)) + unat (pb_len s)" "length (air s) \<le> 128"
    using header_facts(5,9) [OF assms] by (simp_all add: air_def packet_data_def split: if_splits)
qed

lemma not_broadcast:
  "length a = 8 \<Longrightarrow> a \<noteq> replicate 8 0xff \<Longrightarrow> \<not> is_broadcast_addr 3 a"
  by (simp add: is_broadcast_addr_def frame_consts)

lemma framer_parse_air:
  assumes ready: "packet_ready s" and rcv: "pb_addr s PACKETBUF_ADDR_RECEIVER \<noteq> replicate 8 0xff"
  defines "n \<equiv> frame802154_hdrlen (header_of s)"
  shows "\<exists>t'. framer_parse fr (radio_receive (air s) t) = (ucast n, t') \<and> n \<noteq> 0
    \<and> pb_mem t' = bset 48 (air s) (pb_mem t) \<and> pb_bufptr t' = ucast n \<and> pb_len t' = pb_len s
    \<and> pb_addr t' PACKETBUF_ADDR_SENDER = rimeaddr_node_addr s
    \<and> pb_addr t' PACKETBUF_ADDR_RECEIVER = pb_addr s PACKETBUF_ADDR_RECEIVER
    \<and> rimeaddr_node_addr t' = rimeaddr_node_addr t"
proof -
  let ?r = "radio_receive (air s) t" and ?p = "header_of s"
  note h = header_facts [OF ready] and L = length_air [OF ready]
  define len where "len = (of_nat (length (air s)) :: u8)"
  have n: "n = 15 \<or> n = 21" using h(5) by (auto simp: n_def)
  have len: "unat len = length (air s)" "ucast (of_nat (length (air s)) :: u16) = len" "n \<le> len"
  proof -
    show l: "unat len = length (air s)" using L(2) by (simp add: len_def u8_of_nat)
    show "ucast (of_nat (length (air s)) :: u16) = len"
      by (rule word_unat_eq_iff [THEN iffD2]) (use L(2) l in \<open>simp add: unsigned_ucast_eq u16_of_nat take_bit_eq_mod\<close>)
    show "n \<le> len" using L(1) l by (simp add: word_le_nat_alt n_def)
  qed
  have "bytes_at (\<lambda>i. pb_mem ?r (packetbuf_dataptr ?r + i)) 0 (air s)"
    by (simp add: bytes_at_nth radio_receive_simps packetbuf_dataptr_def packetbuf_consts bset_nth)
  then have b: "bytes_at (\<lambda>i. pb_mem ?r (packetbuf_dataptr ?r + i)) 0 (frame802154_create ?p n)"
    by (simp add: air_def bytes_at_append n_def)
  have P: "frame802154_parse (\<lambda>i. pb_mem ?r (packetbuf_dataptr ?r + i)) len fr = (n, received len ?p)"
    unfolding n_def by (rule frame_round_trip_bytes [OF b]) (use h L len n in \<open>auto simp: n_def\<close>)
  have pay: "(of_nat (length (air s)) :: u16) - ucast (len - n) = ucast n"
  proof (rule word_unat_eq_iff [THEN iffD2])
    have "unat (len - n) = length (air s) - unat n" using len by (simp add: unat_sub)
    moreover have "unat n \<le> length (air s)" using L(1) by (simp add: n_def)
    ultimately show "unat ((of_nat (length (air s)) :: u16) - ucast (len - n)) = unat (ucast n :: u16)"
      using L(2) n by (auto simp: unat_minus_word u16_of_nat unat_ucast_u8)
  qed
  have u: "unat (of_nat (length (air s)) :: u16) = length (air s)" "unat (ucast n :: u16) = unat n" "unat n \<le> length (air s)"
  proof -
    show "unat (of_nat (length (air s)) :: u16) = length (air s)" by (rule u16_of_nat) (use L(2) in linarith)
    show "unat n \<le> length (air s)" using L(1) by (simp add: n_def)
  qed (rule unat_ucast_u8)
  have red: "\<not> (of_nat (length (air s)) :: u16) < ucast n" using u by (simp add: word_less_nat_alt)
  have left: "of_nat (length (air s)) - ucast n = pb_len s"
  proof (rule word_unat_eq_iff [THEN iffD2])
    have "unat ((of_nat (length (air s)) :: u16) - ucast n) = (length (air s) + 65536 - unat n) mod 65536"
      by (simp only: unat_minus_word u len_num1) simp
    also have "\<dots> = unat (pb_len s)" using L by (simp add: n_def)
    finally show "unat ((of_nat (length (air s)) :: u16) - ucast n) = unat (pb_len s)" .
  qed
  let ?f = "received len ?p"
  have f: "dest_addr_mode (f_fcf ?f) = dest_mode ?p" "f_dest_pid ?f = 0xABCD" "f_src_addr ?f = rimeaddr_node_addr s"
    "f_dest_addr ?f = addr_view (dest_mode ?p) (f_dest_addr ?p)" "f_payload_len ?f = len - n"
    using h by (simp_all add: received_def masked_def field_len_def Let_def dest_mode_def addr_view_def frame_consts n_def)
  define r1 where "r1 = ?r\<lparr>pb_bufptr := ucast n, pb_len := pb_len s\<rparr>"
  have alloc: "packetbuf_hdrreduce (ucast n) ?r = (True, r1)"
    using red left by (simp add: packetbuf_hdrreduce_def radio_receive_simps r1_def)
  have E: "framer_parse fr ?r =
      (ucast n,
       let s = (if \<not> is_broadcast_addr (dest_mode ?p) (f_dest_addr ?f) then packetbuf_set_addr PACKETBUF_ADDR_RECEIVER (f_dest_addr ?f) r1 else r1);
           s = packetbuf_set_addr PACKETBUF_ADDR_SENDER (f_src_addr ?f) s;
           s = packetbuf_set_attr PACKETBUF_ATTR_PENDING (ucast (frame_pending (f_fcf ?f))) s
       in packetbuf_set_attr PACKETBUF_ATTR_PACKET_ID (ucast (f_seq ?f)) s)"
    using P f h(1) alloc pay len(2) n unfolding framer_parse_def Let_def
    by (auto simp: radio_receive_simps frame_consts)
  have bc: "is_broadcast_addr (dest_mode ?p) (f_dest_addr ?f) \<longleftrightarrow> pb_addr s PACKETBUF_ADDR_RECEIVER = rimeaddr_null"
    "pb_addr s PACKETBUF_ADDR_RECEIVER \<noteq> rimeaddr_null \<Longrightarrow> f_dest_addr ?f = pb_addr s PACKETBUF_ADDR_RECEIVER"
    using h(1,10) rcv ready not_broadcast f(4)
    by (auto simp: addr_view_def frame_consts is_broadcast_addr_def packet_ready_def numeral_eq_Suc)
  have node: "rimeaddr_node_addr r1 = rimeaddr_node_addr t" "pb_mem r1 = bset 48 (air s) (pb_mem t)"
    "pb_addr r1 = (\<lambda>_. rimeaddr_null)" "pb_bufptr r1 = ucast n" "pb_len r1 = pb_len s"
    by (simp_all add: r1_def radio_receive_simps)
  show ?thesis using n node bc f(3)
    by (auto simp: E Let_def packetbuf_set_addr_def packetbuf_set_attr_def)
qed

text \<open>C29: A packet without link-layer header is transmitted as one frame. Every node in range
  that receives the frame passes it on if it was broadcast or addressed to the node, and then
  its packet buffer has the data of the packet, the address of the sender, and as receiver the
  null address or its own; other nodes drop it. The address of eight bytes 0xFF is excepted:
  the parser takes it for a broadcast.\<close>

theorem frame_delivered:
  assumes "packet_ready s" "pb_addr s PACKETBUF_ADDR_RECEIVER \<noteq> replicate 8 0xff"
  shows "user (snd (nullrdc_send radio s)) = snd (radio (air s) (user s)) \<and>
    (let (accepted, t') = nullrdc_input fr (radio_receive (air s) t) in
      (accepted \<longleftrightarrow> pb_addr s PACKETBUF_ADDR_RECEIVER = rimeaddr_null \<or> pb_addr s PACKETBUF_ADDR_RECEIVER = rimeaddr_node_addr t)
      \<and> packet_data t' = packet_data s \<and> pb_addr t' PACKETBUF_ADDR_SENDER = rimeaddr_node_addr s
      \<and> pb_addr t' PACKETBUF_ADDR_RECEIVER = pb_addr s PACKETBUF_ADDR_RECEIVER)"
proof -
  define n where "n = frame802154_hdrlen (header_of s)"
  obtain t' where t': "framer_parse fr (radio_receive (air s) t) = (ucast n, t')"
    "pb_mem t' = bset 48 (air s) (pb_mem t)" "pb_bufptr t' = ucast n" "pb_len t' = pb_len s"
    "pb_addr t' PACKETBUF_ADDR_SENDER = rimeaddr_node_addr s"
    "pb_addr t' PACKETBUF_ADDR_RECEIVER = pb_addr s PACKETBUF_ADDR_RECEIVER" "rimeaddr_node_addr t' = rimeaddr_node_addr t"
    using framer_parse_air [OF assms, of fr t] unfolding n_def by blast
  have n: "n = 15 \<or> n = 21" using header_facts(5) [OF assms(1)] by (auto simp: n_def)
  have "bget (bset 48 (air s) (pb_mem t)) (48 + unat n) (unat (pb_len s)) = packet_data s"
  proof (rule nth_equalityI)
    have l: "length (packet_data s) = unat (pb_len s)" by (simp add: packet_data_def)
    then show "length (bget (bset 48 (air s) (pb_mem t)) (48 + unat n) (unat (pb_len s))) = length (packet_data s)" by simp
    fix i assume i: "i < length (bget (bset 48 (air s) (pb_mem t)) (48 + unat n) (unat (pb_len s)))"
    have "air s ! (unat n + i) = packet_data s ! i"
      using header_facts(9) [OF assms(1)] by (simp add: air_def n_def nth_append)
    then show "bget (bset 48 (air s) (pb_mem t)) (48 + unat n) (unat (pb_len s)) ! i = packet_data s ! i"
      using i length_air(1) [OF assms(1)] by (simp add: bset_nth n_def [symmetric])
  qed
  then have "packet_data t' = packet_data s"
    using t'(2-4) by (simp add: packet_data_def packetbuf_dataptr_def packetbuf_consts unat_ucast_u8 add.commute)
  then show ?thesis using t' n nullrdc_send_air(2) [OF assms(1), of radio]
    by (auto simp: nullrdc_input_def Let_def)
qed

definition demo_sender :: "bytes list mac" where
  "demo_sender = packetbuf_set_addr PACKETBUF_ADDR_RECEIVER [2, 0, 0, 0, 0, 0, 0, 9]
     (packetbuf_copyfrom (\<lambda>i. of_nat (i + 65)) 3 (mac0 [2, 0, 0, 0, 0, 0, 0, 1] 1 []))"

lemma demo_sender_ready: "packet_ready demo_sender" "pb_addr demo_sender PACKETBUF_ADDR_RECEIVER = [2, 0, 0, 0, 0, 0, 0, 9]"
  "packet_data demo_sender = [65, 66, 67]"
  by (simp_all add: demo_sender_def packet_ready_def packetbuf_copyfrom_def packetbuf_clear_def packetbuf_attr_clear_def
      packetbuf_set_addr_def mac0_def csma_init_def queuebuf_init_def Let_def packetbuf_consts packet_data_def
      packetbuf_dataptr_def bget_def upt_rec bset_def)

lemma frame_delivered_witness:
  "packet_data (snd (nullrdc_input zero_frame (radio_receive (air demo_sender) (mac0 [2, 0, 0, 0, 0, 0, 0, 9] 5 ())))) = [65, 66, 67]
   \<and> fst (nullrdc_input zero_frame (radio_receive (air demo_sender) (mac0 [2, 0, 0, 0, 0, 0, 0, 9] 5 ())))"
proof -
  have "pb_addr demo_sender PACKETBUF_ADDR_RECEIVER \<noteq> replicate 8 0xff"
    by (auto simp: demo_sender_ready dest: arg_cong [where f = hd])
  moreover have "rimeaddr_node_addr (mac0 [2, 0, 0, 0, 0, 0, 0, 9] 5 ()) = [2, 0, 0, 0, 0, 0, 0, 9]"
    by (simp add: mac0_def csma_init_def queuebuf_init_def packetbuf_clear_def packetbuf_attr_clear_def)
  ultimately show ?thesis
    using frame_delivered [OF demo_sender_ready(1), of "\<lambda>f u. (RADIO_TX_OK, u @ [f])" zero_frame "mac0 [2, 0, 0, 0, 0, 0, 0, 9] 5 ()"]
    by (simp add: demo_sender_ready split_def Let_def)
qed

end
