(* ===== verification/Net_Csma_Laws.thy ===== *)
theory Net_Csma_Laws
  imports Net_Frame_Laws
begin

text \<open>
  The transmission queue of \<open>csma.c\<close>: every queued packet has a block and a queue buffer of its
  own, none of them is lost, a queue that is not empty always has its timer running, and a
  packet is transmitted as often as the link layer is asked to, but no collision counts.
\<close>

section \<open>The invariant\<close>

text \<open>The queue buffers in use, and those that the queued packets own.\<close>

definition held :: "'z queuebufs_scheme \<Rightarrow> qptr set" where
  "held s = Buf ` pool_used (bufmem s) \<union> Ref ` pool_used (refbufmem s)"

definition owned :: "'u mac \<Rightarrow> qptr set" where
  "owned s = (\<lambda>q. qp_buf (packets s ! q)) ` set (queued_packet_list s)"

text \<open>\<open>E\<close> are the queue buffers that other layers hold.\<close>

definition queue_ok :: "qptr set \<Rightarrow> 'u mac \<Rightarrow> bool" where
  "queue_ok E s \<longleftrightarrow>
     pool_wf (bufmem s) \<and> pool_wf (refbufmem s) \<and> pool_wf (packet_memb s)
     \<and> length (packet_memb s) = length (packets s)
     \<and> distinct (queued_packet_list s) \<and> set (queued_packet_list s) = pool_used (packet_memb s)
     \<and> inj_on (\<lambda>q. qp_buf (packets s ! q)) (set (queued_packet_list s))
     \<and> owned s \<inter> E = {} \<and> held s = owned s \<union> E"

definition timer_ok :: "'u mac \<Rightarrow> bool" where
  "timer_ok s \<longleftrightarrow> \<not> rdc_is_transmitting s \<and> (queued_packet_list s \<noteq> [] \<longrightarrow> transmit_timer s \<noteq> None)"

lemma queue_ok_cong:
  "mac_same s s' \<Longrightarrow> queue_ok E s' = queue_ok E s"
  "mac_same s s' \<Longrightarrow> timer_ok s' = timer_ok s"
  by (simp_all add: mac_same_def queue_ok_def timer_ok_def owned_def held_def)

lemma queue_ok_view:
  assumes "bufmem s' = bufmem s" "refbufmem s' = refbufmem s" "packet_memb s' = packet_memb s"
    "queued_packet_list s' = queued_packet_list s" "length (packets s') = length (packets s)"
    "(\<lambda>q. qp_buf (packets s' ! q)) = (\<lambda>q. qp_buf (packets s ! q))"
  shows "queue_ok E s' = queue_ok E s"
  unfolding queue_ok_def owned_def held_def assms ..

lemmas queue_ok_viewI = queue_ok_view [THEN iffD2]

lemma held_new:
  assumes "queuebuf_new_from_packetbuf s = (Some b, s')" "pool_wf (bufmem s)" "pool_wf (refbufmem s)"
  shows "b \<notin> held s" "held s' = insert b (held s)" "pool_wf (bufmem s')" "pool_wf (refbufmem s')"
  using assms pool.alloc_Some [of "bufmem s"] pool.alloc_Some [of "refbufmem s"]
  by (auto simp: queuebuf_new_from_packetbuf_def held_def Let_def split: option.splits prod.splits)

lemma held_free:
  assumes "b \<in> held s" "pool_wf (bufmem s)" "pool_wf (refbufmem s)"
  shows "held (queuebuf_free b s) = held s - {b}" "pool_wf (bufmem (queuebuf_free b s))"
    "pool_wf (refbufmem (queuebuf_free b s))"
proof (atomize (full), cases b)
  case (Buf i)
  then have "i < length (bufmem s)" using assms by (auto simp: held_def pool_used_def)
  then show "held (queuebuf_free b s) = held s - {b} \<and> pool_wf (bufmem (queuebuf_free b s)) \<and> pool_wf (refbufmem (queuebuf_free b s))"
    using Buf assms pool.free_used [of "bufmem s" i] by (auto simp: held_def queuebuf_free_def)
next
  case (Ref i)
  then have "i < length (refbufmem s)" using assms by (auto simp: held_def pool_used_def)
  then show "held (queuebuf_free b s) = held s - {b} \<and> pool_wf (bufmem (queuebuf_free b s)) \<and> pool_wf (refbufmem (queuebuf_free b s))"
    using Ref assms pool.free_used [of "refbufmem s" i] by (auto simp: held_def queuebuf_free_def)
qed

section \<open>What the operations leave alone\<close>

lemma new_frame:
  "queuebuf_new_from_packetbuf s = (r, s') \<Longrightarrow>
     packet_memb s' = packet_memb s \<and> packets s' = packets s \<and> queued_packet_list s' = queued_packet_list s
     \<and> transmit_timer s' = transmit_timer s \<and> rdc_is_transmitting s' = rdc_is_transmitting s \<and> pb_attr s' = pb_attr s
     \<and> (r = None \<longrightarrow> bufmem s' = bufmem s \<and> refbufmem s' = refbufmem s)"
  by (auto simp: queuebuf_new_from_packetbuf_def Let_def pool_alloc_None split: option.splits prod.splits)

lemma load_same: "mac_same s (queuebuf_to_packetbuf b s)" "user (queuebuf_to_packetbuf b s) = user s"
  by (simp_all add: mac_same_def queuebuf_to_packetbuf_def packetbuf_copyfrom_def packetbuf_clear_def
      packetbuf_attr_clear_def packetbuf_hdralloc_def Let_def split: qptr.split)

lemma create_same: "mac_same s (snd (framer_create s))" "user (snd (framer_create s)) = user s"
proof -
  obtain p s' where p: "framer_params s = (p, s')" by fastforce
  note r = framer_params_result [OF p]
  show "mac_same s (snd (framer_create s))" "user (snd (framer_create s)) = user s"
    using r(1,2) by (auto simp: framer_create_def p Let_def packetbuf_hdralloc_def mac_same_def split: if_splits)
qed

lemma nullrdc_same: "mac_same s (snd (nullrdc_send radio s))"
proof -
  have "mac_same s (snd (framer_create (packetbuf_set_addr PACKETBUF_ADDR_SENDER (rimeaddr_node_addr s) s)))"
    by (rule mac_same_trans [OF mac_same_addr create_same(1)])
  then show ?thesis by (auto simp: nullrdc_send_def Let_def split_def mac_same_def)
qed

lemma callback_same: "mac_same s (mac_call_sent_callback call sent ptr status n s)"
  by (simp add: mac_call_sent_callback_def mac_same_def split: option.split)

lemma direct_same: "mac_same s (send_direct radio call sent ptr s)"
  unfolding send_direct_def split_def by (rule mac_same_trans [OF nullrdc_same callback_same])

section \<open>Operations keep the invariant\<close>

lemma enqueue_ok:
  assumes ok: "queue_ok (insert b E) s0" "b \<notin> E" "timer_ok s0"
    and s: "packet_memb s = snd (pool_alloc (packet_memb s0))" "fst (pool_alloc (packet_memb s0)) = Some q"
      "packets s = packets s0" "queued_packet_list s = queued_packet_list s0" "bufmem s = bufmem s0" "refbufmem s = refbufmem s0"
      "transmit_timer s = transmit_timer s0" "rdc_is_transmitting s = rdc_is_transmitting s0"
  shows "queue_ok E (enqueue q b sent ptr s) \<and> timer_ok (enqueue q b sent ptr s)"
proof -
  have ok0: "pool_wf (packet_memb s0)" "length (packet_memb s0) = length (packets s0)" "distinct (queued_packet_list s0)"
    "set (queued_packet_list s0) = pool_used (packet_memb s0)" "owned s0 \<inter> insert b E = {}" "held s0 = owned s0 \<union> insert b E"
    "inj_on (\<lambda>q. qp_buf (packets s0 ! q)) (set (queued_packet_list s0))" "pool_wf (bufmem s0)" "pool_wf (refbufmem s0)"
    using ok(1) unfolding queue_ok_def by blast+
  have al: "pool_alloc (packet_memb s0) = (Some q, packet_memb s)" using s(1,2) by (simp add: prod_eq_iff)
  note pa = pool.alloc_Some [OF ok0(1) al]
  have a: "q < length (packets s0)" "q \<notin> set (queued_packet_list s0)"
    "pool_used (packet_memb s) = insert q (set (queued_packet_list s0))" "pool_wf (packet_memb s)"
    "length (packet_memb s) = length (packets s0)"
    using pa ok0(2,4) length_pool_alloc [OF al] by simp_all
  let ?t = "enqueue q b sent ptr s"
  define l where "l = (if pb_attr s PACKETBUF_ATTR_PACKET_TYPE = PACKETBUF_ATTR_PACKET_TYPE_ACK
      then q # queued_packet_list s0 else queued_packet_list s0 @ [q])"
  have l: "set l = insert q (set (queued_packet_list s0))" "distinct l" "l \<noteq> []" using a(2) ok0(3) by (simp_all add: l_def)
  have t: "queued_packet_list ?t = l" "packet_memb ?t = packet_memb s" "length (packets ?t) = length (packets s0)"
    "bufmem ?t = bufmem s0" "refbufmem ?t = refbufmem s0" "rdc_is_transmitting ?t = rdc_is_transmitting s0"
    "transmit_timer ?t \<noteq> None"
    using a(2) s(3-) by (simp_all add: enqueue_def Let_def start_transmission_timer_def upd_packet_def l_def)
  have p: "qp_buf (packets ?t ! q) = b" "k \<noteq> q \<Longrightarrow> packets ?t ! k = packets s0 ! k" for k
    using a(1) s(3) by (simp_all add: enqueue_def Let_def start_transmission_timer_def upd_packet_def)
  have im: "qp_buf (packets ?t ! k) = qp_buf (packets s0 ! k)" if "k \<in> set (queued_packet_list s0)" for k
    using that a(2) p(2) [of k] by (cases "k = q") simp_all
  then have "(\<lambda>q. qp_buf (packets ?t ! q)) ` set (queued_packet_list s0) = owned s0"
    unfolding owned_def by (rule image_cong [OF refl])
  then have o: "owned ?t = insert b (owned s0)" by (simp add: owned_def [of ?t] t(1) l(1) p(1))
  have nb: "b \<notin> owned s0" using ok0(5) by blast
  have inj: "inj_on (\<lambda>q. qp_buf (packets ?t ! q)) (set l)"
    unfolding l(1)
  proof (rule inj_on_insert [THEN iffD2], intro conjI)
    show "inj_on (\<lambda>q. qp_buf (packets ?t ! q)) (set (queued_packet_list s0))"
      using ok0(7) im by (simp add: inj_on_def)
    show "qp_buf (packets ?t ! q) \<notin> (\<lambda>q. qp_buf (packets ?t ! q)) ` (set (queued_packet_list s0) - {q})"
      using nb p(1) im by (auto simp: owned_def)
  qed
  have "held ?t = held s0" by (simp add: held_def t)
  then have "held ?t = owned ?t \<union> E" "owned ?t \<inter> E = {}" using ok0(5,6) ok(2) o by auto
  then have "queue_ok E ?t" unfolding queue_ok_def t using ok0(8,9) a(3-5) l inj by simp
  moreover have "timer_ok ?t" using t ok(3) by (simp add: timer_ok_def)
  ultimately show ?thesis ..
qed

lemma free_queued_ok:
  assumes "queue_ok E s"
  shows "queue_ok E (free_queued_packet s) \<and> queued_packet_list (free_queued_packet s) = tl (queued_packet_list s)
    \<and> (queued_packet_list (free_queued_packet s) \<noteq> [] \<longrightarrow> transmit_timer (free_queued_packet s) \<noteq> None)
    \<and> rdc_is_transmitting (free_queued_packet s) = rdc_is_transmitting s \<and> packets (free_queued_packet s) = packets s
    \<and> user (free_queued_packet s) = user s \<and> pb_addr (free_queued_packet s) = pb_addr s"
proof (cases "queued_packet_list s")
  case Nil
  then show ?thesis
    using assms by (simp add: free_queued_packet_def)
next
  case (Cons q qs)
  let ?b = "qp_buf (packets s ! q)" and ?t = "free_queued_packet s"
  have b: "?b \<in> held s" "?b \<notin> E" using assms Cons by (auto simp: queue_ok_def owned_def)
  note h = held_free [OF b(1)]
  have wf: "pool_wf (bufmem s)" "pool_wf (refbufmem s)" "pool_wf (packet_memb s)" "q \<notin> set qs" "distinct qs"
    "length (packet_memb s) = length (packets s)" "insert q (set qs) = pool_used (packet_memb s)"
    "inj_on (\<lambda>q. qp_buf (packets s ! q)) (insert q (set qs))"
    using assms [unfolded queue_ok_def Cons list.set distinct.simps] by blast+
  have q: "q < length (packet_memb s)" using wf(7) by (auto simp: pool_used_def)
  have f: "packets (queuebuf_free ?b s) = packets s" "packet_memb (queuebuf_free ?b s) = packet_memb s"
    "queued_packet_list (queuebuf_free ?b s) = q # qs" "rdc_is_transmitting (queuebuf_free ?b s) = rdc_is_transmitting s"
    "user (queuebuf_free ?b s) = user s" "pb_addr (queuebuf_free ?b s) = pb_addr s"
    using Cons by (simp_all add: queuebuf_free_def split: qptr.split)
  have t: "packets ?t = packets s" "queued_packet_list ?t = qs" "packet_memb ?t = pool_free (packet_memb s) q"
    "held ?t = held s - {?b}" "pool_wf (bufmem ?t)" "pool_wf (refbufmem ?t)" "rdc_is_transmitting ?t = rdc_is_transmitting s"
    "user ?t = user s" "pb_addr ?t = pb_addr s" "qs \<noteq> [] \<Longrightarrow> transmit_timer ?t \<noteq> None"
    using h wf f Cons by (auto simp: free_queued_packet_def Let_def held_def)
  have m: "pool_used (packet_memb ?t) = set qs" "pool_wf (packet_memb ?t)"
    using pool.free_used [OF wf(3), of q] q wf(4,7) by (auto simp: t(3))
  have "owned s = insert ?b (owned ?t)" "?b \<notin> owned ?t"
    using wf(4,8) Cons by (auto simp: owned_def t inj_on_def)
  moreover have inj: "inj_on (\<lambda>q. qp_buf (packets s ! q)) (set qs)" using wf(8) by (rule inj_on_subset) blast
  moreover have E: "owned s \<inter> E = {}" "held s = owned s \<union> E" using assms by (simp_all add: queue_ok_def)
  ultimately show ?thesis
    using m t wf(4-6) b(2) Cons inj E by (auto simp: queue_ok_def)
qed

lemma count_status_buf [simp]: "qp_buf (count_status st Q) = qp_buf Q" "qp_max (count_status st Q) = qp_max Q"
  "qp_sent (count_status st Q) = qp_sent Q" "qp_ptr (count_status st Q) = qp_ptr Q"
  by (simp_all add: count_status_def split: mac_status.split)

lemma upd_packet_ok:
  assumes "queue_ok E s" "\<And>Q. qp_buf (f Q) = qp_buf Q"
  shows "queue_ok E (upd_packet q f s)"
proof -
  have "qp_buf (packets (upd_packet q f s) ! k) = qp_buf (packets s ! k)" for k
    using assms(2) by (simp add: upd_packet_def updf_def nth_list_update)
  then have "queue_ok E (upd_packet q f s) = queue_ok E s"
    by (intro queue_ok_view) (auto simp: upd_packet_def)
  then show ?thesis using assms(1) by simp
qed

lemma update_attr_frame:
  "packets (queuebuf_update_attr_from_packetbuf b s) = packets s"
  "packet_memb (queuebuf_update_attr_from_packetbuf b s) = packet_memb s"
  "queued_packet_list (queuebuf_update_attr_from_packetbuf b s) = queued_packet_list s"
  "bufmem (queuebuf_update_attr_from_packetbuf b s) = bufmem s" "refbufmem (queuebuf_update_attr_from_packetbuf b s) = refbufmem s"
  "transmit_timer (queuebuf_update_attr_from_packetbuf b s) = transmit_timer s"
  "rdc_is_transmitting (queuebuf_update_attr_from_packetbuf b s) = rdc_is_transmitting s"
  "user (queuebuf_update_attr_from_packetbuf b s) = user s"
  "rimeaddr_node_addr (queuebuf_update_attr_from_packetbuf b s) = rimeaddr_node_addr s"
  by (simp_all add: queuebuf_update_attr_from_packetbuf_def split: qptr.split)

lemma packet_sent_ok:
  assumes "queue_ok E s"
  shows "queue_ok E (csma_packet_sent call q status s) \<and> timer_ok (csma_packet_sent call q status s)"
proof -
  define s1 where "s1 = upd_packet q (count_status status) (s\<lparr>rdc_is_transmitting := False\<rparr>)"
  define Q where "Q = packets s1 ! q"
  have ok: "queue_ok E s1" "rdc_is_transmitting s1 = False"
    using upd_packet_ok [OF queue_ok_viewI [where s' = "s\<lparr>rdc_is_transmitting := False\<rparr>"], of s E "count_status status" q] assms
    by (simp_all add: s1_def upd_packet_def)
  have fin: "queue_ok E (mac_call_sent_callback call a b st n (free_queued_packet t))
      \<and> timer_ok (mac_call_sent_callback call a b st n (free_queued_packet t))"
    if "queue_ok E t" "\<not> rdc_is_transmitting t" for t a b st n
    using free_queued_ok [OF that(1)] that(2)
    by (simp only: queue_ok_cong [OF callback_same]) (simp add: timer_ok_def)
  obtain r s2 where s2: "mac_rand s1 = (r, s2)" by fastforce
  have same: "mac_same s1 s2" using mac_same_rand [of s1] s2 by simp
  have ok2: "queue_ok E s2" "\<not> rdc_is_transmitting s2"
    using queue_ok_cong(1) [OF same] ok same by (simp_all add: mac_same_def)
  have retry: "queue_ok E (queuebuf_update_attr_from_packetbuf (qp_buf Q) (s2\<lparr>transmit_timer := Some w\<rparr>))
      \<and> timer_ok (queuebuf_update_attr_from_packetbuf (qp_buf Q) (s2\<lparr>transmit_timer := Some w\<rparr>))" for w
  proof
    show "queue_ok E (queuebuf_update_attr_from_packetbuf (qp_buf Q) (s2\<lparr>transmit_timer := Some w\<rparr>))"
      by (rule queue_ok_viewI [OF _ _ _ _ _ _ ok2(1)]) (simp_all add: update_attr_frame)
    show "timer_ok (queuebuf_update_attr_from_packetbuf (qp_buf Q) (s2\<lparr>transmit_timer := Some w\<rparr>))"
      using ok2(2) by (simp add: timer_ok_def update_attr_frame)
  qed
  show ?thesis
    using fin [OF ok(1)] fin [OF ok2] retry ok(2)
    by (simp add: csma_packet_sent_def s1_def [symmetric] Q_def [symmetric] s2 Let_def)
qed

lemma transmit_ok:
  assumes "queue_ok E s" "timer_ok s"
  shows "queue_ok E (transmit_queued_packet radio call s) \<and> timer_ok (transmit_queued_packet radio call s)"
proof (cases "queued_packet_list s")
  case Nil
  have "queue_ok E (s\<lparr>transmit_timer := None\<rparr>)" by (rule queue_ok_viewI [OF _ _ _ _ _ _ assms(1)]) simp_all
  then show ?thesis using assms(2) Nil by (simp add: transmit_queued_packet_def timer_ok_def)
next
  case (Cons q qs)
  define s1 where "s1 = (queuebuf_to_packetbuf (qp_buf (packets s ! q)) (s\<lparr>transmit_timer := None\<rparr>))\<lparr>rdc_is_transmitting := True\<rparr>"
  obtain st s2 where s2: "nullrdc_send radio s1 = (st, s2)" by fastforce
  have "queue_ok E (s\<lparr>transmit_timer := None\<rparr>)" by (rule queue_ok_viewI [OF _ _ _ _ _ _ assms(1)]) simp_all
  then have "queue_ok E (queuebuf_to_packetbuf (qp_buf (packets s ! q)) (s\<lparr>transmit_timer := None\<rparr>))"
    by (simp add: queue_ok_cong [OF load_same(1)])
  then have "queue_ok E s1" by (rule queue_ok_viewI [rotated 6]) (simp_all add: s1_def)
  then have "queue_ok E s2" using queue_ok_cong(1) [OF nullrdc_same [of s1 radio]] s2 by simp
  then show ?thesis
    using packet_sent_ok [of E s2 call q st] Cons assms(2)
    by (simp add: transmit_queued_packet_def timer_ok_def Let_def s1_def [symmetric] s2)
qed

lemma send_ok:
  assumes "queue_ok E s" "timer_ok s"
  shows "queue_ok E (csma_send radio call sent ptr s) \<and> timer_ok (csma_send radio call sent ptr s)"
proof -
  define s1 where "s1 = (packetbuf_set_attr PACKETBUF_ATTR_MAC_SEQNO (seqno s) s)\<lparr>seqno := seqno s + 1\<rparr>"
  have ok1: "queue_ok E s1" "timer_ok s1"
  proof -
    show "queue_ok E s1" by (rule queue_ok_viewI [OF _ _ _ _ _ _ assms(1)]) (simp_all add: s1_def packetbuf_set_attr_def)
    show "timer_ok s1" using assms(2) by (simp add: s1_def timer_ok_def packetbuf_set_attr_def)
  qed
  have direct: "queue_ok E (send_direct radio call sent ptr t) \<and> timer_ok (send_direct radio call sent ptr t)"
    if "queue_ok E t" "timer_ok t" for t
    using that by (simp add: queue_ok_cong [OF direct_same])
  show ?thesis
  proof (cases "pb_addr s1 PACKETBUF_ADDR_RECEIVER = rimeaddr_null")
    case True
    then show ?thesis using direct [OF ok1] by (simp add: csma_send_def s1_def [symmetric])
  next
    case False
    obtain r c where c: "pool_alloc (packet_memb s1) = (r, c)" by fastforce
    have wf: "pool_wf (bufmem s1)" "pool_wf (refbufmem s1)" "held s1 = owned s1 \<union> E"
      using ok1(1) by (simp_all add: queue_ok_def)
    show ?thesis
    proof (cases r)
      case None
      then have "c = packet_memb s1" using c by (simp add: pool_alloc_None)
      then show ?thesis using False None c direct [OF ok1] by (simp add: csma_send_def s1_def [symmetric])
    next
      case (Some q)
      have free: "pool_free c q = packet_memb s1"
        using pool_alloc_Some [of "packet_memb s1" q c] c Some
        by (auto simp: pool_free_def list_eq_iff_nth_eq nth_list_update)
      obtain b s2 where b: "queuebuf_new_from_packetbuf (s1\<lparr>packet_memb := c\<rparr>) = (b, s2)" by fastforce
      note f = new_frame [OF b]
      show ?thesis
      proof (cases b)
        case None
        have s2: "queue_ok E (s2\<lparr>packet_memb := pool_free (packet_memb s2) q\<rparr>)"
          by (rule queue_ok_viewI [OF _ _ _ _ _ _ ok1(1)]) (use f free None in simp_all)
        have "timer_ok (s2\<lparr>packet_memb := pool_free (packet_memb s2) q\<rparr>)"
          using f ok1(2) by (simp add: timer_ok_def)
        then show ?thesis using direct [OF s2] False Some c b None by (simp add: csma_send_def s1_def [symmetric])
      next
        case (Some b')
        have n: "b' \<notin> held s1" "held s2 = insert b' (held s1)" "pool_wf (bufmem s2)" "pool_wf (refbufmem s2)"
          using held_new [OF b [unfolded Some]] wf(1,2) by (simp_all add: held_def [of "s1\<lparr>packet_memb := c\<rparr>"] held_def [of s1, symmetric])
        define t where "t = s2\<lparr>packet_memb := packet_memb s1\<rparr>"
        have "owned t = owned s1" "held t = held s2" using f by (simp_all add: t_def owned_def held_def)
        then have t: "queue_ok (insert b' E) t" "timer_ok t"
          using n wf f ok1 by (auto simp: queue_ok_def t_def timer_ok_def)
        have "b' \<notin> E" using n(1) wf(3) by blast
        then show ?thesis
          using enqueue_ok [OF t(1) _ t(2), of s2 q sent ptr] f c \<open>r = Some q\<close> False b Some
          by (simp add: csma_send_def s1_def [symmetric] t_def)
      qed
    qed
  qed
qed

section \<open>Reachable states\<close>

text \<open>The link layer in its environment: other layers write to the packet buffer and to the state
  outside (\<open>other\<close>), send packets, and keep and release queue buffers; the timer fires.\<close>

inductive csma_reach :: "'u radio \<Rightarrow> 'u callback \<Rightarrow> qptr set \<Rightarrow> 'u mac \<Rightarrow> bool"
  for radio :: "'u radio" and call :: "'u callback" where
  boot: "csma_reach radio call {} (mac0 a seed u)"
| other: "csma_reach radio call E s \<Longrightarrow> mac_same s s' \<Longrightarrow> csma_reach radio call E s'"
| send: "csma_reach radio call E s \<Longrightarrow> csma_reach radio call E (csma_send radio call sent ptr s)"
| fire: "csma_reach radio call E s \<Longrightarrow> transmit_timer s \<noteq> None \<Longrightarrow>
    csma_reach radio call E (transmit_queued_packet radio call s)"
| hold: "csma_reach radio call E s \<Longrightarrow> queuebuf_new_from_packetbuf s = (Some b, s') \<Longrightarrow>
    csma_reach radio call (insert b E) s'"
| release: "csma_reach radio call E s \<Longrightarrow> b \<in> E \<Longrightarrow> csma_reach radio call (E - {b}) (queuebuf_free b s)"

lemma pool_unused: "pool_wf (replicate n 0)" "pool_used (replicate n 0) = {}"
  by (auto simp: pool_wf_def pool_used_def)

lemma mac0_ok: "queue_ok {} (mac0 a seed u)" "timer_ok (mac0 a seed u)"
  by (simp_all add: mac0_def csma_init_def queuebuf_init_def packetbuf_clear_def packetbuf_attr_clear_def queue_ok_def
      timer_ok_def owned_def held_def pool_unused)

lemma hold_ok:
  assumes "queue_ok E s" "timer_ok s" "queuebuf_new_from_packetbuf s = (Some b, s')"
  shows "queue_ok (insert b E) s' \<and> timer_ok s'"
proof -
  have wf: "pool_wf (bufmem s)" "pool_wf (refbufmem s)" using assms(1) by (simp_all add: queue_ok_def)
  note n = held_new [OF assms(3) wf] and f = new_frame [OF assms(3)]
  have "owned s' = owned s" using f by (simp add: owned_def)
  then show ?thesis using n f assms(1,2) unfolding queue_ok_def timer_ok_def by auto
qed

lemma release_ok:
  assumes "queue_ok E s" "timer_ok s" "b \<in> E"
  shows "queue_ok (E - {b}) (queuebuf_free b s) \<and> timer_ok (queuebuf_free b s)"
proof -
  have wf: "pool_wf (bufmem s)" "pool_wf (refbufmem s)" "b \<in> held s" "b \<notin> owned s"
    using assms(1,3) by (auto simp: queue_ok_def)
  note h = held_free [OF wf(3,1,2)]
  have f: "packets (queuebuf_free b s) = packets s" "packet_memb (queuebuf_free b s) = packet_memb s"
    "queued_packet_list (queuebuf_free b s) = queued_packet_list s" "transmit_timer (queuebuf_free b s) = transmit_timer s"
    "rdc_is_transmitting (queuebuf_free b s) = rdc_is_transmitting s"
    by (simp_all add: queuebuf_free_def split: qptr.split)
  then have "owned (queuebuf_free b s) = owned s" by (simp add: owned_def)
  then show ?thesis using h f wf(4) assms(1,2) unfolding queue_ok_def timer_ok_def by auto
qed

lemma reach_ok: "csma_reach radio call E s \<Longrightarrow> queue_ok E s \<and> timer_ok s"
proof (induction rule: csma_reach.induct)
  case (boot a seed u) then show ?case by (simp add: mac0_ok)
next
  case (other E s s') then show ?case by (simp add: queue_ok_cong)
next
  case (send E s sent ptr) then show ?case using send_ok by blast
next
  case (fire E s) then show ?case using transmit_ok by blast
next
  case (hold E s b s') then show ?case using hold_ok by blast
next
  case (release E s b) then show ?case using release_ok by blast
qed

section \<open>Retransmissions\<close>

text \<open>An environment that records what happens: a radio with the same answer for every frame, and
  the calls of the functions that are told the outcome.\<close>

datatype link_event = Transmitted bytes | Reported nat nat mac_status u16 rimeaddr

definition log_radio :: "radio_tx \<Rightarrow> link_event list radio" where
  "log_radio r f u = (r, u @ [Transmitted f])"

definition log_call :: "link_event list callback" where
  "log_call f ptr status n rcv u = u @ [Reported f ptr status n rcv]"

lemma seq_params:
  assumes "pb_attr s PACKETBUF_ATTR_MAC_SEQNO \<noteq> 0"
  shows "pb_attr (snd (framer_params s)) = pb_attr s"
  using assms by (auto simp: framer_params_def mac_rand_def split_def Let_def)

lemma seq_attr:
  assumes "pb_attr s PACKETBUF_ATTR_MAC_SEQNO \<noteq> 0"
  shows "pb_attr (snd (nullrdc_send radio s)) = pb_attr s"
proof -
  have "pb_attr (snd (framer_create (addressed s))) = pb_attr s"
    using seq_params [of "addressed s"] assms
    by (auto simp: framer_create_def split_def Let_def packetbuf_hdralloc_def addressed_def)
  then show ?thesis by (simp add: nullrdc_send_def addressed_def split_def Let_def)
qed

lemma air_cong:
  assumes "pb_attr s PACKETBUF_ATTR_MAC_SEQNO \<noteq> 0" "pb_attr s' = pb_attr s"
    "pb_addr s' PACKETBUF_ADDR_RECEIVER = pb_addr s PACKETBUF_ADDR_RECEIVER"
    "rimeaddr_node_addr s' = rimeaddr_node_addr s" "pb_len s' = pb_len s" "pb_bufptr s' = pb_bufptr s"
    "packet_data s' = packet_data s"
  shows "air s' = air s"
proof -
  have "header_of s' = header_of s"
    using assms by (simp add: header_of_def framer_params_def mac_rand_def addressed_def packetbuf_set_addr_def split_def
        Let_def packetbuf_dataptr_def)
  then show ?thesis using assms(7) by (simp add: air_def)
qed

lemma load_facts:
  assumes "b = bufs s ! i" "qb_len b \<le> 107"
  defines "t \<equiv> queuebuf_to_packetbuf (Buf i) s"
  shows "pb_len t = qb_len b" "pb_bufptr t = 0" "pb_hdrptr t = 48" "pb_attr t = qb_attr b" "pb_addr t = qb_addr b"
    "rimeaddr_node_addr t = rimeaddr_node_addr s" "packet_data t = bget (qb_data b) 0 (unat (qb_len b))"
proof -
  have l: "\<not> PACKETBUF_SIZE < qb_len b" using assms(2) by (simp add: PACKETBUF_SIZE_def word_less_nat_alt word_le_nat_alt)
  show "pb_len t = qb_len b" "pb_bufptr t = 0" "pb_hdrptr t = 48" "pb_attr t = qb_attr b" "pb_addr t = qb_addr b"
    "rimeaddr_node_addr t = rimeaddr_node_addr s" "packet_data t = bget (qb_data b) 0 (unat (qb_len b))"
    using l by (simp_all add: t_def assms(1) queuebuf_to_packetbuf_def packetbuf_copyfrom_def packetbuf_clear_def
        packetbuf_attr_clear_def Let_def packet_data_def packetbuf_dataptr_def PACKETBUF_HDR_SIZE_def bget_bset_same)
qed

text \<open>The packet \<open>Q\<close> at the head of the queue, in the queue buffer \<open>i\<close>.\<close>

definition head_packet :: "nat \<Rightarrow> nat \<Rightarrow> 'u mac \<Rightarrow> bool" where
  "head_packet q i s \<longleftrightarrow>
     queued_packet_list s \<noteq> [] \<and> q = hd (queued_packet_list s) \<and> q < length (packets s) \<and> \<not> rdc_is_transmitting s
     \<and> qp_buf (packets s ! q) = Buf i \<and> i < length (bufs s) \<and> qb_len (bufs s ! i) \<le> 107
     \<and> qb_attr (bufs s ! i) PACKETBUF_ATTR_MAC_SEQNO \<noteq> 0 \<and> length (rimeaddr_node_addr s) = 8
     \<and> length (qb_addr (bufs s ! i) PACKETBUF_ADDR_RECEIVER) = 8"

definition head_frame :: "nat \<Rightarrow> 'u mac \<Rightarrow> bytes" where
  "head_frame i s = air (queuebuf_to_packetbuf (Buf i) s)"

definition head_receiver :: "nat \<Rightarrow> 'u mac \<Rightarrow> rimeaddr" where
  "head_receiver i s = qb_addr (bufs s ! i) PACKETBUF_ADDR_RECEIVER"

text \<open>The state after a transmission that failed.\<close>

definition retried :: "nat \<Rightarrow> nat \<Rightarrow> queued_packet \<Rightarrow> link_event list mac \<Rightarrow> link_event list mac \<Rightarrow> bool" where
  "retried q i Q s s' \<longleftrightarrow>
     head_packet q i s' \<and> head_frame i s' = head_frame i s \<and> head_receiver i s' = head_receiver i s
     \<and> packets s' ! q = Q \<and> queued_packet_list s' = queued_packet_list s
     \<and> user s' = user s @ [Transmitted (head_frame i s)]"

lemma transmit_step:
  assumes head: "head_packet q i s" and r: "r = RADIO_TX_COLLISION \<or> r = RADIO_TX_NOACK"
  defines "st \<equiv> (if r = RADIO_TX_NOACK then MAC_TX_NOACK else MAC_TX_COLLISION)"
  defines "Q \<equiv> count_status st (packets s ! q)"
  defines "s' \<equiv> transmit_queued_packet (log_radio r) log_call s"
  shows "if qp_transmissions Q < qp_max Q then retried q i Q s s'
    else queued_packet_list s' = tl (queued_packet_list s)
      \<and> user s' = user s @ Transmitted (head_frame i s) #
          (case qp_sent Q of None \<Rightarrow> []
           | Some f \<Rightarrow> [Reported f (qp_ptr Q) st (ucast (qp_transmissions Q)) (head_receiver i s)])"
proof -
  let ?b = "bufs s ! i" and ?t = "queuebuf_to_packetbuf (Buf i) s"
  have h: "queued_packet_list s = q # tl (queued_packet_list s)" "q < length (packets s)" "\<not> rdc_is_transmitting s"
    "qp_buf (packets s ! q) = Buf i" "i < length (bufs s)" "qb_len ?b \<le> 107"
    "qb_attr ?b PACKETBUF_ATTR_MAC_SEQNO \<noteq> 0" "length (rimeaddr_node_addr s) = 8" "length (qb_addr ?b PACKETBUF_ADDR_RECEIVER) = 8"
    using head by (auto simp: head_packet_def)
  obtain qs where qs: "queued_packet_list s = q # qs" using h(1) by blast
  define s1 where "s1 = (queuebuf_to_packetbuf (Buf i) (s\<lparr>transmit_timer := None\<rparr>))\<lparr>rdc_is_transmitting := True\<rparr>"
  have L: "pb_len s1 = qb_len ?b" "pb_bufptr s1 = 0" "pb_hdrptr s1 = 48" "pb_attr s1 = qb_attr ?b" "pb_addr s1 = qb_addr ?b"
    "rimeaddr_node_addr s1 = rimeaddr_node_addr s" "packet_data s1 = bget (qb_data ?b) 0 (unat (qb_len ?b))"
    using load_facts [of ?b "s\<lparr>transmit_timer := None\<rparr>" i] h(6)
    by (simp_all add: s1_def packet_data_def packetbuf_dataptr_def)
  note T = load_facts [OF refl h(6)]
  have ready: "packet_ready s1" using L h by (simp add: packet_ready_def)
  have F: "air s1 = head_frame i s" unfolding head_frame_def by (rule air_cong) (use L T h in simp_all)
  have same1: "bufs s1 = bufs s" "packets s1 = packets s" "queued_packet_list s1 = queued_packet_list s" "user s1 = user s"
    "rimeaddr_node_addr s1 = rimeaddr_node_addr s"
    using load_same [where s = "s\<lparr>transmit_timer := None\<rparr>" and b = "Buf i"] by (simp_all add: s1_def mac_same_def)
  obtain st' s2 where s2: "nullrdc_send (log_radio r) s1 = (st', s2)" by fastforce
  note N = nullrdc_send_air [OF ready, of "log_radio r", unfolded s2 fst_conv snd_conv]
  have st': "st' = st" using N(1) r by (auto simp: log_radio_def st_def)
  have N2: "user s2 = user s @ [Transmitted (head_frame i s)]" "bufs s2 = bufs s" "packets s2 = packets s"
    "queued_packet_list s2 = queued_packet_list s" "rimeaddr_node_addr s2 = rimeaddr_node_addr s"
    "pb_addr s2 PACKETBUF_ADDR_RECEIVER = head_receiver i s" "pb_attr s2 = qb_attr ?b"
    using N(2-4) same1 F L seq_attr [of s1 "log_radio r"] h(7) s2
    by (simp_all add: log_radio_def mac_same_def head_receiver_def)
  have stc: "st = MAC_TX_COLLISION \<or> st = MAC_TX_NOACK" by (simp add: st_def)
  define s3 where "s3 = upd_packet q (count_status st) (s2\<lparr>rdc_is_transmitting := False\<rparr>)"
  have s3: "packets s3 ! q = Q" "length (packets s3) = length (packets s)" "user s3 = user s2" "bufs s3 = bufs s"
    "queued_packet_list s3 = queued_packet_list s" "rimeaddr_node_addr s3 = rimeaddr_node_addr s" "\<not> rdc_is_transmitting s3"
    "pb_addr s3 = pb_addr s2" "pb_attr s3 = pb_attr s2"
    using N2 h(2) by (simp_all add: s3_def upd_packet_def Q_def)
  obtain rnd s4 where s4: "mac_rand s3 = (rnd, s4)" by fastforce
  have R: "packets s4 = packets s3" "user s4 = user s3" "bufs s4 = bufs s3" "queued_packet_list s4 = queued_packet_list s3"
    "rimeaddr_node_addr s4 = rimeaddr_node_addr s3" "\<not> rdc_is_transmitting s4" "pb_addr s4 = pb_addr s3" "pb_attr s4 = pb_attr s3"
    using s4 s3(7) by (auto simp: mac_rand_def split: prod.splits)
  have Qb: "qp_buf Q = Buf i" "qp_sent Q = qp_sent (packets s ! q)" using h(4) by (simp_all add: Q_def)
  have E: "s' = (if qp_transmissions Q < qp_max Q
       then queuebuf_update_attr_from_packetbuf (Buf i) (s4\<lparr>transmit_timer := Some (backoff_time (qp_transmissions Q) rnd)\<rparr>)
       else mac_call_sent_callback log_call (qp_sent Q) (qp_ptr Q) st (ucast (qp_transmissions Q)) (free_queued_packet s4))"
  proof -
    have "s' = csma_packet_sent log_call q st s2"
      using qs h(3,4) s2 st' by (simp add: s'_def transmit_queued_packet_def s1_def [symmetric] Let_def)
    then show ?thesis
      using s4 s3(1) Qb stc by (simp add: csma_packet_sent_def s3_def [symmetric] Let_def)
  qed
  show ?thesis
  proof (cases "qp_transmissions Q < qp_max Q")
    case True
    define b' where "b' = ?b\<lparr>qb_attr := pb_attr s4, qb_addr := pb_addr s4\<rparr>"
    have P: "bufs s' = (bufs s)[i := b']" "packets s' = packets s3" "queued_packet_list s' = queued_packet_list s"
      "rimeaddr_node_addr s' = rimeaddr_node_addr s" "\<not> rdc_is_transmitting s'" "user s' = user s2"
      using True R s3 h(5) by (simp_all add: E queuebuf_update_attr_from_packetbuf_def b'_def updf_def)
    have B: "bufs s' ! i = b'" "qb_len b' = qb_len ?b" "qb_data b' = qb_data ?b" "qb_attr b' = qb_attr ?b"
      "qb_addr b' PACKETBUF_ADDR_RECEIVER = head_receiver i s"
      using P(1) h(5) R s3 N2 by (simp_all add: b'_def)
    have hp: "head_packet q i s'"
      using P B h(2-) R s3 Qb qs by (simp add: head_packet_def head_receiver_def)
    note T' = load_facts [of b' s' i, OF B(1) [symmetric]]
    have "head_frame i s' = head_frame i s"
      unfolding head_frame_def by (rule air_cong) (use T' T B P(4) h(6,7) in \<open>simp_all add: head_receiver_def\<close>)
    then show ?thesis using True hp P B N2(1) s3(1) by (simp add: retried_def head_receiver_def)
  next
    case False
    have qs4: "queued_packet_list s4 = q # qs" using qs R(4) s3(5) by simp
    have fr: "queued_packet_list (free_queued_packet s4) = qs" "user (free_queued_packet s4) = user s4"
      "pb_addr (free_queued_packet s4) = pb_addr s4"
      using qs4 by (auto simp: free_queued_packet_def Let_def queuebuf_free_def split: qptr.split)
    then show ?thesis
      using False qs R s3 N2 by (simp add: E mac_call_sent_callback_def log_call_def split: option.split)
  qed
qed

lemma noack_steps:
  assumes "head_packet q i s" "qp_transmissions (packets s ! q) = 0" "k < unat (qp_max (packets s ! q))"
  defines "s' \<equiv> (transmit_queued_packet (log_radio RADIO_TX_NOACK) log_call ^^ k) s"
  shows "head_packet q i s' \<and> head_frame i s' = head_frame i s \<and> head_receiver i s' = head_receiver i s
    \<and> packets s' ! q = (packets s ! q)\<lparr>qp_transmissions := of_nat k\<rparr>
    \<and> queued_packet_list s' = queued_packet_list s \<and> user s' = user s @ replicate k (Transmitted (head_frame i s))"
  using assms(3) unfolding s'_def
proof (induction k)
  case 0
  then show ?case using assms(1,2) by simp
next
  case (Suc k)
  let ?s = "(transmit_queued_packet (log_radio RADIO_TX_NOACK) log_call ^^ k) s"
  have IH: "head_packet q i ?s" "head_frame i ?s = head_frame i s" "head_receiver i ?s = head_receiver i s"
    "packets ?s ! q = (packets s ! q)\<lparr>qp_transmissions := of_nat k\<rparr>" "queued_packet_list ?s = queued_packet_list s"
    "user ?s = user s @ replicate k (Transmitted (head_frame i s))"
    using Suc.IH [OF Suc_lessD [OF Suc.prems]] by simp_all
  have "Suc k < 256" using Suc.prems u8_less_256 [of "qp_max (packets s ! q)"] by linarith
  then have n: "of_nat k + 1 < qp_max (packets s ! q)"
    using Suc.prems u8_of_nat [of "Suc k"] by (simp add: word_less_nat_alt add.commute)
  have Q: "count_status MAC_TX_NOACK (packets ?s ! q) = (packets s ! q)\<lparr>qp_transmissions := of_nat (Suc k)\<rparr>"
    by (simp add: IH(4) count_status_def add.commute)
  show ?case
    using transmit_step [OF IH(1), of RADIO_TX_NOACK] n IH Q
    by (simp add: retried_def add.commute replicate_append_same)
qed

lemma collision_steps:
  fixes k :: nat
  assumes "head_packet q i s" "qp_transmissions (packets s ! q) < qp_max (packets s ! q)"
  defines "s' \<equiv> (transmit_queued_packet (log_radio RADIO_TX_COLLISION) log_call ^^ k) s"
  shows "head_packet q i s' \<and> head_frame i s' = head_frame i s
    \<and> qp_transmissions (packets s' ! q) = qp_transmissions (packets s ! q) \<and> qp_max (packets s' ! q) = qp_max (packets s ! q)
    \<and> queued_packet_list s' = queued_packet_list s \<and> user s' = user s @ replicate k (Transmitted (head_frame i s))"
  unfolding s'_def
proof (induction k)
  case 0
  then show ?case using assms(1) by simp
next
  case (Suc k)
  let ?s = "(transmit_queued_packet (log_radio RADIO_TX_COLLISION) log_call ^^ k) s"
  have Q: "qp_transmissions (count_status MAC_TX_COLLISION (packets ?s ! q)) = qp_transmissions (packets s ! q)"
    using Suc by (simp add: count_status_def)
  show ?case
    using transmit_step [of q i ?s RADIO_TX_COLLISION] Suc assms(2) Q
    by (auto simp: retried_def replicate_append_same)
qed

section \<open>Properties\<close>

text \<open>C30: In every run of the link layer, with any radio and any functions to call, the packets
  in the queue are exactly the allocated blocks of \<open>packet_memb\<close>, each once; each has a queue
  buffer of its own, and no queue buffer is allocated that neither a queued packet nor another
  layer holds; and a queue that is not empty has its timer running, so no packet is stuck.\<close>

theorem reachable_queue_sound:
  assumes "csma_reach radio call E s"
  shows "distinct (queued_packet_list s) \<and> set (queued_packet_list s) = pool_used (packet_memb s)
    \<and> inj_on (\<lambda>q. qp_buf (packets s ! q)) (set (queued_packet_list s))
    \<and> held s = owned s \<union> E \<and> owned s \<inter> E = {}
    \<and> (queued_packet_list s \<noteq> [] \<longrightarrow> transmit_timer s \<noteq> None)"
  using reach_ok [OF assms] unfolding queue_ok_def timer_ok_def by blast

text \<open>C31: A packet that is never acknowledged is transmitted exactly as often as its maximum says,
  the same frame each time; then the function that came with it is told that there was no
  acknowledgement and how many transmissions there were, and the packet leaves the queue.\<close>

theorem unacknowledged_packet_reported:
  assumes "head_packet q i s" "qp_transmissions (packets s ! q) = 0" "qp_max (packets s ! q) = m" "0 < m"
    "qp_sent (packets s ! q) = Some f"
  shows "let s' = (transmit_queued_packet (log_radio RADIO_TX_NOACK) log_call ^^ unat m) s in
    queued_packet_list s' = tl (queued_packet_list s) \<and>
    user s' = user s @ replicate (unat m) (Transmitted (head_frame i s))
      @ [Reported f (qp_ptr (packets s ! q)) MAC_TX_NOACK (ucast m) (head_receiver i s)]"
proof -
  obtain k where k: "unat m = Suc k" using assms(4) by (cases "unat m") (auto simp: word_less_nat_alt)
  let ?s = "(transmit_queued_packet (log_radio RADIO_TX_NOACK) log_call ^^ k) s"
  note S = noack_steps [OF assms(1,2), of k]
  have "unat (of_nat (Suc k) :: u8) = Suc k" by (rule u8_of_nat) (use k u8_less_256 [of m] in linarith)
  then have mk: "of_nat (Suc k) = m" using k by (simp only: word_unat_eq_iff)
  have Q: "count_status MAC_TX_NOACK (packets ?s ! q) = (packets s ! q)\<lparr>qp_transmissions := m\<rparr>"
    using S k assms(3) mk by (simp add: count_status_def add.commute)
  show ?thesis
    using transmit_step [of q i ?s RADIO_TX_NOACK] S k assms(3,5) Q
    by (simp add: Let_def replicate_append_same [symmetric])
qed

text \<open>Collisions are not counted: while the radio reports collisions, the packet stays at the head
  of the queue and is transmitted again, whatever its maximum.\<close>

theorem collisions_not_counted:
  assumes "head_packet q i s" "qp_transmissions (packets s ! q) < qp_max (packets s ! q)"
  shows "let s' = (transmit_queued_packet (log_radio RADIO_TX_COLLISION) log_call ^^ n) s in
    queued_packet_list s' = queued_packet_list s \<and> user s' = user s @ replicate n (Transmitted (head_frame i s))"
  using collision_steps [OF assms] by (simp add: Let_def)

section \<open>Concrete packets\<close>

definition demo_packet :: "link_event list mac" where
  "demo_packet = packetbuf_set_addr PACKETBUF_ADDR_RECEIVER [2, 0, 0, 0, 0, 0, 0, 9]
     (packetbuf_copyfrom (\<lambda>i. of_nat (i + 65)) 3 (mac0 [2, 0, 0, 0, 0, 0, 0, 1] 1 []))"

definition demo_queue :: "u16 \<Rightarrow> link_event list mac" where
  "demo_queue n = csma_send (log_radio RADIO_TX_NOACK) log_call (Some 7) 9 (demo_packet\<lparr>seqno := n\<rparr>)"

lemma demo_packet_same: "mac_same (mac0 [2, 0, 0, 0, 0, 0, 0, 1] 1 []) demo_packet"
  by (simp add: demo_packet_def mac_same_def packetbuf_copyfrom_def packetbuf_clear_def packetbuf_attr_clear_def
      packetbuf_set_addr_def Let_def)

lemma demo_packet_view:
  "pb_len demo_packet = 3" "pb_bufptr demo_packet = 0" "pb_hdrptr demo_packet = 48" "pb_ref demo_packet = None"
  "pb_attr demo_packet = (\<lambda>_. 0)" "pb_addr demo_packet PACKETBUF_ADDR_RECEIVER = [2, 0, 0, 0, 0, 0, 0, 9]"
  "packet_memb demo_packet = replicate 6 0" "bufmem demo_packet = replicate 8 0" "queued_packet_list demo_packet = []"
  "transmit_timer demo_packet = None" "length (packets demo_packet) = 6" "length (bufs demo_packet) = 8"
  "rdc_is_transmitting demo_packet = False" "rimeaddr_node_addr demo_packet = [2, 0, 0, 0, 0, 0, 0, 1]" "seqno demo_packet = 0"
  "user demo_packet = []"
  by (simp_all add: demo_packet_def packetbuf_copyfrom_def packetbuf_clear_def packetbuf_attr_clear_def packetbuf_set_addr_def
      mac0_def csma_init_def queuebuf_init_def Let_def packetbuf_consts MAX_QUEUED_PACKETS_def QUEUEBUF_NUM_def)

lemma demo_alloc: "pool_alloc (replicate 6 0) = (Some 0, (replicate 6 0)[0 := 1])"
  "pool_alloc (replicate 8 0) = (Some 0, (replicate 8 0)[0 := 1])"
  by code_simp+

lemma demo_queue_view:
  "queued_packet_list (demo_queue n) = [0]" "transmit_timer (demo_queue n) = Some 0" "user (demo_queue n) = []"
  "packets (demo_queue n) ! 0 = \<lparr>qp_buf = Buf 0, qp_sent = Some 7, qp_ptr = 9, qp_transmissions = 0, qp_max = 3,
     qp_collisions = 0, qp_deferrals = 0\<rparr>"
  "length (packets (demo_queue n)) = 6" "length (bufs (demo_queue n)) = 8" "\<not> rdc_is_transmitting (demo_queue n)"
  "qb_len (bufs (demo_queue n) ! 0) = 3" "qb_attr (bufs (demo_queue n) ! 0) PACKETBUF_ATTR_MAC_SEQNO = n"
  "qb_addr (bufs (demo_queue n) ! 0) PACKETBUF_ADDR_RECEIVER = [2, 0, 0, 0, 0, 0, 0, 9]"
  "rimeaddr_node_addr (demo_queue n) = [2, 0, 0, 0, 0, 0, 0, 1]"
proof -
  let ?s = "(packetbuf_set_attr PACKETBUF_ATTR_MAC_SEQNO n (demo_packet\<lparr>seqno := n\<rparr>))\<lparr>seqno := n + 1\<rparr>"
  have null: "[2, 0, 0, 0, 0, 0, 0, 9] \<noteq> rimeaddr_null"
    by (auto simp: rimeaddr_null_def dest: arg_cong [where f = hd])
  have E: "demo_queue n = enqueue 0 (Buf 0) (Some 7) 9
      (snd (queuebuf_new_from_packetbuf (?s\<lparr>packet_memb := (replicate 6 0)[0 := 1]\<rparr>)))"
    using null by (simp add: demo_queue_def csma_send_def demo_packet_view packetbuf_set_attr_def demo_alloc
        queuebuf_new_from_packetbuf_def Let_def)
  show "queued_packet_list (demo_queue n) = [0]" "transmit_timer (demo_queue n) = Some 0" "user (demo_queue n) = []"
  "packets (demo_queue n) ! 0 = \<lparr>qp_buf = Buf 0, qp_sent = Some 7, qp_ptr = 9, qp_transmissions = 0, qp_max = 3,
     qp_collisions = 0, qp_deferrals = 0\<rparr>"
  "length (packets (demo_queue n)) = 6" "length (bufs (demo_queue n)) = 8" "\<not> rdc_is_transmitting (demo_queue n)"
  "qb_len (bufs (demo_queue n) ! 0) = 3" "qb_attr (bufs (demo_queue n) ! 0) PACKETBUF_ATTR_MAC_SEQNO = n"
  "qb_addr (bufs (demo_queue n) ! 0) PACKETBUF_ADDR_RECEIVER = [2, 0, 0, 0, 0, 0, 0, 9]"
  "rimeaddr_node_addr (demo_queue n) = [2, 0, 0, 0, 0, 0, 0, 1]"
    by (simp_all add: E queuebuf_new_from_packetbuf_def packetbuf_set_attr_def demo_packet_view demo_alloc Let_def
        enqueue_def upd_packet_def start_transmission_timer_def PACKETBUF_ATTR_PACKET_TYPE_ACK_def
        CSMA_MAX_MAC_TRANSMISSIONS_def packetbuf_copyto_def packetbuf_copyto_hdr_def packetbuf_consts)
qed

lemma demo_queue_reach: "csma_reach (log_radio RADIO_TX_NOACK) log_call {} (demo_queue 0)"
proof -
  have "csma_reach (log_radio RADIO_TX_NOACK) log_call {} demo_packet"
    by (rule csma_reach.other [OF csma_reach.boot demo_packet_same])
  moreover have "demo_packet\<lparr>seqno := 0\<rparr> = demo_packet" by (simp add: demo_packet_view(15) [symmetric])
  ultimately show ?thesis unfolding demo_queue_def by (simp add: csma_reach.send)
qed

lemma reachable_queue_sound_witness:
  "queued_packet_list (demo_queue 0) = [0] \<and> pool_used (packet_memb (demo_queue 0)) = {0}
   \<and> held (demo_queue 0) = {Buf 0} \<and> transmit_timer (demo_queue 0) \<noteq> None"
  using reachable_queue_sound [OF demo_queue_reach] by (simp add: demo_queue_view owned_def)

lemma unacknowledged_packet_reported_witness:
  "user ((transmit_queued_packet (log_radio RADIO_TX_NOACK) log_call ^^ 3) (demo_queue 5)) =
     replicate 3 (Transmitted (head_frame 0 (demo_queue 5)))
     @ [Reported 7 9 MAC_TX_NOACK 3 [2, 0, 0, 0, 0, 0, 0, 9]]"
proof -
  have "head_packet 0 0 (demo_queue 5)" by (simp add: head_packet_def demo_queue_view)
  from unacknowledged_packet_reported [OF this, of 3 7] show ?thesis
    by (simp add: demo_queue_view Let_def head_receiver_def)
qed

end
